(* ===== verification/GoPrelude.thy ===== *)
theory GoPrelude
  imports Main
begin

text \<open>
  The part of Go and of its standard library that the modelled packages rely on, and the
  lemmas about it that the component theories share.

  \<^item> \<^emph>\<open>Integers.\<close> Go's \<open>int\<close> and \<open>int64\<close> are 64-bit two's complement on the
    supported platforms (Linux on x86-64 and arm64). They are values of type \<open>int\<close>;
    where an operation can leave the range, the wrap-around is written out with
    \<open>wrap64\<close>. Go's remainder keeps the sign of the dividend (\<open>go_rem\<close>).
  \<^item> \<^emph>\<open>Strings\<close> are byte lists (\<open>string\<close>), as Go's are. \<open>TrimSpace\<close>,
    \<open>ToUpper\<close> and \<open>ToLower\<close> are modelled on ASCII text.
  \<^item> \<^emph>\<open>Errors\<close> are the tree that \<open>errors.Is\<close> walks: package-level error values,
    \<open>fmt.Errorf\<close> with no, one or two \<open>%w\<close> verbs, and the marked errors of
    \<open>internal/operr\<close>.
  \<^item> \<^emph>\<open>Instants\<close> (\<open>time.Time\<close>) are nanoseconds since January 1 of year 1, UTC, so the
    zero \<open>time.Time\<close> is 0 and the UTC hour and minute are plain quotients.
\<close>

named_theorems go_simps "equations for the modelled standard library"
named_theorems frame_simps "which tables and stores an operation leaves alone"

section \<open>Integers\<close>

definition min_int64 :: int where "min_int64 = - (2 ^ 63)"
definition max_int64 :: int where "max_int64 = 2 ^ 63 - 1"

definition wrap64 :: "int \<Rightarrow> int" where
  "wrap64 x = (x + 2 ^ 63) mod 2 ^ 64 - 2 ^ 63"

lemma wrap64_range: "min_int64 \<le> wrap64 x \<and> wrap64 x \<le> max_int64"
  by (simp add: wrap64_def min_int64_def max_int64_def)

lemma wrap64_id: "min_int64 \<le> x \<Longrightarrow> x \<le> max_int64 \<Longrightarrow> wrap64 x = x"
  by (simp add: wrap64_def min_int64_def max_int64_def)

lemma wrap64_le:
  assumes "min_int64 \<le> x"
  shows "wrap64 x \<le> x"
proof -
  have "0 \<le> x + 2 ^ 63" using assms by (simp add: min_int64_def)
  then have "(x + 2 ^ 63) mod 2 ^ 64 \<le> x + 2 ^ 63"
    by (rule zmod_le_nonneg_dividend)
  then show ?thesis by (simp add: wrap64_def)
qed

text \<open>Go's truncated remainder.\<close>

definition go_rem :: "int \<Rightarrow> int \<Rightarrow> int" where
  "go_rem a b = (if a < 0 then - ((- a) mod \<bar>b\<bar>) else a mod \<bar>b\<bar>)"

lemma go_rem_normalised:
  assumes "0 < b"
  shows "go_rem (go_rem a b + b) b = a mod b"
proof (cases "a < 0")
  case True
  have "0 \<le> (- a) mod b" and "(- a) mod b < b" using assms by simp_all
  then have "\<not> - ((- a) mod b) + b < 0" by linarith
  then have "go_rem (go_rem a b + b) b = (b - (- a) mod b) mod b"
    using True assms by (simp add: go_rem_def del: mod_add_self2)
  also have "\<dots> = a mod b"
    using assms by (simp add: mod_minus_eq)
  finally show ?thesis .
next
  case False
  then show ?thesis using assms by (simp add: go_rem_def)
qed

section \<open>Strings\<close>

definition HasPrefix :: "string \<Rightarrow> string \<Rightarrow> bool" where
  "HasPrefix s p = (take (length p) s = p)"

definition HasSuffix :: "string \<Rightarrow> string \<Rightarrow> bool" where
  "HasSuffix s p = (length p \<le> length s \<and> drop (length s - length p) s = p)"

definition TrimSuffix :: "string \<Rightarrow> string \<Rightarrow> string" where
  "TrimSuffix s p = (if HasSuffix s p then take (length s - length p) s else s)"

text \<open>\<open>strings.CutPrefix\<close>: the rest, when the prefix is there.\<close>

definition CutPrefix :: "string \<Rightarrow> string \<Rightarrow> string option" where
  "CutPrefix s p = (if HasPrefix s p then Some (drop (length p) s) else None)"

text \<open>\<open>strings.Cut\<close> at a one-byte separator: the parts around its first occurrence.\<close>

fun CutChar :: "char \<Rightarrow> string \<Rightarrow> (string \<times> string) option" where
  "CutChar c [] = None"
| "CutChar c (x # xs) =
     (if x = c then Some ([], xs)
      else case CutChar c xs of None \<Rightarrow> None | Some (a, b) \<Rightarrow> Some (x # a, b))"

fun SplitChar :: "char \<Rightarrow> string \<Rightarrow> string list" where
  "SplitChar c [] = [[]]"
| "SplitChar c (x # xs) =
     (if x = c then [] # SplitChar c xs
      else case SplitChar c xs of [] \<Rightarrow> [[x]] | p # ps \<Rightarrow> (x # p) # ps)"

fun JoinWith :: "string \<Rightarrow> string list \<Rightarrow> string" where
  "JoinWith sep [] = []"
| "JoinWith sep [x] = x"
| "JoinWith sep (x # y # ys) = x @ sep @ JoinWith sep (y # ys)"

fun Contains :: "string \<Rightarrow> string \<Rightarrow> bool" where
  "Contains [] p = (p = [])"
| "Contains (x # xs) p = (HasPrefix (x # xs) p \<or> Contains xs p)"

definition is_space :: "char \<Rightarrow> bool" where
  "is_space c = (of_char c \<in> {9, 10, 11, 12, 13, 32 :: nat})"

definition TrimSpace :: "string \<Rightarrow> string" where
  "TrimSpace s = rev (dropWhile is_space (rev (dropWhile is_space s)))"

definition upper_char :: "char \<Rightarrow> char" where
  "upper_char c = (if 97 \<le> (of_char c :: nat) \<and> (of_char c :: nat) \<le> 122
                   then char_of ((of_char c :: nat) - 32) else c)"

definition lower_char :: "char \<Rightarrow> char" where
  "lower_char c = (if 65 \<le> (of_char c :: nat) \<and> (of_char c :: nat) \<le> 90
                   then char_of ((of_char c :: nat) + 32) else c)"

definition ToUpper :: "string \<Rightarrow> string" where "ToUpper s = map upper_char s"
definition ToLower :: "string \<Rightarrow> string" where "ToLower s = map lower_char s"

lemma HasPrefix_append [simp]: "HasPrefix (p @ s) p"
  by (simp add: HasPrefix_def)

lemma HasSuffix_append [simp]: "HasSuffix (s @ p) p"
  by (simp add: HasSuffix_def)

lemma HasSuffix_iff: "HasSuffix s p \<longleftrightarrow> (\<exists>q. s = q @ p)"
proof
  assume "HasSuffix s p"
  then have "s = take (length s - length p) s @ p"
    by (metis HasSuffix_def append_take_drop_id)
  then show "\<exists>q. s = q @ p" by blast
qed auto

lemma TrimSuffix_append [simp]: "TrimSuffix (s @ p) p = s"
  by (simp add: TrimSuffix_def)

lemma CutPrefix_append [simp]: "CutPrefix (p @ s) p = Some s"
  by (simp add: CutPrefix_def)

lemma CutPrefix_Some: "CutPrefix s p = Some r \<Longrightarrow> s = p @ r"
  by (auto simp: CutPrefix_def HasPrefix_def split: if_splits)
     (metis append_take_drop_id)

lemma CutChar_append [simp]: "c \<notin> set a \<Longrightarrow> CutChar c (a @ c # b) = Some (a, b)"
  by (induction a) auto

lemma CutChar_Some: "CutChar c s = Some (a, b) \<Longrightarrow> s = a @ c # b \<and> c \<notin> set a"
  by (induction s arbitrary: a b) (auto split: if_splits option.splits prod.splits)

lemma CutChar_None: "CutChar c s = None \<longleftrightarrow> c \<notin> set s"
  by (induction s) (auto split: option.splits)

lemma SplitChar_nonempty [simp]: "SplitChar c s \<noteq> []"
  by (cases s) (auto split: list.splits)

lemma SplitChar_no_sep: "c \<notin> set s \<Longrightarrow> SplitChar c s = [s]"
  by (induction s) auto

lemma SplitChar_append: "c \<notin> set a \<Longrightarrow> SplitChar c (a @ c # b) = a # SplitChar c b"
  by (induction a) auto

text \<open>Splitting what was joined gives the parts back, when no part holds the separator.\<close>

lemma SplitChar_JoinWith:
  "xs \<noteq> [] \<Longrightarrow> \<forall>x \<in> set xs. c \<notin> set x \<Longrightarrow> SplitChar c (JoinWith [c] xs) = xs"
  by (induction "[c]" xs rule: JoinWith.induct) (auto simp: SplitChar_no_sep SplitChar_append)

lemma JoinWith_eq_Nil: "JoinWith [c] xs = [] \<longleftrightarrow> xs = [] \<or> xs = [[]]"
  by (induction "[c]" xs rule: JoinWith.induct) auto

section \<open>Decimal numbers\<close>

definition is_digit :: "char \<Rightarrow> bool" where
  "is_digit c = (48 \<le> (of_char c :: nat) \<and> (of_char c :: nat) \<le> 57)"

definition digit_val :: "char \<Rightarrow> nat" where
  "digit_val c = of_char c - 48"

fun digits_value :: "nat \<Rightarrow> string \<Rightarrow> nat option" where
  "digits_value acc [] = Some acc"
| "digits_value acc (c # cs) =
     (if is_digit c then digits_value (10 * acc + digit_val c) cs else None)"

fun nat_digits :: "nat \<Rightarrow> string" where
  "nat_digits n =
     (if n < 10 then [char_of (48 + n)] else nat_digits (n div 10) @ [char_of (48 + n mod 10)])"

declare nat_digits.simps [simp del]

definition Itoa :: "int \<Rightarrow> string" where
  "Itoa i = (if i < 0 then CHR ''-'' # nat_digits (nat (- i)) else nat_digits (nat i))"

text \<open>
  The unsigned magnitude that \<open>strconv.Atoi\<close> and base-10 \<open>strconv.ParseInt\<close> read
  after the optional sign: at least one digit and nothing else.
\<close>

definition magnitude :: "string \<Rightarrow> nat option" where
  "magnitude ds = (if ds = [] then None else digits_value 0 ds)"

definition parse_int :: "string \<Rightarrow> int option" where
  "parse_int s =
     (case s of
        [] \<Rightarrow> None
      | c # cs \<Rightarrow>
          (if c = CHR ''-'' then map_option (\<lambda>n. - int n) (magnitude cs)
           else if c = CHR ''+'' then map_option int (magnitude cs)
           else map_option int (magnitude s)))"

lemma digit_char [simp]:
  assumes "d < 10"
  shows "is_digit (char_of (48 + d))" and "digit_val (char_of (48 + d)) = d"
proof -
  have "(of_char (char_of (48 + d) :: char) :: nat) = 48 + d"
    using assms by (simp add: of_char_of)
  then show "is_digit (char_of (48 + d))" and "digit_val (char_of (48 + d)) = d"
    using assms by (simp_all add: is_digit_def digit_val_def)
qed

lemma digits_value_append:
  "digits_value acc (xs @ ys) =
     (case digits_value acc xs of None \<Rightarrow> None | Some a \<Rightarrow> digits_value a ys)"
  by (induction xs arbitrary: acc) auto

lemma digits_value_nat_digits: "digits_value 0 (nat_digits n) = Some n"
proof (induction n rule: nat_digits.induct)
  case (1 n)
  show ?case
  proof (cases "n < 10")
    case True
    then show ?thesis by (subst nat_digits.simps) simp
  next
    case False
    then have "digits_value 0 (nat_digits (n div 10)) = Some (n div 10)"
      using 1 by simp
    then show ?thesis using False
      by (subst nat_digits.simps) (simp add: digits_value_append)
  qed
qed

lemma nat_digits_nonempty [simp]: "nat_digits n \<noteq> []"
  by (subst nat_digits.simps) simp

lemma nat_digits_all: "c \<in> set (nat_digits n) \<Longrightarrow> is_digit c"
proof (induction n rule: nat_digits.induct)
  case (1 n)
  show ?case
  proof (cases "n < 10")
    case True
    then show ?thesis using 1(2) by (subst (asm) nat_digits.simps) simp
  next
    case False
    then have "c \<in> set (nat_digits (n div 10)) \<or> c = char_of (48 + n mod 10)"
      using 1(2) by (subst (asm) nat_digits.simps) auto
    then show ?thesis using 1(1) False by auto
  qed
qed

lemma sign_not_digit [simp]: "\<not> is_digit (CHR ''-'')" "\<not> is_digit (CHR ''+'')"
  by (simp_all add: is_digit_def)

lemma nat_digits_Cons:
  assumes "nat_digits n = c # cs"
  shows "c \<noteq> CHR ''-''" and "c \<noteq> CHR ''+''"
  using nat_digits_all[of c n] assms by auto

lemma parse_int_Itoa [simp]: "parse_int (Itoa i) = Some i"
proof (cases "i < 0")
  case True
  then show ?thesis
    by (simp add: Itoa_def parse_int_def magnitude_def digits_value_nat_digits)
next
  case False
  obtain c cs where cs: "nat_digits (nat i) = c # cs"
    by (cases "nat_digits (nat i)") auto
  have "magnitude (c # cs) = Some (nat i)"
    using digits_value_nat_digits[of "nat i"] cs by (simp add: magnitude_def)
  then show ?thesis using False nat_digits_Cons[OF cs] cs
    by (simp add: Itoa_def parse_int_def)
qed

text \<open>\<open>strconv.Atoi\<close> and \<open>strconv.ParseInt(s, 10, 64)\<close>: \<open>None\<close> is the syntax or range error.\<close>

definition Atoi :: "string \<Rightarrow> int option" where
  "Atoi s =
     (case parse_int s of
        None \<Rightarrow> None
      | Some i \<Rightarrow> if min_int64 \<le> i \<and> i \<le> max_int64 then Some i else None)"

lemma Atoi_Itoa: "min_int64 \<le> i \<Longrightarrow> i \<le> max_int64 \<Longrightarrow> Atoi (Itoa i) = Some i"
  by (simp add: Atoi_def)

lemma Atoi_range: "Atoi s = Some i \<Longrightarrow> min_int64 \<le> i \<and> i \<le> max_int64"
  by (auto simp: Atoi_def split: option.splits if_splits)

section \<open>Errors\<close>

text \<open>Package-level error values, which Go compares by identity.\<close>

datatype sentinel =
    ErrNotFound | ErrConflict | ErrInvalid | ErrForbidden
  | ErrNoRows | ErrNotExist | ErrSharedMemoryTooLarge | ErrNoSnapshotPlan | ErrConfigUndecryptable
  | ErrNoNotificationsConfigured | ErrPreflight | ErrDockerNotFound

text \<open>
  The error tree. \<open>DriverError\<close> stands for an error value that the SQL driver, the
  operating system or the S3 SDK made; \<open>Errorf0\<close>, \<open>Errorf1\<close> and \<open>Errorf2\<close> are
  \<open>fmt.Errorf\<close> with that many \<open>%w\<close> verbs, the strings being the text before,
  between and after them; \<open>MarkedError\<close> is \<open>operr.markedError\<close>.
\<close>

datatype goerror =
    Sentinel sentinel
  | DriverError string
  | Errorf0 string
  | Errorf1 string goerror string
  | Errorf2 string goerror string goerror string
  | MarkedError goerror sentinel

type_synonym 'a res = "goerror + 'a"

primrec errors_Is :: "goerror \<Rightarrow> sentinel \<Rightarrow> bool" where
  "errors_Is (Sentinel s) t = (s = t)"
| "errors_Is (DriverError m) t = False"
| "errors_Is (Errorf0 m) t = False"
| "errors_Is (Errorf1 a e b) t = errors_Is e t"
| "errors_Is (Errorf2 a e b f c) t = (errors_Is e t \<or> errors_Is f t)"
| "errors_Is (MarkedError e s) t = (errors_Is e t \<or> s = t)"

text \<open>\<open>Error()\<close>: the message; a foreign error's is its own.\<close>

primrec sentinel_text :: "sentinel \<Rightarrow> string" where
  "sentinel_text ErrNotFound = ''not found''"
| "sentinel_text ErrConflict = ''conflict''"
| "sentinel_text ErrInvalid = ''invalid input''"
| "sentinel_text ErrForbidden = ''forbidden''"
| "sentinel_text ErrNoRows = ''sql: no rows in result set''"
| "sentinel_text ErrNotExist = ''file does not exist''"
| "sentinel_text ErrSharedMemoryTooLarge = ''estimated PostgreSQL shared memory exceeds container RAM''"
| "sentinel_text ErrNoSnapshotPlan = ''no snapshot schedule is configured''"
| "sentinel_text ErrConfigUndecryptable = ''notification config cannot be decrypted with this master key''"
| "sentinel_text ErrNoNotificationsConfigured = ''no notifications configured''"
| "sentinel_text ErrPreflight = ''container not modified''"
| "sentinel_text ErrDockerNotFound = ''not found''"

primrec Error :: "goerror \<Rightarrow> string" where
  "Error (Sentinel s) = sentinel_text s"
| "Error (DriverError m) = m"
| "Error (Errorf0 m) = m"
| "Error (Errorf1 a e b) = a @ Error e @ b"
| "Error (Errorf2 a e b f c) = a @ Error e @ b @ Error f @ c"
| "Error (MarkedError e s) = Error e"

section \<open>Time\<close>

type_synonym gotime = int

definition IsZero :: "gotime \<Rightarrow> bool" where "IsZero t = (t = 0)"

definition ns_second :: int where "ns_second = 1000000000"
definition ns_minute :: int where "ns_minute = 60 * 1000000000"
definition ns_hour :: int where "ns_hour = 3600 * 1000000000"

definition Hour :: "gotime \<Rightarrow> int" where "Hour t = (t div ns_hour) mod 24"
definition Minute :: "gotime \<Rightarrow> int" where "Minute t = (t div ns_minute) mod 60"

lemma Hour_range: "0 \<le> Hour t \<and> Hour t < 24"
  by (simp add: Hour_def)

lemma Minute_range: "0 \<le> Minute t \<and> Minute t < 60"
  by (simp add: Minute_def)

section \<open>Lists\<close>

text \<open>\<open>ORDER BY key DESC\<close>: newest first; rows with equal keys keep their table order.\<close>

definition sort_desc :: "('a \<Rightarrow> int) \<Rightarrow> 'a list \<Rightarrow> 'a list" where
  "sort_desc k xs = sort_key (\<lambda>x. - k x) xs"

lemma set_sort_desc [simp]: "set (sort_desc k xs) = set xs"
  by (simp add: sort_desc_def)

lemma distinct_sort_desc [simp]: "distinct (sort_desc k xs) = distinct xs"
  by (simp add: sort_desc_def)

lemma length_sort_desc [simp]: "length (sort_desc k xs) = length xs"
  by (simp add: sort_desc_def)

lemma sorted_sort_desc: "sorted_wrt (\<lambda>a b. k b \<le> k a) (sort_desc k xs)"
proof -
  have "sorted (map (\<lambda>x. - k x) (sort_desc k xs))"
    by (simp add: sort_desc_def)
  then show ?thesis by (simp add: sorted_wrt_map)
qed

lemma distinct_map_filter_sort_desc:
  "distinct (map f (filter P (sort_desc k xs))) = distinct (map f (filter P xs))"
  by (simp add: sort_desc_def filter_sort distinct_map)

lemma inj_on_sort_desc [simp]: "distinct (map f (sort_desc k xs)) = distinct (map f xs)"
  by (simp add: sort_desc_def distinct_map)

end
