(* ===== verification/Base64.thy ===== *)
theory Base64
  imports GoPrelude
begin

text \<open>
  \<open>base64.URLEncoding\<close> of the Go standard library, on byte strings: the padded encoder,
  and the decoder with its documented leniency (carriage returns and newlines are skipped,
  the unused trailing bits of the last quantum are not checked).
\<close>

definition alphabet :: string where
  "alphabet = ''ABCDEFGHIJKLMNOPQRSTUVWXYZabcdefghijklmnopqrstuvwxyz0123456789-_''"

definition sextet :: "nat \<Rightarrow> char" where
  "sextet n = alphabet ! n"

definition unsextet :: "char \<Rightarrow> nat option" where
  "unsextet c =
     (let n = of_char c :: nat in
      if 65 \<le> n \<and> n \<le> 90 then Some (n - 65)
      else if 97 \<le> n \<and> n \<le> 122 then Some (n - 71)
      else if 48 \<le> n \<and> n \<le> 57 then Some (n + 4)
      else if n = 45 then Some 62
      else if n = 95 then Some 63
      else None)"

abbreviation pad :: char where "pad \<equiv> CHR ''=''"

fun encode_quanta :: "nat list \<Rightarrow> string" where
  "encode_quanta [] = []"
| "encode_quanta [a] = [sextet (a div 4), sextet (a mod 4 * 16), pad, pad]"
| "encode_quanta [a, b] = [sextet (a div 4), sextet (a mod 4 * 16 + b div 16), sextet (b mod 16 * 4), pad]"
| "encode_quanta (a # b # c # r) =
     sextet (a div 4) # sextet (a mod 4 * 16 + b div 16) # sextet (b mod 16 * 4 + c div 64) # sextet (c mod 64)
       # encode_quanta r"

definition EncodeToString :: "string \<Rightarrow> string" where
  "EncodeToString bs = encode_quanta (map of_char bs)"

definition byte1 :: "nat \<Rightarrow> nat \<Rightarrow> char" where "byte1 a b = char_of (a * 4 + b div 16)"
definition byte2 :: "nat \<Rightarrow> nat \<Rightarrow> char" where "byte2 b c = char_of (b mod 16 * 16 + c div 4)"
definition byte3 :: "nat \<Rightarrow> nat \<Rightarrow> char" where "byte3 c d = char_of (c mod 4 * 64 + d)"

fun decode_quanta :: "string \<Rightarrow> string option" where
  "decode_quanta [] = Some []"
| "decode_quanta (p # q # r # s # rest) =
     (case (unsextet p, unsextet q) of
        (Some a, Some b) \<Rightarrow>
          if s = pad then
            (if rest \<noteq> [] then None
             else if r = pad then Some [byte1 a b]
             else case unsextet r of None \<Rightarrow> None | Some c \<Rightarrow> Some [byte1 a b, byte2 b c])
          else
            (case (unsextet r, unsextet s) of
               (Some c, Some d) \<Rightarrow>
                 map_option (\<lambda>bs. byte1 a b # byte2 b c # byte3 c d # bs) (decode_quanta rest)
             | _ \<Rightarrow> None)
      | _ \<Rightarrow> None)"
| "decode_quanta _ = None"

definition DecodeString :: "string \<Rightarrow> string res" where
  "DecodeString t =
     (case decode_quanta (filter (\<lambda>c. of_char c \<notin> {10, 13 :: nat}) t) of
        None \<Rightarrow> Inl (Errorf0 ''illegal base64 data'')
      | Some bs \<Rightarrow> Inr bs)"

section \<open>The decoder reads the encoder's output back\<close>

definition wire_char :: "char \<Rightarrow> bool" where
  "wire_char c \<longleftrightarrow> c \<noteq> CHR '';'' \<and> \<not> is_space c"

lemma alphabet_codes: "map unsextet alphabet = map Some [0..<64]"
  by (simp add: alphabet_def unsextet_def Let_def upt_rec)

lemma alphabet_wire: "list_all (\<lambda>c. wire_char c \<and> c \<noteq> pad) alphabet"
  by (simp add: alphabet_def wire_char_def is_space_def)

lemma length_alphabet: "length alphabet = 64"
  by (simp add: alphabet_def)

lemma sextet_facts:
  assumes "n < 64"
  shows "unsextet (sextet n) = Some n" "sextet n \<noteq> pad" "wire_char (sextet n)"
proof -
  have "map unsextet alphabet ! n = map Some [0..<64] ! n" by (simp add: alphabet_codes)
  then show "unsextet (sextet n) = Some n" using assms by (simp add: sextet_def length_alphabet)
  show "sextet n \<noteq> pad" "wire_char (sextet n)"
    using alphabet_wire assms by (simp_all add: sextet_def list_all_length length_alphabet)
qed

lemma bytes_back:
  fixes a b c :: nat
  assumes "a < 256" "b < 256" "c < 256"
  shows "byte1 (a div 4) (a mod 4 * 16 + b div 16) = char_of a"
    "byte1 (a div 4) (a mod 4 * 16) = char_of a"
    "byte2 (a mod 4 * 16 + b div 16) (b mod 16 * 4 + c div 64) = char_of b"
    "byte2 (a mod 4 * 16 + b div 16) (b mod 16 * 4) = char_of b"
    "byte3 (b mod 16 * 4 + c div 64) (c mod 64) = char_of c"
proof -
  have q: "b div 16 < 16" "c div 64 < 4" using assms by (simp_all add: less_mult_imp_div_less)
  have 1: "(a mod 4 * 16 + b div 16) div 16 = a mod 4" using q by simp
  show "byte1 (a div 4) (a mod 4 * 16 + b div 16) = char_of a" "byte1 (a div 4) (a mod 4 * 16) = char_of a"
    by (simp_all add: byte1_def 1)
  have 2: "(a mod 4 * 16 + b div 16) mod 16 = b div 16" using q by simp
  have 3: "(b mod 16 * 4 + c div 64) div 4 = b mod 16" using q by simp
  show "byte2 (a mod 4 * 16 + b div 16) (b mod 16 * 4 + c div 64) = char_of b"
    "byte2 (a mod 4 * 16 + b div 16) (b mod 16 * 4) = char_of b"
    using q assms by (simp_all add: byte2_def 2 3)
  have "(b mod 16 * 4 + c div 64) mod 4 = c div 64" using q by simp
  then show "byte3 (b mod 16 * 4 + c div 64) (c mod 64) = char_of c" by (simp add: byte3_def)
qed

lemma sextet_bounds:
  fixes a b c :: nat
  assumes "a < 256" "b < 256" "c < 256"
  shows "a div 4 < 64" "a mod 4 * 16 < 64" "a mod 4 * 16 + b div 16 < 64" "b mod 16 * 4 < 64"
    "b mod 16 * 4 + c div 64 < 64" "c mod 64 < 64"
proof -
  have "a mod 4 \<le> 3" "b div 16 \<le> 15" "b mod 16 \<le> 15" "c div 64 \<le> 3"
    using assms by (simp_all add: less_Suc_eq_le[symmetric] less_mult_imp_div_less)
  then show "a mod 4 * 16 < 64" "a mod 4 * 16 + b div 16 < 64" "b mod 16 * 4 < 64" "b mod 16 * 4 + c div 64 < 64"
    by linarith+
  show "a div 4 < 64" "c mod 64 < 64" using assms by (simp_all add: less_mult_imp_div_less)
qed

lemma decode_encode_quanta:
  assumes "\<forall>x \<in> set xs. x < 256"
  shows "decode_quanta (encode_quanta xs) = Some (map char_of xs)"
  using assms
proof (induction xs rule: encode_quanta.induct)
  case (2 a)
  then have "a < 256" by simp
  from sextet_bounds[OF this this this] bytes_back[OF this this this]
  show ?case by (simp add: sextet_facts)
next
  case (3 a b)
  then have "a < 256" "b < 256" by simp_all
  from sextet_bounds[OF this this(2)] bytes_back[OF this this(2)]
  show ?case by (simp add: sextet_facts)
next
  case (4 a b c r)
  then have "a < 256" "b < 256" "c < 256" by simp_all
  from sextet_bounds[OF this] bytes_back[OF this] 4 show ?case by (simp add: sextet_facts)
qed simp

lemma wire_pad: "wire_char pad"
  by (simp add: wire_char_def is_space_def)

lemma encode_quanta_chars:
  assumes "\<forall>x \<in> set xs. x < 256" "ch \<in> set (encode_quanta xs)"
  shows "wire_char ch"
  using assms
proof (induction xs rule: encode_quanta.induct)
  case (2 a)
  then have "a < 256" by simp
  from sextet_bounds[OF this this this] 2(2) show ?case by (auto simp: sextet_facts wire_pad)
next
  case (3 a b)
  then have "a < 256" "b < 256" by simp_all
  from sextet_bounds[OF this this(2)] 3(2) show ?case by (auto simp: sextet_facts wire_pad)
next
  case (4 a b c r)
  then have "a < 256" "b < 256" "c < 256" by simp_all
  from sextet_bounds[OF this] 4 show ?case by (auto simp: sextet_facts wire_pad)
qed simp

lemma of_char_bytes: "\<forall>x \<in> set (map of_char bs). x < (256 :: nat)"
  by (auto simp: of_char_def)

lemma EncodeToString_chars:
  "ch \<in> set (EncodeToString bs) \<Longrightarrow> wire_char ch"
  using encode_quanta_chars[OF of_char_bytes] by (simp add: EncodeToString_def)

lemma DecodeString_EncodeToString: "DecodeString (EncodeToString bs) = Inr bs"
proof -
  have "filter (\<lambda>c. of_char c \<notin> {10, 13 :: nat}) (EncodeToString bs) = EncodeToString bs"
  proof (rule filter_True, rule ballI)
    fix c assume "c \<in> set (EncodeToString bs)"
    from EncodeToString_chars[OF this] show "of_char c \<notin> {10, 13 :: nat}"
      by (auto simp: wire_char_def is_space_def)
  qed
  then show ?thesis
    using decode_encode_quanta[OF of_char_bytes, of bs]
    by (simp add: DecodeString_def EncodeToString_def comp_def)
qed

lemma length_encode_quanta: "length (encode_quanta xs) = 4 * ((length xs + 2) div 3)"
  by (induction xs rule: encode_quanta.induct) (simp_all, presburger)

lemma length_EncodeToString: "length (EncodeToString bs) = 4 * ((length bs + 2) div 3)"
  by (simp add: EncodeToString_def length_encode_quanta)

end
