(* ===== verification/World.thy ===== *)
theory World
  imports GoPrelude
begin

text \<open>
  The rows of \<open>oddk.db\<close> as the Go structs that scan them, and the \<^emph>\<open>world\<close> an operation
  runs in: the SQLite tables, the files under the data and backup directories, the objects
  in the S3 buckets, the containers, volumes and images of the Docker engine, the messages
  handed to the notification services, and a schedule of what happens to the next
  input/output calls.

  \<^item> The tables carry the columns of \<open>internal/store/migrations.go\<close> after its last
    migration. A nullable column is an \<open>option\<close>; a nullable time is an instant whose zero
    value is NULL, as \<open>rfc3339time.Time.Value\<close> stores it.
  \<^item> Every SQL statement, file-system call and S3 request consumes one entry of
    \<open>io_schedule\<close>: \<open>Done\<close> answers as documented, \<open>Refused\<close> fails without an effect,
    \<open>Lost\<close> takes effect but reports a failure (a lost response). An exhausted schedule
    means \<open>Done\<close>. A theorem about every schedule is a theorem about every pattern of
    failures.
  \<^item> An operation returns its result next to the new world; on an error the effects it
    already had stay, as they do in the program.
\<close>

section \<open>Rows\<close>

text \<open>\<open>instances.RDBMSInstance\<close>; the status is free text, as in Go.\<close>

record RDBMSInstance =
  inst_ID :: int
  inst_Name :: string
  inst_Port :: int
  inst_Version :: string
  inst_Status :: string
  inst_ContainerID :: string
  inst_Password :: string
  inst_CPUCores :: int
  inst_RAMMB :: int
  inst_ParameterGroup :: string
  inst_Image :: string
  inst_CreatedAt :: gotime
  inst_UpdatedAt :: gotime

text \<open>\<open>snapshot.Plan\<close>: the one row of \<open>snapshot_plans\<close>.\<close>

record Plan =
  plan_UTCHour :: int
  plan_IntervalHours :: int
  plan_CleanupLocalDays :: int
  plan_CleanupRemoteDays :: int
  plan_Format :: string
  plan_PausedAt :: gotime
  plan_PausedReason :: string
  plan_CreatedAt :: gotime
  plan_UpdatedAt :: gotime

record RecordInstance =
  ri_Name :: string
  ri_HasData :: bool

text \<open>
  \<open>snapshot.Record\<close>, as a row: \<open>instances_json\<close> is NULL, text that does not decode, or
  the decoded list (\<open>encoding/json\<close> decodes what \<open>RecordSnapshot\<close> encoded).
\<close>

datatype instances_json = JNull | JMalformed | JList "RecordInstance list"

record Record =
  snap_ID :: int
  snap_Filename :: string
  snap_CreatedAt :: gotime
  snap_Size :: int
  snap_Status :: string
  snap_InstancesWithData :: int
  snap_ConfigOnly :: int
  snap_Format :: string
  snap_InstancesJSON :: instances_json
  snap_LocalLocation :: "string option"
  snap_RemoteLocation :: "string option"
  snap_Comment :: "string option"
  snap_SHA256 :: "string option"

text \<open>\<open>backup.BackupRecord\<close>: the stored columns and the two computed fields.\<close>

record BackupRecord =
  bk_ID :: int
  bk_InstanceName :: string
  bk_Timestamp :: gotime
  bk_Size :: int
  bk_LocalLocation :: "string option"
  bk_RemoteLocation :: "string option"
  bk_Status :: string
  bk_Comment :: "string option"
  bk_CreatedAt :: gotime
  bk_SHA256 :: "string option"
  bk_FileExists :: bool
  bk_ActualSize :: int

record CronPlan =
  cp_InstanceName :: string
  cp_UTCHour :: int
  cp_CleanupLocalDays :: int
  cp_CleanupRemoteDays :: int
  cp_PausedAt :: gotime
  cp_PausedReason :: string
  cp_CreatedAt :: gotime
  cp_UpdatedAt :: gotime

text \<open>\<open>cron.CronLog\<close>: one started run and the outcome of its four phases.\<close>

record CronLog =
  cl_ID :: int
  cl_InstanceName :: string
  cl_StartedAt :: gotime
  cl_CompletedAt :: "gotime option"
  cl_BackupStatus :: "string option"
  cl_BackupFinishedAt :: "gotime option"
  cl_BackupError :: "string option"
  cl_BackupUploadStatus :: "string option"
  cl_BackupUploadFinishedAt :: "gotime option"
  cl_BackupUploadError :: "string option"
  cl_BackupCleanupStatus :: "string option"
  cl_BackupCleanupFinishedAt :: "gotime option"
  cl_BackupCleanupError :: "string option"
  cl_BackupRemoteCleanupStatus :: "string option"
  cl_BackupRemoteCleanupFinishedAt :: "gotime option"
  cl_BackupRemoteCleanupError :: "string option"

record OffsiteSettings =
  off_ID :: int
  off_Active :: bool
  off_Type :: string
  off_Bucket :: string
  off_Endpoint :: "string option"
  off_Region :: "string option"
  off_AccessKeyID :: string
  off_SecretAccessKey :: string
  off_BucketPath :: "string option"
  off_EC2IAMRole :: bool
  off_CreatedAt :: gotime
  off_UpdatedAt :: gotime

record OffsiteLog =
  ol_ID :: int
  ol_Event :: string
  ol_OffsiteSettingsID :: int
  ol_Object :: string
  ol_Success :: bool
  ol_ErrorDetails :: "string option"
  ol_CreatedAt :: gotime

record HealthRecord =
  hr_ID :: int
  hr_TsUnix :: int
  hr_InProgress :: bool
  hr_HealthyAll :: bool
  hr_HealthyHost :: bool
  hr_HealthyInstances :: string
  hr_BrokenInstances :: string
  hr_FailDetails :: string

record KVRecord =
  kv_Key :: string
  kv_Value :: string
  kv_UpdatedAt :: gotime

record Parameter =
  par_GroupName :: string
  par_Name :: string
  par_Type :: string
  par_ValueType :: string
  par_Value :: string
  par_CreatedAt :: gotime

record Notification =
  nt_Name :: string
  nt_Type :: string
  nt_Config :: string
  nt_CreatedAt :: gotime
  nt_UpdatedAt :: gotime

record NotificationLog =
  nl_ID :: int
  nl_NotificationName :: string
  nl_Status :: string
  nl_Message :: "string option"
  nl_Error :: "string option"
  nl_CreatedAt :: gotime

text \<open>A row of \<open>auth_tokens\<close>, as \<open>ValidateToken\<close> scans it.\<close>

record StoredToken =
  tok_ID :: int
  tok_TokenPrefix :: string
  tok_TokenHash :: string
  tok_CreatedAt :: gotime

text \<open>
  What \<open>docker/client.go\<close> asks the engine to create (\<open>instanceContainerSpec\<close>, the fields it
  sets from the instance), and a container as the engine reports it.
\<close>

record instanceContainerSpec =
  sp_Image :: string
  sp_Env :: "string list"
  sp_Cmd :: "string list"
  sp_Labels :: "(string \<times> string) list"
  sp_HostPort :: string
  sp_MountSource :: string
  sp_MountTarget :: string
  sp_Memory :: int
  sp_CPUShares :: int
  sp_ShmSize :: int

record container =
  ct_ID :: string
  ct_Name :: string
  ct_ImageID :: string
  ct_Spec :: instanceContainerSpec
  ct_Running :: bool
  ct_Paused :: bool
  ct_Restarting :: bool

section \<open>The world\<close>

datatype outcome = Done | Refused | Lost

record world =
  rdbms_instances :: "RDBMSInstance list"
  instances_seq :: int
  snapshot_plans :: "Plan option"
  snapshot_history :: "Record list"
  snapshot_seq :: int
  backup_history :: "BackupRecord list"
  backup_seq :: int
  cron_plans :: "CronPlan list"
  cron_logs :: "CronLog list"
  cron_seq :: int
  offsite_settings :: "OffsiteSettings list"
  offsite_seq :: int
  offsite_logs :: "OffsiteLog list"
  offsite_log_seq :: int
  health :: "HealthRecord list"
  health_seq :: int
  kvstore :: "KVRecord list"
  parameters :: "Parameter list"
  notifications :: "Notification list"
  notification_logs :: "NotificationLog list"
  notification_log_seq :: int
  auth_tokens :: "StoredToken list"
  auth_seq :: int
  files :: "string \<Rightarrow> int option"
  objects :: "string \<times> string \<Rightarrow> int option"
  containers :: "container list"
  docker_seq :: nat
  volumes :: "string \<Rightarrow> string option"
  images :: "string \<Rightarrow> string option"
  outbox :: "(string \<times> string) list"
  io_schedule :: "outcome list"

text \<open>A world with empty tables, no file, no object and no failure ahead.\<close>

definition empty_world :: world where
  "empty_world =
     \<lparr>rdbms_instances = [], instances_seq = 0, snapshot_plans = None,
      snapshot_history = [], snapshot_seq = 0, backup_history = [], backup_seq = 0,
      cron_plans = [], cron_logs = [], cron_seq = 0, offsite_settings = [], offsite_seq = 0,
      offsite_logs = [], offsite_log_seq = 0, health = [], health_seq = 0, kvstore = [],
      parameters = [], notifications = [], notification_logs = [], notification_log_seq = 0,
      auth_tokens = [], auth_seq = 0, files = (\<lambda>_. None), objects = (\<lambda>_. None),
      containers = [], docker_seq = 0, volumes = (\<lambda>_. None), images = (\<lambda>_. None), outbox = [],
      io_schedule = []\<rparr>"

section \<open>Input and output\<close>

definition next_io :: "world \<Rightarrow> outcome \<times> world" where
  "next_io w =
     (case io_schedule w of
        [] \<Rightarrow> (Done, w)
      | x # xs \<Rightarrow> (x, w\<lparr>io_schedule := xs\<rparr>))"

text \<open>
  A statement that writes: its effect is a constraint violation or the new world and a
  number (rows affected, or the last insert id).
\<close>

definition sql_exec :: "(world \<Rightarrow> (world \<times> int) res) \<Rightarrow> world \<Rightarrow> int res \<times> world" where
  "sql_exec stmt w =
     (case next_io w of (oc, w1) \<Rightarrow>
        (case oc of
           Done \<Rightarrow> (case stmt w1 of Inl e \<Rightarrow> (Inl e, w1) | Inr (w2, n) \<Rightarrow> (Inr n, w2))
         | Refused \<Rightarrow> (Inl (DriverError ''sqlite''), w1)
         | Lost \<Rightarrow> (Inl (DriverError ''sqlite''),
                    (case stmt w1 of Inl e \<Rightarrow> w1 | Inr (w2, n) \<Rightarrow> w2))))"

text \<open>A statement that reads.\<close>

definition sql_query :: "(world \<Rightarrow> 'a) \<Rightarrow> world \<Rightarrow> 'a res \<times> world" where
  "sql_query q w =
     (case next_io w of (oc, w1) \<Rightarrow>
        (if oc = Done then (Inr (q w1), w1) else (Inl (DriverError ''sqlite''), w1)))"

datatype stat_result = StatOK int | StatNotExist | StatError

definition os_Stat :: "string \<Rightarrow> world \<Rightarrow> stat_result \<times> world" where
  "os_Stat p w =
     (case next_io w of (oc, w1) \<Rightarrow>
        (if oc = Done
         then (case files w1 p of Some n \<Rightarrow> StatOK n | None \<Rightarrow> StatNotExist, w1)
         else (StatError, w1)))"

definition os_Remove :: "string \<Rightarrow> world \<Rightarrow> goerror option \<times> world" where
  "os_Remove p w =
     (case next_io w of (oc, w1) \<Rightarrow>
        (case oc of
           Done \<Rightarrow> (case files w1 p of
                      None \<Rightarrow> (Some (Sentinel ErrNotExist), w1)
                    | Some _ \<Rightarrow> (None, w1\<lparr>files := (files w1)(p := None)\<rparr>))
         | Refused \<Rightarrow> (Some (DriverError ''unlink''), w1)
         | Lost \<Rightarrow> (Some (DriverError ''unlink''), w1\<lparr>files := (files w1)(p := None)\<rparr>)))"

text \<open>
  The three S3 requests the retention and upload paths make. \<open>DeleteObject\<close> succeeds on a
  missing key; \<open>HeadObject\<close> answers whether the key is there.
\<close>

definition s3_put :: "string \<Rightarrow> string \<Rightarrow> int \<Rightarrow> world \<Rightarrow> goerror option \<times> world" where
  "s3_put bucket key n w =
     (case next_io w of (oc, w1) \<Rightarrow>
        (case oc of
           Done \<Rightarrow> (None, w1\<lparr>objects := (objects w1)((bucket, key) := Some n)\<rparr>)
         | Refused \<Rightarrow> (Some (DriverError ''s3''), w1)
         | Lost \<Rightarrow> (Some (DriverError ''s3''),
                    w1\<lparr>objects := (objects w1)((bucket, key) := Some n)\<rparr>)))"

definition s3_delete :: "string \<Rightarrow> string \<Rightarrow> world \<Rightarrow> goerror option \<times> world" where
  "s3_delete bucket key w =
     (case next_io w of (oc, w1) \<Rightarrow>
        (case oc of
           Done \<Rightarrow> (None, w1\<lparr>objects := (objects w1)((bucket, key) := None)\<rparr>)
         | Refused \<Rightarrow> (Some (DriverError ''s3''), w1)
         | Lost \<Rightarrow> (Some (DriverError ''s3''),
                    w1\<lparr>objects := (objects w1)((bucket, key) := None)\<rparr>)))"

definition s3_head :: "string \<Rightarrow> string \<Rightarrow> world \<Rightarrow> bool res \<times> world" where
  "s3_head bucket key w =
     (case next_io w of (oc, w1) \<Rightarrow>
        (if oc = Done then (Inr (objects w1 (bucket, key) \<noteq> None), w1)
         else (Inl (DriverError ''s3''), w1)))"

section \<open>Rows affected\<close>

text \<open>\<open>UPDATE ... WHERE\<close>, \<open>DELETE ... WHERE\<close> and the number of rows they match.\<close>

definition upd_where :: "('a \<Rightarrow> bool) \<Rightarrow> ('a \<Rightarrow> 'a) \<Rightarrow> 'a list \<Rightarrow> 'a list" where
  "upd_where p f xs = map (\<lambda>x. if p x then f x else x) xs"

definition del_where :: "('a \<Rightarrow> bool) \<Rightarrow> 'a list \<Rightarrow> 'a list" where
  "del_where p xs = filter (\<lambda>x. \<not> p x) xs"

definition count_where :: "('a \<Rightarrow> bool) \<Rightarrow> 'a list \<Rightarrow> int" where
  "count_where p xs = int (length (filter p xs))"

lemma set_del_where [simp]: "set (del_where p xs) = {x \<in> set xs. \<not> p x}"
  by (simp add: del_where_def)

lemma length_upd_where [simp]: "length (upd_where p f xs) = length xs"
  by (simp add: upd_where_def)

lemma in_upd_where:
  "y \<in> set (upd_where p f xs) \<longleftrightarrow> (\<exists>x \<in> set xs. y = (if p x then f x else x))"
  by (auto simp: upd_where_def)

lemma upd_whereE:
  assumes "y \<in> set (upd_where p f xs)"
  obtains (hit) x where "x \<in> set xs" "p x" "y = f x" | (miss) "y \<in> set xs" "\<not> p y"
proof -
  obtain x where "x \<in> set xs" "y = (if p x then f x else x)"
    using assms unfolding in_upd_where by blast
  then show thesis using hit miss by (cases "p x") simp_all
qed

lemma map_upd_where: "(\<And>x. g (f x) = g x) \<Longrightarrow> map g (upd_where p f xs) = map g xs"
  by (simp add: upd_where_def)

lemma distinct_del_where: "distinct (map g xs) \<Longrightarrow> distinct (map g (del_where p xs))"
  unfolding del_where_def by (induction xs) auto

lemma count_where_0: "count_where p xs = 0 \<longleftrightarrow> (\<forall>x \<in> set xs. \<not> p x)"
  by (auto simp: count_where_def filter_empty_conv)

lemma upd_where_none: "(\<forall>x \<in> set xs. \<not> p x) \<Longrightarrow> upd_where p f xs = xs"
  unfolding upd_where_def by (rule map_idI) auto

lemma find_unique:
  assumes "x \<in> set l" "P x" "\<And>y. y \<in> set l \<Longrightarrow> P y \<Longrightarrow> y = x"
  shows "find P l = Some x"
proof (cases "find P l")
  case None
  then show ?thesis using assms(1,2) by (auto simp: find_None_iff)
next
  case (Some y)
  then have "y \<in> set l" "P y" by (auto simp: find_Some_iff)
  then have "y = x" by (rule assms(3))
  then show ?thesis using Some by simp
qed

lemma find_Some_in: "find P l = Some x \<Longrightarrow> x \<in> set l \<and> P x"
  by (induction l) (auto split: if_splits)

lemma distinct_row:
  "distinct (map g xs) \<Longrightarrow> x \<in> set xs \<Longrightarrow> y \<in> set xs \<Longrightarrow> g y = g x \<Longrightarrow> y = x"
  by (auto simp: distinct_map inj_on_def)

lemma upd_where_one:
  assumes "distinct (map g (pre @ x # post))"
  shows "upd_where (\<lambda>y. g y = g x) f (pre @ x # post) = pre @ f x # post"
proof -
  have "g x \<notin> g ` set pre" "g x \<notin> g ` set post" using assms by auto
  then have "\<forall>y \<in> set pre \<union> set post. g y \<noteq> g x" by (metis Un_iff image_eqI)
  then show ?thesis by (auto simp: upd_where_def intro!: map_idI)
qed

text \<open>\<open>ORDER BY column\<close> on a text column compares bytes.\<close>

fun name_le :: "string \<Rightarrow> string \<Rightarrow> bool" where
  "name_le [] ys = True"
| "name_le (x # xs) [] = False"
| "name_le (x # xs) (y # ys) =
     ((of_char x :: nat) < of_char y \<or> (x = y \<and> name_le xs ys))"

fun insert_by :: "('a \<Rightarrow> string) \<Rightarrow> 'a \<Rightarrow> 'a list \<Rightarrow> 'a list" where
  "insert_by k p [] = [p]"
| "insert_by k p (q # qs) = (if name_le (k p) (k q) then p # q # qs else q # insert_by k p qs)"

definition order_by :: "('a \<Rightarrow> string) \<Rightarrow> 'a list \<Rightarrow> 'a list" where
  "order_by k ps = foldr (insert_by k) ps []"

lemma set_insert_by [simp]: "set (insert_by k p qs) = insert p (set qs)"
  by (induction qs) auto

lemma set_order_by [simp]: "set (order_by k ps) = set ps"
  by (induction ps) (auto simp: order_by_def)

lemma find_upd_where:
  assumes "\<And>x. key (f x) = key x"
  shows "find (\<lambda>x. key x = j) (upd_where (\<lambda>x. key x = k) f xs)
     = map_option (\<lambda>x. if j = k then f x else x) (find (\<lambda>x. key x = j) xs)"
  by (induction xs) (auto simp: upd_where_def assms)

lemma count_where_zero: "count_where (\<lambda>x. key x = k) xs = 0 \<longleftrightarrow> find (\<lambda>x. key x = k) xs = None"
  by (auto simp: count_where_def find_None_iff filter_empty_conv)

lemma find_upd_key:
  "(\<And>x. g (f x) = g x) \<Longrightarrow> find (\<lambda>x. g x = m) (upd_where (\<lambda>x. g x = n) f xs)
     = (if m = n then map_option f (find (\<lambda>x. g x = m) xs) else find (\<lambda>x. g x = m) xs)"
  by (induction xs) (auto simp: upd_where_def)

lemma find_del_key:
  "find (\<lambda>x. g x = m) (del_where (\<lambda>x. g x = n) xs) = (if m = n then None else find (\<lambda>x. g x = m) xs)"
  by (induction xs) (auto simp: del_where_def)

section \<open>What the primitives leave alone\<close>

text \<open>\<open>same_but_io w w'\<close>: the two worlds differ in their schedule at most.\<close>

definition same_but_io :: "world \<Rightarrow> world \<Rightarrow> bool" where
  "same_but_io w w' \<longleftrightarrow> w'\<lparr>io_schedule := io_schedule w\<rparr> = w"

lemma same_but_io_refl [simp]: "same_but_io w w"
  by (simp add: same_but_io_def)

lemma same_but_io_trans: "same_but_io a b \<Longrightarrow> same_but_io b c \<Longrightarrow> same_but_io a c"
  unfolding same_but_io_def by (cases a; cases b; cases c) simp

lemma same_but_io_fields:
  assumes "same_but_io w w'"
  shows "rdbms_instances w' = rdbms_instances w" "instances_seq w' = instances_seq w"
    "snapshot_plans w' = snapshot_plans w" "snapshot_history w' = snapshot_history w"
    "snapshot_seq w' = snapshot_seq w" "backup_history w' = backup_history w"
    "backup_seq w' = backup_seq w" "cron_plans w' = cron_plans w" "cron_logs w' = cron_logs w"
    "cron_seq w' = cron_seq w" "offsite_settings w' = offsite_settings w"
    "offsite_seq w' = offsite_seq w" "offsite_logs w' = offsite_logs w"
    "offsite_log_seq w' = offsite_log_seq w" "health w' = health w" "health_seq w' = health_seq w"
    "kvstore w' = kvstore w" "parameters w' = parameters w"
    "notifications w' = notifications w" "notification_logs w' = notification_logs w"
    "notification_log_seq w' = notification_log_seq w" "auth_tokens w' = auth_tokens w"
    "auth_seq w' = auth_seq w" "files w' = files w"
    "objects w' = objects w" "containers w' = containers w" "docker_seq w' = docker_seq w"
    "volumes w' = volumes w" "images w' = images w" "outbox w' = outbox w"
  using assms unfolding same_but_io_def by (cases w; cases w'; simp)+

lemma same_but_io_stores:
  assumes "same_but_io w w'"
  shows "files w' = files w" "objects w' = objects w"
  using same_but_io_fields[OF assms] by simp_all

lemma next_io_same: "next_io w = (oc, w1) \<Longrightarrow> same_but_io w w1"
  by (auto simp: next_io_def same_but_io_def split: list.splits)

lemma next_io_calm: "io_schedule w = [] \<Longrightarrow> next_io w = (Done, w)"
  by (simp add: next_io_def)

lemma sql_query_same: "sql_query q w = (r, w1) \<Longrightarrow> same_but_io w w1"
  by (auto simp: sql_query_def next_io_same split: prod.splits if_splits)

lemma os_Stat_same: "os_Stat p w = (r, w1) \<Longrightarrow> same_but_io w w1"
  by (auto simp: os_Stat_def next_io_same split: prod.splits if_splits)

lemma s3_head_same: "s3_head b k w = (r, w1) \<Longrightarrow> same_but_io w w1"
  by (auto simp: s3_head_def next_io_same split: prod.splits if_splits)

text \<open>A world with no failure ahead answers every call as documented and stays so.\<close>

lemma calm_primitives:
  assumes "io_schedule w = []"
  shows "sql_query q w = (Inr (q w), w)"
    and "sql_exec st w = (case st w of Inl e \<Rightarrow> (Inl e, w) | Inr (w2, n) \<Rightarrow> (Inr n, w2))"
    and "os_Stat p w = (case files w p of Some n \<Rightarrow> StatOK n | None \<Rightarrow> StatNotExist, w)"
    and "os_Remove p w = (case files w p of
                      None \<Rightarrow> (Some (Sentinel ErrNotExist), w)
                    | Some _ \<Rightarrow> (None, w\<lparr>files := (files w)(p := None)\<rparr>))"
    and "s3_put b k n w = (None, w\<lparr>objects := (objects w)((b, k) := Some n)\<rparr>)"
    and "s3_delete b k w = (None, w\<lparr>objects := (objects w)((b, k) := None)\<rparr>)"
    and "s3_head b k w = (Inr (objects w (b, k) \<noteq> None), w)"
  using assms
  by (simp_all add: sql_query_def sql_exec_def os_Stat_def os_Remove_def s3_put_def
      s3_delete_def s3_head_def next_io_calm)

text \<open>
  What an exec can do to the world: nothing but use up the schedule, or apply its
  statement's effect to a world that differs from the first in the schedule only.
\<close>

lemma sql_exec_cases:
  assumes "sql_exec st w = (r, w')"
  obtains (none) "same_but_io w w'" "\<exists>e. r = Inl e"
    | (applied) w1 n where "same_but_io w w1" "st w1 = Inr (w', n)" "r = Inr n \<or> (\<exists>e. r = Inl e)"
proof -
  obtain oc w1 where n: "next_io w = (oc, w1)" by fastforce
  then have s: "same_but_io w w1" by (rule next_io_same)
  show thesis
    by (rule sum.exhaust[of "st w1"]; cases oc)
       (use assms n s none applied in \<open>auto simp: sql_exec_def split: prod.splits\<close>)
qed

lemma sql_exec_ok:
  assumes "sql_exec st w = (Inr n, w')"
  obtains w1 where "same_but_io w w1" "st w1 = Inr (w', n)"
  using assms by (rule sql_exec_cases) auto

section \<open>Invariants of the world\<close>

text \<open>
  A store keeps an invariant of its tables. The invariant never speaks of the schedule, so
  every read keeps it and a write keeps it when its statement does. Each store interprets
  this locale with its own invariant.
\<close>

locale table_invariant =
  fixes Inv :: "world \<Rightarrow> bool"
  assumes io_stable: "same_but_io w w' \<Longrightarrow> Inv w \<Longrightarrow> Inv w'"
begin

lemma query_keeps: "sql_query q w = (r, w') \<Longrightarrow> Inv w \<Longrightarrow> Inv w'"
  by (blast intro: io_stable sql_query_same)

lemma stat_keeps: "os_Stat p w = (r, w') \<Longrightarrow> Inv w \<Longrightarrow> Inv w'"
  by (blast intro: io_stable os_Stat_same)

lemma head_keeps: "s3_head b k w = (r, w') \<Longrightarrow> Inv w \<Longrightarrow> Inv w'"
  by (blast intro: io_stable s3_head_same)

lemma exec_keeps:
  assumes "sql_exec st w = (r, w')" and "Inv w"
    and "\<And>v v' n. Inv v \<Longrightarrow> st v = Inr (v', n) \<Longrightarrow> Inv v'"
  shows "Inv w'"
  using assms(1)
proof (cases rule: sql_exec_cases)
  case none
  then show ?thesis using assms(2) io_stable by blast
next
  case (applied w1 n)
  then show ?thesis using assms(2,3) io_stable by blast
qed

end

end
