(* ===== verification/Operr.thy ===== *)
theory Operr
  imports World
begin

text \<open>
  Error classification: the markers of \<open>internal/operr\<close> and the HTTP status that
  \<open>internal/daemon/utils.go\<close> derives from them, with the bearer-token middleware of the
  same file. An error message is the text before and after its verbs; the arguments of the
  verbs other than \<open>%w\<close> are part of that text.
\<close>

section \<open>Markers\<close>

definition mark :: "sentinel \<Rightarrow> goerror \<Rightarrow> goerror" where
  "mark marker err = MarkedError err marker"

definition NotFoundf :: "goerror \<Rightarrow> goerror" where "NotFoundf e = mark ErrNotFound e"
definition Conflictf :: "goerror \<Rightarrow> goerror" where "Conflictf e = mark ErrConflict e"
definition Invalidf :: "goerror \<Rightarrow> goerror" where "Invalidf e = mark ErrInvalid e"
definition Forbiddenf :: "goerror \<Rightarrow> goerror" where "Forbiddenf e = mark ErrForbidden e"

text \<open>\<open>fmt.Errorf("...: %w", err)\<close>, the way almost every caller wraps.\<close>

definition wrap :: "string \<Rightarrow> goerror \<Rightarrow> goerror" where
  "wrap msg e = Errorf1 (msg @ '': '') e ''''"

lemma errors_Is_wrap [simp]: "errors_Is (wrap m e) s = errors_Is e s"
  by (simp add: wrap_def)

section \<open>Responses\<close>

record response =
  resp_status :: int
  resp_error :: "goerror option"

definition writeOpError :: "goerror \<Rightarrow> response" where
  "writeOpError err =
     (let status = (if errors_Is err ErrNotFound then 404
                    else if errors_Is err ErrConflict then 409
                    else if errors_Is err ErrInvalid then 400
                    else if errors_Is err ErrForbidden then 403
                    else 500)
      in \<lparr>resp_status = status, resp_error = Some err\<rparr>)"

text \<open>
  \<open>withAuth\<close>: the handler runs only behind a valid bearer token. \<open>ValidateToken\<close> is the
  auth store's; the result is the response sent, or \<open>None\<close> when the handler was called.
\<close>

definition withAuth :: "(string \<Rightarrow> bool res) \<Rightarrow> string \<Rightarrow> response option" where
  "withAuth ValidateToken authHeader =
     (let unauthorized = (\<lambda>m. Some \<lparr>resp_status = 401, resp_error = Some (Errorf0 m)\<rparr>)
      in if authHeader = '''' then unauthorized ''missing authorization header''
         else let parts = SplitChar (CHR '' '') authHeader
              in if length parts \<noteq> 2 \<or> parts ! 0 \<noteq> ''Bearer''
                 then unauthorized ''invalid authorization header format''
                 else case ValidateToken (parts ! 1) of
                        Inl e \<Rightarrow> Some \<lparr>resp_status = 500,
                                        resp_error = Some (Errorf0 ''error validating token'')\<rparr>
                      | Inr valid \<Rightarrow> if valid then None else unauthorized ''invalid token'')"

section \<open>What the classification guarantees\<close>

text \<open>Any number of \<open>%w\<close> wrappings, each with its own text.\<close>

definition wraps :: "(string \<times> string) list \<Rightarrow> goerror \<Rightarrow> goerror" where
  "wraps ms e = foldr (\<lambda>(a, b) acc. Errorf1 a acc b) ms e"

lemma errors_Is_wraps [simp]: "errors_Is (wraps ms e) s = errors_Is e s"
  unfolding wraps_def by (induction ms) auto

lemma errors_Is_mark [simp]: "errors_Is (mark m e) s \<longleftrightarrow> s = m \<or> errors_Is e s"
  by (auto simp: mark_def)

lemmas markers_def = NotFoundf_def Conflictf_def Invalidf_def Forbiddenf_def

text \<open>An unmarked tree: no marker of the package anywhere in it.\<close>

definition unmarked :: "goerror \<Rightarrow> bool" where
  "unmarked e \<longleftrightarrow> \<not> errors_Is e ErrNotFound \<and> \<not> errors_Is e ErrConflict
                \<and> \<not> errors_Is e ErrInvalid \<and> \<not> errors_Is e ErrForbidden"

text \<open>
  C1. The status a client sees is decided by the marker alone, whatever context was
  wrapped around it: an error built by \<open>NotFoundf\<close>, \<open>Conflictf\<close>, \<open>Invalidf\<close> or
  \<open>Forbiddenf\<close> over an unmarked cause answers 404, 409, 400 or 403 after any number of
  \<open>%w\<close> wrappings, and an error without a marker answers 500.
\<close>

theorem writeOpError_status_by_marker:
  assumes "unmarked e"
  shows "resp_status (writeOpError (wraps ms (NotFoundf e))) = 404
    \<and> resp_status (writeOpError (wraps ms (Conflictf e))) = 409
    \<and> resp_status (writeOpError (wraps ms (Invalidf e))) = 400
    \<and> resp_status (writeOpError (wraps ms (Forbiddenf e))) = 403
    \<and> resp_status (writeOpError (wraps ms e)) = 500"
  using assms by (simp_all add: unmarked_def writeOpError_def markers_def)

theorem writeOpError_status_by_marker_witness:
  "unmarked (DriverError ''disk full'')
   \<and> resp_status (writeOpError (wraps [(''create: '', '''')] (Conflictf (DriverError ''disk full'')))) = 409"
proof
  show u: "unmarked (DriverError ''disk full'')" by (simp add: unmarked_def)
  show "resp_status (writeOpError (wraps [(''create: '', '''')] (Conflictf (DriverError ''disk full'')))) = 409"
    using writeOpError_status_by_marker[OF u] by blast
qed

text \<open>
  The handler behind \<open>withAuth\<close> is called exactly for a header \<open>Bearer <token>\<close> whose token
  has no space and validates.
\<close>

lemma SplitChar_two: "SplitChar c s = [a, b] \<longleftrightarrow> s = a @ c # b \<and> c \<notin> set a \<and> c \<notin> set b"
proof
  assume two: "SplitChar c s = [a, b]"
  have "c \<in> set s" using two SplitChar_no_sep[of c s] by auto
  then obtain p q where cut: "CutChar c s = Some (p, q)"
    using CutChar_None[of c s] by (metis option.exhaust surj_pair)
  then have s: "s = p @ c # q" "c \<notin> set p" by (auto dest: CutChar_Some)
  then have pq: "p = a" "SplitChar c q = [b]" using two by (auto simp: SplitChar_append)
  have "c \<notin> set q"
  proof
    assume "c \<in> set q"
    then obtain u v where "CutChar c q = Some (u, v)"
      using CutChar_None[of c q] by (metis option.exhaust surj_pair)
    then have "q = u @ c # v" "c \<notin> set u" by (auto dest: CutChar_Some)
    then show False using pq(2) by (auto simp: SplitChar_append)
  qed
  then show "s = a @ c # b \<and> c \<notin> set a \<and> c \<notin> set b"
    using s pq SplitChar_no_sep[of c q] by auto
qed (auto simp: SplitChar_append SplitChar_no_sep)

text \<open>
  A request reaches the handler behind \<open>withAuth\<close> exactly when its header is the word
  \<open>Bearer\<close>, one space and a token without spaces that the auth store validates; a store
  that cannot answer refuses the request.
\<close>

lemma withAuth_admits_iff:
  "withAuth V h = None \<longleftrightarrow>
     (\<exists>tok. h = ''Bearer '' @ tok \<and> CHR '' '' \<notin> set tok \<and> V tok = Inr True)"
proof
  assume adm: "withAuth V h = None"
  then have len: "length (SplitChar (CHR '' '') h) = 2" "SplitChar (CHR '' '') h ! 0 = ''Bearer''"
    and v: "V (SplitChar (CHR '' '') h ! 1) = Inr True"
    by (auto simp: withAuth_def Let_def split: if_splits sum.splits)
  then obtain tok where tok: "SplitChar (CHR '' '') h = [''Bearer'', tok]"
    by (auto simp: numeral_2_eq_2 length_Suc_conv)
  then show "\<exists>tok. h = ''Bearer '' @ tok \<and> CHR '' '' \<notin> set tok \<and> V tok = Inr True"
    using v by (auto simp: SplitChar_two SplitChar_no_sep)
next
  assume "\<exists>tok. h = ''Bearer '' @ tok \<and> CHR '' '' \<notin> set tok \<and> V tok = Inr True"
  then obtain tok where t: "h = ''Bearer '' @ tok" "CHR '' '' \<notin> set tok" "V tok = Inr True" by blast
  then have "SplitChar (CHR '' '') h = [''Bearer'', tok]"
    by (simp add: SplitChar_two SplitChar_no_sep)
  then show "withAuth V h = None" using t by (simp add: withAuth_def Let_def)
qed

end
