(* ===== verification/Auth.thy ===== *)
theory Auth
  imports Base64 Operr World "HOL-Library.Word"
begin

text \<open>
  Bearer tokens, \<open>internal/store/auth/auth.go\<close>: creation, validation, listing and
  revocation, and what the middleware of \<open>internal/daemon/utils.go\<close> makes of them. A byte
  string is a list of characters; the two reads of \<open>crypto/rand\<close> and Argon2id (a third-party
  package, at the fixed parameters of the file) are arguments.
\<close>

unbundle bit_operations_syntax

section \<open>The store\<close>

definition argon2KeyLength :: nat where "argon2KeyLength = 32"
definition saltLength :: nat where "saltLength = 16"
definition tokenPrefixLen :: nat where "tokenPrefixLen = 8"

text \<open>The row as inserted: \<open>token_hash\<close> is \<open>UNIQUE\<close>, \<open>id\<close> is \<open>AUTOINCREMENT\<close>.\<close>

definition insert_token :: "string \<Rightarrow> string \<Rightarrow> gotime \<Rightarrow> world \<Rightarrow> (world \<times> int) res" where
  "insert_token tokenPrefix hashStr now w =
     (if hashStr \<in> tok_TokenHash ` set (auth_tokens w)
      then Inl (DriverError ''UNIQUE constraint failed: auth_tokens.token_hash'')
      else let n = auth_seq w + 1 in
           Inr (w\<lparr>auth_tokens := auth_tokens w @
                    [\<lparr>tok_ID = n, tok_TokenPrefix = tokenPrefix, tok_TokenHash = hashStr, tok_CreatedAt = now\<rparr>],
                 auth_seq := n\<rparr>, n))"

definition CreateToken ::
  "(string \<Rightarrow> string \<Rightarrow> string) \<Rightarrow> string res \<Rightarrow> string res \<Rightarrow> gotime \<Rightarrow> world \<Rightarrow> string res \<times> world" where
  "CreateToken IDKey rand1 rand2 now w =
     (case rand1 of
        Inl e \<Rightarrow> (Inl (wrap ''generate random data'' e), w)
      | Inr randomData \<Rightarrow>
          let encodedData = EncodeToString randomData;
              tokenPrefix = take tokenPrefixLen encodedData in
          (case rand2 of
             Inl e \<Rightarrow> (Inl (wrap ''generate salt'' e), w)
           | Inr salt \<Rightarrow>
               let hashStr = EncodeToString (salt @ IDKey randomData salt) in
               (case sql_exec (insert_token tokenPrefix hashStr now) w of
                  (Inl e, w1) \<Rightarrow> (Inl (wrap ''insert auth token'' e), w1)
                | (Inr tokenID, w1) \<Rightarrow> (Inr (Itoa tokenID @ '':'' @ encodedData), w1))))"

text \<open>The constant-time comparison: the disjunction of the bytewise differences.\<close>

definition byte_of :: "char \<Rightarrow> 8 word" where "byte_of c = of_nat (of_char c)"

definition differences :: "string \<Rightarrow> string \<Rightarrow> 8 word" where
  "differences computedHash storedHash =
     fold (\<lambda>(a, b) result. result OR (byte_of a XOR byte_of b)) (zip computedHash storedHash) 0"

definition ValidateToken ::
  "(string \<Rightarrow> string \<Rightarrow> string) \<Rightarrow> string \<Rightarrow> world \<Rightarrow> bool res \<times> world" where
  "ValidateToken IDKey token w =
     (case CutChar (CHR '':'') token of
        None \<Rightarrow> (Inr False, w)
      | Some (tokenIDStr, encodedData) \<Rightarrow>
          (case Atoi tokenIDStr of
             None \<Rightarrow> (Inr False, w)
           | Some tokenID \<Rightarrow>
               (case sql_query (\<lambda>w. find (\<lambda>t. tok_ID t = tokenID) (auth_tokens w)) w of
                  (Inl e, w1) \<Rightarrow> (Inl (wrap ''get auth token'' e), w1)
                | (Inr None, w1) \<Rightarrow> (Inr False, w1)
                | (Inr (Some storedToken), w1) \<Rightarrow>
                    if length encodedData < tokenPrefixLen
                       \<or> take tokenPrefixLen encodedData \<noteq> tok_TokenPrefix storedToken
                    then (Inr False, w1)
                    else case DecodeString encodedData of
                      Inl e \<Rightarrow> (Inr False, w1)
                    | Inr randomData \<Rightarrow>
                        (case DecodeString (tok_TokenHash storedToken) of
                           Inl e \<Rightarrow> (Inl (Errorf0 ''invalid stored hash format''), w1)
                         | Inr saltAndHash \<Rightarrow>
                             if length saltAndHash \<noteq> saltLength + argon2KeyLength
                             then (Inl (Errorf0 ''invalid stored hash format''), w1)
                             else let salt = take saltLength saltAndHash;
                                      storedHash = drop saltLength saltAndHash;
                                      computedHash = IDKey randomData salt in
                                  if length computedHash \<noteq> length storedHash then (Inr False, w1)
                                  else (Inr (differences computedHash storedHash = 0), w1)))))"

record TokenInfo =
  ti_ID :: int
  ti_TokenPrefix :: string
  ti_CreatedAt :: gotime

definition ListTokens :: "world \<Rightarrow> TokenInfo list res \<times> world" where
  "ListTokens w =
     (case sql_query (\<lambda>w. map (\<lambda>t. \<lparr>ti_ID = tok_ID t, ti_TokenPrefix = tok_TokenPrefix t,
                                    ti_CreatedAt = tok_CreatedAt t\<rparr>) (sort_desc tok_ID (auth_tokens w))) w of
        (Inl e, w1) \<Rightarrow> (Inl (wrap ''list auth tokens'' e), w1)
      | (Inr l, w1) \<Rightarrow> (Inr l, w1))"

definition DeleteToken :: "int \<Rightarrow> world \<Rightarrow> goerror option \<times> world" where
  "DeleteToken n w =
     (let p = (\<lambda>t. tok_ID t = n) in
      case sql_exec (\<lambda>w. Inr (w\<lparr>auth_tokens := del_where p (auth_tokens w)\<rparr>, count_where p (auth_tokens w))) w of
        (Inl e, w1) \<Rightarrow> (Some (wrap ''delete auth token'' e), w1)
      | (Inr rows, w1) \<Rightarrow>
          if rows = 0 then (Some (Errorf0 (''no auth token with id '' @ Itoa n)), w1) else (None, w1))"

definition CountTokens :: "world \<Rightarrow> int res \<times> world" where
  "CountTokens w =
     (case sql_query (\<lambda>w. int (length (auth_tokens w))) w of
        (Inl e, w1) \<Rightarrow> (Inl (wrap ''count auth tokens'' e), w1)
      | (Inr n, w1) \<Rightarrow> (Inr n, w1))"

section \<open>The comparison is equality\<close>

lemma unat_byte_of: "unat (byte_of c) = of_char c"
proof -
  have "(of_char c :: nat) < 2 ^ 8" by (simp add: of_char_def)
  then show ?thesis by (simp add: byte_of_def unat_of_nat take_bit_nat_eq_self)
qed

lemma byte_of_inject [simp]: "byte_of a = byte_of b \<longleftrightarrow> a = b"
  by (metis char_of_char unat_byte_of)

lemma word_xor_zero: "(a :: 8 word) XOR b = 0 \<longleftrightarrow> a = b"
  by (metis xor.assoc xor.right_neutral xor_self_eq)

lemma fold_differences:
  "fold (\<lambda>(a, b) result. result OR (byte_of a XOR byte_of b)) ps r = 0
     \<longleftrightarrow> r = 0 \<and> (\<forall>(a, b) \<in> set ps. a = b)"
  by (induction ps arbitrary: r) (auto simp: or_eq_0_iff word_xor_zero)

lemma differences_zero:
  "length xs = length ys \<Longrightarrow> differences xs ys = 0 \<longleftrightarrow> xs = ys"
  unfolding differences_def fold_differences
  by (induction xs ys rule: list_induct2) auto

section \<open>The token text\<close>

lemma Itoa_chars: "ch \<in> set (Itoa i) \<Longrightarrow> is_digit ch \<or> ch = CHR ''-''"
  by (auto simp: Itoa_def nat_digits_all split: if_splits)

lemma Itoa_plain: "CHR '':'' \<notin> set (Itoa i)" "CHR '' '' \<notin> set (Itoa i)"
  using Itoa_chars[of "CHR '':''" i] Itoa_chars[of "CHR '' ''" i] by (auto simp: is_digit_def)

lemma Encode_no_space: "CHR '' '' \<notin> set (EncodeToString bs)"
  using EncodeToString_chars[of "CHR '' ''" bs] by (auto simp: wire_char_def is_space_def)

section \<open>The life of a token\<close>

definition auth_ok :: "world \<Rightarrow> bool" where
  "auth_ok w \<longleftrightarrow> 0 \<le> auth_seq w \<and> distinct (map tok_ID (auth_tokens w))
     \<and> (\<forall>t \<in> set (auth_tokens w). tok_ID t \<le> auth_seq w)"

text \<open>
  What may happen to the token table between two requests: any call of the store, with any
  outcome, or anything that leaves the table alone.
\<close>

inductive auth_step :: "(string \<Rightarrow> string \<Rightarrow> string) \<Rightarrow> world \<Rightarrow> world \<Rightarrow> bool" for IDKey where
  create: "CreateToken IDKey rand1 rand2 now w = (r, w') \<Longrightarrow> auth_step IDKey w w'"
| delete: "DeleteToken n w = (e, w') \<Longrightarrow> auth_step IDKey w w'"
| other: "auth_tokens w' = auth_tokens w \<Longrightarrow> auth_seq w' = auth_seq w \<Longrightarrow> auth_step IDKey w w'"

text \<open>\<open>issued t w\<close>: the id of \<open>t\<close> was handed out, and is used for \<open>t\<close> at most.\<close>

definition issued :: "StoredToken \<Rightarrow> world \<Rightarrow> bool" where
  "issued t w \<longleftrightarrow> auth_ok w \<and> tok_ID t \<le> auth_seq w \<and> (\<forall>u \<in> set (auth_tokens w). tok_ID u = tok_ID t \<longrightarrow> u = t)"

definition revoked :: "int \<Rightarrow> world \<Rightarrow> bool" where
  "revoked n w \<longleftrightarrow> n \<le> auth_seq w \<and> n \<notin> tok_ID ` set (auth_tokens w)"

interpretation tok: table_invariant auth_ok
  by unfold_locales (simp add: auth_ok_def same_but_io_fields)

interpretation iss: table_invariant "issued t"
  by unfold_locales (simp add: issued_def auth_ok_def same_but_io_fields)

interpretation rev: table_invariant "revoked n"
  by unfold_locales (simp add: revoked_def same_but_io_fields)

lemma insert_token_keeps:
  assumes "insert_token p h now w = Inr (w', k)"
  shows "auth_ok w \<Longrightarrow> auth_ok w'" "issued t w \<Longrightarrow> issued t w'" "revoked n w \<Longrightarrow> revoked n w'"
  using assms by (fastforce simp: insert_token_def Let_def auth_ok_def issued_def revoked_def split: if_splits)+

lemma token_delete_keeps:
  shows "auth_ok w \<Longrightarrow> auth_ok (w\<lparr>auth_tokens := del_where p (auth_tokens w)\<rparr>)"
    "issued t w \<Longrightarrow> issued t (w\<lparr>auth_tokens := del_where p (auth_tokens w)\<rparr>)"
    "revoked n w \<Longrightarrow> revoked n (w\<lparr>auth_tokens := del_where p (auth_tokens w)\<rparr>)"
  by (auto simp: auth_ok_def issued_def revoked_def distinct_del_where)

lemma CreateToken_exec:
  assumes "CreateToken IDKey rand1 rand2 now w = (r, w')"
  shows "w' = w \<or> (\<exists>p h q. sql_exec (insert_token p h now) w = (q, w'))"
  using assms by (auto simp: CreateToken_def Let_def split: sum.splits prod.splits)

lemma auth_step_keeps:
  assumes "auth_step IDKey w w'"
  shows "issued t w \<Longrightarrow> issued t w'" "revoked n w \<Longrightarrow> revoked n w'"
proof -
  have "(issued t w \<longrightarrow> issued t w') \<and> (revoked n w \<longrightarrow> revoked n w')"
    using assms
  proof cases
    case create
    from CreateToken_exec[OF this] show ?thesis
      by (blast intro: iss.exec_keeps rev.exec_keeps insert_token_keeps)
  next
    case (delete k e)
    then obtain r where x: "sql_exec (\<lambda>w. Inr (w\<lparr>auth_tokens := del_where (\<lambda>t. tok_ID t = k) (auth_tokens w)\<rparr>,
        count_where (\<lambda>t. tok_ID t = k) (auth_tokens w))) w = (r, w')"
      by (auto simp: DeleteToken_def Let_def split: sum.splits prod.splits if_splits)
    show ?thesis
      by (auto intro: iss.exec_keeps[OF x] rev.exec_keeps[OF x] token_delete_keeps)
  next
    case other
    then show ?thesis by (simp add: issued_def auth_ok_def revoked_def)
  qed
  then show "issued t w \<Longrightarrow> issued t w'" "revoked n w \<Longrightarrow> revoked n w'" by simp_all
qed

lemma auth_steps_keep:
  assumes "(auth_step IDKey)\<^sup>*\<^sup>* w w'"
  shows "issued t w \<Longrightarrow> issued t w'" "revoked n w \<Longrightarrow> revoked n w'"
  using assms by (induction rule: rtranclp_induct) (auto intro: auth_step_keeps)

lemma ValidateToken_created:
  assumes ok: "auth_ok w" "t \<in> set (auth_tokens w)" "tok_ID t \<le> max_int64" "0 \<le> tok_ID t" "io_schedule w = []"
    and t: "tok_TokenPrefix t = take tokenPrefixLen (EncodeToString rnd)"
      "tok_TokenHash t = EncodeToString (salt @ IDKey rnd salt)"
    and len: "length rnd = 32" "length salt = saltLength" "length (IDKey rnd salt) = argon2KeyLength"
  shows "ValidateToken IDKey (Itoa (tok_ID t) @ '':'' @ EncodeToString rnd) w = (Inr True, w)"
proof -
  have "find (\<lambda>u. tok_ID u = tok_ID t) (auth_tokens w) = Some t"
    using ok by (intro find_unique) (auto simp: auth_ok_def dest: distinct_row)
  moreover have "Atoi (Itoa (tok_ID t)) = Some (tok_ID t)"
    using ok by (intro Atoi_Itoa) (simp_all add: min_int64_def)
  moreover have "\<not> length (EncodeToString rnd) < tokenPrefixLen"
    using len by (simp add: length_EncodeToString tokenPrefixLen_def)
  ultimately show ?thesis
    using ok(5) t len
    by (simp add: ValidateToken_def CutChar_append Itoa_plain calm_primitives DecodeString_EncodeToString
        differences_zero)
qed

lemma ValidateToken_revoked:
  assumes "revoked n w" "min_int64 \<le> n" "n \<le> max_int64"
  shows "fst (ValidateToken IDKey (Itoa n @ '':'' @ d) w) \<noteq> Inr True"
proof -
  have gone: "find (\<lambda>u. tok_ID u = n) (auth_tokens v) = None" if "same_but_io w v" for v
    using rev.io_stable[OF that assms(1)] by (auto simp: find_None_iff revoked_def)
  obtain oc v where v: "next_io w = (oc, v)" by fastforce
  show ?thesis
    using gone[OF next_io_same[OF v]] assms(2,3)
    by (auto simp: ValidateToken_def CutChar_append Itoa_plain Atoi_Itoa sql_query_def v)
qed

lemma CreateToken_ok:
  assumes "CreateToken IDKey (Inr rnd) (Inr salt) now w = (Inr tok, w1)"
  obtains t where "tok_ID t = auth_seq w + 1" "tok = Itoa (tok_ID t) @ '':'' @ EncodeToString rnd"
    "tok_TokenPrefix t = take tokenPrefixLen (EncodeToString rnd)"
    "tok_TokenHash t = EncodeToString (salt @ IDKey rnd salt)"
    "auth_tokens w1 = auth_tokens w @ [t]" "auth_seq w1 = auth_seq w + 1"
proof -
  let ?st = "insert_token (take tokenPrefixLen (EncodeToString rnd)) (EncodeToString (salt @ IDKey rnd salt)) now"
  obtain n where n: "sql_exec ?st w = (Inr n, w1)" "tok = Itoa n @ '':'' @ EncodeToString rnd"
    using assms by (auto simp: CreateToken_def Let_def split: sum.splits prod.splits)
  from n(1) obtain v where v: "same_but_io w v" "?st v = Inr (w1, n)" by (rule sql_exec_ok)
  show thesis
    using v n(2) by (intro that[of "last (auth_tokens w1)"])
      (auto simp: insert_token_def Let_def same_but_io_fields[OF v(1)] split: if_splits)
qed

text \<open>A token that validates carries the secret of a stored row.\<close>

lemma ValidateToken_sound:
  assumes "ValidateToken IDKey token w = (Inr True, w')"
  shows "\<exists>t \<in> set (auth_tokens w). \<exists>d salt. DecodeString (tok_TokenHash t) = Inr (salt @ IDKey d salt)
     \<and> (\<exists>ids data. token = ids @ '':'' @ data \<and> Atoi ids = Some (tok_ID t) \<and> DecodeString data = Inr d)"
proof -
  obtain ids data where cut: "CutChar (CHR '':'') token = Some (ids, data)"
    using assms by (auto simp: ValidateToken_def split: option.splits prod.splits)
  then obtain n where n: "Atoi ids = Some n" using assms by (auto simp: ValidateToken_def split: option.splits)
  let ?q = "\<lambda>w. find (\<lambda>t. tok_ID t = n) (auth_tokens w)"
  obtain r w1 where q0: "sql_query ?q w = (r, w1)" by fastforce
  then obtain t where q: "sql_query ?q w = (Inr (Some t), w1)"
    using assms cut n by (simp add: ValidateToken_def split: sum.splits option.splits)
  then have "?q w1 = Some t" by (simp add: sql_query_def split: prod.splits if_splits)
  then have t: "t \<in> set (auth_tokens w)" "tok_ID t = n"
    using find_Some_in same_but_io_fields(22)[OF sql_query_same[OF q]] by (metis (mono_tags, lifting))+
  obtain d sh where d: "DecodeString data = Inr d" "DecodeString (tok_TokenHash t) = Inr sh"
    "length (IDKey d (take saltLength sh)) = length (drop saltLength sh)"
    "differences (IDKey d (take saltLength sh)) (drop saltLength sh) = 0"
    using assms cut n q
    by (auto simp: ValidateToken_def Let_def split: if_splits sum.splits)
  have "sh = take saltLength sh @ IDKey d (take saltLength sh)"
    using d(3,4) differences_zero by (metis append_take_drop_id)
  then show ?thesis using t d(1,2) CutChar_Some[OF cut] n by (intro bexI[of _ t]) auto
qed

lemma DeleteToken_revokes:
  assumes "DeleteToken n w = (None, w')" "n \<le> auth_seq w"
  shows "revoked n w'"
proof -
  let ?st = "\<lambda>w. Inr (w\<lparr>auth_tokens := del_where (\<lambda>t. tok_ID t = n) (auth_tokens w)\<rparr>,
                       count_where (\<lambda>t. tok_ID t = n) (auth_tokens w))"
  obtain k where "sql_exec ?st w = (Inr k, w')"
    using assms(1) by (auto simp: DeleteToken_def Let_def split: sum.splits prod.splits if_splits)
  then obtain v where v: "same_but_io w v" "?st v = Inr (w', k)" by (rule sql_exec_ok) blast
  then show ?thesis using assms(2) by (auto simp: revoked_def same_but_io_fields[OF v(1)])
qed

text \<open>
  C2. A created token opens the door until it is revoked, and never again after: with the
  database answering, the header \<open>Bearer <token>\<close> passes \<open>withAuth\<close> exactly while a row
  with the token's id is stored, whatever store calls happened since; once \<open>DeleteToken\<close>
  has succeeded for that id, no later sequence of calls and no failure lets it pass again
  (ids are not reused). And every header that passes carries the secret of a stored row: its
  data, hashed with the row's salt, gives the row's hash.
\<close>

theorem token_lifecycle:
  assumes "auth_ok w" "auth_seq w < max_int64" "length rnd = 32" "length salt = saltLength"
    and "\<forall>d s. length (IDKey d s) = argon2KeyLength"
    and "CreateToken IDKey (Inr rnd) (Inr salt) now w = (Inr tok, w1)" "(auth_step IDKey)\<^sup>*\<^sup>* w1 w2"
  shows "let n = auth_seq w + 1 in n \<notin> tok_ID ` set (auth_tokens w)
     \<and> (io_schedule w2 = [] \<longrightarrow>
          (withAuth (\<lambda>t. fst (ValidateToken IDKey t w2)) (''Bearer '' @ tok) = None
             \<longleftrightarrow> n \<in> tok_ID ` set (auth_tokens w2)))
     \<and> (\<forall>w3 w4. DeleteToken n w2 = (None, w3) \<longrightarrow> (auth_step IDKey)\<^sup>*\<^sup>* w3 w4 \<longrightarrow>
          withAuth (\<lambda>t. fst (ValidateToken IDKey t w4)) (''Bearer '' @ tok) \<noteq> None)
     \<and> (\<forall>h. withAuth (\<lambda>t. fst (ValidateToken IDKey t w2)) h = None \<longrightarrow>
          (\<exists>t \<in> set (auth_tokens w2). \<exists>d salt. DecodeString (tok_TokenHash t) = Inr (salt @ IDKey d salt)
             \<and> (\<exists>ids data. h = ''Bearer '' @ ids @ '':'' @ data \<and> Atoi ids = Some (tok_ID t) \<and> DecodeString data = Inr d)))"
proof -
  obtain t where t: "tok_ID t = auth_seq w + 1" "tok = Itoa (tok_ID t) @ '':'' @ EncodeToString rnd"
    "tok_TokenPrefix t = take tokenPrefixLen (EncodeToString rnd)"
    "tok_TokenHash t = EncodeToString (salt @ IDKey rnd salt)"
    "auth_tokens w1 = auth_tokens w @ [t]" "auth_seq w1 = auth_seq w + 1"
    by (rule CreateToken_ok[OF assms(6)])
  have range: "0 \<le> tok_ID t" "min_int64 \<le> tok_ID t" "tok_ID t \<le> max_int64"
    using assms(1,2) t(1) by (simp_all add: auth_ok_def min_int64_def)
  have "issued t w1" using assms(1) t by (auto simp: issued_def auth_ok_def)
  then have iss: "issued t w2" by (rule auth_steps_keep[OF assms(7)])
  have plain: "CHR '' '' \<notin> set tok" by (simp add: t(2) Itoa_plain Encode_no_space)
  have door: "withAuth V (''Bearer '' @ tok) = None \<longleftrightarrow> V tok = Inr True" for V
    using plain by (auto simp: withAuth_admits_iff)
  have shut: "fst (ValidateToken IDKey tok v) \<noteq> Inr True" if "revoked (tok_ID t) v" for v
    unfolding t(2) using ValidateToken_revoked[OF that range(2,3)] .
  have "tok_ID t \<notin> tok_ID ` set (auth_tokens w)" using assms(1) t(1) by (auto simp: auth_ok_def)
  moreover have "fst (ValidateToken IDKey tok w2) = Inr True \<longleftrightarrow> tok_ID t \<in> tok_ID ` set (auth_tokens w2)"
    if calm: "io_schedule w2 = []"
  proof (cases "tok_ID t \<in> tok_ID ` set (auth_tokens w2)")
    case True
    then have "t \<in> set (auth_tokens w2)" using iss by (auto simp: issued_def)
    then have "ValidateToken IDKey tok w2 = (Inr True, w2)"
      using iss assms(5) unfolding t(2)
      by (intro ValidateToken_created[where salt = salt] range calm t assms(3,4)) (simp_all add: issued_def)
    then show ?thesis using True by simp
  next
    case False
    then have "revoked (tok_ID t) w2" using iss by (simp add: revoked_def issued_def)
    then show ?thesis using shut False by blast
  qed
  moreover have "fst (ValidateToken IDKey tok w4) \<noteq> Inr True"
    if d: "DeleteToken (tok_ID t) w2 = (None, w3)" and r: "(auth_step IDKey)\<^sup>*\<^sup>* w3 w4" for w3 w4
  proof -
    have "revoked (tok_ID t) w3" using DeleteToken_revokes[OF d] iss by (simp add: issued_def)
    then show ?thesis by (intro shut auth_steps_keep(2)[OF r])
  qed
  moreover have "\<exists>t \<in> set (auth_tokens w2). \<exists>d salt. DecodeString (tok_TokenHash t) = Inr (salt @ IDKey d salt)
      \<and> (\<exists>ids data. h = ''Bearer '' @ ids @ '':'' @ data \<and> Atoi ids = Some (tok_ID t) \<and> DecodeString data = Inr d)"
    if adm: "withAuth (\<lambda>t. fst (ValidateToken IDKey t w2)) h = None" for h
  proof -
    obtain tk where tk: "h = ''Bearer '' @ tk" "fst (ValidateToken IDKey tk w2) = Inr True"
      using adm unfolding withAuth_admits_iff by blast
    obtain v where "ValidateToken IDKey tk w2 = (Inr True, v)" using tk(2) by (metis prod.collapse)
    from ValidateToken_sound[OF this] show ?thesis unfolding tk(1) by blast
  qed
  ultimately show ?thesis unfolding door Let_def t(1)[symmetric] by blast
qed

text \<open>
  The first token of an empty table, under a stand-in for Argon2 that returns 32 zero bytes:
  it opens the door, and not after its revocation.
\<close>

definition demo_rnd :: string where "demo_rnd = replicate 32 (CHR ''r'')"
definition demo_salt :: string where "demo_salt = replicate 16 (CHR ''s'')"
definition demo_argon2 :: "string \<Rightarrow> string \<Rightarrow> string" where "demo_argon2 d s = replicate 32 (CHR ''h'')"

definition demo_created :: "string res \<times> world" where
  "demo_created = CreateToken demo_argon2 (Inr demo_rnd) (Inr demo_salt) 5 empty_world"

lemma demo_created_eq:
  "demo_created = (Inr (Itoa 1 @ '':'' @ EncodeToString demo_rnd),
     empty_world\<lparr>auth_tokens := [\<lparr>tok_ID = 1, tok_TokenPrefix = take tokenPrefixLen (EncodeToString demo_rnd),
        tok_TokenHash = EncodeToString (demo_salt @ demo_argon2 demo_rnd demo_salt), tok_CreatedAt = 5\<rparr>],
      auth_seq := 1\<rparr>)"
  by (simp add: demo_created_def CreateToken_def Let_def calm_primitives empty_world_def insert_token_def)

theorem token_lifecycle_witness:
  "withAuth (\<lambda>t. fst (ValidateToken demo_argon2 t (snd demo_created))) (''Bearer '' @ projr (fst demo_created)) = None
   \<and> withAuth (\<lambda>t. fst (ValidateToken demo_argon2 t (snd (DeleteToken 1 (snd demo_created)))))
       (''Bearer '' @ projr (fst demo_created)) \<noteq> None"
proof -
  let ?w = "snd demo_created" and ?tok = "projr (fst demo_created)"
  have pre: "auth_ok empty_world" "auth_seq empty_world < max_int64" "length demo_rnd = 32"
    "length demo_salt = saltLength" "\<forall>d s. length (demo_argon2 d s) = argon2KeyLength"
    by (simp_all add: auth_ok_def empty_world_def max_int64_def demo_rnd_def demo_salt_def saltLength_def
        demo_argon2_def argon2KeyLength_def)
  have c: "CreateToken demo_argon2 (Inr demo_rnd) (Inr demo_salt) 5 empty_world = (Inr ?tok, ?w)"
    unfolding demo_created_def[symmetric] by (simp add: demo_created_eq)
  have w: "io_schedule ?w = []" "tok_ID ` set (auth_tokens ?w) = {1}" "auth_seq empty_world + 1 = 1"
    by (simp_all add: demo_created_eq empty_world_def)
  have d: "DeleteToken 1 ?w = (None, snd (DeleteToken 1 ?w))"
    by (simp add: demo_created_eq DeleteToken_def Let_def calm_primitives empty_world_def count_where_def)
  have "withAuth (\<lambda>t. fst (ValidateToken demo_argon2 t ?w)) (''Bearer '' @ ?tok) = None \<longleftrightarrow> (1 :: int) \<in> {1}"
    and "\<forall>w3 w4. DeleteToken 1 ?w = (None, w3) \<longrightarrow> (auth_step demo_argon2)\<^sup>*\<^sup>* w3 w4 \<longrightarrow>
          withAuth (\<lambda>t. fst (ValidateToken demo_argon2 t w4)) (''Bearer '' @ ?tok) \<noteq> None"
    using token_lifecycle[OF pre c rtranclp.rtrancl_refl] w unfolding Let_def by simp_all
  then show ?thesis using d by blast
qed

end
