(* ===== verification/KeyFile.thy ===== *)
theory KeyFile
  imports Base64 Operr
begin

text \<open>
  The master key file, \<open>internal/crypto/keyfile.go\<close>: its one-line format with a checksum,
  the reader of the current and of the headerless legacy form, and the sealed passwords of
  \<open>internal/crypto/password.go\<close>. SHA-256, AES-GCM and the 3ncr.org/1 token format are
  arguments. A key is a string of 32 bytes.
\<close>

section \<open>The file format\<close>

definition KeyFileSize :: nat where "KeyFileSize = 32"
abbreviation keyFileMarker :: string where "keyFileMarker \<equiv> ''ODDK-SECRET-MASTER-KEY''"
abbreviation keyFileVersion :: string where "keyFileVersion \<equiv> ''V1''"

definition hex_digit :: "nat \<Rightarrow> char" where
  "hex_digit n = ''0123456789abcdef'' ! n"

definition hex_encode :: "string \<Rightarrow> string" where
  "hex_encode bs = concat (map (\<lambda>c. [hex_digit (of_char c div 16), hex_digit (of_char c mod 16)]) bs)"

text \<open>\<open>sha256\<close> gives the 32 bytes of the digest; the checksum is the first four in hex.\<close>

definition keyChecksum :: "(string \<Rightarrow> string) \<Rightarrow> string \<Rightarrow> string" where
  "keyChecksum sha256 payload = hex_encode (take 4 (sha256 payload))"

definition encodeKeyFile :: "(string \<Rightarrow> string) \<Rightarrow> string \<Rightarrow> string" where
  "encodeKeyFile sha256 key =
     (let payload = EncodeToString key in
      keyFileMarker @ '';'' @ keyFileVersion @ '';'' @ payload @ '';'' @ keyChecksum sha256 payload @ [CHR 0x0A])"

definition decodeKeyPayload :: "string \<Rightarrow> string \<Rightarrow> string res" where
  "decodeKeyPayload payload path =
     (case DecodeString payload of
        Inl e \<Rightarrow> Inl (Errorf1 (''master key '' @ path @ '' is not a valid ODDK key file (expected base64url): '') e '''')
      | Inr key \<Rightarrow>
          if length key \<noteq> KeyFileSize
          then Inl (Errorf0 (''master key '' @ path @ '' has size '' @ Itoa (int (length key)) @ '', expected 32''))
          else Inr key)"

text \<open>\<open>strings.EqualFold\<close> on ASCII text.\<close>

definition EqualFold :: "string \<Rightarrow> string \<Rightarrow> bool" where
  "EqualFold a b = (ToLower a = ToLower b)"

text \<open>
  \<open>parseKeyFile\<close>: the key, and whether it was in the legacy form. \<open>acceptLegacyKeyFile\<close> is
  the constant of the source, true in this version.
\<close>

definition parseKeyFile :: "(string \<Rightarrow> string) \<Rightarrow> string \<Rightarrow> string \<Rightarrow> (string \<times> bool) res" where
  "parseKeyFile sha256 raw path =
     (let text = TrimSpace raw in
      if text = '''' then Inl (Errorf0 (''master key '' @ path @ '' is empty''))
      else if \<not> HasPrefix text (keyFileMarker @ '';'')
      then (case decodeKeyPayload text path of Inl e \<Rightarrow> Inl e | Inr key \<Rightarrow> Inr (key, True))
      else (case SplitChar (CHR '';'') text of
              [marker, version, payload, checksum] \<Rightarrow>
                if version \<noteq> keyFileVersion
                then Inl (Errorf0 (''master key '' @ path @ '' is format '' @ version @ '' but this binary understands V1 - upgrade ODDK''))
                else if \<not> EqualFold checksum (keyChecksum sha256 payload)
                then Inl (Errorf0 (''master key '' @ path @ '' fails its checksum (recorded '' @ checksum @ '', computed ''
                             @ keyChecksum sha256 payload @ '')''))
                else (case decodeKeyPayload payload path of Inl e \<Rightarrow> Inl e | Inr key \<Rightarrow> Inr (key, False))
            | parts \<Rightarrow> Inl (Errorf0 (''master key '' @ path @ '' is malformed: expected 4 fields, got '' @ Itoa (int (length parts))))))"

section \<open>Sealed passwords\<close>

abbreviation ThreeNcrPrefix :: string where "ThreeNcrPrefix \<equiv> ''3ncr.org/1#''"

definition newTokenCrypt :: "string \<Rightarrow> unit res" where
  "newTokenCrypt masterKey =
     (if length masterKey \<noteq> 32
      then Inl (Errorf0 (''master key must be 32 bytes, got '' @ Itoa (int (length masterKey)))) else Inr ())"

text \<open>\<open>encrypt3ncr\<close> and \<open>decrypt3ncr\<close> are the token library under a raw key.\<close>

definition EncryptPassword :: "(string \<Rightarrow> string \<Rightarrow> string res) \<Rightarrow> string \<Rightarrow> string \<Rightarrow> string res" where
  "EncryptPassword encrypt3ncr password masterKey =
     (case newTokenCrypt masterKey of
        Inl e \<Rightarrow> Inl e
      | Inr _ \<Rightarrow> (case encrypt3ncr masterKey password of
                    Inl e \<Rightarrow> Inl (wrap ''encrypt password'' e)
                  | Inr c \<Rightarrow> Inr c))"

text \<open>\<open>gcm_open key nonce sealed\<close> is AES-256-GCM with the standard 12-byte nonce.\<close>

definition decryptLegacy :: "(string \<Rightarrow> string \<Rightarrow> string \<Rightarrow> string res) \<Rightarrow> string \<Rightarrow> string \<Rightarrow> string res" where
  "decryptLegacy gcm_open encryptedPassword masterKey =
     (if length masterKey \<noteq> 32
      then Inl (Errorf0 (''master key must be 32 bytes, got '' @ Itoa (int (length masterKey))))
      else case DecodeString encryptedPassword of
        Inl e \<Rightarrow> Inl (wrap ''decode encrypted password'' e)
      | Inr ciphertext \<Rightarrow>
          if length ciphertext < 12 then Inl (Errorf0 ''decrypt password: ciphertext too short'')
          else case gcm_open masterKey (take 12 ciphertext) (drop 12 ciphertext) of
                 Inl e \<Rightarrow> Inl (wrap ''decrypt password'' e)
               | Inr plaintext \<Rightarrow> Inr plaintext)"

definition DecryptPassword ::
  "(string \<Rightarrow> string \<Rightarrow> string res) \<Rightarrow> (string \<Rightarrow> string \<Rightarrow> string \<Rightarrow> string res) \<Rightarrow> string \<Rightarrow> string \<Rightarrow> string res" where
  "DecryptPassword decrypt3ncr gcm_open encryptedPassword masterKey =
     (if HasPrefix encryptedPassword ThreeNcrPrefix
      then (case newTokenCrypt masterKey of
              Inl e \<Rightarrow> Inl e
            | Inr _ \<Rightarrow> (case decrypt3ncr masterKey encryptedPassword of
                          Inl e \<Rightarrow> Inl (wrap ''decrypt password'' e)
                        | Inr p \<Rightarrow> Inr p))
      else decryptLegacy gcm_open encryptedPassword masterKey)"

definition IsLegacyCiphertext :: "string \<Rightarrow> bool" where
  "IsLegacyCiphertext stored \<longleftrightarrow> stored \<noteq> '''' \<and> \<not> HasPrefix stored ThreeNcrPrefix"

section \<open>Round trips\<close>

lemma SplitChar_plain: "c \<notin> set xs \<Longrightarrow> SplitChar c xs = [xs]"
  by (induction xs) auto

lemma SplitChar_cons: "c \<notin> set xs \<Longrightarrow> SplitChar c (xs @ c # ys) = xs # SplitChar c ys"
  by (induction xs) auto

lemma wire_text:
  assumes "\<forall>c \<in> set xs. wire_char c"
  shows "CHR '';'' \<notin> set xs" "dropWhile is_space xs = xs"
proof -
  show "CHR '';'' \<notin> set xs" using assms by (auto simp: wire_char_def)
  show "dropWhile is_space xs = xs" using assms by (cases xs) (auto simp: wire_char_def)
qed

lemma hex_digit_wire: "n < 16 \<Longrightarrow> wire_char (hex_digit n)"
proof -
  have "list_all wire_char ''0123456789abcdef''" by (simp add: wire_char_def is_space_def)
  then show "n < 16 \<Longrightarrow> wire_char (hex_digit n)" by (simp add: hex_digit_def list_all_length)
qed

lemma of_char_nibbles: "(of_char c :: nat) div 16 < 16" "(of_char c :: nat) mod 16 < 16"
proof -
  have "(of_char c :: nat) < 256" using of_char_bytes[of "[c]"] by simp
  then show "(of_char c :: nat) div 16 < 16" by (simp add: less_mult_imp_div_less)
qed simp

lemma keyChecksum_wire: "\<forall>c \<in> set (keyChecksum sha256 p). wire_char c"
  by (auto simp: keyChecksum_def hex_encode_def hex_digit_wire of_char_nibbles)

lemma TrimSpace_line:
  assumes "\<not> is_space (hd xs)" "xs \<noteq> []" "\<not> is_space (last xs)"
  shows "TrimSpace (xs @ [CHR 0x0A]) = xs"
proof -
  have 1: "dropWhile is_space (xs @ [CHR 0x0A]) = xs @ [CHR 0x0A]" using assms by (cases xs) auto
  have 2: "dropWhile is_space (rev xs) = rev xs"
    using assms by (cases xs rule: rev_cases) auto
  show ?thesis unfolding TrimSpace_def 1 by (simp add: 2) (simp add: is_space_def 2)
qed

lemma encode_nonempty: "key \<noteq> [] \<Longrightarrow> EncodeToString key \<noteq> []"
  by (cases "map of_char key :: nat list" rule: encode_quanta.cases) (auto simp: EncodeToString_def)

lemma EncodeToString_wire: "\<forall>c \<in> set (EncodeToString key). wire_char c"
  using EncodeToString_chars by blast

lemma SplitChar_four:
  assumes "c \<notin> set p" "c \<notin> set q" "c \<notin> set r" "c \<notin> set s"
  shows "SplitChar c (p @ [c] @ q @ [c] @ r @ [c] @ s) = [p, q, r, s]"
  using assms by (simp add: SplitChar_cons SplitChar_plain)

lemma last_not_space:
  assumes "\<forall>c \<in> set s. wire_char c"
  shows "\<not> is_space (last (p @ '';'' @ s))"
proof (cases "s = []")
  case True
  then show ?thesis by (simp add: is_space_def)
next
  case False
  then have "last s \<in> set s" by simp
  with assms False show ?thesis by (auto simp: wire_char_def)
qed

lemma TrimSpace_wire:
  assumes "\<forall>c \<in> set xs. wire_char c"
  shows "TrimSpace xs = xs"
proof -
  have "\<forall>c \<in> set (rev xs). wire_char c" using assms by simp
  then show ?thesis using wire_text(2)[OF assms] wire_text(2) by (simp add: TrimSpace_def)
qed

text \<open>
  C30. The key file round trip: a key of 32 bytes, written in the current format, is read
  back as that key and not as a legacy one; the headerless text older versions wrote is read
  back as the same key, marked legacy; and whatever the bytes on disk are, a key that the
  reader accepts has 32 bytes.
\<close>

theorem keyfile_roundtrip:
  assumes "length key = 32"
  shows "parseKeyFile sha256 (encodeKeyFile sha256 key) path = Inr (key, False)
     \<and> parseKeyFile sha256 (EncodeToString key) path = Inr (key, True)
     \<and> (\<forall>raw k legacy. parseKeyFile sha256 raw path = Inr (k, legacy) \<longrightarrow> length k = 32)"
proof (intro conjI)
  let ?p = "EncodeToString key"
  let ?s = "keyChecksum sha256 ?p"
  let ?line = "keyFileMarker @ '';'' @ keyFileVersion @ '';'' @ ?p @ '';'' @ ?s"
  have payload: "decodeKeyPayload ?p path = Inr key"
    using assms by (simp add: decodeKeyPayload_def DecodeString_EncodeToString KeyFileSize_def)
  have "\<not> is_space (last ((keyFileMarker @ '';'' @ keyFileVersion @ '';'' @ ?p) @ '';'' @ ?s))"
    by (rule last_not_space[OF keyChecksum_wire])
  then have trim: "TrimSpace (?line @ [CHR 0x0A]) = ?line"
    by (intro TrimSpace_line) (simp_all add: is_space_def)
  have split: "SplitChar (CHR '';'') ?line = [keyFileMarker, keyFileVersion, ?p, ?s]"
    by (rule SplitChar_four) (simp_all add: wire_text(1) EncodeToString_wire keyChecksum_wire)
  have enc: "encodeKeyFile sha256 key = ?line @ [CHR 0x0A]" by (simp add: encodeKeyFile_def Let_def)
  have pre: "HasPrefix ?line (keyFileMarker @ '';'')"
    using HasPrefix_append[of "keyFileMarker @ '';''"] by (simp only: append_assoc)
  show "parseKeyFile sha256 (encodeKeyFile sha256 key) path = Inr (key, False)"
    unfolding parseKeyFile_def enc trim Let_def split using pre payload by (simp add: EqualFold_def)
  have "\<not> HasPrefix ?p (keyFileMarker @ '';'')"
  proof
    assume "HasPrefix ?p (keyFileMarker @ '';'')"
    then have "set (keyFileMarker @ '';'') \<subseteq> set ?p" unfolding HasPrefix_def by (metis set_take_subset)
    then show False using wire_text(1)[OF EncodeToString_wire] by auto
  qed
  moreover have "?p \<noteq> []" using assms by (intro encode_nonempty) auto
  ultimately show "parseKeyFile sha256 ?p path = Inr (key, True)"
    using payload
    by (auto simp: parseKeyFile_def TrimSpace_wire EncodeToString_wire Let_def)
  show "\<forall>raw k legacy. parseKeyFile sha256 raw path = Inr (k, legacy) \<longrightarrow> length k = 32"
    by (auto simp: parseKeyFile_def decodeKeyPayload_def KeyFileSize_def Let_def split: if_splits sum.splits list.splits)
qed

theorem keyfile_roundtrip_witness:
  "parseKeyFile (\<lambda>t. take 32 (t @ replicate 32 CHR ''x'')) (EncodeToString (replicate 32 (CHR ''k''))) ''/k'' = Inr (replicate 32 (CHR ''k''), True)"
  using keyfile_roundtrip[of "replicate 32 (CHR ''k'')"] by simp

end
