(* ===== verification/CronStore.thy ===== *)
theory CronStore
  imports Operr
begin

text \<open>
  The schedule store, \<open>internal/store/cron/cron.go\<close>: the per-instance backup plans and the
  log of scheduled runs. A run's row is written when the run starts; its phase columns are
  filled in by \<open>UpdateLog\<close>, which takes the column by name.
\<close>

section \<open>Plans\<close>

definition IsPaused :: "CronPlan \<Rightarrow> bool" where
  "IsPaused p = (\<not> IsZero (cp_PausedAt p))"

definition cron_check :: "CronPlan \<Rightarrow> bool" where
  "cron_check p \<longleftrightarrow> 0 \<le> cp_UTCHour p \<and> cp_UTCHour p < 24"

definition createplan_stmt :: "CronPlan \<Rightarrow> world \<Rightarrow> (world \<times> int) res" where
  "createplan_stmt new w =
     (if \<not> cron_check new then Inl (DriverError ''CHECK constraint failed: cron_plans'')
      else if cp_InstanceName new \<in> cp_InstanceName ` set (cron_plans w)
      then Inr (w\<lparr>cron_plans := upd_where (\<lambda>p. cp_InstanceName p = cp_InstanceName new)
                   (\<lambda>p. p\<lparr>cp_UTCHour := cp_UTCHour new,
                          cp_CleanupLocalDays := cp_CleanupLocalDays new,
                          cp_CleanupRemoteDays := cp_CleanupRemoteDays new,
                          cp_UpdatedAt := cp_UpdatedAt new\<rparr>) (cron_plans w)\<rparr>, 1)
      else Inr (w\<lparr>cron_plans := cron_plans w @ [new]\<rparr>, 1))"

definition Cron_CreatePlan ::
  "gotime \<Rightarrow> string \<Rightarrow> int \<Rightarrow> int \<Rightarrow> int \<Rightarrow> world \<Rightarrow> goerror option \<times> world" where
  "Cron_CreatePlan now instanceName utcHour cleanupLocalDays cleanupRemoteDays w =
     (case sql_exec (createplan_stmt
             \<lparr>cp_InstanceName = instanceName, cp_UTCHour = utcHour,
              cp_CleanupLocalDays = cleanupLocalDays, cp_CleanupRemoteDays = cleanupRemoteDays,
              cp_PausedAt = 0, cp_PausedReason = '''', cp_CreatedAt = now, cp_UpdatedAt = now\<rparr>) w of
        (Inl e, w1) \<Rightarrow> (Some (wrap ''create or update cron plan'' e), w1)
      | (Inr _, w1) \<Rightarrow> (None, w1))"

definition Cron_DeletePlan :: "string \<Rightarrow> world \<Rightarrow> goerror option \<times> world" where
  "Cron_DeletePlan instanceName w =
     (case sql_exec (\<lambda>w. Inr (w\<lparr>cron_plans :=
              del_where (\<lambda>p. cp_InstanceName p = instanceName) (cron_plans w)\<rparr>, 0)) w of
        (Inl e, w1) \<Rightarrow> (Some e, w1)
      | (Inr _, w1) \<Rightarrow> (None, w1))"

definition plans_update ::
  "string \<Rightarrow> (CronPlan \<Rightarrow> bool) \<Rightarrow> (CronPlan \<Rightarrow> CronPlan) \<Rightarrow> world \<Rightarrow> int res \<times> world" where
  "plans_update msg p f w =
     (case sql_exec (\<lambda>w. Inr (w\<lparr>cron_plans := upd_where p f (cron_plans w)\<rparr>,
                              count_where p (cron_plans w))) w of
        (Inl e, w1) \<Rightarrow> (Inl (wrap msg e), w1)
      | (Inr n, w1) \<Rightarrow> (Inr n, w1))"

definition Cron_PauseAllPlans :: "gotime \<Rightarrow> string \<Rightarrow> world \<Rightarrow> int res \<times> world" where
  "Cron_PauseAllPlans now reason =
     plans_update ''pause backup plans'' (\<lambda>p. True)
       (\<lambda>p. p\<lparr>cp_PausedAt := now, cp_PausedReason := reason, cp_UpdatedAt := now\<rparr>)"

definition Cron_ResumePlan :: "gotime \<Rightarrow> string \<Rightarrow> world \<Rightarrow> int res \<times> world" where
  "Cron_ResumePlan now instanceName =
     plans_update ''resume backup plan'' (\<lambda>p. cp_InstanceName p = instanceName)
       (\<lambda>p. p\<lparr>cp_PausedAt := 0, cp_PausedReason := '''', cp_UpdatedAt := now\<rparr>)"

definition Cron_PausePlan :: "gotime \<Rightarrow> string \<Rightarrow> string \<Rightarrow> world \<Rightarrow> int res \<times> world" where
  "Cron_PausePlan now instanceName reason =
     plans_update ''pause backup plan'' (\<lambda>p. cp_InstanceName p = instanceName)
       (\<lambda>p. p\<lparr>cp_PausedAt := now, cp_PausedReason := reason, cp_UpdatedAt := now\<rparr>)"

definition order_by_name :: "CronPlan list \<Rightarrow> CronPlan list" where
  "order_by_name = order_by cp_InstanceName"

definition Cron_ListPausedPlans :: "world \<Rightarrow> CronPlan list res \<times> world" where
  "Cron_ListPausedPlans = sql_query (\<lambda>w. order_by_name (filter IsPaused (cron_plans w)))"

definition Cron_GetPlan :: "string \<Rightarrow> world \<Rightarrow> CronPlan res \<times> world" where
  "Cron_GetPlan instanceName w =
     (case sql_query (\<lambda>w. find (\<lambda>p. cp_InstanceName p = instanceName) (cron_plans w)) w of
        (Inl e, w1) \<Rightarrow> (Inl e, w1)
      | (Inr None, w1) \<Rightarrow> (Inl (Sentinel ErrNoRows), w1)
      | (Inr (Some p), w1) \<Rightarrow> (Inr p, w1))"

definition Cron_ListPlans :: "world \<Rightarrow> CronPlan list res \<times> world" where
  "Cron_ListPlans = sql_query (\<lambda>w. order_by_name (cron_plans w))"

definition Cron_GetPlansForHour :: "int \<Rightarrow> world \<Rightarrow> CronPlan list res \<times> world" where
  "Cron_GetPlansForHour utcHour = sql_query (\<lambda>w. filter (\<lambda>p. cp_UTCHour p = utcHour) (cron_plans w))"

definition Cron_GetAllPlans :: "world \<Rightarrow> CronPlan list res \<times> world" where
  "Cron_GetAllPlans = sql_query (\<lambda>w. order_by_name (cron_plans w))"

definition Cron_CheckPlanExists :: "string \<Rightarrow> world \<Rightarrow> bool res \<times> world" where
  "Cron_CheckPlanExists instanceName w =
     (case sql_query (\<lambda>w. count_where (\<lambda>p. cp_InstanceName p = instanceName) (cron_plans w)) w of
        (Inl e, w1) \<Rightarrow> (Inl (wrap ''check cron plan exists'' e), w1)
      | (Inr n, w1) \<Rightarrow> (Inr (n > 0), w1))"

section \<open>Logs\<close>

definition new_log :: "int \<Rightarrow> string \<Rightarrow> gotime \<Rightarrow> CronLog" where
  "new_log n name started =
     \<lparr>cl_ID = n, cl_InstanceName = name, cl_StartedAt = started, cl_CompletedAt = None,
      cl_BackupStatus = None, cl_BackupFinishedAt = None, cl_BackupError = None,
      cl_BackupUploadStatus = None, cl_BackupUploadFinishedAt = None, cl_BackupUploadError = None,
      cl_BackupCleanupStatus = None, cl_BackupCleanupFinishedAt = None, cl_BackupCleanupError = None,
      cl_BackupRemoteCleanupStatus = None, cl_BackupRemoteCleanupFinishedAt = None,
      cl_BackupRemoteCleanupError = None\<rparr>"

definition Cron_CreateLog :: "gotime \<Rightarrow> string \<Rightarrow> world \<Rightarrow> CronLog res \<times> world" where
  "Cron_CreateLog startedAt instanceName w =
     (case sql_exec (\<lambda>w. let n = cron_seq w + 1 in
              Inr (w\<lparr>cron_logs := cron_logs w @ [new_log n instanceName startedAt], cron_seq := n\<rparr>, n)) w of
        (Inl e, w1) \<Rightarrow> (Inl (wrap ''create cron log'' e), w1)
      | (Inr n, w1) \<Rightarrow> (Inr (new_log n instanceName startedAt), w1))"

text \<open>
  \<open>UpdateLog\<close> with a map of columns. Text goes to the status and error columns, an instant
  to the time columns; any other column name makes the statement fail.
\<close>

datatype column_value = VText string | VTime gotime

definition set_column :: "string \<Rightarrow> column_value \<Rightarrow> (CronLog \<Rightarrow> CronLog) option" where
  "set_column c v =
     (case v of
        VText s \<Rightarrow>
          if c = ''backup_status'' then Some (\<lambda>l. l\<lparr>cl_BackupStatus := Some s\<rparr>)
          else if c = ''backup_error'' then Some (\<lambda>l. l\<lparr>cl_BackupError := Some s\<rparr>)
          else if c = ''backup_upload_status'' then Some (\<lambda>l. l\<lparr>cl_BackupUploadStatus := Some s\<rparr>)
          else if c = ''backup_upload_error'' then Some (\<lambda>l. l\<lparr>cl_BackupUploadError := Some s\<rparr>)
          else if c = ''backup_cleanup_status'' then Some (\<lambda>l. l\<lparr>cl_BackupCleanupStatus := Some s\<rparr>)
          else if c = ''backup_cleanup_error'' then Some (\<lambda>l. l\<lparr>cl_BackupCleanupError := Some s\<rparr>)
          else if c = ''backup_remote_cleanup_status''
          then Some (\<lambda>l. l\<lparr>cl_BackupRemoteCleanupStatus := Some s\<rparr>)
          else if c = ''backup_remote_cleanup_error''
          then Some (\<lambda>l. l\<lparr>cl_BackupRemoteCleanupError := Some s\<rparr>)
          else None
      | VTime t \<Rightarrow>
          if c = ''completed_at'' then Some (\<lambda>l. l\<lparr>cl_CompletedAt := Some t\<rparr>)
          else if c = ''backup_finished_at'' then Some (\<lambda>l. l\<lparr>cl_BackupFinishedAt := Some t\<rparr>)
          else if c = ''backup_upload_finished_at''
          then Some (\<lambda>l. l\<lparr>cl_BackupUploadFinishedAt := Some t\<rparr>)
          else if c = ''backup_cleanup_finished_at''
          then Some (\<lambda>l. l\<lparr>cl_BackupCleanupFinishedAt := Some t\<rparr>)
          else if c = ''backup_remote_cleanup_finished_at''
          then Some (\<lambda>l. l\<lparr>cl_BackupRemoteCleanupFinishedAt := Some t\<rparr>)
          else None)"

fun set_columns :: "(string \<times> column_value) list \<Rightarrow> (CronLog \<Rightarrow> CronLog) option" where
  "set_columns [] = Some (\<lambda>l. l)"
| "set_columns ((c, v) # us) =
     (case set_column c v of
        None \<Rightarrow> None
      | Some f \<Rightarrow> (case set_columns us of None \<Rightarrow> None | Some g \<Rightarrow> Some (\<lambda>l. g (f l))))"

definition Cron_UpdateLog ::
  "int \<Rightarrow> (string \<times> column_value) list \<Rightarrow> world \<Rightarrow> goerror option \<times> world" where
  "Cron_UpdateLog logID updates w =
     (if updates = [] then (None, w)
      else case sql_exec (\<lambda>w.
             case set_columns updates of
               None \<Rightarrow> Inl (DriverError ''no such column'')
             | Some f \<Rightarrow> Inr (w\<lparr>cron_logs := upd_where (\<lambda>l. cl_ID l = logID) f (cron_logs w)\<rparr>, 0)) w of
           (Inl e, w1) \<Rightarrow> (Some (wrap ''update cron log'' e), w1)
         | (Inr _, w1) \<Rightarrow> (None, w1))"

definition Cron_CompleteLog :: "gotime \<Rightarrow> int \<Rightarrow> world \<Rightarrow> goerror option \<times> world" where
  "Cron_CompleteLog now logID = Cron_UpdateLog logID [(''completed_at'', VTime now)]"

definition limited :: "int \<Rightarrow> 'a list \<Rightarrow> 'a list" where
  "limited limit xs = (if limit > 0 then take (nat limit) xs else xs)"

definition Cron_ListLogs :: "string \<Rightarrow> int \<Rightarrow> world \<Rightarrow> CronLog list res \<times> world" where
  "Cron_ListLogs instanceName limit w =
     (case sql_query (\<lambda>w. limited limit (sort_desc cl_StartedAt
              (filter (\<lambda>l. cl_InstanceName l = instanceName) (cron_logs w)))) w of
        (Inl e, w1) \<Rightarrow> (Inl (wrap ''list cron logs'' e), w1)
      | (Inr l, w1) \<Rightarrow> (Inr l, w1))"

definition Cron_ListAllLogs :: "int \<Rightarrow> world \<Rightarrow> CronLog list res \<times> world" where
  "Cron_ListAllLogs limit w =
     (case sql_query (\<lambda>w. limited limit (sort_desc cl_StartedAt (cron_logs w))) w of
        (Inl e, w1) \<Rightarrow> (Inl (wrap ''list all cron logs'' e), w1)
      | (Inr l, w1) \<Rightarrow> (Inr l, w1))"

definition Cron_GetLatestLogForInstance :: "string \<Rightarrow> world \<Rightarrow> CronLog option res \<times> world" where
  "Cron_GetLatestLogForInstance instanceName w =
     (case sql_query (\<lambda>w. case sort_desc cl_StartedAt
              (filter (\<lambda>l. cl_InstanceName l = instanceName) (cron_logs w)) of
                [] \<Rightarrow> None | l # _ \<Rightarrow> Some l) w of
        (Inl e, w1) \<Rightarrow> (Inl (wrap ''get latest cron log'' e), w1)
      | (Inr l, w1) \<Rightarrow> (Inr l, w1))"

text \<open>The count both \<open>HasRun\<close> methods make: rows of the instance started after the cutoff.\<close>

definition started_since :: "string \<Rightarrow> gotime \<Rightarrow> world \<Rightarrow> int" where
  "started_since instanceName cutoff w =
     count_where (\<lambda>l. cl_InstanceName l = instanceName \<and> cl_StartedAt l > cutoff) (cron_logs w)"

definition Cron_HasRunInLastHour :: "gotime \<Rightarrow> string \<Rightarrow> world \<Rightarrow> bool res \<times> world" where
  "Cron_HasRunInLastHour now instanceName w =
     (case sql_query (started_since instanceName (now - ns_hour)) w of
        (Inl e, w1) \<Rightarrow> (Inl (wrap ''check recent cron runs'' e), w1)
      | (Inr n, w1) \<Rightarrow> (Inr (n > 0), w1))"

definition Cron_HasRunSince :: "string \<Rightarrow> gotime \<Rightarrow> world \<Rightarrow> bool res \<times> world" where
  "Cron_HasRunSince instanceName cutoff w =
     (case sql_query (started_since instanceName cutoff) w of
        (Inl e, w1) \<Rightarrow> (Inl (wrap ''check recent cron runs since'' e), w1)
      | (Inr n, w1) \<Rightarrow> (Inr (n > 0), w1))"

definition coalesce :: "'a option \<Rightarrow> 'a \<Rightarrow> 'a option" where
  "coalesce x d = (case x of None \<Rightarrow> Some d | Some v \<Rightarrow> Some v)"

definition interrupt_log :: "gotime \<Rightarrow> CronLog \<Rightarrow> CronLog" where
  "interrupt_log now l =
     l\<lparr>cl_CompletedAt := Some now,
       cl_BackupStatus := coalesce (cl_BackupStatus l) ''interrupted'',
       cl_BackupError := coalesce (cl_BackupError l) ''daemon stopped before this run finished''\<rparr>"

lemma interrupt_log_sel [simp]:
  "cl_CompletedAt (interrupt_log now l) = Some now" "cl_InstanceName (interrupt_log now l) = cl_InstanceName l"
  "cl_ID (interrupt_log now l) = cl_ID l" "cl_StartedAt (interrupt_log now l) = cl_StartedAt l"
  by (simp_all add: interrupt_log_def)

definition Cron_MarkInterruptedRuns :: "gotime \<Rightarrow> string \<Rightarrow> world \<Rightarrow> int res \<times> world" where
  "Cron_MarkInterruptedRuns now instanceName w =
     (let p = (\<lambda>l. cl_InstanceName l = instanceName \<and> cl_CompletedAt l = None) in
      case sql_exec (\<lambda>w. Inr (w\<lparr>cron_logs := upd_where p (interrupt_log now) (cron_logs w)\<rparr>,
                              count_where p (cron_logs w))) w of
        (Inl e, w1) \<Rightarrow> (Inl (wrap ''mark interrupted cron runs'' e), w1)
      | (Inr n, w1) \<Rightarrow> (Inr n, w1))"

definition Cron_CleanupOldLogs :: "gotime \<Rightarrow> int \<Rightarrow> world \<Rightarrow> int res \<times> world" where
  "Cron_CleanupOldLogs now olderThan w =
     (let p = (\<lambda>l. cl_StartedAt l < now + wrap64 (- olderThan)) in
      case sql_exec (\<lambda>w. Inr (w\<lparr>cron_logs := del_where p (cron_logs w)\<rparr>,
                              count_where p (cron_logs w))) w of
        (Inl e, w1) \<Rightarrow> (Inl (wrap ''cleanup old cron logs'' e), w1)
      | (Inr n, w1) \<Rightarrow> (Inr n, w1))"

section \<open>Facts\<close>

lemma Cron_reads_same:
  "Cron_GetPlan i w = (r, w') \<Longrightarrow> same_but_io w w'"
  "Cron_GetLatestLogForInstance i w = (r1, w') \<Longrightarrow> same_but_io w w'"
  "Cron_HasRunSince i t w = (r2, w') \<Longrightarrow> same_but_io w w'"
  "Cron_HasRunInLastHour t i w = (r3, w') \<Longrightarrow> same_but_io w w'"
  "Cron_GetAllPlans w = (r4, w') \<Longrightarrow> same_but_io w w'"
  by (auto simp: Cron_GetPlan_def Cron_GetLatestLogForInstance_def Cron_HasRunSince_def
      Cron_HasRunInLastHour_def Cron_GetAllPlans_def intro: sql_query_same
      split: prod.splits sum.splits option.splits)

text \<open>
  After a start-up pass no run of the given name looks in flight, each interrupted run
  says so in its log, and finished runs and the runs of other names are as before. (The
  database answering.)
\<close>

theorem MarkInterruptedRuns_closes:
  assumes "io_schedule w = []"
  shows "case Cron_MarkInterruptedRuns now i w of
      (Inl e, w') \<Rightarrow> False
    | (Inr n, w') \<Rightarrow>
        n = count_where (\<lambda>l. cl_InstanceName l = i \<and> cl_CompletedAt l = None) (cron_logs w)
        \<and> cron_logs w' = map (\<lambda>l. if cl_InstanceName l = i \<and> cl_CompletedAt l = None
                                   then interrupt_log now l else l) (cron_logs w)
        \<and> (\<forall>l \<in> set (cron_logs w'). cl_InstanceName l = i \<longrightarrow> cl_CompletedAt l \<noteq> None)
        \<and> (\<forall>l \<in> set (cron_logs w). cl_CompletedAt l \<noteq> None \<longrightarrow> l \<in> set (cron_logs w'))"
proof -
  let ?p = "\<lambda>l. cl_InstanceName l = i \<and> cl_CompletedAt l = None"
  define ls where "ls = map (\<lambda>l. if ?p l then interrupt_log now l else l) (cron_logs w)"
  have run: "Cron_MarkInterruptedRuns now i w = (Inr (count_where ?p (cron_logs w)), w\<lparr>cron_logs := ls\<rparr>)"
    using assms by (simp add: Cron_MarkInterruptedRuns_def calm_primitives Let_def upd_where_def ls_def)
  have closed: "\<forall>l \<in> set ls. cl_InstanceName l = i \<longrightarrow> cl_CompletedAt l \<noteq> None"
    unfolding ls_def set_map
    by (rule ballI, erule imageE) (simp split: if_splits)
  have kept: "\<forall>l \<in> set (cron_logs w). cl_CompletedAt l \<noteq> None \<longrightarrow> l \<in> set ls"
    unfolding ls_def set_map by (intro ballI impI image_eqI) auto
  show ?thesis unfolding run prod.case sum.case using closed kept by (simp add: ls_def[symmetric])
qed

theorem MarkInterruptedRuns_closes_witness:
  "map cl_BackupStatus (cron_logs (snd (Cron_MarkInterruptedRuns 9 ''*snapshot*''
      (empty_world\<lparr>cron_logs := [new_log 1 ''*snapshot*'' 5]\<rparr>)))) = [Some ''interrupted'']"
proof -
  have "io_schedule (empty_world\<lparr>cron_logs := [new_log 1 ''*snapshot*'' 5]\<rparr>) = []"
    by (simp add: empty_world_def)
  from MarkInterruptedRuns_closes[OF this, where now = 9 and i = "''*snapshot*''"] show ?thesis
    by (auto simp: new_log_def interrupt_log_def coalesce_def split: prod.splits sum.splits)
qed

end
