(* ===== verification/NotificationStore.thy ===== *)
theory NotificationStore
  imports KeyFile CronStore
begin

text \<open>
  Notification channels, \<open>internal/store/notifications\<close>: the store, the validation of a
  channel's configuration and the encryption of its \<open>config\<close> column. Decoding JSON and the
  field validator are arguments; \<open>enc\<close> and \<open>dec\<close> are \<open>crypto.EncryptPassword\<close> and
  \<open>crypto.DecryptPassword\<close> under the master key the store was built with.
\<close>

section \<open>Validation\<close>

definition ValidateNotificationType :: "string \<Rightarrow> goerror option" where
  "ValidateNotificationType t =
     (if t \<in> {''email'', ''slack'', ''telegram'', ''webhook''} then None
      else Some (Errorf0 (''invalid notification type: '' @ t)))"

definition is_letter :: "char \<Rightarrow> bool" where
  "is_letter c = (let n = of_char c :: nat in (65 \<le> n \<and> n \<le> 90) \<or> (97 \<le> n \<and> n \<le> 122))"

definition ValidateNotificationName :: "string \<Rightarrow> goerror option" where
  "ValidateNotificationName name =
     (if name = '''' then Some (Errorf0 ''notification name cannot be empty'')
      else if length name < 2 then Some (Errorf0 ''notification name must be at least 2 characters long'')
      else if length name > 50 then Some (Errorf0 ''notification name must be at most 50 characters long'')
      else if \<not> (is_letter (hd name)
                \<and> list_all (\<lambda>c. is_letter c \<or> is_digit c \<or> c = CHR ''_'' \<or> c = CHR ''-'') (tl name))
      then Some (Errorf0 ''notification name must start with a letter and contain only alphanumeric characters, dashes, and underscores'')
      else None)"

text \<open>The decoded configurations, with the fields the source's own checks read.\<close>

datatype ChannelConfig =
    EmailConfig (ch_Host: string) (ch_TLS: bool) (ch_StartTLS: bool)
  | SlackConfig (ch_SlackWebhookURL: string)
  | TelegramConfig (ch_Token: string)
  | WebhookConfig (ch_URL: string) (ch_RequestBodyType: string) (ch_RequestBodyMessageKey: string)

definition webhook_defaults :: "ChannelConfig \<Rightarrow> ChannelConfig" where
  "webhook_defaults cfg =
     (case cfg of
        WebhookConfig url t k \<Rightarrow>
          let t1 = (if t = '''' then ''plain'' else t);
              k1 = (if k = '''' \<and> t1 \<in> {''json'', ''post''} then ''text'' else k)
          in WebhookConfig url t1 k1
      | other \<Rightarrow> other)"

text \<open>\<open>unmarshal t\<close> decodes into the structure of type \<open>t\<close>; \<open>validate_Struct\<close> is the validator.\<close>

definition ValidateConfig ::
  "(string \<Rightarrow> string \<Rightarrow> ChannelConfig res) \<Rightarrow> (ChannelConfig \<Rightarrow> goerror option) \<Rightarrow> string \<Rightarrow> string \<Rightarrow> goerror option" where
  "ValidateConfig unmarshal validate_Struct notifType config =
     (if notifType \<notin> {''email'', ''slack'', ''telegram'', ''webhook''} then None
      else case unmarshal notifType config of
        Inl e \<Rightarrow> Some (wrap (''invalid '' @ notifType @ '' config JSON'') e)
      | Inr cfg0 \<Rightarrow>
          let cfg = webhook_defaults cfg0 in
          (case validate_Struct cfg of
             Some e \<Rightarrow> Some (wrap (notifType @ '' config validation failed'') e)
           | None \<Rightarrow>
               (case cfg of
                  EmailConfig host tls starttls \<Rightarrow>
                    if tls \<and> starttls then Some (Errorf0 ''email config cannot have both TLS and StartTLS enabled'')
                    else if Contains host ''example.com''
                    then Some (Errorf0 ''email config cannot use example.com - please provide a real SMTP host'') else None
                | SlackConfig url \<Rightarrow>
                    if Contains url ''YOUR/WEBHOOK/URL''
                    then Some (Errorf0 ''slack config cannot use example URL - please provide a real webhook URL'') else None
                | TelegramConfig token \<Rightarrow>
                    if Contains token ''EXAMPLETELEGRAMTOKEN''
                    then Some (Errorf0 ''telegram config cannot use example token - please provide a real bot token'') else None
                | WebhookConfig url t k \<Rightarrow>
                    if Contains url ''example.com''
                    then Some (Errorf0 ''webhook config cannot use example.com - please provide a real webhook URL'') else None)))"

section \<open>The encrypted column\<close>

definition encryptConfig :: "(string \<Rightarrow> string res) \<Rightarrow> string \<Rightarrow> string res" where
  "encryptConfig enc config =
     (case enc config of Inl e \<Rightarrow> Inl (wrap ''encrypt notification config'' e) | Inr c \<Rightarrow> Inr c)"

definition isEncryptedConfig :: "string \<Rightarrow> bool" where
  "isEncryptedConfig stored = HasPrefix stored ThreeNcrPrefix"

definition decryptConfig :: "(string \<Rightarrow> string res) \<Rightarrow> string \<Rightarrow> string \<Rightarrow> string res" where
  "decryptConfig dec name stored =
     (if \<not> isEncryptedConfig stored then Inr stored
      else case dec stored of
        Inl e \<Rightarrow> Inl (Errorf2 (''decrypt config of notification '' @ name @ '': '') (Sentinel ErrConfigUndecryptable) '': '' e '''')
      | Inr p \<Rightarrow> Inr p)"

section \<open>The store\<close>

definition insert_notification :: "Notification \<Rightarrow> world \<Rightarrow> (world \<times> int) res" where
  "insert_notification n w =
     (if nt_Name n \<in> nt_Name ` set (notifications w)
      then Inl (DriverError ''UNIQUE constraint failed: notifications.name'')
      else Inr (w\<lparr>notifications := notifications w @ [n]\<rparr>, 0))"

definition Notifications_Create ::
  "(string \<Rightarrow> string res) \<Rightarrow> (string \<Rightarrow> string \<Rightarrow> goerror option) \<Rightarrow> gotime \<Rightarrow> string \<Rightarrow> string \<Rightarrow> string \<Rightarrow> world
     \<Rightarrow> Notification res \<times> world" where
  "Notifications_Create enc validate now name notifType config w =
     (case ValidateNotificationType notifType of
        Some e \<Rightarrow> (Inl e, w)
      | None \<Rightarrow> (case validate notifType config of
        Some e \<Rightarrow> (Inl e, w)
      | None \<Rightarrow> (case encryptConfig enc config of
        Inl e \<Rightarrow> (Inl e, w)
      | Inr encrypted \<Rightarrow>
          let n = \<lparr>nt_Name = name, nt_Type = notifType, nt_Config = encrypted, nt_CreatedAt = now, nt_UpdatedAt = now\<rparr> in
          (case sql_exec (insert_notification n) w of
             (Inl e, w1) \<Rightarrow> (Inl (wrap ''failed to create notification'' e), w1)
           | (Inr _, w1) \<Rightarrow> (Inr (n\<lparr>nt_Config := config\<rparr>), w1)))))"

definition Notifications_Get :: "(string \<Rightarrow> string res) \<Rightarrow> string \<Rightarrow> world \<Rightarrow> Notification res \<times> world" where
  "Notifications_Get dec name w =
     (case sql_query (\<lambda>w. find (\<lambda>n. nt_Name n = name) (notifications w)) w of
        (Inl e, w1) \<Rightarrow> (Inl (wrap ''failed to get notification'' e), w1)
      | (Inr None, w1) \<Rightarrow> (Inl (Errorf0 (''notification '' @ name @ '' not found'')), w1)
      | (Inr (Some n), w1) \<Rightarrow>
          (case decryptConfig dec name (nt_Config n) of
             Inl e \<Rightarrow> (Inl e, w1)
           | Inr config \<Rightarrow> (Inr (n\<lparr>nt_Config := config\<rparr>), w1)))"

fun decrypt_rows :: "(string \<Rightarrow> string res) \<Rightarrow> Notification list \<Rightarrow> Notification list res" where
  "decrypt_rows dec [] = Inr []"
| "decrypt_rows dec (n # ns) =
     (case decryptConfig dec (nt_Name n) (nt_Config n) of
        Inl e \<Rightarrow> Inl e
      | Inr config \<Rightarrow>
          (case decrypt_rows dec ns of Inl e \<Rightarrow> Inl e | Inr ms \<Rightarrow> Inr (n\<lparr>nt_Config := config\<rparr> # ms)))"

definition Notifications_List :: "(string \<Rightarrow> string res) \<Rightarrow> world \<Rightarrow> Notification list res \<times> world" where
  "Notifications_List dec w =
     (case sql_query (\<lambda>w. order_by nt_Name (notifications w)) w of
        (Inl e, w1) \<Rightarrow> (Inl (wrap ''failed to list notifications'' e), w1)
      | (Inr ns, w1) \<Rightarrow> (decrypt_rows dec ns, w1))"

definition update_notification :: "string \<Rightarrow> (Notification \<Rightarrow> Notification) \<Rightarrow> world \<Rightarrow> (world \<times> int) res" where
  "update_notification name f w =
     Inr (w\<lparr>notifications := upd_where (\<lambda>n. nt_Name n = name) f (notifications w)\<rparr>,
          count_where (\<lambda>n. nt_Name n = name) (notifications w))"

definition Notifications_Update ::
  "(string \<Rightarrow> string res) \<Rightarrow> (string \<Rightarrow> string res) \<Rightarrow> (string \<Rightarrow> string \<Rightarrow> goerror option) \<Rightarrow> gotime \<Rightarrow> string \<Rightarrow> string \<Rightarrow> string
     \<Rightarrow> world \<Rightarrow> Notification res \<times> world" where
  "Notifications_Update enc dec validate now name notifType config w =
     (case ValidateNotificationType notifType of
        Some e \<Rightarrow> (Inl e, w)
      | None \<Rightarrow> (case validate notifType config of
        Some e \<Rightarrow> (Inl e, w)
      | None \<Rightarrow> (case encryptConfig enc config of
        Inl e \<Rightarrow> (Inl e, w)
      | Inr encrypted \<Rightarrow>
          (case sql_exec (update_notification name
                  (\<lambda>n. n\<lparr>nt_Type := notifType, nt_Config := encrypted, nt_UpdatedAt := now\<rparr>)) w of
             (Inl e, w1) \<Rightarrow> (Inl (wrap ''failed to update notification'' e), w1)
           | (Inr k, w1) \<Rightarrow>
               if k = 0 then (Inl (Errorf0 (''notification '' @ name @ '' not found'')), w1)
               else Notifications_Get dec name w1))))"

definition Notifications_Delete :: "string \<Rightarrow> world \<Rightarrow> goerror option \<times> world" where
  "Notifications_Delete name w =
     (case sql_exec (\<lambda>w. Inr (w\<lparr>notifications := del_where (\<lambda>n. nt_Name n = name) (notifications w)\<rparr>,
                              count_where (\<lambda>n. nt_Name n = name) (notifications w))) w of
        (Inl e, w1) \<Rightarrow> (Some (wrap ''failed to delete notification'' e), w1)
      | (Inr k, w1) \<Rightarrow>
          if k = 0 then (Some (Errorf0 (''notification '' @ name @ '' not found'')), w1) else (None, w1))"

definition LogNotification ::
  "gotime \<Rightarrow> string \<Rightarrow> string \<Rightarrow> string option \<Rightarrow> string option \<Rightarrow> world \<Rightarrow> goerror option \<times> world" where
  "LogNotification now notificationName status message errorMsg w =
     (case sql_exec (\<lambda>w. let n = notification_log_seq w + 1 in
              Inr (w\<lparr>notification_logs := notification_logs w @
                      [\<lparr>nl_ID = n, nl_NotificationName = notificationName, nl_Status = status,
                        nl_Message = message, nl_Error = errorMsg, nl_CreatedAt = now\<rparr>],
                    notification_log_seq := n\<rparr>, n)) w of
        (Inl e, w1) \<Rightarrow> (Some (wrap ''failed to log notification'' e), w1)
      | (Inr _, w1) \<Rightarrow> (None, w1))"

text \<open>\<open>LIMIT ?\<close> with a negative bound returns every row.\<close>

definition sql_limit :: "int \<Rightarrow> 'a list \<Rightarrow> 'a list" where
  "sql_limit k xs = (if k < 0 then xs else take (nat k) xs)"

definition Notifications_GetLogs :: "int \<Rightarrow> world \<Rightarrow> NotificationLog list res \<times> world" where
  "Notifications_GetLogs limit w =
     (case sql_query (\<lambda>w. sql_limit limit (sort_desc nl_CreatedAt (notification_logs w))) w of
        (Inl e, w1) \<Rightarrow> (Inl (wrap ''failed to get notification logs'' e), w1)
      | (Inr l, w1) \<Rightarrow> (Inr l, w1))"

definition Notifications_CleanupOldLogs :: "gotime \<Rightarrow> int \<Rightarrow> world \<Rightarrow> int res \<times> world" where
  "Notifications_CleanupOldLogs now olderThan w =
     (let p = (\<lambda>l. nl_CreatedAt l < now + wrap64 (- olderThan)) in
      case sql_exec (\<lambda>w. Inr (w\<lparr>notification_logs := del_where p (notification_logs w)\<rparr>,
                              count_where p (notification_logs w))) w of
        (Inl e, w1) \<Rightarrow> (Inl (wrap ''cleanup old notification logs'' e), w1)
      | (Inr n, w1) \<Rightarrow> (Inr n, w1))"

end
