(* ===== verification/InstanceStore.thy ===== *)
theory InstanceStore
  imports Operr
begin

text \<open>
  The instance catalogue, \<open>internal/store/instances\<close>: the status vocabulary and its
  classification (\<open>status.go\<close>), and the store operations on \<open>rdbms_instances\<close>
  (\<open>instances.go\<close>), each one SQL statement followed by the check of the rows it affected.
  \<open>now\<close> is the instant \<open>rfc3339time.Now()\<close> returned.
\<close>

section \<open>Status vocabulary\<close>

abbreviation StatusRunning :: string where "StatusRunning \<equiv> ''running''"
abbreviation StatusStopped :: string where "StatusStopped \<equiv> ''stopped''"
abbreviation StatusError :: string where "StatusError \<equiv> ''error''"
abbreviation StatusCreating :: string where "StatusCreating \<equiv> ''creating''"
abbreviation StatusRestoring :: string where "StatusRestoring \<equiv> ''restoring''"
abbreviation StatusSwitching :: string where "StatusSwitching \<equiv> ''switching''"
abbreviation StatusReconfiguring :: string where "StatusReconfiguring \<equiv> ''reconfiguring''"
abbreviation StatusUpgrading :: string where "StatusUpgrading \<equiv> ''upgrading''"
abbreviation StatusBroken :: string where "StatusBroken \<equiv> ''broken''"
abbreviation StatusBrokenPort :: string where "StatusBrokenPort \<equiv> ''broken-port''"
abbreviation StatusBrokenAuth :: string where "StatusBrokenAuth \<equiv> ''broken-auth''"

definition interruptedRemedies :: "(string \<times> string) list" where
  "interruptedRemedies =
     [(StatusCreating, ''destroy and re-create it''),
      (StatusRestoring,
       ''its data is incomplete, re-apply the snapshot or restore it from a backup''),
      (StatusSwitching,
       ''the data volume is intact - 'instance start' it, then re-run the switch''),
      (StatusReconfiguring,
       ''the data volume is intact - 'instance start' it, then re-apply the parameter group''),
      (StatusUpgrading,
       ''its data may be partially migrated, restore it from the pre-upgrade backup'')]"

definition derivedStatuses :: "string list" where
  "derivedStatuses =
     [StatusRunning, StatusStopped, StatusBroken, StatusBrokenPort, StatusBrokenAuth]"

definition IsInterrupted :: "string \<Rightarrow> string option" where
  "IsInterrupted s = map_of interruptedRemedies s"

definition IsDerived :: "string \<Rightarrow> bool" where
  "IsDerived s = (s \<in> set derivedStatuses)"

definition IsTerminal :: "string \<Rightarrow> bool" where
  "IsTerminal s = (s = StatusError \<or> s = StatusRunning \<or> s = StatusStopped)"

definition Valid :: "string \<Rightarrow> bool" where
  "Valid s = (IsInterrupted s \<noteq> None \<or> s = StatusError \<or> IsDerived s)"

definition AllStatuses :: "string list" where
  "AllStatuses =
     [StatusRunning, StatusStopped, StatusError,
      StatusCreating, StatusRestoring, StatusSwitching, StatusReconfiguring, StatusUpgrading,
      StatusBroken, StatusBrokenPort, StatusBrokenAuth]"

section \<open>Operations\<close>

text \<open>
  The statement \<open>UPDATE rdbms_instances SET ... WHERE name = ?\<close>, with the CHECK on the
  status column (migration 020), and the check of the affected rows that every updating
  method makes.
\<close>

definition update_stmt :: "string \<Rightarrow> (RDBMSInstance \<Rightarrow> RDBMSInstance) \<Rightarrow> world \<Rightarrow> (world \<times> int) res" where
  "update_stmt name f w =
     (let p = (\<lambda>i. inst_Name i = name) in
      if \<forall>i \<in> set (rdbms_instances w). p i \<longrightarrow> inst_Status (f i) \<in> set AllStatuses
      then Inr (w\<lparr>rdbms_instances := upd_where p f (rdbms_instances w)\<rparr>,
                count_where p (rdbms_instances w))
      else Inl (DriverError ''CHECK constraint failed: rdbms_instances''))"

definition update_instance ::
  "string \<Rightarrow> string \<Rightarrow> (RDBMSInstance \<Rightarrow> RDBMSInstance) \<Rightarrow> world \<Rightarrow> goerror option \<times> world" where
  "update_instance msg name f w =
     (case sql_exec (update_stmt name f) w of
        (Inl e, w1) \<Rightarrow> (Some (wrap msg e), w1)
      | (Inr n, w1) \<Rightarrow>
          if n = 0 then (Some (Errorf0 (''instance '' @ name @ '' not found'')), w1)
          else (None, w1))"

definition Instances_Get :: "string \<Rightarrow> world \<Rightarrow> RDBMSInstance res \<times> world" where
  "Instances_Get name w =
     (case sql_query (\<lambda>w. find (\<lambda>i. inst_Name i = name) (rdbms_instances w)) w of
        (Inl e, w1) \<Rightarrow> (Inl (wrap ''get rdbms instance'' e), w1)
      | (Inr None, w1) \<Rightarrow> (Inl (NotFoundf (Errorf0 (''instance not found: '' @ name))), w1)
      | (Inr (Some i), w1) \<Rightarrow> (Inr i, w1))"

definition insert_stmt :: "RDBMSInstance \<Rightarrow> world \<Rightarrow> (world \<times> int) res" where
  "insert_stmt i w =
     (if inst_Name i \<in> inst_Name ` set (rdbms_instances w)
      then Inl (DriverError ''UNIQUE constraint failed: rdbms_instances.name'')
      else if inst_Status i \<notin> set AllStatuses
      then Inl (DriverError ''CHECK constraint failed: rdbms_instances'')
      else let n = instances_seq w + 1 in
           Inr (w\<lparr>rdbms_instances := rdbms_instances w @ [i\<lparr>inst_ID := n\<rparr>], instances_seq := n\<rparr>, n))"

definition Instances_Create ::
  "gotime \<Rightarrow> string \<Rightarrow> int \<Rightarrow> string \<Rightarrow> string \<Rightarrow> string \<Rightarrow> int \<Rightarrow> int \<Rightarrow> string \<Rightarrow> string
     \<Rightarrow> world \<Rightarrow> RDBMSInstance res \<times> world" where
  "Instances_Create now name port version password containerID cpuCores ramMB parameterGroup img w =
     (case sql_exec (insert_stmt
             \<lparr>inst_ID = 0, inst_Name = name, inst_Port = port, inst_Version = version,
              inst_Status = StatusCreating, inst_ContainerID = containerID,
              inst_Password = password, inst_CPUCores = cpuCores, inst_RAMMB = ramMB,
              inst_ParameterGroup = parameterGroup, inst_Image = img,
              inst_CreatedAt = now, inst_UpdatedAt = now\<rparr>) w of
        (Inl e, w1) \<Rightarrow> (Inl (wrap ''insert rdbms instance'' e), w1)
      | (Inr _, w1) \<Rightarrow> Instances_Get name w1)"

definition Instances_BackdateCreatedAt :: "string \<Rightarrow> gotime \<Rightarrow> world \<Rightarrow> goerror option \<times> world" where
  "Instances_BackdateCreatedAt name createdAt w =
     (case sql_exec (update_stmt name (\<lambda>i. i\<lparr>inst_CreatedAt := createdAt\<rparr>)) w of
        (Inl e, w1) \<Rightarrow> (Some (wrap ''backdate instance created_at'' e), w1)
      | (Inr _, w1) \<Rightarrow> (None, w1))"

definition Instances_List :: "world \<Rightarrow> RDBMSInstance list res \<times> world" where
  "Instances_List w =
     (case sql_query rdbms_instances w of
        (Inl e, w1) \<Rightarrow> (Inl (wrap ''list rdbms instances'' e), w1)
      | (Inr l, w1) \<Rightarrow> (Inr l, w1))"

definition Instances_UpdateStatus ::
  "gotime \<Rightarrow> string \<Rightarrow> string \<Rightarrow> world \<Rightarrow> goerror option \<times> world" where
  "Instances_UpdateStatus now name status =
     update_instance ''update status'' name
       (\<lambda>i. i\<lparr>inst_Status := status, inst_UpdatedAt := now\<rparr>)"

definition Instances_UpdateContainerID ::
  "gotime \<Rightarrow> string \<Rightarrow> string \<Rightarrow> world \<Rightarrow> goerror option \<times> world" where
  "Instances_UpdateContainerID now name containerID =
     update_instance ''update container ID'' name
       (\<lambda>i. i\<lparr>inst_ContainerID := containerID, inst_UpdatedAt := now\<rparr>)"

definition Instances_UpdatePassword ::
  "gotime \<Rightarrow> string \<Rightarrow> string \<Rightarrow> world \<Rightarrow> goerror option \<times> world" where
  "Instances_UpdatePassword now name encryptedPassword =
     update_instance ''update password'' name
       (\<lambda>i. i\<lparr>inst_Password := encryptedPassword, inst_UpdatedAt := now\<rparr>)"

definition Instances_UpdateImage ::
  "gotime \<Rightarrow> string \<Rightarrow> string \<Rightarrow> string \<Rightarrow> world \<Rightarrow> goerror option \<times> world" where
  "Instances_UpdateImage now name img version =
     update_instance ''update image'' name
       (\<lambda>i. i\<lparr>inst_Image := img, inst_Version := version, inst_UpdatedAt := now\<rparr>)"

definition Instances_UpdateParameterGroup ::
  "gotime \<Rightarrow> string \<Rightarrow> string \<Rightarrow> world \<Rightarrow> goerror option \<times> world" where
  "Instances_UpdateParameterGroup now name parameterGroup =
     update_instance ''update parameter group'' name
       (\<lambda>i. i\<lparr>inst_ParameterGroup := parameterGroup, inst_UpdatedAt := now\<rparr>)"

definition Instances_UpdateResources ::
  "gotime \<Rightarrow> string \<Rightarrow> int \<Rightarrow> int \<Rightarrow> int \<Rightarrow> world \<Rightarrow> goerror option \<times> world" where
  "Instances_UpdateResources now name port cpuCores ramMB =
     update_instance ''update resources'' name
       (\<lambda>i. i\<lparr>inst_Port := port, inst_CPUCores := cpuCores, inst_RAMMB := ramMB,
              inst_UpdatedAt := now\<rparr>)"

definition Instances_Delete :: "string \<Rightarrow> world \<Rightarrow> goerror option \<times> world" where
  "Instances_Delete name w =
     (case sql_exec (\<lambda>w. Inr (w\<lparr>rdbms_instances :=
              del_where (\<lambda>i. inst_Name i = name) (rdbms_instances w)\<rparr>, 0)) w of
        (Inl e, w1) \<Rightarrow> (Some (wrap ''delete rdbms instance'' e), w1)
      | (Inr _, w1) \<Rightarrow> (None, w1))"

definition Instances_IsPortInUse :: "int \<Rightarrow> world \<Rightarrow> (bool \<times> string) res \<times> world" where
  "Instances_IsPortInUse port w =
     (case sql_query (\<lambda>w. find (\<lambda>i. inst_Port i = port) (rdbms_instances w)) w of
        (Inl e, w1) \<Rightarrow> (Inl (wrap ''check port usage'' e), w1)
      | (Inr None, w1) \<Rightarrow> (Inr (False, ''''), w1)
      | (Inr (Some i), w1) \<Rightarrow> (Inr (True, inst_Name i), w1))"

definition Instances_IsNameInUse :: "string \<Rightarrow> world \<Rightarrow> bool res \<times> world" where
  "Instances_IsNameInUse name w =
     (case sql_query (\<lambda>w. count_where (\<lambda>i. inst_Name i = name) (rdbms_instances w)) w of
        (Inl e, w1) \<Rightarrow> (Inl (wrap ''check name usage'' e), w1)
      | (Inr n, w1) \<Rightarrow> (Inr (n > 0), w1))"

text \<open>\<open>GetDecryptedPassword\<close>; \<open>DecryptPassword\<close> is \<open>crypto.DecryptPassword\<close> under the master key.\<close>

definition Instances_GetDecryptedPassword ::
  "(string \<Rightarrow> string res) \<Rightarrow> string \<Rightarrow> world \<Rightarrow> string res \<times> world" where
  "Instances_GetDecryptedPassword DecryptPassword name w =
     (case Instances_Get name w of
        (Inl e, w1) \<Rightarrow> (Inl e, w1)
      | (Inr i, w1) \<Rightarrow>
          (case DecryptPassword (inst_Password i) of
             Inl e \<Rightarrow> (Inl (wrap ''decrypt password'' e), w1)
           | Inr p \<Rightarrow> (Inr p, w1)))"

section \<open>The classification\<close>

lemma AllStatuses_Valid: "s \<in> set AllStatuses \<longleftrightarrow> Valid s"
  by (auto simp: AllStatuses_def Valid_def IsInterrupted_def interruptedRemedies_def
      IsDerived_def derivedStatuses_def)

text \<open>
  C3. Every value the database accepts is classified once: a status passes \<open>Valid\<close> exactly
  when the column's CHECK lists it, and it is then in exactly one of the three classes that
  start-up reconciliation distinguishes (interrupted, \<open>error\<close>, derived).
\<close>

theorem status_classified_once:
  "(s \<in> set AllStatuses \<longleftrightarrow> Valid s)
   \<and> \<not> (IsInterrupted s \<noteq> None \<and> s = StatusError)
   \<and> \<not> (IsInterrupted s \<noteq> None \<and> IsDerived s) \<and> \<not> (s = StatusError \<and> IsDerived s)
   \<and> distinct AllStatuses"
  by (auto simp: AllStatuses_def Valid_def IsInterrupted_def interruptedRemedies_def
      IsDerived_def derivedStatuses_def)

section \<open>The table invariant\<close>

text \<open>
  What the constraints of the table promise its readers: names and ids are unique, ids were
  handed out by the sequence, and each status is one the program understands.
\<close>

definition instances_ok :: "world \<Rightarrow> bool" where
  "instances_ok w \<longleftrightarrow>
     distinct (map inst_Name (rdbms_instances w))
     \<and> distinct (map inst_ID (rdbms_instances w))
     \<and> (\<forall>i \<in> set (rdbms_instances w). inst_ID i \<le> instances_seq w \<and> Valid (inst_Status i))"

interpretation inst: table_invariant instances_ok
  by unfold_locales (simp add: instances_ok_def same_but_io_fields)

lemma update_stmt_ok:
  assumes "instances_ok w" "update_stmt name f w = Inr (w', n)"
    and "\<And>i. inst_Name (f i) = inst_Name i" "\<And>i. inst_ID (f i) = inst_ID i"
  shows "instances_ok w'"
  using assms
  by (auto simp: instances_ok_def update_stmt_def Let_def map_upd_where in_upd_where
      AllStatuses_Valid split: if_splits)

lemma update_instance_ok:
  assumes "instances_ok w" "update_instance m name f w = (r, w')"
    and "\<And>i. inst_Name (f i) = inst_Name i" "\<And>i. inst_ID (f i) = inst_ID i"
  shows "instances_ok w'"
proof -
  obtain r1 where "sql_exec (update_stmt name f) w = (r1, w')"
    using assms(2) by (auto simp: update_instance_def split: prod.splits sum.splits if_splits)
  then show ?thesis
    using assms(1) by (rule inst.exec_keeps) (rule update_stmt_ok[OF _ _ assms(3,4)])
qed

lemma insert_stmt_ok:
  assumes "instances_ok w" "insert_stmt i w = Inr (w', n)"
  shows "instances_ok w'"
  using assms
  by (force simp: instances_ok_def insert_stmt_def Let_def AllStatuses_Valid split: if_splits)

lemma insert_exec_ok:
  "sql_exec (insert_stmt i) w = (r, w') \<Longrightarrow> instances_ok w \<Longrightarrow> instances_ok w'"
  by (erule (1) inst.exec_keeps) (rule insert_stmt_ok)

lemma Instances_Get_same: "Instances_Get n w = (r, w') \<Longrightarrow> same_but_io w w'"
  by (auto simp: Instances_Get_def intro: sql_query_same
      split: prod.splits sum.splits option.splits)

lemma Instances_List_same: "Instances_List w = (r, w') \<Longrightarrow> same_but_io w w'"
  by (auto simp: Instances_List_def intro: sql_query_same split: prod.splits sum.splits)

lemma Instances_Create_ok:
  assumes "instances_ok w" "Instances_Create t n p v pw c cpu ram pg im w = (r, w')"
  shows "instances_ok w'"
  using assms unfolding Instances_Create_def
  by (auto dest!: insert_exec_ok Instances_Get_same
      intro: inst.io_stable split: prod.splits sum.splits)

lemma Instances_BackdateCreatedAt_ok:
  assumes "instances_ok w" "Instances_BackdateCreatedAt n t w = (r, w')"
  shows "instances_ok w'"
proof -
  obtain r1 where "sql_exec (update_stmt n (\<lambda>i. i\<lparr>inst_CreatedAt := t\<rparr>)) w = (r1, w')"
    using assms(2) by (auto simp: Instances_BackdateCreatedAt_def split: prod.splits sum.splits)
  then show ?thesis
    using assms(1) by (rule inst.exec_keeps) (erule (1) update_stmt_ok; simp)
qed

lemma Instances_Delete_ok:
  assumes "instances_ok w" "Instances_Delete n w = (r, w')"
  shows "instances_ok w'"
proof -
  obtain r1 where "sql_exec (\<lambda>w. Inr (w\<lparr>rdbms_instances :=
      del_where (\<lambda>i. inst_Name i = n) (rdbms_instances w)\<rparr>, 0)) w = (r1, w')"
    using assms(2) by (auto simp: Instances_Delete_def split: prod.splits sum.splits)
  then show ?thesis
    using assms(1) by (rule inst.exec_keeps) (auto simp: instances_ok_def distinct_del_where)
qed

lemmas instance_updates_def =
  Instances_UpdateStatus_def Instances_UpdateContainerID_def Instances_UpdatePassword_def
  Instances_UpdateImage_def Instances_UpdateParameterGroup_def Instances_UpdateResources_def

section \<open>The catalogue as a map\<close>

text \<open>
  What the store promises its callers: a map from names to rows. \<open>call_spec\<close> says of each
  writing call what it makes of the map, or that it is refused; it knows nothing of tables,
  statements or affected rows.
\<close>

datatype catalogue_call =
    CreateCall gotime string int string string string int int string string
  | BackdateCall string gotime
  | StatusCall gotime string string
  | ContainerCall gotime string string
  | PasswordCall gotime string string
  | ImageCall gotime string string string
  | GroupCall gotime string string
  | ResourcesCall gotime string int int int
  | DeleteCall string

fun run_call :: "catalogue_call \<Rightarrow> world \<Rightarrow> goerror option \<times> world" where
  "run_call (CreateCall t n p v pw c cpu ram pg im) w =
     (case Instances_Create t n p v pw c cpu ram pg im w of (Inl e, w1) \<Rightarrow> (Some e, w1) | (Inr _, w1) \<Rightarrow> (None, w1))"
| "run_call (BackdateCall n t) w = Instances_BackdateCreatedAt n t w"
| "run_call (StatusCall t n st) w = Instances_UpdateStatus t n st w"
| "run_call (ContainerCall t n c) w = Instances_UpdateContainerID t n c w"
| "run_call (PasswordCall t n pw) w = Instances_UpdatePassword t n pw w"
| "run_call (ImageCall t n im v) w = Instances_UpdateImage t n im v w"
| "run_call (GroupCall t n pg) w = Instances_UpdateParameterGroup t n pg w"
| "run_call (ResourcesCall t n p cpu ram) w = Instances_UpdateResources t n p cpu ram w"
| "run_call (DeleteCall n) w = Instances_Delete n w"

definition rows_by_name :: "world \<Rightarrow> string \<rightharpoonup> RDBMSInstance" where
  "rows_by_name w n = find (\<lambda>i. inst_Name i = n) (rdbms_instances w)"

definition map_change :: "string \<Rightarrow> (RDBMSInstance \<Rightarrow> RDBMSInstance) \<Rightarrow> (string \<rightharpoonup> RDBMSInstance) \<Rightarrow> (string \<rightharpoonup> RDBMSInstance) option" where
  "map_change n f m = (case m n of None \<Rightarrow> None | Some i \<Rightarrow> Some (m(n \<mapsto> f i)))"

fun call_spec :: "int \<Rightarrow> catalogue_call \<Rightarrow> (string \<rightharpoonup> RDBMSInstance) \<Rightarrow> (string \<rightharpoonup> RDBMSInstance) option" where
  "call_spec s (CreateCall t n p v pw c cpu ram pg im) m =
     (if n \<in> dom m then None
      else Some (m(n \<mapsto> \<lparr>inst_ID = s + 1, inst_Name = n, inst_Port = p, inst_Version = v, inst_Status = ''creating'',
              inst_ContainerID = c, inst_Password = pw, inst_CPUCores = cpu, inst_RAMMB = ram,
              inst_ParameterGroup = pg, inst_Image = im, inst_CreatedAt = t, inst_UpdatedAt = t\<rparr>)))"
| "call_spec s (BackdateCall n t) m = Some (\<lambda>k. if k = n then map_option (\<lambda>i. i\<lparr>inst_CreatedAt := t\<rparr>) (m k) else m k)"
| "call_spec s (StatusCall t n st) m =
     (if Valid st then map_change n (\<lambda>i. i\<lparr>inst_Status := st, inst_UpdatedAt := t\<rparr>) m else None)"
| "call_spec s (ContainerCall t n c) m = map_change n (\<lambda>i. i\<lparr>inst_ContainerID := c, inst_UpdatedAt := t\<rparr>) m"
| "call_spec s (PasswordCall t n pw) m = map_change n (\<lambda>i. i\<lparr>inst_Password := pw, inst_UpdatedAt := t\<rparr>) m"
| "call_spec s (ImageCall t n im v) m = map_change n (\<lambda>i. i\<lparr>inst_Image := im, inst_Version := v, inst_UpdatedAt := t\<rparr>) m"
| "call_spec s (GroupCall t n pg) m = map_change n (\<lambda>i. i\<lparr>inst_ParameterGroup := pg, inst_UpdatedAt := t\<rparr>) m"
| "call_spec s (ResourcesCall t n p cpu ram) m =
     map_change n (\<lambda>i. i\<lparr>inst_Port := p, inst_CPUCores := cpu, inst_RAMMB := ram, inst_UpdatedAt := t\<rparr>) m"
| "call_spec s (DeleteCall n) m = Some (m(n := None))"

text \<open>What a call may do: success is its specified effect, an error that effect or none.\<close>

definition meets_spec :: "(string \<rightharpoonup> RDBMSInstance) option \<Rightarrow> world \<Rightarrow> goerror option \<Rightarrow> world \<Rightarrow> bool" where
  "meets_spec spec w r w' \<longleftrightarrow>
     (case r of None \<Rightarrow> spec = Some (rows_by_name w') | Some e \<Rightarrow> rows_by_name w' = rows_by_name w \<or> spec = Some (rows_by_name w'))"

lemma by_name_io: "same_but_io w w' \<Longrightarrow> rows_by_name w' = rows_by_name w"
  by (simp add: rows_by_name_def fun_eq_iff same_but_io_fields)

lemma by_name_update: "(\<And>i. inst_Name (f i) = inst_Name i) \<Longrightarrow>
    rows_by_name (w\<lparr>rdbms_instances := upd_where (\<lambda>i. inst_Name i = n) f (rdbms_instances w)\<rparr>)
      = (\<lambda>k. if k = n then map_option f (rows_by_name w k) else rows_by_name w k)"
  by (simp add: rows_by_name_def fun_eq_iff find_upd_key)

definition row_written :: "string \<Rightarrow> (RDBMSInstance \<Rightarrow> RDBMSInstance) \<Rightarrow> world \<Rightarrow> world \<Rightarrow> bool" where
  "row_written n f w w' \<longleftrightarrow> (\<exists>i. rows_by_name w n = Some i \<and> inst_Status (f i) \<in> set AllStatuses \<and> rows_by_name w' = (rows_by_name w)(n \<mapsto> f i))"

lemma update_instance_effect:
  assumes "update_instance msg n f w = (r, w')" "\<And>i. inst_Name (f i) = inst_Name i"
  shows "row_written n f w w' \<or> r \<noteq> None \<and> rows_by_name w' = rows_by_name w"
proof -
  obtain r1 where x: "sql_exec (update_stmt n f) w = (r1, w')"
    using assms(1) by (auto simp: update_instance_def split: prod.splits sum.splits if_splits)
  then show ?thesis
  proof (cases rule: sql_exec_cases)
    case none
    then show ?thesis using assms(1) x by (auto simp: update_instance_def by_name_io)
  next
    case (applied w1 k)
    note io = by_name_io[OF applied(1)]
    have st: "\<forall>i \<in> set (rdbms_instances w1). inst_Name i = n \<longrightarrow> inst_Status (f i) \<in> set AllStatuses"
      and w': "w' = w1\<lparr>rdbms_instances := upd_where (\<lambda>i. inst_Name i = n) f (rdbms_instances w1)\<rparr>"
      and k: "k = count_where (\<lambda>i. inst_Name i = n) (rdbms_instances w1)"
      using applied(2) by (auto simp: update_stmt_def Let_def split: if_splits)
    have eff: "rows_by_name w' = (\<lambda>j. if j = n then map_option f (rows_by_name w j) else rows_by_name w j)"
      unfolding w' io[symmetric] by (rule by_name_update) (rule assms(2))
    show ?thesis
    proof (cases "rows_by_name w n")
      case None
      then have "find (\<lambda>i. inst_Name i = n) (rdbms_instances w1) = None" unfolding io[symmetric] by (simp only: rows_by_name_def)
      then have "k = 0" using k by (simp add: count_where_zero)
      then have "r \<noteq> None" using assms(1) x applied(3) by (auto simp: update_instance_def)
      then show ?thesis using eff None by (auto simp: fun_eq_iff)
    next
      case (Some i)
      then have "inst_Status (f i) \<in> set AllStatuses"
        using st same_but_io_fields(1)[OF applied(1)] by (auto simp: rows_by_name_def dest!: find_Some_in)
      then show ?thesis using Some eff by (auto simp: row_written_def fun_eq_iff)
    qed
  qed
qed

lemma update_meets:
  assumes "update_instance msg n f w = (r, w')" "\<And>i. inst_Name (f i) = inst_Name i"
    and "\<And>i. inst_Status (f i) \<in> set AllStatuses \<Longrightarrow> spec = map_change n f (rows_by_name w)"
  shows "meets_spec spec w r w'"
  using update_instance_effect[OF assms(1,2)] assms(3)
  by (auto simp: row_written_def meets_spec_def map_change_def split: option.splits)

lemma Instances_Create_meets:
  assumes "run_call (CreateCall t n p v pw c cpu ram pg im) w = (r, w')"
  shows "meets_spec (call_spec (instances_seq w) (CreateCall t n p v pw c cpu ram pg im) (rows_by_name w)) w r w'"
proof -
  let ?row = "\<lparr>inst_ID = 0, inst_Name = n, inst_Port = p, inst_Version = v, inst_Status = StatusCreating,
      inst_ContainerID = c, inst_Password = pw, inst_CPUCores = cpu, inst_RAMMB = ram,
      inst_ParameterGroup = pg, inst_Image = im, inst_CreatedAt = t, inst_UpdatedAt = t\<rparr>"
  obtain x v1 where x: "sql_exec (insert_stmt ?row) w = (x, v1)" by fastforce
  have v1: "same_but_io v1 w'"
    using assms x by (auto simp: Instances_Create_def dest: Instances_Get_same split: prod.splits sum.splits)
  have r: "r \<noteq> None" if "isl x" using assms x that by (cases x) (auto simp: Instances_Create_def)
  show ?thesis
    using x
  proof (cases rule: sql_exec_cases)
    case none
    then show ?thesis using r v1 by (auto simp: meets_spec_def by_name_io)
  next
    case (applied w1 k)
    have app: "find P (xs @ [y]) = (case find P xs of None \<Rightarrow> if P y then Some y else None | Some z \<Rightarrow> Some z)"
      for P xs and y :: RDBMSInstance by (induction xs) auto
    have new: "n \<notin> inst_Name ` set (rdbms_instances w1)"
      "rdbms_instances v1 = rdbms_instances w1 @ [?row\<lparr>inst_ID := instances_seq w1 + 1\<rparr>]"
      using applied(2) by (auto simp: insert_stmt_def Let_def split: if_splits)
    have none: "find (\<lambda>i. inst_Name i = n) (rdbms_instances w1) = None" using new(1) by (auto simp: find_None_iff)
    have ext: "rows_by_name v1 = (rows_by_name w1)(n \<mapsto> ?row\<lparr>inst_ID := instances_seq w1 + 1\<rparr>)"
      using none unfolding rows_by_name_def fun_eq_iff new(2) app by (auto split: option.splits)
    have fresh: "n \<notin> dom (rows_by_name w)"
      using new(1) same_but_io_fields(1)[OF applied(1)] by (auto simp: rows_by_name_def dom_def find_None_iff)
    have "call_spec (instances_seq w) (CreateCall t n p v pw c cpu ram pg im) (rows_by_name w) = Some (rows_by_name w')"
      using fresh ext by_name_io[OF applied(1)] by_name_io[OF v1] same_but_io_fields(2)[OF applied(1)]
      by simp
    then show ?thesis by (auto simp: meets_spec_def split: option.splits)
  qed
qed

lemma Instances_Delete_meets:
  assumes "Instances_Delete n w = (r, w')"
  shows "meets_spec (Some ((rows_by_name w)(n := None))) w r w'"
proof -
  obtain x where x: "sql_exec (\<lambda>w. Inr (w\<lparr>rdbms_instances := del_where (\<lambda>i. inst_Name i = n) (rdbms_instances w)\<rparr>, 0)) w = (x, w')"
    "r \<noteq> None \<longleftrightarrow> isl x"
    using assms by (auto simp: Instances_Delete_def split: prod.splits sum.splits)
  from x(1) show ?thesis
  proof (cases rule: sql_exec_cases)
    case none
    then show ?thesis using x(2) by (auto simp: meets_spec_def by_name_io)
  next
    case (applied w1 k)
    then have "rows_by_name w' = (rows_by_name w1)(n := None)"
      by (auto simp: rows_by_name_def fun_eq_iff find_del_key)
    then show ?thesis using by_name_io[OF applied(1)] by (auto simp: meets_spec_def split: option.splits)
  qed
qed

lemma Instances_Backdate_meets:
  assumes "Instances_BackdateCreatedAt n t w = (r, w')"
  shows "meets_spec (call_spec s (BackdateCall n t) (rows_by_name w)) w r w'"
proof -
  let ?f = "\<lambda>i. i\<lparr>inst_CreatedAt := t\<rparr>"
  obtain x where x: "sql_exec (update_stmt n ?f) w = (x, w')" "r \<noteq> None \<longleftrightarrow> isl x"
    using assms by (auto simp: Instances_BackdateCreatedAt_def split: prod.splits sum.splits)
  from x(1) show ?thesis
  proof (cases rule: sql_exec_cases)
    case none
    then show ?thesis using x(2) by (auto simp: meets_spec_def by_name_io)
  next
    case (applied w1 k)
    then have w': "w' = w1\<lparr>rdbms_instances := upd_where (\<lambda>i. inst_Name i = n) ?f (rdbms_instances w1)\<rparr>"
      by (auto simp: update_stmt_def Let_def split: if_splits)
    have "rows_by_name w' = (\<lambda>j. if j = n then map_option ?f (rows_by_name w1 j) else rows_by_name w1 j)"
      unfolding w' by (rule by_name_update) simp
    then show ?thesis using by_name_io[OF applied(1)] by (auto simp: meets_spec_def split: option.splits)
  qed
qed

lemma run_call_update:
  assumes "run_call c w = (r, w')"
  obtains (other) "\<exists>t n p v pw cid cpu ram pg im. c = CreateCall t n p v pw cid cpu ram pg im"
    | (backdate) n t where "c = BackdateCall n t"
    | (delete) n where "c = DeleteCall n"
    | (update) msg n f where "update_instance msg n f w = (r, w')"
      "\<And>i. inst_Name (f i) = inst_Name i" "\<And>i. inst_ID (f i) = inst_ID i"
      "\<And>s m i. inst_Status (f i) \<in> set AllStatuses \<Longrightarrow> call_spec s c m = map_change n f m"
proof (cases c)
  case (StatusCall t n st)
  then show ?thesis using update[of _ n "\<lambda>i. i\<lparr>inst_Status := st, inst_UpdatedAt := t\<rparr>"] assms
    by (simp add: instance_updates_def AllStatuses_Valid)
next
  case (ContainerCall t n cid)
  then show ?thesis using update[of _ n "\<lambda>i. i\<lparr>inst_ContainerID := cid, inst_UpdatedAt := t\<rparr>"] assms
    by (simp add: instance_updates_def)
next
  case (PasswordCall t n pw)
  then show ?thesis using update[of _ n "\<lambda>i. i\<lparr>inst_Password := pw, inst_UpdatedAt := t\<rparr>"] assms
    by (simp add: instance_updates_def)
next
  case (ImageCall t n im v)
  then show ?thesis using update[of _ n "\<lambda>i. i\<lparr>inst_Image := im, inst_Version := v, inst_UpdatedAt := t\<rparr>"] assms
    by (simp add: instance_updates_def)
next
  case (GroupCall t n pg)
  then show ?thesis using update[of _ n "\<lambda>i. i\<lparr>inst_ParameterGroup := pg, inst_UpdatedAt := t\<rparr>"] assms
    by (simp add: instance_updates_def)
next
  case (ResourcesCall t n p cpu ram)
  then show ?thesis
    using update[of _ n "\<lambda>i. i\<lparr>inst_Port := p, inst_CPUCores := cpu, inst_RAMMB := ram, inst_UpdatedAt := t\<rparr>"] assms
    by (simp add: instance_updates_def)
qed (use other backdate delete in blast)+

lemma run_call_ok:
  assumes "instances_ok w" "run_call c w = (r, w')"
  shows "instances_ok w'"
  using assms(2)
proof (cases rule: run_call_update)
  case other
  then show ?thesis using assms by (auto split: prod.splits sum.splits intro: Instances_Create_ok)
next
  case backdate
  then show ?thesis using assms by (auto intro: Instances_BackdateCreatedAt_ok)
next
  case delete
  then show ?thesis using assms by (auto intro: Instances_Delete_ok)
next
  case update
  then show ?thesis using update_instance_ok[OF assms(1)] by blast
qed

text \<open>
  C4. The instance store is a map from names to rows, under every pattern of database failures:
  a call that reports success has exactly its specified effect (create adds the one row under a
  fresh id in status \<open>creating\<close>, an update changes its columns of the named row, delete removes
  the named row), a call that reports an error has had that effect or none, no call touches
  another row, reads return the row of the map, and the uniqueness of names and ids and the
  known statuses are kept.
\<close>

theorem catalogue_refines_map:
  assumes "run_call c w = (r, w')"
  shows "(case r of
            None \<Rightarrow> call_spec (instances_seq w) c (rows_by_name w) = Some (rows_by_name w')
          | Some e \<Rightarrow> rows_by_name w' = rows_by_name w \<or> call_spec (instances_seq w) c (rows_by_name w) = Some (rows_by_name w'))
       \<and> (case Instances_Get n w' of (Inr i, w'') \<Rightarrow> rows_by_name w' n = Some i \<and> rows_by_name w'' = rows_by_name w' | (Inl e, w'') \<Rightarrow> rows_by_name w'' = rows_by_name w')
       \<and> (instances_ok w \<longrightarrow> instances_ok w')"
proof -
  have "meets_spec (call_spec (instances_seq w) c (rows_by_name w)) w r w'"
    using assms
  proof (cases rule: run_call_update)
    case other
    then show ?thesis using Instances_Create_meets assms by blast
  next
    case backdate
    then show ?thesis using Instances_Backdate_meets assms by simp
  next
    case delete
    then show ?thesis using Instances_Delete_meets assms by simp
  next
    case update
    then show ?thesis by (blast intro: update_meets)
  qed
  moreover have "case Instances_Get n w' of (Inr i, w'') \<Rightarrow> rows_by_name w' n = Some i \<and> rows_by_name w'' = rows_by_name w'
      | (Inl e, w'') \<Rightarrow> rows_by_name w'' = rows_by_name w'"
    by (auto simp: Instances_Get_def sql_query_def rows_by_name_def fun_eq_iff next_io_def split: prod.splits sum.splits option.splits list.splits if_splits)
  ultimately show ?thesis using run_call_ok[OF _ assms] by (simp add: meets_spec_def)
qed

definition demo_call :: catalogue_call where
  "demo_call = CreateCall 5 ''db1'' 5432 ''17'' ''pw'' ''c1'' 1 1024 ''g'' ''img''"

theorem catalogue_refines_map_witness:
  "\<exists>w'. run_call demo_call empty_world = (None, w')
     \<and> call_spec 0 demo_call (rows_by_name empty_world) = Some (rows_by_name w') \<and> instances_ok w'"
proof -
  obtain w' where run: "run_call demo_call empty_world = (None, w')"
    by (simp add: demo_call_def Instances_Create_def insert_stmt_def empty_world_def calm_primitives Instances_Get_def AllStatuses_def)
  have "instances_ok empty_world" by (simp add: instances_ok_def empty_world_def)
  then show ?thesis using catalogue_refines_map[OF run] run by (auto simp: empty_world_def)
qed

text \<open>
  With the database answering, \<open>Create\<close> of a new name returns the stored row, in status
  \<open>creating\<close> with a fresh id, and a later \<open>Get\<close> finds the same row; \<open>Create\<close> of a name in
  use fails and changes nothing.
\<close>

theorem Create_then_Get:
  assumes "io_schedule w = []" "instances_ok w"
  shows "case Instances_Create t n p v pw c cpu ram pg im w of
      (Inr i, w') \<Rightarrow> n \<notin> inst_Name ` set (rdbms_instances w) \<and> inst_Name i = n
        \<and> inst_Status i = StatusCreating \<and> inst_ID i \<notin> inst_ID ` set (rdbms_instances w)
        \<and> Instances_Get n w' = (Inr i, w')
    | (Inl e, w') \<Rightarrow> n \<in> inst_Name ` set (rdbms_instances w) \<and> w' = w"
proof (cases "n \<in> inst_Name ` set (rdbms_instances w)")
  case True
  then show ?thesis
    using assms(1) by (simp add: Instances_Create_def calm_primitives insert_stmt_def)
next
  case False
  have none: "find (\<lambda>i. inst_Name i = n) (rdbms_instances w) = None"
    using False by (auto simp: find_None_iff)
  have fresh: "instances_seq w + 1 \<notin> inst_ID ` set (rdbms_instances w)"
    using assms(2) by (force simp: instances_ok_def)
  have find_app: "find P (xs @ [x]) = (if P x then Some x else None)"
    if "find P xs = None" for P xs and x :: RDBMSInstance
    using that by (induction xs) (auto split: if_splits)
  show ?thesis
    using assms(1) False fresh none
    by (simp add: Instances_Create_def calm_primitives insert_stmt_def AllStatuses_def Let_def
        Instances_Get_def find_app)
qed

theorem Create_then_Get_witness:
  "case Instances_Create 5 ''db1'' 5432 ''17'' ''pw'' ''c1'' 1 1024 ''g'' ''img'' empty_world of
      (Inr i, w') \<Rightarrow> ''db1'' \<notin> inst_Name ` set (rdbms_instances empty_world) \<and> inst_Name i = ''db1''
        \<and> inst_Status i = StatusCreating \<and> inst_ID i \<notin> inst_ID ` set (rdbms_instances empty_world)
        \<and> Instances_Get ''db1'' w' = (Inr i, w')
    | (Inl e, w') \<Rightarrow> ''db1'' \<in> inst_Name ` set (rdbms_instances empty_world) \<and> w' = empty_world"
  by (rule Create_then_Get) (simp_all add: empty_world_def instances_ok_def)

end
