(* ===== verification/Paths.thy ===== *)
theory Paths
  imports World
begin

text \<open>
  \<open>path/filepath\<close> on Unix, as far as the stores use it: \<open>Clean\<close>, \<open>Join\<close>, \<open>Base\<close> and
  \<open>IsAbs\<close>. A path is split at its slashes; \<open>Clean\<close> is the fold that Go's documentation
  describes (drop empty and \<open>.\<close> elements, let \<open>..\<close> remove its predecessor, keep a
  leading \<open>..\<close> of a relative path, drop it on a rooted one).
\<close>

definition IsAbs :: "string \<Rightarrow> bool" where
  "IsAbs p = HasPrefix p ''/''"

text \<open>The cleaned elements so far, last one first.\<close>

definition clean_step :: "bool \<Rightarrow> string \<Rightarrow> string list \<Rightarrow> string list" where
  "clean_step rooted e acc =
     (if e = '''' \<or> e = ''.'' then acc
      else if e = ''..'' then
        (case acc of
           [] \<Rightarrow> if rooted then [] else [''..'']
         | x # xs \<Rightarrow> if x = ''..'' then ''..'' # acc else xs)
      else e # acc)"

definition Clean :: "string \<Rightarrow> string" where
  "Clean p =
     (if p = '''' then ''.''
      else let rooted = IsAbs p;
               es = rev (fold (clean_step rooted) (SplitChar (CHR ''/'') p) []);
               q = JoinWith ''/'' es
           in if rooted then CHR ''/'' # q else if q = '''' then ''.'' else q)"

text \<open>\<open>Join\<close> of two elements ignores an empty one.\<close>

definition Join2 :: "string \<Rightarrow> string \<Rightarrow> string" where
  "Join2 a b =
     (if a = '''' then (if b = '''' then '''' else Clean b)
      else if b = '''' then Clean a
      else Clean (a @ ''/'' @ b))"

definition Base :: "string \<Rightarrow> string" where
  "Base p =
     (if p = '''' then ''.''
      else let q = rev (dropWhile (\<lambda>c. c = CHR ''/'') (rev p))
           in if q = '''' then ''/''
              else rev (takeWhile (\<lambda>c. c \<noteq> CHR ''/'') (rev q)))"

text \<open>A file name that is one path element.\<close>

definition plain_name :: "string \<Rightarrow> bool" where
  "plain_name n \<longleftrightarrow> n \<notin> {'''', ''.'', ''..''} \<and> CHR ''/'' \<notin> set n"

lemma Base_plain: "plain_name n \<Longrightarrow> Base (d @ CHR ''/'' # n) = n"
proof -
  assume p: "plain_name n"
  have ns: "\<forall>c \<in> set (rev n). c \<noteq> CHR ''/''" and ne: "rev n \<noteq> []"
    using p by (auto simp: plain_name_def)
  have 1: "dropWhile (\<lambda>c. c = CHR ''/'') (rev n @ CHR ''/'' # rev d) = rev n @ CHR ''/'' # rev d"
    using ns ne by (cases "rev n") auto
  have 2: "takeWhile (\<lambda>c. c \<noteq> CHR ''/'') (rev n @ CHR ''/'' # rev d) = rev n"
    using ns by (simp add: takeWhile_append)
  show ?thesis using 1 2 by (simp add: Base_def Let_def)
qed

section \<open>A name below a directory\<close>

lemma Base_plain_alone: "plain_name n \<Longrightarrow> Base n = n"
proof -
  assume p: "plain_name n"
  have ns: "\<forall>c \<in> set (rev n). c \<noteq> CHR ''/''" and ne: "rev n \<noteq> []" using p by (auto simp: plain_name_def)
  have 1: "dropWhile (\<lambda>c. c = CHR ''/'') (rev n) = rev n" using ns ne by (cases "rev n") auto
  have 2: "takeWhile (\<lambda>c. c \<noteq> CHR ''/'') (rev n) = rev n" using ns by (auto simp only: takeWhile_eq_all_conv)
  show "Base n = n" using ne unfolding Base_def Let_def by (simp only: 1 2 rev_rev_ident if_False rev_is_Nil_conv not_False_eq_True)
qed

lemma JoinWith_snoc: "JoinWith s (xs @ [x]) = (if xs = [] then x else JoinWith s xs @ s @ x)"
  by (induction s xs rule: JoinWith.induct) auto

lemma SplitChar_at: "SplitChar c (d @ c # n) = SplitChar c d @ SplitChar c n"
  by (induction d) (auto split: list.splits)

lemma Clean_plain_last:
  assumes "plain_name n"
  shows "\<exists>pre. Clean (d @ ''/'' @ n) = pre @ n \<and> (pre = '''' \<or> (\<exists>q. pre = q @ ''/''))"
proof -
  let ?p = "d @ ''/'' @ n" let ?r = "IsAbs ?p"
  have n: "CHR ''/'' \<notin> set n" "n \<noteq> ''''" "n \<noteq> ''.''" "n \<noteq> ''..''" using assms by (auto simp: plain_name_def)
  have sp: "SplitChar (CHR ''/'') ?p = SplitChar (CHR ''/'') d @ [n]"
    using SplitChar_at[of "CHR ''/''" d n] SplitChar_no_sep[OF n(1)] by simp
  define es where "es = rev (fold (clean_step ?r) (SplitChar (CHR ''/'') d) [])"
  have es: "rev (fold (clean_step ?r) (SplitChar (CHR ''/'') ?p) []) = es @ [n]"
    unfolding sp using n(2-4) by (simp add: es_def clean_step_def)
  have c: "Clean ?p = (if ?r then CHR ''/'' # JoinWith ''/'' (es @ [n]) else JoinWith ''/'' (es @ [n]))"
  proof -
    have "?p \<noteq> ''''" "JoinWith ''/'' (es @ [n]) \<noteq> ''''" using n(2) by (simp_all add: JoinWith_snoc)
    then show ?thesis unfolding Clean_def Let_def es by (simp only: if_False simp_thms split: if_splits)
  qed
  show ?thesis
    by (rule exI[of _ "(if ?r then ''/'' else '''') @ (if es = [] then '''' else JoinWith ''/'' es @ ''/'')"])
      (use c in \<open>auto simp: JoinWith_snoc\<close>)
qed

lemma Base_Join2: "plain_name n \<Longrightarrow> Base (Join2 d n) = n"
proof -
  assume p: "plain_name n"
  then have ne: "n \<noteq> ''''" by (auto simp: plain_name_def)
  show ?thesis
  proof (cases "d = ''''")
    case True
    have "SplitChar (CHR ''/'') n = [n]" using p by (simp add: plain_name_def SplitChar_no_sep)
    moreover have "\<not> IsAbs n" using p by (cases n) (auto simp: plain_name_def IsAbs_def HasPrefix_def)
    ultimately have "Clean n = n" using p by (simp add: Clean_def Let_def plain_name_def clean_step_def)
    then show ?thesis using True ne Base_plain_alone[OF p] by (simp add: Join2_def)
  next
    case False
    obtain pre where pre: "Clean (d @ ''/'' @ n) = pre @ n" "pre = '''' \<or> (\<exists>q. pre = q @ ''/'')"
      using Clean_plain_last[OF p] by blast
    then have "Base (Clean (d @ ''/'' @ n)) = n" using Base_plain[OF p] Base_plain_alone[OF p] by auto
    then show ?thesis using False ne by (simp add: Join2_def)
  qed
qed

end
