(* ===== verification/Catalogue.thy ===== *)
theory Catalogue
  imports Operr Paths
begin

text \<open>
  What the snapshot and the backup catalogue have in common. A row has an id, a local and a
  remote location; \<open>ReconcileLocalLocations\<close> (the same loop in \<open>snapshot.go\<close> and
  \<open>backup.go\<close>, over different tables) re-points or clears local locations against the
  files of this host. The loop is written once over the row type and the two statements it
  executes; the locale states what a store promises about those statements, and its lemma
  gives the loop's effect. Each store interprets it.
\<close>

section \<open>The loop\<close>

definition blank :: "string option \<Rightarrow> bool" where
  "blank s \<longleftrightarrow> s = None \<or> s = Some ''''"

text \<open>The counters \<open>repointed\<close>, \<open>cleared\<close>, \<open>danglingAfter\<close>.\<close>

type_synonym reconcile_counts = "int \<times> int \<times> int"

fun reconcile_rows ::
  "('r \<Rightarrow> string option) \<Rightarrow> ('r \<Rightarrow> string option)
     \<Rightarrow> (string \<Rightarrow> 'r \<Rightarrow> world \<Rightarrow> goerror option \<times> world)
     \<Rightarrow> ('r \<Rightarrow> world \<Rightarrow> goerror option \<times> world)
     \<Rightarrow> string \<Rightarrow> 'r list \<Rightarrow> reconcile_counts \<Rightarrow> world
     \<Rightarrow> (reconcile_counts \<times> goerror option) \<times> world" where
  "reconcile_rows loc rem repoint clear backupDir [] n w = ((n, None), w)"
| "reconcile_rows loc rem repoint clear backupDir (r # rs) (rp, cl, dg) w =
     (if blank (loc r) then
        reconcile_rows loc rem repoint clear backupDir rs
          (rp, cl, if blank (rem r) then dg + 1 else dg) w
      else
        let candidate = Join2 backupDir (Base (the (loc r))) in
        (case os_Stat candidate w of
           (StatOK _, w1) \<Rightarrow>
             if candidate \<noteq> the (loc r) then
               (case repoint candidate r w1 of
                  (Some e, w2) \<Rightarrow> (((rp, cl, dg), Some e), w2)
                | (None, w2) \<Rightarrow> reconcile_rows loc rem repoint clear backupDir rs (rp + 1, cl, dg) w2)
             else reconcile_rows loc rem repoint clear backupDir rs (rp, cl, dg) w1
         | (_, w1) \<Rightarrow>
             if blank (rem r)
             then reconcile_rows loc rem repoint clear backupDir rs (rp, cl, dg + 1) w1
             else (case clear r w1 of
                     (Some e, w2) \<Rightarrow> (((rp, cl, dg), Some e), w2)
                   | (None, w2) \<Rightarrow> reconcile_rows loc rem repoint clear backupDir rs (rp, cl + 1, dg) w2)))"

section \<open>The contract of the store\<close>

text \<open>What becomes of one row, and which counter it moves, on a host with the given files.\<close>

definition located ::
  "('r \<Rightarrow> string option) \<Rightarrow> ('r \<Rightarrow> string option) \<Rightarrow> (string \<Rightarrow> 'r \<Rightarrow> 'r) \<Rightarrow> ('r \<Rightarrow> 'r)
     \<Rightarrow> string \<Rightarrow> (string \<Rightarrow> int option) \<Rightarrow> 'r \<Rightarrow> 'r" where
  "located loc rem set_loc clr_loc dir fs r =
     (if blank (loc r) then r
      else let c = Join2 dir (Base (the (loc r))) in
           if fs c \<noteq> None then (if c \<noteq> the (loc r) then set_loc c r else r)
           else if blank (rem r) then r else clr_loc r)"

text \<open>A row that still has neither a remote copy nor a file here.\<close>

definition dangling ::
  "('r \<Rightarrow> string option) \<Rightarrow> ('r \<Rightarrow> string option) \<Rightarrow> string \<Rightarrow> (string \<Rightarrow> int option) \<Rightarrow> 'r \<Rightarrow> bool" where
  "dangling loc rem dir fs r \<longleftrightarrow>
     blank (rem r) \<and> (blank (loc r) \<or> fs (Join2 dir (Base (the (loc r)))) = None)"

locale dual_catalogue =
  fixes rows :: "world \<Rightarrow> 'r list" and put_rows :: "'r list \<Rightarrow> world \<Rightarrow> world"
    and rid :: "'r \<Rightarrow> int" and loc rem :: "'r \<Rightarrow> string option"
    and set_loc :: "string \<Rightarrow> 'r \<Rightarrow> 'r" and clr_loc :: "'r \<Rightarrow> 'r"
    and repoint :: "string \<Rightarrow> 'r \<Rightarrow> world \<Rightarrow> goerror option \<times> world"
    and clear :: "'r \<Rightarrow> world \<Rightarrow> goerror option \<times> world"
    and row_ok :: "'r \<Rightarrow> bool"
  assumes rows_put [simp]: "rows (put_rows l w) = l"
    and put_rows_id: "put_rows (rows w) w = w"
    and put_put [simp]: "put_rows l (put_rows l' w) = put_rows l w"
    and put_frame [simp]: "io_schedule (put_rows l w) = io_schedule w" "files (put_rows l w) = files w"
    and rid_set [simp]: "rid (set_loc c r) = rid r" "rid (clr_loc r) = rid r"
    and repoint_law: "io_schedule w = [] \<Longrightarrow> rows w = pre @ r # post \<Longrightarrow>
          distinct (map rid (pre @ r # post)) \<Longrightarrow> row_ok r \<Longrightarrow>
          repoint c r w = (None, put_rows (pre @ set_loc c r # post) w)"
    and clear_law: "io_schedule w = [] \<Longrightarrow> rows w = pre @ r # post \<Longrightarrow>
          distinct (map rid (pre @ r # post)) \<Longrightarrow> row_ok r \<Longrightarrow> rem r \<noteq> None \<Longrightarrow>
          clear r w = (None, put_rows (pre @ clr_loc r # post) w)"
begin

abbreviation relocate :: "string \<Rightarrow> (string \<Rightarrow> int option) \<Rightarrow> 'r \<Rightarrow> 'r" where
  "relocate \<equiv> located loc rem set_loc clr_loc"

lemma rid_relocate [simp]: "rid (relocate dir fs r) = rid r"
  by (simp add: located_def Let_def)

text \<open>With nothing failing, the loop rewrites each row to its located form and counts.\<close>

lemma reconcile_effect:
  assumes "io_schedule w = []" "rows w = pre @ rs" "distinct (map rid (pre @ rs))"
    and "\<forall>r \<in> set rs. row_ok r"
  shows "\<exists>rp cl. reconcile_rows loc rem repoint clear dir rs (a, b, d) w =
     (((rp, cl, d + count_where (dangling loc rem dir (files w)) rs), None),
      put_rows (pre @ map (relocate dir (files w)) rs) w)"
  using assms
proof (induction rs arbitrary: pre a b d w)
  case Nil
  then show ?case using put_rows_id[of w] by (simp add: count_where_def)
next
  case (Cons r rs)
  let ?f = "relocate dir (files w)"
  let ?w1 = "put_rows (pre @ ?f r # rs) w"
  let ?n = "d + (if dangling loc rem dir (files w) r then 1 else 0)"
  have step: "\<exists>a' b'. reconcile_rows loc rem repoint clear dir (r # rs) (a, b, d) w
      = reconcile_rows loc rem repoint clear dir rs (a', b', ?n) ?w1"
  proof -
    have same: "?w1 = w" if "?f r = r" using that Cons.prems(2) put_rows_id[of w] by simp
    show ?thesis
    proof (cases "blank (loc r)")
      case True
      then have "?f r = r" "?n = (if blank (rem r) then d + 1 else d)"
        by (simp_all add: located_def dangling_def)
      then show ?thesis using True same by auto
    next
      case loc: False
      let ?c = "Join2 dir (Base (the (loc r)))"
      show ?thesis
      proof (cases "files w ?c")
        case None
        have n: "?n = (if blank (rem r) then d + 1 else d)"
          using loc None by (simp add: dangling_def)
        show ?thesis
        proof (cases "blank (rem r)")
          case True
          then have "?f r = r" using loc None by (simp add: located_def)
          then show ?thesis using True loc None same n Cons.prems(1)
            by (auto simp: calm_primitives Let_def)
        next
          case False
          then have "?f r = clr_loc r" "rem r \<noteq> None"
            using loc None by (auto simp: located_def blank_def)
          then show ?thesis using False loc None n Cons.prems clear_law[of w pre r rs]
            by (auto simp: calm_primitives Let_def)
        qed
      next
        case (Some k)
        then have n: "?n = d" using loc by (simp add: dangling_def)
        show ?thesis
        proof (cases "?c = the (loc r)")
          case True
          then have "?f r = r" using loc Some by (simp add: located_def Let_def)
          then show ?thesis using True loc Some same n Cons.prems(1)
            by (auto simp: calm_primitives Let_def)
        next
          case False
          then have "?f r = set_loc ?c r" using loc Some by (simp add: located_def)
          then show ?thesis using False loc Some n Cons.prems repoint_law[of w pre r rs]
            by (auto simp: calm_primitives Let_def)
        qed
      qed
    qed
  qed
  then obtain a' b' where step: "reconcile_rows loc rem repoint clear dir (r # rs) (a, b, d) w
      = reconcile_rows loc rem repoint clear dir rs (a', b', ?n) ?w1" by blast
  obtain rp cl where ih: "reconcile_rows loc rem repoint clear dir rs (a', b', ?n) ?w1 =
     (((rp, cl, ?n + count_where (dangling loc rem dir (files w)) rs), None),
      put_rows ((pre @ [?f r]) @ map ?f rs) ?w1)"
    using Cons.IH[of ?w1 "pre @ [?f r]" a' b' ?n] Cons.prems by auto
  have "?n + count_where (dangling loc rem dir (files w)) rs
      = d + count_where (dangling loc rem dir (files w)) (r # rs)"
    by (simp add: count_where_def)
  then have "reconcile_rows loc rem repoint clear dir (r # rs) (a, b, d) w =
     (((rp, cl, d + count_where (dangling loc rem dir (files w)) (r # rs)), None),
      put_rows (pre @ map ?f (r # rs)) w)"
    unfolding step ih by simp
  then show ?case by blast
qed

end

end
