(* ===== verification/SnapshotStore.thy ===== *)
theory SnapshotStore
  imports Catalogue
begin

text \<open>
  The snapshot store, \<open>internal/store/snapshot/snapshot.go\<close>: the singleton schedule and the
  catalogue of snapshot archives. A statement carries the constraints of its table: the
  plan's hour and interval, the catalogue's CHECK that a row has a local or a remote
  location, and the format vocabulary (migrations 017 and 018).
\<close>

section \<open>The plan\<close>

definition plan_check :: "Plan \<Rightarrow> bool" where
  "plan_check p \<longleftrightarrow> 0 \<le> plan_UTCHour p \<and> plan_UTCHour p < 24
     \<and> plan_IntervalHours p \<in> {1, 2, 3, 4, 6, 8, 12, 24}
     \<and> plan_Format p \<in> {''physical'', ''logical''}"

text \<open>The upsert: an existing row keeps its pause columns and its \<open>created_at\<close>.\<close>

definition setplan_stmt :: "Plan \<Rightarrow> world \<Rightarrow> (world \<times> int) res" where
  "setplan_stmt new w =
     (if \<not> plan_check new then Inl (DriverError ''CHECK constraint failed: snapshot_plans'')
      else Inr (w\<lparr>snapshot_plans := Some
             (case snapshot_plans w of
                None \<Rightarrow> new
              | Some old \<Rightarrow> old\<lparr>plan_UTCHour := plan_UTCHour new,
                   plan_IntervalHours := plan_IntervalHours new,
                   plan_CleanupLocalDays := plan_CleanupLocalDays new,
                   plan_CleanupRemoteDays := plan_CleanupRemoteDays new,
                   plan_Format := plan_Format new, plan_UpdatedAt := plan_UpdatedAt new\<rparr>)\<rparr>, 1))"

definition Snapshot_SetPlan ::
  "gotime \<Rightarrow> int \<Rightarrow> int \<Rightarrow> int \<Rightarrow> int \<Rightarrow> string \<Rightarrow> world \<Rightarrow> goerror option \<times> world" where
  "Snapshot_SetPlan now utcHour intervalHours cleanupLocalDays cleanupRemoteDays format w =
     (let new = \<lparr>plan_UTCHour = utcHour, plan_IntervalHours = intervalHours,
                 plan_CleanupLocalDays = cleanupLocalDays,
                 plan_CleanupRemoteDays = cleanupRemoteDays, plan_Format = format,
                 plan_PausedAt = 0, plan_PausedReason = '''',
                 plan_CreatedAt = now, plan_UpdatedAt = now\<rparr>
      in case sql_exec (setplan_stmt new) w of
           (Inl e, w1) \<Rightarrow> (Some (wrap ''set snapshot plan'' e), w1)
         | (Inr _, w1) \<Rightarrow> (None, w1))"

definition Snapshot_GetPlan :: "world \<Rightarrow> Plan option res \<times> world" where
  "Snapshot_GetPlan w =
     (case sql_query snapshot_plans w of
        (Inl e, w1) \<Rightarrow> (Inl (wrap ''get snapshot plan'' e), w1)
      | (Inr p, w1) \<Rightarrow> (Inr p, w1))"

definition plan_update ::
  "string \<Rightarrow> (Plan \<Rightarrow> Plan) \<Rightarrow> world \<Rightarrow> goerror option \<times> world" where
  "plan_update msg f w =
     (case sql_exec (\<lambda>w. case snapshot_plans w of
                           None \<Rightarrow> Inr (w, 0)
                         | Some p \<Rightarrow> Inr (w\<lparr>snapshot_plans := Some (f p)\<rparr>, 1)) w of
        (Inl e, w1) \<Rightarrow> (Some (wrap msg e), w1)
      | (Inr n, w1) \<Rightarrow> if n = 0 then (Some (Sentinel ErrNoSnapshotPlan), w1) else (None, w1))"

definition Snapshot_PausePlan ::
  "gotime \<Rightarrow> gotime \<Rightarrow> string \<Rightarrow> world \<Rightarrow> goerror option \<times> world" where
  "Snapshot_PausePlan now1 now2 reason =
     plan_update ''pause snapshot plan''
       (\<lambda>p. p\<lparr>plan_PausedAt := now1, plan_PausedReason := reason, plan_UpdatedAt := now2\<rparr>)"

definition Snapshot_ResumePlan :: "gotime \<Rightarrow> world \<Rightarrow> goerror option \<times> world" where
  "Snapshot_ResumePlan now =
     plan_update ''resume snapshot plan''
       (\<lambda>p. p\<lparr>plan_PausedAt := 0, plan_PausedReason := '''', plan_UpdatedAt := now\<rparr>)"

definition Snapshot_DeletePlan :: "world \<Rightarrow> goerror option \<times> world" where
  "Snapshot_DeletePlan w =
     (case sql_exec (\<lambda>w. Inr (w\<lparr>snapshot_plans := None\<rparr>, 0)) w of
        (Inl e, w1) \<Rightarrow> (Some (wrap ''delete snapshot plan'' e), w1)
      | (Inr _, w1) \<Rightarrow> (None, w1))"

section \<open>The catalogue\<close>

definition snap_check :: "Record \<Rightarrow> bool" where
  "snap_check r \<longleftrightarrow> (snap_LocalLocation r \<noteq> None \<or> snap_RemoteLocation r \<noteq> None)
     \<and> snap_Format r \<in> {''physical'', ''logical''}"

definition snap_update_stmt ::
  "(Record \<Rightarrow> bool) \<Rightarrow> (Record \<Rightarrow> Record) \<Rightarrow> world \<Rightarrow> (world \<times> int) res" where
  "snap_update_stmt p f w =
     (if \<forall>r \<in> set (snapshot_history w). p r \<longrightarrow> snap_check (f r)
      then Inr (w\<lparr>snapshot_history := upd_where p f (snapshot_history w)\<rparr>,
                count_where p (snapshot_history w))
      else Inl (DriverError ''CHECK constraint failed: snapshot_history''))"

definition snap_insert_stmt :: "Record \<Rightarrow> world \<Rightarrow> (world \<times> int) res" where
  "snap_insert_stmt r w =
     (if \<not> snap_check r then Inl (DriverError ''CHECK constraint failed: snapshot_history'')
      else let n = snapshot_seq w + 1 in
           Inr (w\<lparr>snapshot_history := snapshot_history w @ [r\<lparr>snap_ID := n\<rparr>],
                   snapshot_seq := n\<rparr>, n))"

definition snap_delete_stmt :: "int \<Rightarrow> world \<Rightarrow> (world \<times> int) res" where
  "snap_delete_stmt rid w =
     Inr (w\<lparr>snapshot_history := del_where (\<lambda>r. snap_ID r = rid) (snapshot_history w)\<rparr>,
          count_where (\<lambda>r. snap_ID r = rid) (snapshot_history w))"

text \<open>An \<open>UPDATE\<close> or \<open>DELETE\<close> by id whose affected rows are not looked at.\<close>

definition snap_exec ::
  "string \<Rightarrow> (world \<Rightarrow> (world \<times> int) res) \<Rightarrow> world \<Rightarrow> goerror option \<times> world" where
  "snap_exec msg st w =
     (case sql_exec st w of
        (Inl e, w1) \<Rightarrow> (Some (wrap msg e), w1)
      | (Inr _, w1) \<Rightarrow> (None, w1))"

text \<open>
  \<open>RecordSnapshot\<close>: the caller's record with its flattened companions (\<open>LocalPath\<close>,
  \<open>CommentStr\<close>, \<open>Instances\<close>, \<open>SHA256Str\<close>; a nil slice is \<open>None\<close>). The result is the record
  with the fields the method fills in.
\<close>

definition Snapshot_RecordSnapshot ::
  "Record \<Rightarrow> string \<Rightarrow> string \<Rightarrow> RecordInstance list option \<Rightarrow> string \<Rightarrow> world
     \<Rightarrow> Record res \<times> world" where
  "Snapshot_RecordSnapshot rec LocalPath CommentStr Instances SHA256Str w =
     (let local = (if snap_LocalLocation rec = None \<and> LocalPath \<noteq> '''' then Some LocalPath
                   else snap_LocalLocation rec);
          comment = (if snap_Comment rec = None \<and> CommentStr \<noteq> '''' then Some CommentStr
                     else snap_Comment rec);
          format = (if snap_Format rec = '''' then ''logical'' else snap_Format rec);
          instancesJSON = (if snap_InstancesJSON rec = JNull
                           then (case Instances of None \<Rightarrow> JNull | Some l \<Rightarrow> JList l)
                           else snap_InstancesJSON rec);
          digest = (if snap_SHA256 rec = None \<and> SHA256Str \<noteq> '''' then Some SHA256Str
                    else snap_SHA256 rec)
      in case sql_exec (snap_insert_stmt
                (rec\<lparr>snap_Format := format, snap_InstancesJSON := instancesJSON,
                     snap_LocalLocation := local, snap_Comment := comment,
                     snap_SHA256 := digest\<rparr>)) w of
           (Inl e, w1) \<Rightarrow> (Inl (wrap ''record snapshot'' e), w1)
         | (Inr rid, w1) \<Rightarrow>
             (Inr (rec\<lparr>snap_ID := rid, snap_LocalLocation := local, snap_Comment := comment,
                       snap_SHA256 := digest\<rparr>), w1))"

text \<open>\<open>flatten\<close>: the string views of the nullable columns, and the decoded instance list.\<close>

definition LocalPath :: "Record \<Rightarrow> string" where
  "LocalPath r = (case snap_LocalLocation r of None \<Rightarrow> '''' | Some s \<Rightarrow> s)"

definition RemotePath :: "Record \<Rightarrow> string" where
  "RemotePath r = (case snap_RemoteLocation r of None \<Rightarrow> '''' | Some s \<Rightarrow> s)"

definition Instances :: "Record \<Rightarrow> RecordInstance list option" where
  "Instances r = (case snap_InstancesJSON r of JList l \<Rightarrow> Some l | _ \<Rightarrow> None)"

definition Snapshot_List :: "world \<Rightarrow> Record list res \<times> world" where
  "Snapshot_List w =
     (case sql_query (\<lambda>w. sort_desc snap_CreatedAt (snapshot_history w)) w of
        (Inl e, w1) \<Rightarrow> (Inl (wrap ''list snapshots'' e), w1)
      | (Inr l, w1) \<Rightarrow> (Inr l, w1))"

definition Snapshot_Get :: "int \<Rightarrow> world \<Rightarrow> Record option res \<times> world" where
  "Snapshot_Get rid w =
     (case sql_query (\<lambda>w. find (\<lambda>r. snap_ID r = rid) (snapshot_history w)) w of
        (Inl e, w1) \<Rightarrow> (Inl (wrap (''get snapshot '' @ Itoa rid) e), w1)
      | (Inr r, w1) \<Rightarrow> (Inr r, w1))"

definition Snapshot_FindByRemoteLocation :: "string \<Rightarrow> world \<Rightarrow> Record option res \<times> world" where
  "Snapshot_FindByRemoteLocation location w =
     (case sql_query (\<lambda>w. find (\<lambda>r. snap_RemoteLocation r = Some location)
                             (sort_desc snap_ID (snapshot_history w))) w of
        (Inl e, w1) \<Rightarrow> (Inl (wrap ''find snapshot by remote location'' e), w1)
      | (Inr r, w1) \<Rightarrow> (Inr r, w1))"

definition Snapshot_SetRemoteLocation :: "int \<Rightarrow> string \<Rightarrow> world \<Rightarrow> goerror option \<times> world" where
  "Snapshot_SetRemoteLocation rid remote =
     snap_exec ''set snapshot remote location''
       (snap_update_stmt (\<lambda>r. snap_ID r = rid) (\<lambda>r. r\<lparr>snap_RemoteLocation := Some remote\<rparr>))"

definition Snapshot_SetLocalLocation :: "int \<Rightarrow> string \<Rightarrow> world \<Rightarrow> goerror option \<times> world" where
  "Snapshot_SetLocalLocation rid local =
     snap_exec ''set snapshot local location''
       (snap_update_stmt (\<lambda>r. snap_ID r = rid) (\<lambda>r. r\<lparr>snap_LocalLocation := Some local\<rparr>))"

definition Snapshot_ClearLocalLocation :: "int \<Rightarrow> world \<Rightarrow> goerror option \<times> world" where
  "Snapshot_ClearLocalLocation rid w =
     (case sql_query (\<lambda>w. find (\<lambda>r. snap_ID r = rid) (snapshot_history w)) w of
        (Inl e, w1) \<Rightarrow>
          (Some (Errorf1 (''read snapshot '' @ Itoa rid @ '' before clearing local location: '') e ''''), w1)
      | (Inr None, w1) \<Rightarrow>
          (Some (Errorf1 (''read snapshot '' @ Itoa rid @ '' before clearing local location: '')
                   (Sentinel ErrNoRows) ''''), w1)
      | (Inr (Some r), w1) \<Rightarrow>
          if snap_RemoteLocation r = None \<or> snap_RemoteLocation r = Some ''''
          then (Some (Errorf0 (''snapshot '' @ Itoa rid @ '' has no remote copy, so clearing its local location would leave a record describing nothing; delete the record instead'')), w1)
          else snap_exec ''clear snapshot local location''
                 (snap_update_stmt (\<lambda>r. snap_ID r = rid) (\<lambda>r. r\<lparr>snap_LocalLocation := None\<rparr>)) w1)"

definition Snapshot_ClearRemoteLocation :: "int \<Rightarrow> world \<Rightarrow> goerror option \<times> world" where
  "Snapshot_ClearRemoteLocation rid w =
     (case sql_query (\<lambda>w. find (\<lambda>r. snap_ID r = rid) (snapshot_history w)) w of
        (Inl e, w1) \<Rightarrow>
          (Some (Errorf1 (''read snapshot '' @ Itoa rid @ '' before clearing remote location: '') e ''''), w1)
      | (Inr None, w1) \<Rightarrow>
          (Some (Errorf1 (''read snapshot '' @ Itoa rid @ '' before clearing remote location: '')
                   (Sentinel ErrNoRows) ''''), w1)
      | (Inr (Some r), w1) \<Rightarrow>
          if snap_LocalLocation r = None \<or> snap_LocalLocation r = Some ''''
          then (Some (Errorf0 (''snapshot '' @ Itoa rid @ '' has no local copy, so clearing its remote location would leave a record describing nothing; delete the record instead'')), w1)
          else snap_exec ''clear snapshot remote location''
                 (snap_update_stmt (\<lambda>r. snap_ID r = rid) (\<lambda>r. r\<lparr>snap_RemoteLocation := None\<rparr>)) w1)"

definition Snapshot_Delete :: "int \<Rightarrow> world \<Rightarrow> goerror option \<times> world" where
  "Snapshot_Delete rid = snap_exec ''delete snapshot record'' (snap_delete_stmt rid)"

definition Snapshot_SetSHA256IfUnknown :: "int \<Rightarrow> string \<Rightarrow> world \<Rightarrow> goerror option \<times> world" where
  "Snapshot_SetSHA256IfUnknown rid digest =
     snap_exec (''record snapshot '' @ Itoa rid @ '' digest'')
       (snap_update_stmt (\<lambda>r. snap_ID r = rid \<and> snap_SHA256 r = None)
                         (\<lambda>r. r\<lparr>snap_SHA256 := Some digest\<rparr>))"

definition snap_repoint :: "string \<Rightarrow> Record \<Rightarrow> world \<Rightarrow> goerror option \<times> world" where
  "snap_repoint candidate r =
     snap_exec (''re-point snapshot '' @ Itoa (snap_ID r))
       (snap_update_stmt (\<lambda>x. snap_ID x = snap_ID r) (\<lambda>x. x\<lparr>snap_LocalLocation := Some candidate\<rparr>))"

definition snap_unlocate :: "Record \<Rightarrow> world \<Rightarrow> goerror option \<times> world" where
  "snap_unlocate r =
     snap_exec (''clear local location of snapshot '' @ Itoa (snap_ID r))
       (snap_update_stmt (\<lambda>x. snap_ID x = snap_ID r) (\<lambda>x. x\<lparr>snap_LocalLocation := None\<rparr>))"

definition Snapshot_ReconcileLocalLocations ::
  "string \<Rightarrow> world \<Rightarrow> (reconcile_counts \<times> goerror option) \<times> world" where
  "Snapshot_ReconcileLocalLocations backupDir w =
     (case sql_query snapshot_history w of
        (Inl e, w1) \<Rightarrow> (((0, 0, 0), Some (wrap ''read snapshot history'' e)), w1)
      | (Inr rows, w1) \<Rightarrow>
          reconcile_rows snap_LocalLocation snap_RemoteLocation snap_repoint snap_unlocate
            backupDir rows (0, 0, 0) w1)"

definition Snapshot_ReferencedFilenames :: "world \<Rightarrow> string set res \<times> world" where
  "Snapshot_ReferencedFilenames w =
     (case sql_query (\<lambda>w. filter (\<lambda>l. l \<noteq> None) (map snap_LocalLocation (snapshot_history w))) w of
        (Inl e, w1) \<Rightarrow> (Inl (wrap ''read snapshot locations'' e), w1)
      | (Inr locations, w1) \<Rightarrow>
          (Inr (set (map (\<lambda>l. Base (the l)) (filter (\<lambda>l. \<not> blank l) locations))), w1))"

section \<open>The table invariant\<close>

definition snapshots_ok :: "world \<Rightarrow> bool" where
  "snapshots_ok w \<longleftrightarrow>
     distinct (map snap_ID (snapshot_history w))
     \<and> (\<forall>r \<in> set (snapshot_history w). snap_ID r \<le> snapshot_seq w \<and> snap_check r)
     \<and> (\<forall>p. snapshot_plans w = Some p \<longrightarrow> plan_check p)"

interpretation snap: table_invariant snapshots_ok
  by unfold_locales (simp add: snapshots_ok_def same_but_io_fields)

lemma snap_update_stmt_ok:
  assumes "snapshots_ok w" "snap_update_stmt p f w = Inr (w', n)" "\<And>r. snap_ID (f r) = snap_ID r"
  shows "snapshots_ok w'"
  using assms
  by (auto simp: snapshots_ok_def snap_update_stmt_def map_upd_where in_upd_where split: if_splits)

lemma snap_insert_stmt_ok:
  "snapshots_ok w \<Longrightarrow> snap_insert_stmt r w = Inr (w', n) \<Longrightarrow> snapshots_ok w'"
  by (force simp: snapshots_ok_def snap_insert_stmt_def snap_check_def Let_def split: if_splits)

lemma snap_delete_stmt_ok:
  "snapshots_ok w \<Longrightarrow> snap_delete_stmt rid w = Inr (w', n) \<Longrightarrow> snapshots_ok w'"
  by (auto simp: snapshots_ok_def snap_delete_stmt_def distinct_del_where)

lemma snap_exec_keeps:
  assumes "snap_exec m st w = (r, w')" "snapshots_ok w"
    and "\<And>v v' n. snapshots_ok v \<Longrightarrow> st v = Inr (v', n) \<Longrightarrow> snapshots_ok v'"
  shows "snapshots_ok w'"
proof -
  obtain r1 where "sql_exec st w = (r1, w')"
    using assms(1) by (auto simp: snap_exec_def split: prod.splits sum.splits)
  then show ?thesis using assms(2,3) by (rule snap.exec_keeps)
qed

lemma snap_update_keeps:
  "snap_exec m (snap_update_stmt p f) w = (r, w') \<Longrightarrow> snapshots_ok w \<Longrightarrow>
   (\<And>x. snap_ID (f x) = snap_ID x) \<Longrightarrow> snapshots_ok w'"
  by (erule (1) snap_exec_keeps) (erule (1) snap_update_stmt_ok)

lemma Snapshot_Delete_keeps:
  "Snapshot_Delete rid w = (r, w') \<Longrightarrow> snapshots_ok w \<Longrightarrow> snapshots_ok w'"
  unfolding Snapshot_Delete_def by (erule (1) snap_exec_keeps) (erule (1) snap_delete_stmt_ok)

lemma Snapshot_setters_keep:
  "Snapshot_SetRemoteLocation rid l w = (r, w') \<Longrightarrow> snapshots_ok w \<Longrightarrow> snapshots_ok w'"
  "Snapshot_SetLocalLocation rid l w = (r, w') \<Longrightarrow> snapshots_ok w \<Longrightarrow> snapshots_ok w'"
  "Snapshot_SetSHA256IfUnknown rid l w = (r, w') \<Longrightarrow> snapshots_ok w \<Longrightarrow> snapshots_ok w'"
  unfolding Snapshot_SetRemoteLocation_def Snapshot_SetLocalLocation_def
    Snapshot_SetSHA256IfUnknown_def
  by (erule (1) snap_update_keeps; simp)+

lemma Snapshot_ClearLocalLocation_keeps:
  "Snapshot_ClearLocalLocation rid w = (r, w') \<Longrightarrow> snapshots_ok w \<Longrightarrow> snapshots_ok w'"
  unfolding Snapshot_ClearLocalLocation_def
  by (auto dest: snap.query_keeps snap_update_keeps
      split: prod.splits sum.splits option.splits if_splits)

lemma Snapshot_ClearRemoteLocation_keeps:
  "Snapshot_ClearRemoteLocation rid w = (r, w') \<Longrightarrow> snapshots_ok w \<Longrightarrow> snapshots_ok w'"
  unfolding Snapshot_ClearRemoteLocation_def
  by (auto dest: snap.query_keeps snap_update_keeps
      split: prod.splits sum.splits option.splits if_splits)

section \<open>The schedule row\<close>

text \<open>
  C8. Changing the hour, interval or retention of a paused schedule never resumes it:
  \<open>SetPlan\<close> keeps the pause and its reason (and the creation time) of an existing plan,
  whatever the database does, and only \<open>ResumePlan\<close> or \<open>DeletePlan\<close> lifts a pause.
\<close>

theorem SetPlan_keeps_pause:
  assumes "snapshot_plans w = Some p"
    and "Snapshot_SetPlan now h i l rm f w = (r, w')"
  shows "\<exists>p'. snapshot_plans w' = Some p' \<and> plan_PausedAt p' = plan_PausedAt p
           \<and> plan_PausedReason p' = plan_PausedReason p \<and> plan_CreatedAt p' = plan_CreatedAt p"
proof -
  obtain new r1 where ex: "sql_exec (setplan_stmt new) w = (r1, w')"
    using assms(2) by (auto simp: Snapshot_SetPlan_def Let_def split: prod.splits sum.splits if_splits)
  from ex show ?thesis
  proof (cases rule: sql_exec_cases)
    case none
    then show ?thesis using assms(1) by (simp add: same_but_io_fields)
  next
    case (applied w1 n)
    then show ?thesis using assms(1)
      by (auto simp: same_but_io_fields setplan_stmt_def split: if_splits)
  qed
qed

definition demo_plan :: Plan where
  "demo_plan =
     \<lparr>plan_UTCHour = 1, plan_IntervalHours = 24, plan_CleanupLocalDays = 7,
      plan_CleanupRemoteDays = 14, plan_Format = ''logical'', plan_PausedAt = 5,
      plan_PausedReason = ''restored'', plan_CreatedAt = 2, plan_UpdatedAt = 5\<rparr>"

theorem SetPlan_keeps_pause_witness:
  "\<exists>p'. snapshot_plans (snd (Snapshot_SetPlan 9 3 6 7 14 ''physical''
          (empty_world\<lparr>snapshot_plans := Some demo_plan\<rparr>))) = Some p' \<and> plan_PausedAt p' = 5
        \<and> plan_PausedReason p' = ''restored'' \<and> plan_CreatedAt p' = 2"
  using SetPlan_keeps_pause[OF _ prod.collapse[symmetric],
      of "empty_world\<lparr>snapshot_plans := Some demo_plan\<rparr>" demo_plan 9 3 6 7 14 "''physical''"]
  by (simp add: demo_plan_def)

section \<open>Local locations against the files of this host\<close>

lemma snap_update_row_calm:
  assumes "io_schedule w = []" "snapshot_history w = pre @ r # post"
    "distinct (map snap_ID (pre @ r # post))" "snap_check (f r)"
  shows "snap_exec m (snap_update_stmt (\<lambda>x. snap_ID x = snap_ID r) f) w =
     (None, w\<lparr>snapshot_history := pre @ f r # post\<rparr>)"
proof -
  have "\<forall>x \<in> set (pre @ r # post). snap_ID x = snap_ID r \<longrightarrow> snap_check (f x)"
    using assms(4) distinct_row[OF assms(3), of r] by auto
  then show ?thesis
    using assms upd_where_one[OF assms(3)]
    by (simp add: snap_exec_def calm_primitives snap_update_stmt_def)
qed

interpretation snapcat: dual_catalogue snapshot_history "\<lambda>l w. w\<lparr>snapshot_history := l\<rparr>" snap_ID
  snap_LocalLocation snap_RemoteLocation "\<lambda>c r. r\<lparr>snap_LocalLocation := Some c\<rparr>"
  "\<lambda>r. r\<lparr>snap_LocalLocation := None\<rparr>" snap_repoint snap_unlocate snap_check
  by unfold_locales
     (auto simp: snap_repoint_def snap_unlocate_def snap_check_def intro!: snap_update_row_calm)

text \<open>
  After \<open>snapshot apply\<close>, re-pointing the snapshot catalogue never fails on a host that
  answers: every row ends with the path of the archive that is here, without a local path
  when only its remote copy exists, or untouched when it has neither, and the last kind is
  exactly what is counted as dangling. No row is lost and the constraint holds throughout.
\<close>

theorem Snapshot_ReconcileLocalLocations_effect:
  assumes "io_schedule w = []" "snapshots_ok w"
  shows "\<exists>rp cl. Snapshot_ReconcileLocalLocations dir w =
     (((rp, cl, count_where (dangling snap_LocalLocation snap_RemoteLocation dir (files w))
                 (snapshot_history w)), None),
      w\<lparr>snapshot_history := map (located snap_LocalLocation snap_RemoteLocation
            (\<lambda>c r. r\<lparr>snap_LocalLocation := Some c\<rparr>) (\<lambda>r. r\<lparr>snap_LocalLocation := None\<rparr>)
            dir (files w)) (snapshot_history w)\<rparr>)"
  using assms snapcat.reconcile_effect[of w "[]" "snapshot_history w" dir 0 0 0]
  by (simp add: Snapshot_ReconcileLocalLocations_def calm_primitives snapshots_ok_def)

definition demo_record :: "int \<Rightarrow> gotime \<Rightarrow> string option \<Rightarrow> string option \<Rightarrow> Record" where
  "demo_record n t l rm =
     \<lparr>snap_ID = n, snap_Filename = ''s.tar.zst'', snap_CreatedAt = t, snap_Size = 10,
      snap_Status = ''completed'', snap_InstancesWithData = 1, snap_ConfigOnly = 0,
      snap_Format = ''physical'', snap_InstancesJSON = JNull, snap_LocalLocation = l,
      snap_RemoteLocation = rm, snap_Comment = None, snap_SHA256 = None\<rparr>"

definition demo_catalogue :: world where
  "demo_catalogue = empty_world
     \<lparr>snapshot_history := [demo_record 1 5 (Some ''/old/a'') None, demo_record 2 6 (Some ''/old/b'') (Some ''s3://k/b''),
         demo_record 3 7 (Some ''/old/c'') None],
      snapshot_seq := 3, files := (\<lambda>_. None)(''/new/a'' := Some 10)\<rparr>"

theorem Snapshot_ReconcileLocalLocations_effect_witness:
  "map snap_LocalLocation (snapshot_history (snd (Snapshot_ReconcileLocalLocations ''/new'' demo_catalogue)))
     = [Some ''/new/a'', None, Some ''/old/c'']"
proof -
  have pre: "io_schedule demo_catalogue = []" "snapshots_ok demo_catalogue"
    by (simp_all add: demo_catalogue_def empty_world_def snapshots_ok_def demo_record_def snap_check_def)
  have paths: "Join2 ''/new'' (Base ''/old/a'') = ''/new/a''" "Join2 ''/new'' (Base ''/old/b'') = ''/new/b''"
    "Join2 ''/new'' (Base ''/old/c'') = ''/new/c''"
    by (simp_all add: Join2_def Clean_def Base_def IsAbs_def HasPrefix_def clean_step_def Let_def)
  show ?thesis
    using Snapshot_ReconcileLocalLocations_effect[OF pre, of "''/new''"]
    by (auto simp: demo_catalogue_def demo_record_def located_def blank_def paths)
qed

end
