(* ===== verification/BackupStore.thy ===== *)
theory BackupStore
  imports Catalogue
begin

text \<open>
  The backup catalogue, \<open>internal/store/backup/backup.go\<close>. Listing validates each row
  against the file system and, as a side effect, repairs recorded sizes and deletes rows
  that have neither a remote copy nor a local file. \<open>dataDir\<close> anchors relative locations.
\<close>

section \<open>Statements\<close>

definition bk_check :: "BackupRecord \<Rightarrow> bool" where
  "bk_check r \<longleftrightarrow> bk_LocalLocation r \<noteq> None \<or> bk_RemoteLocation r \<noteq> None"

definition bk_update_stmt ::
  "int \<Rightarrow> (BackupRecord \<Rightarrow> BackupRecord) \<Rightarrow> world \<Rightarrow> (world \<times> int) res" where
  "bk_update_stmt n f w =
     (if \<forall>r \<in> set (backup_history w). bk_ID r = n \<longrightarrow> bk_check (f r)
      then Inr (w\<lparr>backup_history := upd_where (\<lambda>r. bk_ID r = n) f (backup_history w)\<rparr>,
                count_where (\<lambda>r. bk_ID r = n) (backup_history w))
      else Inl (DriverError ''CHECK constraint failed: backup_history''))"

definition bk_insert_stmt :: "BackupRecord \<Rightarrow> world \<Rightarrow> (world \<times> int) res" where
  "bk_insert_stmt r w =
     (if \<not> bk_check r then Inl (DriverError ''CHECK constraint failed: backup_history'')
      else let n = backup_seq w + 1 in
           Inr (w\<lparr>backup_history := backup_history w @ [r\<lparr>bk_ID := n\<rparr>], backup_seq := n\<rparr>, n))"

definition bk_delete_stmt :: "int \<Rightarrow> world \<Rightarrow> (world \<times> int) res" where
  "bk_delete_stmt n w =
     Inr (w\<lparr>backup_history := del_where (\<lambda>r. bk_ID r = n) (backup_history w)\<rparr>,
          count_where (\<lambda>r. bk_ID r = n) (backup_history w))"

definition bk_exec ::
  "string \<Rightarrow> (world \<Rightarrow> (world \<times> int) res) \<Rightarrow> world \<Rightarrow> goerror option \<times> world" where
  "bk_exec msg st w =
     (case sql_exec st w of
        (Inl e, w1) \<Rightarrow> (Some (wrap msg e), w1)
      | (Inr _, w1) \<Rightarrow> (None, w1))"

section \<open>Operations\<close>

text \<open>
  \<open>RecordBackup\<close>, with the record's \<open>LocalPath\<close> and \<open>SHA256Str\<close>; the computed fields of a
  stored row are unset.
\<close>

definition Backup_RecordBackup ::
  "gotime \<Rightarrow> BackupRecord \<Rightarrow> string \<Rightarrow> string \<Rightarrow> world \<Rightarrow> BackupRecord res \<times> world" where
  "Backup_RecordBackup now rec LocalPath SHA256Str w =
     (let rec1 = (if IsZero (bk_CreatedAt rec) then rec\<lparr>bk_CreatedAt := now\<rparr> else rec);
          rec2 = (if LocalPath \<noteq> '''' then rec1\<lparr>bk_LocalLocation := Some LocalPath\<rparr> else rec1);
          rec3 = (if bk_SHA256 rec2 = None \<and> SHA256Str \<noteq> ''''
                  then rec2\<lparr>bk_SHA256 := Some SHA256Str\<rparr> else rec2)
      in case sql_exec (bk_insert_stmt (rec3\<lparr>bk_FileExists := False, bk_ActualSize := 0\<rparr>)) w of
           (Inl e, w1) \<Rightarrow> (Inl (wrap ''insert backup record'' e), w1)
         | (Inr n, w1) \<Rightarrow> (Inr (rec3\<lparr>bk_ID := n\<rparr>), w1))"

definition AbsoluteLocalPath :: "string \<Rightarrow> string \<Rightarrow> string" where
  "AbsoluteLocalPath dataDir localLocation =
     (if IsAbs localLocation then localLocation else Join2 dataDir localLocation)"

definition validateBackupFile :: "string \<Rightarrow> BackupRecord \<Rightarrow> world \<Rightarrow> BackupRecord \<times> world" where
  "validateBackupFile dataDir b w =
     (case bk_LocalLocation b of
        None \<Rightarrow> (b\<lparr>bk_FileExists := False\<rparr>, w)
      | Some p \<Rightarrow>
          (case os_Stat (if IsAbs p then p else Join2 dataDir p) w of
             (StatOK n, w1) \<Rightarrow> (b\<lparr>bk_FileExists := True, bk_ActualSize := n\<rparr>, w1)
           | (StatNotExist, w1) \<Rightarrow> (b\<lparr>bk_FileExists := False\<rparr>, w1)
           | (StatError, w1) \<Rightarrow> (b\<lparr>bk_FileExists := False\<rparr>, w1)))"

definition updateBackupSize :: "int \<Rightarrow> int \<Rightarrow> world \<Rightarrow> goerror option \<times> world" where
  "updateBackupSize n actualSize =
     bk_exec ''update backup size'' (bk_update_stmt n (\<lambda>r. r\<lparr>bk_Size := actualSize\<rparr>))"

definition cleanupOrphanedRecord :: "int \<Rightarrow> world \<Rightarrow> goerror option \<times> world" where
  "cleanupOrphanedRecord n = bk_exec ''delete orphaned backup'' (bk_delete_stmt n)"

fun cleanupOrphanedRecords :: "int list \<Rightarrow> world \<Rightarrow> goerror option \<times> world" where
  "cleanupOrphanedRecords [] w = (None, w)"
| "cleanupOrphanedRecords (n # ns) w =
     (case cleanupOrphanedRecord n w of
        (Some e, w1) \<Rightarrow> (Some e, w1)
      | (None, w1) \<Rightarrow> cleanupOrphanedRecords ns w1)"

text \<open>
  One turn of the loop that both listings run over the fetched rows (the row as the listing
  shows it, and whether it is an orphan), and the loop: the valid rows in order and the ids
  of the orphans.
\<close>

definition orphaned :: "BackupRecord \<Rightarrow> bool" where
  "orphaned b \<longleftrightarrow>
     (bk_Status b = ''completed'' \<and> bk_LocalLocation b = None \<and> bk_RemoteLocation b = None)
     \<or> (bk_LocalLocation b \<noteq> None \<and> \<not> bk_FileExists b \<and> bk_RemoteLocation b = None)"

definition validate_row ::
  "string \<Rightarrow> BackupRecord \<Rightarrow> world \<Rightarrow> (BackupRecord \<times> bool) \<times> world" where
  "validate_row dataDir b0 w =
     (case (if bk_LocalLocation b0 \<noteq> None then validateBackupFile dataDir b0 w else (b0, w)) of
        (b, w1) \<Rightarrow>
          if orphaned b then ((b, True), w1)
          else if bk_FileExists b \<and> bk_ActualSize b \<noteq> bk_Size b then
            (case updateBackupSize (bk_ID b) (bk_ActualSize b) w1 of
               (Some e, w2) \<Rightarrow> ((b, False), w2)
             | (None, w2) \<Rightarrow> ((b\<lparr>bk_Size := bk_ActualSize b\<rparr>, False), w2))
          else ((b, False), w1))"

fun validate_rows ::
  "string \<Rightarrow> BackupRecord list \<Rightarrow> world \<Rightarrow> (BackupRecord list \<times> int list) \<times> world" where
  "validate_rows dataDir [] w = (([], []), w)"
| "validate_rows dataDir (b0 # bs) w =
     (case validate_row dataDir b0 w of ((b, orphan), w1) \<Rightarrow>
        (case validate_rows dataDir bs w1 of ((vs, os), w2) \<Rightarrow>
           if orphan then ((vs, bk_ID b # os), w2) else ((b # vs, os), w2)))"

definition finish_listing ::
  "string \<Rightarrow> BackupRecord list \<Rightarrow> world \<Rightarrow> BackupRecord list res \<times> world" where
  "finish_listing dataDir backups w =
     (case validate_rows dataDir backups w of ((vs, os), w1) \<Rightarrow>
        (if os \<noteq> [] then (Inr vs, snd (cleanupOrphanedRecords os w1)) else (Inr vs, w1)))"

definition Backup_ListAllBackups :: "string \<Rightarrow> world \<Rightarrow> BackupRecord list res \<times> world" where
  "Backup_ListAllBackups dataDir w =
     (case sql_query (\<lambda>w. sort_desc bk_Timestamp (backup_history w)) w of
        (Inl e, w1) \<Rightarrow> (Inl (wrap ''list all backups'' e), w1)
      | (Inr bs, w1) \<Rightarrow> finish_listing dataDir bs w1)"

definition Backup_ListBackups :: "string \<Rightarrow> string \<Rightarrow> world \<Rightarrow> BackupRecord list res \<times> world" where
  "Backup_ListBackups dataDir instanceName w =
     (case sql_query (\<lambda>w. sort_desc bk_Timestamp
              (filter (\<lambda>b. bk_InstanceName b = instanceName) (backup_history w))) w of
        (Inl e, w1) \<Rightarrow> (Inl (wrap ''list backups'' e), w1)
      | (Inr bs, w1) \<Rightarrow> finish_listing dataDir bs w1)"

definition Backup_DeleteRecord :: "int \<Rightarrow> world \<Rightarrow> goerror option \<times> world" where
  "Backup_DeleteRecord n = bk_exec (''delete backup record '' @ Itoa n) (bk_delete_stmt n)"

definition Backup_GetBackupByID :: "string \<Rightarrow> int \<Rightarrow> world \<Rightarrow> BackupRecord res \<times> world" where
  "Backup_GetBackupByID dataDir n w =
     (case sql_query (\<lambda>w. find (\<lambda>b. bk_ID b = n) (backup_history w)) w of
        (Inl e, w1) \<Rightarrow> (Inl (wrap ''get backup'' e), w1)
      | (Inr None, w1) \<Rightarrow> (Inl (Errorf0 (''backup not found: '' @ Itoa n)), w1)
      | (Inr (Some b), w1) \<Rightarrow>
          if bk_LocalLocation b \<noteq> None
          then (case validateBackupFile dataDir b w1 of (b1, w2) \<Rightarrow> (Inr b1, w2))
          else (Inr b, w1))"

definition Backup_UpdateRemoteLocation :: "int \<Rightarrow> string \<Rightarrow> world \<Rightarrow> goerror option \<times> world" where
  "Backup_UpdateRemoteLocation n remoteLocation =
     bk_exec ''update remote location''
       (bk_update_stmt n (\<lambda>r. r\<lparr>bk_RemoteLocation := Some remoteLocation\<rparr>))"

definition Backup_UpdateLocalLocation :: "int \<Rightarrow> string \<Rightarrow> world \<Rightarrow> goerror option \<times> world" where
  "Backup_UpdateLocalLocation n localLocation =
     bk_exec ''update local location''
       (bk_update_stmt n (\<lambda>r. r\<lparr>bk_LocalLocation := Some localLocation\<rparr>))"

definition Backup_ClearLocalLocation :: "int \<Rightarrow> world \<Rightarrow> goerror option \<times> world" where
  "Backup_ClearLocalLocation n =
     bk_exec ''clear local location'' (bk_update_stmt n (\<lambda>r. r\<lparr>bk_LocalLocation := None\<rparr>))"

definition Backup_RemoveLocalCopy ::
  "string \<Rightarrow> int \<Rightarrow> string \<Rightarrow> world \<Rightarrow> goerror option \<times> world" where
  "Backup_RemoveLocalCopy dataDir n instanceName w =
     (case Backup_GetBackupByID dataDir n w of
        (Inl e, w1) \<Rightarrow> (Some e, w1)
      | (Inr b, w1) \<Rightarrow>
          if bk_InstanceName b \<noteq> instanceName
          then (Some (Errorf0 (''backup '' @ Itoa n @ '' does not belong to instance '' @ instanceName)), w1)
          else (case bk_LocalLocation b of
             None \<Rightarrow> (Some (Errorf0 (''backup '' @ Itoa n @ '' has no local copy'')), w1)
           | Some p \<Rightarrow>
               (case os_Remove (if IsAbs p then p else Join2 dataDir p) w1 of
                  (err, w2) \<Rightarrow>
                    if err \<noteq> None \<and> \<not> errors_Is (the err) ErrNotExist
                    then (Some (wrap ''failed to delete local backup file'' (the err)), w2)
                    else if bk_RemoteLocation b = None
                    then bk_exec ''delete backup record'' (bk_delete_stmt n) w2
                    else Backup_ClearLocalLocation n w2)))"

definition Backup_RemoveRemoteCopy ::
  "string \<Rightarrow> int \<Rightarrow> string \<Rightarrow> world \<Rightarrow> goerror option \<times> world" where
  "Backup_RemoveRemoteCopy dataDir n instanceName w =
     (case Backup_GetBackupByID dataDir n w of
        (Inl e, w1) \<Rightarrow> (Some e, w1)
      | (Inr b, w1) \<Rightarrow>
          if bk_InstanceName b \<noteq> instanceName
          then (Some (Errorf0 (''backup '' @ Itoa n @ '' does not belong to instance '' @ instanceName)), w1)
          else if bk_RemoteLocation b = None
          then (Some (Errorf0 (''backup '' @ Itoa n @ '' has no remote copy'')), w1)
          else if bk_LocalLocation b = None
          then bk_exec ''delete backup record'' (bk_delete_stmt n) w1
          else bk_exec ''clear remote location''
                 (bk_update_stmt n (\<lambda>r. r\<lparr>bk_RemoteLocation := None\<rparr>)) w1)"

definition bk_repoint :: "string \<Rightarrow> BackupRecord \<Rightarrow> world \<Rightarrow> goerror option \<times> world" where
  "bk_repoint candidate r =
     bk_exec (''re-point backup '' @ Itoa (bk_ID r))
       (bk_update_stmt (bk_ID r) (\<lambda>x. x\<lparr>bk_LocalLocation := Some candidate\<rparr>))"

definition bk_unlocate :: "BackupRecord \<Rightarrow> world \<Rightarrow> goerror option \<times> world" where
  "bk_unlocate r =
     bk_exec (''clear local location of backup '' @ Itoa (bk_ID r))
       (bk_update_stmt (bk_ID r) (\<lambda>x. x\<lparr>bk_LocalLocation := None\<rparr>))"

definition Backup_ReconcileLocalLocations ::
  "string \<Rightarrow> world \<Rightarrow> (reconcile_counts \<times> goerror option) \<times> world" where
  "Backup_ReconcileLocalLocations backupDir w =
     (case sql_query backup_history w of
        (Inl e, w1) \<Rightarrow> (((0, 0, 0), Some (wrap ''read backup history'' e)), w1)
      | (Inr rows, w1) \<Rightarrow>
          reconcile_rows bk_LocalLocation bk_RemoteLocation bk_repoint bk_unlocate
            backupDir rows (0, 0, 0) w1)"

definition Backup_SetSHA256IfUnknown :: "int \<Rightarrow> string \<Rightarrow> world \<Rightarrow> goerror option \<times> world" where
  "Backup_SetSHA256IfUnknown n digest =
     bk_exec (''record backup '' @ Itoa n @ '' digest'')
       (bk_update_stmt n (\<lambda>r. if bk_SHA256 r = None then r\<lparr>bk_SHA256 := Some digest\<rparr> else r))"

section \<open>The table invariant\<close>

definition backups_ok :: "world \<Rightarrow> bool" where
  "backups_ok w \<longleftrightarrow>
     distinct (map bk_ID (backup_history w))
     \<and> (\<forall>b \<in> set (backup_history w). bk_ID b \<le> backup_seq w \<and> bk_check b)"

interpretation bk: table_invariant backups_ok
  by unfold_locales (simp add: backups_ok_def same_but_io_fields)

lemma bk_update_stmt_ok:
  "backups_ok w \<Longrightarrow> bk_update_stmt n f w = Inr (w', k) \<Longrightarrow> (\<And>r. bk_ID (f r) = bk_ID r) \<Longrightarrow> backups_ok w'"
  by (auto simp: backups_ok_def bk_update_stmt_def map_upd_where in_upd_where split: if_splits)

lemma bk_insert_stmt_ok: "backups_ok w \<Longrightarrow> bk_insert_stmt r w = Inr (w', k) \<Longrightarrow> backups_ok w'"
  by (force simp: backups_ok_def bk_insert_stmt_def bk_check_def Let_def split: if_splits)

lemma bk_delete_stmt_ok: "backups_ok w \<Longrightarrow> bk_delete_stmt n w = Inr (w', k) \<Longrightarrow> backups_ok w'"
  by (auto simp: backups_ok_def bk_delete_stmt_def distinct_del_where)

lemma bk_exec_sql:
  assumes "bk_exec m st w = (r, w')"
  obtains r1 where "sql_exec st w = (r1, w')"
  using assms by (auto simp: bk_exec_def split: prod.splits sum.splits)

lemma bk_update_keeps:
  "bk_exec m (bk_update_stmt n f) w = (r, w') \<Longrightarrow> backups_ok w \<Longrightarrow> (\<And>x. bk_ID (f x) = bk_ID x) \<Longrightarrow>
   backups_ok w'"
  by (erule bk_exec_sql, erule (1) bk.exec_keeps) (erule (1) bk_update_stmt_ok)

lemma bk_delete_keeps:
  "bk_exec m (bk_delete_stmt n) w = (r, w') \<Longrightarrow> backups_ok w \<Longrightarrow> backups_ok w'"
  by (erule bk_exec_sql, erule (1) bk.exec_keeps) (erule (1) bk_delete_stmt_ok)

lemma validateBackupFile_same: "validateBackupFile d b w = (b', w') \<Longrightarrow> same_but_io w w'"
  by (auto simp: validateBackupFile_def intro: os_Stat_same
      split: option.splits prod.splits stat_result.splits)

lemma validateBackupFile_core:
  "validateBackupFile d b w = (b', w') \<Longrightarrow>
   b' = b\<lparr>bk_FileExists := bk_FileExists b', bk_ActualSize := bk_ActualSize b'\<rparr>"
  by (auto simp: validateBackupFile_def split: option.splits prod.splits stat_result.splits)

lemma GetBackupByID_same: "Backup_GetBackupByID d n w = (r, w') \<Longrightarrow> same_but_io w w'"
  unfolding Backup_GetBackupByID_def
  by (auto intro: sql_query_same same_but_io_trans[OF sql_query_same validateBackupFile_same]
      split: prod.splits sum.splits option.splits if_splits)

lemma os_Remove_keeps_backups:
  "os_Remove p w = (r, w') \<Longrightarrow> backups_ok w \<Longrightarrow> backups_ok w'"
  by (auto simp: os_Remove_def backups_ok_def same_but_io_fields dest!: next_io_same
      split: prod.splits outcome.splits option.splits)

lemma RemoveLocalCopy_keeps:
  assumes "Backup_RemoveLocalCopy d n i w = (r, w')" "backups_ok w"
  shows "backups_ok w'"
  using assms unfolding Backup_RemoveLocalCopy_def Backup_ClearLocalLocation_def
  by (auto dest!: GetBackupByID_same os_Remove_keeps_backups dest: bk_delete_keeps bk_update_keeps bk.io_stable
      split: prod.splits sum.splits option.splits if_splits)

lemma RemoveRemoteCopy_keeps:
  assumes "Backup_RemoveRemoteCopy d n i w = (r, w')" "backups_ok w"
  shows "backups_ok w'"
  using assms unfolding Backup_RemoveRemoteCopy_def
  by (auto dest!: GetBackupByID_same dest: bk_delete_keeps bk_update_keeps bk.io_stable
      split: prod.splits sum.splits option.splits if_splits)

section \<open>What a listing may delete\<close>

type_synonym backup_core = "int \<times> string \<times> gotime \<times> string option \<times> string option"

definition bk_core :: "BackupRecord \<Rightarrow> backup_core" where
  "bk_core b = (bk_ID b, bk_InstanceName b, bk_Timestamp b, bk_LocalLocation b, bk_RemoteLocation b)"

definition cores :: "world \<Rightarrow> backup_core list" where
  "cores w = map bk_core (backup_history w)"

lemma cores_same: "same_but_io w w' \<Longrightarrow> cores w' = cores w"
  by (simp add: cores_def same_but_io_fields)

lemma updateBackupSize_cores: "updateBackupSize n s w = (r, w') \<Longrightarrow> cores w' = cores w"
  unfolding updateBackupSize_def
  by (erule bk_exec_sql, erule sql_exec_cases)
     (auto simp: bk_update_stmt_def cores_def map_upd_where bk_core_def same_but_io_fields split: if_splits)

lemma updateBackupSize_files: "updateBackupSize n s w = (r, w') \<Longrightarrow> files w' = files w"
  unfolding updateBackupSize_def
  by (erule bk_exec_sql, erule sql_exec_cases)
     (auto simp: bk_update_stmt_def same_but_io_fields split: if_splits)

text \<open>The rows that were fetched and found orphaned, under every schedule.\<close>

lemma validate_row_facts:
  assumes "validate_row d b0 w = ((b, orphan), w')"
  shows "cores w' = cores w \<and> files w' = files w \<and> bk_core b = bk_core b0
     \<and> (orphan \<longrightarrow> bk_RemoteLocation b0 = None)"
proof -
  obtain b1 w1 where v: "(if bk_LocalLocation b0 \<noteq> None then validateBackupFile d b0 w else (b0, w)) = (b1, w1)"
    by fastforce
  then have "same_but_io w w1" and core: "bk_core b1 = bk_core b0"
    by (auto simp: validateBackupFile_def bk_core_def dest: os_Stat_same
        split: if_splits option.splits prod.splits stat_result.splits)
  then have same: "cores w1 = cores w" "files w1 = files w"
    by (simp_all add: cores_same same_but_io_fields)
  show ?thesis
    using assms v core same
    by (auto simp: validate_row_def orphaned_def bk_core_def updateBackupSize_cores
        updateBackupSize_files split: prod.splits option.splits if_splits)
qed

lemma validate_rows_orphans:
  "validate_rows d bs w = ((vs, os), w') \<Longrightarrow>
     cores w' = cores w \<and> files w' = files w
     \<and> (\<forall>n \<in> set os. \<exists>b \<in> set bs. bk_ID b = n \<and> bk_RemoteLocation b = None)"
proof (induction bs arbitrary: w vs os)
  case Nil
  then show ?case by simp
next
  case (Cons b0 bs)
  obtain b orphan w1 where v: "validate_row d b0 w = ((b, orphan), w1)" by (metis prod.exhaust)
  then show ?case
    using Cons.prems validate_row_facts[OF v]
    by (auto simp: bk_core_def split: prod.splits if_splits dest!: Cons.IH)
qed

lemma cleanupOrphanedRecords_rows:
  "cleanupOrphanedRecords os w = (r, w') \<Longrightarrow>
     files w' = files w \<and> (\<forall>b \<in> set (backup_history w). bk_ID b \<notin> set os \<longrightarrow> b \<in> set (backup_history w'))"
proof (induction os arbitrary: w)
  case Nil
  then show ?case by simp
next
  case (Cons n os)
  have one: "files w1 = files w \<and>
      (\<forall>b \<in> set (backup_history w). bk_ID b \<noteq> n \<longrightarrow> b \<in> set (backup_history w1))"
    if "cleanupOrphanedRecord n w = (e, w1)" for e w1
    using that unfolding cleanupOrphanedRecord_def
    by (elim bk_exec_sql sql_exec_cases) (auto simp: bk_delete_stmt_def same_but_io_fields)
  show ?case using Cons.prems by (auto split: prod.splits option.splits dest!: one Cons.IH)
qed

lemma finish_listing_orphan:
  assumes "finish_listing d bs w = (r, w')" "b \<in> set (backup_history w)"
    and "bk_ID b \<notin> bk_ID ` set (backup_history w')"
  obtains vs os w1 where "validate_rows d bs w = ((vs, os), w1)" "bk_ID b \<in> set os"
proof -
  obtain vs os w1 where v: "validate_rows d bs w = ((vs, os), w1)" by (metis prod.exhaust)
  have cl: "(if os \<noteq> [] then snd (cleanupOrphanedRecords os w1) else w1) = w'"
    using assms(1) v by (auto simp: finish_listing_def split: if_splits)
  have "bk_core b \<in> set (cores w1)"
    using assms(2) validate_rows_orphans[OF v] by (simp add: cores_def)
  then obtain b1 where b1: "b1 \<in> set (backup_history w1)" "bk_ID b1 = bk_ID b"
    by (auto simp: cores_def bk_core_def)
  have "bk_ID b \<in> set os"
  proof (rule ccontr)
    assume "bk_ID b \<notin> set os"
    then have "b1 \<in> set (backup_history w')"
      using b1 cl cleanupOrphanedRecords_rows[of os w1 "fst (cleanupOrphanedRecords os w1)" w']
      by (auto split: if_splits)
    then show False using assms(3) b1(2) by (metis image_eqI)
  qed
  then show thesis using that v by blast
qed

text \<open>With nothing failing, an orphan's file really is missing.\<close>

lemma validate_row_calm:
  assumes "io_schedule w = []" "bk_check b0" "validate_row d b0 w = ((b, orphan), w')"
  shows "io_schedule w' = [] \<and> files w' = files w
     \<and> (orphan \<longrightarrow> (\<exists>p. bk_LocalLocation b0 = Some p \<and> files w (AbsoluteLocalPath d p) = None))"
proof -
  have upd: "io_schedule w1 = []" "files w1 = files w"
    if "updateBackupSize n s w = (e, w1)" for n s e w1
    using that assms(1)
    by (auto simp: updateBackupSize_def bk_exec_def calm_primitives bk_update_stmt_def split: if_splits)
  show ?thesis
    using assms upd
    by (cases "bk_LocalLocation b0")
       (auto simp: validate_row_def validateBackupFile_def calm_primitives AbsoluteLocalPath_def
          orphaned_def bk_check_def split: prod.splits if_splits option.splits)
qed

lemma validate_rows_calm:
  "io_schedule w = [] \<Longrightarrow> validate_rows d bs w = ((vs, os), w') \<Longrightarrow> \<forall>b \<in> set bs. bk_check b \<Longrightarrow>
   io_schedule w' = []
   \<and> (\<forall>n \<in> set os. \<exists>b \<in> set bs. bk_ID b = n
        \<and> (\<exists>p. bk_LocalLocation b = Some p \<and> files w (AbsoluteLocalPath d p) = None))"
proof (induction bs arbitrary: w vs os)
  case Nil
  then show ?case by simp
next
  case (Cons b0 bs)
  obtain b orphan w1 where v: "validate_row d b0 w = ((b, orphan), w1)" by (metis prod.exhaust)
  have calm: "io_schedule w1 = []" "files w1 = files w"
    "orphan \<Longrightarrow> \<exists>p. bk_LocalLocation b0 = Some p \<and> files w (AbsoluteLocalPath d p) = None"
    using validate_row_calm[OF Cons.prems(1) _ v] Cons.prems(3) by auto
  obtain vs' os' where rest: "validate_rows d bs w1 = ((vs', os'), w')"
    "os = (if orphan then bk_ID b # os' else os')"
    using Cons.prems(2) v by (auto split: prod.splits if_splits)
  have "bk_ID b = bk_ID b0" using validate_row_facts[OF v] by (simp add: bk_core_def)
  then show ?case
    using Cons.IH[OF calm(1) rest(1)] Cons.prems(3) calm(2,3) rest(2) by auto
qed

text \<open>
  C29. Listing an instance's backups deletes nothing but orphans of that instance: under
  every pattern of failures a row with a remote copy stays in the catalogue, and when
  nothing fails a deleted row's local file really is not there.
\<close>

theorem ListBackups_drops_only_orphans:
  assumes "Backup_ListBackups d i w = (r, w')" "backups_ok w"
    and "b \<in> set (backup_history w)" "bk_ID b \<notin> bk_ID ` set (backup_history w')"
  shows "bk_RemoteLocation b = None \<and> bk_InstanceName b = i
     \<and> (io_schedule w = [] \<longrightarrow>
          (\<exists>p. bk_LocalLocation b = Some p \<and> files w (AbsoluteLocalPath d p) = None))"
proof -
  obtain q w1 where q: "sql_query (\<lambda>w. sort_desc bk_Timestamp
      (filter (\<lambda>b. bk_InstanceName b = i) (backup_history w))) w = (q, w1)" by fastforce
  then have same: "same_but_io w w1" by (rule sql_query_same)
  obtain bs where bs: "q = Inr bs"
    using q assms(1,3,4) same
    by (cases q) (auto simp: Backup_ListBackups_def same_but_io_fields)
  have bs_def: "bs = sort_desc bk_Timestamp (filter (\<lambda>b. bk_InstanceName b = i) (backup_history w))"
    using q bs same by (auto simp: sql_query_def same_but_io_fields split: prod.splits if_splits)
  have fin: "finish_listing d bs w1 = (r, w')"
    using q bs assms(1) by (simp add: Backup_ListBackups_def)
  obtain vs os w2 where v: "validate_rows d bs w1 = ((vs, os), w2)" "bk_ID b \<in> set os"
    using finish_listing_orphan[OF fin _ assms(4)] assms(3) same by (auto simp: same_but_io_fields)
  have uniq: "b0 = b" if "b0 \<in> set bs" "bk_ID b0 = bk_ID b" for b0
    using that assms(2,3) distinct_row[of bk_ID "backup_history w" b b0]
    by (auto simp: bs_def backups_ok_def)
  have "bk_RemoteLocation b = None \<and> b \<in> set bs"
    using validate_rows_orphans[OF v(1)] v(2) uniq by blast
  moreover have "\<exists>p. bk_LocalLocation b = Some p \<and> files w (AbsoluteLocalPath d p) = None"
    if "io_schedule w = []"
  proof -
    have "w1 = w" using q that by (simp add: calm_primitives)
    moreover have "\<forall>b \<in> set bs. bk_check b" using assms(2) by (auto simp: bs_def backups_ok_def)
    ultimately show ?thesis using validate_rows_calm[of w d bs vs os w2] that v uniq by blast
  qed
  ultimately show ?thesis by (auto simp: bs_def)
qed

definition demo_backup :: "int \<Rightarrow> gotime \<Rightarrow> string option \<Rightarrow> string option \<Rightarrow> BackupRecord" where
  "demo_backup n t l rm =
     \<lparr>bk_ID = n, bk_InstanceName = ''db1'', bk_Timestamp = t, bk_Size = 10, bk_LocalLocation = l,
      bk_RemoteLocation = rm, bk_Status = ''completed'', bk_Comment = None, bk_CreatedAt = t,
      bk_SHA256 = None, bk_FileExists = False, bk_ActualSize = 0\<rparr>"

definition demo_backups :: world where
  "demo_backups = empty_world\<lparr>backup_history := [demo_backup 1 5 (Some ''/b/a'') None], backup_seq := 1\<rparr>"

lemmas listing_eval =
  Backup_ListBackups_def finish_listing_def validate_row_def validateBackupFile_def orphaned_def
  cleanupOrphanedRecord_def bk_exec_def bk_delete_stmt_def del_where_def sort_desc_def
  sql_query_def sql_exec_def os_Stat_def next_io_def demo_backups_def demo_backup_def
  empty_world_def IsAbs_def HasPrefix_def

theorem ListBackups_drops_only_orphans_witness:
  "backup_history (snd (Backup_ListBackups ''/d'' ''db1'' demo_backups)) = []
   \<and> (\<exists>p. bk_LocalLocation (demo_backup 1 5 (Some ''/b/a'') None) = Some p
          \<and> files demo_backups (AbsoluteLocalPath ''/d'' p) = None)"
proof
  show gone: "backup_history (snd (Backup_ListBackups ''/d'' ''db1'' demo_backups)) = []"
    by (simp add: listing_eval)
  show "\<exists>p. bk_LocalLocation (demo_backup 1 5 (Some ''/b/a'') None) = Some p
          \<and> files demo_backups (AbsoluteLocalPath ''/d'' p) = None"
    using ListBackups_drops_only_orphans[OF prod.collapse[symmetric], of demo_backups
        "demo_backup 1 5 (Some ''/b/a'') None" "''/d''" "''db1''"] gone
    by (simp add: backups_ok_def bk_check_def demo_backups_def demo_backup_def empty_world_def)
qed

text \<open>
  A stat that fails for another reason than absence is treated as absence: one failed
  \<open>stat\<close> deletes the row of a backup whose archive is on disk.
\<close>

lemma ListBackups_stat_error_drops_record:
  "let w = demo_backups\<lparr>files := (\<lambda>_. None)(''/b/a'' := Some 10), io_schedule := [Done, Refused]\<rparr>;
       w' = snd (Backup_ListBackups ''/d'' ''db1'' w)
   in backup_history w' = [] \<and> files w' ''/b/a'' = Some 10"
  by (simp add: listing_eval)

section \<open>Local locations against the files of this host\<close>

lemma bk_update_row_calm:
  assumes "io_schedule w = []" "backup_history w = pre @ r # post"
    "distinct (map bk_ID (pre @ r # post))" "bk_check (f r)"
  shows "bk_exec m (bk_update_stmt (bk_ID r) f) w = (None, w\<lparr>backup_history := pre @ f r # post\<rparr>)"
proof -
  have "\<forall>x \<in> set (pre @ r # post). bk_ID x = bk_ID r \<longrightarrow> bk_check (f x)"
    using assms(4) distinct_row[OF assms(3), of r] by auto
  then show ?thesis
    using assms upd_where_one[OF assms(3)] by (simp add: bk_exec_def calm_primitives bk_update_stmt_def)
qed

interpretation bkcat: dual_catalogue backup_history "\<lambda>l w. w\<lparr>backup_history := l\<rparr>" bk_ID
  bk_LocalLocation bk_RemoteLocation "\<lambda>c r. r\<lparr>bk_LocalLocation := Some c\<rparr>"
  "\<lambda>r. r\<lparr>bk_LocalLocation := None\<rparr>" bk_repoint bk_unlocate bk_check
  by unfold_locales
     (auto simp: bk_repoint_def bk_unlocate_def bk_check_def intro!: bk_update_row_calm)

text \<open>
  The backup catalogue is re-pointed by the same rule as the snapshot catalogue, so the
  restored rows of another host survive \<open>snapshot apply\<close>: none is deleted, and exactly the
  rows with neither a file here nor a remote copy are reported as dangling.
\<close>

theorem Backup_ReconcileLocalLocations_effect:
  assumes "io_schedule w = []" "backups_ok w"
  shows "\<exists>rp cl. Backup_ReconcileLocalLocations dir w =
     (((rp, cl, count_where (dangling bk_LocalLocation bk_RemoteLocation dir (files w))
                 (backup_history w)), None),
      w\<lparr>backup_history := map (located bk_LocalLocation bk_RemoteLocation
            (\<lambda>c r. r\<lparr>bk_LocalLocation := Some c\<rparr>) (\<lambda>r. r\<lparr>bk_LocalLocation := None\<rparr>)
            dir (files w)) (backup_history w)\<rparr>)"
  using assms bkcat.reconcile_effect[of w "[]" "backup_history w" dir 0 0 0]
  by (simp add: Backup_ReconcileLocalLocations_def calm_primitives backups_ok_def)

theorem Backup_ReconcileLocalLocations_effect_witness:
  "\<exists>rp cl. fst (Backup_ReconcileLocalLocations ''/new'' demo_backups) = ((rp, cl, 1), None)"
proof -
  have "io_schedule demo_backups = []" "backups_ok demo_backups"
    by (simp_all add: demo_backups_def empty_world_def backups_ok_def demo_backup_def bk_check_def)
  from Backup_ReconcileLocalLocations_effect[OF this, of "''/new''"] show ?thesis
    by (auto simp: demo_backups_def demo_backup_def empty_world_def count_where_def dangling_def blank_def)
qed

end
