(* ===== verification/OffsiteStore.thy ===== *)
theory OffsiteStore
  imports CronStore
begin

text \<open>
  Offsite settings: \<open>internal/store/offsite\<close> (store and validation) and the operations of
  \<open>internal/operations/offsite.go\<close> that apply, remove and read them. A transaction answers
  one schedule entry per statement; its effect appears, all at once, when the commit does.
  The password cipher (\<open>internal/crypto\<close>) and the URL parser are arguments.
\<close>

section \<open>Validation\<close>

record OffsiteSettingsJSON =
  oj_Type :: string
  oj_Bucket :: string
  oj_Endpoint :: "string option"
  oj_Region :: "string option"
  oj_AccessKeyID :: string
  oj_SecretAccessKey :: string
  oj_BucketPath :: "string option"
  oj_EC2IAMRole :: bool

abbreviation TypeS3 :: string where "TypeS3 \<equiv> ''s3''"
abbreviation PlaceholderSecretKey :: string where "PlaceholderSecretKey \<equiv> ''%SAME-AS-BEFORE%''"

definition validateBucketName :: "string \<Rightarrow> goerror option" where
  "validateBucketName bucket =
     (if length bucket < 3 then Some (Errorf0 ''bucket name must be at least 3 characters long'')
      else if length bucket > 63 then Some (Errorf0 ''bucket name must be at most 63 characters long'')
      else if Contains bucket ''..'' \<or> Contains bucket ''.-'' \<or> Contains bucket ''-.''
      then Some (Errorf0 ''bucket name contains invalid character sequences'')
      else if HasPrefix bucket ''-'' \<or> HasSuffix bucket ''-'' \<or> HasPrefix bucket ''.'' \<or> HasSuffix bucket ''.''
      then Some (Errorf0 ''bucket name cannot start or end with hyphen or dot'')
      else None)"

text \<open>\<open>url_Parse\<close> gives the scheme and the host of a parsed endpoint.\<close>

definition validateEndpoint :: "(string \<Rightarrow> (string \<times> string) res) \<Rightarrow> string \<Rightarrow> goerror option" where
  "validateEndpoint url_Parse endpoint =
     (case url_Parse endpoint of
        Inl e \<Rightarrow> Some (wrap ''endpoint must be a valid URL'' e)
      | Inr (scheme, host) \<Rightarrow>
          if scheme \<noteq> ''http'' \<and> scheme \<noteq> ''https''
          then Some (Errorf0 ''endpoint must use http or https scheme'')
          else if host = '''' then Some (Errorf0 ''endpoint must have a valid host'')
          else if Contains host ''example.com'' \<or> Contains host ''example.org''
          then Some (Errorf0 ''endpoint cannot use example domains'')
          else None)"

definition ValidateBucketPath :: "string \<Rightarrow> goerror option" where
  "ValidateBucketPath path =
     (if path = '''' then None
      else if path = ''/'' then None
      else if HasPrefix path ''/''
      then Some (Errorf0 ''bucket path must not start with / (except for root)'')
      else if Contains path ''//''
      then Some (Errorf0 ''bucket path must not contain consecutive slashes'')
      else if \<not> HasSuffix path ''/''
      then Some (Errorf0 ''bucket path must end with /'')
      else case find (\<lambda>part. part \<in> {''.'', ''..'', ''''})
                  (SplitChar (CHR ''/'') (TrimSuffix path ''/'')) of
             None \<Rightarrow> None
           | Some part \<Rightarrow>
               if part = '''' then Some (Errorf0 ''bucket path must not have empty components between slashes'')
               else Some (Errorf0 ''bucket path must not contain . or .. components''))"

definition present_text :: "string option \<Rightarrow> bool" where
  "present_text s \<longleftrightarrow> s \<noteq> None \<and> s \<noteq> Some ''''"

definition ValidateOffsiteConfig ::
  "(string \<Rightarrow> (string \<times> string) res) \<Rightarrow> OffsiteSettingsJSON \<Rightarrow> goerror option" where
  "ValidateOffsiteConfig url_Parse config =
     (if oj_Type config \<noteq> TypeS3 then Some (Errorf0 (''unsupported offsite type: '' @ oj_Type config))
      else if oj_Bucket config = '''' then Some (Errorf0 ''bucket is required'')
      else case validateBucketName (oj_Bucket config) of
        Some e \<Rightarrow> Some (wrap ''invalid bucket name'' e)
      | None \<Rightarrow>
      if \<not> present_text (oj_Endpoint config) \<and> \<not> present_text (oj_Region config)
      then Some (Errorf0 ''either endpoint or region must be provided'')
      else case (if present_text (oj_Endpoint config)
                 then validateEndpoint url_Parse (the (oj_Endpoint config)) else None) of
        Some e \<Rightarrow> Some (wrap ''invalid endpoint'' e)
      | None \<Rightarrow>
      if \<not> oj_EC2IAMRole config \<and> oj_AccessKeyID config = ''''
      then Some (Errorf0 ''access_key_id is required when not using EC2IAMRole'')
      else if \<not> oj_EC2IAMRole config \<and> oj_SecretAccessKey config = ''''
      then Some (Errorf0 ''secret_access_key is required when not using EC2IAMRole'')
      else if present_text (oj_BucketPath config)
      then map_option (wrap ''invalid bucket_path'') (ValidateBucketPath (the (oj_BucketPath config)))
      else None)"

section \<open>The store\<close>

definition Offsite_GetActive :: "world \<Rightarrow> OffsiteSettings option res \<times> world" where
  "Offsite_GetActive w =
     (case sql_query (\<lambda>w. find off_Active (sort_desc off_ID (offsite_settings w))) w of
        (Inl e, w1) \<Rightarrow> (Inl (wrap ''get active offsite settings'' e), w1)
      | (Inr s, w1) \<Rightarrow> (Inr s, w1))"

definition Offsite_GetByID :: "int \<Rightarrow> world \<Rightarrow> OffsiteSettings res \<times> world" where
  "Offsite_GetByID n w =
     (case sql_query (\<lambda>w. find (\<lambda>s. off_ID s = n) (offsite_settings w)) w of
        (Inl e, w1) \<Rightarrow> (Inl (wrap ''get offsite settings by id'' e), w1)
      | (Inr None, w1) \<Rightarrow> (Inl (Errorf0 (''offsite settings with id '' @ Itoa n @ '' not found'')), w1)
      | (Inr (Some s), w1) \<Rightarrow> (Inr s, w1))"

text \<open>A statement of an open transaction: it can fail, and shows nothing before the commit.\<close>

definition tx_step :: "world \<Rightarrow> unit res \<times> world" where
  "tx_step = sql_query (\<lambda>_. ())"

definition redact :: "OffsiteSettings \<Rightarrow> OffsiteSettings" where
  "redact s = s\<lparr>off_Active := False, off_SecretAccessKey := ''REDACTED''\<rparr>"

definition create_effect :: "gotime \<Rightarrow> OffsiteSettings \<Rightarrow> world \<Rightarrow> (world \<times> int) res" where
  "create_effect now s w =
     (let n = offsite_seq w + 1 in
      Inr (w\<lparr>offsite_settings := upd_where off_Active redact (offsite_settings w)
               @ [s\<lparr>off_ID := n, off_Active := True, off_CreatedAt := now, off_UpdatedAt := now\<rparr>],
             offsite_seq := n\<rparr>, n))"

definition Offsite_Create :: "gotime \<Rightarrow> OffsiteSettings \<Rightarrow> world \<Rightarrow> goerror option \<times> world" where
  "Offsite_Create now s w =
     (case tx_step w of
        (Inl e, w1) \<Rightarrow> (Some (wrap ''begin transaction'' e), w1)
      | (Inr _, w1) \<Rightarrow>
     (case tx_step w1 of
        (Inl e, w2) \<Rightarrow> (Some (wrap ''deactivate existing settings'' e), w2)
      | (Inr _, w2) \<Rightarrow>
     (case tx_step w2 of
        (Inl e, w3) \<Rightarrow> (Some (wrap ''insert offsite settings'' e), w3)
      | (Inr _, w3) \<Rightarrow>
     (case sql_exec (create_effect now s) w3 of
        (Inl e, w4) \<Rightarrow> (Some e, w4)
      | (Inr _, w4) \<Rightarrow> (None, w4)))))"

text \<open>The rows with the settings to remove deleted, or redacted when a log refers to them.\<close>

definition remove_effect :: "int \<Rightarrow> int \<Rightarrow> world \<Rightarrow> (world \<times> int) res" where
  "remove_effect activeID logCount w =
     Inr (w\<lparr>offsite_settings :=
             (if logCount = 0 then del_where (\<lambda>s. off_ID s = activeID) (offsite_settings w)
              else upd_where (\<lambda>s. off_ID s = activeID) redact (offsite_settings w))\<rparr>, 0)"

definition Offsite_Remove :: "world \<Rightarrow> goerror option \<times> world" where
  "Offsite_Remove w =
     (case tx_step w of
        (Inl e, w1) \<Rightarrow> (Some (wrap ''begin transaction'' e), w1)
      | (Inr _, w1) \<Rightarrow>
     (case sql_query (\<lambda>w. find off_Active (offsite_settings w)) w1 of
        (Inl e, w2) \<Rightarrow> (Some (wrap ''get active settings'' e), w2)
      | (Inr None, w2) \<Rightarrow> (Some (Errorf0 ''no active offsite configuration found''), w2)
      | (Inr (Some s), w2) \<Rightarrow>
     (case sql_query (\<lambda>w. count_where (\<lambda>l. ol_OffsiteSettingsID l = off_ID s) (offsite_logs w)) w2 of
        (Inl e, w3) \<Rightarrow> (Some (wrap ''count logs'' e), w3)
      | (Inr logCount, w3) \<Rightarrow>
     (case tx_step w3 of
        (Inl e, w4) \<Rightarrow> (Some (wrap (if logCount = 0 then ''delete offsite settings''
                                      else ''deactivate offsite settings'') e), w4)
      | (Inr _, w4) \<Rightarrow>
     (case sql_exec (remove_effect (off_ID s) logCount) w4 of
        (Inl e, w5) \<Rightarrow> (Some e, w5)
      | (Inr _, w5) \<Rightarrow> (None, w5))))))"

definition Offsite_AddLog :: "gotime \<Rightarrow> OffsiteLog \<Rightarrow> world \<Rightarrow> goerror option \<times> world" where
  "Offsite_AddLog now l w =
     (case sql_exec (\<lambda>w. let n = offsite_log_seq w + 1 in
              Inr (w\<lparr>offsite_logs := offsite_logs w @ [l\<lparr>ol_ID := n, ol_CreatedAt := now\<rparr>],
                     offsite_log_seq := n\<rparr>, n)) w of
        (Inl e, w1) \<Rightarrow> (Some (wrap ''insert offsite log'' e), w1)
      | (Inr _, w1) \<Rightarrow> (None, w1))"

definition Offsite_GetLogs :: "int \<Rightarrow> world \<Rightarrow> OffsiteLog list res \<times> world" where
  "Offsite_GetLogs limit0 w =
     (let limit = (if limit0 \<le> 0 \<or> limit0 > 200 then 50 else limit0) in
      case sql_query (\<lambda>w. take (nat limit) (sort_desc ol_CreatedAt (offsite_logs w))) w of
        (Inl e, w1) \<Rightarrow> (Inl (wrap ''get offsite logs'' e), w1)
      | (Inr l, w1) \<Rightarrow> (Inr l, w1))"

definition Offsite_ListAllSecrets :: "world \<Rightarrow> (int \<times> string) list res \<times> world" where
  "Offsite_ListAllSecrets w =
     (case sql_query (\<lambda>w. map (\<lambda>s. (off_ID s, off_SecretAccessKey s)) (offsite_settings w)) w of
        (Inl e, w1) \<Rightarrow> (Inl (wrap ''list offsite secrets'' e), w1)
      | (Inr l, w1) \<Rightarrow> (Inr l, w1))"

definition Offsite_UpdateSecretAccessKey :: "int \<Rightarrow> string \<Rightarrow> world \<Rightarrow> goerror option \<times> world" where
  "Offsite_UpdateSecretAccessKey n encryptedSecret w =
     (case sql_exec (\<lambda>w. Inr (w\<lparr>offsite_settings :=
              upd_where (\<lambda>s. off_ID s = n) (\<lambda>s. s\<lparr>off_SecretAccessKey := encryptedSecret\<rparr>)
                (offsite_settings w)\<rparr>, count_where (\<lambda>s. off_ID s = n) (offsite_settings w))) w of
        (Inl e, w1) \<Rightarrow> (Some (wrap ''update offsite secret'' e), w1)
      | (Inr k, w1) \<Rightarrow>
          if k = 0 then (Some (Errorf0 (''offsite settings row '' @ Itoa n @ '' not found'')), w1)
          else (None, w1))"

definition Offsite_GetPreviousSecretKey :: "world \<Rightarrow> string res \<times> world" where
  "Offsite_GetPreviousSecretKey w =
     (case sql_query (\<lambda>w. find (\<lambda>s. off_Active s \<and> off_SecretAccessKey s \<noteq> ''REDACTED'')
                             (sort_desc off_ID (offsite_settings w))) w of
        (Inl e, w1) \<Rightarrow> (Inl (wrap ''get previous secret key'' e), w1)
      | (Inr None, w1) \<Rightarrow> (Inl (Errorf0 ''no active configuration with valid secret key found''), w1)
      | (Inr (Some s), w1) \<Rightarrow> (Inr (off_SecretAccessKey s), w1))"

definition Offsite_CleanupOldLogs :: "gotime \<Rightarrow> int \<Rightarrow> world \<Rightarrow> int res \<times> world" where
  "Offsite_CleanupOldLogs now olderThan w =
     (let p = (\<lambda>l. ol_CreatedAt l < now + wrap64 (- olderThan)) in
      case sql_exec (\<lambda>w. Inr (w\<lparr>offsite_logs := del_where p (offsite_logs w)\<rparr>,
                              count_where p (offsite_logs w))) w of
        (Inl e, w1) \<Rightarrow> (Inl (wrap ''cleanup old offsite logs'' e), w1)
      | (Inr n, w1) \<Rightarrow> (Inr n, w1))"

section \<open>The operations\<close>

definition OffsiteInfo :: "world \<Rightarrow> OffsiteSettings option res \<times> world" where
  "OffsiteInfo w =
     (case Offsite_GetActive w of
        (Inl e, w1) \<Rightarrow> (Inl (wrap ''get active offsite settings'' e), w1)
      | (Inr None, w1) \<Rightarrow> (Inr None, w1)
      | (Inr (Some s), w1) \<Rightarrow> (Inr (Some (s\<lparr>off_SecretAccessKey := ''''\<rparr>)), w1))"

definition OffsiteGet :: "world \<Rightarrow> OffsiteSettingsJSON res \<times> world" where
  "OffsiteGet w =
     (case Offsite_GetActive w of
        (Inl e, w1) \<Rightarrow> (Inl (wrap ''get active offsite settings'' e), w1)
      | (Inr None, w1) \<Rightarrow>
          (Inr \<lparr>oj_Type = TypeS3, oj_Bucket = ''my-backup-bucket'', oj_Endpoint = Some '''',
                oj_Region = Some ''us-east-1'', oj_AccessKeyID = ''YOUR_ACCESS_KEY_ID'',
                oj_SecretAccessKey = ''YOUR_SECRET_ACCESS_KEY'',
                oj_BucketPath = Some ''oddk-backups/'', oj_EC2IAMRole = False\<rparr>, w1)
      | (Inr (Some s), w1) \<Rightarrow>
          (Inr \<lparr>oj_Type = off_Type s, oj_Bucket = off_Bucket s, oj_Endpoint = off_Endpoint s,
                oj_Region = off_Region s, oj_AccessKeyID = off_AccessKeyID s,
                oj_SecretAccessKey = (if off_SecretAccessKey s = '''' then '''' else PlaceholderSecretKey),
                oj_BucketPath = off_BucketPath s, oj_EC2IAMRole = off_EC2IAMRole s\<rparr>, w1))"

text \<open>\<open>crypto.EncryptPassword\<close> and \<open>DecryptPassword\<close> under the daemon's master key.\<close>

record cipher =
  EncryptPassword :: "string \<Rightarrow> string res"
  DecryptPassword :: "string \<Rightarrow> string res"

definition apply_secret :: "cipher \<Rightarrow> string \<Rightarrow> world \<Rightarrow> string res \<times> world" where
  "apply_secret c secretKey w =
     (if secretKey = PlaceholderSecretKey then
        (case Offsite_GetPreviousSecretKey w of
           (Inl e, w1) \<Rightarrow> (Inl (wrap ''no previous secret key available'' e), w1)
         | (Inr previousKey, w1) \<Rightarrow>
             if previousKey = '''' then (Inr '''', w1)
             else (case DecryptPassword c previousKey of
                     Inl e \<Rightarrow> (Inl (wrap ''decrypt previous secret key'' e), w1)
                   | Inr k \<Rightarrow> (case EncryptPassword c k of
                                 Inl e \<Rightarrow> (Inl (wrap ''encrypt secret key'' e), w1)
                               | Inr k' \<Rightarrow> (Inr k', w1))))
      else if secretKey = '''' then (Inr '''', w)
      else (case EncryptPassword c secretKey of
              Inl e \<Rightarrow> (Inl (wrap ''encrypt secret key'' e), w)
            | Inr k' \<Rightarrow> (Inr k', w)))"

text \<open>\<open>OffsiteApply\<close> on the parsed configuration.\<close>

definition OffsiteApply ::
  "(string \<Rightarrow> (string \<times> string) res) \<Rightarrow> cipher \<Rightarrow> gotime \<Rightarrow> OffsiteSettingsJSON \<Rightarrow> world
     \<Rightarrow> goerror option \<times> world" where
  "OffsiteApply url_Parse c now config w =
     (case ValidateOffsiteConfig url_Parse config of
        Some e \<Rightarrow> (Some (wrap ''configuration validation failed'' e), w)
      | None \<Rightarrow>
     (case apply_secret c (oj_SecretAccessKey config) w of
        (Inl e, w1) \<Rightarrow> (Some e, w1)
      | (Inr encryptedKey, w1) \<Rightarrow>
          let bucketPath = (if oj_BucketPath config = Some ''/'' then Some '''' else oj_BucketPath config);
              s = \<lparr>off_ID = 0, off_Active = False, off_Type = oj_Type config,
                   off_Bucket = oj_Bucket config, off_Endpoint = oj_Endpoint config,
                   off_Region = oj_Region config, off_AccessKeyID = oj_AccessKeyID config,
                   off_SecretAccessKey = encryptedKey, off_BucketPath = bucketPath,
                   off_EC2IAMRole = oj_EC2IAMRole config, off_CreatedAt = 0, off_UpdatedAt = 0\<rparr>
          in (case Offsite_Create now s w1 of
                (Some e, w2) \<Rightarrow> (Some (wrap ''create offsite settings'' e), w2)
              | (None, w2) \<Rightarrow> (None, w2))))"

definition OffsiteRemove :: "world \<Rightarrow> goerror option \<times> world" where
  "OffsiteRemove w =
     (case Offsite_Remove w of
        (Some e, w1) \<Rightarrow> (Some (wrap ''remove offsite settings'' e), w1)
      | (None, w1) \<Rightarrow> (None, w1))"

definition GetActiveOffsiteSettingsDecrypted ::
  "cipher \<Rightarrow> world \<Rightarrow> OffsiteSettings option res \<times> world" where
  "GetActiveOffsiteSettingsDecrypted c w =
     (case Offsite_GetActive w of
        (Inl e, w1) \<Rightarrow> (Inl (wrap ''get active offsite settings'' e), w1)
      | (Inr None, w1) \<Rightarrow> (Inr None, w1)
      | (Inr (Some s), w1) \<Rightarrow>
          if \<not> off_EC2IAMRole s \<and> off_SecretAccessKey s \<noteq> ''''
          then (case DecryptPassword c (off_SecretAccessKey s) of
                  Inl e \<Rightarrow> (Inl (wrap ''decrypt offsite secret key'' e), w1)
                | Inr k \<Rightarrow> (Inr (Some (s\<lparr>off_SecretAccessKey := k\<rparr>)), w1))
          else (Inr (Some s), w1))"

lemma Offsite_GetActive_same: "Offsite_GetActive w = (r, w') \<Longrightarrow> same_but_io w w'"
  by (auto simp: Offsite_GetActive_def intro: sql_query_same split: prod.splits sum.splits)

lemma GetActiveDecrypted_same:
  "GetActiveOffsiteSettingsDecrypted c w = (r, w') \<Longrightarrow> same_but_io w w'"
  by (auto simp: GetActiveOffsiteSettingsDecrypted_def intro: Offsite_GetActive_same
      split: prod.splits sum.splits option.splits if_splits)

section \<open>The table invariant\<close>

text \<open>One active row at most, unique ids from the sequence, and no secret outside it.\<close>

definition offsite_ok :: "world \<Rightarrow> bool" where
  "offsite_ok w \<longleftrightarrow>
     distinct (map off_ID (offsite_settings w))
     \<and> (\<forall>s \<in> set (offsite_settings w). off_ID s \<le> offsite_seq w
          \<and> (\<not> off_Active s \<longrightarrow> off_SecretAccessKey s = ''REDACTED''))
     \<and> count_where off_Active (offsite_settings w) \<le> 1"

interpretation off: table_invariant offsite_ok
  by unfold_locales (simp add: offsite_ok_def same_but_io_fields)

lemma redact_sel [simp]:
  "off_Active (redact s) = False" "off_ID (redact s) = off_ID s"
  "off_SecretAccessKey (redact s) = ''REDACTED''"
  by (simp_all add: redact_def)

lemma upd_redact_none_active: "filter off_Active (upd_where off_Active redact l) = []"
  unfolding upd_where_def by (induction l) auto

lemma create_effect_ok: "offsite_ok w \<Longrightarrow> create_effect now s w = Inr (w', n) \<Longrightarrow> offsite_ok w'"
proof -
  assume ok: "offsite_ok w" and eff: "create_effect now s w = Inr (w', n)"
  let ?l = "upd_where off_Active redact (offsite_settings w)"
  let ?n = "offsite_seq w + 1"
  let ?new = "s\<lparr>off_ID := ?n, off_Active := True, off_CreatedAt := now, off_UpdatedAt := now\<rparr>"
  have w': "offsite_settings w' = ?l @ [?new]" "offsite_seq w' = ?n"
    using eff by (auto simp: create_effect_def Let_def)
  have ids: "map off_ID ?l = map off_ID (offsite_settings w)"
    by (rule map_upd_where) simp
  have le: "off_ID x \<le> offsite_seq w" "off_SecretAccessKey x = ''REDACTED''" if mem: "x \<in> set ?l" for x
  proof -
    obtain y where "y \<in> set (offsite_settings w)" "x = (if off_Active y then redact y else y)"
      using mem unfolding in_upd_where by blast
    then show "off_ID x \<le> offsite_seq w" "off_SecretAccessKey x = ''REDACTED''"
      using ok by (simp_all add: offsite_ok_def)
  qed
  have new: "?n \<notin> off_ID ` set ?l" using le(1) by force
  have rows: "\<forall>x \<in> set ?l. off_ID x \<le> ?n \<and> off_SecretAccessKey x = ''REDACTED''"
    using le by force
  have "?n \<notin> set (map off_ID ?l)" using new by simp
  then have "distinct (map off_ID (?l @ [?new]))"
    using ok unfolding map_append distinct_append ids by (simp add: offsite_ok_def)
  moreover have "\<forall>x \<in> set (?l @ [?new]). off_ID x \<le> ?n \<and> (\<not> off_Active x \<longrightarrow> off_SecretAccessKey x = ''REDACTED'')"
    using rows by simp
  moreover have "count_where off_Active (?l @ [?new]) \<le> 1"
    using upd_redact_none_active[of "offsite_settings w"] by (simp add: count_where_def)
  ultimately show "offsite_ok w'" unfolding offsite_ok_def w' by blast
qed

lemma filter_upd_le:
  "(\<And>x. p (f x) \<Longrightarrow> p x) \<Longrightarrow> count_where p (upd_where q f l) \<le> count_where p l"
  unfolding count_where_def upd_where_def by (induction l) auto

lemma count_del_le: "count_where p (del_where q l) \<le> count_where p l"
  unfolding count_where_def del_where_def by (induction l) auto

lemma remove_effect_ok: "offsite_ok w \<Longrightarrow> remove_effect a k w = Inr (w', n) \<Longrightarrow> offsite_ok w'"
  using count_del_le[of off_Active "\<lambda>s. off_ID s = a" "offsite_settings w"]
    filter_upd_le[of off_Active redact "\<lambda>s. off_ID s = a" "offsite_settings w"]
  by (auto simp: offsite_ok_def remove_effect_def distinct_del_where map_upd_where in_upd_where
      split: if_splits)

lemma tx_step_keeps: "tx_step w = (r, w') \<Longrightarrow> offsite_ok w \<Longrightarrow> offsite_ok w'"
  unfolding tx_step_def by (rule off.query_keeps)

lemma create_commit_keeps:
  "sql_exec (create_effect now s) w = (r, w') \<Longrightarrow> offsite_ok w \<Longrightarrow> offsite_ok w'"
  by (erule (1) off.exec_keeps) (erule (1) create_effect_ok)

lemma remove_commit_keeps:
  "sql_exec (remove_effect a k) w = (r, w') \<Longrightarrow> offsite_ok w \<Longrightarrow> offsite_ok w'"
  by (erule (1) off.exec_keeps) (erule (1) remove_effect_ok)

lemma Offsite_Create_ok: "Offsite_Create now s w = (r, w') \<Longrightarrow> offsite_ok w \<Longrightarrow> offsite_ok w'"
  unfolding Offsite_Create_def
  by (auto split: prod.splits sum.splits dest: tx_step_keeps create_commit_keeps)

lemma Offsite_Remove_ok: "Offsite_Remove w = (r, w') \<Longrightarrow> offsite_ok w \<Longrightarrow> offsite_ok w'"
  unfolding Offsite_Remove_def
  by (auto split: prod.splits sum.splits option.splits
      dest!: tx_step_keeps remove_commit_keeps off.query_keeps)

text \<open>
  C13. Whatever configurations are applied and removed, and whatever the database does in
  between, at most one row is active, ids stay unique, and a deactivated row keeps no
  secret.
\<close>

theorem offsite_invariant:
  assumes "offsite_ok w"
  shows "offsite_ok (snd (OffsiteApply url c now config w)) \<and> offsite_ok (snd (OffsiteRemove w))"
proof (intro conjI)
  have sec: "offsite_ok w1" if "apply_secret c k w = (r, w1)" for k r w1
    using that assms
    by (auto simp: apply_secret_def Offsite_GetPreviousSecretKey_def dest: off.query_keeps
        split: prod.splits sum.splits option.splits if_splits)
  show "offsite_ok (snd (OffsiteApply url c now config w))"
    using assms
    by (auto simp: OffsiteApply_def Let_def split: prod.splits sum.splits option.splits
        dest!: sec dest: Offsite_Create_ok)
  show "offsite_ok (snd (OffsiteRemove w))"
    using assms by (auto simp: OffsiteRemove_def split: prod.splits option.splits dest: Offsite_Remove_ok)
qed

definition demo_config :: "string \<Rightarrow> OffsiteSettingsJSON" where
  "demo_config secret =
     \<lparr>oj_Type = ''s3'', oj_Bucket = ''bkt'', oj_Endpoint = None, oj_Region = Some ''eu'',
      oj_AccessKeyID = ''AK'', oj_SecretAccessKey = secret, oj_BucketPath = Some ''/'',
      oj_EC2IAMRole = False\<rparr>"

definition demo_cipher :: cipher where
  "demo_cipher = \<lparr>EncryptPassword = (\<lambda>k. Inr (CHR ''e'' # k)),
                  DecryptPassword = (\<lambda>k. case k of [] \<Rightarrow> Inl (Errorf0 ''short'') | _ # r \<Rightarrow> Inr r)\<rparr>"

abbreviation no_url :: "string \<Rightarrow> (string \<times> string) res" where
  "no_url \<equiv> (\<lambda>_. Inl (Errorf0 ''url''))"

theorem offsite_invariant_witness:
  "offsite_ok (snd (OffsiteApply no_url demo_cipher 5 (demo_config ''k'') empty_world))
   \<and> offsite_ok (snd (OffsiteRemove empty_world))"
  by (rule offsite_invariant) (simp add: offsite_ok_def empty_world_def count_where_def)

section \<open>Applied configurations are the ones in use\<close>

text \<open>What the cipher promises: a ciphertext is not empty and decrypts to its plaintext.\<close>

definition cipher_inverse :: "cipher \<Rightarrow> bool" where
  "cipher_inverse c \<longleftrightarrow>
     (\<forall>k k'. EncryptPassword c k = Inr k' \<longrightarrow> k' \<noteq> '''' \<and> DecryptPassword c k' = Inr k)"

lemma create_effect_active:
  assumes "create_effect now s w = Inr (w', n)"
  shows "find off_Active (sort_desc off_ID (offsite_settings w'))
     = Some (s\<lparr>off_ID := offsite_seq w + 1, off_Active := True, off_CreatedAt := now, off_UpdatedAt := now\<rparr>)"
proof -
  let ?l = "upd_where off_Active redact (offsite_settings w)"
  let ?new = "s\<lparr>off_ID := offsite_seq w + 1, off_Active := True, off_CreatedAt := now, off_UpdatedAt := now\<rparr>"
  have "\<forall>x \<in> set ?l. \<not> off_Active x"
    using upd_redact_none_active[of "offsite_settings w"] by (auto simp: filter_empty_conv)
  moreover have "offsite_settings w' = ?l @ [?new]"
    using assms by (auto simp: create_effect_def Let_def)
  ultimately show ?thesis by (intro find_unique) auto
qed

lemma Offsite_Create_calm:
  assumes "io_schedule w = []"
  shows "\<exists>w'. Offsite_Create now s w = (None, w') \<and> io_schedule w' = []
     \<and> (\<exists>n. create_effect now s w = Inr (w', n))"
  using assms by (simp add: Offsite_Create_def tx_step_def calm_primitives create_effect_def Let_def)

text \<open>The row an applied configuration becomes, with the given secret.\<close>

definition applied_settings :: "int \<Rightarrow> gotime \<Rightarrow> OffsiteSettingsJSON \<Rightarrow> string \<Rightarrow> OffsiteSettings" where
  "applied_settings n now config secret =
     \<lparr>off_ID = n, off_Active = True, off_Type = oj_Type config, off_Bucket = oj_Bucket config,
      off_Endpoint = oj_Endpoint config, off_Region = oj_Region config, off_AccessKeyID = oj_AccessKeyID config,
      off_SecretAccessKey = secret,
      off_BucketPath = (if oj_BucketPath config = Some ''/'' then Some '''' else oj_BucketPath config),
      off_EC2IAMRole = oj_EC2IAMRole config, off_CreatedAt = now, off_UpdatedAt = now\<rparr>"

lemma OffsiteApply_calm:
  assumes "io_schedule w = []" "OffsiteApply url c now config w = (None, w')"
  obtains k where "apply_secret c (oj_SecretAccessKey config) w = (Inr k, w)"
    and "GetActiveOffsiteSettingsDecrypted c w' =
           (if \<not> oj_EC2IAMRole config \<and> k \<noteq> ''''
            then case DecryptPassword c k of
                   Inl e \<Rightarrow> (Inl (wrap ''decrypt offsite secret key'' e), w')
                 | Inr p \<Rightarrow> (Inr (Some (applied_settings (offsite_seq w + 1) now config p)), w')
            else (Inr (Some (applied_settings (offsite_seq w + 1) now config k)), w'))"
proof -
  obtain r w1 where sec: "apply_secret c (oj_SecretAccessKey config) w = (r, w1)" by fastforce
  have w1: "w1 = w"
    using sec assms(1) by (auto simp: apply_secret_def Offsite_GetPreviousSecretKey_def calm_primitives
        split: sum.splits option.splits if_splits)
  obtain k where k: "r = Inr k"
    using sec assms(2) by (auto simp: OffsiteApply_def split: option.splits sum.splits)
  define s0 where "s0 = \<lparr>off_ID = 0, off_Active = False, off_Type = oj_Type config,
       off_Bucket = oj_Bucket config, off_Endpoint = oj_Endpoint config,
       off_Region = oj_Region config, off_AccessKeyID = oj_AccessKeyID config,
       off_SecretAccessKey = k,
       off_BucketPath = (if oj_BucketPath config = Some ''/'' then Some '''' else oj_BucketPath config),
       off_EC2IAMRole = oj_EC2IAMRole config, off_CreatedAt = 0, off_UpdatedAt = 0\<rparr>"
  obtain w2 n where cr: "Offsite_Create now s0 w = (None, w2)" "io_schedule w2 = []"
    "create_effect now s0 w = Inr (w2, n)"
    using Offsite_Create_calm[OF assms(1)] by blast
  have "w' = w2"
    using assms(2) sec k w1 cr(1)
    by (simp add: OffsiteApply_def Let_def s0_def split: option.splits)
  define s1 where "s1 = applied_settings (offsite_seq w + 1) now config k"
  have "s1 = s0\<lparr>off_ID := offsite_seq w + 1, off_Active := True, off_CreatedAt := now, off_UpdatedAt := now\<rparr>"
    by (simp add: s1_def s0_def applied_settings_def)
  then have "find off_Active (sort_desc off_ID (offsite_settings w')) = Some s1"
    using create_effect_active[OF cr(3)] \<open>w' = w2\<close> by simp
  moreover have "off_EC2IAMRole s1 = oj_EC2IAMRole config" "off_SecretAccessKey s1 = k"
    "\<And>p. s1\<lparr>off_SecretAccessKey := p\<rparr> = applied_settings (offsite_seq w + 1) now config p"
    by (simp_all add: s1_def applied_settings_def)
  ultimately show thesis
    using that[of k] sec k w1 cr(2) \<open>w' = w2\<close> s1_def
    by (simp add: GetActiveOffsiteSettingsDecrypted_def Offsite_GetActive_def calm_primitives
        cong: if_cong sum.case_cong)
qed

text \<open>
  C14. A configuration that was applied is the one the next operation uses, whole: type, bucket,
  endpoint, region, access key and role are the ones supplied, a bucket path of \<open>/\<close> is stored as
  the root and any other as it is, and the row is active under a fresh id. Unless the machine's
  role is used, the secret is the plaintext of the one supplied, and applying with the placeholder
  keeps the secret that was in use before.
\<close>

theorem OffsiteApply_then_use:
  assumes "io_schedule w = []" "cipher_inverse c"
    and "OffsiteApply url c now config w = (None, w')"
  shows "\<exists>secret. fst (GetActiveOffsiteSettingsDecrypted c w') = Inr (Some
       \<lparr>off_ID = offsite_seq w + 1, off_Active = True, off_Type = oj_Type config, off_Bucket = oj_Bucket config,
        off_Endpoint = oj_Endpoint config, off_Region = oj_Region config, off_AccessKeyID = oj_AccessKeyID config,
        off_SecretAccessKey = secret,
        off_BucketPath = (if oj_BucketPath config = Some ''/'' then Some '''' else oj_BucketPath config),
        off_EC2IAMRole = oj_EC2IAMRole config, off_CreatedAt = now, off_UpdatedAt = now\<rparr>)
     \<and> (oj_EC2IAMRole config
        \<or> (if oj_SecretAccessKey config \<noteq> PlaceholderSecretKey
           then secret = oj_SecretAccessKey config
           else \<exists>k. fst (Offsite_GetPreviousSecretKey w) = Inr k
                  \<and> (if k = '''' then secret = '''' else DecryptPassword c k = Inr secret)))"
proof -
  obtain k where sec: "apply_secret c (oj_SecretAccessKey config) w = (Inr k, w)"
    and act: "GetActiveOffsiteSettingsDecrypted c w' =
           (if \<not> oj_EC2IAMRole config \<and> k \<noteq> ''''
            then case DecryptPassword c k of
                   Inl e \<Rightarrow> (Inl (wrap ''decrypt offsite secret key'' e), w')
                 | Inr p \<Rightarrow> (Inr (Some (applied_settings (offsite_seq w + 1) now config p)), w')
            else (Inr (Some (applied_settings (offsite_seq w + 1) now config k)), w'))"
    by (rule OffsiteApply_calm[OF assms(1,3)])
  have inv: "k' \<noteq> '''' \<and> DecryptPassword c k' = Inr p" if "EncryptPassword c p = Inr k'" for p k'
    using that assms(2) by (simp add: cipher_inverse_def)
  have plain: "fst (GetActiveOffsiteSettingsDecrypted c w') = Inr (Some (applied_settings (offsite_seq w + 1) now config k))"
    if "k = '''' \<or> oj_EC2IAMRole config"
    using act that by auto
  have full: "fst (GetActiveOffsiteSettingsDecrypted c w') = Inr (Some (applied_settings (offsite_seq w + 1) now config p))"
    if "EncryptPassword c p = Inr k" "\<not> oj_EC2IAMRole config" for p
    using act inv[OF that(1)] that(2) by simp
  consider (role) "oj_EC2IAMRole config"
    | (none) "k = ''''" "if oj_SecretAccessKey config = PlaceholderSecretKey then fst (Offsite_GetPreviousSecretKey w) = Inr '''' else oj_SecretAccessKey config = ''''"
    | (new) "oj_SecretAccessKey config \<noteq> PlaceholderSecretKey" "EncryptPassword c (oj_SecretAccessKey config) = Inr k" "\<not> oj_EC2IAMRole config"
    | (kept) k0 p where "oj_SecretAccessKey config = PlaceholderSecretKey" "fst (Offsite_GetPreviousSecretKey w) = Inr k0" "k0 \<noteq> ''''"
        "DecryptPassword c k0 = Inr p" "EncryptPassword c p = Inr k" "\<not> oj_EC2IAMRole config"
    using sec by (auto simp: apply_secret_def split: if_splits sum.splits prod.splits)
  then show ?thesis
  proof cases
    case role
    then show ?thesis using plain by (auto simp: applied_settings_def)
  next
    case none
    then show ?thesis using plain by (intro exI[of _ "''''"]) (auto simp: applied_settings_def split: if_splits)
  next
    case new
    then show ?thesis using full[OF new(2,3)] by (auto simp: applied_settings_def)
  next
    case kept
    then show ?thesis using full[OF kept(5,6)] by (intro exI[of _ p]) (simp add: applied_settings_def)
  qed
qed

theorem OffsiteApply_then_use_witness:
  "\<exists>s. fst (GetActiveOffsiteSettingsDecrypted demo_cipher
          (snd (OffsiteApply no_url demo_cipher 5 (demo_config ''k'') empty_world))) = Inr (Some s)
     \<and> off_Bucket s = ''bkt'' \<and> off_AccessKeyID s = oj_AccessKeyID (demo_config ''k'') \<and> off_SecretAccessKey s = ''k''"
proof -
  have "OffsiteApply no_url demo_cipher 5 (demo_config ''k'') empty_world
      = (None, snd (OffsiteApply no_url demo_cipher 5 (demo_config ''k'') empty_world))"
    by (simp add: OffsiteApply_def ValidateOffsiteConfig_def validateBucketName_def HasPrefix_def
        HasSuffix_def present_text_def ValidateBucketPath_def demo_config_def apply_secret_def
        demo_cipher_def Offsite_Create_def tx_step_def calm_primitives empty_world_def
        create_effect_def Let_def)
  moreover have "io_schedule empty_world = []" "cipher_inverse demo_cipher"
    "\<not> oj_EC2IAMRole (demo_config ''k'')"
    by (simp_all add: empty_world_def cipher_inverse_def demo_cipher_def demo_config_def)
  ultimately show ?thesis
    using OffsiteApply_then_use[of empty_world demo_cipher no_url 5 "demo_config ''k''"]
    by (fastforce simp: demo_config_def)
qed

end
