(* ===== verification/S3Client.thy ===== *)
theory S3Client
  imports SnapshotStore BackupStore OffsiteStore
begin

text \<open>
  The S3 client of \<open>internal/services/s3/client.go\<close> over the three requests of the world,
  the location format of \<open>internal/operations/s3_location.go\<close>, and the two uploads
  (\<open>snapshot_upload.go\<close>, \<open>rdbms_upload_backup.go\<close>). An object is its size; opening a file,
  seeking in it and loading the AWS configuration are calls that may fail.
\<close>

section \<open>Calls and dates\<close>

definition sys_call :: "string \<Rightarrow> world \<Rightarrow> unit res \<times> world" where
  "sys_call what w =
     (case next_io w of (oc, w1) \<Rightarrow>
        if oc = Done then (Inr (), w1) else (Inl (DriverError what), w1))"

lemma sys_call_same: "sys_call m w = (r, w') \<Longrightarrow> same_but_io w w'"
  by (auto simp: sys_call_def next_io_same split: prod.splits if_splits)

lemma sys_call_calm: "io_schedule w = [] \<Longrightarrow> sys_call m w = (Inr (), w)"
  by (simp add: sys_call_def next_io_calm)

text \<open>\<open>Format("2006-01-02")\<close>: the civil date of an instant (era of 400 years, from March).\<close>

definition pad :: "nat \<Rightarrow> int \<Rightarrow> string" where
  "pad n i = (let s = Itoa i in replicate (n - length s) (CHR ''0'') @ s)"

definition format_date :: "gotime \<Rightarrow> string" where
  "format_date t =
     (let z = t div (24 * ns_hour) + 306;
          era = z div 146097;
          doe = z mod 146097;
          yoe = (doe - doe div 1460 + doe div 36524 - doe div 146096) div 365;
          doy = doe - (365 * yoe + yoe div 4 - yoe div 100);
          mp = (5 * doy + 2) div 153;
          d = doy - (153 * mp + 2) div 5 + 1;
          m = (if mp < 10 then mp + 3 else mp - 9);
          y = yoe + era * 400 + (if m \<le> 2 then 1 else 0)
      in pad 4 y @ ''-'' @ pad 2 m @ ''-'' @ pad 2 d)"

section \<open>The client\<close>

record Client =
  client_bucket :: string
  client_bucketPath :: string

record Target =
  tg_Bucket :: string
  tg_BucketPath :: string
  tg_Endpoint :: string
  tg_Region :: string

definition NewClientFromConfig :: "Target \<Rightarrow> Client" where
  "NewClientFromConfig t =
     (let bucketPath = TrimSuffix (tg_BucketPath t) ''/''
      in \<lparr>client_bucket = tg_Bucket t,
          client_bucketPath = (if bucketPath \<noteq> '''' then bucketPath @ ''/'' else bucketPath)\<rparr>)"

definition NewClient :: "OffsiteSettings \<Rightarrow> world \<Rightarrow> Client res \<times> world" where
  "NewClient s w =
     (if off_Type s \<noteq> TypeS3 then (Inl (Errorf0 (''unsupported offsite type: '' @ off_Type s)), w)
      else case sys_call ''aws config'' w of
             (Inl e, w1) \<Rightarrow> (Inl (wrap ''load AWS config'' e), w1)
           | (Inr _, w1) \<Rightarrow>
               (Inr (NewClientFromConfig
                  \<lparr>tg_Bucket = off_Bucket s,
                   tg_BucketPath = (case off_BucketPath s of None \<Rightarrow> '''' | Some p \<Rightarrow> p),
                   tg_Endpoint = (case off_Endpoint s of None \<Rightarrow> '''' | Some e \<Rightarrow> e),
                   tg_Region = (if present_text (off_Region s) then the (off_Region s)
                                else ''us-east-1'')\<rparr>), w1))"

definition UploadFile :: "Client \<Rightarrow> string \<Rightarrow> int \<Rightarrow> world \<Rightarrow> goerror option \<times> world" where
  "UploadFile c key sz w =
     (case sys_call ''seek'' w of
        (Inl e, w1) \<Rightarrow> (Some (wrap ''get upload position'' e), w1)
      | (Inr _, w1) \<Rightarrow>
     (case sys_call ''seek'' w1 of
        (Inl e, w2) \<Rightarrow> (Some (wrap ''get upload size'' e), w2)
      | (Inr _, w2) \<Rightarrow>
     (case sys_call ''seek'' w2 of
        (Inl e, w3) \<Rightarrow> (Some (wrap ''restore upload position'' e), w3)
      | (Inr _, w3) \<Rightarrow>
     (case s3_put (client_bucket c) (client_bucketPath c @ key) sz w3 of
        (Some e, w4) \<Rightarrow> (Some (wrap ''upload to S3'' e), w4)
      | (None, w4) \<Rightarrow> (None, w4)))))"

definition DeleteFile :: "Client \<Rightarrow> string \<Rightarrow> world \<Rightarrow> goerror option \<times> world" where
  "DeleteFile c key w =
     (case s3_delete (client_bucket c) (client_bucketPath c @ key) w of
        (Some e, w1) \<Rightarrow> (Some (wrap ''delete from S3'' e), w1)
      | (None, w1) \<Rightarrow> (None, w1))"

definition FileExists :: "Client \<Rightarrow> string \<Rightarrow> world \<Rightarrow> bool res \<times> world" where
  "FileExists c key w =
     (case s3_head (client_bucket c) (client_bucketPath c @ key) w of
        (Inl e, w1) \<Rightarrow> (Inl (wrap ''check S3 object existence'' e), w1)
      | (Inr b, w1) \<Rightarrow> (Inr b, w1))"

definition GetBucketPath :: "Client \<Rightarrow> string" where
  "GetBucketPath c = client_bucketPath c"

definition RelativeKey :: "Client \<Rightarrow> string \<Rightarrow> string" where
  "RelativeKey c fullKey =
     (if client_bucketPath c = '''' then fullKey
      else case CutPrefix fullKey (client_bucketPath c) of
             Some trimmed \<Rightarrow> trimmed
           | None \<Rightarrow> fullKey)"

definition ParseS3BucketURI :: "string \<Rightarrow> (string \<times> string) res" where
  "ParseS3BucketURI uri =
     (case CutPrefix uri ''s3://'' of
        None \<Rightarrow> Inl (Errorf0 (''not an s3:// URI: '' @ uri))
      | Some rest \<Rightarrow>
          (let (bucket, prefix) = (case CutChar (CHR ''/'') rest of
                                     Some (a, b) \<Rightarrow> (a, b) | None \<Rightarrow> (rest, ''''))
           in if bucket = '''' then Inl (Errorf0 (''no bucket in '' @ uri)) else Inr (bucket, prefix)))"

definition ParseS3URI :: "string \<Rightarrow> (string \<times> string) res" where
  "ParseS3URI uri =
     (case ParseS3BucketURI uri of
        Inl e \<Rightarrow> Inl e
      | Inr (bucket, key) \<Rightarrow>
          if key = '''' then Inl (Errorf0 (''no object key in '' @ uri)) else Inr (bucket, key))"

definition parseS3Location :: "string \<Rightarrow> (string \<times> string) res" where
  "parseS3Location location =
     (case CutPrefix location ''s3://'' of
        None \<Rightarrow> Inl (Errorf0 ''not an s3:// location'')
      | Some rest \<Rightarrow>
          (case CutChar (CHR ''/'') rest of
             None \<Rightarrow> Inl (Errorf0 ''S3 location requires a bucket and key'')
           | Some (bucket, key) \<Rightarrow>
               if bucket = '''' \<or> key = '''' then Inl (Errorf0 ''S3 location requires a bucket and key'')
               else Inr (bucket, key)))"

definition parseRemoteS3Location :: "string \<Rightarrow> string \<Rightarrow> string res" where
  "parseRemoteS3Location location configuredBucket =
     (case parseS3Location location of
        Inl e \<Rightarrow> Inl (wrap (''invalid S3 location format: '' @ location) e)
      | Inr (bucket, key) \<Rightarrow>
          if bucket \<noteq> configuredBucket
          then Inl (Errorf0 (''backup S3 bucket ('' @ bucket @ '') does not match current configuration ('' @ configuredBucket @ '')''))
          else Inr key)"

section \<open>Uploads\<close>

definition SnapshotS3Prefix :: string where "SnapshotS3Prefix = ''*snapshots*''"

definition logOffsiteFailure ::
  "gotime \<Rightarrow> OffsiteSettings \<Rightarrow> string \<Rightarrow> string \<Rightarrow> goerror \<Rightarrow> world \<Rightarrow> world" where
  "logOffsiteFailure now s event obj cause w =
     snd (Offsite_AddLog now \<lparr>ol_ID = 0, ol_Event = event, ol_OffsiteSettingsID = off_ID s,
        ol_Object = obj, ol_Success = False, ol_ErrorDetails = Some (Error cause), ol_CreatedAt = now\<rparr> w)"

record UploadResult =
  up_Size :: int
  up_Location :: string

text \<open>\<open>os.Open\<close> and the \<open>Stat\<close> of the open file give its size.\<close>

definition open_file :: "string \<Rightarrow> string \<Rightarrow> world \<Rightarrow> int res \<times> world" where
  "open_file what p w =
     (case os_Stat p w of
        (StatOK n, w1) \<Rightarrow>
          (case sys_call ''fstat'' w1 of
             (Inl e, w2) \<Rightarrow> (Inl (wrap (''stat '' @ what @ '' file'') e), w2)
           | (Inr _, w2) \<Rightarrow> (Inr n, w2))
      | (StatNotExist, w1) \<Rightarrow> (Inl (wrap (''open '' @ what @ '' file'') (Sentinel ErrNotExist)), w1)
      | (StatError, w1) \<Rightarrow> (Inl (wrap (''open '' @ what @ '' file'') (DriverError ''open'')), w1))"

text \<open>
  The transfer: client, seek, put, head. \<open>on_fail\<close> is what a failed put does before the
  error is returned; \<open>missing\<close> is the text for an object that is not there afterwards.
\<close>

definition transfer ::
  "string \<Rightarrow> OffsiteSettings \<Rightarrow> string \<Rightarrow> int \<Rightarrow> (goerror \<Rightarrow> world \<Rightarrow> world) \<Rightarrow> world \<Rightarrow> Client res \<times> world" where
  "transfer missing s key sz on_fail w =
     (case NewClient s w of
        (Inl e, w1) \<Rightarrow> (Inl (wrap ''create S3 client'' e), w1)
      | (Inr c, w1) \<Rightarrow>
     (case sys_call ''seek'' w1 of
        (Inl e, w2) \<Rightarrow> (Inl (wrap ''reset file position'' e), w2)
      | (Inr _, w2) \<Rightarrow>
     (case UploadFile c key sz w2 of
        (Some e, w3) \<Rightarrow> (Inl (wrap ''upload to S3'' e), on_fail e w3)
      | (None, w3) \<Rightarrow>
     (case FileExists c key w3 of
        (Inl e, w4) \<Rightarrow> (Inl (wrap ''verify upload'' e), w4)
      | (Inr exists, w4) \<Rightarrow>
          if \<not> exists then (Inl (Errorf0 (''upload verification failed: '' @ missing)), w4)
          else (Inr c, w4)))))"

definition snapshot_key :: "Record \<Rightarrow> string" where
  "snapshot_key r = SnapshotS3Prefix @ ''/'' @ format_date (snap_CreatedAt r) @ ''/'' @ Base (LocalPath r)"

definition UploadSnapshot :: "cipher \<Rightarrow> gotime \<Rightarrow> int \<Rightarrow> world \<Rightarrow> UploadResult res \<times> world" where
  "UploadSnapshot c now n w =
     (case GetActiveOffsiteSettingsDecrypted c w of
        (Inl e, w1) \<Rightarrow> (Inl (wrap ''get offsite settings'' e), w1)
      | (Inr None, w1) \<Rightarrow> (Inl (Invalidf (Errorf0 ''offsite backup not configured'')), w1)
      | (Inr (Some s), w1) \<Rightarrow>
     (case Snapshot_Get n w1 of
        (Inl e, w2) \<Rightarrow> (Inl e, w2)
      | (Inr None, w2) \<Rightarrow> (Inl (NotFoundf (Errorf0 (''snapshot '' @ Itoa n @ '' not found''))), w2)
      | (Inr (Some r), w2) \<Rightarrow>
          if RemotePath r \<noteq> ''''
          then (Inl (Conflictf (Errorf0 (''snapshot '' @ Itoa n @ '' is already uploaded: '' @ RemotePath r))), w2)
          else if LocalPath r = ''''
          then (Inl (Invalidf (Errorf0 (''snapshot '' @ Itoa n @ '' has no local file to upload''))), w2)
          else if \<not> IsAbs (LocalPath r)
          then (Inl (Invalidf (Errorf0 (''snapshot location is not an absolute path: '' @ LocalPath r))), w2)
          else
     (case open_file ''snapshot'' (LocalPath r) w2 of
        (Inl e, w3) \<Rightarrow> (Inl e, w3)
      | (Inr sz, w3) \<Rightarrow>
          let obj = Base (LocalPath r) @ '' -> s3://'' @ off_Bucket s @ ''/'' @ snapshot_key r in
     (case transfer ''snapshot not found in S3 after upload'' s (snapshot_key r) sz
             (logOffsiteFailure now s ''snapshot_upload'' obj) w3 of
        (Inl e, w4) \<Rightarrow> (Inl e, w4)
      | (Inr cl, w4) \<Rightarrow>
          let location = ''s3://'' @ off_Bucket s @ ''/'' @ GetBucketPath cl @ snapshot_key r in
     (case Snapshot_SetRemoteLocation n location w4 of
        (Some e, w5) \<Rightarrow> (Inl e, w5)
      | (None, w5) \<Rightarrow>
          (Inr \<lparr>up_Size = sz, up_Location = location\<rparr>,
           snd (Offsite_AddLog now \<lparr>ol_ID = 0, ol_Event = ''snapshot_upload'',
              ol_OffsiteSettingsID = off_ID s, ol_Object = obj, ol_Success = True,
              ol_ErrorDetails = None, ol_CreatedAt = now\<rparr> w5)))))))"

text \<open>\<open>local\<close> turns an instant into the host's wall clock, on which the date of the key is taken.\<close>

definition UploadBackup ::
  "cipher \<Rightarrow> string \<Rightarrow> (gotime \<Rightarrow> gotime) \<Rightarrow> gotime \<Rightarrow> string \<Rightarrow> int \<Rightarrow> world \<Rightarrow> UploadResult res \<times> world" where
  "UploadBackup c dataDir local now instanceName n w =
     (case GetActiveOffsiteSettingsDecrypted c w of
        (Inl e, w1) \<Rightarrow> (Inl (wrap ''get offsite settings'' e), w1)
      | (Inr None, w1) \<Rightarrow> (Inl (Errorf0 ''offsite backup not configured''), w1)
      | (Inr (Some s), w1) \<Rightarrow>
     (case Backup_GetBackupByID dataDir n w1 of
        (Inl e, w2) \<Rightarrow> (Inl (wrap ''get backup'' e), w2)
      | (Inr b, w2) \<Rightarrow>
          let remote = (case bk_RemoteLocation b of None \<Rightarrow> '''' | Some p \<Rightarrow> p);
              path = (case bk_LocalLocation b of None \<Rightarrow> '''' | Some p \<Rightarrow> p) in
          if bk_InstanceName b \<noteq> instanceName
          then (Inl (Errorf0 (''backup '' @ Itoa n @ '' does not belong to instance '' @ instanceName)), w2)
          else if remote \<noteq> '''' then (Inl (Errorf0 (''backup already uploaded to S3: '' @ remote)), w2)
          else if path = '''' then (Inl (Errorf0 ''backup has no local file to upload''), w2)
          else if \<not> IsAbs path
          then (Inl (Errorf0 (''backup location is not an absolute path: '' @ path)), w2)
          else
     (case open_file ''backup'' path w2 of
        (Inl e, w3) \<Rightarrow> (Inl e, w3)
      | (Inr sz, w3) \<Rightarrow>
          let key = bk_InstanceName b @ ''/'' @ format_date (local now) @ ''/'' @ Base path in
     (case transfer ''file not found in S3'' s key sz (\<lambda>e w. w) w3 of
        (Inl e, w4) \<Rightarrow> (Inl e, w4)
      | (Inr cl, w4) \<Rightarrow>
          let location = ''s3://'' @ off_Bucket s @ ''/'' @ GetBucketPath cl @ key in
     (case Backup_UpdateRemoteLocation n location w4 of
        (Some e, w5) \<Rightarrow> (Inl (wrap ''update backup remote location'' e), w5)
      | (None, w5) \<Rightarrow>
          (Inr \<lparr>up_Size = sz, up_Location = location\<rparr>,
           snd (Offsite_AddLog now \<lparr>ol_ID = 0, ol_Event = ''backup_upload'',
              ol_OffsiteSettingsID = off_ID s,
              ol_Object = bk_InstanceName b @ '':'' @ Base path @ '' -> s3://'' @ off_Bucket s @ ''/'' @ key,
              ol_Success = True, ol_ErrorDetails = None, ol_CreatedAt = now\<rparr> w5)))))))"

section \<open>Keys and locations\<close>

text \<open>A client that a configuration produced: its path is empty or ends with a slash.\<close>

definition client_ok :: "Client \<Rightarrow> bool" where
  "client_ok c \<longleftrightarrow> client_bucketPath c = '''' \<or> HasSuffix (client_bucketPath c) ''/''"

lemma NewClient_ok: "NewClient s w = (Inr c, w') \<Longrightarrow> client_ok c \<and> client_bucket c = off_Bucket s"
  by (auto simp: NewClient_def NewClientFromConfig_def client_ok_def Let_def
      split: if_splits prod.splits sum.splits)

lemma NewClient_path:
  "NewClient s w = (Inr c, w') \<Longrightarrow> NewClient s v = (Inr d, v') \<Longrightarrow> d = c"
  by (auto simp: NewClient_def split: if_splits prod.splits sum.splits)

lemma NewClient_same: "NewClient s w = (r, w') \<Longrightarrow> same_but_io w w'"
  by (auto simp: NewClient_def intro: sys_call_same split: if_splits prod.splits sum.splits)

lemma RelativeKey_full [simp]: "RelativeKey c (client_bucketPath c @ k) = k"
  by (simp add: RelativeKey_def)

lemma parseS3Location_make:
  assumes "bucket \<noteq> ''''" "CHR ''/'' \<notin> set bucket" "key \<noteq> ''''"
  shows "parseS3Location (''s3://'' @ bucket @ ''/'' @ key) = Inr (bucket, key)"
proof -
  have "CutChar (CHR ''/'') (bucket @ CHR ''/'' # key) = Some (bucket, key)"
    using assms(2) by (rule CutChar_append)
  then show ?thesis
    using CutPrefix_append[of "''s3://''" "bucket @ ''/'' @ key"] assms(1,3)
    by (simp add: parseS3Location_def)
qed

lemma parseS3Location_Inr:
  assumes "parseS3Location l = Inr (b, k)"
  shows "l = ''s3://'' @ b @ ''/'' @ k \<and> b \<noteq> '''' \<and> k \<noteq> '''' \<and> CHR ''/'' \<notin> set b"
proof -
  obtain rest where rest: "CutPrefix l ''s3://'' = Some rest"
    using assms by (auto simp: parseS3Location_def split: option.splits)
  then have cut: "CutChar (CHR ''/'') rest = Some (b, k)" "b \<noteq> ''''" "k \<noteq> ''''"
    using assms by (auto simp: parseS3Location_def split: option.splits if_splits prod.splits)
  show ?thesis using CutPrefix_Some[OF rest] CutChar_Some[OF cut(1)] cut(2,3) by simp
qed

definition demo_settings :: OffsiteSettings where
  "demo_settings =
     \<lparr>off_ID = 1, off_Active = True, off_Type = ''s3'', off_Bucket = ''bkt'', off_Endpoint = None,
      off_Region = Some ''eu'', off_AccessKeyID = ''AK'', off_SecretAccessKey = '''',
      off_BucketPath = Some ''oddk/'', off_EC2IAMRole = True, off_CreatedAt = 1, off_UpdatedAt = 1\<rparr>"

lemma NewClient_demo: "NewClient demo_settings empty_world =
    (Inr \<lparr>client_bucket = ''bkt'', client_bucketPath = ''oddk/''\<rparr>, empty_world)"
  by (simp add: NewClient_def demo_settings_def sys_call_def next_io_def empty_world_def
      NewClientFromConfig_def TrimSuffix_def HasSuffix_def)

section \<open>What an upload does to the world\<close>

text \<open>The world only gained: no file changed and no object went away.\<close>

definition gains :: "world \<Rightarrow> world \<Rightarrow> bool" where
  "gains w w' \<longleftrightarrow> files w' = files w \<and> (\<forall>k. objects w k \<noteq> None \<longrightarrow> objects w' k \<noteq> None)"

lemma gains_refl [simp]: "gains w w"
  by (simp add: gains_def)

lemma gains_trans: "gains a b \<Longrightarrow> gains b c \<Longrightarrow> gains a c"
  by (simp add: gains_def)

lemma gains_same: "same_but_io w w' \<Longrightarrow> gains w w'"
  by (simp add: gains_def same_but_io_fields)

text \<open>A statement that leaves files and objects alone.\<close>

lemma sql_exec_storage:
  assumes "sql_exec st w = (r, w')" "\<And>v v' n. st v = Inr (v', n) \<Longrightarrow> files v' = files v \<and> objects v' = objects v"
  shows "files w' = files w \<and> objects w' = objects w"
  using assms(1)
  by (cases rule: sql_exec_cases) (use assms(2) in \<open>auto simp: same_but_io_fields\<close>)

lemma snap_exec_storage:
  "snap_exec m (snap_update_stmt p f) w = (r, w') \<Longrightarrow> files w' = files w \<and> objects w' = objects w"
  "snap_exec m (snap_delete_stmt n) w = (r, w') \<Longrightarrow> files w' = files w \<and> objects w' = objects w"
  by (auto simp: snap_exec_def snap_update_stmt_def snap_delete_stmt_def split: prod.splits sum.splits if_splits
      dest!: sql_exec_storage)

lemma bk_exec_storage:
  "bk_exec m (bk_update_stmt n f) w = (r, w') \<Longrightarrow> files w' = files w \<and> objects w' = objects w"
  "bk_exec m (bk_delete_stmt n) w = (r, w') \<Longrightarrow> files w' = files w \<and> objects w' = objects w"
  by (auto simp: bk_exec_def bk_update_stmt_def bk_delete_stmt_def split: prod.splits sum.splits if_splits
      dest!: sql_exec_storage)

lemma AddLog_frame:
  assumes "Offsite_AddLog now l w = (r, w')"
  shows "files w' = files w" "objects w' = objects w" "snapshot_history w' = snapshot_history w"
    "backup_history w' = backup_history w" "snapshot_seq w' = snapshot_seq w" "snapshot_plans w' = snapshot_plans w"
    "backup_seq w' = backup_seq w" "offsite_settings w' = offsite_settings w" "cron_plans w' = cron_plans w"
proof -
  obtain r1 where "sql_exec (\<lambda>w. let n = offsite_log_seq w + 1 in
      Inr (w\<lparr>offsite_logs := offsite_logs w @ [l\<lparr>ol_ID := n, ol_CreatedAt := now\<rparr>],
             offsite_log_seq := n\<rparr>, n)) w = (r1, w')"
    using assms by (auto simp: Offsite_AddLog_def split: prod.splits sum.splits)
  then show "files w' = files w" "objects w' = objects w" "snapshot_history w' = snapshot_history w"
    "backup_history w' = backup_history w" "snapshot_seq w' = snapshot_seq w" "snapshot_plans w' = snapshot_plans w"
    "backup_seq w' = backup_seq w" "offsite_settings w' = offsite_settings w" "cron_plans w' = cron_plans w"
    by (cases rule: sql_exec_cases; auto simp: same_but_io_fields Let_def)+
qed

text \<open>The tables an S3 request leaves alone are all of them.\<close>

definition same_tables :: "world \<Rightarrow> world \<Rightarrow> bool" where
  "same_tables w w' \<longleftrightarrow>
     w'\<lparr>io_schedule := io_schedule w, files := files w, objects := objects w\<rparr> = w"

lemma same_tables_refl [simp]: "same_tables w w"
  by (simp add: same_tables_def)

lemma same_tables_trans: "same_tables a b \<Longrightarrow> same_tables b c \<Longrightarrow> same_tables a c"
  unfolding same_tables_def by (cases a; cases b; cases c) simp

lemma same_tables_io: "same_but_io w w' \<Longrightarrow> same_tables w w'"
  unfolding same_tables_def same_but_io_def by (cases w; cases w') simp

lemma same_tables_fields:
  assumes "same_tables w w'"
  shows "snapshot_history w' = snapshot_history w" "snapshot_seq w' = snapshot_seq w"
    "snapshot_plans w' = snapshot_plans w" "backup_history w' = backup_history w"
    "backup_seq w' = backup_seq w" "offsite_settings w' = offsite_settings w"
    "cron_plans w' = cron_plans w" "cron_logs w' = cron_logs w" "rdbms_instances w' = rdbms_instances w"
  using assms unfolding same_tables_def by (cases w; cases w'; simp)+

lemma s3_put_effect:
  assumes "s3_put b k n w = (r, w')"
  shows "gains w w' \<and> same_tables w w' \<and> (r = None \<longrightarrow> objects w' (b, k) = Some n)"
proof -
  obtain oc w1 where n: "next_io w = (oc, w1)" by fastforce
  then have "same_but_io w w1" by (rule next_io_same)
  then show ?thesis
    using assms n same_tables_io[of w w1]
    by (cases oc) (auto simp: s3_put_def gains_def same_but_io_fields same_tables_def)
qed

lemma UploadFile_effect:
  assumes "UploadFile c key n w = (r, w')"
  shows "gains w w' \<and> same_tables w w'
     \<and> (r = None \<longrightarrow> objects w' (client_bucket c, client_bucketPath c @ key) = Some n)"
proof -
  have seek: "gains v v' \<and> same_tables v v'" if "sys_call m v = (q, v')" for m v v' q
    using sys_call_same[OF that] by (simp add: gains_same same_tables_io)
  show ?thesis
    using assms
    by (auto simp: UploadFile_def split: prod.splits sum.splits option.splits dest!: seek s3_put_effect
        intro: gains_trans same_tables_trans)
qed

lemma FileExists_same: "FileExists c k w = (r, w') \<Longrightarrow> same_but_io w w'"
  by (auto simp: FileExists_def intro: s3_head_same split: prod.splits sum.splits)

lemma FileExists_true:
  "FileExists c k w = (Inr True, w') \<Longrightarrow> objects w (client_bucket c, client_bucketPath c @ k) \<noteq> None"
  by (auto simp: FileExists_def s3_head_def same_but_io_fields dest!: next_io_same
      split: prod.splits sum.splits if_splits)

lemma transfer_effect:
  assumes "transfer what s key n on_fail w = (r, w')"
    and fail: "\<And>e v. gains v (on_fail e v) \<and> snapshot_history (on_fail e v) = snapshot_history v
                 \<and> backup_history (on_fail e v) = backup_history v"
  shows "gains w w' \<and> snapshot_history w' = snapshot_history w \<and> backup_history w' = backup_history w
     \<and> (\<forall>c. r = Inr c \<longrightarrow> client_bucket c = off_Bucket s \<and> (\<exists>v v'. NewClient s v = (Inr c, v'))
          \<and> objects w' (off_Bucket s, client_bucketPath c @ key) = Some n)"
proof -
  obtain r1 w1 where c: "NewClient s w = (r1, w1)" by fastforce
  obtain r2 w2 where sk: "sys_call ''seek'' w1 = (r2, w2)" by fastforce
  have same: "same_but_io w w1" "same_but_io w1 w2"
    using c sk by (auto intro: NewClient_same sys_call_same)
  then have "same_but_io w w2" by (blast intro: same_but_io_trans)
  then have w2: "gains w w1" "gains w w2" "same_tables w w1" "same_tables w w2"
    using same by (simp_all add: gains_same same_tables_io)
  show ?thesis
  proof (cases r1)
    case (Inl e)
    then show ?thesis using assms(1) c w2(1,3) by (auto simp: transfer_def same_tables_fields)
  next
    case (Inr cl)
    note cl = NewClient_ok[OF c[unfolded Inr]]
    show ?thesis
    proof (cases r2)
      case (Inl e)
      then show ?thesis using assms(1) c sk Inr w2(2,4) \<open>r1 = Inr cl\<close>
        by (auto simp: transfer_def same_tables_fields)
    next
      case r2: (Inr u)
      obtain r3 w3 where up: "UploadFile cl key n w2 = (r3, w3)" by fastforce
      note eff = UploadFile_effect[OF up]
      have w3: "gains w w3" "same_tables w w3"
        using w2 eff gains_trans same_tables_trans by blast+
      show ?thesis
      proof (cases r3)
        case (Some e)
        then have "w' = on_fail e w3" "\<exists>e. r = Inl e"
          using assms(1) c sk Inr r2 up by (auto simp: transfer_def)
        then show ?thesis using fail[of w3 e] w3 gains_trans
          by (auto simp: same_tables_fields)
      next
        case None
        obtain r4 w4 where ex: "FileExists cl key w3 = (r4, w4)" by fastforce
        have same4: "same_but_io w3 w4" using ex by (rule FileExists_same)
        have w4: "gains w w4" "same_tables w w4"
          using w3 same4 gains_trans same_tables_trans by (blast intro: gains_same same_tables_io)+
        have res: "w' = w4 \<and> (\<forall>x. r = Inr x \<longrightarrow> x = cl)"
          using assms(1) c sk Inr r2 up None ex by (auto simp: transfer_def split: sum.splits if_splits)
        have "objects w4 (off_Bucket s, client_bucketPath cl @ key) = Some n"
          using eff None cl same4 by (simp add: same_but_io_fields)
        then show ?thesis using res w4 cl c Inr by (auto simp: same_tables_fields)
      qed
    qed
  qed
qed

lemma logOffsiteFailure_frame:
  "gains v (logOffsiteFailure now s ev obj d v) \<and> snapshot_history (logOffsiteFailure now s ev obj d v) = snapshot_history v
   \<and> backup_history (logOffsiteFailure now s ev obj d v) = backup_history v"
  using AddLog_frame[OF prod.collapse[symmetric]] by (simp add: logOffsiteFailure_def gains_def)

lemma open_file_same: "open_file what p w = (r, w') \<Longrightarrow> same_but_io w w'"
  by (auto simp: open_file_def intro: os_Stat_same same_but_io_trans[OF os_Stat_same sys_call_same]
      split: prod.splits stat_result.splits sum.splits)

lemma Snapshot_Get_same: "Snapshot_Get n w = (r, w') \<Longrightarrow> same_but_io w w'"
  by (auto simp: Snapshot_Get_def intro: sql_query_same split: prod.splits sum.splits)

lemma SetRemoteLocation_None:
  assumes "Snapshot_SetRemoteLocation n l w = (None, w')" "r \<in> set (snapshot_history w')" "snap_ID r = n"
  shows "snap_RemoteLocation r = Some l"
proof -
  obtain k where "sql_exec (snap_update_stmt (\<lambda>r. snap_ID r = n) (\<lambda>r. r\<lparr>snap_RemoteLocation := Some l\<rparr>)) w = (Inr k, w')"
    using assms(1) by (auto simp: Snapshot_SetRemoteLocation_def snap_exec_def split: prod.splits sum.splits)
  then obtain w1 where "snap_update_stmt (\<lambda>r. snap_ID r = n) (\<lambda>r. r\<lparr>snap_RemoteLocation := Some l\<rparr>) w1 = Inr (w', k)"
    by (rule sql_exec_ok)
  then have "r \<in> set (upd_where (\<lambda>r. snap_ID r = n) (\<lambda>r. r\<lparr>snap_RemoteLocation := Some l\<rparr>) (snapshot_history w1))"
    using assms(2) by (auto simp: snap_update_stmt_def split: if_splits)
  then show ?thesis using assms(3) by (cases rule: upd_whereE) simp_all
qed

lemma snap_update_gains:
  "Snapshot_SetRemoteLocation n l w = (r, w') \<Longrightarrow> gains w w' \<and> objects w' = objects w"
  unfolding Snapshot_SetRemoteLocation_def by (drule snap_exec_storage(1)) (simp add: gains_def)

lemma UpdateRemoteLocation_None:
  assumes "Backup_UpdateRemoteLocation n l w = (None, w')" "r \<in> set (backup_history w')" "bk_ID r = n"
  shows "bk_RemoteLocation r = Some l"
proof -
  let ?f = "\<lambda>r. r\<lparr>bk_RemoteLocation := Some l\<rparr>"
  obtain k where "sql_exec (bk_update_stmt n ?f) w = (Inr k, w')"
    using assms(1) by (auto simp: Backup_UpdateRemoteLocation_def bk_exec_def split: prod.splits sum.splits)
  then obtain w1 where "bk_update_stmt n ?f w1 = Inr (w', k)" by (rule sql_exec_ok)
  then have "r \<in> set (upd_where (\<lambda>r. bk_ID r = n) ?f (backup_history w1))"
    using assms(2) by (auto simp: bk_update_stmt_def split: if_splits)
  then show ?thesis using assms(3) by (cases rule: upd_whereE) simp_all
qed

lemma open_file_size: "open_file what p w = (Inr n, w') \<Longrightarrow> files w p = Some n"
  by (auto simp: open_file_def os_Stat_def same_but_io_fields dest!: next_io_same
      split: prod.splits stat_result.splits sum.splits if_splits option.splits)

text \<open>The stages of a backup upload that reports success.\<close>

lemma UploadBackup_stages:
  assumes "UploadBackup c dataDir local now inst n w = (Inr u, w')"
    and "GetActiveOffsiteSettingsDecrypted c w = (Inr (Some s), v)"
  obtains p cl w2 w3 w4 w5 l where "same_but_io w w2" "open_file ''backup'' p w2 = (Inr (up_Size u), w3)"
    "transfer ''file not found in S3'' s (inst @ ''/'' @ format_date (local now) @ ''/'' @ Base p) (up_Size u) (\<lambda>e w. w) w3 = (Inr cl, w4)"
    "up_Location u = ''s3://'' @ off_Bucket s @ ''/'' @ client_bucketPath cl @ inst @ ''/'' @ format_date (local now) @ ''/'' @ Base p"
    "Backup_UpdateRemoteLocation n (up_Location u) w4 = (None, w5)" "w' = snd (Offsite_AddLog now l w5)"
proof -
  obtain r2 w2 where a2: "Backup_GetBackupByID dataDir n v = (r2, w2)" by fastforce
  have io: "same_but_io w w2"
    using GetActiveDecrypted_same[OF assms(2)] GetBackupByID_same[OF a2] by (rule same_but_io_trans)
  obtain b where b: "r2 = Inr b" using assms a2 by (cases r2) (auto simp: UploadBackup_def)
  define p where "p = (case bk_LocalLocation b of None \<Rightarrow> '''' | Some p \<Rightarrow> p)"
  have ok: "bk_InstanceName b = inst" "p \<noteq> ''''" "IsAbs p" "(case bk_RemoteLocation b of None \<Rightarrow> '''' | Some p \<Rightarrow> p) = ''''"
    using assms a2 b by (auto simp: UploadBackup_def Let_def p_def split: if_splits)
  obtain r3 w3 where a3: "open_file ''backup'' p w2 = (r3, w3)" by fastforce
  obtain sz where sz: "r3 = Inr sz"
    using assms a2 b a3 ok by (cases r3) (auto simp: UploadBackup_def Let_def p_def)
  let ?key = "inst @ ''/'' @ format_date (local now) @ ''/'' @ Base p"
  obtain r4 w4 where a4: "transfer ''file not found in S3'' s ?key sz (\<lambda>e w. w) w3 = (r4, w4)" by fastforce
  obtain cl where cl: "r4 = Inr cl"
    using assms a2 b a3 sz a4 ok by (cases r4) (auto simp: UploadBackup_def Let_def p_def)
  let ?loc = "''s3://'' @ off_Bucket s @ ''/'' @ client_bucketPath cl @ ?key"
  obtain r5 w5 where a5: "Backup_UpdateRemoteLocation n ?loc w4 = (r5, w5)" by fastforce
  have r5: "r5 = None"
    using assms a2 b a3 sz a4 cl a5 ok by (cases r5) (auto simp: UploadBackup_def Let_def p_def GetBucketPath_def)
  obtain l where u: "u = \<lparr>up_Size = sz, up_Location = ?loc\<rparr>" "w' = snd (Offsite_AddLog now l w5)"
    using assms a2 b a3 sz a4 cl a5 r5 ok by (auto simp: UploadBackup_def Let_def p_def GetBucketPath_def)
  show thesis using that[OF io, of p w3 cl w4 w5 l] a3 sz a4 cl a5 r5 u by simp
qed

text \<open>
  C15. What a backup upload records leads back to what it wrote. When an upload reports success,
  under whatever failures in between, every row of that backup carries the reported location;
  \<open>parseRemoteS3Location\<close> with the configured bucket reads a key out of it, and the key that a
  client of the same settings addresses with it (\<open>RelativeKey\<close>, as download, deletion and
  retention do) holds the object of this upload, with as many bytes as the archive file on disk;
  with any other bucket configured the location is refused. No file and no object was lost.
\<close>

theorem uploaded_backup_resolves:
  assumes "UploadBackup c dataDir local now inst n w = (Inr u, w')"
    and "GetActiveOffsiteSettingsDecrypted c w = (Inr (Some s), v)"
    and "off_Bucket s \<noteq> ''''" "CHR ''/'' \<notin> set (off_Bucket s)"
    and "NewClient s w1 = (Inr cl, w2)"
  shows "(\<exists>key. parseRemoteS3Location (up_Location u) (off_Bucket s) = Inr key
            \<and> objects w' (client_bucket cl, client_bucketPath cl @ RelativeKey cl key) = Some (up_Size u))
     \<and> (\<exists>p. files w p = Some (up_Size u) \<and> HasSuffix (up_Location u) (''/'' @ Base p))
     \<and> (\<forall>r \<in> set (backup_history w'). bk_ID r = n \<longrightarrow> bk_RemoteLocation r = Some (up_Location u))
     \<and> (\<forall>bucket. bucket \<noteq> off_Bucket s \<longrightarrow> (\<exists>e. parseRemoteS3Location (up_Location u) bucket = Inl e))
     \<and> gains w w'"
proof -
  obtain p cl' v2 v3 v4 v5 l where st: "same_but_io w v2" "open_file ''backup'' p v2 = (Inr (up_Size u), v3)"
    "transfer ''file not found in S3'' s (inst @ ''/'' @ format_date (local now) @ ''/'' @ Base p) (up_Size u) (\<lambda>e w. w) v3 = (Inr cl', v4)"
    and loc: "up_Location u = ''s3://'' @ off_Bucket s @ ''/'' @ client_bucketPath cl' @ inst @ ''/'' @ format_date (local now) @ ''/'' @ Base p"
    and rec: "Backup_UpdateRemoteLocation n (up_Location u) v4 = (None, v5)" "w' = snd (Offsite_AddLog now l v5)"
    by (rule UploadBackup_stages[OF assms(1,2)])
  let ?key = "inst @ ''/'' @ format_date (local now) @ ''/'' @ Base p"
  note eff = transfer_effect[OF st(3), simplified]
  have cl: "cl' = cl" using eff NewClient_path[OF assms(5)] by auto
  have stor: "files v5 = files v4" "objects v5 = objects v4"
    using bk_exec_storage(1)[OF rec(1)[unfolded Backup_UpdateRemoteLocation_def]] by simp_all
  note fr = AddLog_frame[OF prod.collapse[symmetric], of now l v5]
  have io: "same_but_io w v3" using st(1) open_file_same[OF st(2)] by (rule same_but_io_trans)
  have "gains w v4" using gains_trans[OF gains_same[OF io]] eff by blast
  then have "gains w w'" using stor fr rec(2) by (simp add: gains_def)
  moreover have parse: "parseS3Location (up_Location u) = Inr (off_Bucket s, client_bucketPath cl @ ?key)"
    unfolding loc cl by (rule parseS3Location_make[OF assms(3,4)]) simp
  moreover have "objects w' (client_bucket cl, client_bucketPath cl @ ?key) = Some (up_Size u)"
    using eff cl stor fr rec(2) by simp
  moreover have "files w p = Some (up_Size u)" using open_file_size[OF st(2)] st(1) by (simp add: same_but_io_fields)
  moreover have "HasSuffix (up_Location u) (''/'' @ Base p)"
    using HasSuffix_append[of "''s3://'' @ off_Bucket s @ ''/'' @ client_bucketPath cl' @ inst @ ''/'' @ format_date (local now)" "''/'' @ Base p"]
    unfolding loc by simp
  moreover have "\<forall>r \<in> set (backup_history w'). bk_ID r = n \<longrightarrow> bk_RemoteLocation r = Some (up_Location u)"
    using UpdateRemoteLocation_None[OF rec(1)] fr rec(2) by simp
  ultimately show ?thesis by (auto simp: parseRemoteS3Location_def)
qed

definition demo_upload :: world where
  "demo_upload = demo_backups\<lparr>offsite_settings := [demo_settings], files := (\<lambda>_. None)(''/b/a'' := Some 10)\<rparr>"

lemma demo_uploaded:
  "\<exists>u w'. UploadBackup demo_cipher ''/d'' (\<lambda>t. t) 9 ''db1'' 1 demo_upload = (Inr u, w')"
  "GetActiveOffsiteSettingsDecrypted demo_cipher demo_upload = (Inr (Some demo_settings), demo_upload)"
  "NewClient demo_settings demo_upload = (Inr \<lparr>client_bucket = ''bkt'', client_bucketPath = ''oddk/''\<rparr>, demo_upload)"
proof -
  have "\<not> isl (fst (UploadBackup demo_cipher ''/d'' (\<lambda>t. t) 9 ''db1'' 1 demo_upload))" by code_simp
  then show "\<exists>u w'. UploadBackup demo_cipher ''/d'' (\<lambda>t. t) 9 ''db1'' 1 demo_upload = (Inr u, w')"
    by (cases "UploadBackup demo_cipher ''/d'' (\<lambda>t. t) 9 ''db1'' 1 demo_upload"; cases "fst (UploadBackup demo_cipher ''/d'' (\<lambda>t. t) 9 ''db1'' 1 demo_upload)") auto
  have calm: "io_schedule demo_upload = []" by (simp add: demo_upload_def demo_backups_def empty_world_def)
  show "GetActiveOffsiteSettingsDecrypted demo_cipher demo_upload = (Inr (Some demo_settings), demo_upload)"
    using calm by (simp add: GetActiveOffsiteSettingsDecrypted_def Offsite_GetActive_def calm_primitives)
      (simp add: demo_upload_def sort_desc_def demo_settings_def)
  show "NewClient demo_settings demo_upload = (Inr \<lparr>client_bucket = ''bkt'', client_bucketPath = ''oddk/''\<rparr>, demo_upload)"
    using calm by (simp add: NewClient_def demo_settings_def sys_call_calm NewClientFromConfig_def TrimSuffix_def HasSuffix_def)
qed

theorem uploaded_backup_resolves_witness:
  "\<exists>u w' key. UploadBackup demo_cipher ''/d'' (\<lambda>t. t) 9 ''db1'' 1 demo_upload = (Inr u, w')
     \<and> parseRemoteS3Location (up_Location u) ''bkt'' = Inr key
     \<and> objects w' (''bkt'', ''oddk/'' @ RelativeKey \<lparr>client_bucket = ''bkt'', client_bucketPath = ''oddk/''\<rparr> key) = Some (up_Size u)"
proof -
  obtain u w' where up: "UploadBackup demo_cipher ''/d'' (\<lambda>t. t) 9 ''db1'' 1 demo_upload = (Inr u, w')"
    using demo_uploaded(1) by blast
  have "off_Bucket demo_settings \<noteq> ''''" "CHR ''/'' \<notin> set (off_Bucket demo_settings)"
    by (simp_all add: demo_settings_def)
  then show ?thesis
    using uploaded_backup_resolves[OF up demo_uploaded(2) _ _ demo_uploaded(3)] up
    by (auto simp: demo_settings_def)
qed

text \<open>
  C16. Uploading a snapshot only ever adds: under every pattern of failures no file and no
  object of the bucket is lost, and an upload that reports success has left the object in
  the bucket and its location in the catalogue row, in the form that resolves to it.
\<close>

theorem UploadSnapshot_only_adds:
  assumes "UploadSnapshot c now n w = (res, w')"
  shows "gains w w'
     \<and> (\<forall>u. res = Inr u \<longrightarrow> (\<exists>bucket key. up_Location u = ''s3://'' @ bucket @ ''/'' @ key
            \<and> objects w' (bucket, key) \<noteq> None
            \<and> (\<forall>r \<in> set (snapshot_history w'). snap_ID r = n \<longrightarrow> snap_RemoteLocation r = Some (up_Location u))))"
proof -
  obtain r1 w1 where a1: "GetActiveOffsiteSettingsDecrypted c w = (r1, w1)" by fastforce
  obtain r2 w2 where a2: "Snapshot_Get n w1 = (r2, w2)" by fastforce
  have s1: "gains w w1" and s2: "gains w w2"
    using GetActiveDecrypted_same[OF a1] Snapshot_Get_same[OF a2]
    by (auto intro: gains_same same_but_io_trans)
  consider (early1) "w' = w1" "\<exists>e. res = Inl e" | (early2) "w' = w2" "\<exists>e. res = Inl e"
    | (go) s r where "r1 = Inr (Some s)" "r2 = Inr (Some r)" "RemotePath r = ''''" "LocalPath r \<noteq> ''''" "IsAbs (LocalPath r)"
    using assms a1 a2 by (auto simp: UploadSnapshot_def split: sum.splits option.splits if_splits)
  then show ?thesis
  proof cases
    case (go s r)
    obtain r3 w3 where a3: "open_file ''snapshot'' (LocalPath r) w2 = (r3, w3)" by fastforce
    have s3: "gains w w3" using s2 gains_trans gains_same[OF open_file_same[OF a3]] by blast
    let ?obj = "Base (LocalPath r) @ '' -> s3://'' @ off_Bucket s @ ''/'' @ snapshot_key r"
    show ?thesis
    proof (cases r3)
      case (Inl e)
      then show ?thesis using assms a1 a2 a3 go s3 by (auto simp: UploadSnapshot_def)
    next
      case (Inr m)
      obtain r4 w4 where a4: "transfer ''snapshot not found in S3 after upload'' s (snapshot_key r) m
          (logOffsiteFailure now s ''snapshot_upload'' ?obj) w3 = (r4, w4)" by fastforce
      note eff = transfer_effect[OF a4 logOffsiteFailure_frame]
      have s4: "gains w w4" using s3 eff gains_trans by blast
      show ?thesis
      proof (cases r4)
        case Inl4: (Inl e)
        then show ?thesis using assms a1 a2 a3 a4 go Inr s4 by (auto simp: UploadSnapshot_def Let_def)
      next
        case Inr4: (Inr cl)
        let ?loc = "''s3://'' @ off_Bucket s @ ''/'' @ client_bucketPath cl @ snapshot_key r"
        obtain r5 w5 where a5: "Snapshot_SetRemoteLocation n ?loc w4 = (r5, w5)" by fastforce
        note g5 = snap_update_gains[OF a5]
        show ?thesis
        proof (cases r5)
          case (Some e)
          then show ?thesis using assms a1 a2 a3 a4 a5 go Inr Inr4 s4 g5 gains_trans
            by (auto simp: UploadSnapshot_def Let_def GetBucketPath_def)
        next
          case None
          obtain l where w': "w' = snd (Offsite_AddLog now l w5)" and u: "res = Inr \<lparr>up_Size = m, up_Location = ?loc\<rparr>"
            using assms a1 a2 a3 a4 a5 go Inr Inr4 None
            by (auto simp: UploadSnapshot_def Let_def GetBucketPath_def)
          note fr = AddLog_frame[OF prod.collapse[symmetric], of now l w5]
          have "gains w w'" using s4 g5 gains_trans fr w' by (fastforce simp: gains_def)
          moreover have "objects w' (off_Bucket s, client_bucketPath cl @ snapshot_key r) \<noteq> None"
            using eff Inr4 g5 fr w' by auto
          moreover have "\<forall>r \<in> set (snapshot_history w'). snap_ID r = n \<longrightarrow> snap_RemoteLocation r = Some ?loc"
            using SetRemoteLocation_None[OF a5[unfolded None]] fr w' by simp
          ultimately show ?thesis using u by auto
        qed
      qed
    qed
  qed (use s1 s2 in auto)
qed

theorem UploadSnapshot_only_adds_witness:
  "let w = empty_world\<lparr>snapshot_history := [demo_record 1 5 (Some ''/b/a'') None], snapshot_seq := 1,
        offsite_settings := [demo_settings], files := (\<lambda>_. None)(''/b/a'' := Some 10)\<rparr>;
       w' = snd (UploadSnapshot demo_cipher 9 1 w)
   in files w' ''/b/a'' = Some 10"
proof -
  let ?w = "empty_world\<lparr>snapshot_history := [demo_record 1 5 (Some ''/b/a'') None], snapshot_seq := 1,
        offsite_settings := [demo_settings], files := (\<lambda>_. None)(''/b/a'' := Some 10)\<rparr>"
  have "gains ?w (snd (UploadSnapshot demo_cipher 9 1 ?w))"
    using UploadSnapshot_only_adds[OF prod.collapse[symmetric], where w = ?w] by blast
  then show ?thesis by (simp add: gains_def Let_def)
qed

end
