(* ===== verification/Retention.thy ===== *)
theory Retention
  imports S3Client
begin

text \<open>
  The retention rules that the snapshot and the backup cleanup loops share,
  \<open>internal/operations/retention.go\<close>: the newest-N floor, the newest-complete pin and the
  presence checks. The two locales state what a cleanup loop (a fold of its body over the
  rows, newest first) must do per row, and prove once what then holds of the whole loop;
  the four loops of the program interpret them.
\<close>

section \<open>The rules\<close>

record retentionFloor =
  fl_limit :: int
  fl_kept :: int

definition newRetentionFloor :: "int \<Rightarrow> retentionFloor" where
  "newRetentionFloor limit = \<lparr>fl_limit = limit, fl_kept = 0\<rparr>"

definition floor_full :: "retentionFloor \<Rightarrow> bool" where
  "floor_full f \<longleftrightarrow> fl_kept f \<ge> fl_limit f"

definition protects :: "bool \<Rightarrow> retentionFloor \<Rightarrow> bool \<times> retentionFloor" where
  "protects copyPresent f =
     (if \<not> copyPresent \<or> floor_full f then (False, f)
      else (True, f\<lparr>fl_kept := fl_kept f + 1\<rparr>))"

definition snapshotIsComplete :: "Record \<Rightarrow> bool" where
  "snapshotIsComplete r =
     (case Instances r of None \<Rightarrow> True | Some is \<Rightarrow> list_all ri_HasData is)"

datatype retentionKeep = retentionKeepNone | retentionKeepNewest | retentionKeepNewestComplete

definition completePinGraceDays :: int where "completePinGraceDays = 30"

text \<open>\<open>AddDate t d\<close> is \<open>t.AddDate(0, 0, d)\<close> on the host's calendar.\<close>

definition completePinCutoff :: "(gotime \<Rightarrow> int \<Rightarrow> gotime) \<Rightarrow> gotime \<Rightarrow> int \<Rightarrow> gotime" where
  "completePinCutoff AddDate now cleanupDays = AddDate now (- (cleanupDays + completePinGraceDays))"

record retentionVerdict =
  vd_keep :: retentionKeep
  vd_pinExpired :: bool

definition snapshotRetentionProtects ::
  "retentionFloor \<Rightarrow> bool \<Rightarrow> bool \<Rightarrow> bool \<Rightarrow> bool \<Rightarrow> retentionVerdict \<times> retentionFloor \<times> bool" where
  "snapshotRetentionProtects fl completeKept present isComplete pinEligible =
     (case protects present fl of (newest, fl1) \<Rightarrow>
        let slot = present \<and> isComplete \<and> \<not> completeKept;
            pinned = slot \<and> pinEligible;
            pinExpired = slot \<and> \<not> pinEligible;
            verdict = (if newest then \<lparr>vd_keep = retentionKeepNewest, vd_pinExpired = False\<rparr>
                       else if pinned then \<lparr>vd_keep = retentionKeepNewestComplete, vd_pinExpired = False\<rparr>
                       else \<lparr>vd_keep = retentionKeepNone, vd_pinExpired = pinExpired\<rparr>)
        in (verdict, fl1, completeKept \<or> slot))"

definition localArchivePresent :: "string \<Rightarrow> string \<Rightarrow> world \<Rightarrow> bool \<times> world" where
  "localArchivePresent dataDir location w =
     (if location = '''' then (False, w)
      else let path = (if \<not> IsAbs location \<and> dataDir \<noteq> '''' then Join2 dataDir location else location)
           in case os_Stat path w of
                (StatOK _, w1) \<Rightarrow> (True, w1)
              | (StatNotExist, w1) \<Rightarrow> (False, w1)
              | (StatError, w1) \<Rightarrow> (True, w1))"

definition remoteArchivePresent :: "Client \<Rightarrow> string \<Rightarrow> string \<Rightarrow> world \<Rightarrow> bool \<times> world" where
  "remoteArchivePresent c configuredBucket location w =
     (case parseS3Location location of
        Inl e \<Rightarrow> (True, w)
      | Inr (bucket, key) \<Rightarrow>
          if bucket \<noteq> configuredBucket then (True, w)
          else (case FileExists c (RelativeKey c key) w of
                  (Inl e, w1) \<Rightarrow> (True, w1)
                | (Inr exists, w1) \<Rightarrow> (exists, w1)))"

lemma localArchivePresent_same: "localArchivePresent d l w = (b, w') \<Longrightarrow> same_but_io w w'"
  by (auto simp: localArchivePresent_def Let_def dest: os_Stat_same
      split: if_splits prod.splits stat_result.splits)

lemma remoteArchivePresent_same: "remoteArchivePresent c b l w = (p, w') \<Longrightarrow> same_but_io w w'"
  by (auto simp: remoteArchivePresent_def dest: FileExists_same
      split: if_splits prod.splits sum.splits)

lemma localArchivePresent_absent:
  "localArchivePresent d l w = (False, w') \<Longrightarrow> l \<noteq> '''' \<Longrightarrow>
   files w (if \<not> IsAbs l \<and> d \<noteq> '''' then Join2 d l else l) = None"
  by (auto simp: localArchivePresent_def os_Stat_def Let_def same_but_io_fields dest!: next_io_same
      split: if_splits prod.splits stat_result.splits option.splits)

lemma protects_simps [simp]:
  "fl_limit (snd (protects p f)) = fl_limit f"

  "fl_kept f \<le> fl_kept (snd (protects p f))"
  by (auto simp: protects_def split: if_splits)

lemma protects_outcome:
  "fl_kept (snd (protects p f)) = fl_kept f + (if p \<and> fl_kept f < fl_limit f then 1 else 0)"
  "fl_limit (snd (protects p f)) = fl_limit f"
  "fst (protects p f) \<longleftrightarrow> p \<and> fl_kept f < fl_limit f"
  by (auto simp: protects_def floor_full_def)

lemma keep_rule:
  assumes "snapshotRetentionProtects fl ck present complete eligible = (v, fl', ck')"
    and "fl_kept fl \<le> fl_limit fl"
  shows "(vd_keep v = retentionKeepNewest \<longleftrightarrow> present \<and> fl_kept fl < fl_limit fl)
    \<and> (vd_keep v = retentionKeepNewestComplete
         \<longleftrightarrow> present \<and> fl_kept fl = fl_limit fl \<and> complete \<and> \<not> ck \<and> eligible)
    \<and> fl' = fl\<lparr>fl_kept := fl_kept fl + (if present \<and> fl_kept fl < fl_limit fl then 1 else 0)\<rparr>
    \<and> fl_kept fl' \<le> fl_limit fl'
    \<and> ck' = (ck \<or> present \<and> complete)
    \<and> (vd_pinExpired v \<longleftrightarrow> present \<and> fl_kept fl = fl_limit fl \<and> complete \<and> \<not> ck \<and> \<not> eligible)"
proof -
  let ?room = "present \<and> fl_kept fl < fl_limit fl"
  let ?slot = "present \<and> complete \<and> \<not> ck"
  have p: "protects present fl = (?room, fl\<lparr>fl_kept := fl_kept fl + (if ?room then 1 else 0)\<rparr>)"
    by (cases fl) (auto simp: protects_def floor_full_def)
  have eqs: "fl' = fl\<lparr>fl_kept := fl_kept fl + (if ?room then 1 else 0)\<rparr>" "ck' = (ck \<or> ?slot)"
    "v = (if ?room then \<lparr>vd_keep = retentionKeepNewest, vd_pinExpired = False\<rparr>
          else if ?slot \<and> eligible then \<lparr>vd_keep = retentionKeepNewestComplete, vd_pinExpired = False\<rparr>
          else \<lparr>vd_keep = retentionKeepNone, vd_pinExpired = ?slot \<and> \<not> eligible\<rparr>)"
    using assms(1) unfolding snapshotRetentionProtects_def p prod.case Let_def by blast+
  show ?thesis
    unfolding eqs using assms(2)
    by (cases ?room; cases "?slot"; cases eligible) auto
qed

lemma keep_counts:
  assumes "snapshotRetentionProtects fl ck present complete eligible = (v, fl', ck')"
    and "fl_kept fl \<le> fl_limit fl"
  shows "fl_limit fl' = fl_limit fl"
    "fl_kept fl' = fl_kept fl + (if present \<and> fl_kept fl < fl_limit fl then 1 else 0)"
    "ck' \<longleftrightarrow> ck \<or> present \<and> complete"
    "vd_keep v = retentionKeepNone \<longleftrightarrow> \<not> (present \<and> (fl_kept fl < fl_limit fl \<or> complete \<and> \<not> ck \<and> eligible))"
proof -
  note rule = keep_rule[OF assms]
  show "fl_limit fl' = fl_limit fl"
    "fl_kept fl' = fl_kept fl + (if present \<and> fl_kept fl < fl_limit fl then 1 else 0)"
    "ck' \<longleftrightarrow> ck \<or> present \<and> complete"
    using rule by simp_all
  show "vd_keep v = retentionKeepNone \<longleftrightarrow> \<not> (present \<and> (fl_kept fl < fl_limit fl \<or> complete \<and> \<not> ck \<and> eligible))"
    using rule assms(2) by (cases "vd_keep v") auto
qed

text \<open>
  The keep rule for one snapshot copy: a present copy is kept while the floor has room
  (and takes a slot of it); the newest present complete copy is kept while it is inside the
  pin window and takes the one complete slot whether or not it is kept; an absent copy is
  never kept and takes no slot; the floor never counts past its limit; and the pin-expired
  flag marks exactly the complete copy that only its age gave up.
\<close>

theorem snapshotRetentionProtects_rule:
  assumes "snapshotRetentionProtects fl ck present complete eligible = (v, fl', ck')"
    and "fl_kept fl \<le> fl_limit fl"
  shows "(vd_keep v = retentionKeepNewest \<longleftrightarrow> present \<and> fl_kept fl < fl_limit fl)
    \<and> (vd_keep v = retentionKeepNewestComplete
         \<longleftrightarrow> present \<and> fl_kept fl = fl_limit fl \<and> complete \<and> \<not> ck \<and> eligible)
    \<and> fl' = fl\<lparr>fl_kept := fl_kept fl + (if present \<and> fl_kept fl < fl_limit fl then 1 else 0)\<rparr>
    \<and> fl_kept fl' \<le> fl_limit fl'
    \<and> ck' = (ck \<or> present \<and> complete)
    \<and> (vd_pinExpired v \<longleftrightarrow> present \<and> fl_kept fl = fl_limit fl \<and> complete \<and> \<not> ck \<and> \<not> eligible)"
  using keep_rule[OF assms] .

theorem snapshotRetentionProtects_rule_witness:
  "vd_pinExpired (fst (snapshotRetentionProtects \<lparr>fl_limit = 2, fl_kept = 2\<rparr> False True True False))"
  using snapshotRetentionProtects_rule[of "\<lparr>fl_limit = 2, fl_kept = 2\<rparr>" False True True False
      "fst (snapshotRetentionProtects \<lparr>fl_limit = 2, fl_kept = 2\<rparr> False True True False)"
      "fst (snd (snapshotRetentionProtects \<lparr>fl_limit = 2, fl_kept = 2\<rparr> False True True False))"
      "snd (snd (snapshotRetentionProtects \<lparr>fl_limit = 2, fl_kept = 2\<rparr> False True True False))"]
  by simp

section \<open>Loops that walk the rows newest first\<close>

text \<open>
  A cleanup loop works on rows it fetched before. Its turn for a row is trusted only while
  that row still \<open>fit\<close>s the table (it was not changed since it was fetched); a turn may
  change the fit of its own row only, so rows that are \<open>apart\<close> do not disturb each other.
\<close>

locale fitted_walk =
  fixes step :: "'r \<Rightarrow> 'a \<times> world \<Rightarrow> 'a \<times> world"
    and fit :: "world \<Rightarrow> 'r \<Rightarrow> bool"
    and apart :: "'r \<Rightarrow> 'r \<Rightarrow> bool"
  assumes fit_step: "step r (a, w) = (a', w') \<Longrightarrow> fit w s \<Longrightarrow> apart r s \<Longrightarrow> fit w' s"
begin

lemma fit_rest:
  "step r (a, w) = (a', w') \<Longrightarrow> sorted_wrt apart (r # rs) \<Longrightarrow> \<forall>s \<in> set (r # rs). fit w s \<Longrightarrow>
   \<forall>s \<in> set rs. fit w' s"
  using fit_step by auto

end

text \<open>
  Nothing vanishes without a reason: if each turn of the loop removes a copy only for a
  reason its row gives, so does the loop, under every schedule.
\<close>

locale fitted_justified_walk = fitted_walk step fit apart
  for step :: "'r \<Rightarrow> 'a \<times> world \<Rightarrow> 'a \<times> world" and fit apart +
  fixes has :: "world \<Rightarrow> 'k \<Rightarrow> bool"
    and reason :: "'r \<Rightarrow> 'k \<Rightarrow> bool"
  assumes turn_justified:
    "step r (a, w) = (a', w') \<Longrightarrow> fit w r \<Longrightarrow> has w k \<Longrightarrow> \<not> has w' k \<Longrightarrow> reason r k"
begin

lemma fitted_walk_justified:
  "fold step rs (a, w) = (a', w') \<Longrightarrow> sorted_wrt apart rs \<Longrightarrow> \<forall>r \<in> set rs. fit w r \<Longrightarrow>
   has w k \<Longrightarrow> \<not> has w' k \<Longrightarrow> \<exists>r \<in> set rs. reason r k"
proof (induction rs arbitrary: a w)
  case Nil
  then show ?case by simp
next
  case (Cons r rs)
  obtain a1 w1 where s: "step r (a, w) = (a1, w1)" by fastforce
  show ?case
  proof (cases "has w1 k")
    case True
    then show ?thesis using Cons.IH[of a1 w1] Cons.prems s fit_rest[OF s Cons.prems(2,3)] by auto
  next
    case False
    then show ?thesis using turn_justified[OF s] Cons.prems by auto
  qed
qed

end

text \<open>The case in which every row fits, because the turn never looks at the table again.\<close>

locale justified_walk =
  fixes step :: "'r \<Rightarrow> 'a \<times> world \<Rightarrow> 'a \<times> world"
    and has :: "world \<Rightarrow> 'k \<Rightarrow> bool"
    and reason :: "'r \<Rightarrow> 'k \<Rightarrow> bool"
  assumes step_justified: "step r (a, w) = (a', w') \<Longrightarrow> has w k \<Longrightarrow> \<not> has w' k \<Longrightarrow> reason r k"

sublocale justified_walk \<subseteq> fitted_justified_walk step "\<lambda>_ _. True" "\<lambda>_ _. True" has reason
  by unfold_locales (blast intro: step_justified)+

context justified_walk
begin

lemma walk_justified:
  "fold step rs (a, w) = (a', w') \<Longrightarrow> has w k \<Longrightarrow> \<not> has w' k \<Longrightarrow> \<exists>r \<in> set rs. reason r k"
  by (rule fitted_walk_justified) (auto simp: sorted_wrt_iff_nth_less)

end

text \<open>
  The floor: on a schedule without failures a loop whose turn keeps a present copy while
  fewer than \<open>limit\<close> are kept, counts exactly those, and touches no copy but its own row's,
  keeps the newest \<open>limit\<close> copies that exist.
\<close>

locale fitted_kept_walk = fitted_walk step fit apart
  for step :: "'r \<Rightarrow> 'a \<times> world \<Rightarrow> 'a \<times> world" and fit apart +
  fixes kept :: "'a \<Rightarrow> nat" and limit :: nat
    and copy :: "world \<Rightarrow> 'r \<Rightarrow> bool" and key :: "'r \<Rightarrow> 'k" and inv :: "'a \<Rightarrow> bool"
  assumes turn_calm: "step r (a, w) = (a', w') \<Longrightarrow> io_schedule w = [] \<Longrightarrow> io_schedule w' = []"
    and turn_inv: "step r (a, w) = (a', w') \<Longrightarrow> inv a \<Longrightarrow> inv a'"
    and turn_keeps: "step r (a, w) = (a', w') \<Longrightarrow> fit w r \<Longrightarrow> inv a \<Longrightarrow> io_schedule w = [] \<Longrightarrow> copy w r \<Longrightarrow>
                kept a < limit \<Longrightarrow> copy w' r \<and> kept a' = kept a + 1"
    and turn_ghost: "step r (a, w) = (a', w') \<Longrightarrow> fit w r \<Longrightarrow> inv a \<Longrightarrow> io_schedule w = [] \<Longrightarrow> \<not> copy w r \<Longrightarrow>
                kept a' = kept a"
    and turn_frame: "step r (a, w) = (a', w') \<Longrightarrow> fit w r \<Longrightarrow> io_schedule w = [] \<Longrightarrow> copy w s \<Longrightarrow>
                \<not> (copy w r \<and> key r = key s) \<Longrightarrow> copy w' s"
    and turn_no_new: "step r (a, w) = (a', w') \<Longrightarrow> io_schedule w = [] \<Longrightarrow> copy w' s \<Longrightarrow> copy w s"
begin

lemma fitted_walk_frame:
  "fold step rs (a, w) = (a', w') \<Longrightarrow> sorted_wrt apart rs \<Longrightarrow> \<forall>r \<in> set rs. fit w r \<Longrightarrow>
   io_schedule w = [] \<Longrightarrow> copy w s \<Longrightarrow> \<forall>r \<in> set rs. copy w r \<longrightarrow> key r \<noteq> key s \<Longrightarrow> copy w' s"
proof (induction rs arbitrary: a w)
  case Nil
  then show ?case by simp
next
  case (Cons r rs)
  obtain a1 w1 where s: "step r (a, w) = (a1, w1)" by fastforce
  have "copy w1 s" using turn_frame[OF s _ Cons.prems(4,5)] Cons.prems(3,6) by auto
  moreover have "\<forall>r \<in> set rs. copy w1 r \<longrightarrow> key r \<noteq> key s"
    using turn_no_new[OF s Cons.prems(4)] Cons.prems(6) by auto
  ultimately show ?case
    using Cons.IH[of a1 w1] turn_calm[OF s Cons.prems(4)] fit_rest[OF s Cons.prems(2,3)] Cons.prems(1,2) s
    by simp
qed

lemma fitted_newest_survive:
  "fold step rs (a, w) = (a', w') \<Longrightarrow> sorted_wrt apart rs \<Longrightarrow> \<forall>r \<in> set rs. fit w r \<Longrightarrow>
   inv a \<Longrightarrow> io_schedule w = [] \<Longrightarrow> distinct (map key (filter (copy w) rs)) \<Longrightarrow>
   s \<in> set (take (limit - kept a) (filter (copy w) rs)) \<Longrightarrow> copy w' s"
proof (induction rs arbitrary: a w)
  case Nil
  then show ?case by simp
next
  case (Cons r rs)
  obtain a1 w1 where st: "step r (a, w) = (a1, w1)" by fastforce
  note fold = Cons.prems(1)[simplified st fold_simps o_apply]
  note calm1 = turn_calm[OF st Cons.prems(5)] and inv1 = turn_inv[OF st Cons.prems(4)]
  note fit1 = fit_rest[OF st Cons.prems(2,3)]
  have fitr: "fit w r" and apart1: "sorted_wrt apart rs" using Cons.prems(2,3) by auto
  note IH = Cons.IH[OF fold apart1 fit1 inv1 calm1]
  have others: "copy w1 x = copy w x" if "x \<in> set rs" "\<not> (copy w r \<and> copy w x \<and> key r = key x)" for x
    using turn_frame[OF st fitr Cons.prems(5)] turn_no_new[OF st Cons.prems(5)] that by blast
  show ?case
  proof (cases "copy w r")
    case False
    have eq: "filter (copy w1) rs = filter (copy w) rs"
      using others False by (intro filter_cong) auto
    have "kept a1 = kept a" using turn_ghost[OF st fitr Cons.prems(4,5) False] .
    then show ?thesis using IH Cons.prems(6,7) False by (simp add: eq)
  next
    case True
    have ne: "key x \<noteq> key r" if "x \<in> set rs" "copy w x" for x
      using Cons.prems(6) True that by (auto simp: image_iff)
    have eq: "filter (copy w1) rs = filter (copy w) rs"
      using others ne by (intro filter_cong) (auto, metis)
    have room: "kept a < limit" using Cons.prems(7) by (cases "limit - kept a") auto
    have k: "copy w1 r" "kept a1 = kept a + 1" using turn_keeps[OF st fitr Cons.prems(4,5) True room] by auto
    show ?thesis
    proof (cases "s = r")
      case True
      have "\<forall>x \<in> set rs. copy w1 x \<longrightarrow> key x \<noteq> key r"
        using turn_no_new[OF st Cons.prems(5)] ne by blast
      then show ?thesis using fitted_walk_frame[OF fold apart1 fit1 calm1 k(1)] True by simp
    next
      case False
      then have "s \<in> set (take (limit - kept a1) (filter (copy w1) rs))"
        using Cons.prems(7) \<open>copy w r\<close> Suc_diff_Suc[OF room, symmetric] k(2) by (auto simp: eq)
      moreover have "distinct (map key (filter (copy w1) rs))"
        using Cons.prems(6) \<open>copy w r\<close> by (simp add: eq)
      ultimately show ?thesis using IH by blast
    qed
  qed
qed

end

locale newest_kept_walk =
  fixes step :: "'r \<Rightarrow> 'a \<times> world \<Rightarrow> 'a \<times> world"
    and kept :: "'a \<Rightarrow> nat" and limit :: nat
    and copy :: "world \<Rightarrow> 'r \<Rightarrow> bool" and key :: "'r \<Rightarrow> 'k" and inv :: "'a \<Rightarrow> bool"
  assumes calm_step: "step r (a, w) = (a', w') \<Longrightarrow> io_schedule w = [] \<Longrightarrow> io_schedule w' = []"
    and inv_step: "step r (a, w) = (a', w') \<Longrightarrow> inv a \<Longrightarrow> inv a'"
    and keeps: "step r (a, w) = (a', w') \<Longrightarrow> inv a \<Longrightarrow> io_schedule w = [] \<Longrightarrow> copy w r \<Longrightarrow> kept a < limit \<Longrightarrow>
                copy w' r \<and> kept a' = kept a + 1"
    and ghost: "step r (a, w) = (a', w') \<Longrightarrow> inv a \<Longrightarrow> io_schedule w = [] \<Longrightarrow> \<not> copy w r \<Longrightarrow> kept a' = kept a"
    and frame: "step r (a, w) = (a', w') \<Longrightarrow> io_schedule w = [] \<Longrightarrow> copy w s \<Longrightarrow>
                \<not> (copy w r \<and> key r = key s) \<Longrightarrow> copy w' s"
    and no_new: "step r (a, w) = (a', w') \<Longrightarrow> io_schedule w = [] \<Longrightarrow> copy w' s \<Longrightarrow> copy w s"

sublocale newest_kept_walk \<subseteq> fitted_kept_walk step "\<lambda>_ _. True" "\<lambda>_ _. True" kept limit copy key inv
  by unfold_locales
     (rule TrueI, erule (1) calm_step, erule (1) inv_step, erule (4) keeps, erule (3) ghost,
      erule (3) frame, erule (2) no_new)

context newest_kept_walk
begin

lemma walk_frame:
  "fold step rs (a, w) = (a', w') \<Longrightarrow> io_schedule w = [] \<Longrightarrow> copy w s \<Longrightarrow>
   \<forall>r \<in> set rs. copy w r \<longrightarrow> key r \<noteq> key s \<Longrightarrow> copy w' s"
  by (rule fitted_walk_frame) (auto simp: sorted_wrt_iff_nth_less)

lemma newest_survive:
  "fold step rs (a, w) = (a', w') \<Longrightarrow> inv a \<Longrightarrow> io_schedule w = [] \<Longrightarrow>
   distinct (map key (filter (copy w) rs)) \<Longrightarrow>
   s \<in> set (take (limit - kept a) (filter (copy w) rs)) \<Longrightarrow> copy w' s"
  by (rule fitted_newest_survive) (auto simp: sorted_wrt_iff_nth_less)

end

section \<open>Remote copies\<close>

text \<open>
  The object that a stored location addresses under the configured client: none when the
  location does not parse or names another bucket.
\<close>

definition remote_key :: "Client \<Rightarrow> string \<Rightarrow> string \<Rightarrow> string option" where
  "remote_key cl bucket location =
     (case parseS3Location location of
        Inl e \<Rightarrow> None
      | Inr (b, key) \<Rightarrow> if b = bucket then Some (client_bucketPath cl @ RelativeKey cl key) else None)"

text \<open>What the presence check counts: a location it cannot check counts as present.\<close>

definition remote_copy :: "Client \<Rightarrow> string \<Rightarrow> world \<Rightarrow> string \<Rightarrow> bool" where
  "remote_copy cl bucket w location \<longleftrightarrow> location \<noteq> '''' \<and>
     (case remote_key cl bucket location of
        None \<Rightarrow> True
      | Some k \<Rightarrow> objects w (client_bucket cl, k) \<noteq> None)"

text \<open>Two locations collide when they address one object of the configured bucket.\<close>

definition remote_slot :: "Client \<Rightarrow> string \<Rightarrow> string \<Rightarrow> string + string" where
  "remote_slot cl bucket location =
     (case CutPrefix location ''s3://'' of
        None \<Rightarrow> Inl location
      | Some rest \<Rightarrow>
          (case CutChar (CHR ''/'') rest of
             None \<Rightarrow> Inl location
           | Some (b, key) \<Rightarrow> if b = bucket then Inr (client_bucketPath cl @ RelativeKey cl key) else Inl location))"

lemma remote_key_slot: "remote_key cl b l = Some k \<Longrightarrow> remote_slot cl b l = Inr k"
  by (auto simp: remote_key_def remote_slot_def parseS3Location_def split: option.splits if_splits prod.splits)

lemma remoteArchivePresent_calm:
  assumes "io_schedule w = []" "l \<noteq> ''''"
  shows "remoteArchivePresent cl b l w = (remote_copy cl b w l, w)"
  using assms
  by (auto simp: remoteArchivePresent_def remote_copy_def remote_key_def FileExists_def calm_primitives
      split: sum.splits prod.splits)

lemma DeleteFile_effect:
  assumes "DeleteFile cl key w = (r, w')"
  shows "same_tables w w' \<and> files w' = files w
     \<and> (\<forall>ob. ob \<noteq> (client_bucket cl, client_bucketPath cl @ key) \<longrightarrow> objects w' ob = objects w ob)
     \<and> (objects w' (client_bucket cl, client_bucketPath cl @ key) = None
        \<or> objects w' = objects w)"
proof -
  obtain oc w1 where n: "next_io w = (oc, w1)" by fastforce
  then have s: "same_but_io w w1" by (rule next_io_same)
  show ?thesis
    using assms n same_tables_io[OF s] same_but_io_stores[OF s]
    by (cases oc) (auto simp: DeleteFile_def s3_delete_def same_tables_def)
qed

text \<open>Deleting one object leaves every copy that is not in its slot.\<close>

lemma remote_copy_frame:
  assumes "remote_copy cl b w l" "remote_slot cl b l \<noteq> Inr k"
    and "\<And>ob. ob \<noteq> (client_bucket cl, k) \<Longrightarrow> objects w' ob = objects w ob"
  shows "remote_copy cl b w' l"
proof (cases "remote_key cl b l")
  case None
  then show ?thesis using assms(1) by (simp add: remote_copy_def)
next
  case (Some k')
  then have "k' \<noteq> k" using remote_key_slot assms(2) by blast
  then show ?thesis using assms(1,3) Some by (simp add: remote_copy_def)
qed

lemma remote_copy_mono:
  assumes "remote_copy cl b w' l" "\<And>ob. objects w' ob \<noteq> None \<Longrightarrow> objects w ob \<noteq> None"
  shows "remote_copy cl b w l"
  using assms by (auto simp: remote_copy_def split: option.splits)


lemma remote_copy_objects: "objects w' = objects w \<Longrightarrow> remote_copy cl b w' l = remote_copy cl b w l"
  unfolding remote_copy_def by (auto split: option.splits)

end
