(* ===== verification/CronNotify.thy ===== *)
theory CronNotify
  imports CronStore
begin

text \<open>
  What the operator hears about a scheduled run, \<open>internal/operations/cron_notify.go\<close>. The
  text of a notification is kept in its parts: the subject, the failed phases with their
  reasons, and which of the two explanations of a failed capture is appended. Sending it is
  the notification service's business and never fails the run.
\<close>

record cronPhaseFailure =
  pf_Phase :: string
  pf_Err :: "goerror option"

record cronRunReporter =
  rp_key :: string
  rp_label :: string
  rp_what :: string
  rp_previousRunFailed :: bool
  rp_archiveProduced :: bool
  rp_failures :: "cronPhaseFailure list"

definition cronLogFailed :: "CronLog \<Rightarrow> bool" where
  "cronLogFailed l =
     (let statuses = [cl_BackupStatus l, cl_BackupUploadStatus l, cl_BackupCleanupStatus l,
                      cl_BackupRemoteCleanupStatus l]
      in Some ''fail'' \<in> set statuses \<or> (\<forall>s \<in> set statuses. s = None))"

definition newCronRunReporter ::
  "string \<Rightarrow> string \<Rightarrow> string \<Rightarrow> world \<Rightarrow> cronRunReporter \<times> world" where
  "newCronRunReporter key label what w =
     (let r = \<lparr>rp_key = key, rp_label = label, rp_what = what, rp_previousRunFailed = False,
               rp_archiveProduced = False, rp_failures = []\<rparr>
      in case Cron_GetLatestLogForInstance key w of
           (Inl e, w1) \<Rightarrow> (r, w1)
         | (Inr prev, w1) \<Rightarrow>
             (r\<lparr>rp_previousRunFailed := (case prev of None \<Rightarrow> False | Some l \<Rightarrow> cronLogFailed l)\<rparr>, w1))"

definition record_phase :: "string \<Rightarrow> string \<Rightarrow> goerror option \<Rightarrow> cronRunReporter \<Rightarrow> cronRunReporter" where
  "record_phase phase status cause r =
     (if status = ''fail''
      then r\<lparr>rp_failures := rp_failures r @ [\<lparr>pf_Phase = phase, pf_Err = cause\<rparr>]\<rparr> else r)"

definition noteArchive :: "cronRunReporter \<Rightarrow> cronRunReporter" where
  "noteArchive r = r\<lparr>rp_archiveProduced := True\<rparr>"

definition cronPhaseLabel :: "string \<Rightarrow> string" where
  "cronPhaseLabel phase =
     (if phase = ''backup'' then ''capture''
      else if phase = ''backup_upload'' then ''offsite upload''
      else if phase = ''backup_cleanup'' then ''local retention''
      else if phase = ''backup_remote_cleanup'' then ''offsite retention''
      else phase)"

definition captureFailed :: "cronRunReporter \<Rightarrow> bool" where
  "captureFailed r \<longleftrightarrow> (\<exists>f \<in> set (rp_failures r). pf_Phase f = ''backup'')"

definition capturedNothing :: "cronRunReporter \<Rightarrow> bool" where
  "capturedNothing r \<longleftrightarrow> captureFailed r \<and> \<not> rp_archiveProduced r"

definition capturedPartially :: "cronRunReporter \<Rightarrow> bool" where
  "capturedPartially r \<longleftrightarrow> captureFailed r \<and> rp_archiveProduced r"

datatype capture_note = NoNote | NoNewArchive | PartialArchive

text \<open>\<open>failureBody\<close>: the target, one line per failed phase, and the note.\<close>

definition failureBody :: "cronRunReporter \<Rightarrow> (string \<times> goerror option) list \<times> capture_note" where
  "failureBody r =
     (map (\<lambda>f. (cronPhaseLabel (pf_Phase f), pf_Err f)) (rp_failures r),
      if capturedNothing r then NoNewArchive
      else if capturedPartially r then PartialArchive else NoNote)"

datatype notification =
    FailureNotice string string "(string \<times> goerror option) list" capture_note
  | RecoveryNotice string string

definition finish :: "cronRunReporter \<Rightarrow> notification option" where
  "finish r =
     (if rp_failures r \<noteq> [] then
        (case failureBody r of (phases, note) \<Rightarrow>
           Some (FailureNotice (rp_what r) (rp_label r) phases note))
      else if rp_previousRunFailed r then Some (RecoveryNotice (rp_what r) (rp_label r))
      else None)"

lemma newCronRunReporter_same: "newCronRunReporter k l x w = (r, w') \<Longrightarrow> same_but_io w w'"
  unfolding newCronRunReporter_def Let_def
  by (cases "Cron_GetLatestLogForInstance k w"; cases "fst (Cron_GetLatestLogForInstance k w)")
     (auto dest: Cron_reads_same(2))

lemma newCronRunReporter_fresh: "newCronRunReporter k l x w = (r, w') \<Longrightarrow> rp_failures r = []"
  unfolding newCronRunReporter_def Let_def
  by (cases "Cron_GetLatestLogForInstance k w"; cases "fst (Cron_GetLatestLogForInstance k w)") auto

text \<open>The phases recorded so far, folded over a run.\<close>

definition run_phases :: "(string \<times> string \<times> goerror option) list \<Rightarrow> cronRunReporter \<Rightarrow> cronRunReporter" where
  "run_phases ps r = fold (\<lambda>(p, s, c). record_phase p s c) ps r"

lemma record_phase_sel [simp]:
  "rp_failures (record_phase p s c r) =
     rp_failures r @ (if s = ''fail'' then [\<lparr>pf_Phase = p, pf_Err = c\<rparr>] else [])"
  "rp_previousRunFailed (record_phase p s c r) = rp_previousRunFailed r"
  "rp_archiveProduced (record_phase p s c r) = rp_archiveProduced r"
  by (simp_all add: record_phase_def)

lemma run_phases_failures:
  "rp_failures (run_phases ps r) =
     rp_failures r @ map (\<lambda>(p, s, c). \<lparr>pf_Phase = p, pf_Err = c\<rparr>) (filter (\<lambda>(p, s, c). s = ''fail'') ps)
   \<and> rp_previousRunFailed (run_phases ps r) = rp_previousRunFailed r
   \<and> rp_archiveProduced (run_phases ps r) = rp_archiveProduced r"
  unfolding run_phases_def
proof (induction ps arbitrary: r)
  case (Cons x ps)
  obtain p s c where x: "x = (p, s, c)" by (cases x)
  show ?case using Cons.IH[of "record_phase p s c r"] by (simp add: x)
qed simp

text \<open>
  C18. A run sends at most one message, whatever its phases did: a failure notice exactly
  when some phase failed (naming every failed phase, once and in order), a recovery notice
  exactly when none failed and the previous run had, and nothing otherwise; a failed capture
  is reported as "no archive" or as "partial archive" according to whether one was written.
\<close>

theorem finish_one_notice:
  assumes "rp_failures r = []"
  shows "finish (run_phases ps r) =
    (let failed = filter (\<lambda>(p, s, c). s = ''fail'') ps in
     if failed \<noteq> [] then
       Some (FailureNotice (rp_what (run_phases ps r)) (rp_label (run_phases ps r))
          (map (\<lambda>(p, s, c). (cronPhaseLabel p, c)) failed)
          (if (\<exists>s c. (''backup'', s, c) \<in> set failed)
           then (if rp_archiveProduced r then PartialArchive else NoNewArchive) else NoNote))
     else if rp_previousRunFailed r
     then Some (RecoveryNotice (rp_what (run_phases ps r)) (rp_label (run_phases ps r)))
     else None)"
proof -
  let ?r = "run_phases ps r"
  let ?failed = "filter (\<lambda>(p, s, c). s = ''fail'') ps"
  have f: "rp_failures ?r = map (\<lambda>(p, s, c). \<lparr>pf_Phase = p, pf_Err = c\<rparr>) ?failed"
    and pr: "rp_previousRunFailed ?r = rp_previousRunFailed r"
    and ar: "rp_archiveProduced ?r = rp_archiveProduced r"
    using run_phases_failures[of ps r] assms by auto
  have cf: "captureFailed ?r \<longleftrightarrow> (\<exists>s c. (''backup'', s, c) \<in> set ?failed)"
    unfolding captureFailed_def f by force
  show ?thesis
    by (simp add: finish_def failureBody_def capturedNothing_def capturedPartially_def cf ar pr f
        Let_def comp_def case_prod_unfold)
qed

theorem finish_one_notice_witness:
  "finish (run_phases [(''backup'', ''fail'', None), (''backup_cleanup'', ''ok'', None)]
      \<lparr>rp_key = ''db1'', rp_label = ''x'', rp_what = ''Backup'', rp_previousRunFailed = True,
       rp_archiveProduced = False, rp_failures = []\<rparr>)
   = Some (FailureNotice ''Backup'' ''x'' [(''capture'', None)] NoNewArchive)"
  by (subst finish_one_notice)
     (simp_all add: cronPhaseLabel_def run_phases_def record_phase_def)

text \<open>
  A run that the daemon did not survive counts as failed as long as nothing was recorded for
  it, and no longer once the start-up pass has marked it \<open>interrupted\<close>: the next clean run
  of that schedule sends no recovery notice.
\<close>

lemma interrupted_run_not_failed:
  "cronLogFailed (new_log n i t) \<and> \<not> cronLogFailed (interrupt_log now (new_log n i t))"
  by (simp add: cronLogFailed_def new_log_def interrupt_log_def coalesce_def)

end
