(* ===== verification/SnapshotCron.thy ===== *)
theory SnapshotCron
  imports Retention CronNotify
begin

text \<open>
  The scheduled whole-deployment snapshot, \<open>internal/operations/snapshot_cron_task.go\<close>:
  capture, upload, upload retries, local retention, offsite retention, each phase recorded
  in the run's log row. \<open>MakeSnapshot\<close> (the capture itself) is an argument; \<open>AddDate\<close> is
  the host calendar's date arithmetic; \<open>clk\<close> gives the clock reading of the named step.
\<close>

definition SnapshotCronInstance :: string where "SnapshotCronInstance = ''*snapshot*''"

definition minRetainedSnapshots :: int where "minRetainedSnapshots = 2"

type_synonym calendar = "gotime \<Rightarrow> int \<Rightarrow> gotime"

section \<open>Upload and its retries\<close>

definition snapshot_runUpload :: "cipher \<Rightarrow> gotime \<Rightarrow> int \<Rightarrow> world \<Rightarrow> goerror option \<times> world" where
  "snapshot_runUpload c now snapshotID w =
     (if snapshotID = 0 then (None, w)
      else case GetActiveOffsiteSettingsDecrypted c w of
             (Inl e, w1) \<Rightarrow> (Some (wrap ''get offsite settings'' e), w1)
           | (Inr None, w1) \<Rightarrow> (None, w1)
           | (Inr (Some s), w1) \<Rightarrow>
               (case UploadSnapshot c now snapshotID w1 of
                  (Inl e, w2) \<Rightarrow> (Some e, w2)
                | (Inr _, w2) \<Rightarrow> (None, w2)))"

text \<open>Whether the retry loop attempts a record; a zero cutoff means no plan was read.\<close>

definition retry_wanted :: "int \<Rightarrow> gotime \<Rightarrow> Record \<Rightarrow> bool" where
  "retry_wanted snapshotID remoteCutoff r \<longleftrightarrow>
     \<not> (snap_ID r = snapshotID \<or> RemotePath r \<noteq> '''' \<or> LocalPath r = '''')
     \<and> snap_Status r = ''completed''
     \<and> \<not> (\<not> IsZero remoteCutoff \<and> snap_CreatedAt r < remoteCutoff)"

definition snapshot_retry_step ::
  "cipher \<Rightarrow> gotime \<Rightarrow> int \<Rightarrow> gotime \<Rightarrow> Record \<Rightarrow> world \<Rightarrow> world" where
  "snapshot_retry_step c now snapshotID remoteCutoff r w =
     (if retry_wanted snapshotID remoteCutoff r then snd (UploadSnapshot c now (snap_ID r) w) else w)"

definition snapshot_runUploadRetries ::
  "cipher \<Rightarrow> calendar \<Rightarrow> gotime \<Rightarrow> int \<Rightarrow> world \<Rightarrow> world" where
  "snapshot_runUploadRetries c AddDate now snapshotID w =
     (case GetActiveOffsiteSettingsDecrypted c w of
        (Inl e, w1) \<Rightarrow> w1
      | (Inr None, w1) \<Rightarrow> w1
      | (Inr (Some s), w1) \<Rightarrow>
     (case Snapshot_List w1 of
        (Inl e, w2) \<Rightarrow> w2
      | (Inr records, w2) \<Rightarrow>
     (case Snapshot_GetPlan w2 of
        (plan, w3) \<Rightarrow>
          let remoteCutoff = (case plan of
                Inr (Some p) \<Rightarrow> AddDate now (- plan_CleanupRemoteDays p)
              | _ \<Rightarrow> 0)
          in fold (snapshot_retry_step c now snapshotID remoteCutoff) records w3)))"

section \<open>Local retention\<close>

definition removeLocalSnapshot :: "Record \<Rightarrow> world \<Rightarrow> goerror option \<times> world" where
  "removeLocalSnapshot r w =
     (case os_Remove (LocalPath r) w of (err, w1) \<Rightarrow>
        if err \<noteq> None \<and> \<not> errors_Is (the err) ErrNotExist
        then (Some (wrap (''delete '' @ LocalPath r) (the err)), w1)
        else if RemotePath r = '''' then Snapshot_Delete (snap_ID r) w1
        else Snapshot_ClearLocalLocation (snap_ID r) w1)"

record walk_state =
  ws_floor :: retentionFloor
  ws_completeKept :: bool
  ws_deleted :: int
  ws_reconciled :: int

definition walk_start :: walk_state where
  "walk_start = \<lparr>ws_floor = newRetentionFloor minRetainedSnapshots, ws_completeKept = False,
                 ws_deleted = 0, ws_reconciled = 0\<rparr>"

text \<open>One turn of the loop over the records, newest first.\<close>

definition snapshot_local_step ::
  "bool \<Rightarrow> gotime \<Rightarrow> gotime \<Rightarrow> Record \<Rightarrow> walk_state \<times> world \<Rightarrow> walk_state \<times> world" where
  "snapshot_local_step offsiteConfigured cutoff pinCutoff r s =
     (case s of (a, w) \<Rightarrow>
        if LocalPath r = '''' then (a, w)
        else case localArchivePresent '''' (LocalPath r) w of (present, w1) \<Rightarrow>
        (case snapshotRetentionProtects (ws_floor a) (ws_completeKept a) present
                (snapshotIsComplete r) (\<not> snap_CreatedAt r < pinCutoff) of (verdict, fl, ck) \<Rightarrow>
         let a1 = a\<lparr>ws_floor := fl, ws_completeKept := ck\<rparr> in
         if vd_keep verdict \<noteq> retentionKeepNone then (a1, w1)
         else if \<not> snap_CreatedAt r < cutoff then (a1, w1)
         else if present \<and> offsiteConfigured \<and> RemotePath r = '''' then (a1, w1)
         else (case removeLocalSnapshot r w1 of
                 (Some e, w2) \<Rightarrow> (a1, w2)
               | (None, w2) \<Rightarrow>
                   if present then (a1\<lparr>ws_deleted := ws_deleted a1 + 1\<rparr>, w2)
                   else (a1\<lparr>ws_reconciled := ws_reconciled a1 + 1\<rparr>, w2))))"

text \<open>
  Fail safe: settings that cannot be read count as configured.
\<close>

definition offsite_assumed :: "world \<Rightarrow> bool \<times> world" where
  "offsite_assumed w =
     (case Offsite_GetActive w of
        (Inl e, w1) \<Rightarrow> (True, w1)
      | (Inr None, w1) \<Rightarrow> (False, w1)
      | (Inr (Some s), w1) \<Rightarrow> (True, w1))"

definition snapshot_runLocalCleanup :: "calendar \<Rightarrow> gotime \<Rightarrow> world \<Rightarrow> goerror option \<times> world" where
  "snapshot_runLocalCleanup AddDate now w =
     (case Snapshot_GetPlan w of
        (Inl e, w1) \<Rightarrow> (Some e, w1)
      | (Inr None, w1) \<Rightarrow> (None, w1)
      | (Inr (Some plan), w1) \<Rightarrow>
     (case offsite_assumed w1 of (offsiteConfigured, w2) \<Rightarrow>
        let cutoff = AddDate now (- plan_CleanupLocalDays plan);
            pinCutoff = completePinCutoff AddDate now (plan_CleanupLocalDays plan) in
     (case Snapshot_List w2 of
        (Inl e, w3) \<Rightarrow> (Some e, w3)
      | (Inr records, w3) \<Rightarrow>
          (None, snd (fold (snapshot_local_step offsiteConfigured cutoff pinCutoff) records
                        (walk_start, w3))))))"

section \<open>Offsite retention\<close>

definition snapshot_remote_step ::
  "Client \<Rightarrow> string \<Rightarrow> gotime \<Rightarrow> gotime \<Rightarrow> Record \<Rightarrow> walk_state \<times> world \<Rightarrow> walk_state \<times> world" where
  "snapshot_remote_step cl bucket cutoff pinCutoff r s =
     (case s of (a, w) \<Rightarrow>
        if RemotePath r = '''' then (a, w)
        else
        let isComplete = snapshotIsComplete r;
            needHead = (\<not> floor_full (ws_floor a) \<or> (\<not> ws_completeKept a \<and> isComplete)) in
        case (if needHead then remoteArchivePresent cl bucket (RemotePath r) w else (False, w)) of
          (present, w1) \<Rightarrow>
        (case snapshotRetentionProtects (ws_floor a) (ws_completeKept a) present isComplete
                (\<not> snap_CreatedAt r < pinCutoff) of (verdict, fl, ck) \<Rightarrow>
         let a1 = a\<lparr>ws_floor := fl, ws_completeKept := ck\<rparr> in
         if vd_keep verdict \<noteq> retentionKeepNone then (a1, w1)
         else if \<not> snap_CreatedAt r < cutoff then (a1, w1)
         else (case parseS3Location (RemotePath r) of
                 Inl e \<Rightarrow> (a1, w1)
               | Inr (b, key) \<Rightarrow>
                   if b \<noteq> bucket then (a1, w1)
                   else (case DeleteFile cl (RelativeKey cl key) w1 of
                           (Some e, w2) \<Rightarrow> (a1, w2)
                         | (None, w2) \<Rightarrow>
                             (case (if LocalPath r = '''' then Snapshot_Delete (snap_ID r) w2
                                    else Snapshot_ClearRemoteLocation (snap_ID r) w2) of
                                (Some e, w3) \<Rightarrow> (a1, w3)
                              | (None, w3) \<Rightarrow> (a1\<lparr>ws_deleted := ws_deleted a1 + 1\<rparr>, w3))))))"

definition snapshot_runRemoteCleanup ::
  "cipher \<Rightarrow> calendar \<Rightarrow> gotime \<Rightarrow> world \<Rightarrow> goerror option \<times> world" where
  "snapshot_runRemoteCleanup c AddDate now w =
     (case GetActiveOffsiteSettingsDecrypted c w of
        (Inl e, w1) \<Rightarrow> (Some (wrap ''get offsite settings'' e), w1)
      | (Inr None, w1) \<Rightarrow> (None, w1)
      | (Inr (Some settings), w1) \<Rightarrow>
     (case Snapshot_GetPlan w1 of
        (Inl e, w2) \<Rightarrow> (Some e, w2)
      | (Inr None, w2) \<Rightarrow> (None, w2)
      | (Inr (Some plan), w2) \<Rightarrow>
     (case NewClient settings w2 of
        (Inl e, w3) \<Rightarrow> (Some (wrap ''create S3 client'' e), w3)
      | (Inr cl, w3) \<Rightarrow>
        let cutoff = AddDate now (- plan_CleanupRemoteDays plan);
            pinCutoff = completePinCutoff AddDate now (plan_CleanupRemoteDays plan) in
     (case Snapshot_List w3 of
        (Inl e, w4) \<Rightarrow> (Some e, w4)
      | (Inr records, w4) \<Rightarrow>
          (None, snd (fold (snapshot_remote_step cl (off_Bucket settings) cutoff pinCutoff) records
                        (walk_start, w4)))))))"

section \<open>The task\<close>

record MakeSnapshotResult =
  ms_ID :: int
  ms_CaptureFailureError :: "goerror option"

type_synonym make_snapshot = "string \<Rightarrow> world \<Rightarrow> MakeSnapshotResult res \<times> world"

text \<open>\<open>runSnapshot\<close>: the error of the phase, and the id of the archive when one was written.\<close>

definition runSnapshot :: "make_snapshot \<Rightarrow> world \<Rightarrow> (goerror option \<times> int option) \<times> world" where
  "runSnapshot MakeSnapshot w =
     (case Snapshot_GetPlan w of
        (Inl e, w1) \<Rightarrow>
          ((Some (wrap ''read snapshot plan (its format decides how to capture)'' e), None), w1)
      | (Inr plan, w1) \<Rightarrow>
          let format = (case plan of None \<Rightarrow> '''' | Some p \<Rightarrow> plan_Format p) in
          (case MakeSnapshot format w1 of
             (Inl e, w2) \<Rightarrow> ((Some e, None), w2)
           | (Inr res, w2) \<Rightarrow> ((ms_CaptureFailureError res, Some (ms_ID res)), w2)))"

text \<open>
  \<open>phase\<close> writes the status, the time and the cause, one statement each (a failed write is
  only logged), and tells the reporter. The error text is the cause's.
\<close>

definition cron_set :: "int \<Rightarrow> string \<Rightarrow> column_value \<Rightarrow> world \<Rightarrow> world" where
  "cron_set logID column v w = snd (Cron_UpdateLog logID [(column, v)] w)"

definition cron_phase ::
  "int \<Rightarrow> (string \<Rightarrow> gotime) \<Rightarrow> string \<Rightarrow> goerror option
     \<Rightarrow> cronRunReporter \<times> world \<Rightarrow> cronRunReporter \<times> world" where
  "cron_phase logID clk name cause s =
     (case s of (rp, w) \<Rightarrow>
        let status = (if cause = None then ''ok'' else ''fail'');
            w1 = cron_set logID (name @ ''_status'') (VText status) w;
            w2 = cron_set logID (name @ ''_finished_at'') (VTime (clk name)) w1;
            w3 = (case cause of None \<Rightarrow> w2
                  | Some e \<Rightarrow> cron_set logID (name @ ''_error'') (VText (Error e)) w2)
        in (record_phase name status cause rp, w3))"

definition SnapshotCronTask_Execute ::
  "cipher \<Rightarrow> calendar \<Rightarrow> make_snapshot \<Rightarrow> (string \<Rightarrow> gotime) \<Rightarrow> world
     \<Rightarrow> (goerror option \<times> notification option) \<times> world" where
  "SnapshotCronTask_Execute c AddDate MakeSnapshot clk w =
     (case newCronRunReporter SnapshotCronInstance ''the whole deployment'' ''Snapshot'' w of (rp, w0) \<Rightarrow>
     (case Cron_CreateLog (clk ''start'') SnapshotCronInstance w0 of
        (Inl e, w1) \<Rightarrow> ((Some (wrap ''creating snapshot cron log'' e), None), w1)
      | (Inr cronLog, w1) \<Rightarrow>
        let n = cl_ID cronLog in
     (case runSnapshot MakeSnapshot w1 of ((err, made), w2) \<Rightarrow>
        let rp1 = (if made = None then rp else noteArchive rp);
            snapshotID = (case made of None \<Rightarrow> 0 | Some i \<Rightarrow> i) in
     (case cron_phase n clk ''backup'' err (rp1, w2) of (rp2, w3) \<Rightarrow>
     (case (if snapshotID \<noteq> 0
            then (case snapshot_runUpload c (clk ''upload'') snapshotID w3 of (uerr, w4) \<Rightarrow>
                    cron_phase n clk ''backup_upload'' uerr (rp2, w4))
            else (rp2, w3)) of (rp3, w5) \<Rightarrow>
     (case snapshot_runLocalCleanup AddDate (clk ''local'')
             (snapshot_runUploadRetries c AddDate (clk ''retry'') snapshotID w5) of (lerr, w6) \<Rightarrow>
     (case cron_phase n clk ''backup_cleanup'' lerr (rp3, w6) of (rp4, w7) \<Rightarrow>
     (case snapshot_runRemoteCleanup c AddDate (clk ''remote'') w7 of (rerr, w8) \<Rightarrow>
     (case cron_phase n clk ''backup_remote_cleanup'' rerr (rp4, w8) of (rp5, w9) \<Rightarrow>
        ((None, finish rp5), snd (Cron_CompleteLog (clk ''complete'') n w9)))))))))))"

section \<open>What local retention may remove\<close>

lemma os_Remove_effect:
  assumes "os_Remove p w = (r, w')"
  shows "same_tables w w' \<and> objects w' = objects w \<and> (\<forall>q. q \<noteq> p \<longrightarrow> files w' q = files w q)
     \<and> (files w' p = files w p \<or> files w' p = None)"
proof -
  obtain oc w1 where n: "next_io w = (oc, w1)" by fastforce
  then have s: "same_but_io w w1" by (rule next_io_same)
  show ?thesis
    using assms n same_tables_io[OF s] same_but_io_stores[OF s]
    by (cases oc) (auto simp: os_Remove_def same_tables_def split: option.splits)
qed

lemma Snapshot_Delete_storage:
  "Snapshot_Delete n w = (r, w') \<Longrightarrow> files w' = files w \<and> objects w' = objects w"
  unfolding Snapshot_Delete_def by (rule snap_exec_storage(2))

lemma Snapshot_Clear_storage:
  "Snapshot_ClearLocalLocation n w = (r, w') \<Longrightarrow> files w' = files w \<and> objects w' = objects w"
  "Snapshot_ClearRemoteLocation n w = (r, w') \<Longrightarrow> files w' = files w \<and> objects w' = objects w"
  unfolding Snapshot_ClearLocalLocation_def Snapshot_ClearRemoteLocation_def
  by (auto split: prod.splits sum.splits option.splits if_splits
      dest!: sql_query_same snap_exec_storage(1) simp: same_but_io_fields)

lemma removeLocalSnapshot_effect:
  assumes "removeLocalSnapshot r w = (e, w')"
  shows "objects w' = objects w \<and> (\<forall>q. q \<noteq> LocalPath r \<longrightarrow> files w' q = files w q)
     \<and> (files w' (LocalPath r) = files w (LocalPath r) \<or> files w' (LocalPath r) = None)"
proof -
  obtain er w1 where rm: "os_Remove (LocalPath r) w = (er, w1)" by fastforce
  note eff = os_Remove_effect[OF rm]
  have "files w' = files w1 \<and> objects w' = objects w1"
    using assms rm
    by (auto simp: removeLocalSnapshot_def split: if_splits
        dest: Snapshot_Delete_storage Snapshot_Clear_storage(1))
  then show ?thesis using eff by auto
qed

lemma removeLocalSnapshot_keeps:
  assumes "removeLocalSnapshot r w = (e, w')" "snapshots_ok w"
  shows "snapshots_ok w'"
proof -
  obtain er w1 where rm: "os_Remove (LocalPath r) w = (er, w1)" by fastforce
  have "same_tables w w1" using os_Remove_effect[OF rm] by blast
  then have "snapshots_ok w1" using assms(2) by (simp add: snapshots_ok_def same_tables_fields)
  then show ?thesis
    using assms(1) rm
    by (auto simp: removeLocalSnapshot_def split: if_splits
        dest: Snapshot_Delete_keeps Snapshot_ClearLocalLocation_keeps)
qed

text \<open>The turn of the loop either leaves the world, up to the schedule, or removes.\<close>

lemma snapshot_local_step_cases:
  assumes "snapshot_local_step oc cutoff pin r (a, w) = (a', w')"
  obtains (skip) "LocalPath r = ''''" "a' = a" "w' = w"
    | (keep) present w1 v fl ck where "LocalPath r \<noteq> ''''"
        "localArchivePresent '''' (LocalPath r) w = (present, w1)"
        "snapshotRetentionProtects (ws_floor a) (ws_completeKept a) present (snapshotIsComplete r)
           (\<not> snap_CreatedAt r < pin) = (v, fl, ck)"
        "ws_floor a' = fl" "ws_completeKept a' = ck" "w' = w1"
        "vd_keep v \<noteq> retentionKeepNone \<or> \<not> snap_CreatedAt r < cutoff \<or> present \<and> oc \<and> RemotePath r = ''''"
    | (remove) present w1 v fl ck e where "LocalPath r \<noteq> ''''"
        "localArchivePresent '''' (LocalPath r) w = (present, w1)"
        "snapshotRetentionProtects (ws_floor a) (ws_completeKept a) present (snapshotIsComplete r)
           (\<not> snap_CreatedAt r < pin) = (v, fl, ck)"
        "ws_floor a' = fl" "ws_completeKept a' = ck" "removeLocalSnapshot r w1 = (e, w')"
        "vd_keep v = retentionKeepNone" "snap_CreatedAt r < cutoff" "present \<longrightarrow> oc \<longrightarrow> RemotePath r \<noteq> ''''"
proof (cases "LocalPath r = ''''")
  case True
  then show thesis using assms skip by (simp add: snapshot_local_step_def)
next
  case False
  obtain present w1 where p: "localArchivePresent '''' (LocalPath r) w = (present, w1)" by fastforce
  obtain v fl ck where v: "snapshotRetentionProtects (ws_floor a) (ws_completeKept a) present
      (snapshotIsComplete r) (\<not> snap_CreatedAt r < pin) = (v, fl, ck)" by (metis prod.exhaust)
  obtain e w2 where rm: "removeLocalSnapshot r w1 = (e, w2)" by fastforce
  let ?stay = "vd_keep v \<noteq> retentionKeepNone \<or> \<not> snap_CreatedAt r < cutoff \<or> present \<and> oc \<and> RemotePath r = ''''"
  show thesis
  proof (cases ?stay)
    case True
    then have "a' = a\<lparr>ws_floor := fl, ws_completeKept := ck\<rparr>" "w' = w1"
      using assms False p v by (auto simp: snapshot_local_step_def Let_def split: if_splits)
    then show thesis using keep[OF False p v _ _ _ True] by simp
  next
    case stay: False
    then have "ws_floor a' = fl \<and> ws_completeKept a' = ck \<and> w' = w2"
      using assms False p v rm
      by (cases e) (auto simp: snapshot_local_step_def Let_def split: if_splits)
    then show thesis using remove[OF False p v] rm stay by blast
  qed
qed

definition local_reason :: "bool \<Rightarrow> gotime \<Rightarrow> Record \<Rightarrow> string \<Rightarrow> bool" where
  "local_reason oc cutoff r p \<longleftrightarrow>
     LocalPath r = p \<and> snap_CreatedAt r < cutoff \<and> (oc \<longrightarrow> RemotePath r \<noteq> '''')"

interpretation snap_local: justified_walk "snapshot_local_step oc cutoff pin"
  "\<lambda>w p. files w p \<noteq> None" "local_reason oc cutoff" for oc cutoff pin
proof unfold_locales
  fix r a w a' w' p
  assume st: "snapshot_local_step oc cutoff pin r (a, w) = (a', w')"
    and p: "files w p \<noteq> None" "\<not> files w' p \<noteq> None"
  from st show "local_reason oc cutoff r p"
  proof (cases rule: snapshot_local_step_cases)
    case skip
    then show ?thesis using p by simp
  next
    case (keep present w1 v fl ck)
    then show ?thesis using p localArchivePresent_same[OF keep(2)] by (simp add: same_but_io_fields)
  next
    case (remove present w1 v fl ck e)
    have f1: "files w1 = files w"
      using localArchivePresent_same[OF remove(2)] by (simp add: same_but_io_fields)
    then have eq: "p = LocalPath r"
      using removeLocalSnapshot_effect[OF remove(6)] p by metis
    have "present"
      using localArchivePresent_absent[of "''''" "LocalPath r" w w1] remove(1,2) p(1) eq by (cases present) auto
    then show ?thesis using remove eq by (simp add: local_reason_def)
  qed
qed

lemma sql_query_Inr: "sql_query q w = (Inr x, w') \<Longrightarrow> \<exists>w1. same_but_io w w1 \<and> x = q w1"
  by (auto simp: sql_query_def dest: next_io_same split: prod.splits if_splits)

lemma Snapshot_GetPlan_same: "Snapshot_GetPlan w = (r, w') \<Longrightarrow> same_but_io w w'"
  by (auto simp: Snapshot_GetPlan_def intro: sql_query_same split: prod.splits sum.splits)

lemma Snapshot_GetPlan_Inr: "Snapshot_GetPlan w = (Inr p, w') \<Longrightarrow> p = snapshot_plans w"
  by (auto simp: Snapshot_GetPlan_def same_but_io_fields dest!: sql_query_Inr split: prod.splits sum.splits)

lemma Snapshot_List_same: "Snapshot_List w = (r, w') \<Longrightarrow> same_but_io w w'"
  by (auto simp: Snapshot_List_def intro: sql_query_same split: prod.splits sum.splits)

lemma Snapshot_List_Inr:
  "Snapshot_List w = (Inr l, w') \<Longrightarrow> l = sort_desc snap_CreatedAt (snapshot_history w)"
  by (auto simp: Snapshot_List_def same_but_io_fields dest!: sql_query_Inr split: prod.splits sum.splits)

lemma offsite_assumed_same: "offsite_assumed w = (b, w') \<Longrightarrow> same_but_io w w'"
  by (auto simp: offsite_assumed_def intro: Offsite_GetActive_same split: prod.splits sum.splits option.splits)

lemma offsite_assumed_False:
  "offsite_assumed w = (False, w') \<Longrightarrow> \<forall>s \<in> set (offsite_settings w). \<not> off_Active s"
  by (auto simp: offsite_assumed_def Offsite_GetActive_def same_but_io_fields find_None_iff2
      dest!: sql_query_Inr split: prod.splits sum.splits option.splits)

lemma snapshot_runLocalCleanup_loop:
  assumes "snapshot_runLocalCleanup AddDate now w = (e, w')"
  obtains (idle) "same_but_io w w'"
    | (loop) plan oc w3 where "snapshot_plans w = Some plan" "same_but_io w w3" "e = None"
        "oc \<or> (\<forall>s \<in> set (offsite_settings w). \<not> off_Active s)"
        "w' = snd (fold (snapshot_local_step oc (AddDate now (- plan_CleanupLocalDays plan))
                 (completePinCutoff AddDate now (plan_CleanupLocalDays plan)))
               (sort_desc snap_CreatedAt (snapshot_history w)) (walk_start, w3))"
        "io_schedule w = [] \<longrightarrow> w3 = w"
proof -
  obtain pl w1 where a1: "Snapshot_GetPlan w = (pl, w1)" by fastforce
  note s1 = Snapshot_GetPlan_same[OF a1]
  obtain oc w2 where a2: "offsite_assumed w1 = (oc, w2)" by fastforce
  note s2 = same_but_io_trans[OF s1 offsite_assumed_same[OF a2]]
  obtain rs w3 where a3: "Snapshot_List w2 = (rs, w3)" by fastforce
  note s3 = same_but_io_trans[OF s2 Snapshot_List_same[OF a3]]
  consider "w' = w1" | "w' = w3"
    | plan records where "pl = Inr (Some plan)" "rs = Inr records" "e = None"
        "w' = snd (fold (snapshot_local_step oc (AddDate now (- plan_CleanupLocalDays plan))
                 (completePinCutoff AddDate now (plan_CleanupLocalDays plan))) records (walk_start, w3))"
    using assms a1 a2 a3
    by (auto simp: snapshot_runLocalCleanup_def Let_def split: sum.splits option.splits)
  then show thesis
  proof cases
    case 1
    then show thesis using idle s1 by simp
  next
    case 2
    then show thesis using idle s3 by simp
  next
    case (3 plan records)
    have "snapshot_plans w = Some plan"
      using Snapshot_GetPlan_Inr[of w "Some plan" w1] a1 3(1) by simp
    moreover have "records = sort_desc snap_CreatedAt (snapshot_history w)"
      using Snapshot_List_Inr[of w2 records w3] a3 3(2) s2 by (simp add: same_but_io_fields)
    moreover have "oc \<or> (\<forall>s \<in> set (offsite_settings w). \<not> off_Active s)"
      using offsite_assumed_False[of w1 w2] a2 s1 by (cases oc) (simp_all add: same_but_io_fields)
    moreover have "io_schedule w = [] \<longrightarrow> w3 = w"
      using a1 a2 a3
      by (auto simp: Snapshot_GetPlan_def offsite_assumed_def Offsite_GetActive_def Snapshot_List_def
          calm_primitives split: option.splits)
    ultimately show thesis using loop s3 3(3,4) by blast
  qed
qed

text \<open>
  C19. The only-copy safeguard of local snapshot retention, under every pattern of disk and
  database failures: a local archive disappears only if a catalogue row names it, that row
  is older than the configured retention, and, whenever an offsite configuration is active, the
  row has a remote copy. Only with no active offsite does age alone suffice, as the code intends
  for a host that keeps local copies only; settings that could not be read count as an active
  offsite and never license a deletion.
\<close>

theorem snapshot_local_cleanup_safeguard:
  assumes "snapshot_runLocalCleanup AddDate now w = (e, w')"
    and "files w p \<noteq> None" "files w' p = None"
  shows "\<exists>plan r. snapshot_plans w = Some plan \<and> r \<in> set (snapshot_history w) \<and> LocalPath r = p
     \<and> snap_CreatedAt r < AddDate now (- plan_CleanupLocalDays plan)
     \<and> (RemotePath r \<noteq> '''' \<or> (\<forall>s \<in> set (offsite_settings w). \<not> off_Active s))"
  using assms(1)
proof (cases rule: snapshot_runLocalCleanup_loop)
  case idle
  then show ?thesis using assms(2,3) by (simp add: same_but_io_fields)
next
  case (loop plan oc w3)
  let ?cut = "AddDate now (- plan_CleanupLocalDays plan)"
  let ?pin = "completePinCutoff AddDate now (plan_CleanupLocalDays plan)"
  obtain a where "fold (snapshot_local_step oc ?cut ?pin)
      (sort_desc snap_CreatedAt (snapshot_history w)) (walk_start, w3) = (a, w')"
    using loop(5) by (metis prod.collapse)
  from snap_local.walk_justified[OF this, of p] obtain r
    where "r \<in> set (snapshot_history w)" "local_reason oc ?cut r p"
    using assms(2,3) loop(2) by (auto simp: same_but_io_fields)
  then show ?thesis using loop(1,4) by (auto simp: local_reason_def)
qed

definition demo_host :: world where
  "demo_host = empty_world
     \<lparr>snapshot_history := [demo_record 1 10 (Some ''/b/1'') (Some ''s3://bkt/1''), demo_record 2 20 (Some ''/b/2'') None,
         demo_record 3 30 (Some ''/b/3'') None, demo_record 4 40 (Some ''/b/4'') None],
      snapshot_seq := 4, snapshot_plans := Some demo_plan, offsite_settings := [demo_settings],
      files := (\<lambda>_. None)(''/b/1'' := Some 10, ''/b/2'' := Some 10, ''/b/3'' := Some 10, ''/b/4'' := Some 10)\<rparr>"

theorem snapshot_local_cleanup_safeguard_witness:
  "let w' = snd (snapshot_runLocalCleanup (\<lambda>t d. t + d) 100 demo_host) in
   files w' ''/b/1'' = None \<and> files w' ''/b/2'' = Some 10
   \<and> (\<exists>r \<in> set (snapshot_history demo_host). LocalPath r = ''/b/1'' \<and> snap_CreatedAt r < 93 \<and> RemotePath r \<noteq> '''')"
proof -
  let ?w' = "snd (snapshot_runLocalCleanup (\<lambda>t d. t + d) 100 demo_host)"
  have run: "files ?w' ''/b/1'' = None" "files ?w' ''/b/2'' = Some 10"
    by code_simp+
  have pre: "files demo_host ''/b/1'' \<noteq> None" "\<not> (\<forall>s \<in> set (offsite_settings demo_host). \<not> off_Active s)"
    "snapshot_plans demo_host = Some demo_plan" "plan_CleanupLocalDays demo_plan = 7"
    by (simp_all add: demo_host_def demo_settings_def demo_plan_def)
  obtain plan r where "snapshot_plans demo_host = Some plan" "r \<in> set (snapshot_history demo_host)"
    "LocalPath r = ''/b/1''" "snap_CreatedAt r < 100 + - plan_CleanupLocalDays plan" "RemotePath r \<noteq> ''''"
    using snapshot_local_cleanup_safeguard[OF prod.collapse[symmetric] pre(1) run(1)] pre(2) by blast
  then have "\<exists>r \<in> set (snapshot_history demo_host). LocalPath r = ''/b/1'' \<and> snap_CreatedAt r < 93 \<and> RemotePath r \<noteq> ''''"
    using pre(3,4) by force
  then show ?thesis using run by (simp only: Let_def simp_thms)
qed

section \<open>What local retention always keeps\<close>

definition local_copy :: "world \<Rightarrow> Record \<Rightarrow> bool" where
  "local_copy w r \<longleftrightarrow> LocalPath r \<noteq> '''' \<and> files w (LocalPath r) \<noteq> None"

definition walk_ok :: "walk_state \<Rightarrow> bool" where
  "walk_ok a \<longleftrightarrow> fl_limit (ws_floor a) = 2 \<and> 0 \<le> fl_kept (ws_floor a) \<and> fl_kept (ws_floor a) \<le> 2"

abbreviation walk_kept :: "walk_state \<Rightarrow> nat" where
  "walk_kept a \<equiv> nat (fl_kept (ws_floor a))"

lemma walk_start_ok: "walk_ok walk_start \<and> walk_kept walk_start = 0 \<and> \<not> ws_completeKept walk_start"
  by (simp add: walk_ok_def walk_start_def newRetentionFloor_def minRetainedSnapshots_def)

lemma localArchivePresent_calm:
  "io_schedule w = [] \<Longrightarrow> l \<noteq> '''' \<Longrightarrow> localArchivePresent '''' l w = (files w l \<noteq> None, w)"
  by (simp add: localArchivePresent_def calm_primitives split: option.splits)

lemma snap_exec_calm:
  "io_schedule w = [] \<Longrightarrow> snap_exec m (snap_update_stmt p f) w = (r, w') \<Longrightarrow> io_schedule w' = []"
  "io_schedule w = [] \<Longrightarrow> snap_exec m (snap_delete_stmt n) w = (r, w') \<Longrightarrow> io_schedule w' = []"
  by (auto simp: snap_exec_def calm_primitives snap_update_stmt_def snap_delete_stmt_def split: if_splits)

lemma removeLocalSnapshot_calm:
  assumes "io_schedule w = []" "removeLocalSnapshot r w = (e, w')"
  shows "io_schedule w' = []"
proof -
  obtain er w1 where rm: "os_Remove (LocalPath r) w = (er, w1)" by fastforce
  then have "io_schedule w1 = []" using assms(1) by (auto simp: calm_primitives split: option.splits)
  then show ?thesis
    using assms(2) rm
    by (auto simp: removeLocalSnapshot_def Snapshot_Delete_def Snapshot_ClearLocalLocation_def calm_primitives
        dest: snap_exec_calm split: if_splits option.splits)
qed

lemma walk_counts:
  assumes "walk_ok a" "ws_floor a' = fl" "fl_limit fl = fl_limit (ws_floor a)"
    "fl_kept fl = fl_kept (ws_floor a) + (if present \<and> fl_kept (ws_floor a) < fl_limit (ws_floor a) then 1 else 0)"
  shows "walk_ok a' \<and> walk_kept a' = walk_kept a + (if present \<and> walk_kept a < 2 then 1 else 0)"
proof (cases "present \<and> fl_kept (ws_floor a) < 2")
  case True
  then have "fl_kept (ws_floor a') = fl_kept (ws_floor a) + 1" "fl_limit (ws_floor a') = 2"
    using assms by (simp_all add: walk_ok_def)
  then show ?thesis using True assms(1) by (simp add: walk_ok_def nat_add_distrib nat_less_iff)
next
  case False
  then have "fl_kept (ws_floor a') = fl_kept (ws_floor a)" "fl_limit (ws_floor a') = 2"
    using assms by (simp_all add: walk_ok_def)
  then show ?thesis using False assms(1) by (simp add: walk_ok_def nat_less_iff)
qed

text \<open>A turn on a calm world, in the terms of the keep rule.\<close>

lemma snapshot_local_step_calm:
  assumes "snapshot_local_step oc cutoff pin r (a, w) = (a', w')" "io_schedule w = []" "walk_ok a"
  shows "io_schedule w' = [] \<and> walk_ok a'
    \<and> walk_kept a' = walk_kept a + (if local_copy w r \<and> walk_kept a < 2 then 1 else 0)
    \<and> (ws_completeKept a' \<longleftrightarrow> ws_completeKept a \<or> local_copy w r \<and> snapshotIsComplete r)
    \<and> (\<forall>q. q \<noteq> LocalPath r \<longrightarrow> files w' q = files w q)
    \<and> (\<forall>q. files w' q \<noteq> None \<longrightarrow> files w q \<noteq> None)
    \<and> (local_copy w r \<and> (walk_kept a < 2 \<or> snapshotIsComplete r \<and> \<not> ws_completeKept a \<and> \<not> snap_CreatedAt r < pin)
         \<longrightarrow> files w' = files w)
    \<and> (\<not> local_copy w r \<longrightarrow> files w' = files w)"
  using assms(1)
proof (cases rule: snapshot_local_step_cases)
  case skip
  then show ?thesis using assms(2,3) by (simp add: local_copy_def)
next
  case (keep present w1 v fl ck)
  have p: "present = local_copy w r" "w1 = w"
    using keep(1,2) localArchivePresent_calm[OF assms(2) keep(1)] by (auto simp: local_copy_def)
  have "fl_kept (ws_floor a) \<le> fl_limit (ws_floor a)" using assms(3) by (simp add: walk_ok_def)
  note rule = keep_counts[OF keep(3) this]
  have k: "walk_ok a' \<and> walk_kept a' = walk_kept a + (if local_copy w r \<and> walk_kept a < 2 then 1 else 0)"
    using walk_counts[OF assms(3) keep(4) rule(1,2)] p(1) by simp
  have ck: "ws_completeKept a' \<longleftrightarrow> ws_completeKept a \<or> local_copy w r \<and> snapshotIsComplete r"
    using rule(3) keep(5) p(1) by simp
  show ?thesis using k ck p(2) keep(6) assms(2) by simp
next
  case (remove present w1 v fl ck e)
  have p: "present = local_copy w r" "w1 = w"
    using remove(1,2) localArchivePresent_calm[OF assms(2) remove(1)] by (auto simp: local_copy_def)
  have "fl_kept (ws_floor a) \<le> fl_limit (ws_floor a)" using assms(3) by (simp add: walk_ok_def)
  note rule = keep_counts[OF remove(3) this]
  have eff: "\<forall>q. q \<noteq> LocalPath r \<longrightarrow> files w' q = files w q"
    "files w' (LocalPath r) = files w (LocalPath r) \<or> files w' (LocalPath r) = None"
    using removeLocalSnapshot_effect[OF remove(6)] p(2) by auto
  have calm: "io_schedule w' = []" using removeLocalSnapshot_calm assms(2) remove(6) p(2) by blast
  have gone: "files w' = files w" if "\<not> local_copy w r"
  proof
    fix q
    show "files w' q = files w q"
      using eff that remove(1) by (cases "q = LocalPath r") (auto simp: local_copy_def)
  qed
  have old: "files w q \<noteq> None" if "files w' q \<noteq> None" for q
    using eff that by (cases "q = LocalPath r") auto
  have room: "fl_kept (ws_floor a) < fl_limit (ws_floor a) \<longleftrightarrow> walk_kept a < 2"
    using assms(3) by (simp add: walk_ok_def nat_less_iff)
  have nokeep: "\<not> (local_copy w r \<and> (walk_kept a < 2 \<or>
      snapshotIsComplete r \<and> \<not> ws_completeKept a \<and> \<not> snap_CreatedAt r < pin))"
    using rule(4)[unfolded room] remove(7) p(1) by simp
  have k: "walk_ok a' \<and> walk_kept a' = walk_kept a + (if local_copy w r \<and> walk_kept a < 2 then 1 else 0)"
    using walk_counts[OF assms(3) remove(4) rule(1,2)] p(1) by simp
  have ck: "ws_completeKept a' \<longleftrightarrow> ws_completeKept a \<or> local_copy w r \<and> snapshotIsComplete r"
    using rule(3) remove(5) p(1) by simp
  show ?thesis
    by (intro conjI)
       (rule calm, rule k[THEN conjunct1], rule k[THEN conjunct2], rule ck, rule eff(1),
        use old in blast, use nokeep in blast, use gone in blast)
qed

lemmas snapshot_local_turn =
  snapshot_local_step_calm[THEN conjunct2, THEN conjunct2, THEN conjunct1]
  snapshot_local_step_calm[THEN conjunct2, THEN conjunct2, THEN conjunct2, THEN conjunct1]
  snapshot_local_step_calm[THEN conjunct2, THEN conjunct2, THEN conjunct2, THEN conjunct2, THEN conjunct2,
    THEN conjunct2, THEN conjunct1, THEN mp]

lemma local_copy_files: "local_copy w r \<Longrightarrow> files w' (LocalPath r) = files w (LocalPath r) \<Longrightarrow> local_copy w' r"
  by (simp add: local_copy_def)

text \<open>
  The floor needs no case of its own for the turn: it starts from a walk state that is in
  range, so the loop is packed with that fact.
\<close>

lemma snapshot_local_invariant:
  assumes "snapshot_local_step oc cutoff pin r (a, w) = (a', w')" "walk_ok a"
  shows "walk_ok a'"
  using assms(1)
proof (cases rule: snapshot_local_step_cases)
  case skip
  then show ?thesis using assms(2) by simp
next
  case (keep present w1 v fl ck)
  have "fl_kept (ws_floor a) \<le> fl_limit (ws_floor a)" using assms(2) by (simp add: walk_ok_def)
  then show ?thesis using walk_counts[OF assms(2) keep(4) keep_counts(1,2)[OF keep(3)]] by blast
next
  case (remove present w1 v fl ck e)
  have "fl_kept (ws_floor a) \<le> fl_limit (ws_floor a)" using assms(2) by (simp add: walk_ok_def)
  then show ?thesis using walk_counts[OF assms(2) remove(4) keep_counts(1,2)[OF remove(3)]] by blast
qed

lemma snapshot_local_calm:
  assumes "snapshot_local_step oc cutoff pin r (a, w) = (a', w')" "io_schedule w = []"
  shows "io_schedule w' = []" "\<And>q. files w' q \<noteq> None \<Longrightarrow> files w q \<noteq> None"
    "\<And>q. q \<noteq> LocalPath r \<or> \<not> local_copy w r \<Longrightarrow> files w' q = files w q"
proof -
  have all: "io_schedule w' = [] \<and> (\<forall>q. files w' q \<noteq> None \<longrightarrow> files w q \<noteq> None)
     \<and> (\<forall>q. q \<noteq> LocalPath r \<or> \<not> local_copy w r \<longrightarrow> files w' q = files w q)"
    using assms(1)
  proof (cases rule: snapshot_local_step_cases)
    case skip
    then show ?thesis using assms(2) by simp
  next
    case (keep present w1 v fl ck)
    then show ?thesis using localArchivePresent_calm[OF assms(2) keep(1)] assms(2) by simp
  next
    case (remove present w1 v fl ck e)
    have w1: "w1 = w" using localArchivePresent_calm[OF assms(2) remove(1)] remove(2) by simp
    note eff = removeLocalSnapshot_effect[OF remove(6), unfolded w1]
    have "files w' q = files w q" if "q \<noteq> LocalPath r \<or> \<not> local_copy w r" for q
      using eff that remove(1) by (cases "q = LocalPath r") (auto simp: local_copy_def)
    moreover have "files w q \<noteq> None" if "files w' q \<noteq> None" for q
      using eff that by (cases "q = LocalPath r") auto
    ultimately show ?thesis using removeLocalSnapshot_calm[OF assms(2)] remove(6) w1 by blast
  qed
  then show "io_schedule w' = []" "\<And>q. files w' q \<noteq> None \<Longrightarrow> files w q \<noteq> None"
    "\<And>q. q \<noteq> LocalPath r \<or> \<not> local_copy w r \<Longrightarrow> files w' q = files w q" by blast+
qed

interpretation snap_local_floor: newest_kept_walk "snapshot_local_step oc cutoff pin"
  walk_kept 2 local_copy LocalPath walk_ok for oc cutoff pin
proof unfold_locales
  fix r a w a' w'
  assume st: "snapshot_local_step oc cutoff pin r (a, w) = (a', w')"
  show "walk_ok a \<Longrightarrow> walk_ok a'" using snapshot_local_invariant[OF st] .
  assume calm: "io_schedule w = []"
  note c = snapshot_local_calm[OF st calm]
  show "io_schedule w' = []" by (rule c(1))
  show "local_copy w s \<Longrightarrow> \<not> (local_copy w r \<and> LocalPath r = LocalPath s) \<Longrightarrow> local_copy w' s" for s
    using c(3)[of "LocalPath s"] by (auto simp: local_copy_def)
  show "local_copy w' s \<Longrightarrow> local_copy w s" for s
    using c(2)[of "LocalPath s"] by (simp add: local_copy_def)
  assume ok: "walk_ok a"
  note s = snapshot_local_turn[OF st calm ok]
  show "\<not> local_copy w r \<Longrightarrow> walk_kept a' = walk_kept a" using s(1) by simp
  show "local_copy w' r \<and> walk_kept a' = walk_kept a + 1" if "local_copy w r" "walk_kept a < 2"
    using s(1) s(3)[OF conjI[OF that(1) disjI1[OF that(2)]]] that by (simp add: local_copy_def)
qed

text \<open>
  C20. The retention floor: on a host that answers, one run of local snapshot retention
  leaves the two newest archives that really exist on disk, however old they are and
  whatever the plan says. Rows whose file is gone take no slot.
\<close>

theorem snapshot_local_floor:
  assumes "snapshot_runLocalCleanup AddDate now w = (e, w')" "io_schedule w = []"
    and "distinct (map LocalPath (filter (local_copy w) (snapshot_history w)))"
    and "r \<in> set (take 2 (filter (local_copy w) (sort_desc snap_CreatedAt (snapshot_history w))))"
  shows "files w' (LocalPath r) \<noteq> None"
  using assms(1)
proof (cases rule: snapshot_runLocalCleanup_loop)
  case idle
  have "local_copy w r" using in_set_takeD[OF assms(4)] by simp
  then show ?thesis using idle by (simp add: same_but_io_fields local_copy_def)
next
  case (loop plan oc w3)
  let ?step = "snapshot_local_step oc (AddDate now (- plan_CleanupLocalDays plan))
      (completePinCutoff AddDate now (plan_CleanupLocalDays plan))"
  let ?rs = "sort_desc snap_CreatedAt (snapshot_history w)"
  have w3: "w3 = w" using loop(6) assms(2) by blast
  obtain a where run: "fold ?step ?rs (walk_start, w) = (a, w')"
    using loop(5) w3 by (metis prod.collapse)
  have "distinct (map LocalPath (filter (local_copy w) ?rs))"
    using assms(3) by (simp add: distinct_map_filter_sort_desc)
  then have "local_copy w' r"
    using snap_local_floor.newest_survive[OF run _ assms(2), of r] walk_start_ok assms(4) by simp
  then show ?thesis by (simp add: local_copy_def)
qed

theorem snapshot_local_floor_witness:
  "files (snd (snapshot_runLocalCleanup (\<lambda>t d. t + d) 100000 demo_host)) ''/b/3'' \<noteq> None"
proof -
  let ?r = "demo_record 3 30 (Some ''/b/3'') None"
  have "distinct (map LocalPath (filter (local_copy demo_host) (snapshot_history demo_host)))"
    by (simp add: demo_host_def local_copy_def LocalPath_def demo_record_def)
  moreover have "take 2 (filter (local_copy demo_host) (sort_desc snap_CreatedAt (snapshot_history demo_host)))
      = [demo_record 4 40 (Some ''/b/4'') None, ?r]"
    by (simp add: demo_host_def local_copy_def LocalPath_def demo_record_def sort_desc_def)
  moreover have "io_schedule demo_host = []" by (simp add: demo_host_def empty_world_def)
  ultimately show ?thesis
    using snapshot_local_floor[OF prod.collapse[symmetric], of demo_host ?r]
    by (simp add: LocalPath_def demo_record_def)
qed

text \<open>The complete slot stays free while no present complete archive has been passed.\<close>

lemma snapshot_local_prefix:
  assumes "fold (snapshot_local_step oc cutoff pin) pre (a, w) = (a', w')" "io_schedule w = []" "walk_ok a"
    "\<not> ws_completeKept a" "\<forall>x \<in> set pre. \<not> (local_copy w x \<and> snapshotIsComplete x)"
  shows "io_schedule w' = [] \<and> walk_ok a' \<and> \<not> ws_completeKept a' \<and> (\<forall>x. local_copy w' x \<longrightarrow> local_copy w x)"
  using assms
proof (induction pre arbitrary: a w)
  case Nil
  then show ?case by simp
next
  case (Cons x pre)
  obtain a1 w1 where st: "snapshot_local_step oc cutoff pin x (a, w) = (a1, w1)" by fastforce
  note c = snapshot_local_calm[OF st Cons.prems(2)]
  have ck: "\<not> ws_completeKept a1"
    using snapshot_local_turn(2)[OF st Cons.prems(2,3)] Cons.prems(4,5) by simp
  have old: "\<forall>y. local_copy w1 y \<longrightarrow> local_copy w y" using c(2) by (auto simp: local_copy_def)
  have run: "fold (snapshot_local_step oc cutoff pin) pre (a1, w1) = (a', w')" using Cons.prems(1) st by simp
  have "\<forall>y \<in> set pre. \<not> (local_copy w1 y \<and> snapshotIsComplete y)" using old Cons.prems(5) by auto
  from Cons.IH[OF run c(1) snapshot_local_invariant[OF st Cons.prems(3)] ck this] old
  show ?case by blast
qed

text \<open>
  C21. Degraded captures do not age out the last complete archive: on a host that answers,
  the newest archive on disk in which every instance has data survives local retention while
  it is within the grace period after its retention window.
\<close>

theorem snapshot_local_pin:
  assumes "snapshot_runLocalCleanup AddDate now w = (e, w')" "io_schedule w = []"
    and "distinct (map LocalPath (filter (local_copy w) (snapshot_history w)))"
    and "snapshot_plans w = Some plan"
    and "find (\<lambda>r. local_copy w r \<and> snapshotIsComplete r) (sort_desc snap_CreatedAt (snapshot_history w)) = Some r"
    and "completePinCutoff AddDate now (plan_CleanupLocalDays plan) \<le> snap_CreatedAt r"
  shows "files w' (LocalPath r) \<noteq> None"
  using assms(1)
proof (cases rule: snapshot_runLocalCleanup_loop)
  case idle
  have "local_copy w r" using assms(5) by (auto simp: find_Some_iff)
  then show ?thesis using idle by (simp add: same_but_io_fields local_copy_def)
next
  case (loop plan' oc w3)
  let ?pin = "completePinCutoff AddDate now (plan_CleanupLocalDays plan)"
  let ?step = "snapshot_local_step oc (AddDate now (- plan_CleanupLocalDays plan)) ?pin"
  let ?rs = "sort_desc snap_CreatedAt (snapshot_history w)"
  have "plan' = plan" "w3 = w" using loop(1,6) assms(2,4) by auto
  then have w': "w' = snd (fold ?step ?rs (walk_start, w))" using loop(5) by simp
  obtain i where i: "i < length ?rs" "?rs ! i = r" "local_copy w r" "snapshotIsComplete r"
    and before: "\<forall>j < i. \<not> (local_copy w (?rs ! j) \<and> snapshotIsComplete (?rs ! j))"
    using assms(5) by (auto simp: find_Some_iff)
  let ?pre = "take i ?rs" and ?post = "drop (Suc i) ?rs"
  have rs: "?rs = ?pre @ r # ?post" using id_take_nth_drop[OF i(1)] i(2) by simp
  have dist: "distinct (map LocalPath (filter (local_copy w) (?pre @ r # ?post)))"
    using assms(3) unfolding rs[symmetric] by (simp add: distinct_map_filter_sort_desc)
  have apart: "LocalPath x \<noteq> LocalPath r" if "x \<in> set ?pre \<union> set ?post" "local_copy w x" for x
    using dist i(3) that by (force simp: image_iff)
  obtain a1 w1 where p1: "fold ?step ?pre (walk_start, w) = (a1, w1)" by fastforce
  have "\<forall>x \<in> set ?pre. \<not> (local_copy w x \<and> snapshotIsComplete x)"
    using before i(1) by (auto simp: in_set_conv_nth)
  note pre = snapshot_local_prefix[OF p1 assms(2) _ _ this] 
  have s1: "io_schedule w1 = []" "walk_ok a1" "\<not> ws_completeKept a1" "\<forall>x. local_copy w1 x \<longrightarrow> local_copy w x"
    using pre walk_start_ok by blast+
  have copy1: "local_copy w1 r"
    using snap_local_floor.walk_frame[OF p1 assms(2) i(3)] apart by blast
  obtain a2 w2 where p2: "?step r (a1, w1) = (a2, w2)" by fastforce
  have "files w2 = files w1"
    using snapshot_local_turn(3)[OF p2 s1(1,2)] copy1 i(4) s1(3) assms(6) by simp
  then have copy2: "local_copy w2 r" using copy1 by (simp add: local_copy_def)
  obtain a3 w4 where p3: "fold ?step ?post (a2, w2) = (a3, w4)" by fastforce
  have run: "fold ?step ?rs (walk_start, w) = (a3, w4)"
    using p1 p2 p3 by (subst rs) simp
  have "\<forall>x \<in> set ?post. local_copy w2 x \<longrightarrow> LocalPath x \<noteq> LocalPath r"
    using apart s1(4) snapshot_local_calm(2)[OF p2 s1(1)] by (auto simp: local_copy_def)
  then have "local_copy w4 r"
    using snap_local_floor.walk_frame[OF p3 snapshot_local_calm(1)[OF p2 s1(1)] copy2] by blast
  then show ?thesis using w' run by (simp add: local_copy_def)
qed

definition demo_degraded :: world where
  "demo_degraded = empty_world
     \<lparr>snapshot_history := [demo_record 1 10 (Some ''/b/1'') (Some ''s3://bkt/1''),
         (demo_record 2 30 (Some ''/b/2'') None)
           \<lparr>snap_InstancesJSON := JList [\<lparr>ri_Name = ''db'', ri_HasData = False\<rparr>]\<rparr>,
         (demo_record 3 40 (Some ''/b/3'') None)
           \<lparr>snap_InstancesJSON := JList [\<lparr>ri_Name = ''db'', ri_HasData = False\<rparr>]\<rparr>],
      snapshot_seq := 3, snapshot_plans := Some demo_plan,
      files := (\<lambda>_. None)(''/b/1'' := Some 10, ''/b/2'' := Some 10, ''/b/3'' := Some 10)\<rparr>"

theorem snapshot_local_pin_witness:
  "files (snd (snapshot_runLocalCleanup (\<lambda>t d. t + d) 40 demo_degraded)) ''/b/1'' \<noteq> None"
proof -
  let ?r = "demo_record 1 10 (Some ''/b/1'') (Some ''s3://bkt/1'')"
  have pre: "io_schedule demo_degraded = []" "snapshot_plans demo_degraded = Some demo_plan"
    "completePinCutoff (\<lambda>t d. t + d) 40 (plan_CleanupLocalDays demo_plan) \<le> snap_CreatedAt ?r"
    by (simp_all add: demo_degraded_def demo_plan_def empty_world_def demo_record_def completePinCutoff_def
        completePinGraceDays_def)
  have "distinct (map LocalPath (filter (local_copy demo_degraded) (snapshot_history demo_degraded)))"
    by (simp add: demo_degraded_def local_copy_def LocalPath_def demo_record_def)
  moreover have "find (\<lambda>r. local_copy demo_degraded r \<and> snapshotIsComplete r)
      (sort_desc snap_CreatedAt (snapshot_history demo_degraded)) = Some ?r"
    by (simp add: demo_degraded_def local_copy_def LocalPath_def demo_record_def sort_desc_def
        snapshotIsComplete_def Instances_def)
  ultimately show ?thesis
    using snapshot_local_pin[OF prod.collapse[symmetric] pre(1) _ pre(2) _ pre(3)]
    by (simp add: LocalPath_def demo_record_def)
qed

section \<open>Offsite retention\<close>

abbreviation remote_head :: "Client \<Rightarrow> string \<Rightarrow> Record \<Rightarrow> walk_state \<Rightarrow> world \<Rightarrow> bool \<times> world" where
  "remote_head cl bucket r a w \<equiv>
     (if \<not> floor_full (ws_floor a) \<or> (\<not> ws_completeKept a \<and> snapshotIsComplete r)
      then remoteArchivePresent cl bucket (RemotePath r) w else (False, w))"

lemma remote_head_same: "remote_head cl b r a w = (p, w1) \<Longrightarrow> same_but_io w w1"
  by (auto intro: remoteArchivePresent_same split: if_splits)

lemma snapshot_remote_step_cases:
  assumes "snapshot_remote_step cl bucket cutoff pin r (a, w) = (a', w')"
  obtains (skip) "RemotePath r = ''''" "a' = a" "w' = w"
    | (keep) present v fl ck where "RemotePath r \<noteq> ''''" "remote_head cl bucket r a w = (present, w')"
        "snapshotRetentionProtects (ws_floor a) (ws_completeKept a) present (snapshotIsComplete r)
           (\<not> snap_CreatedAt r < pin) = (v, fl, ck)"
        "ws_floor a' = fl" "ws_completeKept a' = ck"
    | (delete) present w1 v fl ck key e w2 where "RemotePath r \<noteq> ''''"
        "remote_head cl bucket r a w = (present, w1)"
        "snapshotRetentionProtects (ws_floor a) (ws_completeKept a) present (snapshotIsComplete r)
           (\<not> snap_CreatedAt r < pin) = (v, fl, ck)"
        "ws_floor a' = fl" "ws_completeKept a' = ck" "vd_keep v = retentionKeepNone" "snap_CreatedAt r < cutoff"
        "parseS3Location (RemotePath r) = Inr (bucket, key)" "DeleteFile cl (RelativeKey cl key) w1 = (e, w2)"
        "e \<noteq> None \<and> w' = w2 \<or>
         e = None \<and> w' = snd (if LocalPath r = '''' then Snapshot_Delete (snap_ID r) w2
                              else Snapshot_ClearRemoteLocation (snap_ID r) w2)"
proof (cases "RemotePath r = ''''")
  case True
  then show thesis using assms skip by (simp add: snapshot_remote_step_def)
next
  case False
  obtain present w1 where p: "remote_head cl bucket r a w = (present, w1)" by fastforce
  obtain v fl ck where v: "snapshotRetentionProtects (ws_floor a) (ws_completeKept a) present
      (snapshotIsComplete r) (\<not> snap_CreatedAt r < pin) = (v, fl, ck)" by (metis prod.exhaust)
  let ?go = "vd_keep v = retentionKeepNone \<and> snap_CreatedAt r < cutoff \<and>
    (\<exists>key. parseS3Location (RemotePath r) = Inr (bucket, key))"
  show thesis
  proof (cases ?go)
    case no: False
    then have "ws_floor a' = fl \<and> ws_completeKept a' = ck \<and> w' = w1"
      using assms False p v
      by (auto simp: snapshot_remote_step_def Let_def split: if_splits sum.splits prod.splits)
    then show thesis using keep False p v by blast
  next
    case True
    then obtain key where key: "parseS3Location (RemotePath r) = Inr (bucket, key)" by blast
    obtain e w2 where d: "DeleteFile cl (RelativeKey cl key) w1 = (e, w2)" by fastforce
    have "ws_floor a' = fl \<and> ws_completeKept a' = ck \<and>
       (e \<noteq> None \<and> w' = w2 \<or> e = None \<and> w' = snd (if LocalPath r = '''' then Snapshot_Delete (snap_ID r) w2
            else Snapshot_ClearRemoteLocation (snap_ID r) w2))"
      using assms False p v True key d
      by (auto simp: snapshot_remote_step_def Let_def split: if_splits option.splits prod.splits)
    then show thesis using delete[OF False p v _ _ _ _ key d] True by blast
  qed
qed

text \<open>A turn deletes at most the object that its row's location addresses.\<close>

lemma snapshot_remote_objects:
  assumes "snapshot_remote_step cl bucket cutoff pin r (a, w) = (a', w')"
  shows "files w' = files w \<and> (objects w' = objects w \<or>
     (snap_CreatedAt r < cutoff \<and> (\<exists>k. remote_key cl bucket (RemotePath r) = Some k
        \<and> objects w' (client_bucket cl, k) = None
        \<and> (\<forall>ob. ob \<noteq> (client_bucket cl, k) \<longrightarrow> objects w' ob = objects w ob))))"
  using assms
proof (cases rule: snapshot_remote_step_cases)
  case skip
  then show ?thesis by simp
next
  case (keep present v fl ck)
  then show ?thesis using remote_head_same[OF keep(2)] by (simp add: same_but_io_fields)
next
  case (delete present w1 v fl ck key e w2)
  have s: "files w1 = files w" "objects w1 = objects w"
    using remote_head_same[OF delete(2)] by (simp_all add: same_but_io_fields)
  have "files w' = files w2 \<and> objects w' = objects w2"
    using delete(10) Snapshot_Delete_storage[OF prod.collapse[symmetric]]
      Snapshot_Clear_storage(2)[OF prod.collapse[symmetric]]
    by (auto split: if_splits)
  moreover have "remote_key cl bucket (RemotePath r) = Some (client_bucketPath cl @ RelativeKey cl key)"
    using delete(8) by (simp add: remote_key_def)
  ultimately show ?thesis using DeleteFile_effect[OF delete(9)] s delete(7) by auto
qed

definition remote_reason :: "Client \<Rightarrow> string \<Rightarrow> gotime \<Rightarrow> Record \<Rightarrow> string \<times> string \<Rightarrow> bool" where
  "remote_reason cl bucket cutoff r ob \<longleftrightarrow> snap_CreatedAt r < cutoff \<and>
     (\<exists>k. remote_key cl bucket (RemotePath r) = Some k \<and> ob = (client_bucket cl, k))"

interpretation snap_remote: justified_walk "snapshot_remote_step cl bucket cutoff pin"
  "\<lambda>w ob. objects w ob \<noteq> None" "remote_reason cl bucket cutoff" for cl bucket cutoff pin
proof unfold_locales
  fix r a w a' w' ob
  assume "snapshot_remote_step cl bucket cutoff pin r (a, w) = (a', w')"
    "objects w ob \<noteq> None" "\<not> objects w' ob \<noteq> None"
  then show "remote_reason cl bucket cutoff r ob"
    using snapshot_remote_objects[of cl bucket cutoff pin r a w a' w'] unfolding remote_reason_def by metis
qed


lemma snapshot_runRemoteCleanup_loop:
  assumes "snapshot_runRemoteCleanup c AddDate now w = (e, w')"
  obtains (idle) "same_but_io w w'"
    | (loop) plan s cl w1 w2 w3 w4 where "snapshot_plans w = Some plan"
        "GetActiveOffsiteSettingsDecrypted c w = (Inr (Some s), w1)" "NewClient s w2 = (Inr cl, w3)"
        "same_but_io w w4"
        "w' = snd (fold (snapshot_remote_step cl (off_Bucket s) (AddDate now (- plan_CleanupRemoteDays plan))
                 (completePinCutoff AddDate now (plan_CleanupRemoteDays plan)))
               (sort_desc snap_CreatedAt (snapshot_history w)) (walk_start, w4))"
        "io_schedule w = [] \<longrightarrow> w1 = w \<and> w2 = w \<and> w3 = w \<and> w4 = w"
proof -
  obtain r1 w1 where a1: "GetActiveOffsiteSettingsDecrypted c w = (r1, w1)" by fastforce
  note s1 = GetActiveDecrypted_same[OF a1]
  obtain pl w2 where a2: "Snapshot_GetPlan w1 = (pl, w2)" by fastforce
  note s2 = same_but_io_trans[OF s1 Snapshot_GetPlan_same[OF a2]]
  show thesis
  proof (cases "\<exists>s plan. r1 = Inr (Some s) \<and> pl = Inr (Some plan)")
    case False
    then have "w' = w1 \<or> w' = w2"
      using assms a1 a2 by (auto simp: snapshot_runRemoteCleanup_def split: sum.splits option.splits)
    then show thesis using idle s1 s2 by blast
  next
    case True
    then obtain s plan where go: "r1 = Inr (Some s)" "pl = Inr (Some plan)" by blast
    have plan: "snapshot_plans w = Some plan"
      using Snapshot_GetPlan_Inr[of w1 "Some plan" w2] a2 go(2) s1 by (simp add: same_but_io_fields)
    obtain rc w3 where a3: "NewClient s w2 = (rc, w3)" by fastforce
    note s3 = same_but_io_trans[OF s2 NewClient_same[OF a3]]
    obtain rs w4 where a4: "Snapshot_List w3 = (rs, w4)" by fastforce
    note s4 = same_but_io_trans[OF s3 Snapshot_List_same[OF a4]]
    show thesis
    proof (cases "\<exists>cl records. rc = Inr cl \<and> rs = Inr records")
      case False
      then have "w' = w3 \<or> w' = w4"
        using assms a1 a2 a3 a4 go
        by (auto simp: snapshot_runRemoteCleanup_def Let_def split: sum.splits option.splits)
      then show thesis using idle s3 s4 by blast
    next
      case True
      then obtain cl records where ok: "rc = Inr cl" "rs = Inr records" by blast
      have "records = sort_desc snap_CreatedAt (snapshot_history w)"
        using Snapshot_List_Inr[of w3 records w4] a4 ok(2) s3 by (simp add: same_but_io_fields)
      moreover have "w' = snd (fold (snapshot_remote_step cl (off_Bucket s)
          (AddDate now (- plan_CleanupRemoteDays plan))
          (completePinCutoff AddDate now (plan_CleanupRemoteDays plan))) records (walk_start, w4))"
        using assms a1 a2 a3 a4 go ok by (simp add: snapshot_runRemoteCleanup_def Let_def)
      moreover have "io_schedule w = [] \<longrightarrow> w1 = w \<and> w2 = w \<and> w3 = w \<and> w4 = w"
      proof
        assume calm: "io_schedule w = []"
        have 1: "w1 = w"
          using a1 calm by (auto simp: GetActiveOffsiteSettingsDecrypted_def Offsite_GetActive_def calm_primitives
              split: option.splits sum.splits if_splits)
        have 2: "w2 = w1" using a2 calm 1 by (auto simp: Snapshot_GetPlan_def calm_primitives)
        have 3: "w3 = w2" using a3 calm 1 2 by (auto simp: NewClient_def sys_call_calm split: if_splits)
        have 4: "w4 = w3" using a4 calm 1 2 3 by (auto simp: Snapshot_List_def calm_primitives)
        show "w1 = w \<and> w2 = w \<and> w3 = w \<and> w4 = w" using 1 2 3 4 by simp
      qed
      ultimately show thesis
        using loop[OF plan _ _ s4] a1 a3 go(1) ok(1) by blast
    qed
  qed
qed


lemma GetActiveDecrypted_row:
  assumes "GetActiveOffsiteSettingsDecrypted c w = (Inr (Some s), w1)"
  shows "\<exists>s0 \<in> set (offsite_settings w). off_Active s0 \<and> off_Bucket s0 = off_Bucket s"
proof -
  obtain x v where g: "Offsite_GetActive w = (Inr (Some x), v)" "off_Bucket s = off_Bucket x"
    using assms
    by (auto simp: GetActiveOffsiteSettingsDecrypted_def split: prod.splits sum.splits option.splits if_splits)
  then have "find off_Active (sort_desc off_ID (offsite_settings w)) = Some x"
    by (auto simp: Offsite_GetActive_def same_but_io_fields dest!: sql_query_Inr split: prod.splits sum.splits)
  then have "x \<in> set (sort_desc off_ID (offsite_settings w)) \<and> off_Active x"
    by (auto simp: find_Some_iff simp del: set_sort_desc)
  then show ?thesis using g(2) by auto
qed

lemma snapshot_remote_files:
  "fold (snapshot_remote_step cl b cutoff pin) rs (a, w) = (a', w') \<Longrightarrow> files w' = files w"
proof (induction rs arbitrary: a w)
  case (Cons r rs)
  obtain a1 w1 where "snapshot_remote_step cl b cutoff pin r (a, w) = (a1, w1)" by fastforce
  then show ?case using Cons.IH[of a1 w1] Cons.prems snapshot_remote_objects[of cl b cutoff pin r a w a1 w1] by simp
qed simp

lemma remote_key_cases:
  assumes "remote_key cl b l = Some k"
  obtains (full) "parseS3Location l = Inr (b, k)"
    | (outside) key where "parseS3Location l = Inr (b, key)" "\<not> HasPrefix key (client_bucketPath cl)"
        "k = client_bucketPath cl @ key"
proof -
  obtain key where key: "parseS3Location l = Inr (b, key)" "k = client_bucketPath cl @ RelativeKey cl key"
    using assms by (auto simp: remote_key_def split: sum.splits if_splits)
  show thesis
  proof (cases "HasPrefix key (client_bucketPath cl)")
    case True
    then have "key = client_bucketPath cl @ drop (length (client_bucketPath cl)) key"
      using CutPrefix_Some[of key "client_bucketPath cl"] by (simp add: CutPrefix_def)
    then have "k = key" using key(2) RelativeKey_full by metis
    then show thesis using full key(1) by simp
  next
    case False
    then have "RelativeKey cl key = key" by (auto simp: RelativeKey_def CutPrefix_def)
    then show thesis using outside[OF key(1) False] key(2) by simp
  qed
qed

text \<open>
  C22. Offsite snapshot retention, under every pattern of request and database failures: it
  touches no local file; an object disappears only from the bucket of an active
  configuration, and only if some catalogue row older than the configured retention stores
  a location in that bucket whose key it is, either as stored or, for a key stored outside
  the configured path, with that path put in front.
\<close>

theorem snapshot_remote_cleanup_safeguard:
  assumes "snapshot_runRemoteCleanup c AddDate now w = (e, w')"
  shows "files w' = files w \<and>
    (\<forall>bucket k. objects w (bucket, k) \<noteq> None \<and> objects w' (bucket, k) = None \<longrightarrow>
      (\<exists>plan s r key. snapshot_plans w = Some plan \<and> s \<in> set (offsite_settings w) \<and> off_Active s
         \<and> bucket = off_Bucket s \<and> r \<in> set (snapshot_history w)
         \<and> snap_CreatedAt r < AddDate now (- plan_CleanupRemoteDays plan)
         \<and> parseS3Location (RemotePath r) = Inr (bucket, key)
         \<and> (k = key \<or> (\<exists>path. \<not> HasPrefix key path \<and> k = path @ key))))"
  using assms
proof (cases rule: snapshot_runRemoteCleanup_loop)
  case idle
  then have "files w' = files w" "objects w' = objects w" by (simp_all add: same_but_io_fields)
  then show ?thesis by (metis (no_types))
next
  case (loop plan s cl w1 w2 w3 w4)
  let ?cut = "AddDate now (- plan_CleanupRemoteDays plan)"
  let ?pin = "completePinCutoff AddDate now (plan_CleanupRemoteDays plan)"
  obtain a where run: "fold (snapshot_remote_step cl (off_Bucket s) ?cut ?pin)
      (sort_desc snap_CreatedAt (snapshot_history w)) (walk_start, w4) = (a, w')"
    using loop(5) by (metis prod.collapse)
  obtain s0 where s0: "s0 \<in> set (offsite_settings w)" "off_Active s0" "off_Bucket s0 = off_Bucket s"
    using GetActiveDecrypted_row[OF loop(2)] by blast
  have cl: "client_bucket cl = off_Bucket s" using NewClient_ok[OF loop(3)] by simp
  have "\<exists>plan s r key. snapshot_plans w = Some plan \<and> s \<in> set (offsite_settings w) \<and> off_Active s
         \<and> bucket = off_Bucket s \<and> r \<in> set (snapshot_history w)
         \<and> snap_CreatedAt r < AddDate now (- plan_CleanupRemoteDays plan)
         \<and> parseS3Location (RemotePath r) = Inr (bucket, key)
         \<and> (k = key \<or> (\<exists>path. \<not> HasPrefix key path \<and> k = path @ key))"
    if gone: "objects w (bucket, k) \<noteq> None" "objects w' (bucket, k) = None" for bucket k
  proof -
    have "objects w4 (bucket, k) \<noteq> None" using gone(1) loop(4) by (simp add: same_but_io_fields)
    then obtain r where r: "r \<in> set (snapshot_history w)" "remote_reason cl (off_Bucket s) ?cut r (bucket, k)"
      using snap_remote.walk_justified[OF run] gone(2) by fastforce
    then have k: "remote_key cl (off_Bucket s) (RemotePath r) = Some k" "bucket = off_Bucket s"
      "snap_CreatedAt r < ?cut" using cl by (auto simp: remote_reason_def)
    from k(1) obtain key where "parseS3Location (RemotePath r) = Inr (bucket, key)"
      "k = key \<or> (\<exists>path. \<not> HasPrefix key path \<and> k = path @ key)"
      by (cases rule: remote_key_cases) (use k(2) in blast)+
    then show ?thesis using loop(1) s0 k r(1) by metis
  qed
  then show ?thesis using snapshot_remote_files[OF run] loop(4) by (simp add: same_but_io_fields)
qed


definition demo_bucket :: world where
  "demo_bucket = empty_world
     \<lparr>snapshot_history := [demo_record 1 10 None (Some ''s3://bkt/oddk/1''), demo_record 2 20 None (Some ''s3://bkt/oddk/2''),
         demo_record 3 30 None (Some ''s3://bkt/oddk/3''), demo_record 4 40 None (Some ''s3://bkt/oddk/4'')],
      snapshot_seq := 4, snapshot_plans := Some demo_plan, offsite_settings := [demo_settings],
      objects := (\<lambda>_. None)((''bkt'', ''oddk/1'') := Some 10, (''bkt'', ''oddk/2'') := Some 10,
         (''bkt'', ''oddk/4'') := Some 10, (''else'', ''oddk/1'') := Some 10)\<rparr>"

theorem snapshot_remote_cleanup_safeguard_witness:
  "let w' = snd (snapshot_runRemoteCleanup demo_cipher (\<lambda>t d. t + d) 100 demo_bucket) in
   objects w' (''bkt'', ''oddk/1'') = None \<and> objects w' (''bkt'', ''oddk/2'') = Some 10
   \<and> objects w' (''else'', ''oddk/1'') = Some 10 \<and> files w' = files demo_bucket
   \<and> (\<exists>r \<in> set (snapshot_history demo_bucket). snap_CreatedAt r < 86)"
proof -
  let ?w' = "snd (snapshot_runRemoteCleanup demo_cipher (\<lambda>t d. t + d) 100 demo_bucket)"
  have run: "objects ?w' (''bkt'', ''oddk/1'') = None" "objects ?w' (''bkt'', ''oddk/2'') = Some 10"
    "objects ?w' (''else'', ''oddk/1'') = Some 10"
    by code_simp+
  have pre: "objects demo_bucket (''bkt'', ''oddk/1'') \<noteq> None"
    "snapshot_plans demo_bucket = Some demo_plan" "plan_CleanupRemoteDays demo_plan = 14"
    by (simp_all add: demo_bucket_def demo_plan_def)
  note all = snapshot_remote_cleanup_safeguard[OF prod.collapse[symmetric],
      of demo_cipher "\<lambda>t d. t + d" 100 demo_bucket]
  obtain plan r where "snapshot_plans demo_bucket = Some plan" "r \<in> set (snapshot_history demo_bucket)"
    "snap_CreatedAt r < 100 + - plan_CleanupRemoteDays plan"
    using all run(1) pre(1) by blast
  then have "\<exists>r \<in> set (snapshot_history demo_bucket). snap_CreatedAt r < 86"
    using pre(2,3) by force
  then show ?thesis using run all by (simp only: Let_def simp_thms)
qed


abbreviation snap_remote_copy :: "Client \<Rightarrow> string \<Rightarrow> world \<Rightarrow> Record \<Rightarrow> bool" where
  "snap_remote_copy cl bucket w r \<equiv> remote_copy cl bucket w (RemotePath r)"

lemma snapshot_remote_calm:
  assumes "snapshot_remote_step cl bucket cutoff pin r (a, w) = (a', w')" "io_schedule w = []"
  shows "io_schedule w' = []"
  using assms(1)
proof (cases rule: snapshot_remote_step_cases)
  case skip
  then show ?thesis using assms(2) by simp
next
  case (keep present v fl ck)
  then show ?thesis using assms(2) remoteArchivePresent_calm[OF assms(2)] by (auto split: if_splits)
next
  case (delete present w1 v fl ck key e w2)
  have "w1 = w" using delete(1,2) assms(2) remoteArchivePresent_calm[OF assms(2)] by (auto split: if_splits)
  then have "io_schedule w2 = []" using delete(9) assms(2) by (auto simp: DeleteFile_def calm_primitives)
  then show ?thesis using delete(10)
    by (auto simp: Snapshot_Delete_def Snapshot_ClearRemoteLocation_def calm_primitives
        split: if_splits option.splits dest: snap_exec_calm[OF _ prod.collapse[symmetric]])
qed

text \<open>How a turn counts, and what it keeps while the floor has room.\<close>

lemma snapshot_remote_turn:
  assumes "snapshot_remote_step cl bucket cutoff pin r (a, w) = (a', w')" "io_schedule w = []" "walk_ok a"
  shows "walk_ok a' \<and> (walk_kept a < 2 \<longrightarrow> walk_kept a' = walk_kept a + (if snap_remote_copy cl bucket w r then 1 else 0)
      \<and> (snap_remote_copy cl bucket w r \<longrightarrow> objects w' = objects w))
    \<and> (walk_kept a = 2 \<longrightarrow> walk_kept a' = 2)"
  using assms(1)
proof (cases rule: snapshot_remote_step_cases)
  case skip
  then show ?thesis using assms(3) by (auto simp: remote_copy_def)
next
  case (keep present v fl ck)
  have le: "fl_kept (ws_floor a) \<le> fl_limit (ws_floor a)" using assms(3) by (simp add: walk_ok_def)
  have p: "w' = w" "walk_kept a < 2 \<Longrightarrow> present = snap_remote_copy cl bucket w r"
    using keep(1,2) assms(2,3) remoteArchivePresent_calm[OF assms(2)]
    by (auto simp: floor_full_def walk_ok_def split: if_splits)
  show ?thesis using walk_counts[OF assms(3) keep(4) keep_counts(1,2)[OF keep(3) le]] p by auto
next
  case (delete present w1 v fl ck key e w2)
  have le: "fl_kept (ws_floor a) \<le> fl_limit (ws_floor a)" using assms(3) by (simp add: walk_ok_def)
  have p: "walk_kept a < 2 \<Longrightarrow> present = snap_remote_copy cl bucket w r"
    using delete(1,2) assms(2,3) remoteArchivePresent_calm[OF assms(2)]
    by (auto simp: floor_full_def walk_ok_def split: if_splits)
  have "walk_kept a < 2 \<Longrightarrow> \<not> present"
    using keep_counts(4)[OF delete(3) le] delete(6) assms(3) by (auto simp: walk_ok_def nat_less_iff)
  then show ?thesis using walk_counts[OF assms(3) delete(4) keep_counts(1,2)[OF delete(3) le]] p by auto
qed

lemma snapshot_remote_invariant:
  assumes "snapshot_remote_step cl bucket cutoff pin r (a, w) = (a', w')" "walk_ok a"
  shows "walk_ok a'"
proof -
  have le: "fl_kept (ws_floor a) \<le> fl_limit (ws_floor a)" using assms(2) by (simp add: walk_ok_def)
  show ?thesis
    using assms(1)
    by (cases rule: snapshot_remote_step_cases)
       (use assms(2) walk_counts[OF assms(2) _ keep_counts(1,2)[OF _ le]] in blast)+
qed

interpretation snap_remote_floor: newest_kept_walk "snapshot_remote_step cl bucket cutoff pin"
  walk_kept 2 "snap_remote_copy cl bucket" "\<lambda>r. remote_slot cl bucket (RemotePath r)" walk_ok
  for cl bucket cutoff pin
proof unfold_locales
  fix r a w a' w'
  assume st: "snapshot_remote_step cl bucket cutoff pin r (a, w) = (a', w')"
  note ob = snapshot_remote_objects[OF st]
  show "walk_ok a \<Longrightarrow> walk_ok a'" using snapshot_remote_invariant[OF st] .
  assume calm: "io_schedule w = []"
  show "io_schedule w' = []" by (rule snapshot_remote_calm[OF st calm])
  have gone: "objects w' x \<noteq> None \<Longrightarrow> objects w x \<noteq> None" for x using ob by metis
  then show "snap_remote_copy cl bucket w' s \<Longrightarrow> snap_remote_copy cl bucket w s" for s
    using remote_copy_mono by blast
  show "snap_remote_copy cl bucket w' s" if s: "snap_remote_copy cl bucket w s"
    "\<not> (snap_remote_copy cl bucket w r \<and> remote_slot cl bucket (RemotePath r) = remote_slot cl bucket (RemotePath s))" for s
  proof (cases "objects w' = objects w")
    case True
    then show ?thesis using s(1) remote_copy_objects by blast
  next
    case False
    then obtain k where k: "remote_key cl bucket (RemotePath r) = Some k" "objects w' (client_bucket cl, k) = None"
      "\<And>x. x \<noteq> (client_bucket cl, k) \<Longrightarrow> objects w' x = objects w x" using ob by blast
    have "objects w (client_bucket cl, k) \<noteq> None" using False k(2,3) by (metis ext)
    then have "snap_remote_copy cl bucket w r"
      using k(1) by (auto simp: remote_copy_def remote_key_def parseS3Location_def CutPrefix_def HasPrefix_def)
    then have "remote_slot cl bucket (RemotePath s) \<noteq> Inr k" using s(2) remote_key_slot[OF k(1)] by simp
    then show ?thesis using remote_copy_frame s(1) k(3) by blast
  qed
  assume ok: "walk_ok a"
  note t = snapshot_remote_turn[OF st calm ok]
  have le: "walk_kept a \<le> 2" using ok by (simp add: walk_ok_def nat_le_iff)
  show "\<not> snap_remote_copy cl bucket w r \<Longrightarrow> walk_kept a' = walk_kept a" using t le by (cases "walk_kept a < 2") auto
  show "snap_remote_copy cl bucket w' r \<and> walk_kept a' = walk_kept a + 1"
    if "snap_remote_copy cl bucket w r" "walk_kept a < 2"
    using t that remote_copy_objects[of w' w] by simp
qed

text \<open>
  The offsite floor: on a host and a bucket that answer, one run of offsite snapshot
  retention leaves the two newest remote copies that the bucket really has (a location that
  cannot be checked counts as one and is never deleted), however old they are.
\<close>

theorem snapshot_remote_floor:
  assumes "snapshot_runRemoteCleanup c AddDate now w = (e, w')" "io_schedule w = []"
    and "GetActiveOffsiteSettingsDecrypted c w = (Inr (Some s), w)" "NewClient s w = (Inr cl, w)"
    and "distinct (map (\<lambda>r. remote_slot cl (off_Bucket s) (RemotePath r))
           (filter (snap_remote_copy cl (off_Bucket s) w) (snapshot_history w)))"
    and "r \<in> set (take 2 (filter (snap_remote_copy cl (off_Bucket s) w) (sort_desc snap_CreatedAt (snapshot_history w))))"
  shows "snap_remote_copy cl (off_Bucket s) w' r"
  using assms(1)
proof (cases rule: snapshot_runRemoteCleanup_loop)
  case idle
  have "snap_remote_copy cl (off_Bucket s) w r" using in_set_takeD[OF assms(6)] by simp
  then show ?thesis using same_but_io_stores(2)[OF idle] remote_copy_objects by blast
next
  case (loop plan s' cl' w1 w2 w3 w4)
  have eq: "w1 = w" "w2 = w" "w3 = w" "w4 = w" using loop(6) assms(2) by blast+
  then have "s' = s" "cl' = cl" using loop(2,3) assms(3,4) by auto
  let ?step = "snapshot_remote_step cl (off_Bucket s) (AddDate now (- plan_CleanupRemoteDays plan))
      (completePinCutoff AddDate now (plan_CleanupRemoteDays plan))"
  let ?rs = "sort_desc snap_CreatedAt (snapshot_history w)"
  obtain a where run: "fold ?step ?rs (walk_start, w) = (a, w')"
    using loop(5) eq \<open>s' = s\<close> \<open>cl' = cl\<close> by (metis prod.collapse)
  have "distinct (map (\<lambda>r. remote_slot cl (off_Bucket s) (RemotePath r)) (filter (snap_remote_copy cl (off_Bucket s) w) ?rs))"
    using assms(5) by (simp add: distinct_map_filter_sort_desc)
  then show ?thesis
    using snap_remote_floor.newest_survive[OF run _ assms(2), of r] walk_start_ok assms(6) by simp
qed

theorem snapshot_remote_floor_witness:
  "objects (snd (snapshot_runRemoteCleanup demo_cipher (\<lambda>t d. t + d) 100 demo_bucket)) (''bkt'', ''oddk/2'') \<noteq> None"
proof -
  let ?cl = "\<lparr>client_bucket = ''bkt'', client_bucketPath = ''oddk/''\<rparr>"
  let ?r = "demo_record 2 20 None (Some ''s3://bkt/oddk/2'')"
  have pre: "io_schedule demo_bucket = []"
    "GetActiveOffsiteSettingsDecrypted demo_cipher demo_bucket = (Inr (Some demo_settings), demo_bucket)"
    "NewClient demo_settings demo_bucket = (Inr ?cl, demo_bucket)"
    by (simp_all add: demo_bucket_def GetActiveOffsiteSettingsDecrypted_def Offsite_GetActive_def calm_primitives
        demo_settings_def empty_world_def sort_desc_def NewClient_def sys_call_def next_io_def NewClientFromConfig_def
        TrimSuffix_def HasSuffix_def)
  have "distinct (map (\<lambda>r. remote_slot ?cl (off_Bucket demo_settings) (RemotePath r))
           (filter (snap_remote_copy ?cl (off_Bucket demo_settings) demo_bucket) (snapshot_history demo_bucket)))"
    by code_simp
  moreover have "take 2 (filter (snap_remote_copy ?cl (off_Bucket demo_settings) demo_bucket)
      (sort_desc snap_CreatedAt (snapshot_history demo_bucket)))
      = [demo_record 4 40 None (Some ''s3://bkt/oddk/4''), ?r]"
    by code_simp
  ultimately have "snap_remote_copy ?cl (off_Bucket demo_settings)
      (snd (snapshot_runRemoteCleanup demo_cipher (\<lambda>t d. t + d) 100 demo_bucket)) ?r"
    using snapshot_remote_floor[OF prod.collapse[symmetric] pre, where r = ?r] by simp
  moreover have "remote_key ?cl (off_Bucket demo_settings) (RemotePath ?r) = Some ''oddk/2''"
    by code_simp
  ultimately show ?thesis by (simp add: remote_copy_def)
qed

end
