(* ===== verification/BackupCron.thy ===== *)
theory BackupCron
  imports InstanceStore SnapshotCron "HOL-Library.Sublist"
begin

text \<open>
  The scheduled backup of one instance, \<open>internal/operations/cron_task.go\<close>: backup, upload,
  upload retries, local retention, offsite retention. \<open>BackupRDBMS\<close> (the dump itself) is an
  argument. Unlike the snapshot loops, these loops re-read each row by its id before they
  change it, so the theorems carry that the row still fits what was fetched.
\<close>

definition minRetainedBackups :: int where "minRetainedBackups = 2"

section \<open>Backup, upload and its retries\<close>

type_synonym backup_rdbms = "string \<Rightarrow> world \<Rightarrow> int option res \<times> world"

text \<open>
  \<open>runBackup\<close>: the error of the phase and the id kept for the upload (0 when there is none).
  \<open>Instances.Get\<close> never returns nil without an error, so the nil check has no branch here.
\<close>

definition runBackup :: "backup_rdbms \<Rightarrow> string \<Rightarrow> world \<Rightarrow> (goerror option \<times> int) \<times> world" where
  "runBackup BackupRDBMS instanceName w =
     (case Instances_Get instanceName w of
        (Inl e, w1) \<Rightarrow> ((Some (wrap ''getting instance'' e), 0), w1)
      | (Inr inst, w1) \<Rightarrow>
          if inst_Status inst \<noteq> ''running''
          then ((Some (Errorf0 (''instance '' @ [CHR 0x27] @ instanceName @ [CHR 0x27] @ '' is not running (status: ''
                  @ inst_Status inst @ '')'')), 0), w1)
          else (case BackupRDBMS instanceName w1 of
                  (Inl e, w2) \<Rightarrow> ((Some e, 0), w2)
                | (Inr res, w2) \<Rightarrow>
                    ((None, (case res of None \<Rightarrow> 0 | Some n \<Rightarrow> if n > 0 then n else 0)), w2)))"

definition offsite_active :: "world \<Rightarrow> bool \<times> world" where
  "offsite_active w =
     (case Offsite_GetActive w of
        (Inr (Some s), w1) \<Rightarrow> (True, w1)
      | (_, w1) \<Rightarrow> (False, w1))"

definition backup_runUpload ::
  "cipher \<Rightarrow> string \<Rightarrow> (gotime \<Rightarrow> gotime) \<Rightarrow> gotime \<Rightarrow> string \<Rightarrow> int \<Rightarrow> world \<Rightarrow> goerror option \<times> world" where
  "backup_runUpload c dataDir local now instanceName backupID w =
     (case offsite_active w of
        (False, w1) \<Rightarrow> (None, w1)
      | (True, w1) \<Rightarrow>
          (case UploadBackup c dataDir local now instanceName backupID w1 of
             (Inl e, w2) \<Rightarrow> (Some (wrap ''uploading backup'' e), w2)
           | (Inr _, w2) \<Rightarrow> (None, w2)))"

definition backup_retry_wanted :: "int \<Rightarrow> BackupRecord \<Rightarrow> bool" where
  "backup_retry_wanted backupID b \<longleftrightarrow>
     \<not> (bk_ID b = backupID \<or> bk_Status b \<noteq> ''completed'')
     \<and> \<not> (bk_LocalLocation b = None \<or> bk_RemoteLocation b \<noteq> None)"

definition backup_retry_step ::
  "cipher \<Rightarrow> string \<Rightarrow> (gotime \<Rightarrow> gotime) \<Rightarrow> gotime \<Rightarrow> string \<Rightarrow> int \<Rightarrow> BackupRecord \<Rightarrow> world \<Rightarrow> world" where
  "backup_retry_step c dataDir local now instanceName backupID b w =
     (if backup_retry_wanted backupID b
      then snd (UploadBackup c dataDir local now instanceName (bk_ID b) w) else w)"

definition backup_runUploadRetries ::
  "cipher \<Rightarrow> string \<Rightarrow> (gotime \<Rightarrow> gotime) \<Rightarrow> gotime \<Rightarrow> string \<Rightarrow> int \<Rightarrow> world \<Rightarrow> world" where
  "backup_runUploadRetries c dataDir local now instanceName backupID w =
     (case offsite_active w of
        (False, w1) \<Rightarrow> w1
      | (True, w1) \<Rightarrow>
          (case Backup_ListBackups dataDir instanceName w1 of
             (Inl e, w2) \<Rightarrow> w2
           | (Inr backups, w2) \<Rightarrow>
               fold (backup_retry_step c dataDir local now instanceName backupID) backups w2))"

section \<open>Retention\<close>

record backup_walk =
  bw_floor :: retentionFloor
  bw_deleted :: int

definition backup_walk_start :: backup_walk where
  "backup_walk_start = \<lparr>bw_floor = newRetentionFloor minRetainedBackups, bw_deleted = 0\<rparr>"

definition backup_local_step ::
  "string \<Rightarrow> string \<Rightarrow> bool \<Rightarrow> gotime \<Rightarrow> BackupRecord \<Rightarrow> backup_walk \<times> world \<Rightarrow> backup_walk \<times> world" where
  "backup_local_step dataDir instanceName offsiteConfigured localCutoff b s =
     (case s of (a, w) \<Rightarrow>
        (case bk_LocalLocation b of
           None \<Rightarrow> (a, w)
         | Some location \<Rightarrow>
        (case localArchivePresent dataDir location w of (present, w1) \<Rightarrow>
        (case protects present (bw_floor a) of (protected, fl) \<Rightarrow>
         let a1 = a\<lparr>bw_floor := fl\<rparr> in
         if protected then (a1, w1)
         else if \<not> bk_Timestamp b < localCutoff then (a1, w1)
         else if present \<and> offsiteConfigured \<and> bk_RemoteLocation b = None then (a1, w1)
         else (case Backup_RemoveLocalCopy dataDir (bk_ID b) instanceName w1 of
                 (Some e, w2) \<Rightarrow> (a1, w2)
               | (None, w2) \<Rightarrow> (a1\<lparr>bw_deleted := bw_deleted a1 + 1\<rparr>, w2))))))"

definition backup_runLocalCleanup ::
  "string \<Rightarrow> calendar \<Rightarrow> gotime \<Rightarrow> string \<Rightarrow> world \<Rightarrow> goerror option \<times> world" where
  "backup_runLocalCleanup dataDir AddDate now instanceName w =
     (case Cron_GetPlan instanceName w of
        (Inl e, w1) \<Rightarrow> (None, w1)
      | (Inr plan, w1) \<Rightarrow>
     (case Backup_ListBackups dataDir instanceName w1 of
        (Inl e, w2) \<Rightarrow> (Some (wrap ''listing backups'' e), w2)
      | (Inr backups, w2) \<Rightarrow>
     (case offsite_assumed w2 of (offsiteConfigured, w3) \<Rightarrow>
        let localCutoff = AddDate now (- cp_CleanupLocalDays plan) in
        (None, snd (fold (backup_local_step dataDir instanceName offsiteConfigured localCutoff) backups
                      (backup_walk_start, w3))))))"

text \<open>Existence is checked only while the floor is filling.\<close>

definition backup_remote_head ::
  "Client \<Rightarrow> string \<Rightarrow> string \<Rightarrow> backup_walk \<Rightarrow> world \<Rightarrow> bool \<times> backup_walk \<times> world" where
  "backup_remote_head cl bucket remotePath a w =
     (if \<not> floor_full (bw_floor a)
      then (case remoteArchivePresent cl bucket remotePath w of (present, w1) \<Rightarrow>
            (case protects present (bw_floor a) of (protected, fl) \<Rightarrow>
               (protected, a\<lparr>bw_floor := fl\<rparr>, w1)))
      else (False, a, w))"

definition backup_remote_step ::
  "Client \<Rightarrow> string \<Rightarrow> string \<Rightarrow> string \<Rightarrow> gotime \<Rightarrow> BackupRecord \<Rightarrow> backup_walk \<times> world \<Rightarrow> backup_walk \<times> world" where
  "backup_remote_step cl bucket dataDir instanceName remoteCutoff b s =
     (case s of (a, w) \<Rightarrow>
        (case bk_RemoteLocation b of
           None \<Rightarrow> (a, w)
         | Some remotePath \<Rightarrow>
        (case backup_remote_head cl bucket remotePath a w of (protected, a1, w1) \<Rightarrow>
         if protected then (a1, w1)
         else if \<not> bk_Timestamp b < remoteCutoff then (a1, w1)
         else (case CutPrefix remotePath ''s3://'' of
                 None \<Rightarrow> (a1, w1)
               | Some s3Path \<Rightarrow>
                   (case CutChar (CHR ''/'') s3Path of
                      None \<Rightarrow> (a1, w1)
                    | Some (bucketName, fullKey) \<Rightarrow>
                        if bucketName \<noteq> bucket then (a1, w1)
                        else (case DeleteFile cl (RelativeKey cl fullKey) w1 of
                                (Some e, w2) \<Rightarrow> (a1, w2)
                              | (None, w2) \<Rightarrow>
                                  (case Backup_RemoveRemoteCopy dataDir (bk_ID b) instanceName w2 of
                                     (Some e, w3) \<Rightarrow> (a1, w3)
                                   | (None, w3) \<Rightarrow> (a1\<lparr>bw_deleted := bw_deleted a1 + 1\<rparr>, w3))))))))"

definition backup_runRemoteCleanup ::
  "cipher \<Rightarrow> string \<Rightarrow> calendar \<Rightarrow> gotime \<Rightarrow> string \<Rightarrow> world \<Rightarrow> goerror option \<times> world" where
  "backup_runRemoteCleanup c dataDir AddDate now instanceName w =
     (case GetActiveOffsiteSettingsDecrypted c w of
        (Inr (Some s), w1) \<Rightarrow>
     (case Cron_GetPlan instanceName w1 of
        (Inl e, w2) \<Rightarrow> (None, w2)
      | (Inr plan, w2) \<Rightarrow>
     (case Backup_ListBackups dataDir instanceName w2 of
        (Inl e, w3) \<Rightarrow> (Some (wrap ''listing backups'' e), w3)
      | (Inr backups, w3) \<Rightarrow>
     (case NewClient s w3 of
        (Inl e, w4) \<Rightarrow> (Some (wrap ''creating S3 client'' e), w4)
      | (Inr cl, w4) \<Rightarrow>
        let remoteCutoff = AddDate now (- cp_CleanupRemoteDays plan) in
        (None, snd (fold (backup_remote_step cl (off_Bucket s) dataDir instanceName remoteCutoff) backups
                      (backup_walk_start, w4))))))
      | (_, w1) \<Rightarrow> (None, w1))"

section \<open>The task\<close>

definition CronTask_Execute ::
  "cipher \<Rightarrow> string \<Rightarrow> calendar \<Rightarrow> (gotime \<Rightarrow> gotime) \<Rightarrow> backup_rdbms \<Rightarrow> (string \<Rightarrow> gotime) \<Rightarrow> string \<Rightarrow> world
     \<Rightarrow> (goerror option \<times> notification option) \<times> world" where
  "CronTask_Execute c dataDir AddDate local BackupRDBMS clk instanceName w =
     (case newCronRunReporter instanceName (''instance '' @ [CHR 0x22] @ instanceName @ [CHR 0x22]) ''Backup'' w of (rp, w0) \<Rightarrow>
     (case Cron_CreateLog (clk ''start'') instanceName w0 of
        (Inl e, w1) \<Rightarrow> ((Some (wrap ''creating cron log'' e), None), w1)
      | (Inr cronLog, w1) \<Rightarrow>
        let n = cl_ID cronLog in
     (case runBackup BackupRDBMS instanceName w1 of ((err, backupID), w2) \<Rightarrow>
     (case cron_phase n clk ''backup'' err (rp, w2) of (rp1, w3) \<Rightarrow>
     (case (if err = None \<and> backupID > 0
            then (case backup_runUpload c dataDir local (clk ''upload'') instanceName backupID w3 of (uerr, w4) \<Rightarrow>
                    cron_phase n clk ''backup_upload'' uerr (rp1, w4))
            else (rp1, w3)) of (rp2, w5) \<Rightarrow>
     (case backup_runLocalCleanup dataDir AddDate (clk ''local'') instanceName
             (backup_runUploadRetries c dataDir local (clk ''retry'') instanceName backupID w5) of (lerr, w6) \<Rightarrow>
     (case cron_phase n clk ''backup_cleanup'' lerr (rp2, w6) of (rp3, w7) \<Rightarrow>
     (case backup_runRemoteCleanup c dataDir AddDate (clk ''remote'') instanceName w7 of (rerr, w8) \<Rightarrow>
     (case cron_phase n clk ''backup_remote_cleanup'' rerr (rp3, w8) of (rp4, w9) \<Rightarrow>
        ((None, finish rp4), snd (Cron_CompleteLog (clk ''complete'') n w9)))))))))))"

section \<open>Rows and their copies\<close>

abbreviation bk_row :: "world \<Rightarrow> int \<Rightarrow> BackupRecord option" where
  "bk_row w n \<equiv> find (\<lambda>x. bk_ID x = n) (backup_history w)"

text \<open>A fetched row still says what the table says about its id.\<close>

definition fits :: "world \<Rightarrow> BackupRecord \<Rightarrow> bool" where
  "fits w b \<longleftrightarrow> (case bk_row w (bk_ID b) of None \<Rightarrow> True | Some x \<Rightarrow> bk_core x = bk_core b)"

lemma find_del_other: "m \<noteq> n \<Longrightarrow> find (\<lambda>x. g x = m) (del_where (\<lambda>x. g x = n) xs) = find (\<lambda>x. g x = m) xs"
  by (induction xs) (auto simp: del_where_def)

lemma find_upd_other:
  "m \<noteq> n \<Longrightarrow> (\<And>x. g (f x) = g x) \<Longrightarrow>
   find (\<lambda>x. g x = m) (upd_where (\<lambda>x. g x = n) f xs) = find (\<lambda>x. g x = m) xs"
  by (induction xs) (auto simp: upd_where_def)

lemma bk_exec_row:
  "bk_exec msg (bk_delete_stmt n) w = (r, w') \<Longrightarrow> m \<noteq> n \<Longrightarrow> bk_row w' m = bk_row w m"
  "bk_exec msg (bk_update_stmt n f) w = (r, w') \<Longrightarrow> m \<noteq> n \<Longrightarrow> (\<And>x. bk_ID (f x) = bk_ID x) \<Longrightarrow>
   bk_row w' m = bk_row w m"
  by (elim bk_exec_sql sql_exec_cases;
      auto simp: bk_delete_stmt_def bk_update_stmt_def same_but_io_fields find_del_other find_upd_other
           split: if_splits)+

lemma GetBackupByID_row:
  assumes "Backup_GetBackupByID d n w = (Inr b, w')"
  shows "\<exists>x. bk_row w n = Some x \<and> bk_core b = bk_core x"
proof -
  obtain x w1 where x: "sql_query (\<lambda>w. bk_row w n) w = (Inr (Some x), w1)"
    and b: "b = x \<or> (\<exists>w2. validateBackupFile d x w1 = (b, w2))"
    using assms by (auto simp: Backup_GetBackupByID_def split: prod.splits sum.splits option.splits if_splits)
  have "bk_row w n = Some x" using sql_query_Inr[OF x] by (auto simp: same_but_io_fields)
  moreover have "bk_core b = bk_core x"
    using b by (auto simp: validateBackupFile_def bk_core_def split: prod.splits option.splits stat_result.splits)
  ultimately show ?thesis by blast
qed

lemma RemoveLocalCopy_others:
  assumes "Backup_RemoveLocalCopy d n i w = (e, w')" "m \<noteq> n"
  shows "bk_row w' m = bk_row w m \<and> objects w' = objects w"
proof -
  obtain rb w1 where g: "Backup_GetBackupByID d n w = (rb, w1)" by fastforce
  have s1: "bk_row w1 m = bk_row w m" "objects w1 = objects w"
    using GetBackupByID_same[OF g] by (simp_all add: same_but_io_fields)
  consider "w' = w1" | p er w2 where "os_Remove p w1 = (er, w2)" "w' = w2 \<or>
      bk_exec ''delete backup record'' (bk_delete_stmt n) w2 = (e, w') \<or>
      bk_exec ''clear local location'' (bk_update_stmt n (\<lambda>r. r\<lparr>bk_LocalLocation := None\<rparr>)) w2 = (e, w')"
    using assms(1) g
    by (auto simp: Backup_RemoveLocalCopy_def Backup_ClearLocalLocation_def
        split: sum.splits option.splits if_splits prod.splits)
  then show ?thesis
  proof cases
    case 2
    note eff = os_Remove_effect[OF 2(1)]
    have "bk_row w2 m = bk_row w m" "objects w2 = objects w"
      using same_tables_fields(4)[OF eff[THEN conjunct1]] eff s1 by simp_all
    then show ?thesis
      using 2(2) bk_exec_row(1)[OF _ assms(2)] bk_exec_row(2)[OF _ assms(2)] bk_exec_storage by auto
  qed (use s1 in simp)
qed

lemma RemoveLocalCopy_shrinks:
  assumes "Backup_RemoveLocalCopy d n i w = (e, w')" "files w' q \<noteq> None"
  shows "files w q \<noteq> None"
proof -
  obtain rb w1 where g: "Backup_GetBackupByID d n w = (rb, w1)" by fastforce
  have s1: "files w1 = files w" using GetBackupByID_same[OF g] by (simp add: same_but_io_fields)
  consider "w' = w1" | p er w2 where "os_Remove p w1 = (er, w2)" "files w' = files w2"
    using assms(1) g
    by (auto simp: Backup_RemoveLocalCopy_def Backup_ClearLocalLocation_def
        split: sum.splits option.splits if_splits prod.splits dest: bk_exec_storage)
  then show ?thesis
  proof cases
    case 2
    then show ?thesis using os_Remove_effect[OF 2(1)] assms(2) s1 by (cases "q = p") auto
  qed (use s1 assms(2) in simp)
qed

lemma RemoveLocalCopy_files:
  assumes "Backup_RemoveLocalCopy d (bk_ID b) i w = (e, w')" "fits w b" "bk_LocalLocation b = Some p"
  shows "(\<forall>q. q \<noteq> AbsoluteLocalPath d p \<longrightarrow> files w' q = files w q)
     \<and> (files w' (AbsoluteLocalPath d p) = files w (AbsoluteLocalPath d p) \<or> files w' (AbsoluteLocalPath d p) = None)"
proof -
  obtain rb w1 where g: "Backup_GetBackupByID d (bk_ID b) w = (rb, w1)" by fastforce
  have s1: "files w1 = files w" using GetBackupByID_same[OF g] by (simp add: same_but_io_fields)
  have loc: "bk_LocalLocation x = Some p" if "rb = Inr x" for x
    using GetBackupByID_row[of d "bk_ID b" w x w1] g that assms(2,3) by (auto simp: fits_def bk_core_def)
  consider "w' = w1" | er w2 where "os_Remove (AbsoluteLocalPath d p) w1 = (er, w2)" "files w' = files w2"
    using assms(1) g loc
    by (auto simp: Backup_RemoveLocalCopy_def Backup_ClearLocalLocation_def AbsoluteLocalPath_def
        split: sum.splits option.splits if_splits prod.splits dest: bk_exec_storage)
  then show ?thesis
    by cases (use s1 os_Remove_effect in \<open>force+\<close>)
qed

section \<open>What a listing hands to the loops\<close>

text \<open>Everything but the backup catalogue and the schedule is as before.\<close>

definition bk_only :: "world \<Rightarrow> world \<Rightarrow> bool" where
  "bk_only w w' \<longleftrightarrow> files w' = files w \<and> objects w' = objects w \<and> offsite_settings w' = offsite_settings w
     \<and> cron_plans w' = cron_plans w"

lemma bk_only_trans: "bk_only a b \<Longrightarrow> bk_only b c \<Longrightarrow> bk_only a c"
  by (simp add: bk_only_def)

lemma bk_only_same: "same_but_io w w' \<Longrightarrow> bk_only w w'"
  by (simp add: bk_only_def same_but_io_fields)

lemma bk_exec_only:
  "bk_exec m (bk_update_stmt n f) w = (r, w') \<Longrightarrow> bk_only w w'"
  "bk_exec m (bk_delete_stmt n) w = (r, w') \<Longrightarrow>
     bk_only w w' \<and> set (backup_history w') \<subseteq> set (backup_history w)"
  by (elim bk_exec_sql sql_exec_cases;
      auto simp: bk_delete_stmt_def bk_update_stmt_def bk_only_def same_but_io_fields split: if_splits)+

lemma validate_row_only:
  assumes "validate_row d b0 w = ((b, orphan), w')"
  shows "bk_only w w'"
proof -
  obtain b1 w1 where v: "(if bk_LocalLocation b0 \<noteq> None then validateBackupFile d b0 w else (b0, w)) = (b1, w1)"
    by fastforce
  then have "same_but_io w w1" by (auto dest: validateBackupFile_same split: if_splits)
  then have "bk_only w w1" by (rule bk_only_same)
  moreover have "bk_only w1 w2" if "updateBackupSize n s w1 = (e, w2)" for n s e w2
    using that bk_exec_only(1) by (auto simp: updateBackupSize_def)
  moreover have "w' = w1 \<or> (\<exists>n s e. updateBackupSize n s w1 = (e, w'))"
    using assms v by (auto simp: validate_row_def split: prod.splits option.splits if_splits)
  ultimately show ?thesis using bk_only_trans by blast
qed

lemma validate_rows_listed:
  "validate_rows d bs w = ((vs, os), w') \<Longrightarrow> bk_only w w' \<and> subseq (map bk_core vs) (map bk_core bs)"
proof (induction bs arbitrary: w vs os)
  case Nil
  then show ?case by (simp add: bk_only_def)
next
  case (Cons b0 bs)
  obtain b orphan w1 where v: "validate_row d b0 w = ((b, orphan), w1)" by (metis prod.exhaust)
  obtain vs1 os1 where r: "validate_rows d bs w1 = ((vs1, os1), w')"
    and "vs = (if orphan then vs1 else b # vs1)" using Cons.prems v by (auto split: if_splits prod.splits)
  moreover have "bk_core b = bk_core b0" using validate_row_facts[OF v] by blast
  ultimately show ?case
    using Cons.IH[OF r] bk_only_trans[OF validate_row_only[OF v]] by auto
qed

lemma cleanupOrphanedRecords_only:
  "cleanupOrphanedRecords os w = (r, w') \<Longrightarrow> bk_only w w' \<and> set (backup_history w') \<subseteq> set (backup_history w)"
proof (induction os arbitrary: w)
  case Nil
  then show ?case by (simp add: bk_only_def)
next
  case (Cons n os)
  obtain e w1 where c: "cleanupOrphanedRecord n w = (e, w1)" by fastforce
  then have one: "bk_only w w1" "set (backup_history w1) \<subseteq> set (backup_history w)"
    using bk_exec_only(2) by (auto simp: cleanupOrphanedRecord_def)
  show ?case
  proof (cases e)
    case None
    then show ?thesis using Cons.IH[of w1] Cons.prems c one bk_only_trans by auto
  next
    case (Some x)
    then show ?thesis using Cons.prems c one by simp
  qed
qed

lemma subseq_distinct: "subseq xs ys \<Longrightarrow> distinct ys \<Longrightarrow> distinct xs"
  by (induction rule: list_emb.induct) (auto dest: list_emb_set)

lemma ListBackups_listed:
  assumes "Backup_ListBackups d i w = (Inr vs, w')" "backups_ok w"
  shows "bk_only w w'"
    and "subseq (map bk_core vs) (map bk_core (sort_desc bk_Timestamp
           (filter (\<lambda>b. bk_InstanceName b = i) (backup_history w))))"
    and "sorted_wrt (\<lambda>a b. bk_ID a \<noteq> bk_ID b) vs" "\<forall>b \<in> set vs. fits w' b"
proof -
  let ?bs = "sort_desc bk_Timestamp (filter (\<lambda>b. bk_InstanceName b = i) (backup_history w))"
  obtain bs w1 where qu: "sql_query (\<lambda>w. sort_desc bk_Timestamp
      (filter (\<lambda>b. bk_InstanceName b = i) (backup_history w))) w = (Inr bs, w1)"
    and fin: "finish_listing d bs w1 = (Inr vs, w')"
    using assms(1) by (auto simp: Backup_ListBackups_def split: prod.splits sum.splits)
  have "bs = ?bs" using sql_query_Inr[OF qu] by (auto simp: same_but_io_fields)
  then have q: "same_but_io w w1" "finish_listing d ?bs w1 = (Inr vs, w')"
    using sql_query_same[OF qu] fin by simp_all
  obtain os w2 where v: "validate_rows d ?bs w1 = ((vs, os), w2)"
    and cl: "w' = (if os \<noteq> [] then snd (cleanupOrphanedRecords os w2) else w2)"
    using q(2) by (auto simp: finish_listing_def split: prod.splits if_splits)
  note l = validate_rows_listed[OF v]
  have c: "bk_only w2 w' \<and> set (backup_history w') \<subseteq> set (backup_history w2)"
    using cl cleanupOrphanedRecords_only[OF prod.collapse[symmetric], where os = os and w = w2]
    by (auto simp: bk_only_def split: if_splits)
  show "bk_only w w'" using l c bk_only_same[OF q(1)] bk_only_trans by blast
  show sub: "subseq (map bk_core vs) (map bk_core ?bs)" using l by blast
  have ids: "map bk_ID xs = map fst (map bk_core xs)" for xs by (simp add: bk_core_def o_def)
  have dist: "distinct (map bk_ID (backup_history w))" using assms(2) by (simp add: backups_ok_def)
  then have "distinct (map bk_ID ?bs)" by (simp add: distinct_map_filter)
  then have "distinct (map bk_ID vs)"
    using subseq_distinct[OF subseq_map[OF sub, of fst]] by (simp only: ids[symmetric])
  then show "sorted_wrt (\<lambda>a b. bk_ID a \<noteq> bk_ID b) vs" by (simp add: distinct_conv_nth sorted_wrt_iff_nth_less)
  show "\<forall>b \<in> set vs. fits w' b"
  proof
    fix b assume b: "b \<in> set vs"
    have "cores w2 = cores w" using validate_rows_orphans[OF v] cores_same[OF q(1)] by simp
    then have "bk_core ` set (backup_history w2) = bk_core ` set (backup_history w)"
      unfolding cores_def by (metis list.set_map)
    then have sub2: "bk_core ` set (backup_history w') \<subseteq> bk_core ` set (backup_history w)"
      using c by blast
    have "set (map bk_core vs) \<subseteq> set (map bk_core ?bs)" using list_emb_set[OF sub] by blast
    then have "bk_core b \<in> bk_core ` set (backup_history w)" using b by auto
    then obtain y where y: "y \<in> set (backup_history w)" "bk_core y = bk_core b" by (metis imageE)
    show "fits w' b"
    proof (cases "bk_row w' (bk_ID b)")
      case (Some x)
      note x = find_Some_in[OF Some, THEN conjunct1] find_Some_in[OF Some, THEN conjunct2]
      obtain z where z: "z \<in> set (backup_history w)" "bk_core z = bk_core x"
        using subsetD[OF sub2 imageI[OF x(1)]] by (metis imageE)
      then have "bk_ID z = bk_ID y" using x(2) y(2) by (simp add: bk_core_def)
      then have "z = y" using distinct_row[OF dist y(1) z(1)] by simp
      then show ?thesis using Some y(2) z(2) by (simp add: fits_def)
    qed (simp add: fits_def)
  qed
qed

section \<open>What local retention may remove\<close>

lemma backup_local_step_cases:
  assumes "backup_local_step d i oc cutoff b (a, w) = (a', w')"
  obtains (skip) "bk_LocalLocation b = None" "a' = a" "w' = w"
    | (keep) p present protected where "bk_LocalLocation b = Some p" "localArchivePresent d p w = (present, w')"
        "protects present (bw_floor a) = (protected, bw_floor a')"
    | (remove) p present w1 e where "bk_LocalLocation b = Some p" "localArchivePresent d p w = (present, w1)"
        "protects present (bw_floor a) = (False, bw_floor a')" "bk_Timestamp b < cutoff"
        "present \<longrightarrow> oc \<longrightarrow> bk_RemoteLocation b \<noteq> None"
        "Backup_RemoveLocalCopy d (bk_ID b) i w1 = (e, w')"
proof (cases "bk_LocalLocation b")
  case None
  then show thesis using assms skip by (simp add: backup_local_step_def)
next
  case (Some p)
  obtain present w1 where l: "localArchivePresent d p w = (present, w1)" by fastforce
  obtain protected fl where f: "protects present (bw_floor a) = (protected, fl)" by fastforce
  show thesis
  proof (cases "protected \<or> \<not> bk_Timestamp b < cutoff \<or> present \<and> oc \<and> bk_RemoteLocation b = None")
    case True
    then have "bw_floor a' = fl" "w' = w1"
      using assms Some l f by (auto simp: backup_local_step_def Let_def split: if_splits)
    then show thesis using keep[OF Some] l f by simp
  next
    case False
    obtain e w2 where r: "Backup_RemoveLocalCopy d (bk_ID b) i w1 = (e, w2)" by fastforce
    have "bw_floor a' = fl \<and> w' = w2"
      using assms Some l f r False by (cases e) (auto simp: backup_local_step_def Let_def)
    then show thesis using remove[OF Some l] f r False by simp
  qed
qed

definition backup_reason :: "string \<Rightarrow> bool \<Rightarrow> gotime \<Rightarrow> BackupRecord \<Rightarrow> string \<Rightarrow> bool" where
  "backup_reason d oc cutoff b q \<longleftrightarrow>
     (\<exists>p. bk_LocalLocation b = Some p \<and> q = AbsoluteLocalPath d p)
     \<and> bk_Timestamp b < cutoff \<and> (oc \<longrightarrow> bk_RemoteLocation b \<noteq> None)"

abbreviation other_row :: "BackupRecord \<Rightarrow> BackupRecord \<Rightarrow> bool" where
  "other_row r s \<equiv> bk_ID r \<noteq> bk_ID s"

lemma fits_other:
  "fits w s \<Longrightarrow> bk_row w' (bk_ID s) = bk_row w (bk_ID s) \<Longrightarrow> fits w' s"
  by (simp add: fits_def)

lemma fits_same: "same_but_io w w' \<Longrightarrow> fits w s \<Longrightarrow> fits w' s"
  by (simp add: fits_def same_but_io_fields)

lemma backup_local_fits:
  assumes "backup_local_step d i oc cutoff r (a, w) = (a', w')" "fits w s" "other_row r s"
  shows "fits w' s"
  using assms(1)
proof (cases rule: backup_local_step_cases)
  case skip
  then show ?thesis using assms(2) by simp
next
  case (keep p present protected)
  then show ?thesis using fits_same[OF localArchivePresent_same assms(2)] by blast
next
  case (remove p present w1 e)
  have "fits w1 s" using fits_same[OF localArchivePresent_same[OF remove(2)] assms(2)] .
  then show ?thesis using fits_other RemoveLocalCopy_others[OF remove(6)] assms(3) by metis
qed

interpretation bk_local: fitted_justified_walk "backup_local_step d i oc cutoff" fits other_row
  "\<lambda>w q. d \<noteq> '''' \<and> q \<noteq> Join2 d '''' \<and> files w q \<noteq> None" "backup_reason d oc cutoff" for d i oc cutoff
proof unfold_locales
  show "backup_local_step d i oc cutoff r (a, w) = (a', w') \<Longrightarrow> fits w s \<Longrightarrow> other_row r s \<Longrightarrow> fits w' s"
    for r a w a' w' s by (rule backup_local_fits)
  fix r a w a' w' q
  assume st: "backup_local_step d i oc cutoff r (a, w) = (a', w')" and fit: "fits w r"
    and q: "d \<noteq> '''' \<and> q \<noteq> Join2 d '''' \<and> files w q \<noteq> None"
      "\<not> (d \<noteq> '''' \<and> q \<noteq> Join2 d '''' \<and> files w' q \<noteq> None)"
  from st show "backup_reason d oc cutoff r q"
  proof (cases rule: backup_local_step_cases)
    case skip
    then show ?thesis using q by simp
  next
    case (keep p present protected)
    then show ?thesis using q localArchivePresent_same[OF keep(2)] by (simp add: same_but_io_fields)
  next
    case (remove p present w1 e)
    have s1: "same_but_io w w1" using localArchivePresent_same[OF remove(2)] .
    have path: "q = AbsoluteLocalPath d p"
      using RemoveLocalCopy_files[OF remove(6) fits_same[OF s1 fit] remove(1)] q s1
      by (auto simp: same_but_io_fields)
    then have "p \<noteq> ''''" using q(1) by (auto simp: AbsoluteLocalPath_def IsAbs_def HasPrefix_def)
    then have present
      using localArchivePresent_absent[of d p w w1] remove(2) q(1) path
      by (cases present) (auto simp: AbsoluteLocalPath_def split: if_splits)
    then show ?thesis using remove path by (auto simp: backup_reason_def)
  qed
qed


lemma Cron_GetPlan_Inr:
  "Cron_GetPlan i w = (Inr p, w') \<Longrightarrow> find (\<lambda>p. cp_InstanceName p = i) (cron_plans w) = Some p"
  by (auto simp: Cron_GetPlan_def same_but_io_fields dest!: sql_query_Inr split: prod.splits sum.splits option.splits)

lemma ListBackups_only:
  assumes "Backup_ListBackups d i w = (r, w')"
  shows "bk_only w w'"
proof -
  obtain q w1 where q: "sql_query (\<lambda>w. sort_desc bk_Timestamp
      (filter (\<lambda>b. bk_InstanceName b = i) (backup_history w))) w = (q, w1)" by fastforce
  note s = bk_only_same[OF sql_query_same[OF q]]
  show ?thesis
  proof (cases q)
    case (Inl e)
    then show ?thesis using assms q s by (simp add: Backup_ListBackups_def)
  next
    case (Inr bs)
    obtain vs os w2 where v: "validate_rows d bs w1 = ((vs, os), w2)" by (metis prod.exhaust)
    have "w' = w2 \<or> w' = snd (cleanupOrphanedRecords os w2)"
      using assms q Inr v by (auto simp: Backup_ListBackups_def finish_listing_def split: if_splits)
    then have "bk_only w2 w'"
      using cleanupOrphanedRecords_only[OF prod.collapse[symmetric], where os = os and w = w2]
      by (auto simp: bk_only_def)
    then show ?thesis using validate_rows_listed[OF v] s bk_only_trans by blast
  qed
qed

lemma backup_runLocalCleanup_loop:
  assumes "backup_runLocalCleanup d AddDate now i w = (e, w')"
  obtains (idle) "files w' = files w"
    | (loop) plan oc vs w1 w2 w3 where "find (\<lambda>p. cp_InstanceName p = i) (cron_plans w) = Some plan"
        "same_but_io w w1" "Backup_ListBackups d i w1 = (Inr vs, w2)" "same_but_io w2 w3"
        "oc \<or> (\<forall>s \<in> set (offsite_settings w). \<not> off_Active s)"
        "w' = snd (fold (backup_local_step d i oc (AddDate now (- cp_CleanupLocalDays plan))) vs (backup_walk_start, w3))"
        "io_schedule w = [] \<longrightarrow> w1 = w" "io_schedule w2 = [] \<longrightarrow> w3 = w2"
proof -
  obtain pl w1 where a1: "Cron_GetPlan i w = (pl, w1)" by fastforce
  note s1 = Cron_reads_same(1)[OF a1]
  obtain rs w2 where a2: "Backup_ListBackups d i w1 = (rs, w2)" by fastforce
  note o2 = bk_only_trans[OF bk_only_same[OF s1] ListBackups_only[OF a2]]
  obtain oc w3 where a3: "offsite_assumed w2 = (oc, w3)" by fastforce
  show thesis
  proof (cases "\<exists>plan vs. pl = Inr plan \<and> rs = Inr vs")
    case False
    then have "w' = w1 \<or> w' = w2"
      using assms a1 a2 by (auto simp: backup_runLocalCleanup_def split: sum.splits)
    then show thesis using idle o2 s1 by (auto simp: bk_only_def same_but_io_fields)
  next
    case True
    then obtain plan vs where ok: "pl = Inr plan" "rs = Inr vs" by blast
    have "oc \<or> (\<forall>s \<in> set (offsite_settings w). \<not> off_Active s)"
      using offsite_assumed_False[of w2 w3] a3 o2 by (cases oc) (simp_all add: bk_only_def)
    moreover have "w' = snd (fold (backup_local_step d i oc (AddDate now (- cp_CleanupLocalDays plan))) vs
        (backup_walk_start, w3))"
      using assms a1 a2 a3 ok by (simp add: backup_runLocalCleanup_def Let_def)
    moreover have "io_schedule w = [] \<longrightarrow> w1 = w" "io_schedule w2 = [] \<longrightarrow> w3 = w2"
      using a1 a3 by (auto simp: Cron_GetPlan_def offsite_assumed_def Offsite_GetActive_def calm_primitives
          split: option.splits)
    ultimately show thesis
      using loop[OF Cron_GetPlan_Inr s1 _ offsite_assumed_same] a1 a2 a3 ok by blast
  qed
qed

lemma listed_row:
  assumes "Backup_ListBackups d i w = (Inr vs, w')" "backups_ok w" "b \<in> set vs"
  shows "\<exists>b0 \<in> set (backup_history w). bk_core b = bk_core b0 \<and> bk_InstanceName b0 = i"
proof -
  let ?bs = "sort_desc bk_Timestamp (filter (\<lambda>b. bk_InstanceName b = i) (backup_history w))"
  have "set (map bk_core vs) \<subseteq> set (map bk_core ?bs)"
    using list_emb_set[OF ListBackups_listed(2)[OF assms(1,2)]] by blast
  then have "bk_core b \<in> bk_core ` set ?bs" using assms(3) by auto
  then obtain y where "y \<in> set ?bs" "bk_core b = bk_core y" by (metis imageE)
  then show ?thesis by auto
qed

text \<open>
  C24. The only-copy safeguard of an instance's local backup retention, under every pattern
  of disk and database failures: a file below a named data directory disappears only if a row
  of that instance names it, is older than the plan's retention and, whenever an offsite
  configuration is active, has a remote copy. Only with no active offsite does age alone
  suffice, as the code intends for a host that keeps local copies only. Between the listing and
  the deletion the row is read again by its id; it is still the row that was judged. The two
  side conditions on paths say that the data directory is configured (not the empty string) and
  that the file is not the data directory's own path, which a row with an empty location names.
\<close>

theorem backup_local_cleanup_safeguard:
  assumes "backup_runLocalCleanup d AddDate now i w = (e, w')" "backups_ok w" "d \<noteq> ''''" "q \<noteq> Join2 d ''''"
    and "files w q \<noteq> None" "files w' q = None"
  shows "\<exists>plan b p. find (\<lambda>p. cp_InstanceName p = i) (cron_plans w) = Some plan
     \<and> b \<in> set (backup_history w) \<and> bk_InstanceName b = i
     \<and> bk_LocalLocation b = Some p \<and> AbsoluteLocalPath d p = q
     \<and> bk_Timestamp b < AddDate now (- cp_CleanupLocalDays plan)
     \<and> (bk_RemoteLocation b \<noteq> None \<or> (\<forall>s \<in> set (offsite_settings w). \<not> off_Active s))"
  using assms(1)
proof (cases rule: backup_runLocalCleanup_loop)
  case idle
  then show ?thesis using assms(5,6) by simp
next
  case (loop plan oc vs w1 w2 w3)
  let ?cut = "AddDate now (- cp_CleanupLocalDays plan)"
  have ok1: "backups_ok w1" using bk.io_stable[OF loop(2)] assms(2) by blast
  note listed = ListBackups_listed[OF loop(3) ok1]
  have fit: "\<forall>b \<in> set vs. fits w3 b" using listed(4) fits_same[OF loop(4)] by blast
  have f3: "files w3 q \<noteq> None"
    using assms(5) listed(1) loop(2,4) by (simp add: bk_only_def same_but_io_fields)
  obtain a where run: "fold (backup_local_step d i oc ?cut) vs (backup_walk_start, w3) = (a, w')"
    using loop(6) by (metis prod.collapse)
  obtain b where b: "b \<in> set vs" "backup_reason d oc ?cut b q"
    using bk_local.fitted_walk_justified[OF run listed(3) fit, of q] assms(3,4,6) f3 by blast
  obtain b0 where b0: "b0 \<in> set (backup_history w1)" "bk_core b = bk_core b0" "bk_InstanceName b0 = i"
    using listed_row[OF loop(3) ok1 b(1)] by blast
  then have "b0 \<in> set (backup_history w)" using loop(2) by (simp add: same_but_io_fields)
  moreover have "bk_Timestamp b = bk_Timestamp b0" "bk_LocalLocation b = bk_LocalLocation b0"
    "bk_RemoteLocation b = bk_RemoteLocation b0" using b0(2) by (simp_all add: bk_core_def)
  ultimately show ?thesis using loop(1,5) b(2) b0(3) unfolding backup_reason_def by metis
qed


definition demo_plans :: "CronPlan list" where
  "demo_plans = [\<lparr>cp_InstanceName = ''db1'', cp_UTCHour = 1, cp_CleanupLocalDays = 7, cp_CleanupRemoteDays = 3,
     cp_PausedAt = 0, cp_PausedReason = '''', cp_CreatedAt = 1, cp_UpdatedAt = 1\<rparr>]"

definition demo_backup_host :: world where
  "demo_backup_host = empty_world
     \<lparr>backup_history := [demo_backup 1 10 (Some ''/b/1'') (Some ''s3://bkt/oddk/1''),
         demo_backup 2 20 (Some ''/b/2'') None, demo_backup 3 30 (Some ''/b/3'') None,
         demo_backup 4 40 (Some ''/b/4'') None],
      backup_seq := 4, cron_plans := demo_plans, offsite_settings := [demo_settings],
      objects := (\<lambda>_. None)((''bkt'', ''oddk/1'') := Some 10),
      files := (\<lambda>_. None)(''/b/1'' := Some 10, ''/b/2'' := Some 10, ''/b/3'' := Some 10, ''/b/4'' := Some 10)\<rparr>"

lemma demo_backup_host_ok: "backups_ok demo_backup_host"
  by (simp add: backups_ok_def demo_backup_host_def demo_backup_def bk_check_def)

theorem backup_local_cleanup_safeguard_witness:
  "let w' = snd (backup_runLocalCleanup ''/d'' (\<lambda>t d. t + d) 100 ''db1'' demo_backup_host) in
   files w' ''/b/1'' = None \<and> files w' ''/b/2'' = Some 10
   \<and> (\<exists>b \<in> set (backup_history demo_backup_host). bk_LocalLocation b = Some ''/b/1'' \<and> bk_RemoteLocation b \<noteq> None)"
proof -
  let ?w' = "snd (backup_runLocalCleanup ''/d'' (\<lambda>t d. t + d) 100 ''db1'' demo_backup_host)"
  have run: "files ?w' ''/b/1'' = None" "files ?w' ''/b/2'' = Some 10" "''/b/1'' \<noteq> Join2 ''/d'' ''''"
    by code_simp+
  have pre: "files demo_backup_host ''/b/1'' \<noteq> None"
    "\<not> (\<forall>s \<in> set (offsite_settings demo_backup_host). \<not> off_Active s)"
    by (simp_all add: demo_backup_host_def demo_settings_def)
  obtain b p where "b \<in> set (backup_history demo_backup_host)" "bk_LocalLocation b = Some p"
    "AbsoluteLocalPath ''/d'' p = ''/b/1''" "bk_RemoteLocation b \<noteq> None"
    using backup_local_cleanup_safeguard[OF prod.collapse[symmetric] demo_backup_host_ok _ run(3) pre(1) run(1)] pre(2)
    by blast
  moreover from this have "p = ''/b/1''"
    by (auto simp: demo_backup_host_def demo_backup_def AbsoluteLocalPath_def IsAbs_def HasPrefix_def)
  ultimately have "\<exists>b \<in> set (backup_history demo_backup_host).
      bk_LocalLocation b = Some ''/b/1'' \<and> bk_RemoteLocation b \<noteq> None" by blast
  then show ?thesis using run(1,2) by (simp only: Let_def simp_thms)
qed

section \<open>What local retention always keeps\<close>

abbreviation bw_kept :: "backup_walk \<Rightarrow> nat" where
  "bw_kept a \<equiv> nat (fl_kept (bw_floor a))"

definition bw_ok :: "backup_walk \<Rightarrow> bool" where
  "bw_ok a \<longleftrightarrow> fl_limit (bw_floor a) = 2 \<and> 0 \<le> fl_kept (bw_floor a) \<and> fl_kept (bw_floor a) \<le> 2"

lemma backup_walk_start_ok: "bw_ok backup_walk_start \<and> bw_kept backup_walk_start = 0"
  by (simp add: bw_ok_def backup_walk_start_def newRetentionFloor_def minRetainedBackups_def)

definition backup_copy :: "string \<Rightarrow> world \<Rightarrow> BackupRecord \<Rightarrow> bool" where
  "backup_copy d w b \<longleftrightarrow> (\<exists>p. bk_LocalLocation b = Some p \<and> p \<noteq> '''' \<and> files w (AbsoluteLocalPath d p) \<noteq> None)"

definition backup_path :: "string \<Rightarrow> BackupRecord \<Rightarrow> string" where
  "backup_path d b = (case bk_LocalLocation b of None \<Rightarrow> '''' | Some p \<Rightarrow> AbsoluteLocalPath d p)"

text \<open>The data directory is set, the row is current, and it names a path.\<close>

definition judged :: "string \<Rightarrow> world \<Rightarrow> BackupRecord \<Rightarrow> bool" where
  "judged d w b \<longleftrightarrow> d \<noteq> '''' \<and> fits w b \<and> bk_LocalLocation b \<noteq> Some ''''"

lemma protects_counts:
  assumes "protects present (bw_floor a) = (pr, bw_floor a')" "bw_ok a"
  shows "bw_ok a' \<and> bw_kept a' = bw_kept a + (if present \<and> bw_kept a < 2 then 1 else 0)
     \<and> (pr \<longleftrightarrow> present \<and> bw_kept a < 2)"
proof -
  let ?f = "bw_floor a"
  have k: "fl_kept (bw_floor a') = fl_kept ?f + (if present \<and> fl_kept ?f < fl_limit ?f then 1 else 0)"
    "fl_limit (bw_floor a') = fl_limit ?f" "pr \<longleftrightarrow> present \<and> fl_kept ?f < fl_limit ?f"
    using protects_outcome[of present ?f] assms(1) by (metis fst_conv snd_conv)+
  have lim: "fl_limit ?f = 2" "0 \<le> fl_kept ?f" "fl_kept ?f \<le> 2" using assms(2) by (simp_all add: bw_ok_def)
  then have "bw_kept a < 2 \<longleftrightarrow> fl_kept ?f < 2" by (simp add: nat_less_iff)
  then show ?thesis using k lim by (auto simp: bw_ok_def nat_add_distrib)
qed

lemma local_present_calm:
  assumes "io_schedule w = []" "judged d w b" "bk_LocalLocation b = Some p"
  shows "localArchivePresent d p w = (backup_copy d w b, w)"
  using assms
  by (auto simp: localArchivePresent_def Let_def judged_def backup_copy_def AbsoluteLocalPath_def calm_primitives
      split: option.splits)

lemma bk_exec_calm:
  "io_schedule w = [] \<Longrightarrow> bk_exec m (bk_update_stmt n f) w = (r, w') \<Longrightarrow> io_schedule w' = []"
  "io_schedule w = [] \<Longrightarrow> bk_exec m (bk_delete_stmt n) w = (r, w') \<Longrightarrow> io_schedule w' = []"
  by (auto simp: bk_exec_def calm_primitives bk_update_stmt_def bk_delete_stmt_def split: if_splits)

lemma GetBackupByID_calm:
  "io_schedule w = [] \<Longrightarrow> Backup_GetBackupByID d n w = (r, w') \<Longrightarrow> w' = w"
  by (auto simp: Backup_GetBackupByID_def validateBackupFile_def calm_primitives
      split: option.splits prod.splits if_splits)

lemma RemoveLocalCopy_calm:
  assumes "io_schedule w = []" "Backup_RemoveLocalCopy d n i w = (e, w')"
  shows "io_schedule w' = []"
proof -
  obtain rb w1 where g: "Backup_GetBackupByID d n w = (rb, w1)" by fastforce
  have w1: "w1 = w" using GetBackupByID_calm[OF assms(1) g] .
  consider "w' = w" | p er w2 where "os_Remove p w = (er, w2)" "w' = w2 \<or>
      bk_exec ''delete backup record'' (bk_delete_stmt n) w2 = (e, w') \<or>
      bk_exec ''clear local location'' (bk_update_stmt n (\<lambda>r. r\<lparr>bk_LocalLocation := None\<rparr>)) w2 = (e, w')"
    using assms(2) g w1
    by (auto simp: Backup_RemoveLocalCopy_def Backup_ClearLocalLocation_def
        split: sum.splits option.splits if_splits prod.splits)
  then show ?thesis
  proof cases
    case 2
    then have "io_schedule w2 = []" using assms(1) by (auto simp: calm_primitives split: option.splits)
    then show ?thesis using 2(2) bk_exec_calm by blast
  qed (use assms(1) in simp)
qed


text \<open>A turn on a host that answers.\<close>

lemma backup_local_turn:
  assumes "backup_local_step d i oc cutoff b (a, w) = (a', w')" "io_schedule w = []" "judged d w b"
  shows "\<forall>q. q \<noteq> backup_path d b \<or> \<not> backup_copy d w b \<longrightarrow> files w' q = files w q"
    and "\<forall>q. files w' q \<noteq> None \<longrightarrow> files w q \<noteq> None"
    and "bw_ok a \<longrightarrow> bw_kept a' = bw_kept a + (if backup_copy d w b \<and> bw_kept a < 2 then 1 else 0)
           \<and> (backup_copy d w b \<and> bw_kept a < 2 \<longrightarrow> files w' = files w)"
proof -
  have "(\<forall>q. q \<noteq> backup_path d b \<or> \<not> backup_copy d w b \<longrightarrow> files w' q = files w q)
    \<and> (\<forall>q. files w' q \<noteq> None \<longrightarrow> files w q \<noteq> None)
    \<and> (bw_ok a \<longrightarrow> bw_kept a' = bw_kept a + (if backup_copy d w b \<and> bw_kept a < 2 then 1 else 0)
           \<and> (backup_copy d w b \<and> bw_kept a < 2 \<longrightarrow> files w' = files w))"
    using assms(1)
  proof (cases rule: backup_local_step_cases)
    case skip
    then show ?thesis by (simp add: backup_copy_def)
  next
    case (keep p present protected)
    have "present = backup_copy d w b" "w' = w"
      using local_present_calm[OF assms(2,3) keep(1)] keep(2) by simp_all
    then show ?thesis using protects_counts[OF keep(3)] by simp
  next
    case (remove p present w1 e)
    have pr: "present = backup_copy d w b" "w1 = w"
      using local_present_calm[OF assms(2,3) remove(1)] remove(2) by simp_all
    have fit: "fits w b" and ne: "p \<noteq> ''''" using assms(3) remove(1) by (auto simp: judged_def)
    have path: "backup_path d b = AbsoluteLocalPath d p" using remove(1) by (simp add: backup_path_def)
    note eff = RemoveLocalCopy_files[OF remove(6)[unfolded pr(2)] fit remove(1)]
    have "files w' q = files w q" if "q \<noteq> backup_path d b \<or> \<not> backup_copy d w b" for q
      using eff that remove(1) ne path by (cases "q = AbsoluteLocalPath d p") (auto simp: backup_copy_def)
    moreover have "files w q \<noteq> None" if "files w' q \<noteq> None" for q
      using eff that by (cases "q = AbsoluteLocalPath d p") auto
    ultimately show ?thesis using protects_counts[OF remove(3)] pr(1) by auto
  qed
  then show "\<forall>q. q \<noteq> backup_path d b \<or> \<not> backup_copy d w b \<longrightarrow> files w' q = files w q"
    "\<forall>q. files w' q \<noteq> None \<longrightarrow> files w q \<noteq> None"
    "bw_ok a \<longrightarrow> bw_kept a' = bw_kept a + (if backup_copy d w b \<and> bw_kept a < 2 then 1 else 0)
           \<and> (backup_copy d w b \<and> bw_kept a < 2 \<longrightarrow> files w' = files w)" by blast+
qed

lemma backup_local_files_shrink:
  assumes "backup_local_step d i oc cutoff b (a, w) = (a', w')" "files w' q \<noteq> None"
  shows "files w q \<noteq> None"
  using assms(1)
proof (cases rule: backup_local_step_cases)
  case skip
  then show ?thesis using assms(2) by simp
next
  case (keep p present protected)
  then show ?thesis using assms(2) localArchivePresent_same[OF keep(2)] by (simp add: same_but_io_fields)
next
  case (remove p present w1 e)
  have "files w1 = files w" using localArchivePresent_same[OF remove(2)] by (simp add: same_but_io_fields)
  then show ?thesis using RemoveLocalCopy_shrinks[OF remove(6)] assms(2) by simp
qed

lemma backup_local_invariant:
  assumes "backup_local_step d i oc cutoff b (a, w) = (a', w')" "bw_ok a"
  shows "bw_ok a'"
  using assms(1)
  by (cases rule: backup_local_step_cases) (use assms(2) protects_counts in blast)+

lemma backup_local_calm:
  assumes "backup_local_step d i oc cutoff b (a, w) = (a', w')" "io_schedule w = []"
  shows "io_schedule w' = []"
  using assms(1)
proof (cases rule: backup_local_step_cases)
  case skip
  then show ?thesis using assms(2) by simp
next
  case (keep p present protected)
  then show ?thesis using assms(2) by (auto simp: localArchivePresent_def Let_def calm_primitives split: if_splits option.splits)
next
  case (remove p present w1 e)
  have "io_schedule w1 = []"
    using remove(2) assms(2) by (auto simp: localArchivePresent_def Let_def calm_primitives split: if_splits option.splits)
  then show ?thesis using RemoveLocalCopy_calm remove(6) by blast
qed

lemma backup_copy_path: "backup_copy d w b \<Longrightarrow> files w' (backup_path d b) \<noteq> None \<Longrightarrow> backup_copy d w' b"
  by (auto simp: backup_copy_def backup_path_def)

lemma backup_copyD: "backup_copy d w b \<Longrightarrow> files w (backup_path d b) \<noteq> None"
  by (auto simp: backup_copy_def backup_path_def)

interpretation bk_local_floor: fitted_kept_walk "backup_local_step d i oc cutoff" "judged d" other_row
  bw_kept 2 "backup_copy d" "backup_path d" bw_ok for d i oc cutoff
proof unfold_locales
  fix r a w a' w'
  assume st: "backup_local_step d i oc cutoff r (a, w) = (a', w')"
  show "judged d w s \<Longrightarrow> other_row r s \<Longrightarrow> judged d w' s" for s
    using backup_local_fits[OF st] by (auto simp: judged_def)
  show "bw_ok a \<Longrightarrow> bw_ok a'" using backup_local_invariant[OF st] .
  assume calm: "io_schedule w = []"
  show "io_schedule w' = []" using backup_local_calm[OF st calm] .
  show "backup_copy d w' s \<Longrightarrow> backup_copy d w s" for s
    using backup_copy_path[of d w' s w] backup_copyD[of d w' s] backup_local_files_shrink[OF st] by blast
  assume fit: "judged d w r"
  note t = backup_local_turn[OF st calm fit]
  show "backup_copy d w s \<Longrightarrow> \<not> (backup_copy d w r \<and> backup_path d r = backup_path d s) \<Longrightarrow> backup_copy d w' s" for s
    using backup_copy_path[of d w s w'] backup_copyD[of d w s] t(1) by metis
  assume ok: "bw_ok a"
  show "\<not> backup_copy d w r \<Longrightarrow> bw_kept a' = bw_kept a" using t(3) ok by simp
  show "backup_copy d w' r \<and> bw_kept a' = bw_kept a + 1" if "backup_copy d w r" "bw_kept a < 2"
    using t(3) ok that by (simp add: backup_copy_def)
qed

lemma cleanupOrphanedRecords_calm:
  "io_schedule w = [] \<Longrightarrow> cleanupOrphanedRecords os w = (r, w') \<Longrightarrow> io_schedule w' = []"
  by (induction os arbitrary: w)
     (auto simp: cleanupOrphanedRecord_def split: prod.splits option.splits dest: bk_exec_calm(2))

lemma ListBackups_calm:
  assumes "io_schedule w = []" "backups_ok w" "Backup_ListBackups d i w = (r, w')"
  shows "io_schedule w' = []"
proof -
  let ?bs = "sort_desc bk_Timestamp (filter (\<lambda>b. bk_InstanceName b = i) (backup_history w))"
  obtain vs os w2 where v: "validate_rows d ?bs w = ((vs, os), w2)" by (metis prod.exhaust)
  have "\<forall>b \<in> set ?bs. bk_check b" using assms(2) by (simp add: backups_ok_def)
  then have "io_schedule w2 = []" using validate_rows_calm[OF assms(1) v] by blast
  moreover have "w' = w2 \<or> w' = snd (cleanupOrphanedRecords os w2)"
    using assms(3) v by (auto simp: Backup_ListBackups_def finish_listing_def calm_primitives[OF assms(1)] split: if_splits)
  ultimately show ?thesis using cleanupOrphanedRecords_calm[OF _ prod.collapse[symmetric]] by metis
qed

text \<open>
  The floor of an instance's local backups: on a host that answers, one run of local
  retention leaves the two newest listed backups whose file exists, however old they are.
\<close>

theorem backup_local_floor:
  assumes "backup_runLocalCleanup d AddDate now i w = (e, w')" "io_schedule w = []" "backups_ok w" "d \<noteq> ''''"
    and "Backup_ListBackups d i w = (Inr vs, w1)"
    and "\<forall>b \<in> set vs. bk_LocalLocation b \<noteq> Some ''''"
    and "distinct (map (backup_path d) (filter (backup_copy d w) vs))"
    and "b \<in> set (take 2 (filter (backup_copy d w) vs))"
  shows "files w' (backup_path d b) \<noteq> None"
  using assms(1)
proof (cases rule: backup_runLocalCleanup_loop)
  case idle
  then show ?thesis using in_set_takeD[OF assms(8)] backup_copyD by auto
next
  case (loop plan oc vs' v1 v2 v3)
  have calm1: "io_schedule w1 = []" using ListBackups_calm[OF assms(2,3,5)] .
  have v: "v1 = w" "vs' = vs" "v2 = w1" "v3 = w1" using loop(3,7,8) assms(2,5) calm1 by auto
  note listed = ListBackups_listed[OF assms(5,3)]
  have eq: "backup_copy d w1 = backup_copy d w"
    using listed(1) by (auto simp: backup_copy_def bk_only_def fun_eq_iff)
  have fit: "\<forall>r \<in> set vs. judged d w1 r" using listed(4) assms(4,6) by (simp add: judged_def)
  let ?step = "backup_local_step d i oc (AddDate now (- cp_CleanupLocalDays plan))"
  obtain a where run: "fold ?step vs (backup_walk_start, w1) = (a, w')"
    using loop(6) v by (metis prod.collapse)
  have "backup_copy d w' b"
    using bk_local_floor.fitted_newest_survive[OF run listed(3) fit _ calm1, of b]
      backup_walk_start_ok assms(7,8) by (simp add: eq)
  then show ?thesis by (rule backup_copyD)
qed


lemma map_four: "map f xs = [a, b, c, d] \<Longrightarrow>
    \<exists>x1 x2 x3 x4. xs = [x1, x2, x3, x4] \<and> f x1 = a \<and> f x2 = b \<and> f x3 = c \<and> f x4 = d"
  by (auto simp: map_eq_Cons_conv)

theorem backup_local_floor_witness:
  "files (snd (backup_runLocalCleanup ''/d'' (\<lambda>t d. t + d) 100000 ''db1'' demo_backup_host)) ''/b/3'' \<noteq> None"
proof -
  define vs where "vs = (case fst (Backup_ListBackups ''/d'' ''db1'' demo_backup_host) of Inl e \<Rightarrow> [] | Inr vs \<Rightarrow> vs)"
  have "\<not> isl (fst (Backup_ListBackups ''/d'' ''db1'' demo_backup_host))" by code_simp
  then have listing: "Backup_ListBackups ''/d'' ''db1'' demo_backup_host
      = (Inr vs, snd (Backup_ListBackups ''/d'' ''db1'' demo_backup_host))"
    unfolding vs_def
    by (cases "fst (Backup_ListBackups ''/d'' ''db1'' demo_backup_host)") (simp_all add: prod_eq_iff)
  have calm: "io_schedule demo_backup_host = []" by (simp add: demo_backup_host_def empty_world_def)
  have locs: "map bk_LocalLocation vs = [Some ''/b/4'', Some ''/b/3'', Some ''/b/2'', Some ''/b/1'']"
    unfolding vs_def by code_simp
  obtain b4 b3 b2 b1 where vs: "vs = [b4, b3, b2, b1]" "bk_LocalLocation b4 = Some ''/b/4''"
    "bk_LocalLocation b3 = Some ''/b/3''" "bk_LocalLocation b2 = Some ''/b/2''" "bk_LocalLocation b1 = Some ''/b/1''"
    using map_four[OF locs] by metis
  have paths: "backup_path ''/d'' b4 = ''/b/4''" "backup_path ''/d'' b3 = ''/b/3''"
    "backup_path ''/d'' b2 = ''/b/2''" "backup_path ''/d'' b1 = ''/b/1''"
    using vs(2-5) by (simp_all add: backup_path_def AbsoluteLocalPath_def IsAbs_def HasPrefix_def)
  have "backup_copy ''/d'' demo_backup_host b4" "backup_copy ''/d'' demo_backup_host b3"
    "backup_copy ''/d'' demo_backup_host b2" "backup_copy ''/d'' demo_backup_host b1"
    using vs(2-5) by (simp_all add: backup_copy_def AbsoluteLocalPath_def IsAbs_def HasPrefix_def demo_backup_host_def)
  then have copies: "filter (backup_copy ''/d'' demo_backup_host) vs = vs" by (simp add: vs(1))
  have "\<forall>b \<in> set vs. bk_LocalLocation b \<noteq> Some ''''" "distinct (map (backup_path ''/d'') vs)"
    using vs paths by simp_all
  then show ?thesis
    using backup_local_floor[OF prod.collapse[symmetric] calm demo_backup_host_ok _ listing, of b3] copies vs(1) paths(2)
    by simp
qed

section \<open>Offsite retention\<close>

lemma backup_remote_step_cases:
  assumes "backup_remote_step cl bucket d i cutoff b (a, w) = (a', w')"
  obtains (skip) "bk_RemoteLocation b = None" "a' = a" "w' = w"
    | (keep) loc where "bk_RemoteLocation b = Some loc" "same_but_io w w'"
        "io_schedule w = [] \<longrightarrow> w' = w"
        "bw_floor a' = (if floor_full (bw_floor a) then bw_floor a
           else snd (protects (fst (remoteArchivePresent cl bucket loc w)) (bw_floor a)))"
    | (delete) loc key w1 e w2 where "bk_RemoteLocation b = Some loc" "same_but_io w w1"
        "io_schedule w = [] \<longrightarrow> w1 = w"
        "bw_floor a' = (if floor_full (bw_floor a) then bw_floor a
           else snd (protects (fst (remoteArchivePresent cl bucket loc w)) (bw_floor a)))"
        "floor_full (bw_floor a) \<or> \<not> fst (remoteArchivePresent cl bucket loc w)"
        "bk_Timestamp b < cutoff" "remote_slot cl bucket loc = Inr (client_bucketPath cl @ RelativeKey cl key)"
        "DeleteFile cl (RelativeKey cl key) w1 = (e, w2)"
        "w' = w2 \<or> w' = snd (Backup_RemoveRemoteCopy d (bk_ID b) i w2)"
proof (cases "bk_RemoteLocation b")
  case None
  then show thesis using assms skip by (simp add: backup_remote_step_def)
next
  case (Some loc)
  obtain present w0 where h: "remoteArchivePresent cl bucket loc w = (present, w0)" by fastforce
  let ?full = "floor_full (bw_floor a)"
  define w1 where "w1 = (if ?full then w else w0)"
  define pr where "pr = (\<not> ?full \<and> fst (protects present (bw_floor a)))"
  define a1 where "a1 = (if ?full then a else a\<lparr>bw_floor := snd (protects present (bw_floor a))\<rparr>)"
  have head: "backup_remote_head cl bucket loc a w = (pr, a1, w1)"
    by (simp add: backup_remote_head_def h w1_def pr_def a1_def split: prod.splits)
  have s1: "same_but_io w w1" using remoteArchivePresent_same[OF h] by (simp add: w1_def)
  have c1: "io_schedule w = [] \<longrightarrow> w1 = w"
    using h by (auto simp: w1_def remoteArchivePresent_def FileExists_def calm_primitives split: sum.splits prod.splits if_splits)
  have fl: "bw_floor a1 = (if ?full then bw_floor a
      else snd (protects (fst (remoteArchivePresent cl bucket loc w)) (bw_floor a)))" by (simp add: a1_def h)
  have pres: "?full \<or> \<not> fst (remoteArchivePresent cl bucket loc w)" if "\<not> pr"
    using that by (auto simp: pr_def h protects_outcome floor_full_def)
  let ?go = "\<not> pr \<and> bk_Timestamp b < cutoff \<and>
    (\<exists>rest key. CutPrefix loc ''s3://'' = Some rest \<and> CutChar (CHR ''/'') rest = Some (bucket, key))"
  show thesis
  proof (cases ?go)
    case False
    then have "a' = a1 \<and> w' = w1"
      using assms Some head by (auto simp: backup_remote_step_def split: if_splits option.splits prod.splits)
    then show thesis using keep[OF Some] s1 c1 fl by simp
  next
    case True
    then obtain rest key where k: "CutPrefix loc ''s3://'' = Some rest" "CutChar (CHR ''/'') rest = Some (bucket, key)"
      by blast
    obtain e w2 where del: "DeleteFile cl (RelativeKey cl key) w1 = (e, w2)" by fastforce
    have "bw_floor a' = bw_floor a1 \<and> (w' = w2 \<or> w' = snd (Backup_RemoveRemoteCopy d (bk_ID b) i w2))"
      using assms Some head True k del
      by (auto simp: backup_remote_step_def split: if_splits option.splits prod.splits)
    moreover have "remote_slot cl bucket loc = Inr (client_bucketPath cl @ RelativeKey cl key)"
      using k by (simp add: remote_slot_def)
    ultimately show thesis using delete[OF Some s1 c1 _ pres _ _ del] True fl by simp
  qed
qed

lemma RemoveRemoteCopy_storage:
  assumes "Backup_RemoveRemoteCopy d n i w = (e, w')"
  shows "files w' = files w \<and> objects w' = objects w"
proof -
  obtain rb w1 where g: "Backup_GetBackupByID d n w = (rb, w1)" by fastforce
  have s1: "files w1 = files w" "objects w1 = objects w"
    using GetBackupByID_same[OF g] by (simp_all add: same_but_io_fields)
  have "w' = w1 \<or> bk_exec ''delete backup record'' (bk_delete_stmt n) w1 = (e, w') \<or>
      bk_exec ''clear remote location'' (bk_update_stmt n (\<lambda>r. r\<lparr>bk_RemoteLocation := None\<rparr>)) w1 = (e, w')"
    using assms g by (auto simp: Backup_RemoveRemoteCopy_def split: sum.splits if_splits)
  then show ?thesis using s1 bk_exec_storage by metis
qed

lemma RemoveRemoteCopy_calm:
  assumes "io_schedule w = []" "Backup_RemoveRemoteCopy d n i w = (e, w')"
  shows "io_schedule w' = []"
proof -
  obtain rb w1 where g: "Backup_GetBackupByID d n w = (rb, w1)" by fastforce
  have w1: "w1 = w" using GetBackupByID_calm[OF assms(1) g] .
  have "w' = w \<or> bk_exec ''delete backup record'' (bk_delete_stmt n) w = (e, w') \<or>
      bk_exec ''clear remote location'' (bk_update_stmt n (\<lambda>r. r\<lparr>bk_RemoteLocation := None\<rparr>)) w = (e, w')"
    using assms(2) g w1 by (auto simp: Backup_RemoveRemoteCopy_def split: sum.splits if_splits)
  then show ?thesis using assms(1) bk_exec_calm by blast
qed

abbreviation remote_loc :: "BackupRecord \<Rightarrow> string" where
  "remote_loc b \<equiv> (case bk_RemoteLocation b of None \<Rightarrow> '''' | Some l \<Rightarrow> l)"

lemma backup_remote_objects:
  assumes "backup_remote_step cl bucket d i cutoff b (a, w) = (a', w')"
  shows "files w' = files w \<and> (objects w' = objects w \<or>
     (bk_Timestamp b < cutoff \<and> (\<exists>k. remote_slot cl bucket (remote_loc b) = Inr k
        \<and> objects w' (client_bucket cl, k) = None
        \<and> (\<forall>ob. ob \<noteq> (client_bucket cl, k) \<longrightarrow> objects w' ob = objects w ob))))"
  using assms
proof (cases rule: backup_remote_step_cases)
  case skip
  then show ?thesis by simp
next
  case (keep loc)
  then show ?thesis by (simp add: same_but_io_fields)
next
  case (delete loc key w1 e w2)
  have s: "files w1 = files w" "objects w1 = objects w" using delete(2) by (simp_all add: same_but_io_fields)
  have "files w' = files w2 \<and> objects w' = objects w2"
    using delete(9) RemoveRemoteCopy_storage[OF prod.collapse[symmetric]] by metis
  then show ?thesis using DeleteFile_effect[OF delete(8)] s delete(1,6,7) by auto
qed

definition backup_remote_reason :: "Client \<Rightarrow> string \<Rightarrow> gotime \<Rightarrow> BackupRecord \<Rightarrow> string \<times> string \<Rightarrow> bool" where
  "backup_remote_reason cl bucket cutoff b ob \<longleftrightarrow> bk_Timestamp b < cutoff \<and>
     (\<exists>k. remote_slot cl bucket (remote_loc b) = Inr k \<and> ob = (client_bucket cl, k))"

interpretation bk_remote: justified_walk "backup_remote_step cl bucket d i cutoff"
  "\<lambda>w ob. objects w ob \<noteq> None" "backup_remote_reason cl bucket cutoff" for cl bucket d i cutoff
proof unfold_locales
  fix r a w a' w' ob
  assume "backup_remote_step cl bucket d i cutoff r (a, w) = (a', w')"
    "objects w ob \<noteq> None" "\<not> objects w' ob \<noteq> None"
  then show "backup_remote_reason cl bucket cutoff r ob"
    using backup_remote_objects[of cl bucket d i cutoff r a w a' w'] unfolding backup_remote_reason_def by metis
qed


lemma remote_slot_key:
  assumes "remote_slot cl b l = Inr k"
  shows "\<exists>key. l = ''s3://'' @ b @ ''/'' @ key \<and> (k = key \<or> (\<exists>path. \<not> HasPrefix key path \<and> k = path @ key))"
proof -
  obtain rest key where r: "CutPrefix l ''s3://'' = Some rest" "CutChar (CHR ''/'') rest = Some (b, key)"
    "k = client_bucketPath cl @ RelativeKey cl key"
    using assms by (auto simp: remote_slot_def split: option.splits if_splits)
  have "l = ''s3://'' @ b @ ''/'' @ key" using CutPrefix_Some[OF r(1)] CutChar_Some[OF r(2)] by simp
  moreover have "k = key \<or> (\<exists>path. \<not> HasPrefix key path \<and> k = path @ key)"
  proof (cases "HasPrefix key (client_bucketPath cl)")
    case True
    then have "key = client_bucketPath cl @ drop (length (client_bucketPath cl)) key"
      using CutPrefix_Some[of key "client_bucketPath cl"] by (simp add: CutPrefix_def)
    then show ?thesis using r(3) RelativeKey_full by metis
  next
    case False
    then have "RelativeKey cl key = key" by (auto simp: RelativeKey_def CutPrefix_def)
    then show ?thesis using False r(3) by auto
  qed
  ultimately show ?thesis by blast
qed

lemma backup_runRemoteCleanup_loop:
  assumes "backup_runRemoteCleanup c d AddDate now i w = (e, w')"
  obtains (idle) "files w' = files w" "objects w' = objects w"
    | (loop) plan s cl vs w1 w2 w3 w4 where "find (\<lambda>p. cp_InstanceName p = i) (cron_plans w) = Some plan"
        "GetActiveOffsiteSettingsDecrypted c w = (Inr (Some s), w1)" "same_but_io w w2"
        "Backup_ListBackups d i w2 = (Inr vs, w3)" "NewClient s w3 = (Inr cl, w4)"
        "w' = snd (fold (backup_remote_step cl (off_Bucket s) d i (AddDate now (- cp_CleanupRemoteDays plan))) vs
               (backup_walk_start, w4))"
        "io_schedule w = [] \<longrightarrow> w1 = w \<and> w2 = w"
proof -
  obtain r1 w1 where a1: "GetActiveOffsiteSettingsDecrypted c w = (r1, w1)" by fastforce
  note s1 = GetActiveDecrypted_same[OF a1]
  obtain pl w2 where a2: "Cron_GetPlan i w1 = (pl, w2)" by fastforce
  note s2 = same_but_io_trans[OF s1 Cron_reads_same(1)[OF a2]]
  obtain rs w3 where a3: "Backup_ListBackups d i w2 = (rs, w3)" by fastforce
  note o3 = bk_only_trans[OF bk_only_same[OF s2] ListBackups_only[OF a3]]
  show thesis
  proof (cases "\<exists>s plan vs. r1 = Inr (Some s) \<and> pl = Inr plan \<and> rs = Inr vs")
    case False
    then have "w' = w1 \<or> w' = w2 \<or> w' = w3"
      using assms a1 a2 a3 by (auto simp: backup_runRemoteCleanup_def split: sum.splits option.splits)
    then show thesis using idle s1 s2 o3 by (auto simp: bk_only_def same_but_io_fields)
  next
    case True
    then obtain s plan vs where ok: "r1 = Inr (Some s)" "pl = Inr plan" "rs = Inr vs" by blast
    obtain rc w4 where a4: "NewClient s w3 = (rc, w4)" by fastforce
    show thesis
    proof (cases rc)
      case (Inl x)
      then have "w' = w4" using assms a1 a2 a3 a4 ok by (simp add: backup_runRemoteCleanup_def)
      then show thesis using idle o3 NewClient_same[OF a4] by (simp add: bk_only_def same_but_io_fields)
    next
      case (Inr cl)
      have plan: "find (\<lambda>p. cp_InstanceName p = i) (cron_plans w) = Some plan"
        using Cron_GetPlan_Inr[of i w1 plan w2] a2 ok(2) s1 by (simp add: same_but_io_fields)
      have "w' = snd (fold (backup_remote_step cl (off_Bucket s) d i (AddDate now (- cp_CleanupRemoteDays plan))) vs
               (backup_walk_start, w4))"
        using assms a1 a2 a3 a4 ok Inr by (simp add: backup_runRemoteCleanup_def Let_def)
      moreover have "io_schedule w = [] \<longrightarrow> w1 = w \<and> w2 = w"
      proof
        assume calm: "io_schedule w = []"
        then have 1: "w1 = w"
          using a1 by (auto simp: GetActiveOffsiteSettingsDecrypted_def Offsite_GetActive_def calm_primitives
              split: option.splits sum.splits if_splits)
        then show "w1 = w \<and> w2 = w" using a2 calm by (auto simp: Cron_GetPlan_def calm_primitives split: option.splits)
      qed
      ultimately show thesis using loop[OF plan _ s2] a1 a3 a4 ok Inr by blast
    qed
  qed
qed

lemma backup_remote_files:
  "fold (backup_remote_step cl bucket d i cutoff) rs (a, w) = (a', w') \<Longrightarrow> files w' = files w"
proof (induction rs arbitrary: a w)
  case (Cons r rs)
  obtain a1 w1 where "backup_remote_step cl bucket d i cutoff r (a, w) = (a1, w1)" by fastforce
  then show ?case
    using Cons.IH[of a1 w1] Cons.prems backup_remote_objects[of cl bucket d i cutoff r a w a1 w1] by simp
qed simp

text \<open>
  C26. An instance's offsite backup retention, under every pattern of failures: it touches no
  local file; an object disappears only from the bucket of an active configuration, and
  only if a row of that instance older than the plan's remote retention stores a location
  in that bucket with its key (or with the key that becomes it under the configured path).
\<close>

theorem backup_remote_cleanup_safeguard:
  assumes "backup_runRemoteCleanup c d AddDate now i w = (e, w')" "backups_ok w"
  shows "files w' = files w \<and>
    (\<forall>bucket k. objects w (bucket, k) \<noteq> None \<and> objects w' (bucket, k) = None \<longrightarrow>
      (\<exists>plan s b key. find (\<lambda>p. cp_InstanceName p = i) (cron_plans w) = Some plan
         \<and> s \<in> set (offsite_settings w) \<and> off_Active s \<and> bucket = off_Bucket s
         \<and> b \<in> set (backup_history w) \<and> bk_InstanceName b = i
         \<and> bk_Timestamp b < AddDate now (- cp_CleanupRemoteDays plan)
         \<and> bk_RemoteLocation b = Some (''s3://'' @ bucket @ ''/'' @ key)
         \<and> (k = key \<or> (\<exists>path. \<not> HasPrefix key path \<and> k = path @ key))))"
  using assms(1)
proof (cases rule: backup_runRemoteCleanup_loop)
  case idle
  then show ?thesis by (metis (no_types))
next
  case (loop plan s cl vs w1 w2 w3 w4)
  let ?cut = "AddDate now (- cp_CleanupRemoteDays plan)"
  have ok2: "backups_ok w2" using bk.io_stable[OF loop(3)] assms(2) by blast
  have st: "files w4 = files w" "objects w4 = objects w"
    using ListBackups_only[OF loop(4)] NewClient_same[OF loop(5)] loop(3)
    by (simp_all add: bk_only_def same_but_io_fields)
  obtain a where run: "fold (backup_remote_step cl (off_Bucket s) d i ?cut) vs (backup_walk_start, w4) = (a, w')"
    using loop(6) by (metis prod.collapse)
  obtain s0 where s0: "s0 \<in> set (offsite_settings w)" "off_Active s0" "off_Bucket s0 = off_Bucket s"
    using GetActiveDecrypted_row[OF loop(2)] by blast
  have "\<exists>plan s b key. find (\<lambda>p. cp_InstanceName p = i) (cron_plans w) = Some plan
         \<and> s \<in> set (offsite_settings w) \<and> off_Active s \<and> bucket = off_Bucket s
         \<and> b \<in> set (backup_history w) \<and> bk_InstanceName b = i
         \<and> bk_Timestamp b < AddDate now (- cp_CleanupRemoteDays plan)
         \<and> bk_RemoteLocation b = Some (''s3://'' @ bucket @ ''/'' @ key)
         \<and> (k = key \<or> (\<exists>path. \<not> HasPrefix key path \<and> k = path @ key))"
    if gone: "objects w (bucket, k) \<noteq> None" "objects w' (bucket, k) = None" for bucket k
  proof -
    obtain b where b: "b \<in> set vs" "backup_remote_reason cl (off_Bucket s) ?cut b (bucket, k)"
      using bk_remote.walk_justified[OF run, of "(bucket, k)"] gone st(2) by auto
    then have r: "remote_slot cl (off_Bucket s) (remote_loc b) = Inr k" "bucket = off_Bucket s" "bk_Timestamp b < ?cut"
      using NewClient_ok[OF loop(5)] by (auto simp: backup_remote_reason_def)
    obtain key where key: "remote_loc b = ''s3://'' @ bucket @ ''/'' @ key"
      "k = key \<or> (\<exists>path. \<not> HasPrefix key path \<and> k = path @ key)"
      using remote_slot_key[OF r(1)] r(2) by blast
    then have loc: "bk_RemoteLocation b = Some (''s3://'' @ bucket @ ''/'' @ key)" by (auto split: option.splits)
    obtain b0 where b0: "b0 \<in> set (backup_history w2)" "bk_core b = bk_core b0" "bk_InstanceName b0 = i"
      using listed_row[OF loop(4) ok2 b(1)] by blast
    have "b0 \<in> set (backup_history w)" "bk_Timestamp b0 = bk_Timestamp b" "bk_RemoteLocation b0 = bk_RemoteLocation b"
      using b0 loop(3) by (simp_all add: same_but_io_fields bk_core_def)
    then show ?thesis using loop(1) s0 r(2,3) key(2) loc b0(3) by metis
  qed
  then show ?thesis using backup_remote_files[OF run] st(1) by simp
qed

theorem backup_remote_cleanup_safeguard_witness:
  "let w = demo_backup_host\<lparr>backup_history := [demo_backup 1 10 None (Some ''s3://bkt/oddk/1''),
         demo_backup 2 20 None (Some ''s3://bkt/oddk/2''), demo_backup 3 30 None (Some ''s3://bkt/oddk/3'')],
      objects := (\<lambda>_. None)((''bkt'', ''oddk/1'') := Some 10, (''bkt'', ''oddk/2'') := Some 10, (''bkt'', ''oddk/3'') := Some 10)\<rparr>;
     w' = snd (backup_runRemoteCleanup demo_cipher ''/d'' (\<lambda>t d. t + d) 100 ''db1'' w) in
   objects w' (''bkt'', ''oddk/1'') = None \<and> objects w' (''bkt'', ''oddk/2'') = Some 10 \<and> files w' = files w"
proof -
  let ?w = "demo_backup_host\<lparr>backup_history := [demo_backup 1 10 None (Some ''s3://bkt/oddk/1''),
         demo_backup 2 20 None (Some ''s3://bkt/oddk/2''), demo_backup 3 30 None (Some ''s3://bkt/oddk/3'')],
      objects := (\<lambda>_. None)((''bkt'', ''oddk/1'') := Some 10, (''bkt'', ''oddk/2'') := Some 10, (''bkt'', ''oddk/3'') := Some 10)\<rparr>"
  let ?w' = "snd (backup_runRemoteCleanup demo_cipher ''/d'' (\<lambda>t d. t + d) 100 ''db1'' ?w)"
  have run: "objects ?w' (''bkt'', ''oddk/1'') = None" "objects ?w' (''bkt'', ''oddk/2'') = Some 10"
    by code_simp+
  have "backups_ok ?w" by (simp add: backups_ok_def demo_backup_host_def demo_backup_def bk_check_def)
  then have "files ?w' = files ?w"
    using backup_remote_cleanup_safeguard[OF prod.collapse[symmetric], of ?w] by blast
  then show ?thesis using run by (simp only: Let_def simp_thms)
qed

text \<open>
  The snapshot retries skip a record that offsite retention would delete again; the backup
  retries do not look at the remote retention. With a remote retention shorter than the
  local one, a run uploads a backup and deletes the object again, every time.
\<close>

lemma backup_retry_uploads_what_retention_deletes:
  "let w = demo_backup_host\<lparr>backup_history := [demo_backup 2 20 (Some ''/b/2'') None,
         demo_backup 3 96 (Some ''/b/3'') (Some ''s3://bkt/oddk/3''), demo_backup 4 97 (Some ''/b/4'') (Some ''s3://bkt/oddk/4'')],
      objects := (\<lambda>_. None)((''bkt'', ''oddk/3'') := Some 10, (''bkt'', ''oddk/4'') := Some 10)\<rparr>;
     w1 = backup_runUploadRetries demo_cipher ''/d'' (\<lambda>t. t) 100 ''db1'' 0 w;
     w2 = snd (backup_runRemoteCleanup demo_cipher ''/d'' (\<lambda>t d. t + d) 100 ''db1'' w1) in
   objects w1 (''bkt'', ''oddk/db1/0001-01-01/2'') = Some 10
   \<and> objects w2 (''bkt'', ''oddk/db1/0001-01-01/2'') = None
   \<and> map bk_RemoteLocation (backup_history w2) = map bk_RemoteLocation (backup_history w)"
  by code_simp


abbreviation bk_remote_copy :: "Client \<Rightarrow> string \<Rightarrow> world \<Rightarrow> BackupRecord \<Rightarrow> bool" where
  "bk_remote_copy cl bucket w b \<equiv> remote_copy cl bucket w (remote_loc b)"

lemma head_calm:
  assumes "io_schedule w = []" "bk_RemoteLocation b = Some loc" "loc \<noteq> ''''"
  shows "fst (remoteArchivePresent cl bucket loc w) = bk_remote_copy cl bucket w b"
  using remoteArchivePresent_calm[OF assms(1,3)] assms(2,3) by simp

text \<open>A row with an empty remote location is stored by no operation; the walk is stated without it.\<close>

definition located_row :: "world \<Rightarrow> BackupRecord \<Rightarrow> bool" where
  "located_row w b \<longleftrightarrow> bk_RemoteLocation b \<noteq> Some ''''"

lemma backup_remote_invariant:
  assumes "backup_remote_step cl bucket d i cutoff b (a, w) = (a', w')" "bw_ok a"
  shows "bw_ok a'"
proof -
  have count: "bw_ok a'"
    if "bw_floor a' = (if floor_full (bw_floor a) then bw_floor a else snd (protects p (bw_floor a)))" for p
  proof (cases "floor_full (bw_floor a)")
    case True
    then show ?thesis using that assms(2) by (simp add: bw_ok_def)
  next
    case False
    then have "protects p (bw_floor a) = (fst (protects p (bw_floor a)), bw_floor a')" using that by simp
    then show ?thesis using protects_counts assms(2) by blast
  qed
  from assms(1) show ?thesis
  proof (cases rule: backup_remote_step_cases)
    case skip
    then show ?thesis using assms(2) by simp
  next
    case (keep loc)
    show ?thesis by (rule count[OF keep(4)])
  next
    case (delete loc key w1 e w2)
    show ?thesis by (rule count[OF delete(4)])
  qed
qed

lemma backup_remote_turn:
  assumes "backup_remote_step cl bucket d i cutoff b (a, w) = (a', w')" "io_schedule w = []" "located_row w b" "bw_ok a"
  shows "bw_kept a' = bw_kept a + (if bk_remote_copy cl bucket w b \<and> bw_kept a < 2 then 1 else 0)
    \<and> (bk_remote_copy cl bucket w b \<and> bw_kept a < 2 \<longrightarrow> objects w' = objects w)"
proof -
  have full: "floor_full (bw_floor a) \<longleftrightarrow> \<not> bw_kept a < 2"
    using assms(4) by (simp add: floor_full_def bw_ok_def nat_less_iff not_less)
  have count: "bw_kept a' = bw_kept a + (if p \<and> bw_kept a < 2 then 1 else 0)"
    if "bw_floor a' = (if floor_full (bw_floor a) then bw_floor a else snd (protects p (bw_floor a)))" for p
  proof (cases "floor_full (bw_floor a)")
    case True
    then show ?thesis using that full by simp
  next
    case False
    then have "protects p (bw_floor a) = (fst (protects p (bw_floor a)), bw_floor a')" using that by simp
    then show ?thesis using protects_counts assms(4) by blast
  qed
  from assms(1) show ?thesis
  proof (cases rule: backup_remote_step_cases)
    case skip
    then show ?thesis by (simp add: remote_copy_def)
  next
    case (keep loc)
    then show ?thesis
      using count head_calm[OF assms(2) keep(1)] assms(2,3) by (simp add: located_row_def)
  next
    case (delete loc key w1 e w2)
    have "fst (remoteArchivePresent cl bucket loc w) = bk_remote_copy cl bucket w b"
      using head_calm[OF assms(2) delete(1)] assms(3) delete(1) by (simp add: located_row_def)
    then show ?thesis using count[OF delete(4)] delete(5) full by auto
  qed
qed

lemma backup_remote_calm:
  assumes "backup_remote_step cl bucket d i cutoff b (a, w) = (a', w')" "io_schedule w = []"
  shows "io_schedule w' = []"
  using assms(1)
proof (cases rule: backup_remote_step_cases)
  case (delete loc key w1 e w2)
  have "io_schedule w2 = []" using delete(3,8) assms(2) by (auto simp: DeleteFile_def calm_primitives)
  then show ?thesis using delete(9) RemoveRemoteCopy_calm[OF _ prod.collapse[symmetric]] by metis
qed (use assms(2) in simp_all)

interpretation bk_remote_floor: fitted_kept_walk "backup_remote_step cl bucket d i cutoff" located_row "\<lambda>_ _. True"
  bw_kept 2 "bk_remote_copy cl bucket" "\<lambda>b. remote_slot cl bucket (remote_loc b)" bw_ok for cl bucket d i cutoff
proof unfold_locales
  fix r a w a' w'
  assume st: "backup_remote_step cl bucket d i cutoff r (a, w) = (a', w')"
  note ob = backup_remote_objects[OF st]
  show "located_row w s \<Longrightarrow> True \<Longrightarrow> located_row w' s" for s by (simp add: located_row_def)
  show "bw_ok a \<Longrightarrow> bw_ok a'" using backup_remote_invariant[OF st] .
  assume calm: "io_schedule w = []"
  show "io_schedule w' = []" using backup_remote_calm[OF st calm] .
  have "objects w' x \<noteq> None \<Longrightarrow> objects w x \<noteq> None" for x using ob by metis
  then show "bk_remote_copy cl bucket w' s \<Longrightarrow> bk_remote_copy cl bucket w s" for s
    using remote_copy_mono[of cl bucket w' "remote_loc s" w] by blast
  assume fit: "located_row w r"
  show "bk_remote_copy cl bucket w' s" if s: "bk_remote_copy cl bucket w s"
    "\<not> (bk_remote_copy cl bucket w r \<and> remote_slot cl bucket (remote_loc r) = remote_slot cl bucket (remote_loc s))" for s
  proof (cases "objects w' = objects w")
    case True
    then show ?thesis using s(1) remote_copy_objects[of w' w] by blast
  next
    case False
    then obtain k where k: "remote_slot cl bucket (remote_loc r) = Inr k" "objects w' (client_bucket cl, k) = None"
      "\<And>x. x \<noteq> (client_bucket cl, k) \<Longrightarrow> objects w' x = objects w x" using ob by blast
    have there: "objects w (client_bucket cl, k) \<noteq> None" using False k(2,3) by (metis ext)
    have ne: "remote_loc r \<noteq> ''''" using k(1) by (auto simp: remote_slot_def CutPrefix_def HasPrefix_def)
    have "remote_copy cl bucket w (remote_loc r)"
      using there k(1) ne remote_key_slot[of cl bucket "remote_loc r"] by (auto simp: remote_copy_def split: option.splits)
    then have "remote_slot cl bucket (remote_loc s) \<noteq> Inr k" using s(2) k(1) by simp
    then show ?thesis using remote_copy_frame[of cl bucket w "remote_loc s" k w'] s(1) k(3) by blast
  qed
  assume ok: "bw_ok a"
  note t = backup_remote_turn[OF st calm fit ok]
  show "\<not> bk_remote_copy cl bucket w r \<Longrightarrow> bw_kept a' = bw_kept a" using t by simp
  show "bk_remote_copy cl bucket w' r \<and> bw_kept a' = bw_kept a + 1"
    if "bk_remote_copy cl bucket w r" "bw_kept a < 2"
    using t that remote_copy_objects[of w' w] by simp
qed

text \<open>
  The offsite floor of an instance's backups: on a host and a bucket that answer, one
  run of offsite retention leaves the two newest listed backups that the bucket really has,
  however old they are.
\<close>

theorem backup_remote_floor:
  assumes "backup_runRemoteCleanup c d AddDate now i w = (e, w')" "io_schedule w = []" "backups_ok w"
    and "GetActiveOffsiteSettingsDecrypted c w = (Inr (Some s), w)"
    and "Backup_ListBackups d i w = (Inr vs, w1)" "NewClient s w1 = (Inr cl, w1)"
    and "\<forall>b \<in> set vs. bk_RemoteLocation b \<noteq> Some ''''"
    and "distinct (map (\<lambda>b. remote_slot cl (off_Bucket s) (remote_loc b)) (filter (bk_remote_copy cl (off_Bucket s) w) vs))"
    and "b \<in> set (take 2 (filter (bk_remote_copy cl (off_Bucket s) w) vs))"
  shows "remote_copy cl (off_Bucket s) w' (remote_loc b)"
  using assms(1)
proof (cases rule: backup_runRemoteCleanup_loop)
  case idle
  then show ?thesis using in_set_takeD[OF assms(9)] remote_copy_objects[OF idle(2)] by simp
next
  case (loop plan s' cl' vs' v1 v2 v3 v4)
  have v: "v1 = w" "v2 = w" "s' = s" "vs' = vs" "v3 = w1" "cl' = cl" "v4 = w1"
    using loop(2,4,5,7) assms(2,4,5,6) by auto
  have calm1: "io_schedule w1 = []" using ListBackups_calm[OF assms(2,3,5)] .
  have "objects w1 = objects w" using ListBackups_only[OF assms(5)] by (simp add: bk_only_def)
  then have eq: "bk_remote_copy cl (off_Bucket s) w1 = bk_remote_copy cl (off_Bucket s) w"
    using remote_copy_objects[of w1 w] by (intro ext) blast
  let ?step = "backup_remote_step cl (off_Bucket s) d i (AddDate now (- cp_CleanupRemoteDays plan))"
  obtain a where run: "fold ?step vs (backup_walk_start, w1) = (a, w')"
    using loop(6) v by (metis prod.collapse)
  have "\<forall>r \<in> set vs. located_row w1 r" using assms(7) by (simp add: located_row_def)
  then have "bk_remote_copy cl (off_Bucket s) w' b"
    using bk_remote_floor.fitted_newest_survive[OF run _ _ _ calm1, of b] backup_walk_start_ok assms(8,9)
    unfolding eq by (simp add: sorted_wrt_iff_nth_less)
  then show ?thesis by blast
qed


definition demo_backup_bucket :: world where
  "demo_backup_bucket = demo_backup_host
     \<lparr>backup_history := [demo_backup 1 10 None (Some ''s3://bkt/oddk/1''), demo_backup 2 20 None (Some ''s3://bkt/oddk/2''),
         demo_backup 3 30 None (Some ''s3://bkt/oddk/3''), demo_backup 4 40 None (Some ''s3://bkt/oddk/4'')],
      objects := (\<lambda>_. None)((''bkt'', ''oddk/1'') := Some 10, (''bkt'', ''oddk/2'') := Some 10,
         (''bkt'', ''oddk/3'') := Some 10, (''bkt'', ''oddk/4'') := Some 10)\<rparr>"

theorem backup_remote_floor_witness:
  "objects (snd (backup_runRemoteCleanup demo_cipher ''/d'' (\<lambda>t d. t + d) 100000 ''db1'' demo_backup_bucket))
     (''bkt'', ''oddk/3'') \<noteq> None"
proof -
  let ?cl = "\<lparr>client_bucket = ''bkt'', client_bucketPath = ''oddk/''\<rparr>"
  define vs where "vs = (case fst (Backup_ListBackups ''/d'' ''db1'' demo_backup_bucket) of Inl e \<Rightarrow> [] | Inr vs \<Rightarrow> vs)"
  define w1 where "w1 = snd (Backup_ListBackups ''/d'' ''db1'' demo_backup_bucket)"
  have "\<not> isl (fst (Backup_ListBackups ''/d'' ''db1'' demo_backup_bucket))" by code_simp
  then have listing: "Backup_ListBackups ''/d'' ''db1'' demo_backup_bucket = (Inr vs, w1)"
    unfolding vs_def w1_def
    by (cases "fst (Backup_ListBackups ''/d'' ''db1'' demo_backup_bucket)") (simp_all add: prod_eq_iff)
  have calm: "io_schedule demo_backup_bucket = []"
    by (simp add: demo_backup_bucket_def demo_backup_host_def empty_world_def)
  have ok: "backups_ok demo_backup_bucket"
    by (simp add: backups_ok_def demo_backup_bucket_def demo_backup_host_def demo_backup_def bk_check_def)
  have act: "GetActiveOffsiteSettingsDecrypted demo_cipher demo_backup_bucket = (Inr (Some demo_settings), demo_backup_bucket)"
    by (simp add: demo_backup_bucket_def demo_backup_host_def GetActiveOffsiteSettingsDecrypted_def Offsite_GetActive_def
        calm_primitives demo_settings_def empty_world_def sort_desc_def)
  have cl: "NewClient demo_settings w1 = (Inr ?cl, w1)"
    using sys_call_calm[OF ListBackups_calm[OF calm ok listing]]
    by (simp add: NewClient_def demo_settings_def NewClientFromConfig_def TrimSuffix_def HasSuffix_def)
  have locs: "map bk_RemoteLocation vs = [Some ''s3://bkt/oddk/4'', Some ''s3://bkt/oddk/3'',
      Some ''s3://bkt/oddk/2'', Some ''s3://bkt/oddk/1'']"
    unfolding vs_def by code_simp
  obtain b4 b3 b2 b1 where vs: "vs = [b4, b3, b2, b1]" "bk_RemoteLocation b4 = Some ''s3://bkt/oddk/4''"
    "bk_RemoteLocation b3 = Some ''s3://bkt/oddk/3''" "bk_RemoteLocation b2 = Some ''s3://bkt/oddk/2''"
    "bk_RemoteLocation b1 = Some ''s3://bkt/oddk/1''"
    using map_four[OF locs] by metis
  have slots: "remote_slot ?cl ''bkt'' ''s3://bkt/oddk/4'' = Inr ''oddk/4''" "remote_slot ?cl ''bkt'' ''s3://bkt/oddk/3'' = Inr ''oddk/3''"
    "remote_slot ?cl ''bkt'' ''s3://bkt/oddk/2'' = Inr ''oddk/2''" "remote_slot ?cl ''bkt'' ''s3://bkt/oddk/1'' = Inr ''oddk/1''"
    by code_simp+
  have keys: "remote_key ?cl ''bkt'' ''s3://bkt/oddk/3'' = Some ''oddk/3''" by code_simp
  have "remote_copy ?cl ''bkt'' demo_backup_bucket ''s3://bkt/oddk/4''" "remote_copy ?cl ''bkt'' demo_backup_bucket ''s3://bkt/oddk/3''"
    "remote_copy ?cl ''bkt'' demo_backup_bucket ''s3://bkt/oddk/2''" "remote_copy ?cl ''bkt'' demo_backup_bucket ''s3://bkt/oddk/1''"
    by code_simp+
  then have copies: "filter (bk_remote_copy ?cl (off_Bucket demo_settings) demo_backup_bucket) vs = vs"
    using vs by (simp add: demo_settings_def)
  have "\<forall>b \<in> set vs. bk_RemoteLocation b \<noteq> Some ''''"
    "distinct (map (\<lambda>b. remote_slot ?cl (off_Bucket demo_settings) (remote_loc b)) vs)"
    using vs slots by (simp_all add: demo_settings_def)
  then have "remote_copy ?cl (off_Bucket demo_settings)
      (snd (backup_runRemoteCleanup demo_cipher ''/d'' (\<lambda>t d. t + d) 100000 ''db1'' demo_backup_bucket)) (remote_loc b3)"
    using backup_remote_floor[OF prod.collapse[symmetric] calm ok act listing cl, of b3] copies vs(1) by simp
  then show ?thesis using keys vs(3) by (simp add: remote_copy_def demo_settings_def)
qed

end
