(* ===== verification/KVStore.thy ===== *)
theory KVStore
  imports Operr
begin

text \<open>
  The configuration store of \<open>internal/store/kvstore\<close>: a table of text values behind two
  in-memory caches, one of strings and one of integers, chosen by the suffix of the key,
  and the handler of \<open>internal/daemon/handlers_customkv.go\<close> through which an operator
  changes a value. A call before \<open>Initialize\<close> panics; such a call returns \<open>None\<close>.
\<close>

section \<open>State and table\<close>

record KVStore =
  strCache :: "string \<rightharpoonup> string"
  intCache :: "string \<rightharpoonup> int"
  initialized :: bool

definition NewKVStore :: KVStore where
  "NewKVStore = \<lparr>strCache = Map.empty, intCache = Map.empty, initialized = False\<rparr>"

definition kv_row :: "string \<Rightarrow> world \<Rightarrow> string option" where
  "kv_row k w = map_option kv_Value (find (\<lambda>r. kv_Key r = k) (kvstore w))"

definition KV_GetAll :: "world \<Rightarrow> KVRecord list res \<times> world" where
  "KV_GetAll w =
     (case sql_query (\<lambda>w. order_by kv_Key (kvstore w)) w of
        (Inl e, w1) \<Rightarrow> (Inl (wrap ''query all kvstore records'' e), w1)
      | (Inr rs, w1) \<Rightarrow> (Inr rs, w1))"

definition dbGet :: "string \<Rightarrow> world \<Rightarrow> string res \<times> world" where
  "dbGet k w =
     (case sql_query (kv_row k) w of
        (Inl e, w1) \<Rightarrow> (Inl (wrap ''get kvstore value'' e), w1)
      | (Inr None, w1) \<Rightarrow> (Inl (NotFoundf (Errorf0 (''key not found: '' @ k))), w1)
      | (Inr (Some v), w1) \<Rightarrow> (Inr v, w1))"

text \<open>The upsert: one row per key (its primary key).\<close>

definition upsert_stmt :: "gotime \<Rightarrow> string \<Rightarrow> string \<Rightarrow> world \<Rightarrow> (world \<times> int) res" where
  "upsert_stmt now k v w =
     Inr (w\<lparr>kvstore := (if kv_row k w = None
                        then kvstore w @ [\<lparr>kv_Key = k, kv_Value = v, kv_UpdatedAt = now\<rparr>]
                        else upd_where (\<lambda>r. kv_Key r = k) (\<lambda>r. r\<lparr>kv_Value := v, kv_UpdatedAt := now\<rparr>)
                               (kvstore w))\<rparr>, 1)"

definition dbSet :: "gotime \<Rightarrow> string \<Rightarrow> string \<Rightarrow> world \<Rightarrow> goerror option \<times> world" where
  "dbSet now k v w =
     (case sql_exec (upsert_stmt now k v) w of
        (Inl e, w1) \<Rightarrow> (Some (wrap ''set kvstore value'' e), w1)
      | (Inr _, w1) \<Rightarrow> (None, w1))"

definition dbDelete :: "string \<Rightarrow> world \<Rightarrow> goerror option \<times> world" where
  "dbDelete k w =
     (case sql_exec (\<lambda>w. Inr (w\<lparr>kvstore := del_where (\<lambda>r. kv_Key r = k) (kvstore w)\<rparr>,
                              count_where (\<lambda>r. kv_Key r = k) (kvstore w))) w of
        (Inl e, w1) \<Rightarrow> (Some (wrap ''delete kvstore value'' e), w1)
      | (Inr n, w1) \<Rightarrow>
          if n = 0 then (Some (NotFoundf (Errorf0 (''key not found: '' @ k))), w1) else (None, w1))"

section \<open>Operations\<close>

definition int_key :: "string \<Rightarrow> bool" where "int_key k = HasSuffix k ''.int''"
definition str_key :: "string \<Rightarrow> bool" where "str_key k = HasSuffix k ''.str''"

fun fill_cache :: "KVRecord list \<Rightarrow> KVStore \<Rightarrow> goerror option \<times> KVStore" where
  "fill_cache [] kv = (None, kv)"
| "fill_cache (r # rs) kv =
     (if int_key (kv_Key r) then
        (case Atoi (kv_Value r) of
           None \<Rightarrow> (Some (Errorf1 (''invalid integer value for key '' @ kv_Key r @ '': '') (DriverError ''strconv'') ''''), kv)
         | Some n \<Rightarrow> fill_cache rs (kv\<lparr>intCache := (intCache kv)(kv_Key r \<mapsto> n)\<rparr>))
      else if str_key (kv_Key r) then fill_cache rs (kv\<lparr>strCache := (strCache kv)(kv_Key r \<mapsto> kv_Value r)\<rparr>)
      else fill_cache rs kv)"

definition loadCache :: "KVStore \<Rightarrow> world \<Rightarrow> goerror option \<times> KVStore \<times> world" where
  "loadCache kv w =
     (case KV_GetAll w of
        (Inl e, w1) \<Rightarrow> (Some (wrap ''load cache from database'' e), kv, w1)
      | (Inr records, w1) \<Rightarrow>
          (case fill_cache records (kv\<lparr>strCache := Map.empty, intCache := Map.empty\<rparr>) of
             (e, kv1) \<Rightarrow> (e, kv1, w1)))"

definition KV_Get :: "string \<Rightarrow> KVStore \<Rightarrow> world \<Rightarrow> (string res \<times> KVStore \<times> world) option" where
  "KV_Get k kv w =
     (if \<not> initialized kv then None
      else Some (case strCache kv k of
             Some v \<Rightarrow> (Inr v, kv, w)
           | None \<Rightarrow>
               (case dbGet k w of
                  (Inl e, w1) \<Rightarrow> (Inl e, kv, w1)
                | (Inr v, w1) \<Rightarrow> (Inr v, kv\<lparr>strCache := (strCache kv)(k \<mapsto> v)\<rparr>, w1))))"

definition KV_Set :: "gotime \<Rightarrow> string \<Rightarrow> string \<Rightarrow> KVStore \<Rightarrow> world \<Rightarrow> (goerror option \<times> KVStore \<times> world) option" where
  "KV_Set now k v kv w =
     (if \<not> initialized kv then None
      else Some (case dbSet now k v w of
             (Some e, w1) \<Rightarrow> (Some e, kv, w1)
           | (None, w1) \<Rightarrow> (None, kv\<lparr>strCache := (strCache kv)(k \<mapsto> v)\<rparr>, w1)))"

definition KV_Delete :: "string \<Rightarrow> KVStore \<Rightarrow> world \<Rightarrow> goerror option \<times> KVStore \<times> world" where
  "KV_Delete k kv w =
     (case dbDelete k w of
        (Some e, w1) \<Rightarrow> (Some e, kv, w1)
      | (None, w1) \<Rightarrow> (None, kv\<lparr>strCache := (strCache kv)(k := None)\<rparr>, w1))"

definition KV_GetInt :: "string \<Rightarrow> KVStore \<Rightarrow> world \<Rightarrow> (int res \<times> KVStore \<times> world) option" where
  "KV_GetInt k kv w =
     (if \<not> initialized kv then None
      else Some (case intCache kv k of
             Some n \<Rightarrow> (Inr n, kv, w)
           | None \<Rightarrow>
               (case dbGet k w of
                  (Inl e, w1) \<Rightarrow> (Inl e, kv, w1)
                | (Inr v, w1) \<Rightarrow>
                    (case Atoi v of
                       None \<Rightarrow> (Inl (Errorf1 (''database value for key '' @ k @ '' is not a valid integer: '')
                                    (DriverError ''strconv'') ''''), kv, w1)
                     | Some n \<Rightarrow> (Inr n, kv\<lparr>intCache := (intCache kv)(k \<mapsto> n)\<rparr>, w1)))))"

definition KV_SetInt :: "gotime \<Rightarrow> string \<Rightarrow> int \<Rightarrow> KVStore \<Rightarrow> world \<Rightarrow> (goerror option \<times> KVStore \<times> world) option" where
  "KV_SetInt now k n kv w =
     (if \<not> initialized kv then None
      else Some (case dbSet now k (Itoa n) w of
             (Some e, w1) \<Rightarrow> (Some e, kv, w1)
           | (None, w1) \<Rightarrow> (None, kv\<lparr>intCache := (intCache kv)(k \<mapsto> n)\<rparr>, w1)))"

definition KV_DeleteInt :: "string \<Rightarrow> KVStore \<Rightarrow> world \<Rightarrow> goerror option \<times> KVStore \<times> world" where
  "KV_DeleteInt k kv w =
     (case dbDelete k w of
        (Some e, w1) \<Rightarrow> (Some e, kv, w1)
      | (None, w1) \<Rightarrow> (None, kv\<lparr>intCache := (intCache kv)(k := None)\<rparr>, w1))"

text \<open>What \<open>GetRaw\<close> and \<open>SetRaw\<close> put into the cache of the key's suffix.\<close>

definition cache_raw :: "string \<Rightarrow> string \<Rightarrow> KVStore \<Rightarrow> KVStore" where
  "cache_raw k v kv =
     (if int_key k then
        (case Atoi v of None \<Rightarrow> kv | Some n \<Rightarrow> kv\<lparr>intCache := (intCache kv)(k \<mapsto> n)\<rparr>)
      else if str_key k then kv\<lparr>strCache := (strCache kv)(k \<mapsto> v)\<rparr>
      else kv)"

definition cached_raw :: "string \<Rightarrow> KVStore \<Rightarrow> string option" where
  "cached_raw k kv =
     (if int_key k then map_option Itoa (intCache kv k)
      else if str_key k then strCache kv k else None)"

definition KV_GetRaw :: "string \<Rightarrow> KVStore \<Rightarrow> world \<Rightarrow> string res \<times> KVStore \<times> world" where
  "KV_GetRaw k kv w =
     (case cached_raw k kv of
        Some v \<Rightarrow> (Inr v, kv, w)
      | None \<Rightarrow>
          (case dbGet k w of
             (Inl e, w1) \<Rightarrow> (Inl e, kv, w1)
           | (Inr v, w1) \<Rightarrow> (Inr v, cache_raw k v kv, w1)))"

definition KV_SetRaw :: "gotime \<Rightarrow> string \<Rightarrow> string \<Rightarrow> KVStore \<Rightarrow> world \<Rightarrow> goerror option \<times> KVStore \<times> world" where
  "KV_SetRaw now k v kv w =
     (case dbSet now k v w of
        (Some e, w1) \<Rightarrow> (Some e, kv, w1)
      | (None, w1) \<Rightarrow> (None, cache_raw k v kv, w1))"

definition KV_DeleteRaw :: "string \<Rightarrow> KVStore \<Rightarrow> world \<Rightarrow> goerror option \<times> KVStore \<times> world" where
  "KV_DeleteRaw k kv w =
     (case dbDelete k w of
        (Some e, w1) \<Rightarrow> (Some e, kv, w1)
      | (None, w1) \<Rightarrow>
          (None, if int_key k then kv\<lparr>intCache := (intCache kv)(k := None)\<rparr>
                 else if str_key k then kv\<lparr>strCache := (strCache kv)(k := None)\<rparr> else kv, w1))"

definition KV_ExistsRaw :: "string \<Rightarrow> KVStore \<Rightarrow> world \<Rightarrow> bool \<times> KVStore \<times> world" where
  "KV_ExistsRaw k kv w = (case KV_GetRaw k kv w of (r, kv1, w1) \<Rightarrow> (\<not> isl r, kv1, w1))"

section \<open>System parameters\<close>

definition KeySystemDisplayName :: string where "KeySystemDisplayName = ''system.display.name.str''"
definition KeyCronDebugTickerInterval :: string where "KeyCronDebugTickerInterval = ''cron.debug_ticker_interval.int''"
definition KeyCronDebugForceRun :: string where "KeyCronDebugForceRun = ''cron.debug_force_run.int''"
definition KeyLogsRetentionDays :: string where "KeyLogsRetentionDays = ''logs.retention_days.int''"
definition KeyHealthDebugFail :: string where "KeyHealthDebugFail = ''health.debug_fail.int''"

definition systemIntDefaults :: "(string \<times> int) list" where
  "systemIntDefaults =
     [(''health.degraded_threshold.int'', 3), (''health.restored_threshold.int'', 2),
      (''health.disk_space_threshold_bytes.int'', 1024 * 1024 * 1024),
      (''health.cpu_load_threshold_percent.int'', 95), (''health.check_interval_sec.int'', 70),
      (KeyHealthDebugFail, 0), (KeyCronDebugTickerInterval, 0), (KeyCronDebugForceRun, 0),
      (KeyLogsRetentionDays, 365)]"

definition RequiredInt :: "string \<Rightarrow> KVStore \<Rightarrow> world \<Rightarrow> (int \<times> KVStore \<times> world) option" where
  "RequiredInt k kv w =
     (case KV_GetInt k kv w of
        None \<Rightarrow> None
      | Some (Inr n, kv1, w1) \<Rightarrow> Some (n, kv1, w1)
      | Some (Inl e, kv1, w1) \<Rightarrow>
          Some (case map_of systemIntDefaults k of None \<Rightarrow> 0 | Some d \<Rightarrow> d, kv1, w1))"

text \<open>One \<open>if !ExistsRaw { SetInt }\<close> after the other, in the order of the defaults.\<close>

fun ensure_ints :: "gotime \<Rightarrow> (string \<times> int) list \<Rightarrow> KVStore \<Rightarrow> world \<Rightarrow> (goerror option \<times> KVStore \<times> world) option" where
  "ensure_ints now [] kv w = Some (None, kv, w)"
| "ensure_ints now ((k, d) # ds) kv w =
     (case KV_ExistsRaw k kv w of (there, kv1, w1) \<Rightarrow>
        if there then ensure_ints now ds kv1 w1
        else (case KV_SetInt now k d kv1 w1 of
                None \<Rightarrow> None
              | Some (Some e, kv2, w2) \<Rightarrow> Some (Some e, kv2, w2)
              | Some (None, kv2, w2) \<Rightarrow> ensure_ints now ds kv2 w2))"

definition EnsureSystemDefaults :: "gotime \<Rightarrow> KVStore \<Rightarrow> world \<Rightarrow> (goerror option \<times> KVStore \<times> world) option" where
  "EnsureSystemDefaults now kv w =
     (case KV_ExistsRaw KeySystemDisplayName kv w of (there, kv1, w1) \<Rightarrow>
        if there then ensure_ints now systemIntDefaults kv1 w1
        else (case KV_Set now KeySystemDisplayName '''' kv1 w1 of
                None \<Rightarrow> None
              | Some (Some e, kv2, w2) \<Rightarrow> Some (Some e, kv2, w2)
              | Some (None, kv2, w2) \<Rightarrow> ensure_ints now systemIntDefaults kv2 w2))"

definition KV_Initialize :: "gotime \<Rightarrow> KVStore \<Rightarrow> world \<Rightarrow> (goerror option \<times> KVStore \<times> world) option" where
  "KV_Initialize now kv w =
     (case loadCache kv w of
        (Some e, kv1, w1) \<Rightarrow> Some (Some e, kv1, w1)
      | (None, kv1, w1) \<Rightarrow>
          (case EnsureSystemDefaults now (kv1\<lparr>initialized := True\<rparr>) w1 of
             None \<Rightarrow> None
           | Some (Some e, kv2, w2) \<Rightarrow> Some (Some (wrap ''ensure system defaults'' e), kv2, w2)
           | Some (None, kv2, w2) \<Rightarrow> Some (None, kv2, w2)))"

section \<open>The handler\<close>

definition hasStrSuffix :: "string \<Rightarrow> bool" where
  "hasStrSuffix key = (length key > 4 \<and> drop (length key - 4) key = ''.str'')"

definition hasIntSuffix :: "string \<Rightarrow> bool" where
  "hasIntSuffix key = (length key > 4 \<and> drop (length key - 4) key = ''.int'')"

definition hasValidSuffix :: "string \<Rightarrow> bool" where
  "hasValidSuffix key = (hasStrSuffix key \<or> hasIntSuffix key)"

definition isValidInteger :: "string \<Rightarrow> bool" where
  "isValidInteger value =
     (case value of
        [] \<Rightarrow> False
      | c # cs \<Rightarrow> (c = CHR ''-'' \<or> is_digit c) \<and> list_all is_digit cs)"

text \<open>The body has been decoded to its value; an undecodable body is \<open>None\<close>.\<close>

definition handleSetCustomKV ::
  "gotime \<Rightarrow> string \<Rightarrow> string option \<Rightarrow> KVStore \<Rightarrow> world \<Rightarrow> int \<times> KVStore \<times> world" where
  "handleSetCustomKV now key body kv w =
     (if key = '''' then (400, kv, w)
      else case body of
        None \<Rightarrow> (400, kv, w)
      | Some value \<Rightarrow>
     (case KV_ExistsRaw key kv w of (there, kv1, w1) \<Rightarrow>
        if \<not> there then (404, kv1, w1)
        else if \<not> hasValidSuffix key then (400, kv1, w1)
        else if hasIntSuffix key \<and> \<not> isValidInteger value then (400, kv1, w1)
        else (case KV_SetRaw now key value kv1 w1 of
                (Some e, kv2, w2) \<Rightarrow> (500, kv2, w2)
              | (None, kv2, w2) \<Rightarrow>
                  (case KV_GetAll w2 of
                     (Inl e, w3) \<Rightarrow> (500, kv2, w3)
                   | (Inr records, w3) \<Rightarrow> (201, kv2, w3)))))"

section \<open>The caches are transparent\<close>

text \<open>
  A cache of decoded values agrees with the table when every entry is the decoded value of
  the row with its key. The string and the integer cache share the laws below; an encoding
  that its decoding reads back is all they need.
\<close>

definition agrees :: "(string \<Rightarrow> 'v option) \<Rightarrow> (string \<rightharpoonup> 'v) \<Rightarrow> world \<Rightarrow> bool" where
  "agrees decode cache w \<longleftrightarrow> (\<forall>k v. cache k = Some v \<longrightarrow> (\<exists>s. kv_row k w = Some s \<and> decode s = Some v))"

locale read_through =
  fixes decode :: "string \<Rightarrow> 'v option" and encode :: "'v \<Rightarrow> string" and valid :: "'v \<Rightarrow> bool"
  assumes decode_encode: "valid v \<Longrightarrow> decode (encode v) = Some v"
begin

lemma agrees_hit: "agrees decode cache w \<Longrightarrow> cache k = Some v \<Longrightarrow> \<exists>s. kv_row k w = Some s \<and> decode s = Some v"
  by (simp add: agrees_def)

lemma agrees_fill:
  "agrees decode cache w \<Longrightarrow> kv_row k w = Some s \<Longrightarrow> decode s = Some v \<Longrightarrow> agrees decode (cache(k \<mapsto> v)) w"
  by (simp add: agrees_def)

lemma agrees_write:
  assumes "agrees decode cache w" "\<And>j. kv_row j w' = (if j = k then Some (encode v) else kv_row j w)" "valid v"
  shows "agrees decode (cache(k \<mapsto> v)) w'"
  using assms decode_encode by (simp add: agrees_def)

lemma agrees_drop:
  assumes "agrees decode cache w" "\<And>j. j \<noteq> k \<Longrightarrow> kv_row j w' = kv_row j w"
  shows "agrees decode (cache(k := None)) w'"
  using assms by (simp add: agrees_def)

lemma agrees_other:
  assumes "agrees decode cache w" "\<And>j. j \<noteq> k \<Longrightarrow> kv_row j w' = kv_row j w" "cache k = None"
  shows "agrees decode cache w'"
  using assms unfolding agrees_def by (metis option.distinct(1))

end

interpretation str_cache: read_through Some "\<lambda>s. s" "\<lambda>_. True"
  by unfold_locales simp

interpretation int_cache: read_through Atoi Itoa "\<lambda>n. min_int64 \<le> n \<and> n \<le> max_int64"
  by unfold_locales (simp add: Atoi_Itoa)

definition coherent :: "KVStore \<Rightarrow> world \<Rightarrow> bool" where
  "coherent kv w \<longleftrightarrow> agrees Some (strCache kv) w \<and> agrees Atoi (intCache kv) w
     \<and> (\<forall>k \<in> dom (strCache kv). str_key k) \<and> (\<forall>k \<in> dom (intCache kv). int_key k)"

lemma keys_apart: "int_key k \<Longrightarrow> \<not> str_key k"
  by (auto simp: int_key_def str_key_def HasSuffix_iff)

lemma coherent_miss:
  "coherent kv w \<Longrightarrow> int_key k \<Longrightarrow> strCache kv k = None"
  "coherent kv w \<Longrightarrow> \<not> int_key k \<Longrightarrow> intCache kv k = None"
  "coherent kv w \<Longrightarrow> \<not> str_key k \<Longrightarrow> strCache kv k = None"
  using keys_apart by (auto simp: coherent_def dom_def)

lemma kv_row_same: "same_but_io w w' \<Longrightarrow> kv_row k w' = kv_row k w"
  by (simp add: kv_row_def same_but_io_fields)

lemma coherent_same: "same_but_io w w' \<Longrightarrow> coherent kv w \<Longrightarrow> coherent kv w'"
  by (simp add: coherent_def agrees_def kv_row_same)

lemma find_append_None: "find P (xs @ ys) = (case find P xs of None \<Rightarrow> find P ys | Some x \<Rightarrow> Some x)"
  by (induction xs) auto

lemma upsert_row:
  assumes "upsert_stmt now k v w = Inr (w', n)"
  shows "kv_row j w' = (if j = k then Some v else kv_row j w)"
proof (cases "kv_row k w = None")
  case True
  then show ?thesis
    using assms by (auto simp: upsert_stmt_def kv_row_def find_append_None split: option.splits)
next
  case False
  then show ?thesis
    using assms by (auto simp: upsert_stmt_def kv_row_def find_upd_key)
qed

text \<open>A statement that is never applied behind an error answer.\<close>

definition honest :: "world \<Rightarrow> bool" where
  "honest w \<longleftrightarrow> Lost \<notin> set (io_schedule w)"

lemma next_io_honest: "next_io w = (oc, w1) \<Longrightarrow> honest w \<Longrightarrow> oc \<noteq> Lost \<and> honest w1 \<and> same_but_io w w1"
  using next_io_same[of w oc w1] by (auto simp: next_io_def honest_def split: list.splits)

lemma sql_exec_honest:
  assumes "sql_exec st w = (r, w')" "honest w" "\<And>v v' n. st v = Inr (v', n) \<Longrightarrow> io_schedule v' = io_schedule v"
  shows "honest w'" "(\<exists>e. r = Inl e) \<and> same_but_io w w' \<or> (\<exists>n w1. r = Inr n \<and> same_but_io w w1 \<and> st w1 = Inr (w', n))"
proof -
  obtain oc w1 where n: "next_io w = (oc, w1)" by fastforce
  note h = next_io_honest[OF n assms(2)]
  have "honest w' \<and> ((\<exists>e. r = Inl e) \<and> same_but_io w w' \<or> (\<exists>n w1. r = Inr n \<and> same_but_io w w1 \<and> st w1 = Inr (w', n)))"
  proof (cases oc)
    case Done
    then show ?thesis using assms(1,3) n h by (cases "st w1") (auto simp: sql_exec_def honest_def)
  next
    case Refused
    then show ?thesis using assms(1) n h by (auto simp: sql_exec_def)
  qed (use h in simp)
  then show "honest w'"
    "(\<exists>e. r = Inl e) \<and> same_but_io w w' \<or> (\<exists>n w1. r = Inr n \<and> same_but_io w w1 \<and> st w1 = Inr (w', n))" by blast+
qed

lemma dbSet_effect:
  assumes "dbSet now k v w = (r, w')" "honest w"
  shows "honest w' \<and> (case r of None \<Rightarrow> (\<forall>j. kv_row j w' = (if j = k then Some v else kv_row j w)) | Some e \<Rightarrow> same_but_io w w')"
proof -
  obtain q where q: "sql_exec (upsert_stmt now k v) w = (q, w')" "r = None \<longleftrightarrow> (\<exists>n. q = Inr n)"
    using assms(1) by (auto simp: dbSet_def split: prod.splits sum.splits)
  have st: "upsert_stmt now k v u = Inr (u', n) \<Longrightarrow> io_schedule u' = io_schedule u" for u u' n
    by (auto simp: upsert_stmt_def)
  have h: "honest w'" by (rule sql_exec_honest(1)[OF q(1) assms(2)]) (erule st)
  have e: "(\<exists>e. q = Inl e) \<and> same_but_io w w' \<or> (\<exists>n w1. q = Inr n \<and> same_but_io w w1 \<and> upsert_stmt now k v w1 = Inr (w', n))"
    by (rule sql_exec_honest(2)[OF q(1) assms(2)]) (erule st)
  show ?thesis
  proof (cases r)
    case None
    then obtain n w1 where "same_but_io w w1" "upsert_stmt now k v w1 = Inr (w', n)" using e q(2) by auto
    then show ?thesis using None h upsert_row[of now k v w1 w' n] by (simp add: kv_row_same)
  next
    case (Some x)
    then show ?thesis using e q(2) h by auto
  qed
qed

lemma dbDelete_effect:
  assumes "dbDelete k w = (r, w')" "honest w"
  shows "honest w' \<and> (\<forall>j. j \<noteq> k \<longrightarrow> kv_row j w' = kv_row j w)
     \<and> (r \<noteq> None \<longrightarrow> (\<forall>j. kv_row j w' = kv_row j w))"
proof -
  let ?st = "\<lambda>w. Inr (w\<lparr>kvstore := del_where (\<lambda>r. kv_Key r = k) (kvstore w)\<rparr>, count_where (\<lambda>r. kv_Key r = k) (kvstore w))
     :: (world \<times> int) res"
  obtain q where q: "sql_exec ?st w = (q, w')" "r \<noteq> None \<longrightarrow> (\<exists>e. q = Inl e) \<or> q = Inr 0"
    using assms(1) by (auto simp: dbDelete_def split: prod.splits sum.splits if_splits)
  have "honest w'" and e: "(\<exists>e. q = Inl e) \<and> same_but_io w w' \<or> (\<exists>n w1. q = Inr n \<and> same_but_io w w1 \<and> ?st w1 = Inr (w', n))"
    using sql_exec_honest[OF q(1) assms(2)] by auto
  moreover have "kv_row j w' = (if j = k then None else kv_row j w)" "n = 0 \<longrightarrow> kv_row k w = None"
    if "same_but_io w w1" "?st w1 = Inr (w', n)" for w1 n j
    using that by (auto simp: kv_row_def same_but_io_fields find_del_key count_where_0 find_None_iff)
  ultimately show ?thesis using q(2) kv_row_same by (smt (verit, ccfv_threshold) sum.inject(2) sum.simps(4))
qed

lemma dbGet_effect:
  assumes "dbGet k w = (r, w')" "honest w"
  shows "honest w' \<and> same_but_io w w' \<and> (\<forall>v. r = Inr v \<longrightarrow> kv_row k w = Some v)"
proof -
  obtain oc w1 where n: "next_io w = (oc, w1)" by fastforce
  note h = next_io_honest[OF n assms(2)]
  show ?thesis
    using assms(1) n h kv_row_same[of w w1 k]
    by (auto simp: dbGet_def sql_query_def split: if_splits option.splits)
qed


lemma coherent_read_str:
  "coherent kv w \<Longrightarrow> kv_row k w = Some s \<Longrightarrow> str_key k \<Longrightarrow> coherent (kv\<lparr>strCache := (strCache kv)(k \<mapsto> s)\<rparr>) w"
  by (auto simp: coherent_def str_cache.agrees_fill)

lemma coherent_read_int:
  "coherent kv w \<Longrightarrow> kv_row k w = Some s \<Longrightarrow> Atoi s = Some n \<Longrightarrow> int_key k \<Longrightarrow>
   coherent (kv\<lparr>intCache := (intCache kv)(k \<mapsto> n)\<rparr>) w"
  by (auto simp: coherent_def int_cache.agrees_fill)

lemma coherent_write_str:
  assumes "coherent kv w" "\<And>j. kv_row j w' = (if j = k then Some v else kv_row j w)" "str_key k"
  shows "coherent (kv\<lparr>strCache := (strCache kv)(k \<mapsto> v)\<rparr>) w'"
proof -
  have "\<not> int_key k" using assms(3) keys_apart by blast
  then have "intCache kv k = None" using coherent_miss(2)[OF assms(1)] by blast
  then have "agrees Atoi (intCache kv) w'"
    using int_cache.agrees_other[of "intCache kv" w k w'] assms(1,2) by (simp add: coherent_def)
  moreover have "agrees Some ((strCache kv)(k \<mapsto> v)) w'"
    using str_cache.agrees_write[of "strCache kv" w w' k v] assms(1,2) by (simp add: coherent_def)
  ultimately show ?thesis using assms(1,3) by (auto simp: coherent_def)
qed

lemma coherent_write_int:
  assumes "coherent kv w" "\<And>j. kv_row j w' = (if j = k then Some s else kv_row j w)" "int_key k" "Atoi s = Some n"
  shows "coherent (kv\<lparr>intCache := (intCache kv)(k \<mapsto> n)\<rparr>) w'"
proof -
  have "strCache kv k = None" using coherent_miss(1)[OF assms(1,3)] .
  then have "agrees Some (strCache kv) w'"
    using str_cache.agrees_other[of "strCache kv" w k w'] assms(1,2) by (simp add: coherent_def)
  moreover have "agrees Atoi (intCache kv) w"  using assms(1) by (simp add: coherent_def)
  then have "agrees Atoi ((intCache kv)(k \<mapsto> n)) w'" using assms(2,4) by (simp add: agrees_def)
  ultimately show ?thesis using assms(1,3) by (auto simp: coherent_def)
qed

lemma coherent_drop_str:
  assumes "coherent kv w" "\<And>j. j \<noteq> k \<Longrightarrow> kv_row j w' = kv_row j w" "\<not> int_key k"
  shows "coherent (kv\<lparr>strCache := (strCache kv)(k := None)\<rparr>) w'"
  using str_cache.agrees_drop[of "strCache kv" w k w'] int_cache.agrees_other[of "intCache kv" w k w']
    coherent_miss(2)[OF assms(1,3)] assms by (auto simp: coherent_def)

lemma coherent_drop_int:
  assumes "coherent kv w" "\<And>j. j \<noteq> k \<Longrightarrow> kv_row j w' = kv_row j w" "int_key k"
  shows "coherent (kv\<lparr>intCache := (intCache kv)(k := None)\<rparr>) w'"
  using int_cache.agrees_drop[of "intCache kv" w k w'] str_cache.agrees_other[of "strCache kv" w k w']
    coherent_miss(1)[OF assms(1,3)] assms by (auto simp: coherent_def)

lemma coherent_other:
  assumes "coherent kv w" "\<And>j. j \<noteq> k \<Longrightarrow> kv_row j w' = kv_row j w" "\<not> int_key k" "\<not> str_key k"
  shows "coherent kv w'"
  using int_cache.agrees_other[of "intCache kv" w k w'] str_cache.agrees_other[of "strCache kv" w k w']
    coherent_miss(2)[OF assms(1,3)] coherent_miss(3)[OF assms(1,4)] assms by (auto simp: coherent_def)

lemma coherent_rows: "coherent kv w \<Longrightarrow> (\<And>j. kv_row j w' = kv_row j w) \<Longrightarrow> coherent kv w'"
  by (simp add: coherent_def agrees_def)

text \<open>
  The calls the daemon can make: start-up with its load of the caches, the typed and the raw
  operations, and the handler of the custom keys. The typed keys are constants of the package, so
  a string key ends with \<open>.str\<close> and an integer key with \<open>.int\<close>. A text written to an integer key
  must parse; the handler refuses most others itself, and \<open>customkv_value_stops_the_next_start\<close>
  below shows what one that it lets through does.
\<close>

datatype kv_call =
    CGet string | CSet gotime string string | CDelete string
  | CGetInt string | CSetInt gotime string int | CDeleteInt string
  | CGetRaw string | CSetRaw gotime string string | CDeleteRaw string
  | CInitialize gotime | CLoad | CHandler gotime string "string option"

fun call_ok :: "kv_call \<Rightarrow> bool" where
  "call_ok (CGet k) = str_key k"
| "call_ok (CSet t k v) = str_key k"
| "call_ok (CDelete k) = str_key k"
| "call_ok (CGetInt k) = int_key k"
| "call_ok (CSetInt t k n) = (int_key k \<and> min_int64 \<le> n \<and> n \<le> max_int64)"
| "call_ok (CDeleteInt k) = int_key k"
| "call_ok (CGetRaw k) = True"
| "call_ok (CSetRaw t k v) = (int_key k \<longrightarrow> Atoi v \<noteq> None)"
| "call_ok (CDeleteRaw k) = True"
| "call_ok (CInitialize t) = True"
| "call_ok CLoad = True"
| "call_ok (CHandler t k body) = (\<forall>v. body = Some v \<longrightarrow> int_key k \<longrightarrow> isValidInteger v \<longrightarrow> Atoi v \<noteq> None)"

definition after :: "('a \<times> KVStore \<times> world) option \<Rightarrow> KVStore \<times> world \<Rightarrow> KVStore \<times> world" where
  "after r s = (case r of None \<Rightarrow> s | Some (_, kv, w) \<Rightarrow> (kv, w))"

fun do_call :: "kv_call \<Rightarrow> KVStore \<times> world \<Rightarrow> KVStore \<times> world" where
  "do_call (CGet k) (kv, w) = after (KV_Get k kv w) (kv, w)"
| "do_call (CSet t k v) (kv, w) = after (KV_Set t k v kv w) (kv, w)"
| "do_call (CDelete k) (kv, w) = snd (KV_Delete k kv w)"
| "do_call (CGetInt k) (kv, w) = after (KV_GetInt k kv w) (kv, w)"
| "do_call (CSetInt t k n) (kv, w) = after (KV_SetInt t k n kv w) (kv, w)"
| "do_call (CDeleteInt k) (kv, w) = snd (KV_DeleteInt k kv w)"
| "do_call (CGetRaw k) (kv, w) = snd (KV_GetRaw k kv w)"
| "do_call (CSetRaw t k v) (kv, w) = snd (KV_SetRaw t k v kv w)"
| "do_call (CDeleteRaw k) (kv, w) = snd (KV_DeleteRaw k kv w)"
| "do_call (CInitialize t) (kv, w) = after (KV_Initialize t kv w) (kv, w)"
| "do_call CLoad (kv, w) = snd (loadCache kv w)"
| "do_call (CHandler t k body) (kv, w) = snd (handleSetCustomKV t k body kv w)"

definition kv_inv :: "KVStore \<times> world \<Rightarrow> bool" where
  "kv_inv s \<longleftrightarrow> coherent (fst s) (snd s) \<and> honest (snd s)"

lemma write_keeps:
  assumes "dbSet t k v w = (r, w')" "kv_inv (kv, w)"
    and "r = None \<Longrightarrow> (\<And>j. kv_row j w' = (if j = k then Some v else kv_row j w)) \<Longrightarrow> coherent kv' w'"
    and "r \<noteq> None \<Longrightarrow> kv' = kv"
  shows "kv_inv (kv', w')"
proof -
  have inv: "coherent kv w" "honest w" using assms(2) by (simp_all add: kv_inv_def)
  note e = dbSet_effect[OF assms(1) inv(2)]
  show ?thesis
  proof (cases r)
    case None
    then show ?thesis using e assms(3) by (simp add: kv_inv_def)
  next
    case (Some x)
    then show ?thesis using e assms(4) coherent_same inv(1) by (auto simp: kv_inv_def)
  qed
qed

lemma delete_keeps:
  assumes "dbDelete k w = (r, w')" "kv_inv (kv, w)"
    and "(\<And>j. j \<noteq> k \<Longrightarrow> kv_row j w' = kv_row j w) \<Longrightarrow> r = None \<Longrightarrow> coherent kv' w'"
    and "r \<noteq> None \<Longrightarrow> kv' = kv"
  shows "kv_inv (kv', w')"
proof -
  have inv: "coherent kv w" "honest w" using assms(2) by (simp_all add: kv_inv_def)
  note e = dbDelete_effect[OF assms(1) inv(2)]
  show ?thesis
  proof (cases "r = None")
    case True
    then show ?thesis using e assms(3) by (simp add: kv_inv_def)
  next
    case False
    then show ?thesis using e assms(4) coherent_rows[OF inv(1)] by (simp add: kv_inv_def)
  qed
qed

lemma read_keeps:
  assumes "dbGet k w = (r, w')" "kv_inv (kv, w)"
    and "\<And>s. r = Inr s \<Longrightarrow> kv_row k w' = Some s \<Longrightarrow> coherent kv w' \<Longrightarrow> coherent kv' w'"
    and "isl r \<Longrightarrow> kv' = kv"
  shows "kv_inv (kv', w')"
proof -
  have inv: "coherent kv w" "honest w" using assms(2) by (simp_all add: kv_inv_def)
  note e = dbGet_effect[OF assms(1) inv(2)]
  have "coherent kv w'" using e coherent_same inv(1) by blast
  then show ?thesis using e assms(3,4) kv_row_same[of w w' k] by (cases r) (auto simp: kv_inv_def)
qed


lemma get_keeps: "kv_inv (kv, w) \<Longrightarrow> str_key k \<Longrightarrow> kv_inv (after (KV_Get k kv w) (kv, w))"
proof (cases "\<not> initialized kv \<or> strCache kv k \<noteq> None")
  case True
  then show "kv_inv (kv, w) \<Longrightarrow> kv_inv (after (KV_Get k kv w) (kv, w))"
    by (auto simp: after_def KV_Get_def)
next
  case False
  assume inv: "kv_inv (kv, w)" and k: "str_key k"
  obtain r w' where g: "dbGet k w = (r, w')" by fastforce
  have "kv_inv ((case r of Inl e \<Rightarrow> kv | Inr s \<Rightarrow> kv\<lparr>strCache := (strCache kv)(k \<mapsto> s)\<rparr>), w')"
    by (rule read_keeps[OF g inv]) (use k coherent_read_str in \<open>auto split: sum.splits\<close>)
  then show "kv_inv (after (KV_Get k kv w) (kv, w))"
    using False g by (auto simp: after_def KV_Get_def split: sum.splits)
qed

lemma getInt_keeps: "kv_inv (kv, w) \<Longrightarrow> int_key k \<Longrightarrow> kv_inv (after (KV_GetInt k kv w) (kv, w))"
proof (cases "\<not> initialized kv \<or> intCache kv k \<noteq> None")
  case True
  then show "kv_inv (kv, w) \<Longrightarrow> kv_inv (after (KV_GetInt k kv w) (kv, w))"
    by (auto simp: after_def KV_GetInt_def)
next
  case False
  assume inv: "kv_inv (kv, w)" and k: "int_key k"
  obtain r w' where g: "dbGet k w = (r, w')" by fastforce
  have "kv_inv ((case r of Inl e \<Rightarrow> kv | Inr s \<Rightarrow>
      (case Atoi s of None \<Rightarrow> kv | Some n \<Rightarrow> kv\<lparr>intCache := (intCache kv)(k \<mapsto> n)\<rparr>)), w')"
    by (rule read_keeps[OF g inv]) (use k coherent_read_int in \<open>auto split: sum.splits option.splits\<close>)
  then show "kv_inv (after (KV_GetInt k kv w) (kv, w))"
    using False g by (auto simp: after_def KV_GetInt_def split: sum.splits option.splits)
qed

lemma getRaw_keeps: "kv_inv (kv, w) \<Longrightarrow> kv_inv (snd (KV_GetRaw k kv w))"
proof (cases "cached_raw k kv")
  case (Some v)
  then show "kv_inv (kv, w) \<Longrightarrow> kv_inv (snd (KV_GetRaw k kv w))" by (simp add: KV_GetRaw_def)
next
  case None
  assume inv: "kv_inv (kv, w)"
  obtain r w' where g: "dbGet k w = (r, w')" by fastforce
  have "kv_inv ((case r of Inl e \<Rightarrow> kv | Inr s \<Rightarrow> cache_raw k s kv), w')"
    by (rule read_keeps[OF g inv])
       (use coherent_read_int coherent_read_str in \<open>auto simp: cache_raw_def split: sum.splits option.splits\<close>)
  then show "kv_inv (snd (KV_GetRaw k kv w))"
    using None g by (auto simp: KV_GetRaw_def split: sum.splits)
qed

lemma set_keeps:
  assumes "kv_inv (kv, w)" "str_key k"
  shows "kv_inv (after (KV_Set t k v kv w) (kv, w))"
proof -
  have c: "coherent kv w" using assms(1) by (simp add: kv_inv_def)
  obtain r w' where g: "dbSet t k v w = (r, w')" by fastforce
  have "kv_inv ((if r = None then kv\<lparr>strCache := (strCache kv)(k \<mapsto> v)\<rparr> else kv), w')"
    by (rule write_keeps[OF g assms(1)]) (use coherent_write_str[OF c _ assms(2)] in auto)
  then show ?thesis using g assms(1) by (auto simp: after_def KV_Set_def split: option.splits)
qed

lemma setInt_keeps:
  assumes "kv_inv (kv, w)" "int_key k" "min_int64 \<le> n" "n \<le> max_int64"
  shows "kv_inv (after (KV_SetInt t k n kv w) (kv, w))"
proof -
  have c: "coherent kv w" using assms(1) by (simp add: kv_inv_def)
  obtain r w' where g: "dbSet t k (Itoa n) w = (r, w')" by fastforce
  have "kv_inv ((if r = None then kv\<lparr>intCache := (intCache kv)(k \<mapsto> n)\<rparr> else kv), w')"
    by (rule write_keeps[OF g assms(1)]) (use coherent_write_int[OF c _ assms(2) Atoi_Itoa[OF assms(3,4)]] in auto)
  then show ?thesis using g assms(1) by (auto simp: after_def KV_SetInt_def split: option.splits)
qed

lemma setRaw_keeps:
  assumes "kv_inv (kv, w)" "int_key k \<longrightarrow> Atoi v \<noteq> None"
  shows "kv_inv (snd (KV_SetRaw t k v kv w))"
proof -
  have c: "coherent kv w" using assms(1) by (simp add: kv_inv_def)
  obtain r w' where g: "dbSet t k v w = (r, w')" by fastforce
  have "kv_inv ((if r = None then cache_raw k v kv else kv), w')"
  proof (rule write_keeps[OF g assms(1)])
    assume rows: "\<And>j. kv_row j w' = (if j = k then Some v else kv_row j w)" and r: "r = None"
    consider (int) n where "int_key k" "Atoi v = Some n" | (str) "\<not> int_key k" "str_key k" | (none) "\<not> int_key k" "\<not> str_key k"
      using assms(2) by blast
    then show "coherent (if r = None then cache_raw k v kv else kv) w'"
    proof cases
      case int
      then show ?thesis using coherent_write_int[OF c rows] r by (simp add: cache_raw_def)
    next
      case str
      then show ?thesis using coherent_write_str[OF c rows] r by (simp add: cache_raw_def)
    next
      case none
      then show ?thesis using coherent_other[OF c _ none] rows r by (simp add: cache_raw_def)
    qed
  qed auto
  then show ?thesis using g by (auto simp: KV_SetRaw_def split: option.splits)
qed

lemma delete_call_keeps:
  assumes "kv_inv (kv, w)"
  shows "str_key k \<Longrightarrow> kv_inv (snd (KV_Delete k kv w))" "int_key k \<Longrightarrow> kv_inv (snd (KV_DeleteInt k kv w))"
    "kv_inv (snd (KV_DeleteRaw k kv w))"
proof -
  have c: "coherent kv w" using assms(1) by (simp add: kv_inv_def)
  obtain r w' where g: "dbDelete k w = (r, w')" by fastforce
  let ?s = "kv\<lparr>strCache := (strCache kv)(k := None)\<rparr>" and ?i = "kv\<lparr>intCache := (intCache kv)(k := None)\<rparr>"
  have str: "kv_inv ((if r = None then ?s else kv), w')" if "\<not> int_key k"
    by (rule delete_keeps[OF g assms]) (use coherent_drop_str[OF c _ that] in auto)
  have int: "kv_inv ((if r = None then ?i else kv), w')" if "int_key k"
    by (rule delete_keeps[OF g assms]) (use coherent_drop_int[OF c _ that] in auto)
  have none: "kv_inv (kv, w')" if "\<not> int_key k" "\<not> str_key k"
    by (rule delete_keeps[OF g assms]) (use coherent_other[OF c _ that] in auto)
  show "str_key k \<Longrightarrow> kv_inv (snd (KV_Delete k kv w))"
    using str keys_apart[of k] g by (cases "int_key k") (auto simp: KV_Delete_def split: option.splits)
  show "int_key k \<Longrightarrow> kv_inv (snd (KV_DeleteInt k kv w))"
    using int g by (auto simp: KV_DeleteInt_def split: option.splits)
  show "kv_inv (snd (KV_DeleteRaw k kv w))"
    using int str none g by (cases "int_key k") (auto simp: KV_DeleteRaw_def split: option.splits)
qed

text \<open>The rows that loading puts into the caches are rows of the table.\<close>

lemma fill_cache_coherent:
  assumes "coherent kv w" "\<forall>r \<in> set rs. kv_row (kv_Key r) w = Some (kv_Value r)"
  shows "coherent (snd (fill_cache rs kv)) w"
  using assms
proof (induction rs arbitrary: kv)
  case (Cons r rs)
  have row: "kv_row (kv_Key r) w = Some (kv_Value r)" using Cons.prems(2) by simp
  show ?case
  proof (cases "int_key (kv_Key r)")
    case True
    then show ?thesis
      using Cons coherent_read_int[OF Cons.prems(1) row] by (auto split: option.splits)
  next
    case False
    then show ?thesis
      using Cons coherent_read_str[OF Cons.prems(1) row] by auto
  qed
qed simp

text \<open>The store's invariant: one row per key.\<close>

definition kv_keys_ok :: "world \<Rightarrow> bool" where
  "kv_keys_ok w \<longleftrightarrow> distinct (map kv_Key (kvstore w))"

lemma kv_row_of: "kv_keys_ok w \<Longrightarrow> r \<in> set (kvstore w) \<Longrightarrow> kv_row (kv_Key r) w = Some (kv_Value r)"
  using find_unique[of r "kvstore w" "\<lambda>x. kv_Key x = kv_Key r"] distinct_row[of kv_Key "kvstore w" r]
  by (simp add: kv_row_def kv_keys_ok_def)

lemma kv_row_NoneD: "kv_row k w = None \<Longrightarrow> r \<in> set (kvstore w) \<Longrightarrow> kv_Key r \<noteq> k"
  by (auto simp: kv_row_def find_None_iff)

text \<open>Loading, start-up and the handler are built from these.\<close>

lemma sql_query_honest: "sql_query q w = (r, w') \<Longrightarrow> honest w \<Longrightarrow> honest w' \<and> same_but_io w w'"
proof -
  assume q: "sql_query q w = (r, w')" and h: "honest w"
  obtain oc w1 where n: "next_io w = (oc, w1)" by fastforce
  show ?thesis using q n next_io_honest[OF n h] by (auto simp: sql_query_def split: if_splits)
qed

lemma GetAll_effect:
  assumes "KV_GetAll w = (r, w')" "honest w"
  shows "honest w'" "same_but_io w w'" "r = Inr rs \<Longrightarrow> rs = order_by kv_Key (kvstore w')"
proof -
  obtain q where q: "sql_query (\<lambda>w. order_by kv_Key (kvstore w)) w = (q, w')"
    using assms(1) by (auto simp: KV_GetAll_def split: prod.splits sum.splits)
  show h: "honest w'" "same_but_io w w'" using sql_query_honest[OF q assms(2)] by blast+
  show "rs = order_by kv_Key (kvstore w')" if "r = Inr rs"
    using assms(1) q that h(2)
    by (auto simp: KV_GetAll_def sql_query_def same_but_io_fields split: sum.splits prod.splits if_splits)
qed

lemma loadCache_keeps:
  assumes "kv_inv (kv, w)" "kv_keys_ok w" "loadCache kv w = (e, kv', w')"
  shows "kv_inv (kv', w')" "kv_keys_ok w'"
proof -
  obtain r w1 where g: "KV_GetAll w = (r, w1)" by fastforce
  have inv: "coherent kv w" "honest w" using assms(1) by (simp_all add: kv_inv_def)
  note G = GetAll_effect[OF g inv(2)]
  have w1: "w' = w1" using assms(3) g by (auto simp: loadCache_def split: sum.splits prod.splits)
  show keys: "kv_keys_ok w'" using assms(2) G(2) w1 by (simp add: kv_keys_ok_def same_but_io_fields)
  show "kv_inv (kv', w')"
  proof (cases r)
    case (Inl x)
    then show ?thesis using assms(3) g G coherent_same inv(1) by (auto simp: loadCache_def kv_inv_def)
  next
    case (Inr rs)
    let ?kv0 = "kv\<lparr>strCache := Map.empty, intCache := Map.empty\<rparr>"
    have "kv' = snd (fill_cache rs ?kv0)" using assms(3) g Inr by (auto simp: loadCache_def split: prod.splits)
    moreover have "coherent ?kv0 w'" by (simp add: coherent_def agrees_def)
    moreover have "\<forall>r \<in> set rs. kv_row (kv_Key r) w' = Some (kv_Value r)"
      using G(3)[OF Inr] w1 kv_row_of[OF keys] by simp
    ultimately show ?thesis using fill_cache_coherent[of ?kv0 w' rs] G(1) w1 by (simp add: kv_inv_def)
  qed
qed

lemma keys_kept:
  "kv_keys_ok w \<Longrightarrow> dbSet t k v w = (r, w') \<Longrightarrow> kv_keys_ok w'"
  "kv_keys_ok w \<Longrightarrow> dbDelete k w = (r, w') \<Longrightarrow> kv_keys_ok w'"
  "kv_keys_ok w \<Longrightarrow> dbGet k w = (s, w') \<Longrightarrow> kv_keys_ok w'"
  "kv_keys_ok w \<Longrightarrow> KV_GetAll w = (rs, w') \<Longrightarrow> kv_keys_ok w'"
proof -
  show "kv_keys_ok w'" if ok: "kv_keys_ok w" and d: "dbSet t k v w = (r, w')"
  proof -
    obtain q where "sql_exec (upsert_stmt t k v) w = (q, w')" using d by (auto simp: dbSet_def split: prod.splits sum.splits)
    then show ?thesis
    proof (cases rule: sql_exec_cases)
      case none
      then show ?thesis using ok by (auto simp: kv_keys_ok_def same_but_io_fields)
    next
      case (applied w1 n)
      then show ?thesis using ok kv_row_NoneD[of k w1]
        by (auto simp: upsert_stmt_def kv_keys_ok_def same_but_io_fields upd_where_def comp_def if_distrib[of kv_Key] cong: if_cong) blast+
    qed
  qed
  show "kv_keys_ok w'" if ok: "kv_keys_ok w" and d: "dbDelete k w = (r, w')"
  proof -
    obtain q where "sql_exec (\<lambda>w. Inr (w\<lparr>kvstore := del_where (\<lambda>r. kv_Key r = k) (kvstore w)\<rparr>,
        count_where (\<lambda>r. kv_Key r = k) (kvstore w)) :: (world \<times> int) res) w = (q, w')"
      using d by (auto simp: dbDelete_def split: prod.splits sum.splits if_splits)
    then show ?thesis
    proof (cases rule: sql_exec_cases)
      case none
      then show ?thesis using ok by (auto simp: kv_keys_ok_def same_but_io_fields)
    next
      case (applied w1 n)
      then show ?thesis using ok
        by (auto simp: kv_keys_ok_def same_but_io_fields del_where_def distinct_map_filter)
    qed
  qed
  show "kv_keys_ok w'" if "kv_keys_ok w" "dbGet k w = (s, w')"
    using that by (auto simp: dbGet_def kv_keys_ok_def same_but_io_fields dest!: sql_query_same split: prod.splits sum.splits option.splits)
  show "kv_keys_ok w'" if "kv_keys_ok w" "KV_GetAll w = (rs, w')"
    using that by (auto simp: KV_GetAll_def kv_keys_ok_def same_but_io_fields dest!: sql_query_same split: prod.splits sum.splits)
qed

definition kv_good :: "KVStore \<times> world \<Rightarrow> bool" where
  "kv_good s \<longleftrightarrow> kv_inv s \<and> kv_keys_ok (snd s)"

lemma GetRaw_good: "kv_good (kv, w) \<Longrightarrow> KV_GetRaw k kv w = (r, s) \<Longrightarrow> kv_good s"
  using getRaw_keeps[of kv w k] keys_kept(3)[of w k]
  by (auto simp: kv_good_def KV_GetRaw_def split: option.splits prod.splits sum.splits)

lemma ExistsRaw_good: "kv_good (kv, w) \<Longrightarrow> KV_ExistsRaw k kv w = (there, s) \<Longrightarrow> kv_good s"
  using GetRaw_good by (auto simp: KV_ExistsRaw_def split: prod.splits)

lemma SetInt_good:
  "kv_good (kv, w) \<Longrightarrow> int_key k \<Longrightarrow> min_int64 \<le> n \<Longrightarrow> n \<le> max_int64 \<Longrightarrow> KV_SetInt t k n kv w = Some (e, s) \<Longrightarrow> kv_good s"
  using setInt_keeps[of kv w k n t] keys_kept(1)[of w t k "Itoa n"]
  by (auto simp: kv_good_def KV_SetInt_def after_def split: if_splits prod.splits option.splits)

lemma Set_good: "kv_good (kv, w) \<Longrightarrow> str_key k \<Longrightarrow> KV_Set t k v kv w = Some (e, s) \<Longrightarrow> kv_good s"
  using set_keeps[of kv w k t v] keys_kept(1)[of w t k v]
  by (auto simp: kv_good_def KV_Set_def after_def split: if_splits prod.splits option.splits)

lemma ensure_ints_good:
  assumes "ensure_ints t ds kv w = Some (e, s)" "kv_good (kv, w)"
    "\<forall>(k, d) \<in> set ds. int_key k \<and> min_int64 \<le> d \<and> d \<le> max_int64"
  shows "kv_good s"
  using assms
proof (induction ds arbitrary: kv w)
  case (Cons x ds)
  obtain k d where x: "x = (k, d)" by fastforce
  obtain there kv1 w1 where 1: "KV_ExistsRaw k kv w = (there, kv1, w1)" by (metis surj_pair)
  have g1: "kv_good (kv1, w1)" using ExistsRaw_good[OF Cons.prems(2) 1] .
  show ?case
  proof (cases there)
    case True
    then show ?thesis using Cons.IH[OF _ g1] Cons.prems x 1 by auto
  next
    case False
    then obtain e2 kv2 w2 where 2: "KV_SetInt t k d kv1 w1 = Some (e2, kv2, w2)"
      using Cons.prems(1) x 1 by (auto split: option.splits)
    have "kv_good (kv2, w2)" using SetInt_good[OF g1 _ _ _ 2] Cons.prems(3) x by auto
    then show ?thesis using Cons.IH[of kv2 w2] Cons.prems x 1 2 False by (cases e2) auto
  qed
qed simp

lemma systemIntDefaults_ok:
  "\<forall>(k, d) \<in> set systemIntDefaults. int_key k \<and> min_int64 \<le> d \<and> d \<le> max_int64"
  "distinct (map fst systemIntDefaults)" "map_of systemIntDefaults KeySystemDisplayName = None"
  by (simp_all add: systemIntDefaults_def int_key_def HasSuffix_def min_int64_def max_int64_def
      KeyHealthDebugFail_def KeyCronDebugTickerInterval_def KeyCronDebugForceRun_def KeyLogsRetentionDays_def
      KeySystemDisplayName_def)

lemma EnsureSystemDefaults_good:
  assumes "EnsureSystemDefaults t kv w = Some (e, s)" "kv_good (kv, w)"
  shows "kv_good s"
proof -
  obtain there kv1 w1 where 1: "KV_ExistsRaw KeySystemDisplayName kv w = (there, kv1, w1)" by (metis surj_pair)
  have g1: "kv_good (kv1, w1)" using ExistsRaw_good[OF assms(2) 1] .
  show ?thesis
  proof (cases there)
    case True
    then show ?thesis using assms(1) 1 ensure_ints_good[OF _ g1 systemIntDefaults_ok(1)] by (simp add: EnsureSystemDefaults_def)
  next
    case False
    then obtain e2 kv2 w2 where 2: "KV_Set t KeySystemDisplayName '''' kv1 w1 = Some (e2, kv2, w2)"
      using assms(1) 1 by (auto simp: EnsureSystemDefaults_def split: option.splits)
    have g2: "kv_good (kv2, w2)"
      by (rule Set_good[OF g1 _ 2]) (simp add: KeySystemDisplayName_def str_key_def HasSuffix_def)
    then show ?thesis using assms(1) 1 2 False ensure_ints_good[OF _ g2 systemIntDefaults_ok(1)]
      by (cases e2) (auto simp: EnsureSystemDefaults_def)
  qed
qed

lemma Initialize_good:
  assumes "KV_Initialize t kv w = Some (e, s)" "kv_good (kv, w)"
  shows "kv_good s"
proof -
  obtain x kv1 w1 where 1: "loadCache kv w = (x, kv1, w1)" by (metis surj_pair)
  have g: "kv_inv (kv1, w1)" "kv_keys_ok w1" using loadCache_keeps[OF _ _ 1] assms(2) by (simp_all add: kv_good_def)
  show ?thesis
  proof (cases x)
    case None
    have "kv_good (kv1\<lparr>initialized := True\<rparr>, w1)" using g by (simp add: kv_good_def kv_inv_def coherent_def)
    then show ?thesis using assms(1) 1 None EnsureSystemDefaults_good by (auto simp: KV_Initialize_def split: option.splits)
  next
    case (Some y)
    then show ?thesis using assms(1) 1 g by (auto simp: KV_Initialize_def kv_good_def)
  qed
qed

lemma hasIntSuffix_iff: "int_key k \<Longrightarrow> hasValidSuffix k \<Longrightarrow> hasIntSuffix k"
  by (auto simp: int_key_def HasSuffix_iff hasValidSuffix_def hasIntSuffix_def hasStrSuffix_def)

lemma SetRaw_good:
  "kv_good (kv, w) \<Longrightarrow> int_key k \<longrightarrow> Atoi v \<noteq> None \<Longrightarrow> KV_SetRaw t k v kv w = (e, s) \<Longrightarrow> kv_good s"
  using setRaw_keeps[of kv w k v t] keys_kept(1)[of w t k v]
  by (auto simp: kv_good_def KV_SetRaw_def split: prod.splits option.splits)

lemma handler_good:
  assumes "kv_good (kv, w)" "call_ok (CHandler t k body)" "handleSetCustomKV t k body kv w = (n, s)"
  shows "kv_good s"
proof -
  obtain there kv1 w1 where 1: "KV_ExistsRaw k kv w = (there, kv1, w1)" by (metis surj_pair)
  have g1: "kv_good (kv1, w1)" using ExistsRaw_good[OF assms(1) 1] .
  show ?thesis
  proof (cases "\<exists>v. body = Some v \<and> k \<noteq> '''' \<and> there \<and> hasValidSuffix k \<and> (hasIntSuffix k \<longrightarrow> isValidInteger v)")
    case False
    then show ?thesis using assms(1,3) 1 g1 by (auto simp: handleSetCustomKV_def split: if_splits option.splits)
  next
    case True
    then obtain v where v: "body = Some v" "k \<noteq> ''''" there "hasValidSuffix k" "hasIntSuffix k \<longrightarrow> isValidInteger v" by blast
    obtain e2 kv2 w2 where 2: "KV_SetRaw t k v kv1 w1 = (e2, kv2, w2)" by (metis surj_pair)
    have g2: "kv_good (kv2, w2)" using SetRaw_good[OF g1 _ 2] assms(2) v hasIntSuffix_iff by auto
    obtain rs w3 where 3: "KV_GetAll w2 = (rs, w3)" by fastforce
    have "coherent kv2 w2" "honest w2" using g2 by (simp_all add: kv_good_def kv_inv_def)
    then have "kv_good (kv2, w3)"
      using g2 GetAll_effect[OF 3] keys_kept(4)[OF _ 3] coherent_same[of w2 w3] by (simp add: kv_good_def kv_inv_def)
    then show ?thesis using assms(3) 1 2 3 v g2 by (auto simp: handleSetCustomKV_def split: option.splits sum.splits)
  qed
qed

lemma plain_calls_keep_keys:
  assumes "kv_keys_ok w"
  shows "kv_keys_ok (snd (after (KV_Get k kv w) (kv, w)))" "kv_keys_ok (snd (after (KV_GetInt k kv w) (kv, w)))"
    "kv_keys_ok (snd (after (KV_Set t k v kv w) (kv, w)))" "kv_keys_ok (snd (after (KV_SetInt t k n kv w) (kv, w)))"
    "kv_keys_ok (snd (snd (KV_Delete k kv w)))" "kv_keys_ok (snd (snd (KV_DeleteInt k kv w)))"
    "kv_keys_ok (snd (snd (KV_DeleteRaw k kv w)))"
  using keys_kept[OF assms]
  by (auto simp: assms after_def KV_Get_def KV_GetInt_def KV_Set_def KV_SetInt_def KV_Delete_def KV_DeleteInt_def KV_DeleteRaw_def
      split: option.splits prod.splits sum.splits)

lemma do_call_keeps: "kv_good s \<Longrightarrow> call_ok c \<Longrightarrow> kv_good (do_call c s)"
proof -
  assume g: "kv_good s" and ok: "call_ok c"
  obtain kv w where s: "s = (kv, w)" by fastforce
  have inv: "kv_inv (kv, w)" "kv_keys_ok w" using g s by (simp_all add: kv_good_def)
  show ?thesis
  proof (cases c)
    case (CInitialize t)
    then show ?thesis using g s Initialize_good[of t kv w] by (cases "KV_Initialize t kv w") (auto simp: after_def)
  next
    case CLoad
    then show ?thesis using s loadCache_keeps[OF inv] by (cases "loadCache kv w") (auto simp: kv_good_def)
  next
    case (CHandler t k body)
    then show ?thesis using g s ok handler_good[of kv w t k body] by (cases "handleSetCustomKV t k body kv w") auto
  next
    case (CGetRaw k)
    then show ?thesis using g s GetRaw_good[of kv w k] by (cases "KV_GetRaw k kv w") auto
  next
    case (CSetRaw t k v)
    then show ?thesis using g s ok SetRaw_good[of kv w k v t] by (cases "KV_SetRaw t k v kv w") auto
  qed (use inv s ok in \<open>simp_all add: kv_good_def plain_calls_keep_keys get_keeps getInt_keeps set_keeps setInt_keeps delete_call_keeps\<close>)
qed

lemma calls_keep: "kv_good s \<Longrightarrow> list_all call_ok cs \<Longrightarrow> kv_good (fold do_call cs s)"
  by (induction cs arbitrary: s) (simp_all add: do_call_keeps)

lemma raw_read_agrees:
  assumes "KV_GetRaw k kv w = (Inr v, s)" "coherent kv w" "honest w"
  shows "\<exists>t. kv_row k w = Some t \<and> (v = t \<or> int_key k \<and> Atoi v = Atoi t \<and> Atoi t \<noteq> None)"
proof (cases "cached_raw k kv")
  case None
  then obtain u where "dbGet k w = (Inr v, u)"
    using assms(1) by (auto simp: KV_GetRaw_def split: prod.splits sum.splits)
  then show ?thesis using dbGet_effect[OF _ assms(3)] by blast
next
  case (Some x)
  then have v: "v = x" using assms(1) by (simp add: KV_GetRaw_def)
  show ?thesis
  proof (cases "int_key k")
    case True
    then obtain n where n: "intCache kv k = Some n" "x = Itoa n" using Some by (auto simp: cached_raw_def)
    then obtain t where t: "kv_row k w = Some t" "Atoi t = Some n"
      using assms(2) int_cache.agrees_hit[of "intCache kv" w k n] by (auto simp: coherent_def)
    moreover have "Atoi (Itoa n) = Some n" using Atoi_Itoa Atoi_range[OF t(2)] by blast
    ultimately show ?thesis using True v n(2) by simp
  next
    case False
    then have "strCache kv k = Some x" using Some by (auto simp: cached_raw_def split: if_splits)
    then show ?thesis using v assms(2) str_cache.agrees_hit[of "strCache kv" w k x] by (auto simp: coherent_def)
  qed
qed

text \<open>
  C28. The caches never answer anything but what the table holds: from a coherent store (a new
  one is, its caches are empty), after any sequence of start-ups, cache loads, typed and raw
  reads, writes and deletes and requests of the custom-key handler, whatever statements the
  database refuses, an integer that is read is the parsed value of its row, a string that is
  read is the value of its row, and a raw read gives the row's text or, for an integer key, a
  text of the same number. Two things are excluded because there the code does disagree with the
  table: a statement the database applies although it reports a failure, and a text for an
  integer key that \<open>strconv.Atoi\<close> does not read, which the handler can let through.
\<close>

theorem kv_cache_transparent:
  assumes "coherent kv w" "kv_keys_ok w" "honest w" "list_all call_ok cs" "fold do_call cs (kv, w) = (kv', w')"
  shows "(\<forall>k n kv'' w''. int_key k \<and> KV_GetInt k kv' w' = Some (Inr n, kv'', w'') \<longrightarrow>
            (\<exists>s. kv_row k w' = Some s \<and> Atoi s = Some n))
    \<and> (\<forall>k v kv'' w''. KV_Get k kv' w' = Some (Inr v, kv'', w'') \<longrightarrow> kv_row k w' = Some v)
    \<and> (\<forall>k v s. KV_GetRaw k kv' w' = (Inr v, s) \<longrightarrow>
            (\<exists>t. kv_row k w' = Some t \<and> (v = t \<or> int_key k \<and> Atoi v = Atoi t \<and> Atoi t \<noteq> None)))"
proof -
  have "kv_inv (kv', w')" using calls_keep[of "(kv, w)" cs] assms by (simp add: kv_good_def kv_inv_def)
  then have c: "coherent kv' w'" "honest w'" by (simp_all add: kv_inv_def)
  have "\<exists>s. kv_row k w' = Some s \<and> Atoi s = Some n"
    if get: "KV_GetInt k kv' w' = Some (Inr n, kv'', w'')" for k n kv'' w''
  proof (cases "intCache kv' k")
    case None
    then obtain s v where "dbGet k w' = (Inr s, v)" "Atoi s = Some n"
      using get by (auto simp: KV_GetInt_def split: if_splits prod.splits sum.splits option.splits)
    then show ?thesis using dbGet_effect[OF _ c(2)] by blast
  next
    case (Some m)
    then show ?thesis
      using get int_cache.agrees_hit[of "intCache kv'" w' k m] c(1) by (auto simp: KV_GetInt_def coherent_def split: if_splits)
  qed
  moreover have "kv_row k w' = Some v" if get: "KV_Get k kv' w' = Some (Inr v, kv'', w'')" for k v kv'' w''
  proof (cases "strCache kv' k")
    case None
    then obtain u where "dbGet k w' = (Inr v, u)"
      using get by (auto simp: KV_Get_def split: if_splits prod.splits sum.splits option.splits)
    then show ?thesis using dbGet_effect[OF _ c(2)] by blast
  next
    case (Some m)
    then show ?thesis
      using get str_cache.agrees_hit[of "strCache kv'" w' k m] c(1) by (auto simp: KV_Get_def coherent_def split: if_splits)
  qed
  moreover have "\<exists>t. kv_row k w' = Some t \<and> (v = t \<or> int_key k \<and> Atoi v = Atoi t \<and> Atoi t \<noteq> None)"
    if "KV_GetRaw k kv' w' = (Inr v, s)" for k v s using raw_read_agrees[OF that c] .
  ultimately show ?thesis by blast
qed


definition demo_kv :: KVStore where
  "demo_kv = \<lparr>strCache = Map.empty, intCache = Map.empty, initialized = True\<rparr>"

lemma map_fst_Some: "map_option fst x = Some a \<Longrightarrow> \<exists>b c. x = Some (a, b, c)"
  by (cases x) auto

theorem kv_cache_transparent_witness:
  "let s = fold do_call [CLoad, CSetInt 5 KeyLogsRetentionDays 30, CHandler 6 KeyLogsRetentionDays (Some ''90'')]
             (demo_kv, empty_world)
   in kv_row KeyLogsRetentionDays (snd s) = Some ''90''
      \<and> (\<exists>t. kv_row KeyLogsRetentionDays (snd s) = Some t \<and> Atoi t = Some 90)"
proof -
  let ?cs = "[CLoad, CSetInt 5 KeyLogsRetentionDays 30, CHandler 6 KeyLogsRetentionDays (Some ''90'')]"
  let ?s = "fold do_call ?cs (demo_kv, empty_world)"
  have row: "kv_row KeyLogsRetentionDays (snd ?s) = Some ''90''"
    "map_option fst (KV_GetInt KeyLogsRetentionDays (fst ?s) (snd ?s)) = Some (Inr 90)"
    by code_simp+
  obtain kv'' w'' where get: "KV_GetInt KeyLogsRetentionDays (fst ?s) (snd ?s) = Some (Inr 90, kv'', w'')"
    using map_fst_Some[OF row(2)] by (elim exE)
  have "Atoi ''90'' \<noteq> None" by code_simp
  then have ok: "list_all call_ok ?cs" "int_key KeyLogsRetentionDays"
    by (simp_all add: KeyLogsRetentionDays_def int_key_def HasSuffix_def min_int64_def max_int64_def)
  have "coherent demo_kv empty_world" "kv_keys_ok empty_world" "honest empty_world"
    by (simp_all add: coherent_def agrees_def demo_kv_def honest_def empty_world_def kv_keys_ok_def)
  from kv_cache_transparent[OF this ok(1) prod.collapse[symmetric]] get ok(2)
  have "\<exists>t. kv_row KeyLogsRetentionDays (snd ?s) = Some t \<and> Atoi t = Some 90" by blast
  then show ?thesis using row(1) by (simp only: Let_def simp_thms)
qed

section \<open>Start-up\<close>

lemma fill_cache_ok:
  "fill_cache rs kv = (None, kv') \<longleftrightarrow> (\<forall>r \<in> set rs. int_key (kv_Key r) \<longrightarrow> Atoi (kv_Value r) \<noteq> None)
     \<and> kv' = snd (fill_cache rs kv)"
  by (induction rs arbitrary: kv) (auto split: option.splits)

lemma fill_cache_initialized: "initialized (snd (fill_cache rs kv)) = initialized kv"
  by (induction rs arbitrary: kv) (auto split: option.splits)

lemma calm_honest: "io_schedule w = [] \<Longrightarrow> honest w"
  by (simp add: honest_def)

lemma dbSet_calm:
  assumes "io_schedule w = []"
  shows "\<exists>w'. dbSet now k v w = (None, w') \<and> io_schedule w' = []
     \<and> (\<forall>j. kv_row j w' = (if j = k then Some v else kv_row j w))"
proof -
  obtain w' n where st: "upsert_stmt now k v w = Inr (w', n)" by (simp add: upsert_stmt_def)
  have "io_schedule w' = []" using st assms by (auto simp: upsert_stmt_def)
  then show ?thesis using st upsert_row[OF st] by (simp add: dbSet_def calm_primitives[OF assms])
qed

lemma dbGet_calm:
  "io_schedule w = [] \<Longrightarrow> dbGet k w = ((case kv_row k w of None \<Rightarrow> Inl (NotFoundf (Errorf0 (''key not found: '' @ k)))
      | Some v \<Rightarrow> Inr v), w)"
  by (simp add: dbGet_def calm_primitives split: option.splits)

lemma ExistsRaw_calm:
  assumes "io_schedule w = []" "coherent kv w"
  shows "\<exists>kv'. KV_ExistsRaw k kv w = (kv_row k w \<noteq> None, kv', w) \<and> coherent kv' w \<and> initialized kv' = initialized kv"
proof -
  have inv: "kv_inv (kv, w)" using assms calm_honest by (simp add: kv_inv_def)
  obtain r kv' w' where g: "KV_GetRaw k kv w = (r, kv', w')" by (metis prod.exhaust)
  have "w' = w" "(\<not> isl r) = (kv_row k w \<noteq> None)" "initialized kv' = initialized kv"
    using g assms(2) int_cache.agrees_hit[of "intCache kv" w k] str_cache.agrees_hit[of "strCache kv" w k]
    by (auto simp: KV_GetRaw_def dbGet_calm[OF assms(1)] cached_raw_def cache_raw_def coherent_def
        split: option.splits if_splits)
  moreover have "coherent kv' w'" using getRaw_keeps[OF inv, of k] g by (simp add: kv_inv_def)
  ultimately show ?thesis using g by (simp add: KV_ExistsRaw_def)
qed

lemma SetInt_calm:
  assumes "io_schedule w = []" "coherent kv w" "initialized kv" "int_key k" "min_int64 \<le> n" "n \<le> max_int64"
  shows "\<exists>kv' w'. KV_SetInt now k n kv w = Some (None, kv', w') \<and> io_schedule w' = [] \<and> coherent kv' w'
     \<and> initialized kv' \<and> (\<forall>j. kv_row j w' = (if j = k then Some (Itoa n) else kv_row j w))"
proof -
  obtain w' where s: "dbSet now k (Itoa n) w = (None, w')" "io_schedule w' = []"
    "\<forall>j. kv_row j w' = (if j = k then Some (Itoa n) else kv_row j w)" using dbSet_calm[OF assms(1)] by blast
  then show ?thesis
    using assms(3) coherent_write_int[OF assms(2) _ assms(4) Atoi_Itoa[OF assms(5,6)], of w']
    by (simp add: KV_SetInt_def)
qed

lemma ensure_ints_calm:
  assumes "io_schedule w = []" "coherent kv w" "initialized kv"
    "\<forall>(k, d) \<in> set ds. int_key k \<and> min_int64 \<le> d \<and> d \<le> max_int64" "distinct (map fst ds)"
  shows "\<exists>kv' w'. ensure_ints now ds kv w = Some (None, kv', w') \<and> io_schedule w' = [] \<and> coherent kv' w' \<and> initialized kv'
     \<and> (\<forall>j. kv_row j w' = (case kv_row j w of Some v \<Rightarrow> Some v | None \<Rightarrow> map_option Itoa (map_of ds j)))"
  using assms
proof (induction ds arbitrary: kv w)
  case Nil
  then show ?case by (auto split: option.splits)
next
  case (Cons x ds)
  obtain k d where x: "x = (k, d)" by fastforce
  have key: "int_key k" "min_int64 \<le> d" "d \<le> max_int64" using Cons.prems(4) x by auto
  have rest: "\<forall>(k, d) \<in> set ds. int_key k \<and> min_int64 \<le> d \<and> d \<le> max_int64" "distinct (map fst ds)"
    "map_of ds k = None" using Cons.prems(4,5) x by (auto simp: map_of_eq_None_iff)
  obtain kv1 where e: "KV_ExistsRaw k kv w = (kv_row k w \<noteq> None, kv1, w)" "coherent kv1 w" "initialized kv1"
    using ExistsRaw_calm[OF Cons.prems(1,2), of k] Cons.prems(3) by auto
  show ?case
  proof (cases "kv_row k w")
    case (Some v)
    obtain kv' w' where run: "ensure_ints now ds kv1 w = Some (None, kv', w')" "io_schedule w' = []" "coherent kv' w'"
      "initialized kv'" "\<forall>j. kv_row j w' = (case kv_row j w of Some v \<Rightarrow> Some v | None \<Rightarrow> map_option Itoa (map_of ds j))"
      using Cons.IH[OF Cons.prems(1) e(2,3) rest(1,2)] by blast
    then show ?thesis using Some e(1) x by (auto split: option.splits)
  next
    case None
    obtain kv2 w2 where s: "KV_SetInt now k d kv1 w = Some (None, kv2, w2)" "io_schedule w2 = []" "coherent kv2 w2"
      "initialized kv2" "\<forall>j. kv_row j w2 = (if j = k then Some (Itoa d) else kv_row j w)"
      using SetInt_calm[OF Cons.prems(1) e(2,3) key] by blast
    obtain kv' w' where run: "ensure_ints now ds kv2 w2 = Some (None, kv', w')" "io_schedule w' = []" "coherent kv' w'"
      "initialized kv'" "\<forall>j. kv_row j w' = (case kv_row j w2 of Some v \<Rightarrow> Some v | None \<Rightarrow> map_option Itoa (map_of ds j))"
      using Cons.IH[OF s(2-4) rest(1,2)] by blast
    have "\<forall>j. kv_row j w' = (case kv_row j w of Some v \<Rightarrow> Some v | None \<Rightarrow> map_option Itoa (map_of (x # ds) j))"
      using run(5) s(5) None rest(3) x by (auto split: option.splits)
    then show ?thesis using run None e(1) s(1) x by simp
  qed
qed


lemma Set_calm:
  assumes "io_schedule w = []" "coherent kv w" "initialized kv" "str_key k"
  shows "\<exists>kv' w'. KV_Set now k v kv w = Some (None, kv', w') \<and> io_schedule w' = [] \<and> coherent kv' w'
     \<and> initialized kv' \<and> (\<forall>j. kv_row j w' = (if j = k then Some v else kv_row j w))"
proof -
  obtain w' where s: "dbSet now k v w = (None, w')" "io_schedule w' = []"
    "\<forall>j. kv_row j w' = (if j = k then Some v else kv_row j w)" using dbSet_calm[OF assms(1)] by blast
  then show ?thesis
    using assms(3) coherent_write_str[OF assms(2) _ assms(4), of w'] by (simp add: KV_Set_def)
qed

text \<open>The row of a key after start-up: as stored, or its default.\<close>

definition seeded :: "string \<Rightarrow> world \<Rightarrow> string option" where
  "seeded k w =
     (case kv_row k w of
        Some v \<Rightarrow> Some v
      | None \<Rightarrow> if k = KeySystemDisplayName then Some '''' else map_option Itoa (map_of systemIntDefaults k))"

lemma EnsureSystemDefaults_calm:
  assumes "io_schedule w = []" "coherent kv w" "initialized kv"
  shows "\<exists>kv' w'. EnsureSystemDefaults now kv w = Some (None, kv', w') \<and> coherent kv' w' \<and> initialized kv'
     \<and> (\<forall>j. kv_row j w' = seeded j w)"
proof -
  let ?n = KeySystemDisplayName
  have strk: "str_key ?n" by (simp add: KeySystemDisplayName_def str_key_def HasSuffix_def)
  obtain kv1 where e: "KV_ExistsRaw ?n kv w = (kv_row ?n w \<noteq> None, kv1, w)" "coherent kv1 w" "initialized kv1"
    using ExistsRaw_calm[OF assms(1,2), of ?n] assms(3) by auto
  show ?thesis
  proof (cases "kv_row ?n w")
    case (Some v)
    obtain kv' w' where "ensure_ints now systemIntDefaults kv1 w = Some (None, kv', w')" "coherent kv' w'" "initialized kv'"
      "\<forall>j. kv_row j w' = (case kv_row j w of Some v \<Rightarrow> Some v | None \<Rightarrow> map_option Itoa (map_of systemIntDefaults j))"
      using ensure_ints_calm[OF assms(1) e(2,3) systemIntDefaults_ok(1,2)] by blast
    moreover from this have "\<forall>j. kv_row j w' = seeded j w" using Some by (auto simp: seeded_def split: option.splits)
    ultimately show ?thesis using Some e(1) by (simp add: EnsureSystemDefaults_def)
  next
    case None
    obtain kv2 w2 where s: "KV_Set now ?n '''' kv1 w = Some (None, kv2, w2)" "io_schedule w2 = []" "coherent kv2 w2"
      "initialized kv2" "\<forall>j. kv_row j w2 = (if j = ?n then Some '''' else kv_row j w)"
      using Set_calm[OF assms(1) e(2,3) strk] by blast
    obtain kv' w' where run: "ensure_ints now systemIntDefaults kv2 w2 = Some (None, kv', w')" "coherent kv' w'" "initialized kv'"
      "\<forall>j. kv_row j w' = (case kv_row j w2 of Some v \<Rightarrow> Some v | None \<Rightarrow> map_option Itoa (map_of systemIntDefaults j))"
      using ensure_ints_calm[OF s(2-4) systemIntDefaults_ok(1,2)] by blast
    have "\<forall>j. kv_row j w' = seeded j w" using run(4) s(5) None by (auto simp: seeded_def split: option.splits)
    then show ?thesis using run None e(1) s(1) by (simp add: EnsureSystemDefaults_def)
  qed
qed

lemma loadCache_calm:
  assumes "io_schedule w = []" "kv_keys_ok w"
  shows "\<exists>kv1 e. loadCache kv w = (e, kv1, w)
     \<and> (e = None \<longleftrightarrow> (\<forall>r \<in> set (kvstore w). int_key (kv_Key r) \<longrightarrow> Atoi (kv_Value r) \<noteq> None))
     \<and> (e = None \<longrightarrow> coherent (kv1\<lparr>initialized := True\<rparr>) w)"
proof -
  let ?kv0 = "kv\<lparr>strCache := Map.empty, intCache := Map.empty\<rparr>"
  let ?rs = "order_by kv_Key (kvstore w)"
  obtain e kv1 where f: "fill_cache ?rs ?kv0 = (e, kv1)" by fastforce
  have "coherent ?kv0 w" by (simp add: coherent_def agrees_def)
  then have "coherent (snd (fill_cache ?rs ?kv0)) w"
    by (rule fill_cache_coherent) (simp add: kv_row_of[OF assms(2)])
  then have "coherent (kv1\<lparr>initialized := True\<rparr>) w" using f by (simp add: coherent_def)
  moreover have "e = None \<longleftrightarrow> (\<forall>r \<in> set (kvstore w). int_key (kv_Key r) \<longrightarrow> Atoi (kv_Value r) \<noteq> None)"
    using fill_cache_ok[of ?rs ?kv0 kv1] f by auto
  ultimately show ?thesis using f by (simp add: loadCache_def KV_GetAll_def calm_primitives[OF assms(1)])
qed

text \<open>
  Start-up of the configuration store: on a database that answers it succeeds exactly
  when every stored integer parameter parses; then the caches agree with the table, every
  system parameter has a row, and no configured value was changed.
\<close>

theorem KV_Initialize_seeds:
  assumes "io_schedule w = []" "kv_keys_ok w"
  shows "\<exists>e kv' w'. KV_Initialize now kv w = Some (e, kv', w')
     \<and> (e = None \<longleftrightarrow> (\<forall>r \<in> set (kvstore w). int_key (kv_Key r) \<longrightarrow> Atoi (kv_Value r) \<noteq> None))
     \<and> (e = None \<longrightarrow> coherent kv' w' \<and> initialized kv' \<and> (\<forall>k. kv_row k w' = seeded k w)
          \<and> (\<forall>k \<in> fst ` set systemIntDefaults. kv_row k w' \<noteq> None))"
proof -
  obtain kv1 e where l: "loadCache kv w = (e, kv1, w)"
    "e = None \<longleftrightarrow> (\<forall>r \<in> set (kvstore w). int_key (kv_Key r) \<longrightarrow> Atoi (kv_Value r) \<noteq> None)"
    "e = None \<longrightarrow> coherent (kv1\<lparr>initialized := True\<rparr>) w"
    using loadCache_calm[OF assms, of kv] by (elim exE conjE) (rule that)
  show ?thesis
  proof (cases e)
    case None
    obtain kv' w' where s: "EnsureSystemDefaults now (kv1\<lparr>initialized := True\<rparr>) w = Some (None, kv', w')"
      "coherent kv' w'" "initialized kv'" "\<forall>j. kv_row j w' = seeded j w"
      using EnsureSystemDefaults_calm[OF assms(1), of "kv1\<lparr>initialized := True\<rparr>" now] l(3) None by auto
    moreover have "seeded k w \<noteq> None" if "k \<in> fst ` set systemIntDefaults" for k
    proof -
      have "map_of systemIntDefaults k \<noteq> None" using that by (simp only: map_of_eq_None_iff) simp
      then show ?thesis by (auto simp only: seeded_def split: option.splits if_splits)
    qed
    moreover have "KV_Initialize now kv w = Some (None, kv', w')" using l(1) None s(1) by (simp add: KV_Initialize_def)
    ultimately show ?thesis using l(2) None by metis
  next
    case (Some x)
    then show ?thesis using l(1,2) by (simp add: KV_Initialize_def)
  qed
qed

theorem KV_Initialize_seeds_witness:
  "\<exists>kv' w'. KV_Initialize 5 NewKVStore (empty_world\<lparr>kvstore := [\<lparr>kv_Key = KeyLogsRetentionDays, kv_Value = ''30'', kv_UpdatedAt = 1\<rparr>]\<rparr>)
       = Some (None, kv', w') \<and> kv_row KeyLogsRetentionDays w' = Some ''30'' \<and> kv_row KeyCronDebugForceRun w' \<noteq> None"
proof -
  let ?w = "empty_world\<lparr>kvstore := [\<lparr>kv_Key = KeyLogsRetentionDays, kv_Value = ''30'', kv_UpdatedAt = 1\<rparr>]\<rparr>"
  have pre: "io_schedule ?w = []" "kv_keys_ok ?w" by (simp_all add: empty_world_def kv_keys_ok_def)
  have p: "Atoi ''30'' \<noteq> None" by code_simp
  have k: "KeyCronDebugForceRun \<in> fst ` set systemIntDefaults" by (simp add: systemIntDefaults_def)
  obtain e kv' w' where i: "KV_Initialize 5 NewKVStore ?w = Some (e, kv', w')"
    "e = None \<longleftrightarrow> (\<forall>r \<in> set (kvstore ?w). int_key (kv_Key r) \<longrightarrow> Atoi (kv_Value r) \<noteq> None)"
    "e = None \<longrightarrow> (\<forall>k. kv_row k w' = seeded k ?w) \<and> (\<forall>k \<in> fst ` set systemIntDefaults. kv_row k w' \<noteq> None)"
    using KV_Initialize_seeds[OF pre, of 5 NewKVStore] by blast
  then have "e = None" using p by simp
  moreover have "seeded KeyLogsRetentionDays ?w = Some ''30''" by (simp add: seeded_def kv_row_def)
  ultimately show ?thesis using i(1,3) k by metis
qed

text \<open>
  The handler's own check of an integer accepts texts that \<open>strconv.Atoi\<close> refuses (a lone
  minus sign, a number outside 64 bits). Such a value is stored and answered with 201, the
  cache keeps serving the old value, and the next start of the daemon fails.
\<close>

lemma customkv_value_stops_the_next_start:
  "let w = empty_world\<lparr>kvstore := [\<lparr>kv_Key = KeyLogsRetentionDays, kv_Value = ''30'', kv_UpdatedAt = 1\<rparr>]\<rparr>;
       kv = demo_kv\<lparr>intCache := [KeyLogsRetentionDays \<mapsto> 30]\<rparr>;
       r = handleSetCustomKV 7 KeyLogsRetentionDays (Some ''-'') kv w;
       w' = snd (snd r) in
   fst r = 201 \<and> map_option fst (KV_GetInt KeyLogsRetentionDays (fst (snd r)) w') = Some (Inr 30)
   \<and> (case KV_Initialize 9 NewKVStore w' of Some (Some e, _) \<Rightarrow> True | _ \<Rightarrow> False)"
  by code_simp

end
