(* ===== verification/Secrets.thy ===== *)
theory Secrets
  imports InstanceStore OffsiteStore NotificationStore
begin

text \<open>
  The start-up sweeps that converge stored secrets to the current cipher:
  \<open>internal/daemon/reencrypt.go\<close> over instance passwords and offsite keys, and
  \<open>EncryptStoredConfigs\<close> of \<open>internal/store/notifications/crypto.go\<close>. The three loops have
  one shape: skip a row that is not due, open it, seal it again, store it. What they must not
  do is lose a secret, whatever statement fails on the way.
\<close>

section \<open>The sweeps\<close>

definition add_counts :: "int \<Rightarrow> int \<Rightarrow> (int \<times> int) \<times> world \<Rightarrow> (int \<times> int) \<times> world" where
  "add_counts u f r = (case r of ((u0, f0), w) \<Rightarrow> ((u + u0, f + f0), w))"

fun reencrypt_rows ::
  "('k \<Rightarrow> string \<Rightarrow> world \<Rightarrow> goerror option \<times> world) \<Rightarrow> (string \<Rightarrow> bool) \<Rightarrow> (string \<Rightarrow> string res) \<Rightarrow> (string \<Rightarrow> string res)
     \<Rightarrow> ('k \<times> string) list \<Rightarrow> world \<Rightarrow> (int \<times> int) \<times> world" where
  "reencrypt_rows upd due dec enc [] w = ((0, 0), w)"
| "reencrypt_rows upd due dec enc ((k, stored) # rows) w =
     (if \<not> due stored then reencrypt_rows upd due dec enc rows w
      else case dec stored of
        Inl e \<Rightarrow> add_counts 0 1 (reencrypt_rows upd due dec enc rows w)
      | Inr plaintext \<Rightarrow>
          (case enc plaintext of
             Inl e \<Rightarrow> add_counts 0 1 (reencrypt_rows upd due dec enc rows w)
           | Inr reencrypted \<Rightarrow>
               (case upd k reencrypted w of
                  (Some e, w1) \<Rightarrow> add_counts 0 1 (reencrypt_rows upd due dec enc rows w1)
                | (None, w1) \<Rightarrow> add_counts 1 0 (reencrypt_rows upd due dec enc rows w1))))"

definition offsite_due :: "string \<Rightarrow> bool" where
  "offsite_due s \<longleftrightarrow> s \<noteq> ''REDACTED'' \<and> IsLegacyCiphertext s"

definition reencrypt_instances ::
  "(string \<Rightarrow> string res) \<Rightarrow> (string \<Rightarrow> string res) \<Rightarrow> gotime \<Rightarrow> world \<Rightarrow> (int \<times> int) \<times> world" where
  "reencrypt_instances dec enc now w =
     (case Instances_List w of
        (Inl e, w1) \<Rightarrow> ((0, 0), w1)
      | (Inr insts, w1) \<Rightarrow>
          reencrypt_rows (Instances_UpdatePassword now) IsLegacyCiphertext dec enc
            (map (\<lambda>i. (inst_Name i, inst_Password i)) insts) w1)"

definition reencrypt_offsite ::
  "(string \<Rightarrow> string res) \<Rightarrow> (string \<Rightarrow> string res) \<Rightarrow> world \<Rightarrow> (int \<times> int) \<times> world" where
  "reencrypt_offsite dec enc w =
     (case Offsite_ListAllSecrets w of
        (Inl e, w1) \<Rightarrow> ((0, 0), w1)
      | (Inr secrets, w1) \<Rightarrow> reencrypt_rows Offsite_UpdateSecretAccessKey offsite_due dec enc secrets w1)"

definition reencryptLegacySecrets ::
  "(string \<Rightarrow> string res) \<Rightarrow> (string \<Rightarrow> string res) \<Rightarrow> gotime \<Rightarrow> world \<Rightarrow> (int \<times> int) \<times> world" where
  "reencryptLegacySecrets dec enc now w =
     (case reencrypt_instances dec enc now w of
        ((u, f), w1) \<Rightarrow> add_counts u f (reencrypt_offsite dec enc w1))"

text \<open>The UPDATE of the configuration sweep; a vanished row is not an error there.\<close>

definition store_config :: "string \<Rightarrow> string \<Rightarrow> world \<Rightarrow> goerror option \<times> world" where
  "store_config name ciphertext w =
     (case sql_exec (update_notification name (\<lambda>n. n\<lparr>nt_Config := ciphertext\<rparr>)) w of
        (Inl e, w1) \<Rightarrow> (Some (Errorf1 (''store encrypted config of notification '' @ name @ '': '') e ''''), w1)
      | (Inr _, w1) \<Rightarrow> (None, w1))"

text \<open>
  \<open>EncryptStoredConfigs\<close>: the rows converted and the number of errors. A row is due when it
  is not sealed yet, and then is its own plaintext.
\<close>

definition EncryptStoredConfigs :: "(string \<Rightarrow> string res) \<Rightarrow> world \<Rightarrow> (int \<times> int) \<times> world" where
  "EncryptStoredConfigs enc w =
     (case sql_query (\<lambda>w. map (\<lambda>n. (nt_Name n, nt_Config n)) (order_by nt_Name (notifications w))) w of
        (Inl e, w1) \<Rightarrow> ((0, 1), w1)
      | (Inr rows, w1) \<Rightarrow>
          reencrypt_rows store_config (\<lambda>s. \<not> isEncryptedConfig s) Inr (encryptConfig enc) rows w1)"

section \<open>A sealed column\<close>

text \<open>
  What the sweeps rely on: an update of one key changes the cell of that key, and no other,
  to the new value or leaves it; it keeps the table's own invariant \<open>ok\<close>, and under it
  succeeds when the database answers.
\<close>

locale sealed_column =
  fixes cell :: "'k \<Rightarrow> world \<Rightarrow> string option"
    and upd :: "'k \<Rightarrow> string \<Rightarrow> world \<Rightarrow> goerror option \<times> world"
    and ok :: "world \<Rightarrow> bool"
  assumes upd_effect: "upd k c w = (e, w') \<Longrightarrow> cell j w' = cell j w \<or> (j = k \<and> cell k w \<noteq> None \<and> cell k w' = Some c)"
    and upd_other: "upd k c w = (e, w') \<Longrightarrow> j \<noteq> k \<Longrightarrow> cell j w' = cell j w"
    and upd_ok: "upd k c w = (e, w') \<Longrightarrow> ok w \<Longrightarrow> ok w'"
    and upd_calm: "io_schedule w = [] \<Longrightarrow> ok w \<Longrightarrow> cell k w \<noteq> None
       \<Longrightarrow> \<exists>w'. upd k c w = (None, w') \<and> io_schedule w' = [] \<and> cell k w' = Some c"
begin

definition captured :: "('k \<times> string) list \<Rightarrow> world \<Rightarrow> bool" where
  "captured rows w \<longleftrightarrow> distinct (map fst rows) \<and> (\<forall>(k, s) \<in> set rows. cell k w = Some s)"

lemma captured_tl:
  assumes "captured ((k, s) # rows) w"
  shows "captured rows w"
    and "upd k c w = (e, w') \<Longrightarrow> captured rows w'"
proof -
  show "captured rows w" using assms by (simp add: captured_def)
  assume u: "upd k c w = (e, w')"
  have "k \<noteq> j" if "(j, t) \<in> set rows" for j t
    using assms that by (force simp: captured_def)
  then show "captured rows w'" using assms upd_other[OF u] by (fastforce simp: captured_def)
qed

text \<open>Every cell that held a value holds one that reads the same.\<close>

definition reads_same :: "(string \<Rightarrow> string res) \<Rightarrow> world \<Rightarrow> world \<Rightarrow> bool" where
  "reads_same rd w w' \<longleftrightarrow> (\<forall>j s. cell j w = Some s \<longrightarrow> (\<exists>s'. cell j w' = Some s' \<and> rd s' = rd s))"

lemma reads_same_refl: "reads_same rd w w"
  by (simp add: reads_same_def)

lemma reads_same_trans: "reads_same rd a b \<Longrightarrow> reads_same rd b c \<Longrightarrow> reads_same rd a c"
  unfolding reads_same_def by metis

lemma one_row_reads_same:
  assumes "upd k c w = (e, w')" "cell k w = Some s" "rd c = rd s"
  shows "reads_same rd w w'"
  unfolding reads_same_def
proof (intro allI impI)
  fix j t assume "cell j w = Some t"
  then show "\<exists>s'. cell j w' = Some s' \<and> rd s' = rd t"
    using upd_effect[OF assms(1), of j] assms(2,3) by auto
qed

lemma reencrypt_reads_same:
  assumes "reencrypt_rows upd due dec enc rows w = (r, w')" "captured rows w"
    and "\<And>s p c. due s \<Longrightarrow> dec s = Inr p \<Longrightarrow> enc p = Inr c \<Longrightarrow> rd c = rd s"
  shows "reads_same rd w w'"
  using assms(1,2)
proof (induction rows arbitrary: w r)
  case Nil
  then show ?case by (simp add: reads_same_refl)
next
  case (Cons kr rows)
  obtain k s where kr: "kr = (k, s)" by fastforce
  have tl: "captured rows w" and now: "cell k w = Some s"
    using Cons.prems(2) captured_tl(1) by (auto simp: kr captured_def)
  show ?case
  proof (cases "due s \<and> (\<exists>p c. dec s = Inr p \<and> enc p = Inr c)")
    case False
    then obtain r1 where "reencrypt_rows upd due dec enc rows w = (r1, w')"
      using Cons.prems(1) by (auto simp: kr add_counts_def split: if_splits sum.splits prod.splits)
    then show ?thesis using Cons.IH tl by blast
  next
    case True
    then obtain p c where pc: "due s" "dec s = Inr p" "enc p = Inr c" by blast
    obtain e w1 where u: "upd k c w = (e, w1)" by fastforce
    then obtain r1 where "reencrypt_rows upd due dec enc rows w1 = (r1, w')"
      using Cons.prems(1) pc by (auto simp: kr add_counts_def split: option.splits prod.splits)
    moreover have "captured rows w1" using captured_tl(2)[OF _ u] Cons.prems(2) by (simp add: kr)
    ultimately have "reads_same rd w1 w'" using Cons.IH by blast
    moreover have "reads_same rd w w1" using one_row_reads_same[OF u now] assms(3)[OF pc] by blast
    ultimately show ?thesis using reads_same_trans by blast
  qed
qed

text \<open>With the database answering and every due row opening and sealing, none is due after.\<close>

lemma reencrypt_other:
  assumes "reencrypt_rows upd due dec enc rows w = (r, w')" "j \<notin> fst ` set rows"
  shows "cell j w' = cell j w"
  using assms
proof (induction rows arbitrary: w r)
  case (Cons kr rows)
  obtain k s where kr: "kr = (k, s)" by fastforce
  have j: "j \<noteq> k" "j \<notin> fst ` set rows" using Cons.prems(2) by (auto simp: kr)
  obtain w1 r1 where "reencrypt_rows upd due dec enc rows w1 = (r1, w')" "w1 = w \<or> (\<exists>c e. upd k c w = (e, w1))"
    using Cons.prems(1)
    by (auto simp: kr add_counts_def split: if_splits sum.splits prod.splits option.splits) blast+
  then show ?case using Cons.IH[OF _ j(2)] upd_other[OF _ j(1)] by metis
qed simp

lemma reencrypt_converges:
  assumes "reencrypt_rows upd due dec enc rows w = (r, w')" "captured rows w" "io_schedule w = []" "ok w"
    and opens: "\<And>s. due s \<Longrightarrow> s \<in> snd ` set rows \<Longrightarrow> \<exists>p c. dec s = Inr p \<and> enc p = Inr c \<and> \<not> due c"
    and "(k, s) \<in> set rows"
  shows "\<exists>s'. cell k w' = Some s' \<and> \<not> due s'"
  using assms(1-4) opens assms(6)
proof (induction rows arbitrary: w r)
  case (Cons kr rows)
  obtain k0 s0 where kr: "kr = (k0, s0)" by fastforce
  have now: "cell k0 w = Some s0" and fresh: "k0 \<notin> fst ` set rows"
    using Cons.prems(2) by (auto simp: kr captured_def)
  obtain w1 r1 where step: "reencrypt_rows upd due dec enc rows w1 = (r1, w')" "captured rows w1" "io_schedule w1 = []" "ok w1"
      "\<exists>s'. cell k0 w1 = Some s' \<and> \<not> due s'"
  proof (cases "due s0")
    case False
    then show ?thesis
      using that[of w r] Cons.prems(1-4) captured_tl(1) now by (auto simp: kr)
  next
    case True
    then obtain p c where pc: "dec s0 = Inr p" "enc p = Inr c" "\<not> due c"
      using Cons.prems(5)[OF True] by (auto simp: kr)
    obtain w1 where u: "upd k0 c w = (None, w1)" "io_schedule w1 = []" "cell k0 w1 = Some c"
      using upd_calm[OF Cons.prems(3,4), of k0 c] now by auto
    moreover obtain r1 where "reencrypt_rows upd due dec enc rows w1 = (r1, w')"
      using Cons.prems(1) True pc u(1) by (auto simp: kr add_counts_def split: prod.splits)
    moreover have "captured rows w1" using captured_tl(2)[OF _ u(1)] Cons.prems(2) by (simp add: kr)
    ultimately show ?thesis using that pc(3) upd_ok[OF u(1) Cons.prems(4)] by blast
  qed
  show ?case
  proof (cases "(k, s) = kr")
    case True
    then show ?thesis using step(5) reencrypt_other[OF step(1) fresh] by (simp add: kr)
  next
    case False
    then show ?thesis using Cons.IH[OF step(1-4)] Cons.prems(5,6) by auto
  qed
qed simp

end

section \<open>The three columns\<close>

definition keyed_cell :: "('r \<Rightarrow> 'k) \<Rightarrow> ('r \<Rightarrow> string) \<Rightarrow> 'k \<Rightarrow> 'r list \<Rightarrow> string option" where
  "keyed_cell key secret k rs = map_option secret (find (\<lambda>r. key r = k) rs)"

definition password_cell :: "string \<Rightarrow> world \<Rightarrow> string option" where
  "password_cell k w = keyed_cell inst_Name inst_Password k (rdbms_instances w)"

definition offsite_cell :: "int \<Rightarrow> world \<Rightarrow> string option" where
  "offsite_cell k w = keyed_cell off_ID off_SecretAccessKey k (offsite_settings w)"

definition config_cell :: "string \<Rightarrow> world \<Rightarrow> string option" where
  "config_cell k w = keyed_cell nt_Name nt_Config k (notifications w)"

lemmas cell_defs = password_cell_def offsite_cell_def config_cell_def

lemma keyed_cell_upd:
  assumes "\<And>r. key (f r) = key r" "\<And>r. secret (f r) = c"
  shows "keyed_cell key secret j (upd_where (\<lambda>r. key r = k) f rs)
     = (if j = k \<and> keyed_cell key secret k rs \<noteq> None then Some c else keyed_cell key secret j rs)"
  by (cases "find (\<lambda>r. key r = j) rs") (auto simp: keyed_cell_def find_upd_where[where key = key, OF assms(1)] assms(2))

lemma cells_io:
  assumes "same_but_io w w'"
  shows "password_cell k w' = password_cell k w" "offsite_cell n w' = offsite_cell n w" "config_cell k w' = config_cell k w"
  using same_but_io_fields[OF assms] by (simp_all add: cell_defs)

text \<open>An update statement either has no effect or sets its cell.\<close>

abbreviation set_cell :: "'k \<Rightarrow> string \<Rightarrow> ('k \<Rightarrow> string option) \<Rightarrow> 'k \<Rightarrow> string option" where
  "set_cell k c m \<equiv> (\<lambda>j. if j = k \<and> m k \<noteq> None then Some c else m j)"

lemma sealed_update:
  assumes "sql_exec st w = (r, w')"
    and io: "\<And>v v' j. same_but_io v v' \<Longrightarrow> cell j v' = cell j v"
    and eff: "\<And>v v' n j. st v = Inr (v', n) \<Longrightarrow> cell j v' = set_cell k c (\<lambda>j. cell j v) j"
  shows "cell j w' = cell j w \<or> (j = k \<and> cell k w \<noteq> None \<and> cell k w' = Some c)"
  using assms(1)
proof (cases rule: sql_exec_cases)
  case none
  then show ?thesis using io by blast
next
  case (applied w1 n)
  then show ?thesis using io[of w w1] eff[of w1 w' n] by auto
qed

lemma UpdatePassword_effect:
  assumes "Instances_UpdatePassword now k c w = (e, w')"
  shows "password_cell j w' = password_cell j w \<or> (j = k \<and> password_cell k w \<noteq> None \<and> password_cell k w' = Some c)"
proof -
  obtain r where "sql_exec (update_stmt k (\<lambda>i. i\<lparr>inst_Password := c, inst_UpdatedAt := now\<rparr>)) w = (r, w')"
    using assms by (auto simp: Instances_UpdatePassword_def update_instance_def split: prod.splits sum.splits if_splits)
  then show ?thesis
    by (rule sealed_update)
       (auto simp: same_but_io_fields update_stmt_def Let_def password_cell_def keyed_cell_upd split: if_splits)
qed

lemma UpdateSecretAccessKey_effect:
  assumes "Offsite_UpdateSecretAccessKey k c w = (e, w')"
  shows "offsite_cell j w' = offsite_cell j w \<or> (j = k \<and> offsite_cell k w \<noteq> None \<and> offsite_cell k w' = Some c)"
proof -
  obtain r where "sql_exec (\<lambda>w. Inr (w\<lparr>offsite_settings :=
              upd_where (\<lambda>s. off_ID s = k) (\<lambda>s. s\<lparr>off_SecretAccessKey := c\<rparr>)
                (offsite_settings w)\<rparr>, count_where (\<lambda>s. off_ID s = k) (offsite_settings w))) w = (r, w')"
    using assms by (auto simp: Offsite_UpdateSecretAccessKey_def split: prod.splits sum.splits if_splits)
  then show ?thesis
    by (rule sealed_update) (auto simp: same_but_io_fields offsite_cell_def keyed_cell_upd)
qed

lemma store_config_effect:
  assumes "store_config k c w = (e, w')"
  shows "config_cell j w' = config_cell j w \<or> (j = k \<and> config_cell k w \<noteq> None \<and> config_cell k w' = Some c)"
proof -
  obtain r where "sql_exec (update_notification k (\<lambda>n. n\<lparr>nt_Config := c\<rparr>)) w = (r, w')"
    using assms by (auto simp: store_config_def split: prod.splits sum.splits)
  then show ?thesis
    by (rule sealed_update) (auto simp: same_but_io_fields update_notification_def config_cell_def keyed_cell_upd)
qed

definition statuses_ok :: "world \<Rightarrow> bool" where
  "statuses_ok w \<longleftrightarrow> (\<forall>i \<in> set (rdbms_instances w). inst_Status i \<in> set AllStatuses)"

lemma UpdatePassword_ok:
  assumes "Instances_UpdatePassword now k c w = (e, w')" "statuses_ok w"
  shows "statuses_ok w'"
proof -
  obtain r where "sql_exec (update_stmt k (\<lambda>i. i\<lparr>inst_Password := c, inst_UpdatedAt := now\<rparr>)) w = (r, w')"
    using assms by (auto simp: Instances_UpdatePassword_def update_instance_def split: prod.splits sum.splits if_splits)
  then show ?thesis
  proof (cases rule: sql_exec_cases)
    case none
    then show ?thesis using assms(2) by (simp add: statuses_ok_def same_but_io_fields)
  next
    case (applied w1 n)
    then show ?thesis
      using assms(2) same_but_io_fields(1)[OF applied(1)]
      by (auto simp: statuses_ok_def update_stmt_def Let_def upd_where_def split: if_splits)
  qed
qed

lemma keyed_cell_count: "keyed_cell key secret k rs \<noteq> None \<Longrightarrow> count_where (\<lambda>r. key r = k) rs \<noteq> 0"
  by (auto simp: keyed_cell_def count_where_zero)

lemma UpdatePassword_calm:
  assumes "io_schedule w = []" "statuses_ok w" "password_cell k w \<noteq> None"
  shows "\<exists>w'. Instances_UpdatePassword now k c w = (None, w') \<and> io_schedule w' = [] \<and> password_cell k w' = Some c"
  using assms keyed_cell_count[of inst_Name inst_Password k "rdbms_instances w"]
  by (simp add: Instances_UpdatePassword_def update_instance_def calm_primitives update_stmt_def Let_def
      statuses_ok_def password_cell_def keyed_cell_upd)

lemma UpdateSecretAccessKey_calm:
  assumes "io_schedule w = []" "offsite_cell k w \<noteq> None"
  shows "\<exists>w'. Offsite_UpdateSecretAccessKey k c w = (None, w') \<and> io_schedule w' = [] \<and> offsite_cell k w' = Some c"
  using assms keyed_cell_count[of off_ID off_SecretAccessKey k "offsite_settings w"]
  by (simp add: Offsite_UpdateSecretAccessKey_def calm_primitives offsite_cell_def keyed_cell_upd)

lemma store_config_calm:
  assumes "io_schedule w = []" "config_cell k w \<noteq> None"
  shows "\<exists>w'. store_config k c w = (None, w') \<and> io_schedule w' = [] \<and> config_cell k w' = Some c"
  using assms
  by (simp add: store_config_def update_notification_def calm_primitives config_cell_def keyed_cell_upd)

interpretation pw: sealed_column password_cell "Instances_UpdatePassword now" statuses_ok for now
  by unfold_locales (use UpdatePassword_effect UpdatePassword_ok UpdatePassword_calm in blast)+

interpretation osk: sealed_column offsite_cell Offsite_UpdateSecretAccessKey "\<lambda>w. True"
  by unfold_locales (use UpdateSecretAccessKey_effect UpdateSecretAccessKey_calm in blast)+

interpretation ncfg: sealed_column config_cell store_config "\<lambda>w. True"
  by unfold_locales (use store_config_effect store_config_calm in blast)+

section \<open>The whole sweep\<close>

lemma reencrypt_keeps:
  assumes "reencrypt_rows upd due dec enc rows w = (r, w')" "P w"
    and "\<And>k c v e v'. upd k c v = (e, v') \<Longrightarrow> P v \<Longrightarrow> P v'"
  shows "P w'"
  using assms(1,2)
proof (induction rows arbitrary: w r)
  case (Cons kr rows)
  obtain k s where kr: "kr = (k, s)" by fastforce
  obtain w1 r1 where "reencrypt_rows upd due dec enc rows w1 = (r1, w')" "w1 = w \<or> (\<exists>c e. upd k c w = (e, w1))"
    using Cons.prems(1)
    by (auto simp: kr add_counts_def split: if_splits sum.splits prod.splits option.splits) blast+
  then show ?case using Cons.IH Cons.prems(2) assms(3) by metis
qed simp

lemma exec_calm_stays:
  assumes "sql_exec st w = (r, w')" "io_schedule w = []" "\<And>v v' n. st v = Inr (v', n) \<Longrightarrow> io_schedule v' = io_schedule v"
  shows "io_schedule w' = []"
  using assms by (auto simp: calm_primitives split: sum.splits prod.splits)

text \<open>The tables each update leaves alone.\<close>

lemma UpdatePassword_frame:
  assumes "Instances_UpdatePassword now k c w = (e, w')"
  shows "offsite_settings w' = offsite_settings w" "notifications w' = notifications w"
    "map inst_Name (rdbms_instances w') = map inst_Name (rdbms_instances w)"
    "io_schedule w = [] \<Longrightarrow> io_schedule w' = []"
proof -
  obtain r where x: "sql_exec (update_stmt k (\<lambda>i. i\<lparr>inst_Password := c, inst_UpdatedAt := now\<rparr>)) w = (r, w')"
    using assms by (auto simp: Instances_UpdatePassword_def update_instance_def split: prod.splits sum.splits if_splits)
  from x have "offsite_settings w' = offsite_settings w \<and> notifications w' = notifications w
      \<and> map inst_Name (rdbms_instances w') = map inst_Name (rdbms_instances w)"
    by (cases rule: sql_exec_cases)
       (auto simp: same_but_io_fields update_stmt_def Let_def upd_where_def split: if_splits)
  then show "offsite_settings w' = offsite_settings w" "notifications w' = notifications w"
    "map inst_Name (rdbms_instances w') = map inst_Name (rdbms_instances w)" by blast+
  show "io_schedule w = [] \<Longrightarrow> io_schedule w' = []"
    by (rule exec_calm_stays[OF x]) (auto simp: update_stmt_def Let_def split: if_splits)
qed

lemma UpdateSecretAccessKey_frame:
  assumes "Offsite_UpdateSecretAccessKey k c w = (e, w')"
  shows "rdbms_instances w' = rdbms_instances w" "notifications w' = notifications w"
    "io_schedule w = [] \<Longrightarrow> io_schedule w' = []"
proof -
  obtain r where x: "sql_exec (\<lambda>w. Inr (w\<lparr>offsite_settings :=
              upd_where (\<lambda>s. off_ID s = k) (\<lambda>s. s\<lparr>off_SecretAccessKey := c\<rparr>)
                (offsite_settings w)\<rparr>, count_where (\<lambda>s. off_ID s = k) (offsite_settings w))) w = (r, w')"
    using assms by (auto simp: Offsite_UpdateSecretAccessKey_def split: prod.splits sum.splits if_splits)
  from x show "rdbms_instances w' = rdbms_instances w" "notifications w' = notifications w"
    by (cases rule: sql_exec_cases; auto simp: same_but_io_fields)+
  show "io_schedule w = [] \<Longrightarrow> io_schedule w' = []" by (rule exec_calm_stays[OF x]) auto
qed

lemma store_config_frame:
  assumes "store_config k c w = (e, w')"
  shows "rdbms_instances w' = rdbms_instances w" "offsite_settings w' = offsite_settings w"
proof -
  obtain r where "sql_exec (update_notification k (\<lambda>n. n\<lparr>nt_Config := c\<rparr>)) w = (r, w')"
    using assms by (auto simp: store_config_def split: prod.splits sum.splits)
  then show "rdbms_instances w' = rdbms_instances w" "offsite_settings w' = offsite_settings w"
    by (cases rule: sql_exec_cases; auto simp: same_but_io_fields update_notification_def)+
qed

lemma keyed_cell_row:
  assumes "distinct (map key rs)" "r \<in> set rs"
  shows "keyed_cell key secret (key r) rs = Some (secret r)"
proof -
  have "find (\<lambda>x. key x = key r) rs = Some r"
    using assms by (induction rs) auto
  then show ?thesis by (simp add: keyed_cell_def)
qed

lemma keyed_cell_rows:
  assumes "distinct (map key rs)" "set xs \<subseteq> set rs" "distinct (map key xs)"
  shows "distinct (map fst (map (\<lambda>r. (key r, secret r)) xs))"
    "\<forall>(k, s) \<in> set (map (\<lambda>r. (key r, secret r)) xs). keyed_cell key secret k rs = Some s"
  using assms keyed_cell_row[OF assms(1)] by (auto simp: comp_def)

text \<open>
  How a column reads under the master key: a sealed value opens with the token library, any
  other with the legacy cipher, and a configuration that is not sealed is itself.
\<close>

abbreviation opened :: "(string \<Rightarrow> string \<Rightarrow> string res) \<Rightarrow> (string \<Rightarrow> string \<Rightarrow> string \<Rightarrow> string res) \<Rightarrow> string \<Rightarrow> string \<Rightarrow> string res" where
  "opened decrypt3ncr gcm_open key s \<equiv> DecryptPassword decrypt3ncr gcm_open s key"

definition config_text :: "(string \<Rightarrow> string res) \<Rightarrow> string \<Rightarrow> string res" where
  "config_text dec s = (if isEncryptedConfig s then dec s else Inr s)"

lemma decryptConfig_text:
  "decryptConfig dec n s = (case config_text dec s of
      Inl e \<Rightarrow> Inl (Errorf2 (''decrypt config of notification '' @ n @ '': '') (Sentinel ErrConfigUndecryptable) '': '' e '''')
    | Inr p \<Rightarrow> Inr p)"
  by (auto simp: decryptConfig_def config_text_def split: sum.splits)

lemma reencrypt_instances_reads:
  assumes "reencrypt_instances dec enc now w = (n, w')" "distinct (map inst_Name (rdbms_instances w))"
    and law: "\<forall>s p c. IsLegacyCiphertext s \<and> dec s = Inr p \<and> enc p = Inr c \<longrightarrow> rd c = rd s"
  shows "pw.reads_same rd w w'" "offsite_settings w' = offsite_settings w" "notifications w' = notifications w"
    "io_schedule w = [] \<Longrightarrow> io_schedule w' = []"
proof -
  obtain r w1 where l: "Instances_List w = (r, w1)" by fastforce
  then have io: "same_but_io w w1" by (auto simp: Instances_List_def intro: sql_query_same split: prod.splits sum.splits)
  have calm: "io_schedule w = [] \<Longrightarrow> io_schedule w1 = []"
    using l by (auto simp: Instances_List_def calm_primitives)
  have "pw.reads_same rd w w' \<and> offsite_settings w' = offsite_settings w \<and> notifications w' = notifications w
      \<and> (io_schedule w = [] \<longrightarrow> io_schedule w' = [])"
  proof (cases r)
    case (Inl e)
    then show ?thesis using assms(1) l io calm same_but_io_fields[OF io]
      by (auto simp: reencrypt_instances_def pw.reads_same_def cells_io)
  next
    case (Inr insts)
    then have rows: "insts = rdbms_instances w1"
      using l by (auto simp: Instances_List_def sql_query_def split: prod.splits sum.splits if_splits)
    have run: "reencrypt_rows (Instances_UpdatePassword now) IsLegacyCiphertext dec enc
        (map (\<lambda>i. (inst_Name i, inst_Password i)) insts) w1 = (n, w')"
      using assms(1) l Inr by (simp add: reencrypt_instances_def)
    have "pw.captured (map (\<lambda>i. (inst_Name i, inst_Password i)) insts) w1"
      using keyed_cell_rows[of inst_Name insts insts inst_Password] assms(2) same_but_io_fields(1)[OF io] rows
      by (simp add: pw.captured_def password_cell_def)
    from pw.reencrypt_reads_same[OF run this] have "pw.reads_same rd w1 w'" using law by blast
    then have 1: "pw.reads_same rd w w'" by (simp add: pw.reads_same_def cells_io[OF io])
    have "offsite_settings w' = offsite_settings w1 \<and> notifications w' = notifications w1
        \<and> (io_schedule w1 = [] \<longrightarrow> io_schedule w' = [])"
      using run by (rule reencrypt_keeps[where P = "\<lambda>v. offsite_settings v = offsite_settings w1 \<and> notifications v = notifications w1
        \<and> (io_schedule w1 = [] \<longrightarrow> io_schedule v = [])"]) (auto simp: UpdatePassword_frame)
    then show ?thesis using 1 calm same_but_io_fields[OF io] by simp
  qed
  then show "pw.reads_same rd w w'" "offsite_settings w' = offsite_settings w" "notifications w' = notifications w"
    "io_schedule w = [] \<Longrightarrow> io_schedule w' = []" by blast+
qed

lemma reencrypt_offsite_reads:
  assumes "reencrypt_offsite dec enc w = (n, w')" "distinct (map off_ID (offsite_settings w))"
    and law: "\<forall>s p c. IsLegacyCiphertext s \<and> dec s = Inr p \<and> enc p = Inr c \<longrightarrow> rd c = rd s"
  shows "osk.reads_same rd w w'" "rdbms_instances w' = rdbms_instances w" "notifications w' = notifications w"
    "io_schedule w = [] \<Longrightarrow> io_schedule w' = []"
proof -
  obtain r w1 where l: "Offsite_ListAllSecrets w = (r, w1)" by fastforce
  then have io: "same_but_io w w1" by (auto simp: Offsite_ListAllSecrets_def intro: sql_query_same split: prod.splits sum.splits)
  have calm: "io_schedule w = [] \<Longrightarrow> io_schedule w1 = []"
    using l by (auto simp: Offsite_ListAllSecrets_def calm_primitives)
  have "osk.reads_same rd w w' \<and> rdbms_instances w' = rdbms_instances w \<and> notifications w' = notifications w
      \<and> (io_schedule w = [] \<longrightarrow> io_schedule w' = [])"
  proof (cases r)
    case (Inl e)
    then show ?thesis using assms(1) l io calm same_but_io_fields[OF io]
      by (auto simp: reencrypt_offsite_def osk.reads_same_def cells_io)
  next
    case (Inr rows)
    then have rows: "rows = map (\<lambda>s. (off_ID s, off_SecretAccessKey s)) (offsite_settings w1)"
      using l by (auto simp: Offsite_ListAllSecrets_def sql_query_def split: prod.splits sum.splits if_splits)
    have run: "reencrypt_rows Offsite_UpdateSecretAccessKey offsite_due dec enc rows w1 = (n, w')"
      using assms(1) l Inr by (simp add: reencrypt_offsite_def)
    have "osk.captured rows w1"
      using keyed_cell_rows[of off_ID "offsite_settings w1" "offsite_settings w1" off_SecretAccessKey] assms(2)
        same_but_io_fields[OF io] rows
      by (simp add: osk.captured_def offsite_cell_def)
    from osk.reencrypt_reads_same[OF run this] have "osk.reads_same rd w1 w'"
      using law by (auto simp: offsite_due_def)
    then have 1: "osk.reads_same rd w w'" by (simp add: osk.reads_same_def cells_io[OF io])
    have "rdbms_instances w' = rdbms_instances w1 \<and> notifications w' = notifications w1
        \<and> (io_schedule w1 = [] \<longrightarrow> io_schedule w' = [])"
      using run by (rule reencrypt_keeps[where P = "\<lambda>v. rdbms_instances v = rdbms_instances w1 \<and> notifications v = notifications w1
        \<and> (io_schedule w1 = [] \<longrightarrow> io_schedule v = [])"]) (auto simp: UpdateSecretAccessKey_frame)
    then show ?thesis using 1 calm same_but_io_fields[OF io] by simp
  qed
  then show "osk.reads_same rd w w'" "rdbms_instances w' = rdbms_instances w" "notifications w' = notifications w"
    "io_schedule w = [] \<Longrightarrow> io_schedule w' = []" by blast+
qed

lemma distinct_insert_by: "distinct (map k (insert_by k p qs)) = (k p \<notin> k ` set qs \<and> distinct (map k qs))"
  by (induction qs) auto

lemma distinct_order_by: "distinct (map k (order_by k ps)) = distinct (map k ps)"
proof (induction ps)
  case (Cons p ps)
  have "order_by k (p # ps) = insert_by k p (order_by k ps)" by (simp add: order_by_def)
  then show ?case using Cons by (simp add: distinct_insert_by)
qed (simp add: order_by_def)

lemma EncryptStoredConfigs_reads:
  assumes "EncryptStoredConfigs enc w = (n, w')" "distinct (map nt_Name (notifications w))"
    and seal: "\<forall>p c. enc p = Inr c \<longrightarrow> isEncryptedConfig c \<and> dec c = Inr p"
  shows "ncfg.reads_same (config_text dec) w w'" "rdbms_instances w' = rdbms_instances w"
    "offsite_settings w' = offsite_settings w"
    "io_schedule w = [] \<Longrightarrow> \<forall>p. \<exists>c. enc p = Inr c \<Longrightarrow> config_cell k w' = Some s \<Longrightarrow> isEncryptedConfig s"
proof -
  let ?rows = "\<lambda>v. map (\<lambda>n. (nt_Name n, nt_Config n)) (order_by nt_Name (notifications v))"
  obtain r w1 where l: "sql_query ?rows w = (r, w1)" by fastforce
  then have io: "same_but_io w w1" by (rule sql_query_same)
  have seal': "config_text dec c = config_text dec p" if "encryptConfig enc p = Inr c" "\<not> isEncryptedConfig p" for p c
    using that seal by (auto simp: encryptConfig_def config_text_def split: sum.splits)
  have "ncfg.reads_same (config_text dec) w w' \<and> rdbms_instances w' = rdbms_instances w
      \<and> offsite_settings w' = offsite_settings w
      \<and> (io_schedule w = [] \<and> (\<forall>p. \<exists>c. enc p = Inr c) \<and> config_cell k w' = Some s \<longrightarrow> isEncryptedConfig s)"
  proof (cases r)
    case (Inl e)
    then have "io_schedule w \<noteq> []" using l by (auto simp: calm_primitives)
    moreover have "w' = w1" using Inl assms(1) l by (simp add: EncryptStoredConfigs_def)
    ultimately show ?thesis using same_but_io_fields[OF io] by (simp add: ncfg.reads_same_def cells_io[OF io])
  next
    case (Inr rows)
    then have rows: "rows = ?rows w1" using l by (auto simp: sql_query_def split: prod.splits if_splits)
    have run: "reencrypt_rows store_config (\<lambda>s. \<not> isEncryptedConfig s) Inr (encryptConfig enc) rows w1 = (n, w')"
      using assms(1) l Inr by (simp add: EncryptStoredConfigs_def)
    have cap: "ncfg.captured rows w1"
      using keyed_cell_rows[of nt_Name "notifications w1" "order_by nt_Name (notifications w1)" nt_Config] assms(2)
        same_but_io_fields[OF io] rows
      by (simp add: ncfg.captured_def config_cell_def distinct_order_by)
    have "ncfg.reads_same (config_text dec) w1 w'"
      using seal' by (intro ncfg.reencrypt_reads_same[OF run cap]) auto
    then have 1: "ncfg.reads_same (config_text dec) w w'" by (simp add: ncfg.reads_same_def cells_io[OF io])
    have 2: "rdbms_instances w' = rdbms_instances w1 \<and> offsite_settings w' = offsite_settings w1"
      using run by (rule reencrypt_keeps[where P = "\<lambda>v. rdbms_instances v = rdbms_instances w1
        \<and> offsite_settings v = offsite_settings w1"]) (auto simp: store_config_frame)
    have 3: "isEncryptedConfig s" if sch: "io_schedule w = []" and en: "\<forall>p. \<exists>c. enc p = Inr c" and cl: "config_cell k w' = Some s"
    proof (cases "k \<in> fst ` set rows")
      case True
      then obtain t where mem: "(k, t) \<in> set rows" by auto
      have sch1: "io_schedule w1 = []" using l sch by (simp add: calm_primitives)
      have seals: "\<exists>p c. Inr t = Inr p \<and> encryptConfig enc p = Inr c \<and> \<not> \<not> isEncryptedConfig c" for t :: string
      proof -
        obtain c where "enc t = Inr c" using en by blast
        then show ?thesis using seal by (auto simp: encryptConfig_def)
      qed
      have "\<exists>s'. config_cell k w' = Some s' \<and> \<not> \<not> isEncryptedConfig s'"
        by (rule ncfg.reencrypt_converges[OF run cap sch1 TrueI seals mem])
      then show ?thesis using cl by auto
    next
      case False
      from ncfg.reencrypt_other[OF run this] have "config_cell k w1 = Some s" using cl by simp
      then obtain m where "m \<in> set (notifications w1)" "nt_Name m = k"
        by (auto simp: config_cell_def keyed_cell_def dest: find_Some_in)
      then have "k \<in> fst ` set rows" by (force simp: rows)
      with False show ?thesis by blast
    qed
    show ?thesis using 1 2 3 same_but_io_fields[OF io] by simp
  qed
  then show "ncfg.reads_same (config_text dec) w w'" "rdbms_instances w' = rdbms_instances w"
    "offsite_settings w' = offsite_settings w"
    "io_schedule w = [] \<Longrightarrow> \<forall>p. \<exists>c. enc p = Inr c \<Longrightarrow> config_cell k w' = Some s \<Longrightarrow> isEncryptedConfig s"
    by blast+
qed

text \<open>
  C31. No secret is lost at start-up. Given a token library that opens what it sealed, the two
  sweeps leave every instance password, offsite key and notification configuration reading,
  under the same master key, exactly as before: under every schedule of failed statements,
  with any cipher failures, and whether or not the key opens the old values. When the
  database answers and sealing works, no notification configuration is left in cleartext.
\<close>

theorem secrets_survive_sweep:
  assumes token: "\<And>p c. encrypt3ncr key p = Inr c \<Longrightarrow> HasPrefix c ThreeNcrPrefix \<and> decrypt3ncr key c = Inr p"
    and keys: "distinct (map inst_Name (rdbms_instances w))" "distinct (map off_ID (offsite_settings w))"
      "distinct (map nt_Name (notifications w))"
    and first: "reencryptLegacySecrets (opened decrypt3ncr gcm_open key) (\<lambda>p. EncryptPassword encrypt3ncr p key) now w = (n, w1)"
    and second: "EncryptStoredConfigs (\<lambda>p. EncryptPassword encrypt3ncr p key) w1 = (m, w2)"
  shows "(\<forall>i s. password_cell i w = Some s \<longrightarrow>
            (\<exists>s'. password_cell i w2 = Some s' \<and> opened decrypt3ncr gcm_open key s' = opened decrypt3ncr gcm_open key s))
     \<and> (\<forall>i s. offsite_cell i w = Some s \<longrightarrow>
            (\<exists>s'. offsite_cell i w2 = Some s' \<and> opened decrypt3ncr gcm_open key s' = opened decrypt3ncr gcm_open key s))
     \<and> (\<forall>i s. config_cell i w = Some s \<longrightarrow>
            (\<exists>s'. config_cell i w2 = Some s'
               \<and> decryptConfig (opened decrypt3ncr gcm_open key) i s' = decryptConfig (opened decrypt3ncr gcm_open key) i s))
     \<and> (io_schedule w = [] \<and> length key = 32 \<and> (\<forall>p. \<exists>c. encrypt3ncr key p = Inr c) \<longrightarrow>
          (\<forall>i s. config_cell i w2 = Some s \<longrightarrow> isEncryptedConfig s))"
proof -
  let ?dec = "opened decrypt3ncr gcm_open key"
  let ?enc = "\<lambda>p. EncryptPassword encrypt3ncr p key"
  have seal: "\<forall>p c. ?enc p = Inr c \<longrightarrow> isEncryptedConfig c \<and> ?dec c = Inr p"
    using token by (auto simp: EncryptPassword_def DecryptPassword_def isEncryptedConfig_def split: sum.splits)
  have same: "\<forall>s p c. IsLegacyCiphertext s \<and> ?dec s = Inr p \<and> ?enc p = Inr c \<longrightarrow> ?dec c = ?dec s"
    using seal by simp
  obtain n1 wa n2 where a: "reencrypt_instances ?dec ?enc now w = (n1, wa)" "reencrypt_offsite ?dec ?enc wa = (n2, w1)"
    using first by (auto simp: reencryptLegacySecrets_def add_counts_def split: prod.splits)
  note i = reencrypt_instances_reads[OF a(1) keys(1), where rd = ?dec, OF same]
  have off: "distinct (map off_ID (offsite_settings wa))" using keys(2) i(2) by simp
  note o = reencrypt_offsite_reads[OF a(2) off, where rd = ?dec, OF same]
  have nt: "distinct (map nt_Name (notifications w1))" using keys(3) i(3) o(3) by simp
  note c = EncryptStoredConfigs_reads[OF second nt, where dec = ?dec, OF seal]
  have pw: "password_cell j w2 = password_cell j wa" for j using c(2) o(2) by (simp add: password_cell_def)
  have os: "offsite_cell j w2 = offsite_cell j w1" "offsite_cell j wa = offsite_cell j w" for j
    using c(3) i(2) by (simp_all add: offsite_cell_def)
  have cf: "config_cell j w1 = config_cell j w" for j using i(3) o(3) by (simp add: config_cell_def)
  have "\<exists>c. ?enc p = Inr c" if "length key = 32" "\<forall>p. \<exists>c. encrypt3ncr key p = Inr c" for p
    using that(1) spec[OF that(2), of p] by (auto simp: EncryptPassword_def newTokenCrypt_def)
  then have sealed: "isEncryptedConfig s" if "io_schedule w = []" "length key = 32"
      "\<forall>p. \<exists>c. encrypt3ncr key p = Inr c" "config_cell j w2 = Some s" for j s
    using c(4)[OF o(4)[OF i(4)[OF that(1)]] _ that(4)] that(2,3) by blast
  have conf: "\<exists>s'. config_cell j w2 = Some s' \<and> decryptConfig ?dec j s' = decryptConfig ?dec j s"
    if held: "config_cell j w = Some s" for j s
  proof -
    have "config_cell j w1 = Some s" using held cf by simp
    from c(1)[unfolded ncfg.reads_same_def, rule_format, OF this]
    show ?thesis by (auto simp: decryptConfig_text)
  qed
  have "\<forall>j s. password_cell j w = Some s \<longrightarrow> (\<exists>s'. password_cell j w2 = Some s' \<and> ?dec s' = ?dec s)"
    using i(1) unfolding pw.reads_same_def pw .
  moreover have "\<forall>j s. offsite_cell j w = Some s \<longrightarrow> (\<exists>s'. offsite_cell j w2 = Some s' \<and> ?dec s' = ?dec s)"
    using o(1) unfolding osk.reads_same_def os .
  ultimately show ?thesis using conf sealed by simp
qed

theorem secrets_survive_sweep_witness:
  "\<exists>s. config_cell ''ops'' (snd (EncryptStoredConfigs (\<lambda>p. EncryptPassword (\<lambda>k p. Inr (ThreeNcrPrefix @ p)) p (replicate 32 (CHR ''k'')))
       (empty_world\<lparr>notifications := [\<lparr>nt_Name = ''ops'', nt_Type = ''slack'', nt_Config = ''{}'', nt_CreatedAt = 1, nt_UpdatedAt = 1\<rparr>]\<rparr>)))
     = Some s \<and> isEncryptedConfig s"
proof -
  define e where "e = (\<lambda>(k :: string) p. Inr (ThreeNcrPrefix @ p) :: string res)"
  define d where "d = (\<lambda>(k :: string) c. Inr (drop 11 c) :: string res)"
  define key where "key = replicate 32 (CHR ''k'')"
  define w where "w = empty_world\<lparr>notifications := [\<lparr>nt_Name = ''ops'', nt_Type = ''slack'', nt_Config = ''{}'', nt_CreatedAt = 1, nt_UpdatedAt = 1\<rparr>]\<rparr>"
  have law: "\<And>p c. e key p = Inr c \<Longrightarrow> HasPrefix c ThreeNcrPrefix \<and> d key c = Inr p"
    by (auto simp: e_def d_def HasPrefix_def)
  have keys: "distinct (map inst_Name (rdbms_instances w))" "distinct (map off_ID (offsite_settings w))"
    "distinct (map nt_Name (notifications w))" by (simp_all add: w_def empty_world_def)
  have io: "io_schedule w = []" "rdbms_instances w = []" "offsite_settings w = []" by (simp_all add: w_def empty_world_def)
  have run: "reencryptLegacySecrets (opened d (\<lambda>k n c. Inr c) key) (\<lambda>p. EncryptPassword e p key) 5 w = ((0, 0), w)"
    by (simp add: reencryptLegacySecrets_def reencrypt_instances_def reencrypt_offsite_def Instances_List_def
        Offsite_ListAllSecrets_def calm_primitives io add_counts_def)
  have kl: "length key = 32" and tot: "\<forall>p. \<exists>c. e key p = Inr c" by (simp_all add: key_def e_def)
  from secrets_survive_sweep[OF law keys run surjective_pairing]
  have "\<forall>i s. config_cell i w = Some s \<longrightarrow> (\<exists>s'. config_cell i (snd (EncryptStoredConfigs (\<lambda>p. EncryptPassword e p key) w)) = Some s')"
    and "\<forall>i s. config_cell i (snd (EncryptStoredConfigs (\<lambda>p. EncryptPassword e p key) w)) = Some s \<longrightarrow> isEncryptedConfig s"
    using io kl tot by blast+
  moreover have "config_cell ''ops'' w = Some ''{}''" by (simp add: w_def config_cell_def keyed_cell_def)
  ultimately show ?thesis unfolding e_def key_def w_def by blast
qed

end
