(* ===== verification/Scheduler.thy ===== *)
theory Scheduler
  imports Complex_Main BackupCron KVStore Secrets
begin

text \<open>
  The daemon's clockwork: \<open>internal/daemon/cron_scheduler.go\<close> (which plans are due on a
  tick), \<open>internal/daemon/cron_tasks.go\<close> (the queue that runs them one after the other),
  \<open>internal/daemon/log_retention.go\<close>, and the daily sweep of the downloads area in
  \<open>internal/operations/snapshot_fetch.go\<close>.

  \<^item> \<open>rng.Float64()\<close> is an argument: \<open>roll name\<close> is what the die shows for that task on this
    tick, a number in [0, 1). The literals 0.05 and 0.10 are compared as the rationals they
    denote: no double lies between such a rational and the double nearest to it.
  \<^item> The clock is read once per tick.
  \<^item> The kv store's calls can panic (\<open>None\<close>) when it is not initialised.
\<close>

section \<open>Plans\<close>

definition Plan_IsPaused :: "Plan \<Rightarrow> bool" where
  "Plan_IsPaused p = (\<not> IsZero (plan_PausedAt p))"

definition RunsAtHour :: "Plan \<Rightarrow> int \<Rightarrow> bool" where
  "RunsAtHour p hour =
     (let interval = (if plan_IntervalHours p \<le> 0 then 24 else plan_IntervalHours p);
          delta = go_rem (go_rem (hour - plan_UTCHour p) interval + interval) interval
      in delta = 0)"

definition snapshotSlotStart :: "gotime \<Rightarrow> gotime" where
  "snapshotSlotStart now = now div ns_hour * ns_hour"

definition snapshotRunProbability :: "int \<Rightarrow> bool \<Rightarrow> rat" where
  "snapshotRunProbability currentMinute forceRun =
     (if forceRun then 1
      else if 1 \<le> currentMinute \<and> currentMinute \<le> 9 then 5 / 100
      else if 10 \<le> currentMinute \<and> currentMinute \<le> 20 then 10 / 100
      else if currentMinute > 30 then 1
      else 0)"

section \<open>The task queue\<close>

record CronTaskTracker =
  currentTask :: string
  pendingTasks :: "string list"

definition NewCronTaskTracker :: CronTaskTracker where
  "NewCronTaskTracker = \<lparr>currentTask = '''', pendingTasks = []\<rparr>"

definition RunTask :: "string \<Rightarrow> CronTaskTracker \<Rightarrow> bool \<times> CronTaskTracker" where
  "RunTask instanceName t =
     (if currentTask t = instanceName then (False, t)
      else if instanceName \<in> set (pendingTasks t) then (False, t)
      else if currentTask t = '''' then (True, t\<lparr>currentTask := instanceName\<rparr>)
      else (True, t\<lparr>pendingTasks := pendingTasks t @ [instanceName]\<rparr>))"

text \<open>The critical section after a task has run.\<close>

definition task_finished :: "CronTaskTracker \<Rightarrow> CronTaskTracker" where
  "task_finished t =
     (case pendingTasks t of
        [] \<Rightarrow> t\<lparr>currentTask := ''''\<rparr>
      | nextTask # rest \<Rightarrow> t\<lparr>currentTask := nextTask, pendingTasks := rest\<rparr>)"

datatype cron_op = SnapshotCronTaskOp | CronTaskOp string

definition op_for :: "string \<Rightarrow> cron_op" where
  "op_for instanceName = (if instanceName = SnapshotCronInstance then SnapshotCronTaskOp else CronTaskOp instanceName)"

text \<open>
  \<open>executeTask\<close>: the goroutine that \<open>RunTask\<close> starts. \<open>execute\<close> is the executor's run of the
  operation; its error is only logged. The mutex is free while the operation runs, so other
  goroutines call \<open>RunTask\<close> in the meantime: \<open>arrivals\<close> lists, for the first, second, ... task this
  worker runs, the names submitted from the moment the task became the current one until the
  worker takes the mutex again. Each submission is one critical section on the tracker. The
  list is finite: nobody submits forever.
\<close>

definition submit_all :: "string list \<Rightarrow> CronTaskTracker \<Rightarrow> CronTaskTracker" where
  "submit_all names t = fold (\<lambda>n t. snd (RunTask n t)) names t"

lemma RunTask_queue_length: "length (pendingTasks (snd (RunTask n t))) \<le> Suc (length (pendingTasks t))"
  by (simp add: RunTask_def)

lemma submit_all_length: "length (pendingTasks (submit_all names t)) \<le> length (pendingTasks t) + length names"
proof (induction names arbitrary: t)
  case (Cons n names)
  show ?case using Cons[of "snd (RunTask n t)"] RunTask_queue_length[of n t] by (simp add: submit_all_def)
qed (simp add: submit_all_def)

lemma worker_progress:
  assumes "pendingTasks (submit_all (case arrivals of [] \<Rightarrow> [] | batch # _ \<Rightarrow> batch) t) \<noteq> []"
  shows "length (concat (tl arrivals)) + length (pendingTasks (task_finished (submit_all (case arrivals of [] \<Rightarrow> [] | batch # _ \<Rightarrow> batch) t)))
     < length (concat arrivals) + length (pendingTasks t)"
proof -
  have "length (pendingTasks (task_finished u)) < length (pendingTasks u)" if "pendingTasks u \<noteq> []" for u
    using that by (auto simp: task_finished_def split: list.splits)
  from this[OF assms] show ?thesis
    using submit_all_length[of "case arrivals of [] \<Rightarrow> [] | batch # _ \<Rightarrow> batch" t] by (cases arrivals) auto
qed

function executeTask ::
  "(cron_op \<Rightarrow> 's \<Rightarrow> goerror option \<times> 's) \<Rightarrow> string list list \<Rightarrow> string \<Rightarrow> CronTaskTracker \<Rightarrow> 's \<Rightarrow> CronTaskTracker \<times> 's" where
  "executeTask execute arrivals instanceName t s =
     (let s1 = snd (execute (op_for instanceName) s);
          t1 = submit_all (case arrivals of [] \<Rightarrow> [] | batch # _ \<Rightarrow> batch) t;
          t2 = task_finished t1
      in if pendingTasks t1 = [] then (t2, s1) else executeTask execute (tl arrivals) (currentTask t2) t2 s1)"
  by pat_completeness auto

termination
  by (relation "measure (\<lambda>(execute, arrivals, instanceName, t, s). length (concat arrivals) + length (pendingTasks t))")
     (simp_all only: wf_measure in_measure prod.case worker_progress not_False_eq_True)

declare executeTask.simps [simp del]

section \<open>The tick\<close>

definition checkSnapshotPlan ::
  "(string \<Rightarrow> rat) \<Rightarrow> gotime \<Rightarrow> int \<Rightarrow> bool \<Rightarrow> CronTaskTracker \<Rightarrow> world \<Rightarrow> CronTaskTracker \<times> world" where
  "checkSnapshotPlan roll now currentMinute forceRun t w =
     (case Snapshot_GetPlan w of
        (Inl e, w1) \<Rightarrow> (t, w1)
      | (Inr None, w1) \<Rightarrow> (t, w1)
      | (Inr (Some plan), w1) \<Rightarrow>
          if Plan_IsPaused plan then (t, w1)
          else if \<not> forceRun \<and> \<not> RunsAtHour plan (Hour now) then (t, w1)
          else (case Cron_HasRunSince SnapshotCronInstance (snapshotSlotStart now) w1 of
                  (Inl e, w2) \<Rightarrow> (t, w2)
                | (Inr hasRun, w2) \<Rightarrow>
                    let probability = snapshotRunProbability currentMinute forceRun in
                    if hasRun then (t, w2)
                    else if probability = 0 then (t, w2)
                    else if roll SnapshotCronInstance \<ge> probability then (t, w2)
                    else (snd (RunTask SnapshotCronInstance t), w2)))"

fun check_plans ::
  "(string \<Rightarrow> rat) \<Rightarrow> gotime \<Rightarrow> int \<Rightarrow> bool \<Rightarrow> CronPlan list \<Rightarrow> CronTaskTracker \<Rightarrow> world \<Rightarrow> CronTaskTracker \<times> world" where
  "check_plans roll now currentMinute forceRun [] t w = (t, w)"
| "check_plans roll now currentMinute forceRun (plan # plans) t w =
     (if IsPaused plan then check_plans roll now currentMinute forceRun plans t w
      else case Cron_HasRunInLastHour now (cp_InstanceName plan) w of
        (Inl e, w1) \<Rightarrow> check_plans roll now currentMinute forceRun plans t w1
      | (Inr hasRun, w1) \<Rightarrow>
          let probability = snapshotRunProbability currentMinute forceRun in
          if hasRun then check_plans roll now currentMinute forceRun plans t w1
          else if probability = 0 then check_plans roll now currentMinute forceRun plans t w1
          else if roll (cp_InstanceName plan) < probability
          then check_plans roll now currentMinute forceRun plans (snd (RunTask (cp_InstanceName plan) t)) w1
          else check_plans roll now currentMinute forceRun plans t w1)"

text \<open>
  The downloads area. \<open>read_dir\<close> is \<open>os.ReadDir\<close>: the entries with their kind and, when
  \<open>Info\<close> answers, their modification time.
\<close>

record dir_entry =
  de_Name :: string
  de_IsDir :: bool
  de_ModTime :: "gotime option"

definition SnapshotDownloadsTTL :: int where "SnapshotDownloadsTTL = 7 * 24 * ns_hour"
definition staleDownloadTmpAge :: int where "staleDownloadTmpAge = ns_hour"

definition SnapshotDownloadsDir :: "string \<Rightarrow> string" where
  "SnapshotDownloadsDir backupDir = Join2 backupDir ''downloads''"

definition stale_download :: "gotime \<Rightarrow> dir_entry \<Rightarrow> bool" where
  "stale_download now entry =
     (case de_ModTime entry of
        None \<Rightarrow> False
      | Some m \<Rightarrow>
          let age = now - m in
          \<not> de_IsDir entry
          \<and> (age > SnapshotDownloadsTTL \<or> (HasPrefix (de_Name entry) ''.tmp-'' \<and> age > staleDownloadTmpAge)))"

fun sweep_entries :: "gotime \<Rightarrow> string \<Rightarrow> dir_entry list \<Rightarrow> world \<Rightarrow> int \<times> world" where
  "sweep_entries now dir [] w = (0, w)"
| "sweep_entries now dir (entry # entries) w =
     (if \<not> stale_download now entry then sweep_entries now dir entries w
      else case os_Remove (Join2 dir (de_Name entry)) w of
        (Some e, w1) \<Rightarrow> sweep_entries now dir entries w1
      | (None, w1) \<Rightarrow> (case sweep_entries now dir entries w1 of (n, w2) \<Rightarrow> (n + 1, w2)))"

definition SweepSnapshotDownloads ::
  "(string \<Rightarrow> dir_entry list res) \<Rightarrow> gotime \<Rightarrow> string \<Rightarrow> world \<Rightarrow> int res \<times> world" where
  "SweepSnapshotDownloads read_dir now backupDir w =
     (let dir = SnapshotDownloadsDir backupDir in
      case read_dir dir of
        Inl e \<Rightarrow> if errors_Is e ErrNotExist then (Inr 0, w) else (Inl e, w)
      | Inr entries \<Rightarrow> (case sweep_entries now dir entries w of (n, w1) \<Rightarrow> (Inr n, w1)))"

definition maybeSweepSnapshotDownloads ::
  "(string \<Rightarrow> dir_entry list res) \<Rightarrow> gotime \<Rightarrow> string \<Rightarrow> gotime \<Rightarrow> world \<Rightarrow> gotime \<times> world" where
  "maybeSweepSnapshotDownloads read_dir now backupDir lastDownloadsSweep w =
     (if now - lastDownloadsSweep < 24 * ns_hour then (lastDownloadsSweep, w)
      else (now, snd (SweepSnapshotDownloads read_dir now backupDir w)))"

text \<open>The scheduler's part of the server: the queue, the kv store and the last sweep.\<close>

record scheduler =
  sch_tracker :: CronTaskTracker
  sch_kv :: KVStore
  sch_lastDownloadsSweep :: gotime

definition force_run :: "KVStore \<Rightarrow> world \<Rightarrow> (bool \<times> KVStore \<times> world) option" where
  "force_run kv w =
     (case KV_GetInt KeyCronDebugForceRun kv w of
        None \<Rightarrow> None
      | Some (Inl e, kv1, w1) \<Rightarrow> Some (False, kv1, w1)
      | Some (Inr n, kv1, w1) \<Rightarrow> Some (n = 1, kv1, w1))"

definition checkAndRunCronTasks ::
  "(string \<Rightarrow> rat) \<Rightarrow> (string \<Rightarrow> dir_entry list res) \<Rightarrow> gotime \<Rightarrow> string \<Rightarrow> scheduler \<Rightarrow> world \<Rightarrow> (scheduler \<times> world) option" where
  "checkAndRunCronTasks roll read_dir now backupDir s w =
     (case force_run (sch_kv s) w of
        None \<Rightarrow> None
      | Some (forceRun, kv1, w1) \<Rightarrow>
          let s1 = s\<lparr>sch_kv := kv1\<rparr> in
          (case (if forceRun then Cron_GetAllPlans w1 else Cron_GetPlansForHour (Hour now) w1) of
             (Inl e, w2) \<Rightarrow> Some (s1, w2)
           | (Inr plans, w2) \<Rightarrow>
               (case checkSnapshotPlan roll now (Minute now) forceRun (sch_tracker s1) w2 of (t3, w3) \<Rightarrow>
                (case maybeSweepSnapshotDownloads read_dir now backupDir (sch_lastDownloadsSweep s1) w3 of (last4, w4) \<Rightarrow>
                 (case check_plans roll now (Minute now) forceRun plans t3 w4 of (t5, w5) \<Rightarrow>
                    Some (s1\<lparr>sch_tracker := t5, sch_lastDownloadsSweep := last4\<rparr>, w5))))))"

section \<open>Log retention\<close>

text \<open>
  \<open>time.Duration(days) * 24 * time.Hour\<close> is 64-bit arithmetic. Each table is swept whatever
  the others answered; the result is the number of rows removed.
\<close>

definition retention_window :: "int \<Rightarrow> int" where
  "retention_window days = wrap64 (wrap64 (days * 24) * ns_hour)"

definition swept :: "int res \<Rightarrow> int" where
  "swept r = (case r of Inl e \<Rightarrow> 0 | Inr n \<Rightarrow> n)"

definition sweepOldLogs :: "gotime \<Rightarrow> KVStore \<Rightarrow> world \<Rightarrow> (int \<times> KVStore \<times> world) option" where
  "sweepOldLogs now kv w =
     (case RequiredInt KeyLogsRetentionDays kv w of
        None \<Rightarrow> None
      | Some (days, kv1, w1) \<Rightarrow>
          if days \<le> 0 then Some (0, kv1, w1)
          else
            let window = retention_window days in
            (case Cron_CleanupOldLogs now window w1 of (r1, w2) \<Rightarrow>
             (case Notifications_CleanupOldLogs now window w2 of (r2, w3) \<Rightarrow>
              (case Offsite_CleanupOldLogs now window w3 of (r3, w4) \<Rightarrow>
                 Some (swept r1 + swept r2 + swept r3, kv1, w4)))))"

section \<open>When a plan is due\<close>

lemma RunsAtHour_dvd:
  assumes "0 < plan_IntervalHours p"
  shows "RunsAtHour p h \<longleftrightarrow> plan_IntervalHours p dvd (h - plan_UTCHour p)"
  using assms by (simp add: RunsAtHour_def Let_def go_rem_normalised dvd_eq_mod_eq_0)

lemma plan_check_interval:
  assumes "plan_check p"
  shows "0 < plan_IntervalHours p" "plan_IntervalHours p dvd 24"
  using assms by (auto simp: plan_check_def)

lemma anchored_hours_inj:
  fixes u i :: int
  assumes "0 < i" "i dvd 24"
  shows "inj_on (\<lambda>k. (u + k * i) mod 24) {0..<24 div i}"
proof (rule inj_onI)
  fix a b assume ab: "a \<in> {0..<24 div i}" "b \<in> {0..<24 div i}" "(u + a * i) mod 24 = (u + b * i) mod 24"
  have "24 dvd (u + a * i) - (u + b * i)" using ab(3) by (rule mod_eq_dvd_iff[THEN iffD1])
  then have "24 dvd (a - b) * i" by (simp add: algebra_simps)
  moreover have "24 = 24 div i * i" using assms(2) by simp
  ultimately have "24 div i dvd a - b" using assms(1) by (metis dvd_times_right_cancel_iff less_irrefl)
  moreover have "\<bar>a - b\<bar> < 24 div i" using ab(1,2) by auto
  ultimately show "a = b" using dvd_imp_le_int[of "a - b" "24 div i"] by auto
qed

text \<open>
  C32. A plan that the schema admits fires exactly at its anchor hour and every interval after
  it, around midnight: the remainder arithmetic of \<open>RunsAtHour\<close> is the enumeration, and there
  are \<open>24 / interval\<close> such hours a day.
\<close>

theorem RunsAtHour_anchored:
  assumes "plan_check p"
  shows "{h. 0 \<le> h \<and> h < 24 \<and> RunsAtHour p h}
      = (\<lambda>k. (plan_UTCHour p + k * plan_IntervalHours p) mod 24) ` {0..<24 div plan_IntervalHours p}
    \<and> int (card {h. 0 \<le> h \<and> h < 24 \<and> RunsAtHour p h}) = 24 div plan_IntervalHours p"
proof -
  define u i where "u = plan_UTCHour p" and "i = plan_IntervalHours p"
  have i: "0 < i" "i dvd 24" using plan_check_interval[OF assms] by (simp_all add: i_def)
  have runs: "RunsAtHour p h \<longleftrightarrow> i dvd (h - u)" for h
    using RunsAtHour_dvd[of p] i by (simp add: i_def u_def)
  have eq: "{h. 0 \<le> h \<and> h < 24 \<and> RunsAtHour p h} = (\<lambda>k. (u + k * i) mod 24) ` {0..<24 div i}"
  proof (intro set_eqI iffI)
    fix h assume h: "h \<in> {h. 0 \<le> h \<and> h < 24 \<and> RunsAtHour p h}"
    define m where "m = (h - u) mod 24"
    have "i dvd m" using h runs i(2) by (simp add: m_def dvd_mod)
    then have "m = m div i * i" by simp
    moreover have "m div i < 24 div i"
    proof -
      have "m div i * i < 24 div i * i" using \<open>i dvd m\<close> i(2) by (simp add: m_def)
      then show ?thesis using i(1) by (simp add: mult_less_cancel_right)
    qed
    moreover have "0 \<le> m div i" using i(1) by (simp add: m_def pos_imp_zdiv_nonneg_iff)
    moreover have "(u + m) mod 24 = h" using h by (simp add: m_def mod_add_right_eq)
    ultimately show "h \<in> (\<lambda>k. (u + k * i) mod 24) ` {0..<24 div i}" by (intro image_eqI[of _ _ "m div i"]) auto
  next
    fix h assume "h \<in> (\<lambda>k. (u + k * i) mod 24) ` {0..<24 div i}"
    then obtain k where k: "h = (u + k * i) mod 24" by blast
    then have "24 dvd h - (u + k * i)" by (simp add: mod_eq_dvd_iff[symmetric])
    then have "i dvd h - (u + k * i)" using i(2) dvd_trans by blast
    then have "i dvd (h - (u + k * i)) + k * i" by (intro dvd_add) simp_all
    then show "h \<in> {h. 0 \<le> h \<and> h < 24 \<and> RunsAtHour p h}" using k runs by (simp add: algebra_simps)
  qed
  have "0 \<le> 24 div i" using i(1) by (simp add: pos_imp_zdiv_nonneg_iff)
  then show ?thesis
    using eq card_image[OF anchored_hours_inj[OF i, of u]] by (simp add: u_def i_def)
qed

theorem RunsAtHour_anchored_witness:
  "\<exists>p. plan_IntervalHours p = 6 \<and> plan_UTCHour p = 21 \<and> int (card {h. 0 \<le> h \<and> h < 24 \<and> RunsAtHour p h}) = 4"
proof -
  define p where "p = \<lparr>plan_UTCHour = 21, plan_IntervalHours = 6, plan_CleanupLocalDays = 3, plan_CleanupRemoteDays = 30,
    plan_Format = ''physical'', plan_PausedAt = 0, plan_PausedReason = '''', plan_CreatedAt = 1, plan_UpdatedAt = 1\<rparr>"
  have "plan_check p" by (simp add: p_def plan_check_def)
  from RunsAtHour_anchored[OF this, THEN conjunct2] show ?thesis
    by (intro exI[of _ p]) (simp add: p_def del: of_nat_eq_numeral_iff)
qed

section \<open>The queue as a service discipline\<close>

text \<open>
  The tracker under any interleaving of submissions (the scheduler's ticks) and completions
  (the worker goroutine), each a critical section of its mutex. The history records what was
  accepted, what was started and what finished, in order.
\<close>

record tracker_run =
  tr_tracker :: CronTaskTracker
  accepted :: "string list"
  started :: "string list"
  finished :: "string list"

definition initial_run :: tracker_run where
  "initial_run = \<lparr>tr_tracker = NewCronTaskTracker, accepted = [], started = [], finished = []\<rparr>"

definition begun :: "CronTaskTracker \<Rightarrow> string list" where
  "begun t = (if currentTask t = '''' then [] else [currentTask t])"

inductive tracker_step :: "tracker_run \<Rightarrow> tracker_run \<Rightarrow> bool" where
  submit: "name \<noteq> '''' \<Longrightarrow> RunTask name (tr_tracker s) = (ok, t)
     \<Longrightarrow> tracker_step s (s\<lparr>tr_tracker := t,
           accepted := accepted s @ (if ok then [name] else []),
           started := started s @ (if ok \<and> currentTask (tr_tracker s) = '''' then [name] else [])\<rparr>)"
| finish: "currentTask (tr_tracker s) \<noteq> '''' \<Longrightarrow> t = task_finished (tr_tracker s)
     \<Longrightarrow> tracker_step s (s\<lparr>tr_tracker := t,
           finished := finished s @ [currentTask (tr_tracker s)],
           started := started s @ begun t\<rparr>)"



text \<open>
  The specification: a first-come first-served queue with one server. What was accepted is
  what was started and then what waits; what was started is what finished and then the one
  task in service; the server is idle only when nobody waits; no task is in the system twice.
\<close>

definition fifo :: "tracker_run \<Rightarrow> bool" where
  "fifo s \<longleftrightarrow>
     accepted s = started s @ pendingTasks (tr_tracker s)
   \<and> started s = finished s @ begun (tr_tracker s)
   \<and> (currentTask (tr_tracker s) = '''' \<longrightarrow> pendingTasks (tr_tracker s) = [])
   \<and> distinct (begun (tr_tracker s) @ pendingTasks (tr_tracker s))
   \<and> '''' \<notin> set (pendingTasks (tr_tracker s))"

lemma fifo_initial: "fifo initial_run"
  by (simp add: fifo_def initial_run_def NewCronTaskTracker_def begun_def)

lemma fifo_step:
  assumes "tracker_step s s'" "fifo s"
  shows "fifo s'"
  using assms(1)
proof cases
  case (submit name ok t)
  then show ?thesis
    using assms(2) by (auto simp: fifo_def RunTask_def begun_def split: if_splits)
next
  case (finish t)
  then show ?thesis
    using assms(2) by (auto simp: fifo_def task_finished_def begun_def split: list.splits if_splits)
qed

lemma fifo_reachable: "tracker_step\<^sup>*\<^sup>* initial_run s \<Longrightarrow> fifo s"
  by (induction rule: rtranclp_induct) (auto intro: fifo_initial fifo_step)

text \<open>
  C33. The task tracker implements a first-come first-served queue with one server, under
  every interleaving of submissions and completions: tasks start in the order they were
  accepted, at most one runs at a time, none is lost or run twice for one acceptance, and the
  tracker is idle only when nothing waits. A submission is refused exactly when its task is
  already running or waiting.
\<close>

theorem tracker_refines_fifo:
  assumes "tracker_step\<^sup>*\<^sup>* initial_run s"
  shows "accepted s = finished s @ begun (tr_tracker s) @ pendingTasks (tr_tracker s)
    \<and> started s = finished s @ begun (tr_tracker s)
    \<and> length (begun (tr_tracker s)) \<le> 1
    \<and> (begun (tr_tracker s) = [] \<longrightarrow> pendingTasks (tr_tracker s) = [])
    \<and> distinct (begun (tr_tracker s) @ pendingTasks (tr_tracker s))
    \<and> (\<forall>name. name \<noteq> '''' \<longrightarrow>
         (fst (RunTask name (tr_tracker s)) \<longleftrightarrow> name \<notin> set (begun (tr_tracker s) @ pendingTasks (tr_tracker s))))"
  using fifo_reachable[OF assms] by (auto simp: fifo_def begun_def RunTask_def)

theorem tracker_refines_fifo_witness:
  "\<exists>s. tracker_step\<^sup>*\<^sup>* initial_run s \<and> started s = [''a'', ''b''] \<and> finished s = [''a'']
     \<and> accepted s = finished s @ begun (tr_tracker s) @ pendingTasks (tr_tracker s)"
proof -
  define s1 where "s1 = initial_run\<lparr>tr_tracker := \<lparr>currentTask = ''a'', pendingTasks = []\<rparr>, accepted := [''a''], started := [''a'']\<rparr>"
  define s2 where "s2 = s1\<lparr>tr_tracker := \<lparr>currentTask = ''a'', pendingTasks = [''b'']\<rparr>, accepted := [''a'', ''b''], started := [''a'']\<rparr>"
  define s3 where "s3 = s2\<lparr>tr_tracker := \<lparr>currentTask = ''b'', pendingTasks = []\<rparr>, finished := [''a''], started := [''a'', ''b'']\<rparr>"
  have step1: "tracker_step initial_run s1"
    using tracker_step.submit[of "''a''" initial_run True "\<lparr>currentTask = ''a'', pendingTasks = []\<rparr>"]
    by (simp add: s1_def initial_run_def NewCronTaskTracker_def RunTask_def)
  have step2: "tracker_step s1 s2"
    using tracker_step.submit[of "''b''" s1 True "\<lparr>currentTask = ''a'', pendingTasks = [''b'']\<rparr>"]
    by (simp add: s1_def s2_def initial_run_def RunTask_def)
  have step3: "tracker_step s2 s3"
    using tracker_step.finish[of s2 "\<lparr>currentTask = ''b'', pendingTasks = []\<rparr>"]
    by (simp add: s2_def s3_def s1_def initial_run_def task_finished_def begun_def)
  have r: "tracker_step\<^sup>*\<^sup>* initial_run s3"
    by (rule converse_rtranclp_into_rtranclp, rule step1, rule converse_rtranclp_into_rtranclp, rule step2,
        rule r_into_rtranclp, rule step3)
  from tracker_refines_fifo[OF this] r show ?thesis by (intro exI[of _ s3]) (simp add: s3_def)
qed

text \<open>
  The names among those submitted that are new to a queue, each once, in the order of their first
  submission; and the submissions that arrive while the task number \<open>i\<close> runs.
\<close>

definition new_names :: "string list \<Rightarrow> string list \<Rightarrow> string list" where
  "new_names queue names = rev (remdups (rev (filter (\<lambda>n. n \<notin> set queue) names)))"

definition arriving :: "string list list \<Rightarrow> nat \<Rightarrow> string list" where
  "arriving arrivals i = (if i < length arrivals then arrivals ! i else [])"

lemma arriving_simps:
  "arriving arrivals 0 = (case arrivals of [] \<Rightarrow> [] | batch # _ \<Rightarrow> batch)" "arriving arrivals (Suc i) = arriving (tl arrivals) i"
  by (auto simp: arriving_def nth_tl split: list.splits)

lemma new_names_snoc: "new_names q (ns @ [n]) = (if n \<in> set q \<union> set ns then new_names q ns else new_names q ns @ [n])"
  by (auto simp: new_names_def)

lemma set_new_names: "set (new_names q ns) = set ns - set q"
  by (auto simp: new_names_def)

text \<open>While a task runs, submissions only append the new names to the queue.\<close>

lemma submit_all_running:
  assumes "currentTask t \<noteq> ''''"
  shows "submit_all ns t = t\<lparr>pendingTasks := pendingTasks t @ new_names (currentTask t # pendingTasks t) ns\<rparr>"
proof (induction ns rule: rev_induct)
  case (snoc n ns)
  have "submit_all (ns @ [n]) t = snd (RunTask n (submit_all ns t))" by (simp add: submit_all_def)
  then show ?case using assms by (auto simp: snoc RunTask_def new_names_snoc set_new_names)
qed (simp add: submit_all_def new_names_def)

text \<open>
  C34. A started worker returns, whatever is submitted while it runs, as long as the submissions
  are finite in number, and leaves the tracker idle. It has run, one after the other and whatever
  the earlier ones answered, its own task, then the waiting ones in order, then the ones accepted
  while it ran in the order of their submission, and nothing else; accepted while the task number
  \<open>i\<close> ran are exactly the submitted names that were neither running nor waiting then, each once.
\<close>

theorem executeTask_drains:
  assumes "currentTask t = name" "name \<noteq> ''''" "'''' \<notin> set (pendingTasks t)" "\<forall>batch \<in> set arrivals. '''' \<notin> set batch"
  shows "\<exists>ran taken. executeTask execute arrivals name t s
        = (t\<lparr>currentTask := '''', pendingTasks := []\<rparr>, fold (\<lambda>n s. snd (execute (op_for n) s)) ran s)
     \<and> ran = name # pendingTasks t @ concat taken \<and> length taken = length ran
     \<and> (\<forall>i < length ran. taken ! i = new_names (drop i (name # pendingTasks t @ concat (take i taken))) (arriving arrivals i))"
  using assms
proof (induction execute arrivals name t s rule: executeTask.induct)
  case (1 execute arrivals name t s)
  define new where "new = new_names (name # pendingTasks t) (arriving arrivals 0)"
  define s1 where "s1 = snd (execute (op_for name) s)"
  have sub: "submit_all (case arrivals of [] \<Rightarrow> [] | batch # _ \<Rightarrow> batch) t = t\<lparr>pendingTasks := pendingTasks t @ new\<rparr>"
    using submit_all_running[of t] 1(2,3) by (simp add: new_def arriving_simps)
  show ?case
  proof (cases "pendingTasks t @ new")
    case Nil
    then have "executeTask execute arrivals name t s = (t\<lparr>currentTask := '''', pendingTasks := []\<rparr>, s1)"
      by (subst executeTask.simps) (simp add: Let_def sub task_finished_def s1_def)
    then show ?thesis using Nil by (intro exI[of _ "[name]"] exI[of _ "[[]]"]) (auto simp: s1_def new_def)
  next
    case (Cons x rest)
    let ?t = "t\<lparr>currentTask := x, pendingTasks := rest\<rparr>"
    note sub = sub[unfolded Cons]
    have fin: "task_finished (t\<lparr>pendingTasks := x # rest\<rparr>) = ?t" by (simp add: task_finished_def)
    have run: "executeTask execute arrivals name t s = executeTask execute (tl arrivals) x ?t s1"
      by (subst executeTask.simps) (simp add: Let_def sub fin s1_def)
    have "set (arriving arrivals 0) \<subseteq> (\<Union>batch \<in> set arrivals. set batch)" by (cases arrivals) (auto simp: arriving_def)
    then have "'''' \<notin> set (pendingTasks t @ new)" using 1(4,5) by (auto simp: new_def set_new_names)
    then have ne: "x \<noteq> ''''" "'''' \<notin> set rest" unfolding Cons by auto
    have tl: "\<forall>batch \<in> set (tl arrivals). '''' \<notin> set batch" using 1(5) by (cases arrivals) auto
    have "\<exists>ran taken. executeTask execute (tl arrivals) x ?t s1
        = (?t\<lparr>currentTask := '''', pendingTasks := []\<rparr>, fold (\<lambda>n s. snd (execute (op_for n) s)) ran s1)
     \<and> ran = x # pendingTasks ?t @ concat taken \<and> length taken = length ran
     \<and> (\<forall>i < length ran. taken ! i = new_names (drop i (x # pendingTasks ?t @ concat (take i taken))) (arriving (tl arrivals) i))"
      using 1(1)[OF s1_def refl refl] ne tl unfolding sub fin by simp
    then obtain ran taken where ih: "executeTask execute (tl arrivals) x ?t s1
        = (?t\<lparr>currentTask := '''', pendingTasks := []\<rparr>, fold (\<lambda>n s. snd (execute (op_for n) s)) ran s1)"
      "ran = x # rest @ concat taken" "length taken = length ran"
      "\<And>i. i < length ran \<Longrightarrow> taken ! i = new_names (drop i (x # rest @ concat (take i taken))) (arriving (tl arrivals) i)"
      by auto
    have "(new # taken) ! i = new_names (drop i (name # pendingTasks t @ concat (take i (new # taken)))) (arriving arrivals i)"
      if "i < length (name # ran)" for i
    proof (cases i)
      case (Suc k)
      have "drop i (name # pendingTasks t @ concat (take i (new # taken))) = drop k ((pendingTasks t @ new) @ concat (take k taken))"
        by (simp add: Suc)
      then show ?thesis unfolding Cons using ih(4)[of k] that Suc by (simp add: arriving_simps)
    qed (simp add: new_def)
    moreover have "name # ran = name # pendingTasks t @ concat (new # taken)" using ih(2) Cons by simp
    ultimately show ?thesis
      using run ih(1,3) by (intro exI[of _ "name # ran"] exI[of _ "new # taken"]) (simp add: s1_def)
  qed
qed

text \<open>
  While \<open>a\<close> runs with \<open>b\<close> waiting, \<open>b\<close> and \<open>c\<close> are submitted; while \<open>b\<close> runs, \<open>a\<close> is submitted
  again, which is accepted, for it runs no more.
\<close>

theorem executeTask_drains_witness:
  "executeTask (\<lambda>op log. (None, log @ [op])) [[''b'', ''c''], [''a'', ''b'']] ''a'' \<lparr>currentTask = ''a'', pendingTasks = [''b'']\<rparr> []
     = (\<lparr>currentTask = '''', pendingTasks = []\<rparr>, [CronTaskOp ''a'', CronTaskOp ''b'', CronTaskOp ''c'', CronTaskOp ''a''])
   \<and> (\<exists>ran taken. fold (\<lambda>n s. snd ((\<lambda>op log. (None :: goerror option, log @ [op])) (op_for n) s)) ran []
          = [CronTaskOp ''a'', CronTaskOp ''b'', CronTaskOp ''c'', CronTaskOp ''a''] \<and> ran = ''a'' # [''b''] @ concat taken)"
proof -
  let ?t = "\<lparr>currentTask = ''a'', pendingTasks = [''b'']\<rparr>" and ?as = "[[''b'', ''c''], [''a'', ''b'']]"
    and ?ex = "\<lambda>op log. (None :: goerror option, log @ [op])"
  have run: "executeTask ?ex ?as ''a'' ?t []
     = (\<lparr>currentTask = '''', pendingTasks = []\<rparr>, [CronTaskOp ''a'', CronTaskOp ''b'', CronTaskOp ''c'', CronTaskOp ''a''])"
    by (simp add: executeTask.simps submit_all_def RunTask_def task_finished_def op_for_def SnapshotCronInstance_def)
  have "\<exists>ran taken. executeTask ?ex ?as ''a'' ?t []
        = (?t\<lparr>currentTask := '''', pendingTasks := []\<rparr>, fold (\<lambda>n s. snd (?ex (op_for n) s)) ran [])
     \<and> ran = ''a'' # pendingTasks ?t @ concat taken \<and> length taken = length ran
     \<and> (\<forall>i < length ran. taken ! i = new_names (drop i (''a'' # pendingTasks ?t @ concat (take i taken))) (arriving ?as i))"
    by (rule executeTask_drains) simp_all
  then obtain ran taken where "executeTask ?ex ?as ''a'' ?t []
        = (?t\<lparr>currentTask := '''', pendingTasks := []\<rparr>, fold (\<lambda>n s. snd (?ex (op_for n) s)) ran [])"
    "ran = ''a'' # [''b''] @ concat taken" by auto
  then have "fold (\<lambda>n s. snd (?ex (op_for n) s)) ran [] = [CronTaskOp ''a'', CronTaskOp ''b'', CronTaskOp ''c'', CronTaskOp ''a'']
      \<and> ran = ''a'' # [''b''] @ concat taken" using run by (simp only: prod.inject)
  then show ?thesis using run by blast
qed

section \<open>What a tick submits\<close>

definition in_system :: "CronTaskTracker \<Rightarrow> string set" where
  "in_system t = insert (currentTask t) (set (pendingTasks t))"

lemma RunTask_in_system: "in_system (snd (RunTask name t)) \<subseteq> insert name (in_system t)"
  by (auto simp: RunTask_def in_system_def)

lemma RunTask_submits:
  "name \<in> in_system (snd (RunTask name t))"
  "x \<in> in_system t \<Longrightarrow> x \<noteq> '''' \<Longrightarrow> x \<in> in_system (snd (RunTask name t))"
  by (auto simp: RunTask_def in_system_def)

definition idle_since :: "string \<Rightarrow> gotime \<Rightarrow> world \<Rightarrow> bool" where
  "idle_since name cutoff w \<longleftrightarrow> (\<forall>l \<in> set (cron_logs w). cl_InstanceName l = name \<longrightarrow> cl_StartedAt l \<le> cutoff)"

lemma started_since_pos: "started_since name cutoff w > 0 \<longleftrightarrow> \<not> idle_since name cutoff w"
  by (auto simp: started_since_def count_where_def idle_since_def filter_empty_conv not_le)

lemma HasRun_answer:
  "Cron_HasRunSince name cutoff w = (Inr b, w') \<Longrightarrow> b \<longleftrightarrow> \<not> idle_since name cutoff w"
  "Cron_HasRunInLastHour now name w = (Inr b, w') \<Longrightarrow> b \<longleftrightarrow> \<not> idle_since name (now - ns_hour) w"
  using started_since_pos same_but_io_fields[OF next_io_same]
  by (auto simp: Cron_HasRunSince_def Cron_HasRunInLastHour_def sql_query_def idle_since_def
      split: prod.splits sum.splits if_splits)

lemma GetPlan_answer:
  "Snapshot_GetPlan w = (Inr p, w') \<Longrightarrow> p = snapshot_plans w"
  using same_but_io_fields[OF next_io_same]
  by (auto simp: Snapshot_GetPlan_def sql_query_def split: prod.splits sum.splits if_splits)

lemma GetPlan_same: "Snapshot_GetPlan w = (r, w') \<Longrightarrow> same_but_io w w'"
  by (auto simp: Snapshot_GetPlan_def intro: sql_query_same split: prod.splits sum.splits)

lemma idle_since_io: "same_but_io w w' \<Longrightarrow> idle_since n c w' = idle_since n c w"
  by (simp add: idle_since_def same_but_io_fields)

text \<open>When the snapshot check submits: with no read failing, exactly when the plan says so.\<close>

definition snapshot_due :: "gotime \<Rightarrow> bool \<Rightarrow> world \<Rightarrow> bool" where
  "snapshot_due now forceRun w \<longleftrightarrow>
     (\<exists>plan. snapshot_plans w = Some plan \<and> \<not> Plan_IsPaused plan
        \<and> (forceRun \<or> RunsAtHour plan (Hour now)) \<and> idle_since SnapshotCronInstance (snapshotSlotStart now) w)"

lemma checkSnapshotPlan_cases:
  assumes "checkSnapshotPlan roll now m f t w = (t', w')"
  obtains "t' = t" "same_but_io w w'"
    | "t' = snd (RunTask SnapshotCronInstance t)" "same_but_io w w'" "snapshot_due now f w"
      "roll SnapshotCronInstance < snapshotRunProbability m f"
proof -
  obtain r w1 where g: "Snapshot_GetPlan w = (r, w1)" by fastforce
  note s1 = GetPlan_same[OF g]
  show thesis
  proof (cases "\<exists>plan. r = Inr (Some plan) \<and> \<not> Plan_IsPaused plan \<and> (f \<or> RunsAtHour plan (Hour now))")
    case False
    then have "t' = t \<and> w' = w1"
      using assms g by (auto simp: checkSnapshotPlan_def split: sum.splits option.splits if_splits)
    then show thesis using that(1) s1 by blast
  next
    case True
    then obtain plan where plan: "r = Inr (Some plan)" "\<not> Plan_IsPaused plan" "f \<or> RunsAtHour plan (Hour now)" by blast
    obtain h w2 where h: "Cron_HasRunSince SnapshotCronInstance (snapshotSlotStart now) w1 = (h, w2)" by fastforce
    have s2: "same_but_io w w2" using s1 Cron_reads_same(3)[OF h] same_but_io_trans by blast
    have run: "checkSnapshotPlan roll now m f t w =
        (case h of Inl e \<Rightarrow> (t, w2) | Inr b \<Rightarrow>
           if b \<or> snapshotRunProbability m f = 0 \<or> roll SnapshotCronInstance \<ge> snapshotRunProbability m f then (t, w2)
           else (snd (RunTask SnapshotCronInstance t), w2))"
      using g h plan by (auto simp: checkSnapshotPlan_def Let_def split: sum.splits)
    show thesis
    proof (cases "h = Inr False \<and> roll SnapshotCronInstance < snapshotRunProbability m f \<and> snapshotRunProbability m f \<noteq> 0")
      case False
      then have "t' = t \<and> w' = w2" using assms run by (auto split: sum.splits if_splits)
      then show thesis using that(1) s2 by blast
    next
      case True
      then have "t' = snd (RunTask SnapshotCronInstance t) \<and> w' = w2" using assms run by auto
      moreover have "idle_since SnapshotCronInstance (snapshotSlotStart now) w"
        using HasRun_answer(1)[of _ _ w1 False w2] h True idle_since_io[OF s1] by simp
      moreover have "snapshot_plans w = Some plan" using GetPlan_answer[of w "Some plan" w1] g plan(1) by simp
      ultimately show thesis using that(2) s2 True plan by (auto simp: snapshot_due_def)
    qed
  qed
qed

lemma checkSnapshotPlan_calm:
  assumes "io_schedule w = []" "snapshot_due now f w" "roll SnapshotCronInstance < snapshotRunProbability m f"
    "snapshotRunProbability m f \<noteq> 0"
  shows "checkSnapshotPlan roll now m f t w = (snd (RunTask SnapshotCronInstance t), w)"
proof -
  obtain plan where "snapshot_plans w = Some plan" "\<not> Plan_IsPaused plan" "f \<or> RunsAtHour plan (Hour now)"
      "\<not> started_since SnapshotCronInstance (snapshotSlotStart now) w > 0"
    using assms(2) started_since_pos by (auto simp: snapshot_due_def)
  then show ?thesis
    using assms(1,3,4)
    by (auto simp: checkSnapshotPlan_def Snapshot_GetPlan_def Cron_HasRunSince_def calm_primitives Let_def)
qed

lemma check_plans_effect:
  assumes "check_plans roll now m f plans t w = (t', w')"
  shows "same_but_io w w'
    \<and> (\<forall>x \<in> in_system t'. x \<in> in_system t \<or> (\<exists>p \<in> set plans. cp_InstanceName p = x \<and> \<not> IsPaused p
          \<and> idle_since x (now - ns_hour) w \<and> roll x < snapshotRunProbability m f))
    \<and> (\<forall>x \<in> in_system t. x \<noteq> '''' \<longrightarrow> x \<in> in_system t')"
  using assms
proof (induction plans arbitrary: t w)
  case (Cons p ps)
  let ?n = "cp_InstanceName p"
  obtain h w1 where h: "Cron_HasRunInLastHour now ?n w = (h, w1)" by fastforce
  note s1 = Cron_reads_same(4)[OF h]
  show ?case
  proof (cases "\<not> IsPaused p \<and> h = Inr False \<and> snapshotRunProbability m f \<noteq> 0 \<and> roll ?n < snapshotRunProbability m f")
    case True
    then have "check_plans roll now m f ps (snd (RunTask ?n t)) w1 = (t', w')"
      using Cons.prems h by (simp add: Let_def)
    note ih = Cons.IH[OF this]
    have idle: "idle_since ?n (now - ns_hour) w" using HasRun_answer(2)[of now ?n w False w1] h True by simp
    show ?thesis
    proof (intro conjI ballI impI)
      show "same_but_io w w'" using ih s1 same_but_io_trans by blast
    next
      fix x assume "x \<in> in_system t'"
      then consider "x \<in> in_system (snd (RunTask ?n t))"
        | "\<exists>q \<in> set ps. cp_InstanceName q = x \<and> \<not> IsPaused q \<and> idle_since x (now - ns_hour) w
             \<and> roll x < snapshotRunProbability m f"
        using ih idle_since_io[OF s1] by auto
      then show "x \<in> in_system t \<or> (\<exists>q \<in> set (p # ps). cp_InstanceName q = x \<and> \<not> IsPaused q
          \<and> idle_since x (now - ns_hour) w \<and> roll x < snapshotRunProbability m f)"
        using RunTask_in_system[of ?n t] idle True by cases auto
    next
      fix x assume "x \<in> in_system t" "x \<noteq> ''''"
      then show "x \<in> in_system t'" using ih RunTask_submits(2) by blast
    qed
  next
    case False
    then obtain w2 where "check_plans roll now m f ps t w2 = (t', w')" "w2 = w \<or> w2 = w1"
      using Cons.prems h by (auto simp: Let_def split: if_splits sum.splits)
    moreover from this have s2: "same_but_io w w2" using s1 by auto
    ultimately show ?thesis
      using Cons.IH[of t w2] same_but_io_trans[OF s2] idle_since_io[OF s2] by (auto split: if_splits)
  qed
qed simp

lemma sweep_same_tables: "sweep_entries now dir es w = (n, w') \<Longrightarrow> cron_logs w' = cron_logs w \<and> cron_plans w' = cron_plans w
    \<and> (io_schedule w = [] \<longrightarrow> io_schedule w' = [])"
proof (induction es arbitrary: w n)
  case (Cons e es)
  have rm: "cron_logs v' = cron_logs v \<and> cron_plans v' = cron_plans v \<and> (io_schedule v = [] \<longrightarrow> io_schedule v' = [])"
    if "os_Remove q v = (r, v')" for q v r v'
    using that by (auto simp: os_Remove_def next_io_def split: prod.splits outcome.splits option.splits list.splits)
  show ?case using Cons rm by (fastforce split: if_splits prod.splits option.splits)
qed simp

lemma maybeSweep_same_tables:
  assumes "maybeSweepSnapshotDownloads read_dir now d prev w = (l', w')"
  shows "cron_logs w' = cron_logs w" "cron_plans w' = cron_plans w" "io_schedule w = [] \<Longrightarrow> io_schedule w' = []"
  using assms sweep_same_tables[of now "SnapshotDownloadsDir d" _ w]
  by (auto simp: maybeSweepSnapshotDownloads_def SweepSnapshotDownloads_def Let_def
      split: if_splits sum.splits prod.splits)

lemma force_run_same:
  assumes "force_run kv w = Some (f, kv', w')"
  shows "same_but_io w w'"
  using assms by (auto simp: force_run_def KV_GetInt_def dbGet_def dest: sql_query_same
      split: option.splits if_splits prod.splits sum.splits)

lemma force_run_calm:
  assumes "io_schedule w = []" "initialized kv"
  shows "\<exists>f kv'. force_run kv w = Some (f, kv', w)"
  using assms by (auto simp: force_run_def KV_GetInt_def dbGet_def calm_primitives
      split: option.splits if_splits prod.splits sum.splits)

text \<open>The plans a tick looks at.\<close>

lemma tick_plans:
  assumes "(if f then Cron_GetAllPlans w else Cron_GetPlansForHour h w) = (Inr plans, w')"
  shows "same_but_io w w'" "p \<in> set plans \<Longrightarrow> p \<in> set (cron_plans w) \<and> (f \<or> cp_UTCHour p = h)"
  using assms same_but_io_fields[OF next_io_same]
  by (auto simp: Cron_GetAllPlans_def Cron_GetPlansForHour_def sql_query_def order_by_name_def next_io_same
      split: if_splits prod.splits)

text \<open>One tick, taken apart.\<close>

lemma tick_cases:
  assumes "checkAndRunCronTasks roll read_dir now d s w = Some (s', w')"
  obtains f kv1 w1 where "force_run (sch_kv s) w = Some (f, kv1, w1)" "sch_tracker s' = sch_tracker s"
    | f kv1 w1 plans w2 t3 w3 l4 w4 where "force_run (sch_kv s) w = Some (f, kv1, w1)"
      "(if f then Cron_GetAllPlans w1 else Cron_GetPlansForHour (Hour now) w1) = (Inr plans, w2)"
      "checkSnapshotPlan roll now (Minute now) f (sch_tracker s) w2 = (t3, w3)"
      "maybeSweepSnapshotDownloads read_dir now d (sch_lastDownloadsSweep s) w3 = (l4, w4)"
      "check_plans roll now (Minute now) f plans t3 w4 = (sch_tracker s', w')"
proof -
  obtain f kv1 w1 where f: "force_run (sch_kv s) w = Some (f, kv1, w1)"
    using assms by (auto simp: checkAndRunCronTasks_def split: option.splits prod.splits)
  obtain r w2 where r: "(if f then Cron_GetAllPlans w1 else Cron_GetPlansForHour (Hour now) w1) = (r, w2)" by fastforce
  show thesis
  proof (cases r)
    case (Inl e)
    then have "s\<lparr>sch_kv := kv1\<rparr> = s'" using assms f r by (simp add: checkAndRunCronTasks_def Let_def)
    then have "sch_tracker s' = sch_tracker s" by auto
    then show thesis by (rule that(1)[OF f])
  next
    case (Inr plans)
    obtain t3 w3 where c: "checkSnapshotPlan roll now (Minute now) f (sch_tracker s) w2 = (t3, w3)" by fastforce
    obtain l4 w4 where m: "maybeSweepSnapshotDownloads read_dir now d (sch_lastDownloadsSweep s) w3 = (l4, w4)" by fastforce
    obtain t5 w5 where p: "check_plans roll now (Minute now) f plans t3 w4 = (t5, w5)" by fastforce
    have "Some (s', w') = Some (s\<lparr>sch_kv := kv1, sch_tracker := t5, sch_lastDownloadsSweep := l4\<rparr>, w5)"
      unfolding assms[symmetric] checkAndRunCronTasks_def f option.case prod.case Let_def r Inr sum.case
      by (simp add: c m p)
    then have "sch_tracker s' = t5" "w' = w5" by auto
    then show thesis using that(2)[OF f _ c m] r Inr p by blast
  qed
qed

text \<open>
  C35. What a scheduler tick may submit. A task that the tick put into the queue is either the
  deployment snapshot, with a plan that is configured, not paused, due at this hour (or forced
  by the debug flag) and not yet run since the top of this hour; or the backup of an instance
  whose plan is not paused, is due at this hour (or forced) and has not run within the last
  hour. Both only win their die. The debug flag never overrides a pause. This holds under
  every schedule of failed reads.
\<close>

theorem tick_submits_only_due:
  assumes "checkAndRunCronTasks roll read_dir now d s w = Some (s', w')"
    and "x \<in> in_system (sch_tracker s')" "x \<notin> in_system (sch_tracker s)"
  shows "\<exists>f kv1 w1. force_run (sch_kv s) w = Some (f, kv1, w1) \<and> roll x < snapshotRunProbability (Minute now) f
     \<and> ((x = SnapshotCronInstance \<and> snapshot_due now f w)
       \<or> (\<exists>p \<in> set (cron_plans w). cp_InstanceName p = x \<and> \<not> IsPaused p \<and> (f \<or> cp_UTCHour p = Hour now)
             \<and> idle_since x (now - ns_hour) w))"
  using assms(1)
proof (cases rule: tick_cases)
  case 1
  then show ?thesis using assms(2,3) by simp
next
  case (2 f kv1 w1 plans w2 t3 w3 l4 w4)
  have io: "same_but_io w w2"
    using force_run_same[OF 2(1)] tick_plans(1)[OF 2(2)] same_but_io_trans by blast
  have logs: "cron_logs w4 = cron_logs w \<and> cron_plans w1 = cron_plans w"
    using 2(3) maybeSweep_same_tables[OF 2(4)] same_but_io_fields[OF io] same_but_io_fields[OF force_run_same[OF 2(1)]]
    by (auto elim!: checkSnapshotPlan_cases dest!: same_but_io_fields(9))
  have due: "snapshot_due now f w2 = snapshot_due now f w"
    using same_but_io_fields[OF io] idle_since_io[OF io] by (simp add: snapshot_due_def)
  from check_plans_effect[OF 2(5)] assms(2)
  consider "x \<in> in_system t3"
    | p where "p \<in> set plans" "cp_InstanceName p = x" "\<not> IsPaused p" "idle_since x (now - ns_hour) w4"
        "roll x < snapshotRunProbability (Minute now) f"
    by blast
  then show ?thesis
  proof cases
    case 1
    from 2(3) have "x = SnapshotCronInstance \<and> snapshot_due now f w \<and> roll x < snapshotRunProbability (Minute now) f"
    proof (cases rule: checkSnapshotPlan_cases)
      case 1
      then show ?thesis using \<open>x \<in> in_system t3\<close> assms(3) by simp
    next
      case 2
      then show ?thesis using \<open>x \<in> in_system t3\<close> assms(3) RunTask_in_system due by blast
    qed
    then show ?thesis using 2(1) by blast
  next
    case (2 p)
    have "idle_since x (now - ns_hour) w" using 2(4) logs by (simp add: idle_since_def)
    moreover have "p \<in> set (cron_plans w) \<and> (f \<or> cp_UTCHour p = Hour now)"
      using tick_plans(2)[OF \<open>(if f then _ else _) = _\<close> 2(1)] logs by simp
    ultimately have "\<exists>p \<in> set (cron_plans w). cp_InstanceName p = x \<and> \<not> IsPaused p \<and> (f \<or> cp_UTCHour p = Hour now)
        \<and> idle_since x (now - ns_hour) w" using 2(2,3) by auto
    then show ?thesis
      by (intro exI[of _ f] exI[of _ kv1] exI[of _ w1] conjI \<open>force_run (sch_kv s) w = _\<close> 2(5) disjI2)
  qed
qed

text \<open>
  C36. A due snapshot is not skipped. At a tick past the half hour of an hour at which the
  unpaused plan fires, if no snapshot run was started since the top of that hour, whatever ran
  in earlier hours and however late in them, the task is running or queued after the tick. (The
  database answering, and a die below one.)
\<close>

theorem tick_runs_due_snapshot:
  assumes "io_schedule w = []" "initialized (sch_kv s)"
    and "snapshot_plans w = Some plan" "\<not> Plan_IsPaused plan" "RunsAtHour plan (Hour now)"
    and "\<forall>l \<in> set (cron_logs w). cl_InstanceName l = SnapshotCronInstance \<longrightarrow> cl_StartedAt l \<le> snapshotSlotStart now"
    and "30 < Minute now" "roll SnapshotCronInstance < 1"
  shows "\<exists>s' w'. checkAndRunCronTasks roll read_dir now d s w = Some (s', w')
     \<and> SnapshotCronInstance \<in> in_system (sch_tracker s')"
proof -
  obtain f kv1 where f: "force_run (sch_kv s) w = Some (f, kv1, w)"
    using force_run_calm[OF assms(1,2)] by blast
  have "snapshot_due now f w" using assms(3-6) by (auto simp: snapshot_due_def idle_since_def)
  moreover have prob: "snapshotRunProbability (Minute now) f = 1" using assms(7) by (simp add: snapshotRunProbability_def)
  ultimately have c: "checkSnapshotPlan roll now (Minute now) f (sch_tracker s) w = (snd (RunTask SnapshotCronInstance (sch_tracker s)), w)"
    using checkSnapshotPlan_calm[OF assms(1)] assms(8) by simp
  obtain plans where plans: "(if f then Cron_GetAllPlans w else Cron_GetPlansForHour (Hour now) w) = (Inr plans, w)"
    using assms(1) by (cases f) (auto simp: Cron_GetAllPlans_def Cron_GetPlansForHour_def calm_primitives)
  obtain l4 w4 where m: "maybeSweepSnapshotDownloads read_dir now d (sch_lastDownloadsSweep s) w = (l4, w4)" by fastforce
  obtain t5 w5 where p: "check_plans roll now (Minute now) f plans (snd (RunTask SnapshotCronInstance (sch_tracker s))) w4 = (t5, w5)"
    by fastforce
  have "checkAndRunCronTasks roll read_dir now d s w = Some (s\<lparr>sch_kv := kv1, sch_tracker := t5, sch_lastDownloadsSweep := l4\<rparr>, w5)"
    unfolding checkAndRunCronTasks_def f option.case prod.case Let_def plans sum.case by (simp add: c m p)
  moreover have "SnapshotCronInstance \<in> in_system t5"
    using check_plans_effect[OF p] RunTask_submits(1) by (auto simp: SnapshotCronInstance_def)
  ultimately show ?thesis by auto
qed

definition demo_plan :: Plan where
  "demo_plan = \<lparr>plan_UTCHour = 3, plan_IntervalHours = 12, plan_CleanupLocalDays = 3, plan_CleanupRemoteDays = 30,
     plan_Format = ''physical'', plan_PausedAt = 0, plan_PausedReason = '''', plan_CreatedAt = 1, plan_UpdatedAt = 1\<rparr>"

text \<open>A quarter to four in the afternoon, the morning's run having started at a quarter to four.\<close>

definition demo_tick_world :: world where
  "demo_tick_world = empty_world\<lparr>snapshot_plans := Some demo_plan,
     cron_logs := [new_log 1 SnapshotCronInstance (3 * ns_hour + 45 * ns_minute)]\<rparr>"

definition demo_scheduler :: scheduler where
  "demo_scheduler = \<lparr>sch_tracker = NewCronTaskTracker, sch_kv = NewKVStore\<lparr>initialized := True\<rparr>, sch_lastDownloadsSweep = 1\<rparr>"

abbreviation demo_now :: gotime where "demo_now \<equiv> 15 * ns_hour + 45 * ns_minute"

lemma demo_tick_facts:
  "io_schedule demo_tick_world = []" "initialized (sch_kv demo_scheduler)" "snapshot_plans demo_tick_world = Some demo_plan"
  "\<not> Plan_IsPaused demo_plan" "RunsAtHour demo_plan (Hour demo_now)"
  "\<forall>l \<in> set (cron_logs demo_tick_world). cl_InstanceName l = SnapshotCronInstance \<longrightarrow> cl_StartedAt l \<le> snapshotSlotStart demo_now"
  "30 < Minute demo_now"
  by (simp_all add: demo_tick_world_def empty_world_def demo_scheduler_def demo_plan_def Plan_IsPaused_def IsZero_def
      RunsAtHour_def Hour_def Minute_def ns_hour_def ns_minute_def go_rem_def Let_def new_log_def snapshotSlotStart_def)

theorem tick_runs_due_snapshot_witness:
  "\<exists>s' w'. checkAndRunCronTasks (\<lambda>_. 1 / 2) (\<lambda>_. Inr []) demo_now ''/b'' demo_scheduler demo_tick_world = Some (s', w')
     \<and> SnapshotCronInstance \<in> in_system (sch_tracker s')"
  using tick_runs_due_snapshot[OF demo_tick_facts, of "\<lambda>_. 1 / 2"] by simp

theorem tick_submits_only_due_witness:
  "\<exists>s' w'. checkAndRunCronTasks (\<lambda>_. 1 / 2) (\<lambda>_. Inr []) demo_now ''/b'' demo_scheduler demo_tick_world = Some (s', w')
     \<and> (\<exists>f. snapshot_due demo_now f demo_tick_world \<or> (\<exists>p \<in> set (cron_plans demo_tick_world). \<not> IsPaused p))"
proof -
  define r where "r = checkAndRunCronTasks (\<lambda>_. 1 / 2) (\<lambda>_. Inr []) demo_now ''/b'' demo_scheduler demo_tick_world"
  have "r \<noteq> None \<and> SnapshotCronInstance \<in> in_system (sch_tracker (fst (the r)))" unfolding r_def by code_simp
  then obtain s' w' where run: "r = Some (s', w')" "SnapshotCronInstance \<in> in_system (sch_tracker s')" by auto
  have "SnapshotCronInstance \<notin> in_system (sch_tracker demo_scheduler)"
    by (simp add: in_system_def demo_scheduler_def NewCronTaskTracker_def SnapshotCronInstance_def)
  from tick_submits_only_due[OF run(1)[unfolded r_def] run(2) this] run(1) show ?thesis unfolding r_def by blast
qed

section \<open>Log retention keeps its window\<close>

lemma retention_window_exact:
  assumes "0 < days" "days \<le> 106751"
  shows "retention_window days = days * 24 * ns_hour"
    and "now + wrap64 (- retention_window days) = now - days * 24 * ns_hour"
proof -
  have b: "0 \<le> days * 24" "days * 24 \<le> max_int64" "0 \<le> days * 24 * ns_hour" "days * 24 * ns_hour \<le> max_int64"
    using assms by (simp_all add: max_int64_def ns_hour_def)
  then show w: "retention_window days = days * 24 * ns_hour"
    by (simp add: retention_window_def wrap64_id min_int64_def)
  have "wrap64 (- (days * 24 * ns_hour)) = - (days * 24 * ns_hour)"
  proof (rule wrap64_id)
    show "min_int64 \<le> - (days * 24 * ns_hour)" using b(4) unfolding min_int64_def max_int64_def by linarith
    have "(0 :: int) \<le> max_int64" by (simp add: max_int64_def)
    then show "- (days * 24 * ns_hour) \<le> max_int64" using b(3) by linarith
  qed
  then show "now + wrap64 (- retention_window days) = now - days * 24 * ns_hour" by (simp add: w)
qed

lemma cleanup_effects:
  "Cron_CleanupOldLogs now d w = (r, w') \<Longrightarrow>
     (cron_logs w' = cron_logs w \<or> cron_logs w' = filter (\<lambda>l. now + wrap64 (- d) \<le> cl_StartedAt l) (cron_logs w))
     \<and> notification_logs w' = notification_logs w \<and> offsite_logs w' = offsite_logs w"
  "Notifications_CleanupOldLogs now d w = (r, w') \<Longrightarrow>
     (notification_logs w' = notification_logs w
       \<or> notification_logs w' = filter (\<lambda>l. now + wrap64 (- d) \<le> nl_CreatedAt l) (notification_logs w))
     \<and> cron_logs w' = cron_logs w \<and> offsite_logs w' = offsite_logs w"
  "Offsite_CleanupOldLogs now d w = (r, w') \<Longrightarrow>
     (offsite_logs w' = offsite_logs w \<or> offsite_logs w' = filter (\<lambda>l. now + wrap64 (- d) \<le> ol_CreatedAt l) (offsite_logs w))
     \<and> cron_logs w' = cron_logs w \<and> notification_logs w' = notification_logs w"
  by (auto simp: Cron_CleanupOldLogs_def Notifications_CleanupOldLogs_def Offsite_CleanupOldLogs_def Let_def
      del_where_def not_less same_but_io_fields split: prod.splits sum.splits elim!: sql_exec_cases)

lemma cleanup_calm:
  assumes "io_schedule w = []"
  shows "snd (Cron_CleanupOldLogs now d w) = w\<lparr>cron_logs := filter (\<lambda>l. now + wrap64 (- d) \<le> cl_StartedAt l) (cron_logs w)\<rparr>"
    "snd (Notifications_CleanupOldLogs now d w)
       = w\<lparr>notification_logs := filter (\<lambda>l. now + wrap64 (- d) \<le> nl_CreatedAt l) (notification_logs w)\<rparr>"
    "snd (Offsite_CleanupOldLogs now d w) = w\<lparr>offsite_logs := filter (\<lambda>l. now + wrap64 (- d) \<le> ol_CreatedAt l) (offsite_logs w)\<rparr>"
  using assms
  by (simp_all add: Cron_CleanupOldLogs_def Notifications_CleanupOldLogs_def Offsite_CleanupOldLogs_def Let_def
      calm_primitives del_where_def not_less)

text \<open>A sweep that is enabled is the three cleanups in turn.\<close>

lemma sweepOldLogs_runs:
  assumes "sweepOldLogs now kv w = Some (n, kv', w')" "RequiredInt KeyLogsRetentionDays kv w = Some (days, kv1, w1)"
  obtains "days \<le> 0" "w' = w1"
    | r1 w2 r2 w3 r3 where "0 < days" "Cron_CleanupOldLogs now (retention_window days) w1 = (r1, w2)"
      "Notifications_CleanupOldLogs now (retention_window days) w2 = (r2, w3)"
      "Offsite_CleanupOldLogs now (retention_window days) w3 = (r3, w')"
  using assms that by (auto simp: sweepOldLogs_def Let_def not_le split: if_splits prod.splits)

lemma RequiredInt_same:
  assumes "RequiredInt k kv w = Some (n, kv', w')"
  shows "same_but_io w w'" "io_schedule w = [] \<Longrightarrow> w' = w"
  using assms
  by (auto simp: RequiredInt_def KV_GetInt_def dbGet_def calm_primitives dest: sql_query_same
      split: option.splits if_splits prod.splits sum.splits)

text \<open>
  C37. Log retention never removes a record that is younger than the configured window, under
  every schedule of failed statements and in all three audit tables, as long as the window is
  at most 106751 days (it is then exact in 64-bit nanoseconds); a window of zero or less
  removes nothing; and with the database answering the tables hold exactly the records within
  the window afterwards.
\<close>

theorem sweepOldLogs_keeps_window:
  assumes "sweepOldLogs now kv w = Some (n, kv', w')" "RequiredInt KeyLogsRetentionDays kv w = Some (days, kv1, w1)"
    and "days \<le> 106751"
  shows "(\<forall>l \<in> set (cron_logs w). days \<le> 0 \<or> now - days * 24 * ns_hour \<le> cl_StartedAt l \<longrightarrow> l \<in> set (cron_logs w'))
    \<and> (\<forall>l \<in> set (notification_logs w). days \<le> 0 \<or> now - days * 24 * ns_hour \<le> nl_CreatedAt l \<longrightarrow> l \<in> set (notification_logs w'))
    \<and> (\<forall>l \<in> set (offsite_logs w). days \<le> 0 \<or> now - days * 24 * ns_hour \<le> ol_CreatedAt l \<longrightarrow> l \<in> set (offsite_logs w'))
    \<and> (io_schedule w = [] \<and> 0 < days \<longrightarrow>
         cron_logs w' = filter (\<lambda>l. now - days * 24 * ns_hour \<le> cl_StartedAt l) (cron_logs w)
         \<and> notification_logs w' = filter (\<lambda>l. now - days * 24 * ns_hour \<le> nl_CreatedAt l) (notification_logs w)
         \<and> offsite_logs w' = filter (\<lambda>l. now - days * 24 * ns_hour \<le> ol_CreatedAt l) (offsite_logs w))"
  using assms(1,2)
proof (cases rule: sweepOldLogs_runs)
  case 1
  then show ?thesis using same_but_io_fields[OF RequiredInt_same(1)[OF assms(2)]] by simp
next
  case (2 r1 w2 r2 w3 r3)
  note f = same_but_io_fields[OF RequiredInt_same(1)[OF assms(2)]]
  note e = retention_window_exact[OF 2(1) assms(3)]
  note c = cleanup_effects(1)[OF 2(2)] cleanup_effects(2)[OF 2(3)] cleanup_effects(3)[OF 2(4)]
  have calm: "cron_logs w' = filter (\<lambda>l. now - days * 24 * ns_hour \<le> cl_StartedAt l) (cron_logs w)
      \<and> notification_logs w' = filter (\<lambda>l. now - days * 24 * ns_hour \<le> nl_CreatedAt l) (notification_logs w)
      \<and> offsite_logs w' = filter (\<lambda>l. now - days * 24 * ns_hour \<le> ol_CreatedAt l) (offsite_logs w)"
    if "io_schedule w = []"
  proof -
    have w1: "w1 = w" using RequiredInt_same(2)[OF assms(2) that] .
    have w2: "w2 = w\<lparr>cron_logs := filter (\<lambda>l. now - days * 24 * ns_hour \<le> cl_StartedAt l) (cron_logs w)\<rparr>"
      using 2(2) cleanup_calm(1)[OF that, of now "retention_window days"] e(2) w1 by simp
    then have i2: "io_schedule w2 = []" using that by simp
    have w3: "w3 = w2\<lparr>notification_logs := filter (\<lambda>l. now - days * 24 * ns_hour \<le> nl_CreatedAt l) (notification_logs w2)\<rparr>"
      using 2(3) cleanup_calm(2)[OF i2, of now "retention_window days"] e(2) by simp
    then have i3: "io_schedule w3 = []" using i2 by simp
    show ?thesis using 2(4) cleanup_calm(3)[OF i3, of now "retention_window days"] e(2) w2 w3 by auto
  qed
  then show ?thesis using c f 2(1) unfolding e(2) by auto
qed

theorem sweepOldLogs_keeps_window_witness:
  "\<exists>n kv' w'. sweepOldLogs (400 * 24 * ns_hour) (NewKVStore\<lparr>initialized := True, intCache := [KeyLogsRetentionDays \<mapsto> 30]\<rparr>)
       (empty_world\<lparr>cron_logs := [new_log 1 ''db'' (399 * 24 * ns_hour), new_log 2 ''db'' 5]\<rparr>) = Some (n, kv', w')
     \<and> cron_logs w' = [new_log 1 ''db'' (399 * 24 * ns_hour)]"
proof -
  define kv where "kv = NewKVStore\<lparr>initialized := True, intCache := [KeyLogsRetentionDays \<mapsto> 30]\<rparr>"
  define w where "w = empty_world\<lparr>cron_logs := [new_log 1 ''db'' (399 * 24 * ns_hour), new_log 2 ''db'' 5]\<rparr>"
  have r: "RequiredInt KeyLogsRetentionDays kv w = Some (30, kv, w)"
    by (simp add: RequiredInt_def KV_GetInt_def kv_def)
  obtain r1 w2 where 1: "Cron_CleanupOldLogs (400 * 24 * ns_hour) (retention_window 30) w = (r1, w2)" by fastforce
  obtain r2 w3 where 2: "Notifications_CleanupOldLogs (400 * 24 * ns_hour) (retention_window 30) w2 = (r2, w3)" by fastforce
  obtain r3 w' where 3: "Offsite_CleanupOldLogs (400 * 24 * ns_hour) (retention_window 30) w3 = (r3, w')" by fastforce
  define n where "n = swept r1 + swept r2 + swept r3"
  have run: "sweepOldLogs (400 * 24 * ns_hour) kv w = Some (n, kv, w')"
    unfolding sweepOldLogs_def r option.case prod.case Let_def 1 2 3 n_def by simp
  from sweepOldLogs_keeps_window[OF run r]
  have "cron_logs w' = filter (\<lambda>l. 400 * 24 * ns_hour - 30 * 24 * ns_hour \<le> cl_StartedAt l) (cron_logs w)"
    by (simp add: w_def empty_world_def)
  then have "cron_logs w' = [new_log 1 ''db'' (399 * 24 * ns_hour)]" by (simp add: w_def new_log_def ns_hour_def)
  then show ?thesis using run unfolding kv_def w_def by blast
qed

text \<open>
  Beyond that range the product overflows. A window of 200000 days is negative, and the sweep
  then removes every record up to the present, the newest included.
\<close>

lemma retention_overflow_deletes_recent:
  assumes "sweepOldLogs now kv w = Some (n, kv', w')" "RequiredInt KeyLogsRetentionDays kv w = Some (200000, kv1, w1)"
    and "io_schedule w = []" "cl_StartedAt l \<le> now"
  shows "l \<notin> set (cron_logs w')"
  using assms(1,2)
proof (cases rule: sweepOldLogs_runs)
  case (2 r1 w2 r2 w3 r3)
  have win: "retention_window 200000 = -1166744073709551616"
    by (simp add: retention_window_def wrap64_def ns_hour_def)
  have "w1 = w" by (rule RequiredInt_same(2)[OF assms(2,3)])
  then have "cron_logs w2 = filter (\<lambda>l. now + wrap64 1166744073709551616 \<le> cl_StartedAt l) (cron_logs w)"
    using 2(2) cleanup_calm(1)[OF assms(3), of now "retention_window 200000"] win by simp
  moreover have "cron_logs w' = cron_logs w2"
    using cleanup_effects(2)[OF 2(3)] cleanup_effects(3)[OF 2(4)] by simp
  moreover have "wrap64 1166744073709551616 = 1166744073709551616" by (simp add: wrap64_def)
  ultimately show ?thesis using assms(4) by simp
qed simp

end
