(* ===== verification/Sender.thy ===== *)
theory Sender
  imports NotificationStore Scheduler
begin

text \<open>
  Delivery of notices, \<open>internal/services/notification_sender.go\<close>, the operations on channels
  (\<open>internal/operations/notification_*.go\<close>) and the daily reminder of a paused schedule
  (\<open>internal/daemon/paused_schedule_reminder.go\<close>). What a third-party notifier accepted is
  the \<open>outbox\<close> of the world, as pairs of destination and message. JSON and the escapes of
  \<open>net/url\<close> are arguments.
\<close>

section \<open>The display name\<close>

definition KV_GetWithDefault :: "string \<Rightarrow> string \<Rightarrow> KVStore \<Rightarrow> world \<Rightarrow> (string \<times> KVStore \<times> world) option" where
  "KV_GetWithDefault k defaultValue kv w =
     (case KV_Get k kv w of
        None \<Rightarrow> None
      | Some (Inl e, kv1, w1) \<Rightarrow> Some (defaultValue, kv1, w1)
      | Some (Inr v, kv1, w1) \<Rightarrow> Some (v, kv1, w1))"

definition KV_GetIntWithDefault :: "string \<Rightarrow> int \<Rightarrow> KVStore \<Rightarrow> world \<Rightarrow> (int \<times> KVStore \<times> world) option" where
  "KV_GetIntWithDefault k defaultValue kv w =
     (case KV_GetInt k kv w of
        None \<Rightarrow> None
      | Some (Inl e, kv1, w1) \<Rightarrow> Some (defaultValue, kv1, w1)
      | Some (Inr v, kv1, w1) \<Rightarrow> Some (v, kv1, w1))"

definition GetDisplayName :: "string res \<Rightarrow> KVStore \<Rightarrow> world \<Rightarrow> (string \<times> KVStore \<times> world) option" where
  "GetDisplayName os_Hostname kv w =
     (case KV_GetWithDefault KeySystemDisplayName '''' kv w of
        None \<Rightarrow> None
      | Some (displayName, kv1, w1) \<Rightarrow>
          Some (if displayName = '''' then (case os_Hostname of Inl e \<Rightarrow> ''unknown'' | Inr hostname \<Rightarrow> hostname)
                else displayName, kv1, w1))"

section \<open>Preparing a message\<close>

text \<open>What the channels' configurations decode to, as far as the sender reads them.\<close>

record codec =
  un_email :: "string \<Rightarrow> (string list \<times> string) res"
  un_slack :: "string \<Rightarrow> string res"
  un_telegram :: "string \<Rightarrow> (string \<times> string) res"
  un_webhook :: "string \<Rightarrow> (string \<times> string \<times> string) res"
  marshal_object :: "string \<Rightarrow> string \<Rightarrow> string res"
  query_escape :: "string \<Rightarrow> string"
  form_encode :: "string \<Rightarrow> string \<Rightarrow> string"
  new_telegram :: "string \<Rightarrow> goerror option"

abbreviation newline :: string where "newline \<equiv> [char_of (10 :: nat)]"

definition combineSubjectBody :: "string \<Rightarrow> string \<Rightarrow> string" where
  "combineSubjectBody subject body =
     (if subject = '''' then body else subject @ newline @ newline @ body)"

definition emailNotifier :: "'x codec_scheme \<Rightarrow> Notification \<Rightarrow> string \<Rightarrow> string \<Rightarrow> (string \<times> string) res" where
  "emailNotifier cd n subject body =
     (case un_email cd (nt_Config n) of
        Inl e \<Rightarrow> Inl (wrap ''failed to parse email config'' e)
      | Inr (recipients, sender) \<Rightarrow>
          let destination = ''mailto:'' @ JoinWith '','' recipients @ ''?from='' @ sender in
          Inr (if subject \<noteq> '''' then destination @ ''&subject='' @ query_escape cd subject else destination, body))"

definition slackNotifier :: "'x codec_scheme \<Rightarrow> Notification \<Rightarrow> string \<Rightarrow> string \<Rightarrow> (string \<times> string) res" where
  "slackNotifier cd n subject body =
     (case un_slack cd (nt_Config n) of
        Inl e \<Rightarrow> Inl (wrap ''failed to parse slack config'' e)
      | Inr url \<Rightarrow>
          (case marshal_object cd ''text'' (combineSubjectBody subject body) of
             Inl e \<Rightarrow> Inl (wrap ''failed to marshal Slack message'' e)
           | Inr msg \<Rightarrow> Inr (url, msg)))"

definition telegramNotifier :: "'x codec_scheme \<Rightarrow> Notification \<Rightarrow> string \<Rightarrow> string \<Rightarrow> (string \<times> string) res" where
  "telegramNotifier cd n subject body =
     (case un_telegram cd (nt_Config n) of
        Inl e \<Rightarrow> Inl (wrap ''failed to parse telegram config'' e)
      | Inr (token, chatID) \<Rightarrow>
          (case new_telegram cd token of
             Some e \<Rightarrow> Inl (wrap ''failed to create telegram notifier'' e)
           | None \<Rightarrow> Inr (''telegram:'' @ chatID, combineSubjectBody subject body)))"

definition webhookMessage :: "'x codec_scheme \<Rightarrow> string \<Rightarrow> string \<Rightarrow> string \<Rightarrow> string \<Rightarrow> string res" where
  "webhookMessage cd bodyType messageKey subject body =
     (let message = combineSubjectBody subject body;
          key = (if messageKey = '''' then ''text'' else messageKey) in
      if bodyType = ''plain'' \<or> bodyType = '''' then Inr message
      else if bodyType = ''json'' then
        (case marshal_object cd key message of
           Inl e \<Rightarrow> Inl (wrap ''failed to marshal JSON message'' e) | Inr msg \<Rightarrow> Inr msg)
      else if bodyType = ''post'' then Inr (form_encode cd key message)
      else Inl (Errorf0 (''unsupported request body type: '' @ bodyType)))"

definition webhookNotifier :: "'x codec_scheme \<Rightarrow> Notification \<Rightarrow> string \<Rightarrow> string \<Rightarrow> (string \<times> string) res" where
  "webhookNotifier cd n subject body =
     (case un_webhook cd (nt_Config n) of
        Inl e \<Rightarrow> Inl (wrap ''failed to parse webhook config'' e)
      | Inr (url, bodyType, messageKey) \<Rightarrow>
          (case webhookMessage cd bodyType messageKey subject body of
             Inl e \<Rightarrow> Inl e | Inr msg \<Rightarrow> Inr (url, msg)))"

definition createNotifier :: "'x codec_scheme \<Rightarrow> Notification \<Rightarrow> string \<Rightarrow> string \<Rightarrow> (string \<times> string) res" where
  "createNotifier cd n subject body =
     (if nt_Type n = ''email'' then emailNotifier cd n subject body
      else if nt_Type n = ''slack'' then slackNotifier cd n subject body
      else if nt_Type n = ''telegram'' then telegramNotifier cd n subject body
      else if nt_Type n = ''webhook'' then webhookNotifier cd n subject body
      else Inl (Errorf0 (''unsupported notification type: '' @ nt_Type n)))"

section \<open>Sending\<close>

text \<open>One request to the notification service; a lost answer has still delivered.\<close>

definition notifier_Send :: "string \<Rightarrow> string \<Rightarrow> world \<Rightarrow> goerror option \<times> world" where
  "notifier_Send destination msg w =
     (case next_io w of (oc, w1) \<Rightarrow>
        (case oc of
           Done \<Rightarrow> (None, w1\<lparr>outbox := outbox w1 @ [(destination, msg)]\<rparr>)
         | Refused \<Rightarrow> (Some (DriverError ''notify''), w1)
         | Lost \<Rightarrow> (Some (DriverError ''notify''), w1\<lparr>outbox := outbox w1 @ [(destination, msg)]\<rparr>)))"

record sender =
  sd_codec :: codec
  sd_dec :: "string \<Rightarrow> string res"
  sd_now :: gotime

definition sendNotification :: "sender \<Rightarrow> Notification \<Rightarrow> string \<Rightarrow> string \<Rightarrow> world \<Rightarrow> goerror option \<times> world" where
  "sendNotification sd n subject body w =
     (case createNotifier (sd_codec sd) n subject body of
        Inl e \<Rightarrow> (Some e, snd (LogNotification (sd_now sd) (nt_Name n) ''error'' None (Some (Error e)) w))
      | Inr (destination, preparedMessage) \<Rightarrow>
          (case notifier_Send destination preparedMessage w of
             (Some e, w1) \<Rightarrow>
               (Some (wrap ''failed to send notification'' e),
                snd (LogNotification (sd_now sd) (nt_Name n) ''error'' (Some subject) (Some (Error e)) w1))
           | (None, w1) \<Rightarrow>
               (None, snd (LogNotification (sd_now sd) (nt_Name n) ''success'' (Some subject) None w1))))"

definition Send :: "sender \<Rightarrow> string \<Rightarrow> string \<Rightarrow> string \<Rightarrow> world \<Rightarrow> goerror option \<times> world" where
  "Send sd name subject body w =
     (case Notifications_Get (sd_dec sd) name w of
        (Inl e, w1) \<Rightarrow> (Some (wrap ''failed to get notification'' e), w1)
      | (Inr n, w1) \<Rightarrow> sendNotification sd n subject body w1)"

fun send_each :: "sender \<Rightarrow> string \<Rightarrow> string \<Rightarrow> Notification list \<Rightarrow> world \<Rightarrow> string list \<times> world" where
  "send_each sd subject body [] w = ([], w)"
| "send_each sd subject body (n # ns) w =
     (case sendNotification sd n subject body w of
        (None, w1) \<Rightarrow> send_each sd subject body ns w1
      | (Some e, w1) \<Rightarrow>
          (case send_each sd subject body ns w1 of (errs, w2) \<Rightarrow> ((nt_Name n @ '': '' @ Error e) # errs, w2)))"

definition SendToAll :: "sender \<Rightarrow> string \<Rightarrow> string \<Rightarrow> world \<Rightarrow> goerror option \<times> world" where
  "SendToAll sd subject body w =
     (case Notifications_List (sd_dec sd) w of
        (Inl e, w1) \<Rightarrow> (Some (wrap ''failed to list notifications'' e), w1)
      | (Inr ns, w1) \<Rightarrow>
          if ns = [] then (Some (Sentinel ErrNoNotificationsConfigured), w1)
          else case send_each sd subject body ns w1 of (errs, w2) \<Rightarrow>
            (if errs \<noteq> [] then (Some (Errorf0 (''some notifications failed: '' @ JoinWith ''; '' errs)), w2)
             else (None, w2)))"

definition Sender_Test :: "sender \<Rightarrow> string res \<Rightarrow> KVStore \<Rightarrow> world \<Rightarrow> (goerror option \<times> KVStore \<times> world) option" where
  "Sender_Test sd os_Hostname kv w =
     (case GetDisplayName os_Hostname kv w of
        None \<Rightarrow> None
      | Some (displayName, kv1, w1) \<Rightarrow>
          (case SendToAll sd (''ODDK Test Notification ('' @ displayName @ '')'')
             ''This is a test notification from ODDK to verify your notification configuration is working correctly.'' w1 of
             (e, w2) \<Rightarrow> Some (e, kv1, w2)))"

section \<open>Operations on channels\<close>

definition NotificationAdd ::
  "(string \<Rightarrow> string res) \<Rightarrow> (string \<Rightarrow> string \<Rightarrow> goerror option) \<Rightarrow> gotime \<Rightarrow> string \<Rightarrow> string \<Rightarrow> string \<Rightarrow> world
     \<Rightarrow> Notification res \<times> world" where
  "NotificationAdd enc validate now name notifType config w =
     (case ValidateNotificationName name of
        Some e \<Rightarrow> (Inl (wrap ''invalid name'' e), w)
      | None \<Rightarrow>
          (case Notifications_Create enc validate now name notifType config w of
             (Inl e, w1) \<Rightarrow> (Inl (wrap ''failed to add notification'' e), w1)
           | (Inr n, w1) \<Rightarrow> (Inr n, w1)))"

definition NotificationRemove :: "string \<Rightarrow> world \<Rightarrow> goerror option \<times> world" where
  "NotificationRemove name w =
     (case Notifications_Delete name w of
        (Some e, w1) \<Rightarrow> (Some (wrap ''failed to remove notification'' e), w1) | (None, w1) \<Rightarrow> (None, w1))"

definition NotificationLogs :: "int \<Rightarrow> world \<Rightarrow> NotificationLog list res \<times> world" where
  "NotificationLogs limit w = Notifications_GetLogs (if limit \<le> 0 then 100 else limit) w"

definition NotificationTest :: "sender \<Rightarrow> string res \<Rightarrow> KVStore \<Rightarrow> world \<Rightarrow> (goerror option \<times> KVStore \<times> world) option" where
  "NotificationTest sd os_Hostname kv w =
     (case Sender_Test sd os_Hostname kv w of
        None \<Rightarrow> None
      | Some (e, kv1, w1) \<Rightarrow> Some (map_option (wrap ''notification test failed'') e, kv1, w1))"

definition NotificationEdit ::
  "(string \<Rightarrow> string res) \<Rightarrow> (string \<Rightarrow> string res) \<Rightarrow> (string \<Rightarrow> string \<Rightarrow> goerror option) \<Rightarrow> gotime \<Rightarrow> string \<Rightarrow> string \<Rightarrow> string
     \<Rightarrow> world \<Rightarrow> Notification res \<times> world" where
  "NotificationEdit enc dec validate now name notifType config w =
     (case ValidateNotificationName name of
        Some e \<Rightarrow> (Inl (wrap ''invalid name'' e), w)
      | None \<Rightarrow> (case ValidateNotificationType notifType of
        Some e \<Rightarrow> (Inl e, w)
      | None \<Rightarrow> (case validate notifType config of
        Some e \<Rightarrow> (Inl e, w)
      | None \<Rightarrow>
          (case Notifications_Update enc dec validate now name notifType config w of
             (Inl e, w1) \<Rightarrow> (Inl (wrap ''failed to update notification'' e), w1)
           | (Inr n, w1) \<Rightarrow> (Inr n, w1)))))"

section \<open>The daily reminder of a paused schedule\<close>

text \<open>The UTF-8 bytes of the pause sign and of the dash; \<open>fmt_utc\<close> is \<open>UTC().Format\<close>.\<close>

definition pause_sign :: string where "pause_sign = map char_of [226, 143, 184, 239, 184, 143 :: nat]"
definition em_dash :: string where "em_dash = map char_of [226, 128, 148 :: nat]"

definition snapshot_notice :: "(gotime \<Rightarrow> string) \<Rightarrow> string \<Rightarrow> Plan \<Rightarrow> string" where
  "snapshot_notice fmt_utc displayName plan =
     ''The deployment-wide snapshot schedule on '' @ displayName @
     '' is PAUSED, so NO snapshots are being taken and this host cannot currently be rebuilt from one.'' @ newline @ newline
     @ ''Paused since: '' @ fmt_utc (plan_PausedAt plan) @ newline
     @ (if plan_PausedReason plan \<noteq> '''' then ''Reason: '' @ plan_PausedReason plan @ newline else '''')
     @ newline @ ''Resume with:'' @ newline @ ''  oddk snapshot setup-cron --resume'' @ newline"

definition backups_notice :: "CronPlan list \<Rightarrow> string" where
  "backups_notice pausedBackups =
     (if pausedBackups = [] then ''''
      else newline @ ''Paused backup schedules: '' @ JoinWith '', '' (map cp_InstanceName pausedBackups) @ newline
        @ ''Resume each with:'' @ newline @ ''  oddk backup setup-cron --instance <name> --resume'' @ newline)"

definition rehearsal_notice :: string where
  "rehearsal_notice =
     newline @ ''If this is a disaster-recovery rehearsal or a staged migration and the SOURCE host is still live, leaving these paused is correct ''
     @ em_dash @ '' the restored offsite settings point at the source's bucket, and resuming here would upload into it and run retention against it. ''
     @ ''Point this host at its own bucket with 'oddk offsite apply' before resuming.'' @ newline
     @ newline @ ''This reminder repeats daily until the schedules are resumed or removed.''"

definition pausedScheduleNotice ::
  "(gotime \<Rightarrow> string) \<Rightarrow> string res \<Rightarrow> KVStore \<Rightarrow> world \<Rightarrow> ((string \<times> string) option \<times> KVStore \<times> world) option" where
  "pausedScheduleNotice fmt_utc os_Hostname kv w =
     (case Snapshot_GetPlan w of
        (Inl e, w1) \<Rightarrow> Some (None, kv, w1)
      | (Inr plan, w1) \<Rightarrow>
          (case Cron_ListPausedPlans w1 of
             (Inl e, w2) \<Rightarrow> Some (None, kv, w2)
           | (Inr pausedBackups, w2) \<Rightarrow>
               let snapshotPaused = (case plan of None \<Rightarrow> False | Some p \<Rightarrow> Plan_IsPaused p) in
               if \<not> snapshotPaused \<and> pausedBackups = [] then Some (None, kv, w2)
               else
                 (case GetDisplayName os_Hostname kv w2 of
                    None \<Rightarrow> None
                  | Some (displayName, kv1, w3) \<Rightarrow>
                      Some (Some
                        (if snapshotPaused
                         then (pause_sign @ ''  ODDK: snapshot schedule is PAUSED ('' @ displayName @ '')'',
                               snapshot_notice fmt_utc displayName (the plan) @ backups_notice pausedBackups @ rehearsal_notice)
                         else (pause_sign @ ''  ODDK: backup schedules are PAUSED ('' @ displayName @ '')'',
                               ''Per-instance backup schedules on '' @ displayName @ '' are PAUSED.'' @ newline
                               @ backups_notice pausedBackups @ rehearsal_notice)), kv1, w3))))"

definition remindIfSchedulesPaused ::
  "(gotime \<Rightarrow> string) \<Rightarrow> sender \<Rightarrow> string res \<Rightarrow> KVStore \<Rightarrow> world \<Rightarrow> (KVStore \<times> world) option" where
  "remindIfSchedulesPaused fmt_utc sd os_Hostname kv w =
     (case pausedScheduleNotice fmt_utc os_Hostname kv w of
        None \<Rightarrow> None
      | Some (None, kv1, w1) \<Rightarrow> Some (kv1, w1)
      | Some (Some (subject, body), kv1, w1) \<Rightarrow> Some (kv1, snd (SendToAll sd subject body w1)))"

section \<open>What the sender leaves alone\<close>

text \<open>
  Sending only adds to the outbox and to the delivery log, one log entry at most for each
  message.
\<close>

definition only_notices :: "world \<Rightarrow> world \<Rightarrow> bool" where
  "only_notices w w' \<longleftrightarrow>
     w'\<lparr>outbox := outbox w, notification_logs := notification_logs w,
        notification_log_seq := notification_log_seq w, io_schedule := io_schedule w\<rparr> = w
     \<and> prefix (outbox w) (outbox w') \<and> prefix (notification_logs w) (notification_logs w')"

lemma only_notices_refl [simp]: "only_notices w w"
  by (simp add: only_notices_def)

lemma only_notices_trans [trans]: "only_notices a b \<Longrightarrow> only_notices b c \<Longrightarrow> only_notices a c"
  unfolding only_notices_def by (cases a; cases b; cases c) auto

lemma only_notices_io: "same_but_io w w' \<Longrightarrow> only_notices w w'"
  unfolding only_notices_def same_but_io_def by (cases w; cases w') simp

lemma only_notices_fields:
  assumes "only_notices w w'"
  shows "health w' = health w" "kvstore w' = kvstore w" "notifications w' = notifications w"
    "rdbms_instances w' = rdbms_instances w" "health_seq w' = health_seq w"
    "snapshot_plans w' = snapshot_plans w" "cron_plans w' = cron_plans w"
  using assms unfolding only_notices_def by (cases w; cases w'; simp)+

lemma LogNotification_notices: "LogNotification now n s m e w = (r, w') \<Longrightarrow> only_notices w w' \<and> outbox w' = outbox w"
  by (auto simp: LogNotification_def sql_exec_def Let_def only_notices_def next_io_def
      split: prod.splits sum.splits outcome.splits list.splits)

lemma notifier_Send_notices:
  assumes "notifier_Send d m w = (r, w')"
  shows "only_notices w w'" "r = None \<Longrightarrow> outbox w' = outbox w @ [(d, m)]"
  using assms by (auto simp: notifier_Send_def only_notices_def next_io_def
      split: prod.splits outcome.splits list.splits)

lemma sendNotification_notices:
  assumes "sendNotification sd n subject body w = (r, w')"
  shows "only_notices w w'"
    "r = None \<Longrightarrow> \<exists>m. createNotifier (sd_codec sd) n subject body = Inr m \<and> outbox w' = outbox w @ [m]"
proof -
  have "only_notices w w' \<and> (r = None \<longrightarrow>
      (\<exists>m. createNotifier (sd_codec sd) n subject body = Inr m \<and> outbox w' = outbox w @ [m]))"
  proof (cases "createNotifier (sd_codec sd) n subject body")
    case (Inl e)
    then show ?thesis using assms LogNotification_notices by (auto simp: sendNotification_def) (metis prod.collapse)
  next
    case (Inr dm)
    obtain d m where dm: "dm = (d, m)" by fastforce
    obtain q w1 where s: "notifier_Send d m w = (q, w1)" by fastforce
    note f = notifier_Send_notices[OF s]
    obtain x where l: "LogNotification (sd_now sd) (nt_Name n) (if q = None then ''success'' else ''error'')
        (Some subject) (map_option Error q) w1 = (x, w')" "r = map_option (wrap ''failed to send notification'') q"
      using assms Inr dm s by (cases q) (auto simp: sendNotification_def prod_eq_iff)
    note g = LogNotification_notices[OF l(1)]
    show ?thesis using f g l(2) Inr dm only_notices_trans by auto
  qed
  then show "only_notices w w'"
    "r = None \<Longrightarrow> \<exists>m. createNotifier (sd_codec sd) n subject body = Inr m \<and> outbox w' = outbox w @ [m]" by blast+
qed

lemma Send_notices:
  assumes "Send sd name subject body w = (r, w')"
  shows "only_notices w w'" "r = None \<Longrightarrow> \<exists>m. outbox w' = outbox w @ [m]"
proof -
  obtain q w1 where g: "Notifications_Get (sd_dec sd) name w = (q, w1)" by fastforce
  have io: "same_but_io w w1"
    using g by (auto simp: Notifications_Get_def split: prod.splits sum.splits option.splits intro: sql_query_same)
  note f = only_notices_io[OF io] same_but_io_fields(30)[OF io]
  have "only_notices w w' \<and> (r = None \<longrightarrow> (\<exists>m. outbox w' = outbox w @ [m]))"
  proof (cases q)
    case (Inl e)
    then show ?thesis using assms g f(1) by (auto simp: Send_def)
  next
    case (Inr n)
    then have s: "sendNotification sd n subject body w1 = (r, w')" using assms g by (simp add: Send_def)
    show ?thesis using sendNotification_notices[OF s] f only_notices_trans by auto
  qed
  then show "only_notices w w'" "r = None \<Longrightarrow> \<exists>m. outbox w' = outbox w @ [m]" by blast+
qed

lemma send_each_notices:
  "send_each sd subject body ns w = (errs, w') \<Longrightarrow> only_notices w w'
     \<and> (errs = [] \<longrightarrow> (\<exists>ms. map (\<lambda>n. createNotifier (sd_codec sd) n subject body) ns = map Inr ms \<and> outbox w' = outbox w @ ms))"
proof (induction ns arbitrary: w errs)
  case (Cons n ns)
  obtain r w1 where s: "sendNotification sd n subject body w = (r, w1)" by fastforce
  obtain errs' where e: "send_each sd subject body ns w1 = (errs', w')" "errs = [] \<longleftrightarrow> r = None \<and> errs' = []"
    using Cons.prems s by (cases r) (auto split: prod.splits)
  note f = sendNotification_notices[OF s]
  show ?case
  proof (intro conjI impI)
    show "only_notices w w'" using f(1) Cons.IH[OF e(1)] only_notices_trans by blast
    assume "errs = []"
    then have r: "r = None" "errs' = []" using e(2) by simp_all
    obtain m where m: "createNotifier (sd_codec sd) n subject body = Inr m" "outbox w1 = outbox w @ [m]"
      using f(2)[OF r(1)] by blast
    obtain ms where ms: "map (\<lambda>n. createNotifier (sd_codec sd) n subject body) ns = map Inr ms" "outbox w' = outbox w1 @ ms"
      using Cons.IH[OF e(1)] r(2) by blast
    show "\<exists>ms. map (\<lambda>n. createNotifier (sd_codec sd) n subject body) (n # ns) = map Inr ms \<and> outbox w' = outbox w @ ms"
      by (rule exI[of _ "m # ms"]) (use m ms in simp)
  qed
qed simp

text \<open>
  A notice to all channels that reports success reached every configured channel, in the
  order of their names.
\<close>

theorem SendToAll_reaches_all:
  assumes "SendToAll sd subject body w = (None, w')"
  obtains ns ms w1 where "Notifications_List (sd_dec sd) w = (Inr ns, w1)" "ns \<noteq> []"
    "map (\<lambda>n. createNotifier (sd_codec sd) n subject body) ns = map Inr ms" "outbox w' = outbox w @ ms"
proof -
  obtain ns w1 where l: "Notifications_List (sd_dec sd) w = (Inr ns, w1)" "ns \<noteq> []"
    "send_each sd subject body ns w1 = ([], w')"
    using assms by (auto simp: SendToAll_def split: prod.splits sum.splits if_splits)
  have "same_but_io w w1"
    using l(1) by (auto simp: Notifications_List_def split: prod.splits sum.splits intro: sql_query_same)
  then have "outbox w1 = outbox w" by (rule same_but_io_fields)
  then show thesis using that l send_each_notices[OF l(3)] by auto
qed

text \<open>The reminder speaks exactly when a schedule is paused, as long as the store answers.\<close>

theorem pausedScheduleNotice_iff:
  assumes "io_schedule w = []" "pausedScheduleNotice fmt h kv w = Some (r, kv', w')"
  shows "r \<noteq> None \<longleftrightarrow> (\<exists>p. snapshot_plans w = Some p \<and> Plan_IsPaused p) \<or> (\<exists>p \<in> set (cron_plans w). IsPaused p)"
proof -
  have e: "order_by_name ps = [] \<longleftrightarrow> ps = []" for ps
    by (metis set_empty set_order_by order_by_name_def)
  show ?thesis
    using assms by (auto simp: pausedScheduleNotice_def Snapshot_GetPlan_def Cron_ListPausedPlans_def
        calm_primitives Let_def e filter_empty_conv split: option.splits if_splits prod.splits)
qed

end
