(* ===== verification/Parameters.thy ===== *)
theory Parameters
  imports OffsiteStore
begin

text \<open>
  Parameter groups, \<open>internal/store/parameters\<close>: the store, the resolver that evaluates the
  \<open>{expr}\<close> templates of a group for an instance's size, and the shared-memory estimate that
  can refuse a group before a container is touched. The expression library is an argument.
\<close>

section \<open>The store\<close>

definition DefaultParameterGroup :: string where "DefaultParameterGroup = ''default:2025-08-27''"

definition cli_param :: "string \<Rightarrow> string \<Rightarrow> string \<Rightarrow> Parameter" where
  "cli_param name vtype v =
     \<lparr>par_GroupName = '''', par_Name = name, par_Type = ''postgres_cli_arg'', par_ValueType = vtype, par_Value = v, par_CreatedAt = 0\<rparr>"

definition GetDefaultParameters :: "Parameter list" where
  "GetDefaultParameters =
     [cli_param ''shared_buffers'' ''numeric_mem'' ''{expr}round(DBContainerMemoryMB / 4){/expr} MB'',
      cli_param ''max_connections'' ''numeric'' ''{expr}round(DBContainerMemoryMB / 16){/expr}'',
      cli_param ''effective_cache_size'' ''numeric_mem'' ''{expr}round(DBContainerMemoryMB * 0.75){/expr} MB'',
      cli_param ''effective_io_concurrency'' ''numeric'' ''{expr}DBContainerCoreCount * 8{/expr}'',
      cli_param ''max_worker_processes'' ''numeric'' ''{expr}max(8, DBContainerCoreCount * 2){/expr}'',
      cli_param ''maintenance_work_mem'' ''numeric_mem'' ''{expr}min(max(round(DBContainerMemoryMB * 0.05), 64), 2048){/expr} MB'',
      cli_param ''work_mem'' ''numeric_mem'' ''{expr}min(max(round((DBContainerMemoryMB * 0.25) / MaxConnections), 4), 64){/expr} MB'']"

definition GroupExists :: "string \<Rightarrow> world \<Rightarrow> bool res \<times> world" where
  "GroupExists groupName w =
     (case sql_query (\<lambda>w. groupName \<in> par_GroupName ` set (parameters w)) w of
        (Inl e, w1) \<Rightarrow> (Inl (wrap ''check group existence'' e), w1)
      | (Inr b, w1) \<Rightarrow> (Inr b, w1))"

text \<open>
  The inserts of one transaction: each can fail on its own, on the primary key too, and
  nothing shows before the commit.
\<close>

fun insert_params :: "gotime \<Rightarrow> string \<Rightarrow> Parameter list \<Rightarrow> Parameter list \<Rightarrow> world \<Rightarrow> Parameter list res \<times> world" where
  "insert_params now g [] table w = (Inr table, w)"
| "insert_params now g (p # ps) table w =
     (case tx_step w of
        (Inl e, w1) \<Rightarrow> (Inl (wrap (''insert parameter '' @ par_Name p) e), w1)
      | (Inr _, w1) \<Rightarrow>
          if (g, par_Name p) \<in> (\<lambda>q. (par_GroupName q, par_Name q)) ` set table
          then (Inl (wrap (''insert parameter '' @ par_Name p) (DriverError ''UNIQUE constraint failed: parameters'')), w1)
          else insert_params now g ps (table @ [p\<lparr>par_GroupName := g, par_CreatedAt := now\<rparr>]) w1)"

definition CreateGroup :: "gotime \<Rightarrow> string \<Rightarrow> Parameter list \<Rightarrow> world \<Rightarrow> goerror option \<times> world" where
  "CreateGroup now groupName params w =
     (if groupName = '''' then (Some (Errorf0 ''group name cannot be empty''), w)
      else if HasPrefix groupName ''default:'' \<and> groupName \<noteq> DefaultParameterGroup
      then (Some (Errorf0 ''cannot create parameter groups with default: prefix''), w)
      else case GroupExists groupName w of
        (Inl e, w1) \<Rightarrow> (Some (wrap ''check group existence'' e), w1)
      | (Inr True, w1) \<Rightarrow> (Some (Errorf0 (''parameter group '' @ groupName @ '' already exists'')), w1)
      | (Inr False, w1) \<Rightarrow>
     (case tx_step w1 of
        (Inl e, w2) \<Rightarrow> (Some (wrap ''begin transaction'' e), w2)
      | (Inr _, w2) \<Rightarrow>
     (case insert_params now groupName params (parameters w2) w2 of
        (Inl e, w3) \<Rightarrow> (Some e, w3)
      | (Inr table, w3) \<Rightarrow>
     (case sql_exec (\<lambda>w. Inr (w\<lparr>parameters := table\<rparr>, 0)) w3 of
        (Inl e, w4) \<Rightarrow> (Some e, w4)
      | (Inr _, w4) \<Rightarrow> (None, w4)))))"

definition GetGroup :: "string \<Rightarrow> world \<Rightarrow> Parameter list res \<times> world" where
  "GetGroup groupName w =
     (case sql_query (\<lambda>w. order_by par_Name (filter (\<lambda>p. par_GroupName p = groupName) (parameters w))) w of
        (Inl e, w1) \<Rightarrow> (Inl (wrap ''get parameters'' e), w1)
      | (Inr ps, w1) \<Rightarrow>
          if ps = [] then (Inl (Errorf0 (''parameter group not found: '' @ groupName)), w1) else (Inr ps, w1))"

definition ListGroups :: "world \<Rightarrow> string list res \<times> world" where
  "ListGroups w =
     (case sql_query (\<lambda>w. order_by (\<lambda>g. g) (remdups (map par_GroupName (parameters w)))) w of
        (Inl e, w1) \<Rightarrow> (Inl (wrap ''list parameter groups'' e), w1)
      | (Inr gs, w1) \<Rightarrow> (Inr gs, w1))"

definition DeleteGroup :: "string \<Rightarrow> world \<Rightarrow> goerror option \<times> world" where
  "DeleteGroup groupName w =
     (if groupName = '''' then (Some (Errorf0 ''group name cannot be empty''), w)
      else if groupName = DefaultParameterGroup
      then (Some (Errorf0 ''cannot delete the default parameter group of the current version''), w)
      else case sql_query (\<lambda>w. count_where (\<lambda>i. inst_ParameterGroup i = groupName) (rdbms_instances w)) w of
        (Inl e, w1) \<Rightarrow> (Some (wrap ''check parameter group usage'' e), w1)
      | (Inr instanceCount, w1) \<Rightarrow>
          if instanceCount > 0
          then (Some (Errorf0 (''cannot delete parameter group '' @ groupName @ '': it is being used by ''
                  @ Itoa instanceCount @ '' instance(s)'')), w1)
          else (case sql_exec (\<lambda>w. Inr (w\<lparr>parameters := del_where (\<lambda>p. par_GroupName p = groupName) (parameters w)\<rparr>,
                                       count_where (\<lambda>p. par_GroupName p = groupName) (parameters w))) w1 of
                  (Inl e, w2) \<Rightarrow> (Some (wrap ''delete parameter group'' e), w2)
                | (Inr n, w2) \<Rightarrow>
                    if n = 0 then (Some (Errorf0 (''parameter group not found: '' @ groupName)), w2) else (None, w2)))"

definition EnsureDefaultParameterGroup :: "gotime \<Rightarrow> world \<Rightarrow> goerror option \<times> world" where
  "EnsureDefaultParameterGroup now w =
     (case GroupExists DefaultParameterGroup w of
        (Inl e, w1) \<Rightarrow> (Some (wrap ''check default parameter group'' e), w1)
      | (Inr True, w1) \<Rightarrow> (None, w1)
      | (Inr False, w1) \<Rightarrow> CreateGroup now DefaultParameterGroup GetDefaultParameters w1)"

section \<open>The resolver\<close>

record ExpressionContext =
  ctx_DBContainerMemoryMB :: int
  ctx_DBContainerCoreCount :: int
  ctx_MaxConnections :: int

record ResolvedParameter =
  rp_Name :: string
  rp_Type :: string
  rp_ValueType :: string
  rp_Value :: string

text \<open>What an expression evaluates to; a float comes with its shortest decimal text.\<close>

datatype expr_result = IntResult int | FloatResult string | OtherResult string

fun result_text :: "expr_result \<Rightarrow> string" where
  "result_text (IntResult i) = Itoa i"
| "result_text (FloatResult t) = t"
| "result_text (OtherResult t) = t"

definition open_tag :: string where "open_tag = ''{expr}''"
definition close_tag :: string where "close_tag = ''{/expr}''"

text \<open>The lazy body of the pattern: up to the first closing tag, on one line.\<close>

fun expr_body :: "string \<Rightarrow> (string \<times> string) option" where
  "expr_body [] = None"
| "expr_body (c # cs) =
     (if HasPrefix (c # cs) close_tag then Some ('''', drop 7 (c # cs))
      else if c = CHR 0x0A then None
      else case expr_body cs of None \<Rightarrow> None | Some (b, rest) \<Rightarrow> Some (c # b, rest))"

text \<open>The leftmost match of \<open>{expr}(.*?){/expr}\<close>: the text before, the body and the rest.\<close>

fun find_expr :: "string \<Rightarrow> (string \<times> string \<times> string) option" where
  "find_expr [] = None"
| "find_expr (c # cs) =
     (case (if HasPrefix (c # cs) open_tag then expr_body (drop 6 (c # cs)) else None) of
        Some (b, rest) \<Rightarrow> Some ('''', b, rest)
      | None \<Rightarrow> (case find_expr cs of None \<Rightarrow> None | Some (a, b, rest) \<Rightarrow> Some (c # a, b, rest)))"

lemma expr_body_length: "expr_body s = Some (b, rest) \<Longrightarrow> length rest \<le> length s"
proof (induction s arbitrary: b)
  case (Cons c cs)
  then show ?case by (auto split: if_splits option.splits)
qed simp

lemma find_expr_length: "find_expr s = Some (a, b, rest) \<Longrightarrow> length rest < length s"
proof (induction s arbitrary: a)
  case (Cons c cs)
  then show ?case by (auto dest!: expr_body_length split: if_splits option.splits)
qed simp

text \<open>\<open>ReplaceAllString\<close>: every match, by the same text.\<close>

function replace_exprs :: "string \<Rightarrow> string \<Rightarrow> string" where
  "replace_exprs s t =
     (case find_expr s of None \<Rightarrow> s | Some (a, b, rest) \<Rightarrow> a @ t @ replace_exprs rest t)"
  by pat_completeness auto

termination
  by (relation "measure (\<lambda>(s, t). length s)") (auto dest: find_expr_length)

declare replace_exprs.simps [simp del]

definition evaluateExpression ::
  "(string \<Rightarrow> ExpressionContext \<Rightarrow> expr_result res) \<Rightarrow> string \<Rightarrow> ExpressionContext \<Rightarrow> string res" where
  "evaluateExpression expr_Run v context =
     (case find_expr v of
        None \<Rightarrow> Inr v
      | Some (_, expression, _) \<Rightarrow>
          (case expr_Run expression context of
             Inl e \<Rightarrow> Inl (wrap (''execute expression '' @ expression) e)
           | Inr r \<Rightarrow> Inr (replace_exprs v (result_text r))))"

definition ValidateParameterValue :: "string \<Rightarrow> string \<Rightarrow> goerror option" where
  "ValidateParameterValue v valueType =
     (if valueType = ''numeric'' then
        (if Atoi (TrimSpace v) = None then Some (Errorf0 (''value '' @ v @ '' is not a valid numeric value'')) else None)
      else if valueType = ''numeric_mem'' then
        (let t = TrimSpace v in
         if \<not> HasSuffix t '' MB'' \<and> \<not> HasSuffix t '' GB''
         then Some (Errorf0 (''numeric_mem value '' @ t @ '' must end with MB or GB''))
         else let numPart = (if HasSuffix t '' MB'' then TrimSuffix t '' MB'' else TrimSuffix t '' GB'') in
              if Atoi numPart = None then Some (Errorf0 (''numeric_mem value '' @ t @ '' has invalid numeric part'')) else None)
      else if valueType = ''string'' then None
      else if valueType = ''bool'' then
        (if ToLower (TrimSpace v) \<in> {''on'', ''off'', ''true'', ''false'', ''yes'', ''no'', ''1'', ''0''} then None
         else Some (Errorf0 (''bool value '' @ v @ '' must be one of: on off true false yes no 1 0'')))
      else Some (Errorf0 (''unknown value type: '' @ valueType)))"

definition resolveParameter ::
  "(string \<Rightarrow> ExpressionContext \<Rightarrow> expr_result res) \<Rightarrow> Parameter \<Rightarrow> ExpressionContext \<Rightarrow> ResolvedParameter res" where
  "resolveParameter expr_Run param context =
     (case evaluateExpression expr_Run (par_Value param) context of
        Inl e \<Rightarrow> Inl (wrap ''evaluate expression'' e)
      | Inr v \<Rightarrow>
          (case ValidateParameterValue v (par_ValueType param) of
             Some e \<Rightarrow> Inl (wrap ''validate parameter value'' e)
           | None \<Rightarrow> Inr \<lparr>rp_Name = par_Name param, rp_Type = par_Type param,
                          rp_ValueType = par_ValueType param, rp_Value = v\<rparr>))"

fun resolve_others ::
  "(string \<Rightarrow> ExpressionContext \<Rightarrow> expr_result res) \<Rightarrow> ExpressionContext \<Rightarrow> Parameter list \<Rightarrow> ResolvedParameter list res" where
  "resolve_others expr_Run context [] = Inr []"
| "resolve_others expr_Run context (p # ps) =
     (if par_Name p = ''max_connections'' then resolve_others expr_Run context ps
      else case resolveParameter expr_Run p context of
        Inl e \<Rightarrow> Inl (wrap (''resolve parameter '' @ par_Name p) e)
      | Inr r \<Rightarrow> (case resolve_others expr_Run context ps of Inl e \<Rightarrow> Inl e | Inr rs \<Rightarrow> Inr (r # rs)))"

definition ResolveParameters ::
  "(string \<Rightarrow> ExpressionContext \<Rightarrow> expr_result res) \<Rightarrow> Parameter list \<Rightarrow> int \<Rightarrow> int \<Rightarrow> ResolvedParameter list res" where
  "ResolveParameters expr_Run params coreCount memoryMB =
     (let context = \<lparr>ctx_DBContainerMemoryMB = memoryMB, ctx_DBContainerCoreCount = coreCount, ctx_MaxConnections = 0\<rparr> in
      case find (\<lambda>p. par_Name p = ''max_connections'') params of
        None \<Rightarrow> resolve_others expr_Run context params
      | Some p \<Rightarrow>
          (case resolveParameter expr_Run p context of
             Inl e \<Rightarrow> Inl (wrap ''resolve max_connections'' e)
           | Inr r \<Rightarrow>
               (case Atoi (rp_Value r) of
                  None \<Rightarrow> Inl (Errorf0 ''parse max_connections value'')
                | Some n \<Rightarrow>
                    (case resolve_others expr_Run (context\<lparr>ctx_MaxConnections := n\<rparr>) params of
                       Inl e \<Rightarrow> Inl e | Inr rs \<Rightarrow> Inr (r # rs)))))"

definition ResolveParameterGroup ::
  "(string \<Rightarrow> ExpressionContext \<Rightarrow> expr_result res) \<Rightarrow> string \<Rightarrow> int \<Rightarrow> int \<Rightarrow> world \<Rightarrow> ResolvedParameter list res \<times> world" where
  "ResolveParameterGroup expr_Run groupName coreCount memoryMB w =
     (case GetGroup groupName w of
        (Inl e, w1) \<Rightarrow> (Inl (wrap ''get parameter group'' e), w1)
      | (Inr params, w1) \<Rightarrow> (ResolveParameters expr_Run params coreCount memoryMB, w1))"

section \<open>The shared-memory estimate\<close>

abbreviation ParameterTypePostgresCLIArg :: string where "ParameterTypePostgresCLIArg \<equiv> ''postgres_cli_arg''"

definition guc_start :: "char \<Rightarrow> bool" where
  "guc_start c = ((97 \<le> (of_char c :: nat) \<and> (of_char c :: nat) \<le> 122) \<or> c = CHR ''_'')"

definition guc_part :: "string \<Rightarrow> bool" where
  "guc_part p = (p \<noteq> '''' \<and> guc_start (hd p) \<and> list_all (\<lambda>c. guc_start c \<or> is_digit c) (tl p))"

definition ValidateParameterIdentity :: "Parameter \<Rightarrow> int \<Rightarrow> goerror option" where
  "ValidateParameterIdentity param index =
     (let label = (if par_Name param \<noteq> '''' then ''parameter '' @ Itoa index @ '' ('' @ par_Name param @ '')''
                   else ''parameter '' @ Itoa index) in
      if par_Name param = '''' then Some (Errorf0 (label @ '': name is required''))
      else if \<not> list_all guc_part (SplitChar (CHR ''.'') (par_Name param))
      then Some (Errorf0 (label @ '': name is not a valid PostgreSQL GUC identifier''))
      else if par_Type param = '''' then Some (Errorf0 (label @ '': type is required''))
      else if par_Type param \<noteq> ParameterTypePostgresCLIArg
      then Some (Errorf0 (label @ '': type '' @ par_Type param @ '' is not applied''))
      else if par_ValueType param = '''' then Some (Errorf0 (label @ '': valueType is required''))
      else if par_Value param = '''' then Some (Errorf0 (label @ '': value is required''))
      else None)"

definition parsePGInt :: "string \<Rightarrow> int res" where
  "parsePGInt v = (case Atoi (TrimSpace v) of None \<Rightarrow> Inl (Errorf0 (''not an integer: '' @ v)) | Some n \<Rightarrow> Inr n)"

definition pgMemUnits :: "(string \<times> int) list" where
  "pgMemUnits = [(''TB'', 1024 * 1024 * 1024 * 1024), (''GB'', 1024 * 1024 * 1024), (''MB'', 1024 * 1024), (''KB'', 1024), (''B'', 1)]"

text \<open>The number and the factor that \<open>parsePGMemBytes\<close> multiplies, and the 64-bit product.\<close>

definition pg_mem :: "string \<Rightarrow> (int \<times> int) res" where
  "pg_mem v0 =
     (let v = TrimSpace v0 in
      if v = '''' then Inl (Errorf0 ''memory value is empty'')
      else case find (\<lambda>(suffix, factor). HasSuffix (ToUpper v) suffix) pgMemUnits of
        Some (suffix, factor) \<Rightarrow>
          (case Atoi (TrimSpace (take (length v - length suffix) v)) of
             None \<Rightarrow> Inl (Errorf0 (''memory value '' @ v @ '' has invalid numeric part''))
           | Some n \<Rightarrow> if n < 0 then Inl (Errorf0 (''memory value '' @ v @ '' is negative'')) else Inr (n, factor))
      | None \<Rightarrow>
          (case Atoi v of
             None \<Rightarrow> Inl (Errorf0 (''memory value '' @ v @ '' is neither a block count nor a number with a suffix''))
           | Some n \<Rightarrow> if n < 0 then Inl (Errorf0 (''memory value '' @ v @ '' is negative'')) else Inr (n, 8 * 1024)))"

definition parsePGMemBytes :: "string \<Rightarrow> int res" where
  "parsePGMemBytes v = (case pg_mem v of Inl e \<Rightarrow> Inl e | Inr (n, factor) \<Rightarrow> Inr (wrap64 (n * factor)))"

text \<open>The map by name: of parameters with one name the last one counts.\<close>

definition by_name :: "ResolvedParameter list \<Rightarrow> string \<Rightarrow> string option" where
  "by_name resolved name =
     map_option rp_Value (find (\<lambda>p. rp_Type p = ParameterTypePostgresCLIArg \<and> rp_Name p = name) (rev resolved))"

text \<open>A count with its default: the value, and whether it was read exactly.\<close>

definition pg_count :: "ResolvedParameter list \<Rightarrow> string \<Rightarrow> int \<Rightarrow> int \<times> bool" where
  "pg_count resolved name deflt =
     (case by_name resolved name of
        None \<Rightarrow> (deflt, True)
      | Some v \<Rightarrow> (case parsePGInt v of Inl e \<Rightarrow> (deflt, False) | Inr n \<Rightarrow> if n \<ge> 0 then (n, True) else (deflt, False)))"

definition pg_size :: "ResolvedParameter list \<Rightarrow> string \<Rightarrow> int \<Rightarrow> int \<times> bool" where
  "pg_size resolved name deflt =
     (case by_name resolved name of
        None \<Rightarrow> (deflt, True)
      | Some v \<Rightarrow> (case parsePGMemBytes v of Inl e \<Rightarrow> (deflt, False) | Inr n \<Rightarrow> (n, True)))"

text \<open>Go's \<open>/\<close> truncates towards zero.\<close>

definition go_div :: "int \<Rightarrow> int \<Rightarrow> int" where
  "go_div a b = (if a < 0 then - ((- a) div b) else a div b)"

definition wal_unset :: "ResolvedParameter list \<Rightarrow> bool" where
  "wal_unset resolved = (case by_name resolved ''wal_buffers'' of None \<Rightarrow> True | Some v \<Rightarrow> TrimSpace v = ''-1'')"

definition EstimateSharedMemoryBytes :: "ResolvedParameter list \<Rightarrow> int \<times> bool" where
  "EstimateSharedMemoryBytes resolved =
     (case pg_size resolved ''shared_buffers'' (128 * 1024 * 1024) of (sharedBuffers, x1) \<Rightarrow>
      case pg_count resolved ''max_connections'' 100 of (maxConn, x2) \<Rightarrow>
      case pg_count resolved ''max_locks_per_transaction'' 64 of (maxLocks, x3) \<Rightarrow>
      case pg_count resolved ''max_prepared_transactions'' 0 of (maxPrepared, x4) \<Rightarrow>
      case (if wal_unset resolved then (min (go_div sharedBuffers 32) (16 * 1024 * 1024), True)
            else pg_size resolved ''wal_buffers'' (min (go_div sharedBuffers 32) (16 * 1024 * 1024))) of (walBuffers, x5) \<Rightarrow>
      let lockTable = wrap64 (wrap64 (maxLocks * wrap64 (maxConn + maxPrepared)) * 270);
          est = wrap64 (wrap64 (wrap64 (sharedBuffers + walBuffers) + lockTable) + 64 * 1024 * 1024)
      in (est, x1 \<and> x2 \<and> x3 \<and> x4 \<and> x5))"

definition ValidateForContainer :: "ResolvedParameter list \<Rightarrow> int \<Rightarrow> goerror option" where
  "ValidateForContainer resolved ramMB =
     (case EstimateSharedMemoryBytes resolved of (est, exact) \<Rightarrow>
        if \<not> exact then None
        else if est > wrap64 (wrap64 (ramMB * 1024) * 1024)
        then Some (Errorf1 '''' (Sentinel ErrSharedMemoryTooLarge) '': lower max_locks_per_transaction or max_connections'')
        else None)"

section \<open>What a refusal proves\<close>

text \<open>
  The specification: the arena over unbounded integers, as PostgreSQL documents its settings. A
  memory setting is a number of bytes with a unit, or a bare number of 8 kB blocks; a count is a
  number; an unset one has its documented default, and \<open>-1\<close> derives the WAL buffers from the
  shared ones. Nothing is guessed: a group with a set value that has no meaning needs no
  particular arena.
\<close>

definition bytes_of :: "string \<Rightarrow> int \<Rightarrow> bool" where
  "bytes_of v b \<longleftrightarrow>
     (\<exists>num u f n. TrimSpace v = num @ u
        \<and> (ToUpper u, f) \<in> {(''TB'', 2 ^ 40), (''GB'', 2 ^ 30), (''MB'', 2 ^ 20), (''KB'', 2 ^ 10), (''B'', 1 :: int)}
        \<and> Atoi (TrimSpace num) = Some n \<and> 0 \<le> n \<and> b = n * f)
     \<or> (\<exists>n. Atoi (TrimSpace v) = Some n \<and> 0 \<le> n \<and> b = n * 8192)"

definition count_of :: "string \<Rightarrow> int \<Rightarrow> bool" where
  "count_of v n \<longleftrightarrow> Atoi (TrimSpace v) = Some n \<and> 0 \<le> n"

definition setting :: "(string \<Rightarrow> int \<Rightarrow> bool) \<Rightarrow> ResolvedParameter list \<Rightarrow> string \<Rightarrow> int \<Rightarrow> int \<Rightarrow> bool" where
  "setting meaning resolved name deflt x \<longleftrightarrow> (case by_name resolved name of None \<Rightarrow> x = deflt | Some v \<Rightarrow> meaning v x)"

definition needs :: "ResolvedParameter list \<Rightarrow> int \<Rightarrow> bool" where
  "needs resolved a \<longleftrightarrow> (\<exists>shared wal conns locks prepared.
       setting bytes_of resolved ''shared_buffers'' (128 * 2 ^ 20) shared
     \<and> setting (\<lambda>v x. if TrimSpace v = ''-1'' then x = min (shared div 32) (16 * 2 ^ 20) else bytes_of v x)
         resolved ''wal_buffers'' (min (shared div 32) (16 * 2 ^ 20)) wal
     \<and> setting count_of resolved ''max_connections'' 100 conns
     \<and> setting count_of resolved ''max_locks_per_transaction'' 64 locks
     \<and> setting count_of resolved ''max_prepared_transactions'' 0 prepared
     \<and> a = shared + wal + locks * (conns + prepared) * 270 + 64 * 2 ^ 20)"

text \<open>The same arena as a function, with the defaults of the code for values it cannot read.\<close>

definition size_spec :: "ResolvedParameter list \<Rightarrow> string \<Rightarrow> int \<Rightarrow> int" where
  "size_spec resolved name deflt =
     (case by_name resolved name of
        None \<Rightarrow> deflt
      | Some v \<Rightarrow> (case pg_mem v of Inl e \<Rightarrow> deflt | Inr (n, factor) \<Rightarrow> n * factor))"

definition lock_spec :: "ResolvedParameter list \<Rightarrow> int" where
  "lock_spec resolved =
     fst (pg_count resolved ''max_locks_per_transaction'' 64)
       * (fst (pg_count resolved ''max_connections'' 100) + fst (pg_count resolved ''max_prepared_transactions'' 0)) * 270"

definition arena :: "ResolvedParameter list \<Rightarrow> int" where
  "arena resolved =
     (let sb = size_spec resolved ''shared_buffers'' (128 * 1024 * 1024) in
      sb + (if wal_unset resolved then min (sb div 32) (16 * 1024 * 1024)
            else size_spec resolved ''wal_buffers'' (min (sb div 32) (16 * 1024 * 1024)))
         + lock_spec resolved + 64 * 1024 * 1024)"

lemma pg_mem_nonneg: "pg_mem v = Inr (n, factor) \<Longrightarrow> 0 \<le> n \<and> 0 < factor"
  by (auto simp: pg_mem_def Let_def pgMemUnits_def split: if_splits option.splits)

lemma size_spec_nonneg: "0 \<le> d \<Longrightarrow> 0 \<le> size_spec r name d"
  by (auto simp: size_spec_def dest: pg_mem_nonneg split: option.splits sum.splits)

lemma pg_size_exact:
  assumes "size_spec r name d \<le> max_int64" "0 \<le> d"
  shows "fst (pg_size r name d) = size_spec r name d"
proof (cases "by_name r name")
  case (Some v)
  show ?thesis
  proof (cases "pg_mem v")
    case (Inr nf)
    obtain n factor where nf: "nf = (n, factor)" by fastforce
    have "0 \<le> n * factor" using pg_mem_nonneg[of v n factor] Inr nf by simp
    moreover have "n * factor \<le> max_int64" using assms(1) Some Inr nf by (simp add: size_spec_def)
    ultimately have "wrap64 (n * factor) = n * factor" by (intro wrap64_id) (simp_all add: min_int64_def)
    then show ?thesis using Some Inr nf by (simp add: pg_size_def size_spec_def parsePGMemBytes_def)
  qed (simp add: pg_size_def size_spec_def parsePGMemBytes_def Some)
qed (simp add: pg_size_def size_spec_def)

lemma pg_count_nonneg: "0 \<le> d \<Longrightarrow> 0 \<le> fst (pg_count r name d)"
  by (auto simp: pg_count_def split: option.splits sum.splits)

lemma wrap64_small: "0 \<le> x \<Longrightarrow> x \<le> max_int64 \<Longrightarrow> wrap64 x = x"
  by (rule wrap64_id) (simp_all add: min_int64_def)

lemma lock_table_exact:
  fixes l c p :: int
  assumes "0 \<le> l" "0 \<le> c" "0 \<le> p" "l * (c + p) * 270 \<le> max_int64"
  shows "wrap64 (wrap64 (l * wrap64 (c + p)) * 270) = l * (c + p) * 270"
proof (cases "l = 0")
  case True
  then show ?thesis by (simp add: wrap64_def)
next
  case False
  have m: "0 \<le> l * (c + p)" "l * (c + p) \<le> max_int64" "c + p \<le> l * (c + p)"
  proof -
    show "0 \<le> l * (c + p)" using assms by simp
    then show "l * (c + p) \<le> max_int64" using assms(4) by linarith
    show "c + p \<le> l * (c + p)" using False assms(1-3) mult_right_mono[of 1 l "c + p"] by simp
  qed
  then have "wrap64 (c + p) = c + p" using assms by (intro wrap64_small) auto
  then show ?thesis using m assms(4) by (simp add: wrap64_small)
qed

lemma sums_exact:
  fixes a b c d :: int
  assumes "0 \<le> a" "0 \<le> b" "0 \<le> c" "0 \<le> d" "a + b + c + d \<le> max_int64"
  shows "wrap64 (wrap64 (wrap64 (a + b) + c) + d) = a + b + c + d"
  using assms by (simp add: wrap64_small)

lemma go_div_nonneg: "0 \<le> a \<Longrightarrow> go_div a b = a div b"
  by (simp add: go_div_def)

text \<open>Where the arena fits 64 bits nothing overflows, and the estimate is the arena.\<close>

lemma estimate_exact:
  assumes "arena r \<le> max_int64"
  shows "fst (EstimateSharedMemoryBytes r) = arena r"
proof -
  define sb where "sb = size_spec r ''shared_buffers'' (128 * 1024 * 1024)"
  define d where "d = min (sb div 32) (16 * 1024 * 1024)"
  define wal where "wal = (if wal_unset r then d else size_spec r ''wal_buffers'' d)"
  have sb0: "0 \<le> sb" by (simp add: sb_def size_spec_nonneg)
  have d0: "0 \<le> d" using sb0 by (simp add: d_def pos_imp_zdiv_nonneg_iff)
  have wal0: "0 \<le> wal" using d0 by (simp add: wal_def size_spec_nonneg)
  have lk0: "0 \<le> lock_spec r" by (simp add: lock_spec_def pg_count_nonneg)
  have total: "arena r = sb + wal + lock_spec r + 64 * 1024 * 1024"
    by (simp add: arena_def Let_def sb_def wal_def d_def)
  have bounds: "sb \<le> max_int64" "wal \<le> max_int64" "lock_spec r \<le> max_int64"
    using assms total sb0 wal0 lk0 by linarith+
  have sb: "fst (pg_size r ''shared_buffers'' (128 * 1024 * 1024)) = sb"
    unfolding sb_def by (rule pg_size_exact) (use bounds(1) in \<open>simp_all add: sb_def\<close>)
  have wal: "fst (if wal_unset r then (min (go_div sb 32) (16 * 1024 * 1024), True)
      else pg_size r ''wal_buffers'' (min (go_div sb 32) (16 * 1024 * 1024))) = wal"
    using pg_size_exact[of r "''wal_buffers''" d] bounds(2) d0 sb0 by (auto simp: go_div_nonneg d_def wal_def)
  have lk: "wrap64 (wrap64 (fst (pg_count r ''max_locks_per_transaction'' 64)
        * wrap64 (fst (pg_count r ''max_connections'' 100) + fst (pg_count r ''max_prepared_transactions'' 0))) * 270) = lock_spec r"
    using lock_table_exact bounds(3) by (simp add: lock_spec_def pg_count_nonneg)
  have "fst (EstimateSharedMemoryBytes r) = wrap64 (wrap64 (wrap64 (sb + wal) + lock_spec r) + 64 * 1024 * 1024)"
    unfolding EstimateSharedMemoryBytes_def case_prod_beta Let_def fst_conv sb wal lk ..
  also have "\<dots> = arena r" using sums_exact[OF sb0 wal0 lk0, of "64 * 1024 * 1024"] assms total by simp
  finally show ?thesis .
qed

text \<open>The code's reading of a memory setting is its meaning.\<close>

lemma digits_value_all: "digits_value a ds = Some n \<Longrightarrow> list_all is_digit ds"
  by (induction ds arbitrary: a) (auto split: if_splits)

lemma Atoi_last: "Atoi s = Some n \<Longrightarrow> s \<noteq> '''' \<and> is_digit (last s)"
proof -
  assume "Atoi s = Some n"
  then obtain c cs m where "s = c # cs" "magnitude cs = Some m \<or> magnitude (c # cs) = Some m"
    by (auto simp: Atoi_def parse_int_def split: option.splits if_splits list.splits)
  then show ?thesis
    by (auto simp: magnitude_def list_all_iff simp del: digits_value.simps split: if_splits dest!: digits_value_all)
qed

lemma TrimSpace_last:
  assumes "\<not> is_space c"
  shows "\<exists>t. TrimSpace (s @ [c]) = t @ [c]"
proof -
  have "\<exists>u. dropWhile is_space (s @ [c]) = u @ [c]" using assms by (induction s) auto
  then show ?thesis using assms by (auto simp: TrimSpace_def)
qed

lemma unit_not_digit: "c \<in> set ''TGMKB'' \<Longrightarrow> upper_char d = c \<Longrightarrow> \<not> is_digit d \<and> \<not> is_space d"
  by (auto simp: upper_char_def is_digit_def is_space_def split: if_splits)

lemma unit_split: "HasSuffix (ToUpper t) u \<longleftrightarrow> (\<exists>num x. t = num @ x \<and> ToUpper x = u)"
proof
  assume "HasSuffix (ToUpper t) u"
  then obtain q where "map upper_char t = q @ u" by (auto simp: HasSuffix_iff ToUpper_def)
  then show "\<exists>num x. t = num @ x \<and> ToUpper x = u" by (auto simp: ToUpper_def map_eq_append_conv)
qed (auto simp: HasSuffix_iff ToUpper_def)

lemma no_unit_of_number: "Atoi t = Some n \<Longrightarrow> c \<in> set ''TGMKB'' \<Longrightarrow> \<not> HasSuffix (ToUpper t) (p @ [c])"
proof
  assume n: "Atoi t = Some n" and c: "c \<in> set ''TGMKB''" and s: "HasSuffix (ToUpper t) (p @ [c])"
  obtain num y where "t = num @ y" "ToUpper y = p @ [c]" using s unit_split by blast
  then obtain x d where "t = num @ x @ [d]" "upper_char d = c" by (auto simp: ToUpper_def map_eq_append_conv)
  then show False using Atoi_last[OF n] unit_not_digit[OF c, of d] by simp
qed

lemma no_unit_before:
  assumes "Atoi (TrimSpace num) = Some n" "c \<in> set ''TGMKB''" "ToUpper x = ''B''"
  shows "\<not> HasSuffix (ToUpper (num @ x)) [c, CHR ''B'']"
proof
  assume "HasSuffix (ToUpper (num @ x)) [c, CHR ''B'']"
  then obtain q where "map upper_char num @ ''B'' = (q @ [c]) @ ''B''" using assms(3) by (auto simp: HasSuffix_iff ToUpper_def)
  then have "map upper_char num = q @ [c]" by (simp only: append_same_eq)
  then obtain r d where d: "num = r @ [d]" "upper_char d = c" by (auto simp: map_eq_append_conv)
  obtain t where "TrimSpace num = t @ [d]" using TrimSpace_last[of d r] unit_not_digit[OF assms(2) d(2)] d(1) by auto
  then show False using Atoi_last[OF assms(1)] unit_not_digit[OF assms(2) d(2)] by simp
qed

lemma unit_found:
  assumes "t = num @ x" "(ToUpper x, f) \<in> set pgMemUnits" "Atoi (TrimSpace num) = Some n"
  shows "find (\<lambda>(suffix, factor). HasSuffix (ToUpper t) suffix) pgMemUnits = Some (ToUpper x, f)"
proof -
  have up: "ToUpper t = map upper_char num @ ToUpper x" using assms(1) by (simp add: ToUpper_def)
  consider "ToUpper x = ''B''" "f = 1" | "ToUpper x \<noteq> ''B''" using assms(2) by (auto simp: pgMemUnits_def)
  then show ?thesis
  proof cases
    case 1
    have "\<not> HasSuffix (ToUpper t) [c, CHR ''B'']" if "c \<in> set ''TGMK''" for c
      using no_unit_before[OF assms(3) _ 1(1), of c] that unfolding assms(1) by fastforce
    moreover have "HasSuffix (ToUpper t) ''B''" using up 1(1) by simp
    ultimately show ?thesis using 1 by (simp add: pgMemUnits_def)
  next
    case 2
    then show ?thesis using assms(2) up by (auto simp: pgMemUnits_def HasSuffix_def)
  qed
qed

lemma pg_mem_iff: "(\<exists>n f. pg_mem v = Inr (n, f) \<and> b = n * f) \<longleftrightarrow> bytes_of v b"
proof
  assume "\<exists>n f. pg_mem v = Inr (n, f) \<and> b = n * f"
  then obtain n f where p: "pg_mem v = Inr (n, f)" "b = n * f" by blast
  let ?t = "TrimSpace v"
  show "bytes_of v b"
  proof (cases "find (\<lambda>(suffix, factor). HasSuffix (ToUpper ?t) suffix) pgMemUnits")
    case None
    then show ?thesis using p by (auto simp: pg_mem_def Let_def bytes_of_def split: if_splits option.splits)
  next
    case (Some sf)
    obtain u where u: "sf = (u, f)" "Atoi (TrimSpace (take (length ?t - length u) ?t)) = Some n" "0 \<le> n"
      using p Some by (cases sf) (auto simp: pg_mem_def Let_def split: if_splits option.splits)
    have m: "HasSuffix (ToUpper ?t) u" "(u, f) \<in> set pgMemUnits"
      using Some u(1) by (auto simp: find_Some_iff in_set_conv_nth)
    obtain num x where x: "?t = num @ x" "ToUpper x = u" using m(1) unit_split by blast
    have "length u = length x" using x(2) by (auto simp: ToUpper_def)
    then have "Atoi (TrimSpace num) = Some n" using u(2) x(1) by simp
    moreover have "(ToUpper x, f) \<in> {(''TB'', 2 ^ 40), (''GB'', 2 ^ 30), (''MB'', 2 ^ 20), (''KB'', 2 ^ 10), (''B'', 1 :: int)}"
      using m(2) x(2) by (auto simp: pgMemUnits_def)
    ultimately show ?thesis using x(1) u(3) p(2) unfolding bytes_of_def by blast
  qed
next
  assume "bytes_of v b"
  then consider (unit) num x f n where "TrimSpace v = num @ x" "(ToUpper x, f) \<in> set pgMemUnits"
      "Atoi (TrimSpace num) = Some n" "0 \<le> n" "b = n * f"
    | (bare) n where "Atoi (TrimSpace v) = Some n" "0 \<le> n" "b = n * 8192"
    by (fastforce simp: bytes_of_def pgMemUnits_def)
  then show "\<exists>n f. pg_mem v = Inr (n, f) \<and> b = n * f"
  proof cases
    case unit
    have "length (ToUpper x) = length x" by (simp add: ToUpper_def)
    moreover have "x \<noteq> ''''" using unit(2) by (auto simp: pgMemUnits_def ToUpper_def)
    ultimately have "pg_mem v = Inr (n, f)" using unit unit_found[OF unit(1-3)] by (simp add: pg_mem_def Let_def)
    then show ?thesis using unit(5) by blast
  next
    case bare
    have "HasSuffix (ToUpper (TrimSpace v)) u = False" if "u \<in> fst ` set pgMemUnits" for u
      using that no_unit_of_number[OF bare(1), of "CHR ''B''" "butlast u"] by (auto simp: pgMemUnits_def)
    then have "find (\<lambda>(suffix, factor). HasSuffix (ToUpper (TrimSpace v)) suffix) pgMemUnits = None"
      by (force simp: find_None_iff)
    then have "pg_mem v = Inr (n, 8 * 1024)" using bare Atoi_last[OF bare(1)] by (simp add: pg_mem_def Let_def)
    then show ?thesis using bare(3) by auto
  qed
qed

lemma setting_count: "setting count_of r name d x \<longleftrightarrow> snd (pg_count r name d) \<and> x = fst (pg_count r name d)"
  by (auto simp: setting_def count_of_def pg_count_def parsePGInt_def split: option.splits)

lemma setting_size: "setting bytes_of r name d x \<longleftrightarrow> snd (pg_size r name d) \<and> x = size_spec r name d"
proof (cases "by_name r name")
  case (Some v)
  show ?thesis
  proof (cases "pg_mem v")
    case (Inl e)
    then show ?thesis using Some pg_mem_iff[of v x] by (simp add: setting_def pg_size_def parsePGMemBytes_def)
  next
    case (Inr nf)
    then show ?thesis
      using Some pg_mem_iff[of v x] by (cases nf) (auto simp: setting_def pg_size_def parsePGMemBytes_def size_spec_def)
  qed
qed (simp add: setting_def pg_size_def size_spec_def)

lemma needs_iff: "needs r a \<longleftrightarrow> snd (EstimateSharedMemoryBytes r) \<and> a = arena r"
proof -
  have wal: "setting (\<lambda>v x. if TrimSpace v = ''-1'' then x = d else bytes_of v x) r ''wal_buffers'' d x
      \<longleftrightarrow> (if wal_unset r then x = d else setting bytes_of r ''wal_buffers'' d x)" for d x
    by (simp add: setting_def wal_unset_def split: option.splits)
  have ex: "snd (pg_size r name d) = snd (pg_size r name d')" for name d d'
    by (simp add: pg_size_def split: option.splits sum.splits)
  show ?thesis
    unfolding needs_def wal setting_size setting_count EstimateSharedMemoryBytes_def case_prod_beta Let_def arena_def lock_spec_def
    using ex[of "''wal_buffers''"] by auto
qed

text \<open>
  C39. The shared-memory check refuses only what it can prove. For every instance size below
  eight exbibytes, a refused group has only readable values, and the arena they need, counted
  over unbounded integers as PostgreSQL reads the settings, does not fit the RAM: no
  wrap-around of the 64-bit arithmetic makes it refuse a group that fits, and a group with a
  value it cannot read is let through. Where the needed arena fits 64 bits it refuses exactly
  the groups that do not fit. The refusal carries \<open>ErrSharedMemoryTooLarge\<close>.
\<close>

theorem ValidateForContainer_sound:
  assumes "0 \<le> ramMB" "ramMB < 2 ^ 43"
  shows "(\<forall>e. ValidateForContainer resolved ramMB = Some e \<longrightarrow>
            (\<exists>a. needs resolved a \<and> ramMB * 2 ^ 20 < a) \<and> errors_Is e ErrSharedMemoryTooLarge)
     \<and> ((\<nexists>a. needs resolved a) \<longrightarrow> ValidateForContainer resolved ramMB = None)
     \<and> (\<forall>a. needs resolved a \<and> a \<le> max_int64 \<longrightarrow> (ValidateForContainer resolved ramMB \<noteq> None \<longleftrightarrow> ramMB * 2 ^ 20 < a))"
proof -
  have ram: "wrap64 (wrap64 (ramMB * 1024) * 1024) = ramMB * 1048576"
    using assms by (simp add: wrap64_small max_int64_def)
  have fits: "ramMB * 1048576 \<le> max_int64" using assms by (simp add: max_int64_def)
  obtain est exact where e: "EstimateSharedMemoryBytes resolved = (est, exact)" by fastforce
  have est: "est = arena resolved" if "arena resolved \<le> max_int64"
    using estimate_exact[OF that] e by simp
  have need: "needs resolved a \<longleftrightarrow> exact \<and> a = arena resolved" for a by (simp add: needs_iff e)
  show ?thesis
    using est fits by (cases "arena resolved \<le> max_int64") (auto simp: ValidateForContainer_def e ram need)
qed

theorem ValidateForContainer_sound_witness:
  "ValidateForContainer [\<lparr>rp_Name = ''max_locks_per_transaction'', rp_Type = ''postgres_cli_arg'', rp_ValueType = ''numeric'',
      rp_Value = ''1000000''\<rparr>] 8192 \<noteq> None"
proof -
  define r where "r = [\<lparr>rp_Name = ''max_locks_per_transaction'', rp_Type = ''postgres_cli_arg'', rp_ValueType = ''numeric'',
      rp_Value = ''1000000''\<rparr>]"
  have "Atoi ''1000000'' = Some 1000000"
    by (simp add: Atoi_def parse_int_def magnitude_def is_digit_def digit_val_def min_int64_def max_int64_def)
  moreover have "TrimSpace ''1000000'' = ''1000000''" by code_simp
  ultimately have n: "parsePGInt ''1000000'' = Inr 1000000" by (simp add: parsePGInt_def)
  have names: "by_name r ''max_locks_per_transaction'' = Some ''1000000''" "by_name r ''max_connections'' = None"
    "by_name r ''max_prepared_transactions'' = None" "by_name r ''shared_buffers'' = None" "by_name r ''wal_buffers'' = None"
    by (simp_all add: r_def by_name_def)
  have "arena r = 128 * 1024 * 1024 + 4 * 1024 * 1024 + 1000000 * 100 * 270 + 64 * 1024 * 1024"
    by (simp add: arena_def Let_def size_spec_def wal_unset_def lock_spec_def pg_count_def names n)
  moreover have "snd (EstimateSharedMemoryBytes r)"
    by (simp add: EstimateSharedMemoryBytes_def Let_def pg_size_def wal_unset_def pg_count_def names n)
  ultimately have "needs r (128 * 1024 * 1024 + 4 * 1024 * 1024 + 1000000 * 100 * 270 + 64 * 1024 * 1024)" (is "needs r ?a") by (simp add: needs_iff)
  moreover have "?a \<le> max_int64" "8192 * 2 ^ 20 < ?a" by (simp_all add: max_int64_def)
  ultimately show ?thesis using ValidateForContainer_sound[of 8192 r] unfolding r_def by simp
qed

text \<open>
  Beyond 64 bits the check can let a group through that cannot start: sixteen million
  tebibytes of shared buffers are zero bytes modulo \<open>2 ^ 64\<close>.
\<close>

lemma overflow_accepts_too_large:
  "ValidateForContainer [\<lparr>rp_Name = ''shared_buffers'', rp_Type = ''postgres_cli_arg'', rp_ValueType = ''string'',
      rp_Value = ''16777216 TB''\<rparr>] 8192 = None"
proof -
  define r where "r = [\<lparr>rp_Name = ''shared_buffers'', rp_Type = ''postgres_cli_arg'', rp_ValueType = ''string'',
      rp_Value = ''16777216 TB''\<rparr>]"
  have trim: "TrimSpace ''16777216 TB'' = ''16777216 TB''" "TrimSpace ''16777216 '' = ''16777216''"
    by code_simp+
  have up: "ToUpper ''16777216 TB'' = ''16777216 TB''" by code_simp
  have at: "Atoi ''16777216'' = Some 16777216"
    by (simp add: Atoi_def parse_int_def magnitude_def is_digit_def digit_val_def min_int64_def max_int64_def)
  have n: "parsePGMemBytes ''16777216 TB'' = Inr 0"
    by (simp add: parsePGMemBytes_def pg_mem_def Let_def trim up at pgMemUnits_def HasSuffix_def wrap64_def)
  have names: "by_name r ''max_locks_per_transaction'' = None" "by_name r ''max_connections'' = None"
    "by_name r ''max_prepared_transactions'' = None" "by_name r ''shared_buffers'' = Some ''16777216 TB''"
    "by_name r ''wal_buffers'' = None"
    by (simp_all add: r_def by_name_def)
  have parts: "pg_size r ''shared_buffers'' (128 * 1024 * 1024) = (0, True)" "pg_count r ''max_connections'' 100 = (100, True)"
    "pg_count r ''max_locks_per_transaction'' 64 = (64, True)" "pg_count r ''max_prepared_transactions'' 0 = (0, True)"
    "wal_unset r"
    by (simp_all add: pg_size_def pg_count_def wal_unset_def names n)
  have "EstimateSharedMemoryBytes r = (64 * 100 * 270 + 64 * 1024 * 1024, True)"
    unfolding EstimateSharedMemoryBytes_def parts prod.case by (simp add: parts(5) go_div_def wrap64_def Let_def)
  then show ?thesis
    unfolding r_def[symmetric] by (simp add: ValidateForContainer_def wrap64_def)
qed

end
