(* ===== verification/Docker.thy ===== *)
theory Docker
  imports Parameters
begin

text \<open>
  The Docker layer, \<open>internal/docker/client.go\<close> and \<open>imageutil.go\<close>, over the engine of the
  world. The engine's requests have their documented effects: names are unique, a container
  is addressed by id or name, removing is by force, a volume in use is not removed. A volume
  holds the empty text until \<open>initdb\<close> ran in it, and from then on the superuser password of
  its cluster, which is what the operations observe of the data.
\<close>

section \<open>The engine\<close>

text \<open>One request; \<open>Lost\<close> is a request that took effect and whose answer did not arrive.\<close>

definition docker_call :: "(world \<Rightarrow> (world \<times> 'a) res) \<Rightarrow> world \<Rightarrow> 'a res \<times> world" where
  "docker_call req w =
     (case next_io w of (oc, w1) \<Rightarrow>
        (case oc of
           Done \<Rightarrow> (case req w1 of Inl e \<Rightarrow> (Inl e, w1) | Inr (w2, a) \<Rightarrow> (Inr a, w2))
         | Refused \<Rightarrow> (Inl (DriverError ''docker''), w1)
         | Lost \<Rightarrow> (Inl (DriverError ''docker''), (case req w1 of Inl e \<Rightarrow> w1 | Inr (w2, a) \<Rightarrow> w2))))"

definition lookup_container :: "string \<Rightarrow> world \<Rightarrow> container option" where
  "lookup_container ref w = find (\<lambda>c. ct_ID c = ref \<or> ct_Name c = ref) (containers w)"

definition on_container :: "string \<Rightarrow> (container \<Rightarrow> container) \<Rightarrow> world \<Rightarrow> world" where
  "on_container cid f w = w\<lparr>containers := upd_where (\<lambda>c. ct_ID c = cid) f (containers w)\<rparr>"

definition container_inspect :: "string \<Rightarrow> world \<Rightarrow> container res \<times> world" where
  "container_inspect ref =
     docker_call (\<lambda>w. case lookup_container ref w of
                        None \<Rightarrow> Inl (Sentinel ErrDockerNotFound) | Some c \<Rightarrow> Inr (w, c))"

text \<open>Creating mounts the named volume, which the engine makes when it is missing.\<close>

definition container_create :: "string \<Rightarrow> instanceContainerSpec \<Rightarrow> world \<Rightarrow> string res \<times> world" where
  "container_create name spec =
     docker_call (\<lambda>w.
       if name \<in> ct_Name ` set (containers w) then Inl (DriverError ''container name in use'')
       else case images w (sp_Image spec) of
         None \<Rightarrow> Inl (Sentinel ErrDockerNotFound)
       | Some imageID \<Rightarrow>
           let cid = nat_digits (docker_seq w + 1) in
           Inr (w\<lparr>containers := containers w @
                    [\<lparr>ct_ID = cid, ct_Name = name, ct_ImageID = imageID, ct_Spec = spec,
                      ct_Running = False, ct_Paused = False, ct_Restarting = False\<rparr>],
                 docker_seq := docker_seq w + 1,
                 volumes := (case volumes w (sp_MountSource spec) of
                               None \<Rightarrow> (volumes w)(sp_MountSource spec := Some '''')
                             | Some _ \<Rightarrow> volumes w)\<rparr>, cid))"

text \<open>
  The entrypoint of the image: an empty data directory is initialised with the password of
  the environment, a populated one is left alone, and without a password nothing is
  initialised.
\<close>

definition env_password :: "string list \<Rightarrow> string option" where
  "env_password env =
     (case filter (\<lambda>e. HasPrefix e ''POSTGRES_PASSWORD='') env of
        [] \<Rightarrow> None | e # _ \<Rightarrow> CutPrefix e ''POSTGRES_PASSWORD='')"

definition entrypoint :: "instanceContainerSpec \<Rightarrow> world \<Rightarrow> world" where
  "entrypoint spec w =
     (case (volumes w (sp_MountSource spec), env_password (sp_Env spec)) of
        (Some content, Some password) \<Rightarrow>
          if content = '''' then w\<lparr>volumes := (volumes w)(sp_MountSource spec := Some password)\<rparr> else w
      | _ \<Rightarrow> w)"

definition container_start :: "string \<Rightarrow> world \<Rightarrow> unit res \<times> world" where
  "container_start ref =
     docker_call (\<lambda>w. case lookup_container ref w of
         None \<Rightarrow> Inl (Sentinel ErrDockerNotFound)
       | Some c \<Rightarrow>
           if ct_Paused c then Inl (DriverError ''cannot start a paused container'')
           else Inr (entrypoint (ct_Spec c) (on_container (ct_ID c) (\<lambda>c. c\<lparr>ct_Running := True, ct_Restarting := False\<rparr>) w), ()))"

definition container_stop :: "string \<Rightarrow> world \<Rightarrow> unit res \<times> world" where
  "container_stop ref =
     docker_call (\<lambda>w. case lookup_container ref w of
         None \<Rightarrow> Inl (Sentinel ErrDockerNotFound)
       | Some c \<Rightarrow> Inr (on_container (ct_ID c)
                     (\<lambda>c. c\<lparr>ct_Running := False, ct_Paused := False, ct_Restarting := False\<rparr>) w, ()))"

definition container_remove :: "string \<Rightarrow> world \<Rightarrow> unit res \<times> world" where
  "container_remove ref =
     docker_call (\<lambda>w. case lookup_container ref w of
         None \<Rightarrow> Inl (Sentinel ErrDockerNotFound)
       | Some c \<Rightarrow> Inr (w\<lparr>containers := del_where (\<lambda>d. ct_ID d = ct_ID c) (containers w)\<rparr>, ()))"

definition volume_inspect :: "string \<Rightarrow> world \<Rightarrow> unit res \<times> world" where
  "volume_inspect name =
     docker_call (\<lambda>w. if volumes w name = None then Inl (Sentinel ErrDockerNotFound) else Inr (w, ()))"

definition volume_create :: "string \<Rightarrow> world \<Rightarrow> unit res \<times> world" where
  "volume_create name =
     docker_call (\<lambda>w. Inr (if volumes w name = None then w\<lparr>volumes := (volumes w)(name := Some '''')\<rparr> else w, ()))"

definition volume_remove :: "string \<Rightarrow> world \<Rightarrow> unit res \<times> world" where
  "volume_remove name =
     docker_call (\<lambda>w. if name \<in> (\<lambda>c. sp_MountSource (ct_Spec c)) ` set (containers w)
                      then Inl (DriverError ''volume is in use'')
                      else Inr (w\<lparr>volumes := (volumes w)(name := None)\<rparr>, ()))"

definition image_inspect :: "string \<Rightarrow> world \<Rightarrow> string res \<times> world" where
  "image_inspect ref =
     docker_call (\<lambda>w. case images w ref of None \<Rightarrow> Inl (Sentinel ErrDockerNotFound) | Some imageID \<Rightarrow> Inr (w, imageID))"

abbreviation IsNotFound :: "goerror \<Rightarrow> bool" where "IsNotFound e \<equiv> errors_Is e ErrDockerNotFound"

section \<open>The client\<close>

definition containerEnv :: "string \<Rightarrow> string list" where
  "containerEnv password =
     ''POSTGRES_USER=postgres'' # (if password \<noteq> '''' then [''POSTGRES_PASSWORD='' @ password] else [])"

text \<open>\<open>preflightErrorf\<close>, for a format without a wrapped error and for one that ends in it.\<close>

definition preflightErrorf :: "string \<Rightarrow> goerror" where
  "preflightErrorf msg = Errorf1 '''' (Sentinel ErrPreflight) ('': '' @ msg)"

definition preflightWrapf :: "string \<Rightarrow> goerror \<Rightarrow> goerror" where
  "preflightWrapf msg e = Errorf2 '''' (Sentinel ErrPreflight) ('': '' @ msg) e ''''"

definition ContainerName :: "string \<Rightarrow> string" where "ContainerName n = ''oddk-pg-'' @ n"
definition VolumeName :: "string \<Rightarrow> string" where "VolumeName n = ''oddk-data-'' @ n"

definition pgDataMountTarget :: "string \<Rightarrow> string" where
  "pgDataMountTarget version =
     (case Atoi (hd (SplitChar (CHR ''.'') version)) of
        Some major \<Rightarrow> if major \<ge> 18 then ''/var/lib/postgresql'' else ''/var/lib/postgresql/data''
      | None \<Rightarrow> ''/var/lib/postgresql/data'')"

fun ParsePGMajorEnv :: "string list \<Rightarrow> int option" where
  "ParsePGMajorEnv [] = None"
| "ParsePGMajorEnv (e # env) =
     (case CutPrefix e ''PG_MAJOR='' of
        None \<Rightarrow> ParsePGMajorEnv env
      | Some v \<Rightarrow>
          (case Atoi (hd (SplitChar (CHR ''.'') v)) of
             Some major \<Rightarrow> if major > 0 then Some major else None
           | None \<Rightarrow> None))"

definition buildInstanceContainer ::
  "string \<Rightarrow> string \<Rightarrow> string \<Rightarrow> int \<Rightarrow> int \<Rightarrow> int \<Rightarrow> string \<Rightarrow> string \<Rightarrow> ResolvedParameter list \<Rightarrow> instanceContainerSpec" where
  "buildInstanceContainer name version imageName port cpuCores ramMB password parameterGroupName resolvedParams =
     (let memLimit = wrap64 (wrap64 (ramMB * 1024) * 1024);
          cpuShares = wrap64 (cpuCores * 1024);
          shmSize = go_div memLimit 4;
          cmd = ''postgres'' # concat (map (\<lambda>p. [''-c'', rp_Name p @ ''='' @ rp_Value p])
                                  (filter (\<lambda>p. rp_Type p = ''postgres_cli_arg'') resolvedParams)) in
      \<lparr>sp_Image = imageName, sp_Env = containerEnv password, sp_Cmd = cmd,
       sp_Labels = [(''io.hpsq.oddk.instancename'', name), (''io.hpsq.oddk.pgroup'', parameterGroupName)],
       sp_HostPort = Itoa port, sp_MountSource = VolumeName name, sp_MountTarget = pgDataMountTarget version,
       sp_Memory = memLimit, sp_CPUShares = cpuShares, sp_ShmSize = shmSize\<rparr>)"

definition createContainer :: "string \<Rightarrow> instanceContainerSpec \<Rightarrow> world \<Rightarrow> string res \<times> world" where
  "createContainer name spec w = container_create (ContainerName name) spec w"

definition CheckImageExists :: "string \<Rightarrow> world \<Rightarrow> bool \<times> world" where
  "CheckImageExists imageName w =
     (case image_inspect imageName w of (Inl e, w1) \<Rightarrow> (False, w1) | (Inr _, w1) \<Rightarrow> (True, w1))"

definition GetImageID :: "string \<Rightarrow> world \<Rightarrow> string option \<times> world" where
  "GetImageID imageName w =
     (case image_inspect imageName w of (Inl e, w1) \<Rightarrow> (None, w1) | (Inr i, w1) \<Rightarrow> (Some i, w1))"

definition GetContainerImageID :: "string \<Rightarrow> world \<Rightarrow> string res \<times> world" where
  "GetContainerImageID ref w =
     (case container_inspect ref w of
        (Inl e, w1) \<Rightarrow> (Inl (wrap ''inspect container'' e), w1)
      | (Inr c, w1) \<Rightarrow> (Inr (ct_ImageID c), w1))"

definition Docker_GetContainerStatus :: "string \<Rightarrow> world \<Rightarrow> string res \<times> world" where
  "Docker_GetContainerStatus ref w =
     (case container_inspect ref w of
        (Inl e, w1) \<Rightarrow> if IsNotFound e then (Inr ''not found'', w1) else (Inl (wrap ''inspect container'' e), w1)
      | (Inr c, w1) \<Rightarrow>
          (Inr (if ct_Paused c then ''paused'' else if ct_Restarting c then ''restarting''
                else if ct_Running c then ''running'' else ''stopped''), w1))"

definition StartContainer :: "string \<Rightarrow> world \<Rightarrow> goerror option \<times> world" where
  "StartContainer cid w =
     (case container_start cid w of
        (Inl e, w1) \<Rightarrow> (Some (wrap ''start container'' e), w1) | (Inr _, w1) \<Rightarrow> (None, w1))"

definition StopContainer :: "string \<Rightarrow> world \<Rightarrow> goerror option \<times> world" where
  "StopContainer cid w =
     (case container_stop cid w of
        (Inl e, w1) \<Rightarrow> (Some (wrap ''stop container'' e), w1) | (Inr _, w1) \<Rightarrow> (None, w1))"

definition RemoveContainer :: "string \<Rightarrow> world \<Rightarrow> goerror option \<times> world" where
  "RemoveContainer cid w =
     (case container_remove cid w of
        (Inl e, w1) \<Rightarrow> if IsNotFound e then (None, w1) else (Some (wrap ''remove container'' e), w1)
      | (Inr _, w1) \<Rightarrow> (None, w1))"

definition RemoveVolume :: "string \<Rightarrow> world \<Rightarrow> goerror option \<times> world" where
  "RemoveVolume name w =
     (case volume_remove name w of
        (Inl e, w1) \<Rightarrow> if IsNotFound e then (None, w1) else (Some (wrap ''remove volume'' e), w1)
      | (Inr _, w1) \<Rightarrow> (None, w1))"

text \<open>
  The refusals both creating paths share: the image, the parameters and their shared memory.
\<close>

definition preflight ::
  "(string \<Rightarrow> ExpressionContext \<Rightarrow> expr_result res) \<Rightarrow> string \<Rightarrow> Parameter list \<Rightarrow> int \<Rightarrow> int \<Rightarrow> world
     \<Rightarrow> ResolvedParameter list res \<times> world" where
  "preflight expr_Run imageName params cpuCores ramMB w =
     (case CheckImageExists imageName w of (found, w1) \<Rightarrow>
        if \<not> found then (Inl (preflightErrorf (''image '' @ imageName @ '' not found locally'')), w1)
        else case ResolveParameters expr_Run params cpuCores ramMB of
          Inl e \<Rightarrow> (Inl (preflightWrapf ''resolve parameter group parameters: '' e), w1)
        | Inr resolved \<Rightarrow>
            (case ValidateForContainer resolved ramMB of
               Some e \<Rightarrow> (Inl (preflightWrapf '''' e), w1)
             | None \<Rightarrow> (Inr resolved, w1)))"

definition CreateContainer ::
  "(string \<Rightarrow> ExpressionContext \<Rightarrow> expr_result res) \<Rightarrow> string \<Rightarrow> string \<Rightarrow> string \<Rightarrow> int \<Rightarrow> string \<Rightarrow> int \<Rightarrow> int
     \<Rightarrow> string \<Rightarrow> Parameter list \<Rightarrow> world \<Rightarrow> string res \<times> world" where
  "CreateContainer expr_Run name version imageName port password cpuCores ramMB parameterGroupName params w =
     (case preflight expr_Run imageName params cpuCores ramMB w of
        (Inl e, w1) \<Rightarrow> (Inl e, w1)
      | (Inr resolvedParams, w1) \<Rightarrow>
          (case volume_inspect (VolumeName name) w1 of
             (Inr _, w2) \<Rightarrow> (Inl (preflightErrorf (''volume '' @ VolumeName name @ '' already exists'')), w2)
           | (Inl e, w2) \<Rightarrow>
               if \<not> IsNotFound e then (Inl (preflightWrapf (''inspect volume '' @ VolumeName name @ '': '') e), w2)
               else case volume_create (VolumeName name) w2 of
                 (Inl e, w3) \<Rightarrow> (Inl (wrap ''create volume'' e), w3)
               | (Inr _, w3) \<Rightarrow>
                   (case createContainer name (buildInstanceContainer name version imageName port cpuCores ramMB
                           password parameterGroupName resolvedParams) w3 of
                      (Inl e, w4) \<Rightarrow> (Inl (wrap ''create container'' e), snd (volume_remove (VolumeName name) w4))
                    | (Inr containerID, w4) \<Rightarrow> (Inr containerID, w4))))"

text \<open>The old container goes: by its id, stopped first when it runs, and by its name.\<close>

definition remove_by_id :: "string \<Rightarrow> world \<Rightarrow> goerror option \<times> world" where
  "remove_by_id oldContainerID w =
     (case Docker_GetContainerStatus oldContainerID w of (status, w1) \<Rightarrow>
      (case (if status = Inr ''running'' then StopContainer oldContainerID w1 else (None, w1)) of
         (Some e, w2) \<Rightarrow> (Some (wrap ''stop old container'' e), w2)
       | (None, w2) \<Rightarrow>
           (case RemoveContainer oldContainerID w2 of
              (Some e, w3) \<Rightarrow> (Some (wrap ''remove old container'' e), w3)
            | (None, w3) \<Rightarrow> (None, w3))))"

definition remove_old :: "string \<Rightarrow> string \<Rightarrow> world \<Rightarrow> goerror option \<times> world" where
  "remove_old containerName oldContainerID w =
     (case (if oldContainerID = '''' then (None, w) else remove_by_id oldContainerID w) of
        (Some e, w1) \<Rightarrow> (Some e, w1)
      | (None, w1) \<Rightarrow>
          (case RemoveContainer containerName w1 of
             (Some e, w2) \<Rightarrow> (Some (wrap (''remove leftover container '' @ containerName) e), w2)
           | (None, w2) \<Rightarrow> (None, w2)))"

definition RecreateContainer ::
  "(string \<Rightarrow> ExpressionContext \<Rightarrow> expr_result res) \<Rightarrow> string \<Rightarrow> string \<Rightarrow> string \<Rightarrow> int \<Rightarrow> int \<Rightarrow> int
     \<Rightarrow> string \<Rightarrow> Parameter list \<Rightarrow> string \<Rightarrow> world \<Rightarrow> string res \<times> world" where
  "RecreateContainer expr_Run name version imageName port cpuCores ramMB parameterGroupName params oldContainerID w =
     (case preflight expr_Run imageName params cpuCores ramMB w of
        (Inl e, w1) \<Rightarrow> (Inl e, w1)
      | (Inr resolvedParams, w1) \<Rightarrow>
          (case volume_inspect (VolumeName name) w1 of
             (Inl e, w2) \<Rightarrow> (Inl (preflightWrapf (''volume '' @ VolumeName name @ '' not found: '') e), w2)
           | (Inr _, w2) \<Rightarrow>
               (case remove_old (ContainerName name) oldContainerID w2 of
                  (Some e, w3) \<Rightarrow> (Inl e, w3)
                | (None, w3) \<Rightarrow>
                    (case createContainer name (buildInstanceContainer name version imageName port cpuCores ramMB
                            '''' parameterGroupName resolvedParams) w3 of
                       (Inl e, w4) \<Rightarrow> (Inl (wrap ''create container'' e), w4)
                     | (Inr containerID, w4) \<Rightarrow> (Inr containerID, w4)))))"

section \<open>Image names\<close>

definition is_word :: "char \<Rightarrow> bool" where
  "is_word c \<longleftrightarrow> is_digit c \<or> c = CHR ''_'' \<or> (let n = of_char c :: nat in (65 \<le> n \<and> n \<le> 90) \<or> (97 \<le> n \<and> n \<le> 122))"

text \<open>The leftmost match of \<open>\bpg(\d+)\<close>; the flag says whether a word character came before.\<close>

fun find_pg :: "bool \<Rightarrow> string \<Rightarrow> string option" where
  "find_pg prev [] = None"
| "find_pg prev (c # cs) =
     (let digits = takeWhile is_digit (drop 1 cs) in
      if \<not> prev \<and> HasPrefix (c # cs) ''pg'' \<and> digits \<noteq> [] then Some digits
      else find_pg (is_word c) cs)"

definition leading_digits :: "string \<Rightarrow> string option" where
  "leading_digits tag =
     (let digits = takeWhile is_digit tag in
      case dropWhile is_digit tag of
        [] \<Rightarrow> None
      | c # _ \<Rightarrow> if digits \<noteq> [] \<and> (c = CHR ''-'' \<or> c = CHR ''.'') then Some digits else None)"

definition DetectPGVersionFromImage :: "string \<Rightarrow> string option" where
  "DetectPGVersionFromImage imageName =
     (case CutPrefix imageName ''postgres:'' of
        Some tag \<Rightarrow> let digits = takeWhile is_digit tag in if digits \<noteq> [] then Some digits else None
      | None \<Rightarrow>
          let tag = (if CHR '':'' \<in> set imageName then last (SplitChar (CHR '':'') imageName) else '''') in
          if tag = '''' then None
          else case find_pg False tag of
                 Some v \<Rightarrow> Some v
               | None \<Rightarrow> leading_digits tag)"

lemma DetectPGVersionFromImage_examples:
  "DetectPGVersionFromImage ''postgres:17.2'' = Some ''17''"
  "DetectPGVersionFromImage ''pgvector/pgvector:pg18-trixie'' = Some ''18''"
  "DetectPGVersionFromImage ''pgvector/pgvector:0.8.2-pg18'' = Some ''18''"
  "DetectPGVersionFromImage ''postgis/postgis:18-3.6'' = Some ''18''"
  by code_simp+

section \<open>What a request can do\<close>

lemma docker_call_cases:
  assumes "docker_call req w = (r, w')"
  obtains (none) "same_but_io w w'" "\<exists>e. r = Inl e"
    | (applied) w1 a where "same_but_io w w1" "req w1 = Inr (w', a)" "r = Inr a \<or> (\<exists>e. r = Inl e)"
proof -
  obtain oc w1 where n: "next_io w = (oc, w1)" by fastforce
  then have s: "same_but_io w w1" by (rule next_io_same)
  show thesis
    by (rule sum.exhaust[of "req w1"]; cases oc)
       (use assms n s none applied in \<open>auto simp: docker_call_def split: prod.splits\<close>)
qed

lemma docker_call_calm:
  "io_schedule w = [] \<Longrightarrow>
   docker_call req w = (case req w of Inl e \<Rightarrow> (Inl e, w) | Inr (w2, a) \<Rightarrow> (Inr a, w2))"
  by (simp add: docker_call_def next_io_calm)

lemma docker_call_ok:
  assumes "docker_call req w = (Inr a, w')"
  obtains w1 where "same_but_io w w1" "req w1 = Inr (w', a)"
  using assms by (rule docker_call_cases) auto

lemma docker_call_error:
  assumes "docker_call req w = (Inl e, w')" "errors_Is e s"
  obtains "same_but_io w w'" "req w' = Inl e"
proof -
  obtain oc w1 where n: "next_io w = (oc, w1)" by fastforce
  then have s: "same_but_io w w1" by (rule next_io_same)
  show thesis
    using assms n s that by (cases oc) (auto simp: docker_call_def split: sum.splits prod.splits)
qed

context table_invariant
begin

lemma call_keeps:
  assumes "docker_call req w = (r, w')" "Inv w"
    and "\<And>v v' a. Inv v \<Longrightarrow> req v = Inr (v', a) \<Longrightarrow> Inv v'"
  shows "Inv w'"
  using assms(1)
proof (cases rule: docker_call_cases)
  case none
  then show ?thesis using assms(2) io_stable by blast
next
  case (applied w1 a)
  then show ?thesis using assms(2,3) io_stable by blast
qed

end

text \<open>
  The engine is well formed when ids and names are unique, every id was handed out before,
  and no name reads like an id, so that a reference means one container.
\<close>

definition docker_ok :: "world \<Rightarrow> bool" where
  "docker_ok w \<longleftrightarrow> distinct (map ct_ID (containers w)) \<and> distinct (map ct_Name (containers w))
     \<and> (\<forall>c \<in> set (containers w). (\<exists>k \<le> docker_seq w. ct_ID c = nat_digits k) \<and> \<not> list_all is_digit (ct_Name c))"

interpretation eng: table_invariant docker_ok
  by unfold_locales (simp add: docker_ok_def same_but_io_fields)

lemma nat_digits_inject [simp]: "nat_digits a = nat_digits b \<longleftrightarrow> a = b"
  by (metis digits_value_nat_digits option.inject)

lemma nat_digits_digits: "list_all is_digit (nat_digits k)"
  by (auto simp: list_all_iff dest: nat_digits_all)

lemma on_container_ok:
  assumes "docker_ok w" "\<And>c. ct_ID (f c) = ct_ID c" "\<And>c. ct_Name (f c) = ct_Name c"
  shows "docker_ok (on_container cid f w)"
  using assms by (auto simp: docker_ok_def on_container_def map_upd_where in_upd_where split: if_splits)

lemma entrypoint_fields [simp]:
  "containers (entrypoint spec w) = containers w" "docker_seq (entrypoint spec w) = docker_seq w"
  "images (entrypoint spec w) = images w"
  by (simp_all add: entrypoint_def split: option.split)

lemma docker_ok_entrypoint [simp]: "docker_ok (entrypoint spec w) = docker_ok w"
  by (simp add: docker_ok_def)

lemma container_requests_ok:
  assumes "docker_ok w"
  shows "container_start ref w = (r1, w') \<Longrightarrow> docker_ok w'"
    and "container_stop ref w = (r1, w') \<Longrightarrow> docker_ok w'"
    and "container_remove ref w = (r1, w') \<Longrightarrow> docker_ok w'"
    and "container_create name spec w = (r2, w') \<Longrightarrow> \<not> list_all is_digit name \<Longrightarrow> docker_ok w'"
proof -
  show "docker_ok w'" if "container_start ref w = (r1, w')"
    using that unfolding container_start_def
    by (rule eng.call_keeps[OF _ assms]) (auto intro!: on_container_ok split: option.splits if_splits)
  show "docker_ok w'" if "container_stop ref w = (r1, w')"
    using that unfolding container_stop_def
    by (rule eng.call_keeps[OF _ assms]) (auto intro!: on_container_ok split: option.splits)
  show "docker_ok w'" if "container_remove ref w = (r1, w')"
    using that unfolding container_remove_def
    by (rule eng.call_keeps[OF _ assms]) (auto simp: docker_ok_def distinct_del_where split: option.splits)
  show "docker_ok w'" if "container_create name spec w = (r2, w')" "\<not> list_all is_digit name"
    using that(1) unfolding container_create_def
  proof (rule eng.call_keeps[OF _ assms])
    fix v v' a
    assume ok: "docker_ok v" and req: "(if name \<in> ct_Name ` set (containers v) then Inl (DriverError ''container name in use'')
       else case images v (sp_Image spec) of None \<Rightarrow> Inl (Sentinel ErrDockerNotFound)
       | Some imageID \<Rightarrow> let cid = nat_digits (docker_seq v + 1) in
           Inr (v\<lparr>containers := containers v @ [\<lparr>ct_ID = cid, ct_Name = name, ct_ImageID = imageID, ct_Spec = spec,
                      ct_Running = False, ct_Paused = False, ct_Restarting = False\<rparr>],
                 docker_seq := docker_seq v + 1,
                 volumes := (case volumes v (sp_MountSource spec) of
                               None \<Rightarrow> (volumes v)(sp_MountSource spec := Some '''') | Some _ \<Rightarrow> volumes v)\<rparr>, cid)) = Inr (v', a)"
    have "nat_digits (docker_seq v + 1) \<notin> ct_ID ` set (containers v)"
      using ok by (fastforce simp: docker_ok_def)
    then show "docker_ok v'"
      using ok req that(2)
      by (auto simp: docker_ok_def Let_def split: if_splits option.splits) (use le_Suc_eq in blast)+
  qed
qed

lemma lookup_container_ok:
  assumes "docker_ok w" "c \<in> set (containers w)"
  shows "lookup_container (ct_ID c) w = Some c" "lookup_container (ct_Name c) w = Some c"
proof -
  have neq: "ct_Name d \<noteq> ct_ID e" if "d \<in> set (containers w)" "e \<in> set (containers w)" for d e
    using assms(1) that nat_digits_digits unfolding docker_ok_def by metis
  show "lookup_container (ct_ID c) w = Some c" "lookup_container (ct_Name c) w = Some c"
    unfolding lookup_container_def using assms neq neq[OF assms(2)]
    by (auto intro!: find_unique simp: docker_ok_def dest: distinct_row) (metis neq)
qed

section \<open>What the client does\<close>

lemma inspect_same:
  "container_inspect ref w = (r1, w') \<Longrightarrow> same_but_io w w'"
  "volume_inspect ref w = (r2, w') \<Longrightarrow> same_but_io w w'"
  "image_inspect ref w = (r3, w') \<Longrightarrow> same_but_io w w'"
  unfolding container_inspect_def volume_inspect_def image_inspect_def
  by (erule docker_call_cases; auto split: option.splits if_splits)+

lemma client_reads_same:
  "CheckImageExists i w = (b, w') \<Longrightarrow> same_but_io w w'"
  "GetImageID i w = (r4, w') \<Longrightarrow> same_but_io w w'"
  "GetContainerImageID ref w = (r5, w') \<Longrightarrow> same_but_io w w'"
  "Docker_GetContainerStatus ref w = (r6, w') \<Longrightarrow> same_but_io w w'"
  by (auto simp: CheckImageExists_def GetImageID_def GetContainerImageID_def Docker_GetContainerStatus_def
      dest: inspect_same split: prod.splits sum.splits if_splits)

lemma preflight_spec:
  assumes "preflight expr_Run imageName params cpuCores ramMB w = (r, w')"
  shows "same_but_io w w'" "r = Inl e \<Longrightarrow> errors_Is e ErrPreflight"
    "r = Inr resolved \<Longrightarrow> ResolveParameters expr_Run params cpuCores ramMB = Inr resolved \<and> ValidateForContainer resolved ramMB = None"
  using assms
  by (auto simp: preflight_def preflightErrorf_def preflightWrapf_def dest: client_reads_same
      split: prod.splits sum.splits if_splits option.splits)

text \<open>The part of the engine that stopping and removing containers leaves alone.\<close>

definition same_data :: "world \<Rightarrow> world \<Rightarrow> bool" where
  "same_data w w' \<longleftrightarrow> volumes w' = volumes w \<and> images w' = images w"

lemma same_data_refl [simp]: "same_data w w"
  by (simp add: same_data_def)

lemma same_data_trans: "same_data a b \<Longrightarrow> same_data b c \<Longrightarrow> same_data a c"
  by (simp add: same_data_def)

lemma same_data_io: "same_but_io w w' \<Longrightarrow> same_data w w'"
  by (simp add: same_data_def same_but_io_fields)

lemma stop_remove_requests:
  "container_stop ref w = (r, w') \<Longrightarrow> same_data w w'"
  "container_remove ref w = (r, w') \<Longrightarrow> same_data w w'"
  unfolding container_stop_def container_remove_def
  by (erule docker_call_cases; auto simp: same_data_def on_container_def same_but_io_fields split: option.splits)+

lemma request_errors:
  "container_stop ref w = (Inl e, w') \<Longrightarrow> errors_Is e s \<Longrightarrow> s = ErrDockerNotFound"
  "container_remove ref w = (Inl e, w') \<Longrightarrow> errors_Is e s \<Longrightarrow> s = ErrDockerNotFound"
  "container_start ref w = (Inl e, w') \<Longrightarrow> errors_Is e s \<Longrightarrow> s = ErrDockerNotFound"
  "container_create name spec w = (Inl e, w') \<Longrightarrow> errors_Is e s \<Longrightarrow> s = ErrDockerNotFound"
  unfolding container_stop_def container_remove_def container_start_def container_create_def
  by (erule docker_call_error; auto simp: Let_def split: option.splits if_splits)+

text \<open>
  \<open>tidy w r w'\<close>: the client call that led from \<open>w\<close> to \<open>w'\<close> touched no volume and no image,
  kept the engine well formed, and if it failed, its error is the engine's own.
\<close>

definition tidy :: "world \<Rightarrow> goerror option \<Rightarrow> world \<Rightarrow> bool" where
  "tidy w r w' \<longleftrightarrow> same_data w w' \<and> (docker_ok w \<longrightarrow> docker_ok w')
     \<and> (\<forall>x s. r = Some x \<longrightarrow> errors_Is x s \<longrightarrow> s = ErrDockerNotFound)"

lemma tidy_io: "same_but_io w w' \<Longrightarrow> tidy w None w'"
  by (auto simp: tidy_def same_data_io eng.io_stable)

lemma tidy_trans: "tidy a None b \<Longrightarrow> tidy b r c \<Longrightarrow> tidy a r c"
  by (auto simp: tidy_def intro: same_data_trans)

lemma tidy_wrap: "tidy a (Some (wrap m e)) b \<longleftrightarrow> tidy a (Some e) b"
  by (simp add: tidy_def)

lemma StopContainer_tidy: "StopContainer ref w = (e, w') \<Longrightarrow> tidy w e w'"
  by (auto simp: StopContainer_def tidy_def dest: stop_remove_requests container_requests_ok request_errors
      split: prod.splits sum.splits)

lemma RemoveContainer_tidy: "RemoveContainer ref w = (e, w') \<Longrightarrow> tidy w e w'"
  by (auto simp: RemoveContainer_def tidy_def dest: stop_remove_requests container_requests_ok request_errors
      split: prod.splits sum.splits if_splits)

text \<open>A remove that reports success leaves no container under that reference.\<close>

lemma RemoveContainer_gone:
  assumes "RemoveContainer ref w = (None, w')" "docker_ok w"
  shows "ref \<notin> ct_Name ` set (containers w')" "lookup_container ref w' = None"
proof -
  let ?req = "\<lambda>w. case lookup_container ref w of None \<Rightarrow> Inl (Sentinel ErrDockerNotFound)
       | Some c \<Rightarrow> Inr (w\<lparr>containers := del_where (\<lambda>d. ct_ID d = ct_ID c) (containers w)\<rparr>, ())"
  consider e where "docker_call ?req w = (Inl e, w')" "errors_Is e ErrDockerNotFound"
    | "docker_call ?req w = (Inr (), w')"
    using assms(1) by (auto simp: RemoveContainer_def container_remove_def split: prod.splits sum.splits if_splits)
  then have gone: "lookup_container ref w' = None"
  proof cases
    case 1
    then show ?thesis by (auto elim!: docker_call_error split: option.splits)
  next
    case 2
    then obtain v where v: "same_but_io w v" "?req v = Inr (w', ())" by (rule docker_call_ok)
    then obtain c where c: "lookup_container ref v = Some c"
      "w' = v\<lparr>containers := del_where (\<lambda>d. ct_ID d = ct_ID c) (containers v)\<rparr>" by (auto split: option.splits)
    have "docker_ok v" using v(1) assms(2) by (rule eng.io_stable)
    then have "d = c" if "d \<in> set (containers v)" "ct_ID d = ref \<or> ct_Name d = ref" for d
      using lookup_container_ok[OF _ that(1)] that(2) c(1) by auto
    then show ?thesis using c(2) by (auto simp: lookup_container_def find_None_iff)
  qed
  then show "ref \<notin> ct_Name ` set (containers w')" by (auto simp: lookup_container_def find_None_iff)
  show "lookup_container ref w' = None" by (rule gone)
qed

lemma remove_by_id_tidy:
  assumes "remove_by_id oldContainerID w = (e, w')"
  shows "tidy w e w'"
proof -
  obtain st w1 where 1: "Docker_GetContainerStatus oldContainerID w = (st, w1)" by fastforce
  obtain e2 w2 where 2: "(if st = Inr ''running'' then StopContainer oldContainerID w1 else (None, w1)) = (e2, w2)"
    by fastforce
  have t1: "tidy w None w1" using tidy_io[OF client_reads_same(4)[OF 1]] .
  have t2: "tidy w1 e2 w2" using 2 StopContainer_tidy tidy_io[of w1 w1] by (auto split: if_splits)
  show ?thesis
  proof (cases e2)
    case (Some x)
    then show ?thesis using assms 1 2 t1 t2 by (auto simp: remove_by_id_def tidy_wrap intro: tidy_trans)
  next
    case None
    obtain e3 w3 where 3: "RemoveContainer oldContainerID w2 = (e3, w3)" by fastforce
    have "tidy w e3 w3" using t1 t2 RemoveContainer_tidy[OF 3] unfolding None by (blast intro: tidy_trans)
    then show ?thesis using assms 1 2 3 None by (auto simp: remove_by_id_def tidy_wrap split: option.splits)
  qed
qed

lemma remove_old_tidy:
  assumes "remove_old containerName oldContainerID w = (e, w')"
  shows "tidy w e w'" "e = None \<Longrightarrow> docker_ok w \<Longrightarrow> containerName \<notin> ct_Name ` set (containers w')"
proof -
  obtain e1 w1 where 1: "(if oldContainerID = '''' then (None, w) else remove_by_id oldContainerID w) = (e1, w1)"
    by fastforce
  have t1: "tidy w e1 w1" using 1 remove_by_id_tidy tidy_io[of w w] by (auto split: if_splits)
  obtain e2 w2 where 2: "RemoveContainer containerName w1 = (e2, w2)" by fastforce
  note t2 = RemoveContainer_tidy[OF 2]
  show "tidy w e w'"
    using assms 1 2 t1 t2 by (auto simp: remove_old_def tidy_wrap split: option.splits intro: tidy_trans)
  show "containerName \<notin> ct_Name ` set (containers w')" if "e = None" "docker_ok w"
  proof -
    have "RemoveContainer containerName w1 = (None, w')" "docker_ok w1"
      using assms 1 2 that t1 by (auto simp: remove_old_def tidy_def split: option.splits)
    then show ?thesis by (rule RemoveContainer_gone)
  qed
qed

text \<open>A container that came out of \<open>createContainer\<close> with this specification.\<close>

definition made :: "string \<Rightarrow> string \<Rightarrow> instanceContainerSpec \<Rightarrow> string \<Rightarrow> container \<Rightarrow> bool" where
  "made cid name spec imageID c \<longleftrightarrow>
     ct_ID c = cid \<and> ct_Name c = ContainerName name \<and> ct_Spec c = spec \<and> ct_ImageID c = imageID \<and> \<not> ct_Paused c"

lemma ContainerName_not_id: "\<not> list_all is_digit (ContainerName n)"
  by (simp add: ContainerName_def is_digit_def)

lemma createContainer_spec:
  assumes "createContainer name spec w = (r, w')" "docker_ok w" "volumes w (sp_MountSource spec) \<noteq> None"
  shows "docker_ok w'" "same_data w w'" "r = Inl e \<Longrightarrow> errors_Is e s \<Longrightarrow> s = ErrDockerNotFound"
    "r = Inr cid \<Longrightarrow> \<exists>c imageID. c \<in> set (containers w') \<and> made cid name spec imageID c \<and> images w (sp_Image spec) = Some imageID"
proof -
  have x: "container_create (ContainerName name) spec w = (r, w')" using assms(1) by (simp add: createContainer_def)
  show "docker_ok w'" using container_requests_ok(4)[OF assms(2) x ContainerName_not_id] .
  show "r = Inl e \<Longrightarrow> errors_Is e s \<Longrightarrow> s = ErrDockerNotFound" using x request_errors(4) by blast
  show "same_data w w'"
    using x assms(3) unfolding container_create_def
    by (elim docker_call_cases)
       (auto simp: same_data_def same_but_io_fields Let_def split: if_splits option.splits)
  show "\<exists>c imageID. c \<in> set (containers w') \<and> made cid name spec imageID c \<and> images w (sp_Image spec) = Some imageID" if "r = Inr cid"
    using x unfolding that container_create_def
    by (elim docker_call_ok)
       (auto simp: made_def same_but_io_fields Let_def split: if_splits option.splits)
qed

lemma containerEnv_no_password [simp]: "env_password (containerEnv '''') = None"
  by (simp add: containerEnv_def env_password_def HasPrefix_def)

lemma entrypoint_idle: "env_password (sp_Env spec) = None \<Longrightarrow> entrypoint spec w = w"
  by (simp add: entrypoint_def split: option.split)

lemma StartContainer_spec:
  assumes "StartContainer cid w = (e, w')" "docker_ok w" "c \<in> set (containers w)" "ct_ID c = cid"
    and "env_password (sp_Env (ct_Spec c)) = None"
  shows "tidy w e w'"
    "\<exists>a b. c\<lparr>ct_Running := a, ct_Restarting := b\<rparr> \<in> set (containers w') \<and> (e = None \<longrightarrow> a)"
proof -
  let ?go = "\<lambda>c. c\<lparr>ct_Running := True, ct_Restarting := False\<rparr>"
  obtain r where r: "container_start cid w = (r, w')" "e = None \<longleftrightarrow> (\<exists>u. r = Inr u)"
    using assms(1) by (auto simp: StartContainer_def split: prod.splits sum.splits)
  have look: "lookup_container cid v = Some c" if "same_but_io w v" for v
    using lookup_container_ok(1)[OF assms(2,3)] assms(4) same_but_io_fields[OF that] by (simp add: lookup_container_def)
  have step: "same_but_io w w' \<and> (\<exists>e. r = Inl e) \<or> (\<exists>v. same_but_io w v \<and> w' = on_container cid ?go v)"
    using r(1) unfolding container_start_def
    by (elim docker_call_cases) (auto simp: look entrypoint_idle assms(4,5) split: if_splits)
  then have d: "same_data w w'" by (auto simp: same_data_def same_but_io_fields on_container_def)
  have "docker_ok w'" using container_requests_ok(1)[OF assms(2) r(1)] .
  then show "tidy w e w'"
    using d assms(1) by (auto simp: tidy_def StartContainer_def dest: request_errors split: prod.splits sum.splits)
  show "\<exists>a b. c\<lparr>ct_Running := a, ct_Restarting := b\<rparr> \<in> set (containers w') \<and> (e = None \<longrightarrow> a)"
    using step
  proof
    assume "same_but_io w w' \<and> (\<exists>e. r = Inl e)"
    then have "c\<lparr>ct_Running := ct_Running c, ct_Restarting := ct_Restarting c\<rparr> \<in> set (containers w')" "e \<noteq> None"
      using assms(3) r(2) by (auto simp: same_but_io_fields)
    then show ?thesis by blast
  next
    assume "\<exists>v. same_but_io w v \<and> w' = on_container cid ?go v"
    then have "?go c \<in> set (containers w')"
      using assms(3,4) by (auto simp: same_but_io_fields on_container_def in_upd_where)
    then show ?thesis by blast
  qed
qed

lemma RecreateContainer_spec:
  assumes "RecreateContainer expr_Run name version imageName port cpuCores ramMB pgroup params old w = (r, w')"
    and "docker_ok w"
  shows "docker_ok w'" "same_data w w'" "r = Inl e \<Longrightarrow> errors_Is e ErrPreflight \<Longrightarrow> same_but_io w w'"
    "r = Inr cid \<Longrightarrow> \<exists>c resolved imageID. c \<in> set (containers w')
       \<and> ResolveParameters expr_Run params cpuCores ramMB = Inr resolved \<and> ValidateForContainer resolved ramMB = None
       \<and> images w imageName = Some imageID
       \<and> made cid name (buildInstanceContainer name version imageName port cpuCores ramMB '''' pgroup resolved) imageID c"
proof -
  obtain r1 w1 where 1: "preflight expr_Run imageName params cpuCores ramMB w = (r1, w1)" by fastforce
  note p = preflight_spec[OF 1]
  obtain r2 w2 where 2: "volume_inspect (VolumeName name) w1 = (r2, w2)" by fastforce
  have io: "same_but_io w w1" "same_but_io w w2"
    using p(1) inspect_same(2)[OF 2] same_but_io_trans by blast+
  obtain r3 w3 where 3: "remove_old (ContainerName name) old w2 = (r3, w3)" by fastforce
  have ok2: "docker_ok w2" by (rule eng.io_stable[OF io(2) assms(2)])
  have t: "same_data w w3" "docker_ok w3"
    using remove_old_tidy(1)[OF 3] ok2 same_data_io[OF io(2)] by (auto simp: tidy_def intro: same_data_trans)
  have "(docker_ok w' \<and> same_data w w' \<and> (\<forall>e. r = Inl e \<longrightarrow> errors_Is e ErrPreflight \<longrightarrow> same_but_io w w'))
     \<and> (\<forall>cid. r = Inr cid \<longrightarrow> (\<exists>c resolved imageID. c \<in> set (containers w')
       \<and> ResolveParameters expr_Run params cpuCores ramMB = Inr resolved \<and> ValidateForContainer resolved ramMB = None
       \<and> images w imageName = Some imageID
       \<and> made cid name (buildInstanceContainer name version imageName port cpuCores ramMB '''' pgroup resolved) imageID c))"
    (is "?keeps \<and> ?made")
  proof (cases "\<exists>resolved u. r1 = Inr resolved \<and> r2 = Inr u \<and> r3 = None")
    case False
    then have "(\<exists>e. r = Inl e \<and> w' = w1) \<or> (\<exists>e. r = Inl e \<and> w' = w2) \<or> (\<exists>e. r = Inl e \<and> r3 = Some e \<and> w' = w3)"
      using assms(1) 1 2 3 by (auto simp: RecreateContainer_def split: sum.splits option.splits)
    then show ?thesis
      using io t ok2 eng.io_stable[OF io(1) assms(2)] remove_old_tidy(1)[OF 3]
      by (auto simp: same_data_io tidy_def)
  next
    case True
    then obtain resolved where res: "r1 = Inr resolved" "r2 = Inr ()" "r3 = None" by auto
    let ?spec = "buildInstanceContainer name version imageName port cpuCores ramMB '''' pgroup resolved"
    have sp: "sp_MountSource ?spec = VolumeName name" "sp_Image ?spec = imageName"
      by (simp_all add: buildInstanceContainer_def Let_def)
    have "volumes w1 (VolumeName name) \<noteq> None"
      using 2 res(2) unfolding volume_inspect_def by (auto elim!: docker_call_ok simp: same_but_io_fields split: if_splits)
    then have vol: "volumes w3 (sp_MountSource ?spec) \<noteq> None"
      using t(1) io(1) unfolding sp same_data_def by (simp add: same_but_io_fields)
    obtain r4 w4 where 4: "createContainer name ?spec w3 = (r4, w4)" by fastforce
    note c = createContainer_spec[OF 4 t(2) vol]
    have r: "w' = w4" "r = (case r4 of Inl e \<Rightarrow> Inl (wrap ''create container'' e) | Inr cid \<Rightarrow> Inr cid)"
      using assms(1) 1 2 3 4 res by (auto simp: RecreateContainer_def split: sum.splits)
    have img: "images w3 imageName = images w imageName" using t(1) by (simp add: same_data_def)
    have "?keeps" using c r t by (auto intro: same_data_trans split: sum.splits)
    moreover have "?made"
      using c(4) r p(3)[OF res(1)] img unfolding sp by (auto split: sum.splits)
    ultimately show ?thesis by blast
  qed
  then show "docker_ok w'" "same_data w w'" "r = Inl e \<Longrightarrow> errors_Is e ErrPreflight \<Longrightarrow> same_but_io w w'"
    "r = Inr cid \<Longrightarrow> \<exists>c resolved imageID. c \<in> set (containers w')
       \<and> ResolveParameters expr_Run params cpuCores ramMB = Inr resolved \<and> ValidateForContainer resolved ramMB = None
       \<and> images w imageName = Some imageID
       \<and> made cid name (buildInstanceContainer name version imageName port cpuCores ramMB '''' pgroup resolved) imageID c"
    by blast+
qed

end
