(* ===== verification/Lifecycle.thy ===== *)
theory Lifecycle
  imports Docker InstanceStore Base64
begin

text \<open>
  The life of an instance, \<open>internal/operations\<close>: create, destroy, start and stop
  (\<open>rdbms_create.go\<close>, \<open>rdbms_delete.go\<close>, \<open>rdbms_update_state.go\<close>), the change of image or
  shape by replacing the container (\<open>cluster_recreate.go\<close>, \<open>rdbms_recreate.go\<close>,
  \<open>rdbms_switch.go\<close>, \<open>rdbms_update.go\<close>, \<open>rdbms_reconfigure.go\<close>) and the recorded password
  (\<open>rdbms_set_password.go\<close>). They combine the instance catalogue with the engine, and a
  failure between the two is what the code is careful about.
\<close>

section \<open>Dependencies\<close>

text \<open>
  The clock, the password cipher under the master key, the expression library, the number of
  readiness probes that fit into the 90 seconds, and the text of a container's log.
\<close>

record Dependencies =
  dp_now :: gotime
  dp_enc :: "string \<Rightarrow> string res"
  dp_dec :: "string \<Rightarrow> string res"
  dp_expr :: "string \<Rightarrow> ExpressionContext \<Rightarrow> expr_result res"
  dp_probes :: nat
  dp_logs :: "container \<Rightarrow> string"

section \<open>Talking to PostgreSQL\<close>

text \<open>
  A connection to the gateway at a port is accepted when a running container publishes that
  port and its cluster has that superuser password.
\<close>

definition pg_answers :: "int \<Rightarrow> string \<Rightarrow> world \<Rightarrow> container \<Rightarrow> bool" where
  "pg_answers port password w c \<longleftrightarrow>
     ct_Running c \<and> \<not> ct_Paused c \<and> sp_HostPort (ct_Spec c) = Itoa port
     \<and> password \<noteq> '''' \<and> volumes w (sp_MountSource (ct_Spec c)) = Some password"

definition pg_connect :: "int \<Rightarrow> string \<Rightarrow> world \<Rightarrow> goerror option \<times> world" where
  "pg_connect port password w =
     (case next_io w of (oc, w1) \<Rightarrow>
        (if oc = Done \<and> list_ex (pg_answers port password w1) (containers w1) then (None, w1)
         else (Some (DriverError ''pg''), w1)))"

text \<open>\<open>ALTER ROLE postgres WITH PASSWORD\<close> over a connection made with the old password.\<close>

definition pg_alter_password :: "int \<Rightarrow> string \<Rightarrow> string \<Rightarrow> world \<Rightarrow> goerror option \<times> world" where
  "pg_alter_password port password newPassword w =
     (case docker_call (\<lambda>w. case find (pg_answers port password w) (containers w) of
              None \<Rightarrow> Inl (DriverError ''pg'')
            | Some c \<Rightarrow> Inr (w\<lparr>volumes := (volumes w)(sp_MountSource (ct_Spec c) := Some newPassword)\<rparr>, ())) w of
        (Inl e, w1) \<Rightarrow> (Some e, w1) | (Inr _, w1) \<Rightarrow> (None, w1))"

fun pollReady :: "nat \<Rightarrow> (world \<Rightarrow> goerror option \<times> world) \<Rightarrow> goerror option \<Rightarrow> world \<Rightarrow> goerror option \<times> world" where
  "pollReady 0 probe lastErr w =
     (Some (case lastErr of None \<Rightarrow> Errorf0 ''not ready within 90s: %!w(<nil>)''
                          | Some e \<Rightarrow> wrap ''not ready within 90s'' e), w)"
| "pollReady (Suc n) probe lastErr w =
     (case probe w of (None, w1) \<Rightarrow> (None, w1) | (Some e, w1) \<Rightarrow> pollReady n probe (Some e) w1)"

definition waitForPostgresReady :: "'x Dependencies_scheme \<Rightarrow> int \<Rightarrow> string \<Rightarrow> world \<Rightarrow> goerror option \<times> world" where
  "waitForPostgresReady deps port password w = pollReady (dp_probes deps) (pg_connect port password) None w"

definition adoptPostgresPassword :: "int \<Rightarrow> string \<Rightarrow> string \<Rightarrow> world \<Rightarrow> goerror option \<times> world" where
  "adoptPostgresPassword port initdbPassword realPassword w =
     (case pg_connect port initdbPassword w of
        (Some e, w1) \<Rightarrow> (Some (wrap ''connect to set the instance password'' e), w1)
      | (None, w1) \<Rightarrow>
          (case pg_alter_password port initdbPassword realPassword w1 of
             (Some e, w2) \<Rightarrow> (Some (wrap ''set the instance password'' e), w2)
           | (None, w2) \<Rightarrow> (None, w2)))"

text \<open>\<open>util.GenerateSecurePassword\<close>, given the random bytes.\<close>

definition GenerateSecurePassword :: "string \<Rightarrow> nat \<Rightarrow> string" where
  "GenerateSecurePassword bytes len = take len (EncodeToString bytes)"

definition annotateReadyError :: "'x Dependencies_scheme \<Rightarrow> string \<Rightarrow> goerror \<Rightarrow> world \<Rightarrow> goerror \<times> world" where
  "annotateReadyError deps containerID readyErr w =
     (if containerID = '''' then (readyErr, w)
      else case docker_call (\<lambda>w. case lookup_container containerID w of
               None \<Rightarrow> Inl (Sentinel ErrDockerNotFound) | Some c \<Rightarrow> Inr (w, dp_logs deps c)) w of
        (Inl e, w1) \<Rightarrow> (readyErr, w1)
      | (Inr logs, w1) \<Rightarrow>
          if TrimSpace logs = '''' then (readyErr, w1)
          else (Errorf1 '''' readyErr (char_of (10 :: nat) # ''container logs:'' @ char_of (10 :: nat) # logs), w1))"

definition classifyRecreateError :: "goerror \<Rightarrow> goerror" where
  "classifyRecreateError e =
     (if errors_Is e ErrSharedMemoryTooLarge \<or> errors_Is e ErrPreflight then Invalidf (Errorf1 '''' e '''') else e)"

section \<open>Create\<close>

record CreateRDBMSParams =
  cr_Name :: string
  cr_Version :: string
  cr_Image :: string
  cr_Port :: int
  cr_CPUCores :: int
  cr_RAMMB :: int
  cr_ParameterGroup :: string

record CreateRDBMSResult =
  cres_Instance :: RDBMSInstance
  cres_Password :: string

definition cleanupFailedCreate :: "string \<Rightarrow> string \<Rightarrow> world \<Rightarrow> world" where
  "cleanupFailedCreate name containerID w =
     (let w1 = snd (RemoveContainer containerID w);
          w2 = snd (RemoveVolume (VolumeName name) w1) in
      snd (Instances_Delete name w2))"

text \<open>From the recorded container on: every failure tears the new instance down.\<close>

definition bring_up ::
  "'x Dependencies_scheme \<Rightarrow> string \<Rightarrow> int \<Rightarrow> string \<Rightarrow> string \<Rightarrow> string \<Rightarrow> world \<Rightarrow> goerror option \<times> world" where
  "bring_up deps name port containerID initdbPassword password w =
     (case Instances_UpdateContainerID (dp_now deps) name containerID w of
        (Some e, w1) \<Rightarrow> (Some (wrap ''record container id'' e), cleanupFailedCreate name containerID w1)
      | (None, w1) \<Rightarrow>
     (case StartContainer containerID w1 of
        (Some e, w2) \<Rightarrow> (Some (wrap ''start container'' e), cleanupFailedCreate name containerID w2)
      | (None, w2) \<Rightarrow>
     (case waitForPostgresReady deps port initdbPassword w2 of
        (Some e, w3) \<Rightarrow>
          (let w4 = cleanupFailedCreate name containerID w3 in
           case annotateReadyError deps containerID e w4 of (e1, w5) \<Rightarrow>
             (Some (wrap ''wait for PostgreSQL readiness'' e1), w5))
      | (None, w3) \<Rightarrow>
     (case adoptPostgresPassword port initdbPassword password w3 of
        (Some e, w4) \<Rightarrow> (Some (wrap ''set the instance password'' e), cleanupFailedCreate name containerID w4)
      | (None, w4) \<Rightarrow>
          (case Instances_UpdateStatus (dp_now deps) name StatusRunning w4 of
             (Some e, w5) \<Rightarrow> (Some (wrap ''record running status'' e), w5)
           | (None, w5) \<Rightarrow> (None, w5))))))"

text \<open>From the reserved name on: the row, the container, and the bring-up.\<close>

definition create_reserved ::
  "'x Dependencies_scheme \<Rightarrow> CreateRDBMSParams \<Rightarrow> string \<Rightarrow> string \<Rightarrow> string \<Rightarrow> world \<Rightarrow> CreateRDBMSResult res \<times> world" where
  "create_reserved deps params img password initdbPassword w =
     (case dp_enc deps password of
        Inl e \<Rightarrow> (Inl (wrap ''encrypt password'' e), w)
      | Inr encryptedPassword \<Rightarrow>
     (case Instances_Create (dp_now deps) (cr_Name params) (cr_Port params) (cr_Version params) encryptedPassword ''''
              (cr_CPUCores params) (cr_RAMMB params) (cr_ParameterGroup params) img w of
        (Inl e, w1) \<Rightarrow> (Inl (wrap ''create instance in store'' e), w1)
      | (Inr inst, w1) \<Rightarrow>
     (case GetGroup (cr_ParameterGroup params) w1 of
        (Inl e, w2) \<Rightarrow> (Inl (Invalidf (wrap (''get parameter group '' @ cr_ParameterGroup params) e)),
                          snd (Instances_Delete (cr_Name params) w2))
      | (Inr pgroup, w2) \<Rightarrow>
     (case CreateContainer (dp_expr deps) (cr_Name params) (cr_Version params) img (cr_Port params) initdbPassword
              (cr_CPUCores params) (cr_RAMMB params) (cr_ParameterGroup params) pgroup w2 of
        (Inl e, w3) \<Rightarrow> (Inl (if errors_Is (classifyRecreateError e) ErrInvalid then classifyRecreateError e
                               else wrap ''create container'' e),
                          snd (Instances_Delete (cr_Name params) w3))
      | (Inr containerID, w3) \<Rightarrow>
          (case bring_up deps (cr_Name params) (cr_Port params) containerID initdbPassword password w3 of
             (Some e, w4) \<Rightarrow> (Inl e, w4)
           | (None, w4) \<Rightarrow>
               (Inr \<lparr>cres_Instance = inst\<lparr>inst_ContainerID := containerID, inst_Status := ''running''\<rparr>,
                     cres_Password = password\<rparr>, w4))))))"

definition create_defaults :: "CreateRDBMSParams \<Rightarrow> CreateRDBMSParams" where
  "create_defaults p =
     p\<lparr>cr_Version := (if cr_Version p = '''' then ''17'' else cr_Version p),
       cr_Port := (if cr_Port p = 0 then 5432 else cr_Port p)\<rparr>"

definition CreateRDBMS_Execute ::
  "'x Dependencies_scheme \<Rightarrow> CreateRDBMSParams \<Rightarrow> string \<Rightarrow> string \<Rightarrow> world \<Rightarrow> CreateRDBMSResult res \<times> world" where
  "CreateRDBMS_Execute deps params0 random1 random2 w =
     (let params = create_defaults params0;
          img = (if cr_Image params = '''' then ''postgres:'' @ cr_Version params else cr_Image params) in
      if cr_Image params \<noteq> '''' \<and> DetectPGVersionFromImage img \<notin> {None, Some (cr_Version params)}
      then (Inl (Invalidf (Errorf0 (''image tag suggests PostgreSQL '' @ the (DetectPGVersionFromImage img)
               @ '' but --version '' @ cr_Version params @ '' was specified''))), w)
      else case Instances_IsNameInUse (cr_Name params) w of
        (Inl e, w1) \<Rightarrow> (Inl (wrap ''check name availability'' e), w1)
      | (Inr nameInUse, w1) \<Rightarrow>
          if nameInUse then (Inl (Conflictf (Errorf0 (''instance name already exists: '' @ cr_Name params))), w1)
          else case Instances_IsPortInUse (cr_Port params) w1 of
            (Inl e, w2) \<Rightarrow> (Inl (wrap ''check port availability'' e), w2)
          | (Inr (portInUse, existingInstance), w2) \<Rightarrow>
              if portInUse
              then (Inl (Conflictf (Errorf0 (''port '' @ Itoa (cr_Port params) @ '' is already in use by instance: '' @ existingInstance))), w2)
              else create_reserved deps params img (GenerateSecurePassword random1 24) (GenerateSecurePassword random2 24) w2)"

section \<open>Destroy\<close>

definition retry_destroy :: "string \<Rightarrow> goerror \<Rightarrow> goerror" where
  "retry_destroy what e = Errorf1 (what @ '': '') e '' (instance was not deleted; retry destroy)''"

definition DeleteRDBMS_Execute :: "string \<Rightarrow> world \<Rightarrow> goerror option \<times> world" where
  "DeleteRDBMS_Execute name w =
     (case Instances_Get name w of
        (Inl e, w1) \<Rightarrow> (Some (wrap ''get instance'' e), w1)
      | (Inr inst, w1) \<Rightarrow>
     (case (if inst_ContainerID inst \<noteq> '''' then RemoveContainer (inst_ContainerID inst) w1 else (None, w1)) of
        (Some e, w2) \<Rightarrow> (Some (retry_destroy ''remove container'' e), w2)
      | (None, w2) \<Rightarrow>
     (case RemoveContainer (ContainerName name) w2 of
        (Some e, w3) \<Rightarrow> (Some (retry_destroy (''remove container '' @ ContainerName name) e), w3)
      | (None, w3) \<Rightarrow>
     (case RemoveVolume (VolumeName name) w3 of
        (Some e, w4) \<Rightarrow> (Some (retry_destroy (''remove volume '' @ VolumeName name) e), w4)
      | (None, w4) \<Rightarrow>
          (case Instances_Delete name w4 of
             (Some e, w5) \<Rightarrow> (Some (wrap ''delete instance from store'' e), w5)
           | (None, w5) \<Rightarrow> (None, w5))))))"

section \<open>Start and stop\<close>

definition UpdateState_Execute :: "'x Dependencies_scheme \<Rightarrow> string \<Rightarrow> string \<Rightarrow> world \<Rightarrow> goerror option \<times> world" where
  "UpdateState_Execute deps name state w =
     (case Instances_Get name w of
        (Inl e, w1) \<Rightarrow> (Some (wrap ''get instance'' e), w1)
      | (Inr inst, w1) \<Rightarrow>
          if state = ''start'' then
            (case StartContainer (inst_ContainerID inst) w1 of
               (Some e, w2) \<Rightarrow> (Some (wrap ''start container'' e), w2)
             | (None, w2) \<Rightarrow>
            (case Instances_GetDecryptedPassword (dp_dec deps) name w2 of
               (Inl e, w3) \<Rightarrow> (Some (wrap ''decrypt password'' e), w3)
             | (Inr password, w3) \<Rightarrow>
            (case waitForPostgresReady deps (inst_Port inst) password w3 of
               (Some e, w4) \<Rightarrow>
                 (let w5 = snd (Instances_UpdateStatus (dp_now deps) name StatusError w4) in
                  case annotateReadyError deps (inst_ContainerID inst) e w5 of (e1, w6) \<Rightarrow>
                    (Some (wrap ''wait for PostgreSQL readiness'' e1), w6))
             | (None, w4) \<Rightarrow> (None, snd (Instances_UpdateStatus (dp_now deps) name StatusRunning w4)))))
          else if state = ''stop'' then
            (case StopContainer (inst_ContainerID inst) w1 of
               (Some e, w2) \<Rightarrow> (Some (wrap ''stop container'' e), w2)
             | (None, w2) \<Rightarrow> (None, snd (Instances_UpdateStatus (dp_now deps) name StatusStopped w2)))
          else (Some (Invalidf (Errorf0 (''invalid state: '' @ state))), w1))"

section \<open>Replacing the container\<close>

record clusterSpec =
  cs_Name :: string
  cs_Version :: string
  cs_Image :: string
  cs_Port :: int
  cs_Password :: string
  cs_CPUCores :: int
  cs_RAMMB :: int
  cs_ParameterGroup :: string
  cs_Parameters :: "Parameter list"

definition specFromInstance :: "RDBMSInstance \<Rightarrow> string \<Rightarrow> Parameter list \<Rightarrow> clusterSpec" where
  "specFromInstance inst password params =
     \<lparr>cs_Name = inst_Name inst, cs_Version = inst_Version inst, cs_Image = inst_Image inst,
      cs_Port = inst_Port inst, cs_Password = password, cs_CPUCores = inst_CPUCores inst,
      cs_RAMMB = inst_RAMMB inst, cs_ParameterGroup = inst_ParameterGroup inst, cs_Parameters = params\<rparr>"

definition stopFailedContainer :: "string \<Rightarrow> world \<Rightarrow> world" where
  "stopFailedContainer cid w = (if cid = '''' then w else snd (StopContainer cid w))"

text \<open>The new container starts and is waited for; on failure it is stopped.\<close>

definition start_and_wait :: "'x Dependencies_scheme \<Rightarrow> clusterSpec \<Rightarrow> string \<Rightarrow> world \<Rightarrow> goerror option \<times> world" where
  "start_and_wait deps spec cid w =
     (case StartContainer cid w of
        (Some e, w1) \<Rightarrow> (Some (wrap ''start container'' e), stopFailedContainer cid w1)
      | (None, w1) \<Rightarrow>
     (case waitForPostgresReady deps (cs_Port spec) (cs_Password spec) w1 of
        (Some e, w2) \<Rightarrow>
          (case annotateReadyError deps cid e (stopFailedContainer cid w2) of (e1, w3) \<Rightarrow>
             (Some (wrap ''wait for PostgreSQL readiness'' e1), w3))
      | (None, w2) \<Rightarrow> (None, w2)))"

text \<open>The id is set whenever a container was created, also next to an error.\<close>

definition recreateStartReady ::
  "'x Dependencies_scheme \<Rightarrow> clusterSpec \<Rightarrow> string \<Rightarrow> world \<Rightarrow> (string \<times> goerror option) \<times> world" where
  "recreateStartReady deps spec oldContainerID w =
     (case RecreateContainer (dp_expr deps) (cs_Name spec) (cs_Version spec) (cs_Image spec) (cs_Port spec)
              (cs_CPUCores spec) (cs_RAMMB spec) (cs_ParameterGroup spec) (cs_Parameters spec) oldContainerID w of
        (Inl e, w1) \<Rightarrow> (('''', Some e), w1)
      | (Inr cid, w1) \<Rightarrow> (case start_and_wait deps spec cid w1 of (e, w2) \<Rightarrow> ((cid, e), w2)))"

text \<open>The image the old container really used, looked up by its id, then by its name.\<close>

fun pin_image :: "string list \<Rightarrow> string \<Rightarrow> world \<Rightarrow> string res \<times> world" where
  "pin_image [] img w = (Inr img, w)"
| "pin_image (ref # refs) img w =
     (if ref = '''' then pin_image refs img w
      else case GetContainerImageID ref w of
        (Inl e, w1) \<Rightarrow>
          if IsNotFound e then pin_image refs img w1
          else (Inl (classifyRecreateError (Errorf2 '''' (Sentinel ErrPreflight) '': resolve rollback image: '' e '''')), w1)
      | (Inr imageID, w1) \<Rightarrow>
          (case CheckImageExists imageID w1 of (found, w2) \<Rightarrow>
             if \<not> found
             then (Inl (classifyRecreateError (Errorf1 '''' (Sentinel ErrPreflight)
                     ('': previous image '' @ imageID @ '' is unavailable for rollback''))), w2)
             else (Inr imageID, w2)))"

text \<open>After a failed change: rebuild the previous container, and say where the store points.\<close>

definition roll_back ::
  "'x Dependencies_scheme \<Rightarrow> clusterSpec \<Rightarrow> string \<Rightarrow> string \<Rightarrow> goerror \<Rightarrow> world \<Rightarrow> (bool \<times> goerror option) \<times> world" where
  "roll_back deps prev name cid e w =
     (case recreateStartReady deps prev cid w of
        ((rbID, Some rbErr), w1) \<Rightarrow>
          (let w2 = snd (Instances_UpdateStatus (dp_now deps) name StatusError w1);
               orphan = (if rbID = '''' then cid else rbID);
               w3 = (if orphan = '''' then w2 else snd (Instances_UpdateContainerID (dp_now deps) name orphan w2)) in
           ((False, Some (Errorf2 '''' e ''; rollback to the previous configuration also failed: '' rbErr '''')), w3))
      | ((rbID, None), w1) \<Rightarrow>
          (case Instances_UpdateContainerID (dp_now deps) name rbID w1 of
             (Some persistErr, w2) \<Rightarrow>
               ((True, Some (Errorf2 '''' e '' (rolled back the container, but failed to record its id: '' persistErr '')'')),
                snd (Instances_UpdateStatus (dp_now deps) name StatusError w2))
           | (None, w2) \<Rightarrow>
               ((True, Some e), snd (Instances_UpdateStatus (dp_now deps) name StatusRunning w2))))"

definition applyClusterChange ::
  "'x Dependencies_scheme \<Rightarrow> clusterSpec \<Rightarrow> clusterSpec \<Rightarrow> string \<Rightarrow> world \<Rightarrow> (bool \<times> goerror option) \<times> world" where
  "applyClusterChange deps next_spec prev0 oldContainerID w =
     (case pin_image [oldContainerID, ContainerName (cs_Name prev0)] (cs_Image prev0) w of
        (Inl e, w1) \<Rightarrow> ((False, Some e), w1)
      | (Inr img, w1) \<Rightarrow>
          let prev = prev0\<lparr>cs_Image := img\<rparr> in
          (case recreateStartReady deps next_spec oldContainerID w1 of
             ((cid, Some e), w2) \<Rightarrow>
               if errors_Is e ErrPreflight then ((False, Some (classifyRecreateError e)), w2)
               else roll_back deps prev (cs_Name next_spec) cid e w2
           | ((cid, None), w2) \<Rightarrow>
               (case Instances_UpdateContainerID (dp_now deps) (cs_Name next_spec) cid w2 of
                  (Some e, w3) \<Rightarrow> ((False, Some (wrap ''record container id'' e)), w3)
                | (None, w3) \<Rightarrow> ((False, None), w3))))"

text \<open>What both callers do around the change: a transient status, and its restoration.\<close>

definition after_change ::
  "'x Dependencies_scheme \<Rightarrow> string \<Rightarrow> string \<Rightarrow> string \<Rightarrow> clusterSpec \<Rightarrow> clusterSpec \<Rightarrow> string \<Rightarrow> (goerror \<Rightarrow> goerror) \<Rightarrow> world
     \<Rightarrow> goerror option \<times> world" where
  "after_change deps name transient prevStatus next_spec prev containerID rolled w =
     (let w1 = snd (Instances_UpdateStatus (dp_now deps) name transient w) in
      case applyClusterChange deps next_spec prev containerID w1 of ((rolledBack, err), w2) \<Rightarrow>
        (case err of
           None \<Rightarrow> (None, w2)
         | Some e \<Rightarrow>
             if rolledBack then (Some (rolled e), w2)
             else (Some e,
                   if prevStatus \<noteq> StatusError \<and> errors_Is e ErrInvalid
                   then snd (Instances_UpdateStatus (dp_now deps) name prevStatus w2) else w2)))"

definition recreateInstanceOnImage ::
  "'x Dependencies_scheme \<Rightarrow> RDBMSInstance \<Rightarrow> string \<Rightarrow> string \<Rightarrow> world \<Rightarrow> RDBMSInstance res \<times> world" where
  "recreateInstanceOnImage deps inst newImage newVersion w =
     (case dp_dec deps (inst_Password inst) of
        Inl e \<Rightarrow> (Inl (wrap ''decrypt password'' e), w)
      | Inr password \<Rightarrow>
     (case GetGroup (inst_ParameterGroup inst) w of
        (Inl e, w1) \<Rightarrow> (Inl (wrap (''get parameter group '' @ inst_ParameterGroup inst) e), w1)
      | (Inr pgroup, w1) \<Rightarrow>
          let prev = specFromInstance inst password pgroup;
              next_spec = prev\<lparr>cs_Image := newImage, cs_Version := newVersion\<rparr> in
     (case after_change deps (inst_Name inst) StatusSwitching (inst_Status inst) next_spec prev (inst_ContainerID inst)
              (\<lambda>e. Errorf1 (''image '' @ newImage @ '' could not start: '') e '' (rolled back to the previous container image)'') w1 of
        (Some e, w2) \<Rightarrow> (Inl e, w2)
      | (None, w2) \<Rightarrow>
     (case Instances_UpdateImage (dp_now deps) (inst_Name inst) newImage newVersion w2 of
        (Some e, w3) \<Rightarrow> (Inl (wrap ''record image'' e), w3)
      | (None, w3) \<Rightarrow>
     (case Instances_UpdateStatus (dp_now deps) (inst_Name inst) StatusRunning w3 of
        (Some e, w4) \<Rightarrow> (Inl (wrap ''record running status'' e), w4)
      | (None, w4) \<Rightarrow>
          (case Instances_Get (inst_Name inst) w4 of
             (Inl e, w5) \<Rightarrow> (Inl (wrap ''get updated instance'' e), w5)
           | (Inr updated, w5) \<Rightarrow> (Inr updated, w5)))))))"

definition imageDiffersFromContainer :: "string \<Rightarrow> string \<Rightarrow> world \<Rightarrow> bool \<times> world" where
  "imageDiffersFromContainer img containerID w =
     (if containerID = '''' then (True, w)
      else case GetImageID img w of
        (None, w1) \<Rightarrow> (True, w1)
      | (Some tagID, w1) \<Rightarrow>
          (case GetContainerImageID containerID w1 of
             (Inl e, w2) \<Rightarrow> (True, w2)
           | (Inr containerImageID, w2) \<Rightarrow> (tagID \<noteq> containerImageID, w2)))"

section \<open>Switch, update, reconfigure\<close>

definition parseMajorVersion :: "string \<Rightarrow> int option" where
  "parseMajorVersion v =
     Atoi (case CutChar (CHR ''.'') (TrimSpace v) of None \<Rightarrow> TrimSpace v | Some (major, _) \<Rightarrow> major)"

definition crosses_major :: "string \<Rightarrow> string \<Rightarrow> bool" where
  "crosses_major current new_version =
     (case (parseMajorVersion current, parseMajorVersion new_version) of
        (Some curMajor, Some newMajor) \<Rightarrow> newMajor \<noteq> curMajor | _ \<Rightarrow> False)"

definition SwitchRDBMS_Execute ::
  "'x Dependencies_scheme \<Rightarrow> string \<Rightarrow> string \<Rightarrow> string \<Rightarrow> world \<Rightarrow> RDBMSInstance res \<times> world" where
  "SwitchRDBMS_Execute deps name newImage version w =
     (case Instances_Get name w of
        (Inl e, w1) \<Rightarrow> (Inl (wrap ''get instance'' e), w1)
      | (Inr inst, w1) \<Rightarrow>
          let newVersion = (if version \<noteq> '''' then version
                            else case DetectPGVersionFromImage newImage of Some v \<Rightarrow> v | None \<Rightarrow> inst_Version inst) in
          if DetectPGVersionFromImage newImage \<notin> {None, Some newVersion}
          then (Inl (Invalidf (Errorf0 (''image tag suggests PostgreSQL '' @ the (DetectPGVersionFromImage newImage)
                   @ '' but --version '' @ newVersion @ '' was specified''))), w1)
          else if crosses_major (inst_Version inst) newVersion
          then (Inl (Invalidf (Errorf0 ''cannot switch instance: switch only changes the image within the same major version'')), w1)
          else case CheckImageExists newImage w1 of (found, w2) \<Rightarrow>
            if \<not> found then (Inl (Invalidf (Errorf0 ''image not found locally'')), w2)
            else case (if newImage = inst_Image inst \<and> newVersion = inst_Version inst
                       then imageDiffersFromContainer newImage (inst_ContainerID inst) w2 else (True, w2)) of
              (differs, w3) \<Rightarrow>
                if \<not> differs then (Inl (Invalidf (Errorf0 ''instance already uses this image, and it is up to date'')), w3)
                else recreateInstanceOnImage deps inst newImage newVersion w3)"

text \<open>A pull: the tag now names the image that the registry has for it, kept under its id too.\<close>

definition PullImageProgress :: "(string \<Rightarrow> string option) \<Rightarrow> string \<Rightarrow> world \<Rightarrow> goerror option \<times> world" where
  "PullImageProgress registry imageName w =
     (case docker_call (\<lambda>w. case registry imageName of
              None \<Rightarrow> Inl (DriverError ''manifest unknown'')
            | Some imageID \<Rightarrow> Inr (w\<lparr>images := (images w)(imageName \<mapsto> imageID, imageID \<mapsto> imageID)\<rparr>, ())) w of
        (Inl e, w1) \<Rightarrow> (Some (wrap ''pull image'' e), w1) | (Inr _, w1) \<Rightarrow> (None, w1))"

definition UpdateRDBMS_Execute ::
  "'x Dependencies_scheme \<Rightarrow> (string \<Rightarrow> string option) \<Rightarrow> string \<Rightarrow> string \<Rightarrow> world \<Rightarrow> RDBMSInstance res \<times> world" where
  "UpdateRDBMS_Execute deps registry name img w =
     (case Instances_Get name w of
        (Inl e, w1) \<Rightarrow> (Inl (wrap ''get instance'' e), w1)
      | (Inr inst, w1) \<Rightarrow>
          let targetImage = (if img = '''' then inst_Image inst else img);
              targetVersion = (case DetectPGVersionFromImage targetImage of Some v \<Rightarrow> v | None \<Rightarrow> inst_Version inst) in
          if crosses_major (inst_Version inst) targetVersion
          then (Inl (Invalidf (Errorf0 ''cannot update instance: update stays within the same major version'')), w1)
          else case PullImageProgress registry targetImage w1 of
            (Some e, w2) \<Rightarrow> (Inl e, w2)
          | (None, w2) \<Rightarrow>
              (case (if targetImage \<noteq> inst_Image inst \<or> targetVersion \<noteq> inst_Version inst then (True, w2)
                     else imageDiffersFromContainer targetImage (inst_ContainerID inst) w2) of
                 (needsRecreate, w3) \<Rightarrow>
                   if \<not> needsRecreate then (Inr inst, w3)
                   else recreateInstanceOnImage deps inst targetImage targetVersion w3))"

record ReconfigureRDBMSParams =
  rc_Name :: string
  rc_ParameterGroup :: string
  rc_CPUCores :: "int option"
  rc_RAMMB :: "int option"
  rc_Port :: "int option"

record reconfigureTarget =
  rt_group :: string
  rt_cpuCores :: int
  rt_ramMB :: int
  rt_port :: int

definition sameAs :: "reconfigureTarget \<Rightarrow> RDBMSInstance \<Rightarrow> bool" where
  "sameAs t inst \<longleftrightarrow> rt_group t = inst_ParameterGroup inst \<and> rt_cpuCores t = inst_CPUCores inst
     \<and> rt_ramMB t = inst_RAMMB inst \<and> rt_port t = inst_Port inst"

definition describe :: "reconfigureTarget \<Rightarrow> RDBMSInstance \<Rightarrow> string" where
  "describe t inst =
     (let parts = (if rt_group t \<noteq> inst_ParameterGroup inst then [''parameter group '' @ rt_group t] else [])
            @ (if rt_cpuCores t \<noteq> inst_CPUCores inst then [''CPU '' @ Itoa (rt_cpuCores t) @ '' cores''] else [])
            @ (if rt_ramMB t \<noteq> inst_RAMMB inst then [''RAM '' @ Itoa (rt_ramMB t) @ '' MB''] else [])
            @ (if rt_port t \<noteq> inst_Port inst then [''port '' @ Itoa (rt_port t)] else []) in
      if parts = [] then ''the current configuration'' else JoinWith '', '' parts)"

text \<open>\<open>internal/util/resources.go\<close>, given what \<open>gopsutil\<close> reports of cores and memory.\<close>

definition ValidateBasicResourceBounds :: "int \<Rightarrow> int \<Rightarrow> goerror option" where
  "ValidateBasicResourceBounds cpuCores ramMB =
     (if cpuCores < 1 \<or> cpuCores > 1024 then Some (Errorf0 ''CPU cores must be between 1 and 1024'')
      else if ramMB < 128 \<or> ramMB > 1048576 then Some (Errorf0 ''RAM must be between 128MB and 1TB'')
      else None)"

definition ValidateSystemResources :: "int res \<Rightarrow> int res \<Rightarrow> int \<Rightarrow> int \<Rightarrow> goerror option" where
  "ValidateSystemResources cpu_Counts mem_Total cpuCores ramMB =
     (case cpu_Counts of
        Inl e \<Rightarrow> Some (wrap ''failed to get CPU count'' e)
      | Inr totalCores \<Rightarrow>
          if totalCores = 0 then Some (Errorf0 ''no CPU information available'')
          else if cpuCores > totalCores
          then Some (Errorf0 (''requested CPU cores ('' @ Itoa cpuCores @ '') exceeds available cores ('' @ Itoa totalCores @ '')''))
          else if cpuCores \<le> 0 then Some (Errorf0 ''CPU cores must be greater than 0'')
          else case mem_Total of
            Inl e \<Rightarrow> Some (wrap ''failed to get memory information'' e)
          | Inr bytes \<Rightarrow>
              let totalMemMB = bytes div (1024 * 1024) in
              if totalMemMB > max_int64 then Some (Errorf0 ''system memory too large for platform'')
              else if ramMB > totalMemMB
              then Some (Errorf0 (''requested RAM ('' @ Itoa ramMB @ '' MB) exceeds available memory ('' @ Itoa totalMemMB @ '' MB)''))
              else if ramMB \<le> 0 then Some (Errorf0 ''RAM must be greater than 0 MB'')
              else None)"

record host =
  h_cpu :: "int res"
  h_mem :: "int res"
  h_port_answers :: "int \<Rightarrow> bool"

definition resolveTarget ::
  "host \<Rightarrow> ReconfigureRDBMSParams \<Rightarrow> RDBMSInstance \<Rightarrow> world \<Rightarrow> reconfigureTarget res \<times> world" where
  "resolveTarget h p inst w =
     (if rc_ParameterGroup p = '''' \<and> rc_CPUCores p = None \<and> rc_RAMMB p = None \<and> rc_Port p = None
      then (Inl (Invalidf (Errorf0 ''nothing to change: pass a parameter group, cpuCores, ramMb and/or port'')), w)
      else
        let t = \<lparr>rt_group = (if rc_ParameterGroup p \<noteq> '''' then rc_ParameterGroup p else inst_ParameterGroup inst),
                 rt_cpuCores = (case rc_CPUCores p of Some n \<Rightarrow> n | None \<Rightarrow> inst_CPUCores inst),
                 rt_ramMB = (case rc_RAMMB p of Some n \<Rightarrow> n | None \<Rightarrow> inst_RAMMB inst),
                 rt_port = inst_Port inst\<rparr>;
            resources = (if rc_CPUCores p = None \<and> rc_RAMMB p = None then None
              else case ValidateBasicResourceBounds (rt_cpuCores t) (rt_ramMB t) of
                Some e \<Rightarrow> Some (Errorf0 (''invalid resource values: '' @ Error e))
              | None \<Rightarrow>
                  (case ValidateSystemResources (h_cpu h) (h_mem h) (rt_cpuCores t) (rt_ramMB t) of
                     Some e \<Rightarrow> Some (Errorf0 (''invalid resource allocation: '' @ Error e))
                   | None \<Rightarrow> None)) in
        case resources of
          Some e \<Rightarrow> (Inl (Invalidf e), w)
        | None \<Rightarrow>
            (case rc_Port p of
               None \<Rightarrow> (Inr t, w)
             | Some port \<Rightarrow>
                 if port < 1 \<or> port > 65535 then (Inl (Invalidf (Errorf0 ''port must be between 1 and 65535'')), w)
                 else if port = inst_Port inst then (Inr (t\<lparr>rt_port := port\<rparr>), w)
                 else (case Instances_IsPortInUse port w of
                   (Inl e, w1) \<Rightarrow> (Inl (wrap ''check port availability'' e), w1)
                 | (Inr (inUse, holder), w1) \<Rightarrow>
                     if inUse then (Inl (Conflictf (Errorf0 (''port '' @ Itoa port @ '' is already in use by instance: '' @ holder))), w1)
                     else if h_port_answers h port
                     then (Inl (Conflictf (Errorf0 (''port '' @ Itoa port @ '' is already in use on this host''))), w1)
                     else (Inr (t\<lparr>rt_port := port\<rparr>), w1))))"

text \<open>The new shape is recorded once PostgreSQL accepts connections on it.\<close>

definition commit_shape :: "'x Dependencies_scheme \<Rightarrow> reconfigureTarget \<Rightarrow> RDBMSInstance \<Rightarrow> string \<Rightarrow> world \<Rightarrow> RDBMSInstance res \<times> world" where
  "commit_shape deps target inst name w =
     (case (if rt_group target \<noteq> inst_ParameterGroup inst
            then Instances_UpdateParameterGroup (dp_now deps) name (rt_group target) w else (None, w)) of
        (Some e, w1) \<Rightarrow> (Inl (wrap ''record parameter group'' e), w1)
      | (None, w1) \<Rightarrow>
     (case (if rt_cpuCores target \<noteq> inst_CPUCores inst \<or> rt_ramMB target \<noteq> inst_RAMMB inst \<or> rt_port target \<noteq> inst_Port inst
            then Instances_UpdateResources (dp_now deps) name (rt_port target) (rt_cpuCores target) (rt_ramMB target) w1
            else (None, w1)) of
        (Some e, w2) \<Rightarrow> (Inl (wrap ''record resources'' e), w2)
      | (None, w2) \<Rightarrow>
     (case Instances_UpdateStatus (dp_now deps) name StatusRunning w2 of
        (Some e, w3) \<Rightarrow> (Inl (wrap ''record running status'' e), w3)
      | (None, w3) \<Rightarrow>
          (case Instances_Get name w3 of
             (Inl e, w4) \<Rightarrow> (Inl (wrap ''get updated instance'' e), w4)
           | (Inr updated, w4) \<Rightarrow> (Inr updated, w4)))))"

definition ReconfigureRDBMS_Execute ::
  "'x Dependencies_scheme \<Rightarrow> host \<Rightarrow> ReconfigureRDBMSParams \<Rightarrow> world \<Rightarrow> RDBMSInstance res \<times> world" where
  "ReconfigureRDBMS_Execute deps h p w =
     (case Instances_Get (rc_Name p) w of
        (Inl e, w1) \<Rightarrow> (Inl (wrap ''get instance'' e), w1)
      | (Inr inst, w1) \<Rightarrow>
     (case resolveTarget h p inst w1 of
        (Inl e, w2) \<Rightarrow> (Inl e, w2)
      | (Inr target, w2) \<Rightarrow>
          if sameAs target inst \<and> inst_Status inst \<noteq> StatusError
          then (Inl (Invalidf (Errorf0
                  (if rc_ParameterGroup p \<noteq> '''' \<and> rc_CPUCores p = None \<and> rc_RAMMB p = None \<and> rc_Port p = None
                   then ''instance already uses parameter group: '' @ rc_ParameterGroup p
                   else ''instance '' @ rc_Name p @ '' already has this configuration; nothing to change''))), w2)
          else case GetGroup (rt_group target) w2 of
            (Inl e, w3) \<Rightarrow> (Inl (Invalidf (wrap (''get parameter group '' @ rt_group target) e)), w3)
          | (Inr pgroup, w3) \<Rightarrow>
     (case GetGroup (inst_ParameterGroup inst) w3 of
        (Inl e, w4) \<Rightarrow> (Inl (wrap (''get current parameter group '' @ inst_ParameterGroup inst) e), w4)
      | (Inr prevGroup, w4) \<Rightarrow>
     (case dp_dec deps (inst_Password inst) of
        Inl e \<Rightarrow> (Inl (wrap ''decrypt password'' e), w4)
      | Inr password \<Rightarrow>
          let prev = specFromInstance inst password prevGroup;
              next_spec = prev\<lparr>cs_ParameterGroup := rt_group target, cs_Parameters := pgroup,
                               cs_CPUCores := rt_cpuCores target, cs_RAMMB := rt_ramMB target, cs_Port := rt_port target\<rparr> in
          (case after_change deps (rc_Name p) StatusReconfiguring (inst_Status inst) next_spec prev (inst_ContainerID inst)
                   (\<lambda>e. Errorf1 (describe target inst @ '' could not start: '') e '' (rolled back to the previous configuration)'') w4 of
             (Some e, w5) \<Rightarrow> (Inl e, w5)
           | (None, w5) \<Rightarrow> commit_shape deps target inst (rc_Name p) w5)))))"

definition SetPassword_Execute :: "'x Dependencies_scheme \<Rightarrow> string \<Rightarrow> string \<Rightarrow> world \<Rightarrow> goerror option \<times> world" where
  "SetPassword_Execute deps name password w =
     (case Instances_Get name w of
        (Inl e, w1) \<Rightarrow> (Some (wrap ''failed to get instance'' e), w1)
      | (Inr inst, w1) \<Rightarrow>
          if inst_Status inst \<noteq> ''running''
          then (Some (Invalidf (Errorf0 (''instance '' @ name @ '' is not running (status: '' @ inst_Status inst @ '')''))), w1)
          else case pg_connect (inst_Port inst) password w1 of
            (Some e, w2) \<Rightarrow> (Some (wrap ''cannot set password'' e), w2)
          | (None, w2) \<Rightarrow>
              (case dp_enc deps password of
                 Inl e \<Rightarrow> (Some (wrap ''failed to encrypt password'' e), w2)
               | Inr encryptedPassword \<Rightarrow>
                   (case Instances_UpdatePassword (dp_now deps) name encryptedPassword w2 of
                      (Some e, w3) \<Rightarrow> (Some (wrap ''failed to update password in database'' e), w3)
                    | (None, w3) \<Rightarrow> (None, w3))))"

section \<open>What the pieces do to the engine and to the catalogue\<close>

lemma pg_connect_spec:
  assumes "pg_connect port password w = (r, w')"
  shows "same_but_io w w'" "r = None \<Longrightarrow> list_ex (pg_answers port password w') (containers w')"
    "r = Some e \<Longrightarrow> \<not> errors_Is e s"
  using assms by (auto simp: pg_connect_def dest: next_io_same split: prod.splits if_splits)

lemma pollReady_spec:
  assumes "pollReady n (pg_connect port password) lastErr w = (r, w')" "\<forall>e. lastErr = Some e \<longrightarrow> \<not> errors_Is e s"
  shows "same_but_io w w' \<and> (r = None \<longrightarrow> list_ex (pg_answers port password w') (containers w'))
     \<and> (\<forall>e. r = Some e \<longrightarrow> \<not> errors_Is e s)"
  using assms
proof (induction n arbitrary: lastErr w)
  case 0
  then show ?case by (auto split: option.splits)
next
  case (Suc n)
  obtain r1 w1 where 1: "pg_connect port password w = (r1, w1)" by fastforce
  show ?case
  proof (cases r1)
    case None
    then show ?thesis using Suc.prems 1 pg_connect_spec[OF 1] by auto
  next
    case (Some e)
    then have "pollReady n (pg_connect port password) (Some e) w1 = (r, w')" using Suc.prems(1) 1 by simp
    then show ?thesis
      using Suc.IH[of "Some e" w1] pg_connect_spec(3)[OF 1 Some] pg_connect_spec(1)[OF 1] same_but_io_trans by blast
  qed
qed

lemma waitForPostgresReady_spec:
  assumes "waitForPostgresReady deps port password w = (r, w')"
  shows "same_but_io w w'" "r = None \<Longrightarrow> list_ex (pg_answers port password w') (containers w')"
    "r = Some e \<Longrightarrow> \<not> errors_Is e s"
  using pollReady_spec[of "dp_probes deps" port password None w r w' s] assms
  by (simp_all add: waitForPostgresReady_def)

lemma annotateReadyError_spec:
  assumes "annotateReadyError deps cid e w = (e', w')"
  shows "same_but_io w w'" "errors_Is e' s = errors_Is e s"
proof -
  have "same_but_io w w1"
    if "docker_call (\<lambda>w. case lookup_container cid w of None \<Rightarrow> Inl (Sentinel ErrDockerNotFound) | Some c \<Rightarrow> Inr (w, dp_logs deps c)) w = (r, w1)"
    for r w1
    using that by (elim docker_call_cases) (auto split: option.splits)
  then show "same_but_io w w'" "errors_Is e' s = errors_Is e s"
    using assms by (auto simp: annotateReadyError_def split: if_splits prod.splits sum.splits)
qed

lemma stopFailedContainer_spec:
  "same_data w (stopFailedContainer cid w)" "docker_ok w \<Longrightarrow> docker_ok (stopFailedContainer cid w)"
  using StopContainer_tidy[of cid w] by (auto simp: stopFailedContainer_def tidy_def prod_eq_iff)

text \<open>A statement on the catalogue leaves the engine alone.\<close>

lemma update_instance_engine:
  assumes "update_instance msg name f w = (r, w')"
  shows "containers w' = containers w" "docker_seq w' = docker_seq w" "same_data w w'"
proof -
  obtain q where "sql_exec (update_stmt name f) w = (q, w')"
    using assms by (auto simp: update_instance_def split: prod.splits sum.splits if_splits)
  then have "containers w' = containers w \<and> docker_seq w' = docker_seq w \<and> same_data w w'"
    by (elim sql_exec_cases) (auto simp: update_stmt_def Let_def same_data_def same_but_io_fields split: if_splits)
  then show "containers w' = containers w" "docker_seq w' = docker_seq w" "same_data w w'" by auto
qed

lemmas catalogue_updates =
  Instances_UpdateStatus_def Instances_UpdateContainerID_def Instances_UpdateImage_def
  Instances_UpdateParameterGroup_def Instances_UpdateResources_def Instances_UpdatePassword_def

lemma docker_ok_cong: "containers w' = containers w \<Longrightarrow> docker_seq w' = docker_seq w \<Longrightarrow> docker_ok w' = docker_ok w"
  by (simp add: docker_ok_def)


definition engine_kept :: "world \<Rightarrow> world \<Rightarrow> bool" where
  "engine_kept w w' \<longleftrightarrow> containers w' = containers w \<and> docker_seq w' = docker_seq w \<and> same_data w w'"

lemma engine_kept_io: "same_but_io w w' \<Longrightarrow> engine_kept w w'"
  by (simp add: engine_kept_def same_but_io_fields same_data_io)

lemma engine_kept_trans: "engine_kept a b \<Longrightarrow> engine_kept b c \<Longrightarrow> engine_kept a c"
  by (auto simp: engine_kept_def intro: same_data_trans)

lemma catalogue_keeps_engine:
  "Instances_UpdateStatus t n s w = (r, w') \<Longrightarrow> engine_kept w w'"
  "Instances_UpdateContainerID t n s w = (r, w') \<Longrightarrow> engine_kept w w'"
  "engine_kept w (snd (Instances_UpdateStatus t n s w))"
  "engine_kept w (snd (Instances_UpdateContainerID t n s w))"
  using update_instance_engine[OF prod.collapse[symmetric]]
  by (auto simp: catalogue_updates engine_kept_def dest: update_instance_engine)

lemma shape_keeps_engine:
  "Instances_UpdateImage t n img v w = (r, w') \<Longrightarrow> engine_kept w w'"
  "Instances_UpdateParameterGroup t n g w = (r, w') \<Longrightarrow> engine_kept w w'"
  "Instances_UpdateResources t n p c m w = (r, w') \<Longrightarrow> engine_kept w w'"
  by (auto simp: catalogue_updates engine_kept_def dest: update_instance_engine)

lemma catalogue_errors:
  assumes "update_instance msg name f w = (Some e, w')"
  shows "\<not> errors_Is e s"
proof -
  have "\<not> errors_Is e0 s" if "sql_exec (update_stmt name f) w = (Inl e0, w1)" for e0 w1
    using that by (auto simp: sql_exec_def update_stmt_def Let_def split: prod.splits outcome.splits if_splits sum.splits)
  then show ?thesis using assms by (auto simp: update_instance_def split: prod.splits sum.splits if_splits)
qed

lemma UpdateContainerID_recorded:
  assumes "Instances_UpdateContainerID t n cid w = (None, w')" "i \<in> set (rdbms_instances w')" "inst_Name i = n"
  shows "inst_ContainerID i = cid"
proof -
  let ?f = "\<lambda>i. i\<lparr>inst_ContainerID := cid, inst_UpdatedAt := t\<rparr>"
  obtain k where "sql_exec (update_stmt n ?f) w = (Inr k, w')"
    using assms(1) by (auto simp: Instances_UpdateContainerID_def update_instance_def split: prod.splits sum.splits if_splits)
  then obtain v where "update_stmt n ?f v = Inr (w', k)" by (rule sql_exec_ok)
  then have "rdbms_instances w' = upd_where (\<lambda>i. inst_Name i = n) ?f (rdbms_instances v)"
    by (simp add: update_stmt_def Let_def split: if_splits) (erule conjE, hypsubst, simp)
  then have "i \<in> set (upd_where (\<lambda>i. inst_Name i = n) ?f (rdbms_instances v))" using assms(2) by simp
  then obtain x where "i = (if inst_Name x = n then ?f x else x)" unfolding in_upd_where by blast
  then show ?thesis using assms(3) by (simp split: if_splits)
qed

section \<open>Which errors the expression library can cause\<close>

text \<open>The expression library knows nothing of the HTTP markers.\<close>

definition expr_plain :: "'x Dependencies_scheme \<Rightarrow> bool" where
  "expr_plain deps \<longleftrightarrow> (\<forall>s c e. dp_expr deps s c = Inl e \<longrightarrow> \<not> errors_Is e ErrInvalid)"

lemma resolveParameter_plain:
  "expr_plain deps \<Longrightarrow> resolveParameter (dp_expr deps) p c = Inl e \<Longrightarrow> \<not> errors_Is e ErrInvalid"
  by (auto simp: resolveParameter_def evaluateExpression_def ValidateParameterValue_def Let_def expr_plain_def
      split: sum.splits option.splits prod.splits if_splits)

lemma resolve_others_plain:
  "expr_plain deps \<Longrightarrow> resolve_others (dp_expr deps) c ps = Inl e \<Longrightarrow> \<not> errors_Is e ErrInvalid"
  by (induction ps arbitrary: e) (auto dest: resolveParameter_plain split: sum.splits if_splits)

lemma ResolveParameters_plain:
  "expr_plain deps \<Longrightarrow> ResolveParameters (dp_expr deps) ps cores mb = Inl e \<Longrightarrow> \<not> errors_Is e ErrInvalid"
  by (auto simp: ResolveParameters_def Let_def dest: resolve_others_plain resolveParameter_plain
      split: sum.splits option.splits)

lemma ValidateForContainer_plain: "ValidateForContainer rs mb = Some e \<Longrightarrow> \<not> errors_Is e ErrInvalid"
  by (auto simp: ValidateForContainer_def split: prod.splits if_splits)

lemma RecreateContainer_plain:
  assumes "expr_plain deps"
    "RecreateContainer (dp_expr deps) name version imageName port cpuCores ramMB pgroup params old w = (Inl e, w')"
  shows "\<not> errors_Is e ErrInvalid"
proof -
  have v: "\<not> errors_Is x ErrInvalid" if "volume_inspect n w1 = (Inl x, w2)" for n x w1 w2
    using that unfolding volume_inspect_def
    by (cases "errors_Is x ErrInvalid") (auto elim!: docker_call_error split: if_splits)
  have c: "\<not> errors_Is x ErrInvalid" if "createContainer n sp w1 = (Inl x, w2)" for n sp x w1 w2
    using that request_errors(4)[of "ContainerName n" sp w1 x w2 ErrInvalid] by (auto simp: createContainer_def)
  have p: "\<not> errors_Is x ErrInvalid" if "preflight (dp_expr deps) imageName params cpuCores ramMB w1 = (Inl x, w2)" for x w1 w2
    using that ResolveParameters_plain[OF assms(1)] ValidateForContainer_plain
    by (auto simp: preflight_def preflightErrorf_def preflightWrapf_def split: prod.splits if_splits sum.splits option.splits)
  have o': "\<not> errors_Is x ErrInvalid" if "remove_old cn old w1 = (Some x, w2)" for cn x w1 w2
    using remove_old_tidy(1)[OF that] by (auto simp: tidy_def)
  show ?thesis
    using assms(2) v c p o'
    by (auto simp: RecreateContainer_def preflightWrapf_def split: prod.splits sum.splits option.splits)
qed

section \<open>Replacing a container\<close>

text \<open>
  A container built from \<open>spec\<close> runs under the id \<open>cid\<close>, its parameters resolved and fitting
  its memory, and PostgreSQL answers at the port of \<open>spec\<close> with its password.
\<close>

definition serving :: "'x Dependencies_scheme \<Rightarrow> clusterSpec \<Rightarrow> string \<Rightarrow> world \<Rightarrow> bool" where
  "serving deps spec cid w \<longleftrightarrow>
     (\<exists>c \<in> set (containers w). \<exists>resolved imageID.
        ResolveParameters (dp_expr deps) (cs_Parameters spec) (cs_CPUCores spec) (cs_RAMMB spec) = Inr resolved
        \<and> ValidateForContainer resolved (cs_RAMMB spec) = None
        \<and> images w (cs_Image spec) = Some imageID
        \<and> made cid (cs_Name spec) (buildInstanceContainer (cs_Name spec) (cs_Version spec) (cs_Image spec) (cs_Port spec)
             (cs_CPUCores spec) (cs_RAMMB spec) '''' (cs_ParameterGroup spec) resolved) imageID c
        \<and> ct_Running c)
     \<and> list_ex (pg_answers (cs_Port spec) (cs_Password spec) w) (containers w)"

lemma serving_kept: "engine_kept w w' \<Longrightarrow> serving deps spec cid w \<Longrightarrow> serving deps spec cid w'"
  by (simp add: serving_def engine_kept_def same_data_def pg_answers_def[abs_def])

lemma start_and_wait_spec:
  assumes "start_and_wait deps spec cid w = (err, w')" "docker_ok w"
    and c: "c \<in> set (containers w)" "made cid name sp imageID c" "env_password (sp_Env sp) = None"
  shows "docker_ok w' \<and> same_data w w' \<and> (\<forall>e. err = Some e \<longrightarrow> \<not> errors_Is e ErrPreflight \<and> \<not> errors_Is e ErrInvalid)
     \<and> (err = None \<longrightarrow> (\<exists>c' \<in> set (containers w'). made cid name sp imageID c' \<and> ct_Running c')
          \<and> list_ex (pg_answers (cs_Port spec) (cs_Password spec) w') (containers w'))"
proof -
  have id: "ct_ID c = cid" and idle: "env_password (sp_Env (ct_Spec c)) = None" using c(2,3) by (simp_all add: made_def)
  obtain e2 w2 where 2: "StartContainer cid w = (e2, w2)" by fastforce
  note st = StartContainer_spec[OF 2 assms(2) c(1) id idle]
  have t2: "docker_ok w2" "same_data w w2" using st(1) assms(2) by (auto simp: tidy_def)
  show ?thesis
  proof (cases e2)
    case (Some x)
    then have "err = Some (wrap ''start container'' x)" "w' = stopFailedContainer cid w2"
      using assms(1) 2 by (simp_all add: start_and_wait_def)
    then show ?thesis
      using t2 stopFailedContainer_spec same_data_trans st(1) Some by (auto simp: tidy_def)
  next
    case None
    obtain e3 w3 where 3: "waitForPostgresReady deps (cs_Port spec) (cs_Password spec) w2 = (e3, w3)" by fastforce
    note wt = waitForPostgresReady_spec[OF 3]
    have t3: "docker_ok w3" "same_data w w3"
      using eng.io_stable[OF wt(1) t2(1)] same_data_trans[OF t2(2) same_data_io[OF wt(1)]] by auto
    show ?thesis
    proof (cases e3)
      case (Some x)
      obtain e4 w4 where 4: "annotateReadyError deps cid x (stopFailedContainer cid w3) = (e4, w4)" by fastforce
      have "err = Some (wrap ''wait for PostgreSQL readiness'' e4)" "w' = w4"
        using assms(1) 2 3 4 None Some by (simp_all add: start_and_wait_def)
      moreover have "docker_ok w4" "same_data w w4"
        using annotateReadyError_spec(1)[OF 4] stopFailedContainer_spec t3
        by (blast intro: eng.io_stable same_data_trans same_data_io)+
      ultimately show ?thesis using wt(3)[OF Some] annotateReadyError_spec(2)[OF 4] by auto
    next
      case None2: None
      then have r: "err = None" "w' = w3" using assms(1) 2 3 None by (simp_all add: start_and_wait_def)
      obtain b where "c\<lparr>ct_Running := True, ct_Restarting := b\<rparr> \<in> set (containers w2)"
        using st(2) None by auto
      then have "c\<lparr>ct_Running := True, ct_Restarting := b\<rparr> \<in> set (containers w3)"
        using same_but_io_fields[OF wt(1)] by simp
      moreover have "made cid name sp imageID (c\<lparr>ct_Running := True, ct_Restarting := b\<rparr>)"
        using c(2) by (simp add: made_def)
      ultimately have "\<exists>c' \<in> set (containers w3). made cid name sp imageID c' \<and> ct_Running c'"
        by (intro bexI[of _ "c\<lparr>ct_Running := True, ct_Restarting := b\<rparr>"]) simp_all
      then show ?thesis using r t3 wt(2)[OF None2] by auto
    qed
  qed
qed

lemma recreateStartReady_spec:
  assumes "recreateStartReady deps spec old w = ((cid, err), w')" "docker_ok w"
  shows "docker_ok w'" "same_data w w'" "err = None \<Longrightarrow> serving deps spec cid w'"
    "err = Some e \<Longrightarrow> errors_Is e ErrPreflight \<Longrightarrow> same_but_io w w'"
    "expr_plain deps \<Longrightarrow> err = Some e \<Longrightarrow> \<not> errors_Is e ErrInvalid"
proof -
  obtain r1 w1 where 1: "RecreateContainer (dp_expr deps) (cs_Name spec) (cs_Version spec) (cs_Image spec) (cs_Port spec)
      (cs_CPUCores spec) (cs_RAMMB spec) (cs_ParameterGroup spec) (cs_Parameters spec) old w = (r1, w1)" by fastforce
  note rc = RecreateContainer_spec[OF 1 assms(2)]
  have "docker_ok w' \<and> same_data w w' \<and> (err = None \<longrightarrow> serving deps spec cid w')
     \<and> (\<forall>e. err = Some e \<longrightarrow> (errors_Is e ErrPreflight \<longrightarrow> same_but_io w w') \<and> (expr_plain deps \<longrightarrow> \<not> errors_Is e ErrInvalid))"
  proof (cases r1)
    case (Inl e)
    then have "err = Some e" "w' = w1" using assms(1) 1 by (simp_all add: recreateStartReady_def)
    then show ?thesis using rc Inl RecreateContainer_plain[OF _ 1[unfolded Inl]] by auto
  next
    case (Inr c0)
    let ?sp = "\<lambda>resolved. buildInstanceContainer (cs_Name spec) (cs_Version spec) (cs_Image spec) (cs_Port spec)
         (cs_CPUCores spec) (cs_RAMMB spec) '''' (cs_ParameterGroup spec) resolved"
    obtain c resolved imageID where c: "c \<in> set (containers w1)"
      "ResolveParameters (dp_expr deps) (cs_Parameters spec) (cs_CPUCores spec) (cs_RAMMB spec) = Inr resolved"
      "ValidateForContainer resolved (cs_RAMMB spec) = None" "images w (cs_Image spec) = Some imageID"
      "made c0 (cs_Name spec) (?sp resolved) imageID c"
      using rc(4)[OF Inr] by blast
    have idle: "env_password (sp_Env (?sp resolved)) = None" by (simp add: buildInstanceContainer_def Let_def)
    have sw: "start_and_wait deps spec c0 w1 = (err, w')" "cid = c0"
      using assms(1) 1 Inr by (auto simp: recreateStartReady_def split: prod.splits)
    note s = start_and_wait_spec[OF sw(1) rc(1) c(1,5) idle]
    have data: "same_data w w'" using s rc(2) same_data_trans by blast
    have "serving deps spec cid w'" if "err = None"
      using s that c(2,3,4) data unfolding serving_def sw(2) same_data_def by auto
    then show ?thesis using s data by auto
  qed
  then show "docker_ok w'" "same_data w w'" "err = None \<Longrightarrow> serving deps spec cid w'"
    "err = Some e \<Longrightarrow> errors_Is e ErrPreflight \<Longrightarrow> same_but_io w w'"
    "expr_plain deps \<Longrightarrow> err = Some e \<Longrightarrow> \<not> errors_Is e ErrInvalid" by blast+
qed

text \<open>
  The image a rollback has to use: the one the previous container really ran, found by the
  recorded id or by the container's name, and the recorded image when neither exists.
\<close>

fun pinned :: "string list \<Rightarrow> string \<Rightarrow> world \<Rightarrow> string" where
  "pinned [] img w = img"
| "pinned (ref # refs) img w =
     (if ref = '''' then pinned refs img w
      else case lookup_container ref w of Some c \<Rightarrow> ct_ImageID c | None \<Rightarrow> pinned refs img w)"

lemma pinned_io: "same_but_io w w' \<Longrightarrow> pinned refs img w' = pinned refs img w"
  by (induction refs) (simp_all add: lookup_container_def same_but_io_fields split: option.split)

lemma GetContainerImageID_spec:
  assumes "GetContainerImageID ref w = (r, w')"
  shows "r = Inr i \<Longrightarrow> \<exists>c. lookup_container ref w' = Some c \<and> i = ct_ImageID c"
    "r = Inl e \<Longrightarrow> IsNotFound e \<Longrightarrow> lookup_container ref w' = None"
proof -
  let ?req = "\<lambda>w. case lookup_container ref w of None \<Rightarrow> Inl (Sentinel ErrDockerNotFound) | Some c \<Rightarrow> Inr (w, c)"
  show "\<exists>c. lookup_container ref w' = Some c \<and> i = ct_ImageID c" if ri: "r = Inr i"
  proof -
    obtain c where "docker_call ?req w = (Inr c, w')" "i = ct_ImageID c"
      using assms unfolding ri by (auto simp: GetContainerImageID_def container_inspect_def split: prod.splits sum.splits)
    then show ?thesis by (elim docker_call_ok) (auto split: option.splits)
  qed
  show "lookup_container ref w' = None" if rl: "r = Inl e" and nf: "IsNotFound e"
  proof -
    obtain e0 where "docker_call ?req w = (Inl e0, w')" "IsNotFound e0"
      using assms nf unfolding rl by (auto simp: GetContainerImageID_def container_inspect_def split: prod.splits sum.splits)
    then show ?thesis by (elim docker_call_error) (auto split: option.splits)
  qed
qed

lemma pin_image_spec:
  assumes "pin_image refs img w = (r, w')"
  shows "same_but_io w w' \<and> (\<forall>i. r = Inr i \<longrightarrow> i = pinned refs img w)"
  using assms
proof (induction refs arbitrary: w)
  case Nil
  then show ?case by auto
next
  case (Cons ref refs)
  show ?case
  proof (cases "ref = ''''")
    case True
    then show ?thesis using Cons by simp
  next
    case False
    obtain r1 w1 where 1: "GetContainerImageID ref w = (r1, w1)" by fastforce
    note io = client_reads_same(3)[OF 1] and g = GetContainerImageID_spec[OF 1]
    have look: "lookup_container ref w1 = lookup_container ref w"
      using io by (simp add: lookup_container_def same_but_io_fields)
    show ?thesis
    proof (cases r1)
      case (Inl e)
      show ?thesis
      proof (cases "IsNotFound e")
        case True
        then have "pin_image refs img w1 = (r, w')" "lookup_container ref w = None"
          using Cons.prems False 1 Inl g(2)[OF Inl] look by simp_all
        then show ?thesis using Cons.IH[of w1] False io pinned_io[OF io] same_but_io_trans by auto
      next
        case NF: False
        then show ?thesis using Cons.prems False 1 Inl io by auto
      qed
    next
      case (Inr i)
      obtain b w2 where 2: "CheckImageExists i w1 = (b, w2)" by fastforce
      have "same_but_io w w2" using io client_reads_same(1)[OF 2] same_but_io_trans by blast
      then show ?thesis using Cons.prems False 1 2 Inr g(1)[OF Inr] look by (auto split: if_splits)
    qed
  qed
qed

lemma UpdateStatus_ids:
  assumes "i \<in> set (rdbms_instances (snd (Instances_UpdateStatus t n st w)))"
  shows "\<exists>j \<in> set (rdbms_instances w). inst_Name j = inst_Name i \<and> inst_ContainerID j = inst_ContainerID i"
proof -
  let ?f = "\<lambda>i. i\<lparr>inst_Status := st, inst_UpdatedAt := t\<rparr>"
  obtain r w' where x: "sql_exec (update_stmt n ?f) w = (r, w')" by fastforce
  then have w': "snd (Instances_UpdateStatus t n st w) = w'"
    by (simp add: Instances_UpdateStatus_def update_instance_def split: sum.splits)
  from x show ?thesis
  proof (cases rule: sql_exec_cases)
    case none
    then show ?thesis using assms w' by (auto simp: same_but_io_fields)
  next
    case (applied w1 k)
    then have "rdbms_instances w' = upd_where (\<lambda>i. inst_Name i = n) ?f (rdbms_instances w)"
      by (auto simp: update_stmt_def Let_def same_but_io_fields split: if_splits)
    then show ?thesis using assms unfolding w' by (force simp: in_upd_where)
  qed
qed

text \<open>A rollback that was tried and did not bring the previous shape back.\<close>

definition rollback_failed :: "'x Dependencies_scheme \<Rightarrow> clusterSpec \<Rightarrow> goerror \<Rightarrow> bool" where
  "rollback_failed deps prev e \<longleftrightarrow> (\<exists>e1 e2 cid rbID v v'. recreateStartReady deps prev cid v = ((rbID, Some e2), v')
     \<and> e = Errorf2 '''' e1 ''; rollback to the previous configuration also failed: '' e2 '''')"

text \<open>The restored container is the one on record, or the error says that it could not be recorded.\<close>

definition rollback_recorded :: "string \<Rightarrow> string \<Rightarrow> goerror \<Rightarrow> world \<Rightarrow> bool" where
  "rollback_recorded name cid e w \<longleftrightarrow> (\<forall>i \<in> set (rdbms_instances w). inst_Name i = name \<longrightarrow> inst_ContainerID i = cid)
     \<or> (\<exists>e1 e2. e = Errorf2 '''' e1 '' (rolled back the container, but failed to record its id: '' e2 '')'')"

lemma roll_back_spec:
  assumes "roll_back deps prev name cid e w = ((rolledBack, err), w')" "docker_ok w"
  shows "docker_ok w'" "same_data w w'" "rolledBack \<Longrightarrow> \<exists>cid e. serving deps prev cid w' \<and> err = Some e \<and> rollback_recorded name cid e w'"
    "\<not> rolledBack \<Longrightarrow> \<exists>e. err = Some e \<and> rollback_failed deps prev e" "err \<noteq> None"
    "expr_plain deps \<Longrightarrow> \<not> errors_Is e ErrInvalid \<Longrightarrow> err = Some e' \<Longrightarrow> \<not> errors_Is e' ErrInvalid"
proof -
  obtain rbID rbErr w1 where 1: "recreateStartReady deps prev cid w = ((rbID, rbErr), w1)" by (metis surj_pair)
  note rs = recreateStartReady_spec[OF 1 assms(2)]
  have k: "engine_kept w1 w'"
  proof (cases rbErr)
    case (Some x)
    define w2 where "w2 = snd (Instances_UpdateStatus (dp_now deps) name StatusError w1)"
    have "engine_kept w1 w2" by (simp add: w2_def catalogue_keeps_engine(3))
    moreover have "w' = w2 \<or> (\<exists>orphan. w' = snd (Instances_UpdateContainerID (dp_now deps) name orphan w2))"
      using assms(1) 1 Some by (auto simp: roll_back_def Let_def w2_def split: if_splits)
    ultimately show ?thesis using catalogue_keeps_engine(4) engine_kept_trans by blast
  next
    case None
    obtain e2 w2 where 2: "Instances_UpdateContainerID (dp_now deps) name rbID w1 = (e2, w2)" by fastforce
    have "\<exists>st. w' = snd (Instances_UpdateStatus (dp_now deps) name st w2)"
      using assms(1) 1 2 None by (auto simp: roll_back_def split: option.splits)
    then show ?thesis using catalogue_keeps_engine(2)[OF 2] catalogue_keeps_engine(3) engine_kept_trans by blast
  qed
  show "docker_ok w'" using k rs(1) docker_ok_cong[of w' w1] by (simp add: engine_kept_def)
  show "same_data w w'" using k rs(2) same_data_trans by (auto simp: engine_kept_def)
  show "\<exists>cid e. serving deps prev cid w' \<and> err = Some e \<and> rollback_recorded name cid e w'" if rolledBack
  proof -
    have ok: "rbErr = None" using assms(1) 1 that by (auto simp: roll_back_def Let_def split: option.splits)
    obtain x w2 where 2: "Instances_UpdateContainerID (dp_now deps) name rbID w1 = (x, w2)" by fastforce
    have "\<exists>e'. err = Some e' \<and> rollback_recorded name rbID e' w'"
    proof (cases x)
      case None
      then have "err = Some e" "w' = snd (Instances_UpdateStatus (dp_now deps) name StatusRunning w2)"
        using assms(1) 1 2 ok by (auto simp: roll_back_def)
      then show ?thesis
        using UpdateStatus_ids[of _ "dp_now deps" name StatusRunning w2] UpdateContainerID_recorded[OF 2[unfolded None]]
        unfolding rollback_recorded_def by (metis (lifting))
    next
      case (Some y)
      then show ?thesis using assms(1) 1 2 ok by (auto simp: roll_back_def rollback_recorded_def)
    qed
    then show ?thesis using rs(3) ok serving_kept[OF k] by blast
  qed
  show "\<exists>e. err = Some e \<and> rollback_failed deps prev e" if "\<not> rolledBack"
  proof -
    have "rbErr \<noteq> None" using assms(1) 1 that by (auto simp: roll_back_def split: option.splits prod.splits)
    then obtain x where x: "rbErr = Some x" by blast
    then have "err = Some (Errorf2 '''' e ''; rollback to the previous configuration also failed: '' x '''')"
      using assms(1) 1 by (simp add: roll_back_def Let_def)
    then show ?thesis using 1[unfolded x] unfolding rollback_failed_def by blast
  qed
  show "err \<noteq> None" using assms(1) 1 by (auto simp: roll_back_def Let_def split: option.splits prod.splits)
  show "\<not> errors_Is e' ErrInvalid" if "expr_plain deps" "\<not> errors_Is e ErrInvalid" "err = Some e'"
    using assms(1) 1 that rs(5)[OF that(1)] catalogue_errors
    by (auto simp: roll_back_def Let_def Instances_UpdateContainerID_def split: option.splits prod.splits)
qed

lemma pin_image_invalid: "pin_image refs img w = (Inl e, w') \<Longrightarrow> errors_Is e ErrInvalid"
  by (induction refs arbitrary: w)
    (auto simp: classifyRecreateError_def Let_def markers_def mark_def split: if_splits prod.splits sum.splits)

lemma applyClusterChange_cases:
  assumes "docker_ok w" "expr_plain deps"
    and "applyClusterChange deps next_spec prev old w = ((rolledBack, err), w')"
  shows "volumes w' = volumes w
    \<and> (err = None \<longrightarrow> \<not> rolledBack \<and> (\<exists>cid. serving deps next_spec cid w'
           \<and> (\<forall>i \<in> set (rdbms_instances w'). inst_Name i = cs_Name next_spec \<longrightarrow> inst_ContainerID i = cid)))
    \<and> (rolledBack \<longrightarrow> (\<exists>cid e. serving deps
           (prev\<lparr>cs_Image := pinned [old, ContainerName (cs_Name prev)] (cs_Image prev) w\<rparr>) cid w'
           \<and> err = Some e \<and> rollback_recorded (cs_Name next_spec) cid e w'))
    \<and> (\<forall>e. err = Some e \<longrightarrow> errors_Is e ErrInvalid \<longrightarrow> same_but_io w w' \<and> \<not> rolledBack)
    \<and> (\<forall>e. err = Some e \<longrightarrow> \<not> errors_Is e ErrInvalid \<longrightarrow> \<not> rolledBack \<longrightarrow> (\<exists>cid. serving deps next_spec cid w')
         \<or> rollback_failed deps (prev\<lparr>cs_Image := pinned [old, ContainerName (cs_Name prev)] (cs_Image prev) w\<rparr>) e)"
proof -
  obtain r1 w1 where 1: "pin_image [old, ContainerName (cs_Name prev)] (cs_Image prev) w = (r1, w1)" by fastforce
  note pin = pin_image_spec[OF 1]
  have ok1: "docker_ok w1" using eng.io_stable pin assms(1) by blast
  show ?thesis
  proof (cases r1)
    case (Inl e)
    then have "err = Some e" "\<not> rolledBack" "w' = w1" using assms(3) 1 by (simp_all add: applyClusterChange_def)
    then show ?thesis using pin pin_image_invalid[OF 1[unfolded Inl]] by (simp add: same_but_io_fields)
  next
    case (Inr img)
    let ?prev = "prev\<lparr>cs_Image := img\<rparr>"
    have img: "img = pinned [old, ContainerName (cs_Name prev)] (cs_Image prev) w" using pin Inr by blast
    obtain cid e2 w2 where 2: "recreateStartReady deps next_spec old w1 = ((cid, e2), w2)" by (metis surj_pair)
    note rs = recreateStartReady_spec[OF 2 ok1]
    have v2: "volumes w2 = volumes w" using rs(2) pin by (simp add: same_data_def same_but_io_fields)
    consider (fine) "e2 = None" | (refused) x where "e2 = Some x" "errors_Is x ErrPreflight"
      | (failed) x where "e2 = Some x" "\<not> errors_Is x ErrPreflight" by (cases e2) auto
    then show ?thesis
    proof cases
      case fine
      obtain e3 w3 where 3: "Instances_UpdateContainerID (dp_now deps) (cs_Name next_spec) cid w2 = (e3, w3)" by fastforce
      have r: "w' = w3" "\<not> rolledBack" "err = map_option (wrap ''record container id'') e3"
        using assms(3) 1 2 3 Inr fine by (auto simp: applyClusterChange_def Let_def split: option.splits)
      have k: "engine_kept w2 w3" using catalogue_keeps_engine(2)[OF 3] .
      have "\<not> errors_Is e ErrInvalid" if "err = Some e" for e
        using that r(3) 3 catalogue_errors by (auto simp: Instances_UpdateContainerID_def)
      then show ?thesis
        using r k v2 serving_kept[OF k rs(3)[OF fine]] UpdateContainerID_recorded 3
        by (auto simp: engine_kept_def same_data_def)
    next
      case refused
      then have r: "w' = w2" "\<not> rolledBack" "err = Some (classifyRecreateError x)"
        using assms(3) 1 2 Inr by (auto simp: applyClusterChange_def Let_def)
      have "same_but_io w w2" using rs(4)[OF refused] pin same_but_io_trans by blast
      moreover have "errors_Is (classifyRecreateError x) ErrInvalid" using refused(2) by (simp add: classifyRecreateError_def markers_def)
      ultimately show ?thesis using r by (auto simp: same_but_io_fields)
    next
      case failed
      then have rb: "roll_back deps ?prev (cs_Name next_spec) cid x w2 = ((rolledBack, err), w')"
        using assms(3) 1 2 Inr by (simp add: applyClusterChange_def Let_def)
      note b = roll_back_spec[OF rb rs(1)]
      show ?thesis
        using b(3,4,5) b(6)[OF assms(2) rs(5)[OF assms(2) failed(1)]] b(2) v2 img by (auto simp: same_data_def)
    qed
  qed
qed

lemma refused_untouched:
  assumes "docker_ok w" "expr_plain deps"
    and "applyClusterChange deps next_spec prev old w = ((rolledBack, err), w')" "err = Some e" "errors_Is e ErrInvalid"
  shows "same_but_io w w'"
  using applyClusterChange_cases[OF assms(1-3)] assms(4,5) by blast

text \<open>The operations around the change read and write the catalogue only.\<close>

lemma engine_kept_facts:
  assumes "engine_kept w w'"
  shows "volumes w' = volumes w" "docker_ok w \<Longrightarrow> docker_ok w'"
  using assms docker_ok_cong[of w' w] by (simp_all add: engine_kept_def same_data_def)

lemma after_change_volumes:
  assumes "after_change deps name transient prevStatus next_spec prev cid rolled w = (r, w')" "docker_ok w" "expr_plain deps"
  shows "volumes w' = volumes w"
proof -
  define w1 where "w1 = snd (Instances_UpdateStatus (dp_now deps) name transient w)"
  have k: "engine_kept w w1" by (simp add: w1_def catalogue_keeps_engine(3))
  obtain rb err w2 where 1: "applyClusterChange deps next_spec prev cid w1 = ((rb, err), w2)" by (metis surj_pair)
  have v: "volumes w2 = volumes w"
    using applyClusterChange_cases[OF _ assms(3) 1] engine_kept_facts[OF k] assms(2) by simp
  have "w' = w2 \<or> w' = snd (Instances_UpdateStatus (dp_now deps) name prevStatus w2)"
    using assms(1) 1 by (auto simp: after_change_def w1_def[symmetric] split: option.splits if_splits)
  then show ?thesis using v engine_kept_facts(1)[OF catalogue_keeps_engine(3)] by auto
qed

lemma catalogue_reads_io:
  "Instances_IsNameInUse n w = (r1, w') \<Longrightarrow> same_but_io w w'"
  "Instances_IsPortInUse p w = (r2, w') \<Longrightarrow> same_but_io w w'"
  "Instances_Get n w = (r3, w') \<Longrightarrow> same_but_io w w'"
  "GetGroup g w = (r4, w') \<Longrightarrow> same_but_io w w'"
  by (auto simp: Instances_IsNameInUse_def Instances_IsPortInUse_def Instances_Get_def GetGroup_def
      dest: sql_query_same split: prod.splits sum.splits option.splits if_splits)

lemma io_facts: "same_but_io w w' \<Longrightarrow> volumes w' = volumes w" "same_but_io w w' \<Longrightarrow> docker_ok w \<Longrightarrow> docker_ok w'"
  by (simp_all add: same_but_io_fields eng.io_stable)

lemma recreateInstanceOnImage_volumes:
  assumes "recreateInstanceOnImage deps inst newImage newVersion w = (r, w')" "docker_ok w" "expr_plain deps"
  shows "volumes w' = volumes w"
  using assms after_change_volumes[OF _ _ assms(3)] io_facts[OF catalogue_reads_io(4)] io_facts(1)[OF catalogue_reads_io(3)]
    engine_kept_facts(1)[OF shape_keeps_engine(1)] engine_kept_facts(1)[OF catalogue_keeps_engine(1)]
  by (auto simp: recreateInstanceOnImage_def Let_def split: sum.splits prod.splits option.splits)

lemma imageDiffers_io: "imageDiffersFromContainer img cid w = (b, w') \<Longrightarrow> same_but_io w w'"
  by (auto simp: imageDiffersFromContainer_def dest: client_reads_same intro: same_but_io_trans
      split: if_splits prod.splits option.splits sum.splits)

lemma Pull_facts:
  assumes "PullImageProgress registry img w = (r, w')"
  shows "volumes w' = volumes w" "docker_ok w \<Longrightarrow> docker_ok w'"
proof -
  have "volumes w' = volumes w \<and> containers w' = containers w \<and> docker_seq w' = docker_seq w"
    using assms by (auto simp: PullImageProgress_def same_but_io_fields elim!: docker_call_cases
        split: prod.splits sum.splits option.splits)
  then show "volumes w' = volumes w" "docker_ok w \<Longrightarrow> docker_ok w'" by (simp_all add: docker_ok_def)
qed

lemma SwitchRDBMS_volumes:
  assumes "SwitchRDBMS_Execute deps name newImage version w = (r, w')" "docker_ok w" "expr_plain deps"
  shows "volumes w' = volumes w"
  using assms recreateInstanceOnImage_volumes[OF _ _ assms(3)] io_facts[OF catalogue_reads_io(3)]
    io_facts[OF client_reads_same(1)] io_facts[OF imageDiffers_io]
  by (auto simp: SwitchRDBMS_Execute_def Let_def split: prod.splits sum.splits if_splits)

lemma UpdateRDBMS_volumes:
  assumes "UpdateRDBMS_Execute deps registry name img w = (r, w')" "docker_ok w" "expr_plain deps"
  shows "volumes w' = volumes w"
  using assms recreateInstanceOnImage_volumes[OF _ _ assms(3)] io_facts[OF catalogue_reads_io(3)]
    Pull_facts io_facts[OF imageDiffers_io]
  by (auto simp: UpdateRDBMS_Execute_def Let_def split: prod.splits sum.splits if_splits option.splits)

lemma resolveTarget_io: "resolveTarget h p inst w = (r, w') \<Longrightarrow> same_but_io w w'"
  by (auto simp: resolveTarget_def Let_def dest: catalogue_reads_io(2) split: if_splits prod.splits sum.splits option.splits)

lemma commit_shape_volumes: "commit_shape deps t inst name w = (r, w') \<Longrightarrow> volumes w' = volumes w"
  by (auto simp: commit_shape_def split: prod.splits option.splits if_splits sum.splits
      dest!: engine_kept_facts(1)[OF shape_keeps_engine(2)] engine_kept_facts(1)[OF shape_keeps_engine(3)]
        engine_kept_facts(1)[OF catalogue_keeps_engine(1)] io_facts(1)[OF catalogue_reads_io(3)])

lemma ReconfigureRDBMS_volumes:
  assumes "ReconfigureRDBMS_Execute deps h p w = (r, w')" "docker_ok w" "expr_plain deps"
  shows "volumes w' = volumes w"
proof -
  obtain r1 w1 where 1: "Instances_Get (rc_Name p) w = (r1, w1)" by fastforce
  show ?thesis
  proof (cases r1)
    case (Inl e)
    then show ?thesis using assms(1) 1 io_facts(1)[OF catalogue_reads_io(3)[OF 1]] by (simp add: ReconfigureRDBMS_Execute_def)
  next
    case (Inr inst)
    obtain r2 w2 where 2: "resolveTarget h p inst w1 = (r2, w2)" by fastforce
    have io2: "same_but_io w w2" using catalogue_reads_io(3)[OF 1] resolveTarget_io[OF 2] same_but_io_trans by blast
    obtain r3 w3 where 3: "GetGroup (rt_group (projr r2)) w2 = (r3, w3)" by fastforce
    obtain r4 w4 where 4: "GetGroup (inst_ParameterGroup inst) w3 = (r4, w4)" by fastforce
    have io: "same_but_io w w3" "same_but_io w w4"
      using io2 catalogue_reads_io(4)[OF 3] catalogue_reads_io(4)[OF 4] same_but_io_trans by blast+
    show ?thesis
    proof (cases "w' = w2 \<or> w' = w3 \<or> w' = w4")
      case True
      then show ?thesis using io_facts(1)[OF io2] io_facts(1)[OF io(1)] io_facts(1)[OF io(2)] by auto
    next
      case False
      then obtain n t ps next_spec prev cid f e w5 target where
        5: "after_change deps n t ps next_spec prev cid f w4 = (e, w5)"
        and "w' = w5 \<or> commit_shape deps target inst n w5 = (r, w')"
        using assms(1) 1 2 3 4 Inr
        by (auto simp: ReconfigureRDBMS_Execute_def Let_def split: sum.splits if_splits prod.splits option.splits) blast+
      then have "volumes w' = volumes w5" using commit_shape_volumes by blast
      then show ?thesis using after_change_volumes[OF 5 io_facts(2)[OF io(2) assms(2)] assms(3)] io_facts(1)[OF io(2)] by simp
    qed
  qed
qed

text \<open>
  C11. Replacing an instance's container ends in one of four ways under every pattern of
  failures, and never touches a data volume, nor do the switch, update and reconfigure
  operations that use it: without an
  error the new container runs, PostgreSQL answers at the new port with the instance's
  password, and the catalogue points at that container; when it reports a rollback, a
  container of the previous shape runs on the very image the old container had, even if the
  tag has moved since, and the catalogue points at it unless the error says that it could not be
  recorded; an error that the client is told to fix (\<open>ErrInvalid\<close>) means that
  nothing was touched at all; and any other error without a rollback means that the new shape
  serves and only its id was not recorded, or that a rollback was tried, failed, and the error
  says so with the reason.
\<close>

theorem applyClusterChange_outcome:
  assumes "docker_ok w" "expr_plain deps"
  shows "(applyClusterChange deps next_spec prev old w = ((rolledBack, err), w') \<longrightarrow>
      volumes w' = volumes w
      \<and> (err = None \<longrightarrow> \<not> rolledBack \<and> (\<exists>cid. serving deps next_spec cid w'
             \<and> (\<forall>i \<in> set (rdbms_instances w'). inst_Name i = cs_Name next_spec \<longrightarrow> inst_ContainerID i = cid)))
      \<and> (rolledBack \<longrightarrow> (\<exists>cid e. serving deps
             (prev\<lparr>cs_Image := pinned [old, ContainerName (cs_Name prev)] (cs_Image prev) w\<rparr>) cid w'
             \<and> err = Some e \<and> rollback_recorded (cs_Name next_spec) cid e w'))
      \<and> (\<forall>e. err = Some e \<longrightarrow> errors_Is e ErrInvalid \<longrightarrow> same_but_io w w' \<and> \<not> rolledBack)
      \<and> (\<forall>e. err = Some e \<longrightarrow> \<not> errors_Is e ErrInvalid \<longrightarrow> \<not> rolledBack \<longrightarrow> (\<exists>cid. serving deps next_spec cid w')
           \<or> rollback_failed deps (prev\<lparr>cs_Image := pinned [old, ContainerName (cs_Name prev)] (cs_Image prev) w\<rparr>) e))
    \<and> volumes (snd (SwitchRDBMS_Execute deps name newImage version w)) = volumes w
    \<and> volumes (snd (UpdateRDBMS_Execute deps registry name img w)) = volumes w
    \<and> volumes (snd (ReconfigureRDBMS_Execute deps h p w)) = volumes w"
proof (intro conjI)
  show "volumes (snd (SwitchRDBMS_Execute deps name newImage version w)) = volumes w"
    by (rule SwitchRDBMS_volumes[OF prod.collapse[symmetric] assms])
  show "volumes (snd (UpdateRDBMS_Execute deps registry name img w)) = volumes w"
    by (rule UpdateRDBMS_volumes[OF prod.collapse[symmetric] assms])
  show "volumes (snd (ReconfigureRDBMS_Execute deps h p w)) = volumes w"
    by (rule ReconfigureRDBMS_volumes[OF prod.collapse[symmetric] assms])
qed (use applyClusterChange_cases[OF assms] in \<open>blast+\<close>)

text \<open>
  An instance whose container is missing is switched to an image of the store's: nothing
  fails, and the new container serves.
\<close>

definition demo_deps :: Dependencies where
  "demo_deps = \<lparr>dp_now = 7, dp_enc = Inr, dp_dec = Inr, dp_expr = (\<lambda>_ _. Inl (DriverError ''expr'')), dp_probes = 2, dp_logs = (\<lambda>_. '''')\<rparr>"

definition demo_instance :: RDBMSInstance where
  "demo_instance = \<lparr>inst_ID = 1, inst_Name = ''db'', inst_Port = 5433, inst_Version = ''17'', inst_Status = StatusRunning,
     inst_ContainerID = '''', inst_Password = ''pw'', inst_CPUCores = 1, inst_RAMMB = 512, inst_ParameterGroup = ''g'',
     inst_Image = ''postgres:17'', inst_CreatedAt = 1, inst_UpdatedAt = 1\<rparr>"

definition demo_engine :: world where
  "demo_engine = empty_world\<lparr>rdbms_instances := [demo_instance], instances_seq := 1,
     volumes := [''oddk-data-db'' \<mapsto> ''pw''], images := [''postgres:17'' \<mapsto> ''sha17'', ''pg:17.2'' \<mapsto> ''sha172'']\<rparr>"

definition demo_change :: "(bool \<times> goerror option) \<times> world" where
  "demo_change = (let prev = specFromInstance demo_instance ''pw'' [] in
     applyClusterChange demo_deps (prev\<lparr>cs_Image := ''pg:17.2''\<rparr>) prev '''' demo_engine)"

lemmas engine_defs =
  container_inspect_def volume_inspect_def image_inspect_def container_create_def container_start_def container_remove_def
  lookup_container_def on_container_def entrypoint_def ContainerName_def VolumeName_def

lemma demo_change_ok: "fst demo_change = (False, None)"
proof -
  have "ValidateForContainer [] 512 = None" by code_simp
  then show ?thesis
    by (simp add: demo_change_def demo_engine_def demo_deps_def demo_instance_def specFromInstance_def applyClusterChange_def
      empty_world_def docker_call_calm engine_defs GetContainerImageID_def Let_def recreateStartReady_def RecreateContainer_def
      preflight_def CheckImageExists_def ResolveParameters_def remove_old_def RemoveContainer_def createContainer_def
      buildInstanceContainer_def start_and_wait_def StartContainer_def waitForPostgresReady_def numeral_2_eq_2
      pg_connect_def next_io_def pg_answers_def containerEnv_no_password upd_where_def
      Instances_UpdateContainerID_def update_instance_def calm_primitives update_stmt_def count_where_def AllStatuses_def)
qed

theorem applyClusterChange_outcome_witness:
  "volumes (snd demo_change) = [''oddk-data-db'' \<mapsto> ''pw'']
   \<and> (\<exists>cid. serving demo_deps ((specFromInstance demo_instance ''pw'' [])\<lparr>cs_Image := ''pg:17.2''\<rparr>) cid (snd demo_change))"
proof -
  let ?prev = "specFromInstance demo_instance ''pw'' []"
  have "docker_ok demo_engine" "expr_plain demo_deps"
    by (simp_all add: docker_ok_def demo_engine_def empty_world_def expr_plain_def demo_deps_def)
  moreover have "applyClusterChange demo_deps (?prev\<lparr>cs_Image := ''pg:17.2''\<rparr>) ?prev '''' demo_engine = ((False, None), snd demo_change)"
    using demo_change_ok by (simp add: demo_change_def Let_def prod_eq_iff)
  ultimately have "volumes (snd demo_change) = volumes demo_engine"
    "\<exists>cid. serving demo_deps (?prev\<lparr>cs_Image := ''pg:17.2''\<rparr>) cid (snd demo_change)"
    using applyClusterChange_outcome[of demo_engine demo_deps "?prev\<lparr>cs_Image := ''pg:17.2''\<rparr>" ?prev "''''" False None
        "snd demo_change"] by blast+
  then show ?thesis by (simp add: demo_engine_def)
qed

section \<open>Destroy\<close>

lemma RemoveVolume_gone:
  assumes "RemoveVolume name w = (None, w')"
  shows "volumes w' name = None" "containers w' = containers w" "docker_seq w' = docker_seq w" "rdbms_instances w' = rdbms_instances w"
proof -
  let ?req = "\<lambda>w. if name \<in> (\<lambda>c. sp_MountSource (ct_Spec c)) ` set (containers w) then Inl (DriverError ''volume is in use'')
                  else Inr (w\<lparr>volumes := (volumes w)(name := None)\<rparr>, ())"
  have "docker_call ?req w = (Inr (), w')"
    using assms unfolding RemoveVolume_def volume_remove_def
    by (auto split: prod.splits sum.splits if_splits elim!: docker_call_error)
  then obtain v where v: "same_but_io w v" "?req v = Inr (w', ())" by (rule docker_call_ok)
  then show "volumes w' name = None" "containers w' = containers w" "docker_seq w' = docker_seq w" "rdbms_instances w' = rdbms_instances w"
    by (auto simp: same_but_io_fields split: if_splits)
qed

lemma Instances_Delete_engine:
  assumes "Instances_Delete name w = (r, w')"
  shows "engine_kept w w'" "r = None \<Longrightarrow> name \<notin> inst_Name ` set (rdbms_instances w')"
proof -
  let ?st = "\<lambda>w. Inr (w\<lparr>rdbms_instances := del_where (\<lambda>i. inst_Name i = name) (rdbms_instances w)\<rparr>, 0 :: int)"
  obtain q where q: "sql_exec ?st w = (q, w')" "r = None \<longleftrightarrow> (\<exists>k. q = Inr k)"
    using assms by (auto simp: Instances_Delete_def split: prod.splits sum.splits)
  show "engine_kept w w'"
    using q(1) by (elim sql_exec_cases) (auto simp: engine_kept_def same_data_def same_but_io_fields)
  show "name \<notin> inst_Name ` set (rdbms_instances w')" if "r = None"
    using q that by (auto elim!: sql_exec_ok)
qed

lemma RemoveContainer_catalogue:
  "RemoveContainer ref w = (r, w') \<Longrightarrow> rdbms_instances w' = rdbms_instances w"
  unfolding RemoveContainer_def container_remove_def
  by (auto elim!: docker_call_cases simp: same_but_io_fields split: prod.splits sum.splits if_splits option.splits)

lemma DeleteRDBMS_stages:
  assumes "DeleteRDBMS_Execute name w = (r, w')" "docker_ok w"
  shows "(rdbms_instances w' = rdbms_instances w \<and> r \<noteq> None)
    \<or> (ContainerName name \<notin> ct_Name ` set (containers w') \<and> volumes w' (VolumeName name) = None
        \<and> (r = None \<longrightarrow> name \<notin> inst_Name ` set (rdbms_instances w')))"
proof -
  obtain r1 w1 where 1: "Instances_Get name w = (r1, w1)" by fastforce
  have io: "same_but_io w w1"
    using 1 by (auto simp: Instances_Get_def dest: sql_query_same split: prod.splits sum.splits option.splits)
  show ?thesis
  proof (cases r1)
    case (Inl e)
    then show ?thesis using assms(1) 1 io by (auto simp: DeleteRDBMS_Execute_def same_but_io_fields)
  next
    case (Inr inst)
    obtain r2 w2 where 2: "(if inst_ContainerID inst \<noteq> '''' then RemoveContainer (inst_ContainerID inst) w1 else (None, w1)) = (r2, w2)"
      by fastforce
    obtain r3 w3 where 3: "RemoveContainer (ContainerName name) w2 = (r3, w3)" by fastforce
    obtain r4 w4 where 4: "RemoveVolume (VolumeName name) w3 = (r4, w4)" by fastforce
    obtain r5 w5 where 5: "Instances_Delete name w4 = (r5, w5)" by fastforce
    have ok2: "docker_ok w2"
      using 2 RemoveContainer_tidy eng.io_stable[OF io assms(2)] by (auto simp: tidy_def split: if_splits)
    have rows: "rdbms_instances w1 = rdbms_instances w" "rdbms_instances w2 = rdbms_instances w" "rdbms_instances w3 = rdbms_instances w"
      using io 2 RemoveContainer_catalogue RemoveContainer_catalogue[OF 3] by (auto simp: same_but_io_fields split: if_splits)
    have rows4: "rdbms_instances w4 = rdbms_instances w"
      using 4 rows(3) unfolding RemoveVolume_def volume_remove_def
      by (auto elim!: docker_call_cases simp: same_but_io_fields split: prod.splits sum.splits if_splits)
    show ?thesis
    proof (cases "r2 = None \<and> r3 = None \<and> r4 = None")
      case False
      then show ?thesis using assms(1) 1 2 3 4 Inr rows rows4
        by (auto simp: DeleteRDBMS_Execute_def split: option.splits)
    next
      case True
      then have "r = map_option (wrap ''delete instance from store'') r5" "w' = w5"
        using assms(1) 1 2 3 4 5 Inr by (auto simp: DeleteRDBMS_Execute_def split: option.splits)
      moreover have "ContainerName name \<notin> ct_Name ` set (containers w4)" "volumes w4 (VolumeName name) = None"
        using RemoveContainer_gone(1)[OF _ ok2] RemoveVolume_gone(1,2) 3 4 True by auto
      ultimately show ?thesis
        using Instances_Delete_engine[OF 5] by (auto simp: engine_kept_def same_data_def)
    qed
  qed
qed

section \<open>Create\<close>

lemma env_password_containerEnv: "p \<noteq> '''' \<Longrightarrow> env_password (containerEnv p) = Some p"
  by (simp add: containerEnv_def env_password_def HasPrefix_def CutPrefix_def)

text \<open>A created container and its fresh volume, which holds no cluster yet.\<close>

lemma CreateContainer_spec:
  assumes "CreateContainer expr_Run name version imageName port password cpuCores ramMB pgroup params w = (Inr cid, w')"
    and "docker_ok w"
  shows "docker_ok w'" "volumes w' = (volumes w)(VolumeName name := Some '''')" "volumes w (VolumeName name) = None"
    "rdbms_instances w' = rdbms_instances w"
    "\<exists>c imageID resolved. c \<in> set (containers w') \<and> made cid name
        (buildInstanceContainer name version imageName port cpuCores ramMB password pgroup resolved) imageID c"
proof -
  obtain resolved w1 where 1: "preflight expr_Run imageName params cpuCores ramMB w = (Inr resolved, w1)"
    using assms(1) by (auto simp: CreateContainer_def split: prod.splits sum.splits)
  let ?spec = "buildInstanceContainer name version imageName port cpuCores ramMB password pgroup resolved"
  have src: "sp_MountSource ?spec = VolumeName name" by (simp add: buildInstanceContainer_def Let_def)
  obtain e w2 w3 where 2: "volume_inspect (VolumeName name) w1 = (Inl e, w2)" "IsNotFound e"
    and 3: "volume_create (VolumeName name) w2 = (Inr (), w3)" and 4: "createContainer name ?spec w3 = (Inr cid, w')"
    using assms(1) 1 by (auto simp: CreateContainer_def split: prod.splits sum.splits if_splits)
  have gone: "same_but_io w1 w2" "volumes w2 (VolumeName name) = None"
    using 2 unfolding volume_inspect_def by (auto elim!: docker_call_error split: if_splits)
  have io: "same_but_io w w2" using preflight_spec(1)[OF 1] gone(1) same_but_io_trans by blast
  show "volumes w (VolumeName name) = None" using gone(2) io by (simp add: same_but_io_fields)
  obtain v where v: "same_but_io w2 v" "w3 = v\<lparr>volumes := (volumes v)(VolumeName name := Some '''')\<rparr>"
    using 3 gone(2) unfolding volume_create_def by (auto elim!: docker_call_ok simp: same_but_io_fields split: if_splits)
  have ok3: "docker_ok w3" using v eng.io_stable[OF v(1) eng.io_stable[OF io assms(2)]] by (simp add: docker_ok_def)
  note c = createContainer_spec[OF 4 ok3]
  have vol: "volumes w3 (sp_MountSource ?spec) \<noteq> None" by (simp add: src v(2))
  show "docker_ok w'" by (rule c(1)[OF vol])
  show "volumes w' = (volumes w)(VolumeName name := Some '''')"
    using c(2)[OF vol] v io by (simp add: same_data_def same_but_io_fields)
  have "rdbms_instances w' = rdbms_instances w3"
    using 4 unfolding createContainer_def container_create_def
    by (auto elim!: docker_call_ok simp: same_but_io_fields Let_def split: if_splits option.splits)
  then show "rdbms_instances w' = rdbms_instances w" using v io by (simp add: same_but_io_fields)
  show "\<exists>c imageID resolved. c \<in> set (containers w') \<and> made cid name
        (buildInstanceContainer name version imageName port cpuCores ramMB password pgroup resolved) imageID c"
    using c(4)[OF vol refl] by blast
qed

text \<open>The first start of a container whose volume is empty initialises the cluster.\<close>

lemma StartContainer_initdb:
  assumes "StartContainer cid w = (None, w')" "docker_ok w" "c \<in> set (containers w)" "made cid name sp imageID c"
    and "env_password (sp_Env sp) = Some pw" "volumes w (sp_MountSource sp) = Some ''''"
  shows "volumes w' = (volumes w)(sp_MountSource sp := Some pw)" "rdbms_instances w' = rdbms_instances w"
    "\<exists>c' \<in> set (containers w'). made cid name sp imageID c' \<and> ct_Running c'"
proof -
  let ?go = "\<lambda>c. c\<lparr>ct_Running := True, ct_Restarting := False\<rparr>"
  have id: "ct_ID c = cid" and sp: "ct_Spec c = sp" using assms(4) by (simp_all add: made_def)
  have look: "lookup_container cid v = Some c" if "same_but_io w v" for v
    using lookup_container_ok(1)[OF assms(2,3)] id same_but_io_fields[OF that] by (simp add: lookup_container_def)
  have "container_start cid w = (Inr (), w')"
    using assms(1) by (auto simp: StartContainer_def split: prod.splits sum.splits)
  then obtain v where v: "same_but_io w v" "w' = entrypoint sp (on_container cid ?go v)"
    unfolding container_start_def by (elim docker_call_ok) (auto simp: look id sp split: if_splits)
  have vv: "volumes v = volumes w" "containers v = containers w" "rdbms_instances v = rdbms_instances w"
    using v(1) by (simp_all add: same_but_io_fields)
  show "volumes w' = (volumes w)(sp_MountSource sp := Some pw)"
    using vv assms(5,6) unfolding v(2) by (simp add: entrypoint_def on_container_def)
  show "rdbms_instances w' = rdbms_instances w"
    using vv assms(5,6) unfolding v(2) by (simp add: entrypoint_def on_container_def)
  have "?go c \<in> set (containers w')"
    using assms(3) id vv unfolding v(2) by (auto simp: on_container_def in_upd_where)
  moreover have "made cid name sp imageID (?go c)" using assms(4) by (simp add: made_def)
  ultimately show "\<exists>c' \<in> set (containers w'). made cid name sp imageID c' \<and> ct_Running c'"
    by (intro bexI[of _ "?go c"]) simp_all
qed

text \<open>
  Adopting the real password: only the cluster that was initialised with the throwaway
  answers to it.
\<close>

lemma adoptPostgresPassword_spec:
  assumes "adoptPostgresPassword port initpw real w = (None, w')" "\<forall>v. volumes w v = Some initpw \<longrightarrow> v = vol"
  shows "volumes w' = (volumes w)(vol := Some real)" "containers w' = containers w" "rdbms_instances w' = rdbms_instances w"
proof -
  obtain w1 where 1: "pg_connect port initpw w = (None, w1)" "pg_alter_password port initpw real w1 = (None, w')"
    using assms(1) by (auto simp: adoptPostgresPassword_def split: prod.splits option.splits)
  let ?req = "\<lambda>w. case find (pg_answers port initpw w) (containers w) of None \<Rightarrow> Inl (DriverError ''pg'')
      | Some c \<Rightarrow> Inr (w\<lparr>volumes := (volumes w)(sp_MountSource (ct_Spec c) := Some real)\<rparr>, ())"
  have "docker_call ?req w1 = (Inr (), w')"
    using 1(2) by (auto simp: pg_alter_password_def split: prod.splits sum.splits)
  then obtain v where v: "same_but_io w1 v" "?req v = Inr (w', ())" by (rule docker_call_ok)
  have vv: "volumes v = volumes w" "containers v = containers w" "rdbms_instances v = rdbms_instances w"
    using v(1) pg_connect_spec(1)[OF 1(1)] by (simp_all add: same_but_io_fields)
  obtain c where c: "find (pg_answers port initpw v) (containers v) = Some c"
    "w' = v\<lparr>volumes := (volumes v)(sp_MountSource (ct_Spec c) := Some real)\<rparr>"
    using v(2) by (auto split: option.splits)
  have "pg_answers port initpw v c" using c(1) find_Some_in by metis
  then have "sp_MountSource (ct_Spec c) = vol" using assms(2) vv(1) by (simp add: pg_answers_def)
  then show "volumes w' = (volumes w)(vol := Some real)" "containers w' = containers w" "rdbms_instances w' = rdbms_instances w"
    using c(2) vv by simp_all
qed

lemma UpdateStatus_recorded:
  assumes "Instances_UpdateStatus t n st w = (None, w')" "i \<in> set (rdbms_instances w')" "inst_Name i = n"
  shows "inst_Status i = st \<and> (\<exists>j \<in> set (rdbms_instances w). inst_Name j = n \<and> inst_ContainerID i = inst_ContainerID j)"
proof -
  let ?f = "\<lambda>i. i\<lparr>inst_Status := st, inst_UpdatedAt := t\<rparr>"
  obtain k where "sql_exec (update_stmt n ?f) w = (Inr k, w')"
    using assms(1) by (auto simp: Instances_UpdateStatus_def update_instance_def split: prod.splits sum.splits if_splits)
  then obtain v where v: "same_but_io w v" "update_stmt n ?f v = Inr (w', k)" by (rule sql_exec_ok)
  then have "rdbms_instances w' = upd_where (\<lambda>i. inst_Name i = n) ?f (rdbms_instances v)"
    by (simp add: update_stmt_def Let_def split: if_splits) (erule conjE, hypsubst, simp)
  then have "i \<in> set (upd_where (\<lambda>i. inst_Name i = n) ?f (rdbms_instances w))"
    using assms(2) v(1) by (simp add: same_but_io_fields)
  then obtain x where "x \<in> set (rdbms_instances w)" "i = (if inst_Name x = n then ?f x else x)" unfolding in_upd_where by blast
  then show ?thesis using assms(3) by (auto split: if_splits)
qed

lemma bring_up_ok:
  assumes "bring_up deps name port cid initpw password w = (None, w')" "docker_ok w"
    and c: "c \<in> set (containers w)" "made cid name sp imageID c" "env_password (sp_Env sp) = Some initpw"
    and vol: "sp_MountSource sp = vol" "volumes w vol = Some ''''" "\<forall>v. volumes w v \<noteq> Some initpw"
  shows "volumes w' = (volumes w)(vol := Some password)"
    "\<exists>c' \<in> set (containers w'). made cid name sp imageID c' \<and> ct_Running c'"
    "i \<in> set (rdbms_instances w') \<Longrightarrow> inst_Name i = name \<Longrightarrow> inst_Status i = StatusRunning \<and> inst_ContainerID i = cid"
proof -
  obtain w1 w2 w3 w4 where 1: "Instances_UpdateContainerID (dp_now deps) name cid w = (None, w1)"
    and 2: "StartContainer cid w1 = (None, w2)" and 3: "waitForPostgresReady deps port initpw w2 = (None, w3)"
    and 4: "adoptPostgresPassword port initpw password w3 = (None, w4)"
    and 5: "Instances_UpdateStatus (dp_now deps) name StatusRunning w4 = (None, w')"
    using assms(1) by (auto simp: bring_up_def Let_def split: prod.splits option.splits)
  have k1: "engine_kept w w1" using catalogue_keeps_engine(2)[OF 1] .
  then have e1: "docker_ok w1" "c \<in> set (containers w1)" "volumes w1 = volumes w"
    using assms(2) c(1) docker_ok_cong[of w1 w] by (simp_all add: engine_kept_def same_data_def)
  note s = StartContainer_initdb[OF 2 e1(1,2) c(2,3), unfolded e1(3) vol(1), OF vol(2)]
  note w = waitForPostgresReady_spec(1)[OF 3]
  have v3: "volumes w3 = (volumes w)(vol := Some initpw)" using w s(1) by (simp add: same_but_io_fields)
  have "\<forall>v. volumes w3 v = Some initpw \<longrightarrow> v = vol" using vol(3) by (simp add: v3)
  note a = adoptPostgresPassword_spec[OF 4 this]
  have k5: "engine_kept w4 w'" using catalogue_keeps_engine(1)[OF 5] .
  show "volumes w' = (volumes w)(vol := Some password)" using k5 a(1) v3 by (simp add: engine_kept_def same_data_def)
  show "\<exists>c' \<in> set (containers w'). made cid name sp imageID c' \<and> ct_Running c'"
    using s(3) w a(2) k5 by (simp add: engine_kept_def same_but_io_fields)
  show "inst_Status i = StatusRunning \<and> inst_ContainerID i = cid" if i: "i \<in> set (rdbms_instances w')" "inst_Name i = name"
  proof -
    obtain j where j: "j \<in> set (rdbms_instances w4)" "inst_Name j = name" "inst_ContainerID i = inst_ContainerID j"
      and "inst_Status i = StatusRunning" using UpdateStatus_recorded[OF 5 i] by blast
    moreover have "j \<in> set (rdbms_instances w1)" using j(1) a(3) w s(2) by (simp add: same_but_io_fields)
    ultimately show ?thesis using UpdateContainerID_recorded[OF 1 _ j(2)] by simp
  qed
qed

lemma Instances_Create_engine:
  assumes "Instances_Create now name port version password containerID cpuCores ramMB pgroup img w = (r, w')"
  shows "engine_kept w w'"
proof -
  obtain st q w1 where 1: "sql_exec (insert_stmt st) w = (q, w1)" and 2: "w' = w1 \<or> Instances_Get name w1 = (r, w')"
    using assms by (auto simp: Instances_Create_def split: prod.splits sum.splits)
  have "engine_kept w w1"
    using 1 by (elim sql_exec_cases)
      (auto simp: insert_stmt_def Let_def engine_kept_def same_data_def same_but_io_fields split: if_splits)
  then show ?thesis using 2 catalogue_reads_io(3) engine_kept_io engine_kept_trans by blast
qed

lemma create_reserved_ok:
  assumes "create_reserved deps params img password initpw w = (Inr res, w')" "docker_ok w"
    and init: "initpw \<noteq> ''''" "\<forall>v. volumes w v \<noteq> Some initpw"
  shows "let n = cr_Name params in cres_Password res = password \<and> volumes w (VolumeName n) = None
     \<and> volumes w' = (volumes w)(VolumeName n := Some password)
     \<and> (\<exists>c \<in> set (containers w'). ct_ID c = inst_ContainerID (cres_Instance res) \<and> ct_Name c = ContainerName n
           \<and> ct_Running c \<and> env_password (sp_Env (ct_Spec c)) = Some initpw)
     \<and> (\<forall>i \<in> set (rdbms_instances w'). inst_Name i = n \<longrightarrow>
           inst_Status i = StatusRunning \<and> inst_ContainerID i = inst_ContainerID (cres_Instance res))"
proof -
  let ?n = "cr_Name params"
  obtain enc inst w1 pgroup w2 cid w3 where
    1: "Instances_Create (dp_now deps) ?n (cr_Port params) (cr_Version params) enc ''''
              (cr_CPUCores params) (cr_RAMMB params) (cr_ParameterGroup params) img w = (Inr inst, w1)"
    and 2: "GetGroup (cr_ParameterGroup params) w1 = (Inr pgroup, w2)"
    and 3: "CreateContainer (dp_expr deps) ?n (cr_Version params) img (cr_Port params) initpw
              (cr_CPUCores params) (cr_RAMMB params) (cr_ParameterGroup params) pgroup w2 = (Inr cid, w3)"
    and 4: "bring_up deps ?n (cr_Port params) cid initpw password w3 = (None, w')"
    and res: "res = \<lparr>cres_Instance = inst\<lparr>inst_ContainerID := cid, inst_Status := ''running''\<rparr>, cres_Password = password\<rparr>"
    using assms(1) by (auto simp: create_reserved_def split: prod.splits sum.splits option.splits if_splits)
  have k: "engine_kept w w2"
    using Instances_Create_engine[OF 1] engine_kept_io[OF catalogue_reads_io(4)[OF 2]] engine_kept_trans by blast
  then have ok2: "docker_ok w2" and v2: "volumes w2 = volumes w"
    using assms(2) docker_ok_cong[of w2 w] by (simp_all add: engine_kept_def same_data_def)
  note cc = CreateContainer_spec[OF 3 ok2, unfolded v2]
  obtain c imageID resolved where c: "c \<in> set (containers w3)" "made cid ?n
      (buildInstanceContainer ?n (cr_Version params) img (cr_Port params) (cr_CPUCores params) (cr_RAMMB params)
         initpw (cr_ParameterGroup params) resolved) imageID c" (is "made cid ?n ?sp imageID c") using cc(5) by blast
  have sp: "sp_MountSource ?sp = VolumeName ?n" "env_password (sp_Env ?sp) = Some initpw"
    by (simp_all add: buildInstanceContainer_def Let_def env_password_containerEnv init(1))
  have fresh: "\<forall>v. volumes w3 v \<noteq> Some initpw" "volumes w3 (VolumeName ?n) = Some ''''"
    using init unfolding cc(2) by auto
  note b = bring_up_ok[OF 4 cc(1) c sp(2,1) fresh(2,1)]
  have "volumes w' = (volumes w)(VolumeName ?n := Some password)" using b(1) cc(2) by simp
  moreover have "\<exists>c \<in> set (containers w'). ct_ID c = cid \<and> ct_Name c = ContainerName ?n \<and> ct_Running c
      \<and> env_password (sp_Env (ct_Spec c)) = Some initpw" using b(2) sp(2) unfolding made_def by auto
  ultimately show ?thesis using b(3) cc(3) res by (simp add: Let_def)
qed

text \<open>
  C12. Destroy forgets an instance last: if its row is gone afterwards, so are its container
  and its data volume, whatever failed on the way, and success means that all three are
  gone. So a name that is free in the catalogue is free for \<open>create\<close>, which refuses to adopt
  a volume.
\<close>

theorem DeleteRDBMS_leaves_nothing:
  assumes "docker_ok w" "DeleteRDBMS_Execute name w = (r, w')"
    and "r = None \<or> (name \<in> inst_Name ` set (rdbms_instances w) \<and> name \<notin> inst_Name ` set (rdbms_instances w'))"
  shows "name \<notin> inst_Name ` set (rdbms_instances w') \<and> ContainerName name \<notin> ct_Name ` set (containers w')
     \<and> volumes w' (VolumeName name) = None"
  using DeleteRDBMS_stages[OF assms(2,1)] assms(3) by auto

lemma demo_delete_ok: "fst (DeleteRDBMS_Execute ''db'' demo_engine) = None"
  by (simp add: DeleteRDBMS_Execute_def demo_engine_def demo_instance_def Instances_Get_def calm_primitives empty_world_def
      RemoveContainer_def docker_call_calm engine_defs RemoveVolume_def volume_remove_def Instances_Delete_def)

theorem DeleteRDBMS_leaves_nothing_witness:
  "volumes demo_engine (VolumeName ''db'') = Some ''pw''
   \<and> volumes (snd (DeleteRDBMS_Execute ''db'' demo_engine)) (VolumeName ''db'') = None"
proof -
  have "docker_ok demo_engine" by (simp add: docker_ok_def demo_engine_def empty_world_def)
  moreover have "DeleteRDBMS_Execute ''db'' demo_engine = (None, snd (DeleteRDBMS_Execute ''db'' demo_engine))"
    using demo_delete_ok by (simp add: prod_eq_iff)
  ultimately have "volumes (snd (DeleteRDBMS_Execute ''db'' demo_engine)) (VolumeName ''db'') = None"
    using DeleteRDBMS_leaves_nothing by blast
  then show ?thesis by (simp add: demo_engine_def VolumeName_def)
qed

lemma length_GenerateSecurePassword: "length bytes = n \<Longrightarrow> length (GenerateSecurePassword bytes n) = n"
  by (simp add: GenerateSecurePassword_def length_EncodeToString)

lemma GenerateSecurePassword_nonempty: "length bytes = 24 \<Longrightarrow> GenerateSecurePassword bytes 24 \<noteq> ''''"
  using length_GenerateSecurePassword[of bytes 24] by auto

text \<open>
  C25. An instance that create reports runs, and is the one the operator was told about:
  its container runs under the recorded id, its volume is new and holds a cluster whose
  superuser password is the one returned, every other volume is as before, and the
  container's environment carries only the throwaway that initialised it. The throwaway is
  assumed to be a text that no other cluster uses.
\<close>

theorem CreateRDBMS_serves:
  assumes "docker_ok w" "CreateRDBMS_Execute deps params random1 random2 w = (Inr res, w')"
    and "length random2 = 24" "\<forall>v. volumes w v \<noteq> Some (GenerateSecurePassword random2 24)"
  shows "let n = cr_Name params in
     volumes w (VolumeName n) = None \<and> volumes w' = (volumes w)(VolumeName n := Some (cres_Password res))
     \<and> (\<exists>c \<in> set (containers w'). ct_ID c = inst_ContainerID (cres_Instance res) \<and> ct_Name c = ContainerName n
           \<and> ct_Running c \<and> env_password (sp_Env (ct_Spec c)) = Some (GenerateSecurePassword random2 24))
     \<and> (\<forall>i \<in> set (rdbms_instances w'). inst_Name i = n \<longrightarrow>
           inst_Status i = StatusRunning \<and> inst_ContainerID i = inst_ContainerID (cres_Instance res))"
proof -
  let ?p = "create_defaults params"
  obtain b1 w1 b2 w2 img where 1: "Instances_IsNameInUse (cr_Name ?p) w = (b1, w1)" and 2: "Instances_IsPortInUse (cr_Port ?p) w1 = (b2, w2)"
    and 3: "create_reserved deps ?p img (GenerateSecurePassword random1 24) (GenerateSecurePassword random2 24) w2 = (Inr res, w')"
    using assms(2) by (auto simp: CreateRDBMS_Execute_def Let_def split: if_splits prod.splits sum.splits)
  have io: "same_but_io w w2" using catalogue_reads_io(1)[OF 1] catalogue_reads_io(2)[OF 2] same_but_io_trans by blast
  have "docker_ok w2" "volumes w2 = volumes w" using eng.io_stable[OF io assms(1)] io by (simp_all add: same_but_io_fields)
  then show ?thesis using create_reserved_ok[OF 3 _ GenerateSecurePassword_nonempty[OF assms(3)]] assms(4) by (simp add: Let_def create_defaults_def)
qed

definition demo_params :: CreateRDBMSParams where
  "demo_params = \<lparr>cr_Name = ''db'', cr_Version = '''', cr_Image = '''', cr_Port = 0, cr_CPUCores = 1, cr_RAMMB = 512, cr_ParameterGroup = ''g''\<rparr>"

definition demo_host :: world where
  "demo_host = empty_world\<lparr>images := [''postgres:17'' \<mapsto> ''sha17''],
     parameters := [\<lparr>par_GroupName = ''g'', par_Name = ''jit'', par_Type = ''postgres_cli_arg'', par_ValueType = ''string'',
                     par_Value = ''off'', par_CreatedAt = 1\<rparr>]\<rparr>"

definition demo_create :: "CreateRDBMSResult res \<times> world" where
  "demo_create = CreateRDBMS_Execute demo_deps demo_params (replicate 24 (CHR ''a'')) (replicate 24 (CHR ''b'')) demo_host"

lemma demo_resolved:
  "ResolveParameters e [\<lparr>par_GroupName = ''g'', par_Name = ''jit'', par_Type = ''postgres_cli_arg'', par_ValueType = ''string'',
     par_Value = ''off'', par_CreatedAt = 1\<rparr>] 1 512
   = Inr [\<lparr>rp_Name = ''jit'', rp_Type = ''postgres_cli_arg'', rp_ValueType = ''string'', rp_Value = ''off''\<rparr>]"
  "ValidateForContainer [\<lparr>rp_Name = ''jit'', rp_Type = ''postgres_cli_arg'', rp_ValueType = ''string'', rp_Value = ''off''\<rparr>] 512 = None"
  subgoal by (simp add: ResolveParameters_def resolveParameter_def evaluateExpression_def ValidateParameterValue_def open_tag_def HasPrefix_def)
  subgoal by code_simp
  done

lemma demo_create_ok: "\<exists>res. fst demo_create = Inr res"
proof -
  have pw: "GenerateSecurePassword (replicate 24 (CHR ''b'')) 24 \<noteq> ''''" by (rule GenerateSecurePassword_nonempty) simp
  show ?thesis
    using pw env_password_containerEnv[OF pw]
    by (simp add: demo_create_def demo_params_def demo_host_def demo_deps_def create_defaults_def CreateRDBMS_Execute_def Let_def
        empty_world_def calm_primitives Instances_IsNameInUse_def Instances_IsPortInUse_def count_where_def create_reserved_def
        Instances_Create_def insert_stmt_def AllStatuses_def Instances_Get_def GetGroup_def order_by_def
        CreateContainer_def preflight_def CheckImageExists_def demo_resolved docker_call_calm engine_defs volume_create_def
        createContainer_def buildInstanceContainer_def bring_up_def Instances_UpdateContainerID_def Instances_UpdateStatus_def
        update_instance_def update_stmt_def upd_where_def StartContainer_def waitForPostgresReady_def numeral_2_eq_2
        pg_connect_def next_io_def pg_answers_def adoptPostgresPassword_def pg_alter_password_def)
qed

theorem CreateRDBMS_serves_witness:
  "\<exists>res. fst demo_create = Inr res \<and> volumes (snd demo_create) = [VolumeName ''db'' \<mapsto> cres_Password res]"
proof -
  obtain res where "fst demo_create = Inr res" using demo_create_ok by blast
  then have x: "CreateRDBMS_Execute demo_deps demo_params (replicate 24 (CHR ''a'')) (replicate 24 (CHR ''b'')) demo_host
     = (Inr res, snd demo_create)" unfolding demo_create_def[symmetric] by (simp add: prod_eq_iff)
  have h: "docker_ok demo_host" "length (replicate 24 (CHR ''b'')) = 24"
    "\<forall>v. volumes demo_host v \<noteq> Some (GenerateSecurePassword (replicate 24 (CHR ''b'')) 24)"
    by (simp_all add: docker_ok_def demo_host_def empty_world_def)
  have "volumes (snd demo_create) = (volumes demo_host)(VolumeName ''db'' := Some (cres_Password res))"
    using CreateRDBMS_serves[OF h(1) x h(2,3)] by (simp add: Let_def demo_params_def)
  then show ?thesis using \<open>fst demo_create = Inr res\<close> by (simp add: demo_host_def empty_world_def)
qed

section \<open>Two corners of the code\<close>

text \<open>
  A refused switch or reconfiguration of an instance in \<open>error\<close> leaves the transient status
  behind: the status is written before the change and restored after a refusal only when it
  was not \<open>error\<close>. The health check looks at instances in \<open>running\<close> and \<open>error\<close> only, so the
  broken instance goes silent.
\<close>

lemma refusal_strands_transient_status:
  assumes "docker_ok w" "expr_plain deps"
    and "Instances_UpdateStatus (dp_now deps) name transient w = (None, w1)"
    and "after_change deps name transient StatusError next_spec prev cid rolled w = (Some e, w')" "errors_Is e ErrInvalid"
    and "\<And>x. errors_Is (rolled x) ErrInvalid = errors_Is x ErrInvalid"
    and i: "i \<in> set (rdbms_instances w')" "inst_Name i = name"
  shows "inst_Status i = transient"
proof -
  obtain rb err w2 where 1: "applyClusterChange deps next_spec prev cid w1 = ((rb, err), w2)" by (metis surj_pair)
  have ok: "docker_ok w1"
    using catalogue_keeps_engine(1)[OF assms(3)] assms(1) docker_ok_cong[of w1 w] by (simp add: engine_kept_def)
  have r: "w' = w2" "\<exists>x. err = Some x \<and> errors_Is x ErrInvalid"
    using assms(3,4,5,6) 1 by (auto simp: after_change_def split: option.splits if_splits)
  have "same_but_io w1 w2" using refused_untouched[OF ok assms(2) 1] r(2) by blast
  then have "i \<in> set (rdbms_instances w1)" using i(1) r(1) by (simp add: same_but_io_fields)
  then show ?thesis using UpdateStatus_recorded[OF assms(3) _ i(2)] by blast
qed

text \<open>
  When a new instance does not become ready, its container is removed before its log is
  read for the error message, so the message never has the log.
\<close>

lemma failed_create_has_no_logs:
  assumes "docker_ok w" "io_schedule w = []"
  shows "fst (annotateReadyError deps cid e (cleanupFailedCreate name cid w)) = e"
proof -
  let ?w = "cleanupFailedCreate name cid w"
  obtain w1 where 1: "RemoveContainer cid w = (None, w1)" "io_schedule w1 = []"
    using assms(2) by (cases "lookup_container cid w") (auto simp: RemoveContainer_def container_remove_def docker_call_calm)
  have "io_schedule ?w = [] \<and> containers ?w = containers w1"
    using 1 by (auto simp: cleanupFailedCreate_def Let_def RemoveVolume_def volume_remove_def Instances_Delete_def
        docker_call_calm calm_primitives split: prod.splits sum.splits)
  moreover have "lookup_container cid w1 = None" using RemoveContainer_gone(2)[OF 1(1) assms(1)] .
  ultimately have "io_schedule ?w = []" "lookup_container cid ?w = None" by (simp_all add: lookup_container_def)
  then show ?thesis by (simp add: annotateReadyError_def docker_call_calm)
qed

end
