(* ===== verification/Health.thy ===== *)
theory Health
  imports Sender Lifecycle
begin

text \<open>
  Health checks: the records (\<open>internal/store/health\<close>), the probes of the host and of the
  instances (\<open>internal/services/health_checker.go\<close>), the notices on a change of state
  (\<open>internal/services/health_notifications.go\<close>) and the scheduler that runs them
  (\<open>internal/daemon/health_scheduler.go\<close>).

  \<^item> What the host reports at a run (free blocks, mount points, load average, whether a
    cached session still answers) is the record \<open>host\<close>; floating-point loads are rational
    numbers, so rounding is not modelled.
  \<^item> Records of one second have no order in SQL; the model keeps their table order.
\<close>

section \<open>The health store\<close>

text \<open>\<open>time.Time.Unix\<close>: instants count from the year 1.\<close>

definition Unix :: "gotime \<Rightarrow> int" where
  "Unix t = t div ns_second - 62135596800"

definition StartHealthCheck :: "gotime \<Rightarrow> world \<Rightarrow> HealthRecord res \<times> world" where
  "StartHealthCheck now w =
     (let record = \<lparr>hr_ID = 0, hr_TsUnix = Unix now, hr_InProgress = True, hr_HealthyAll = True, hr_HealthyHost = True,
            hr_HealthyInstances = '''', hr_BrokenInstances = '''', hr_FailDetails = ''''\<rparr> in
      case sql_exec (\<lambda>w. let n = health_seq w + 1 in
             Inr (w\<lparr>health := health w @ [record\<lparr>hr_ID := n\<rparr>], health_seq := n\<rparr>, n)) w of
        (Inl e, w1) \<Rightarrow> (Inl (wrap ''insert health record'' e), w1)
      | (Inr n, w1) \<Rightarrow> (Inr (record\<lparr>hr_ID := n\<rparr>), w1))"

definition update_health :: "(HealthRecord \<Rightarrow> bool) \<Rightarrow> (HealthRecord \<Rightarrow> HealthRecord) \<Rightarrow> world \<Rightarrow> (world \<times> int) res" where
  "update_health p f w = Inr (w\<lparr>health := upd_where p f (health w)\<rparr>, count_where p (health w))"

definition UpdateHealthCheck ::
  "int \<Rightarrow> bool \<Rightarrow> string list \<Rightarrow> string list \<Rightarrow> string \<Rightarrow> world \<Rightarrow> goerror option \<times> world" where
  "UpdateHealthCheck n healthyHost healthyInstances brokenInstances failDetails w =
     (let healthyAll = (healthyHost \<and> brokenInstances = []) in
      case sql_exec (update_health (\<lambda>r. hr_ID r = n)
             (\<lambda>r. r\<lparr>hr_InProgress := False, hr_HealthyAll := healthyAll, hr_HealthyHost := healthyHost,
                    hr_HealthyInstances := JoinWith '','' healthyInstances,
                    hr_BrokenInstances := JoinWith '','' brokenInstances, hr_FailDetails := failDetails\<rparr>)) w of
        (Inl e, w1) \<Rightarrow> (Some (wrap ''update health record'' e), w1)
      | (Inr _, w1) \<Rightarrow> (None, w1))"

definition GetLatestHealthRecord :: "world \<Rightarrow> HealthRecord option res \<times> world" where
  "GetLatestHealthRecord w =
     (case sql_query (\<lambda>w. case sort_desc hr_TsUnix (health w) of [] \<Rightarrow> None | r # rs \<Rightarrow> Some r) w of
        (Inl e, w1) \<Rightarrow> (Inl (wrap ''get latest health record'' e), w1)
      | (Inr r, w1) \<Rightarrow> (Inr r, w1))"

definition GetHealthHistory :: "int \<Rightarrow> world \<Rightarrow> HealthRecord list res \<times> world" where
  "GetHealthHistory limit w =
     (case sql_query (\<lambda>w. sql_limit limit (sort_desc hr_TsUnix (health w))) w of
        (Inl e, w1) \<Rightarrow> (Inl (wrap ''get health history'' e), w1)
      | (Inr rs, w1) \<Rightarrow> (Inr rs, w1))"

definition CleanupOldRecords :: "gotime \<Rightarrow> int \<Rightarrow> world \<Rightarrow> goerror option \<times> world" where
  "CleanupOldRecords now olderThan w =
     (let cutoff = Unix (now + wrap64 (- olderThan)) in
      case sql_exec (\<lambda>w. Inr (w\<lparr>health := del_where (\<lambda>r. hr_TsUnix r < cutoff) (health w)\<rparr>,
             count_where (\<lambda>r. hr_TsUnix r < cutoff) (health w))) w of
        (Inl e, w1) \<Rightarrow> (Some (wrap ''cleanup old health records'' e), w1)
      | (Inr _, w1) \<Rightarrow> (None, w1))"

definition ResetInProgressRecords :: "world \<Rightarrow> goerror option \<times> world" where
  "ResetInProgressRecords w =
     (case sql_exec (update_health hr_InProgress
             (\<lambda>r. r\<lparr>hr_InProgress := False, hr_HealthyAll := False,
                    hr_FailDetails := if hr_FailDetails r = '''' then ''interrupted'' else hr_FailDetails r\<rparr>)) w of
        (Inl e, w1) \<Rightarrow> (Some (wrap ''reset in_progress records'' e), w1)
      | (Inr _, w1) \<Rightarrow> (None, w1))"

definition completed :: "world \<Rightarrow> HealthRecord list" where
  "completed w = sort_desc hr_TsUnix (filter (\<lambda>r. \<not> hr_InProgress r) (health w))"

text \<open>
  The query fails as a whole or not at all here; the code does not ask \<open>rows.Err()\<close> after its loop,
  so a result set that breaks off in the middle would be answered as a shorter list.
\<close>

definition GetRecentHealthRecords :: "int \<Rightarrow> world \<Rightarrow> HealthRecord list res \<times> world" where
  "GetRecentHealthRecords limit w =
     (case sql_query (\<lambda>w. sql_limit limit (completed w)) w of
        (Inl e, w1) \<Rightarrow> (Inl (wrap ''get recent health records'' e), w1)
      | (Inr rs, w1) \<Rightarrow> (Inr rs, w1))"

definition splitCommaSeparated :: "string \<Rightarrow> string list" where
  "splitCommaSeparated s =
     (if s = '''' then [] else filter (\<lambda>p. p \<noteq> '''') (map TrimSpace (SplitChar (CHR '','') s)))"

definition GetHealthyInstancesList :: "HealthRecord \<Rightarrow> string list" where
  "GetHealthyInstancesList h =
     (if hr_HealthyInstances h = '''' then [] else splitCommaSeparated (hr_HealthyInstances h))"

definition GetBrokenInstancesList :: "HealthRecord \<Rightarrow> string list" where
  "GetBrokenInstancesList h =
     (if hr_BrokenInstances h = '''' then [] else splitCommaSeparated (hr_BrokenInstances h))"

section \<open>Notices on a change of state\<close>

datatype NotificationState = StateUnknown | StateHealthy | StateDegraded

definition evaluateHealthState :: "HealthRecord list \<Rightarrow> int \<Rightarrow> int \<Rightarrow> NotificationState" where
  "evaluateHealthState records degradedThreshold restoredThreshold =
     (if records = [] then StateUnknown
      else if degradedThreshold \<le> int (length records)
            \<and> list_all (\<lambda>r. \<not> hr_HealthyAll r) (take (nat degradedThreshold) records) then StateDegraded
      else if restoredThreshold \<le> int (length records)
            \<and> list_all hr_HealthyAll (take (nat restoredThreshold) records) then StateHealthy
      else StateUnknown)"

definition shouldSendNotification :: "NotificationState \<Rightarrow> NotificationState \<Rightarrow> string option" where
  "shouldSendNotification lastNotifiedState currentState =
     (if currentState = lastNotifiedState then None
      else case currentState of
             StateDegraded \<Rightarrow> if lastNotifiedState \<noteq> StateDegraded then Some ''service_degraded'' else None
           | StateHealthy \<Rightarrow> if lastNotifiedState = StateDegraded then Some ''service_restored'' else None
           | StateUnknown \<Rightarrow> None)"

definition instanceErrorPrefix :: string where "instanceErrorPrefix = ''instance_error:''"

definition instanceErrorHint :: string where
  "instanceErrorHint =
     newline @ ''An instance in 'error' state is not being probed '' @ em_dash @ '' it is recorded as broken.'' @ newline
     @ ''That is either a failed operation (apply/switch/start) that needs repair, or a'' @ newline
     @ ''configuration-only instance left behind by 'snapshot apply'. Run 'oddk checklist'.'' @ newline"

text \<open>The UTF-8 bytes of the siren and of the check mark.\<close>

definition siren :: string where "siren = map char_of [240, 159, 154, 168 :: nat]"
definition check_mark :: string where "check_mark = map char_of [226, 156, 133 :: nat]"

definition buildDegradedMessage :: "string \<Rightarrow> string \<Rightarrow> HealthRecord \<Rightarrow> string" where
  "buildDegradedMessage displayName timestamp r =
     siren @ '' ODDK Service Degraded ('' @ displayName @ '')'' @ newline @ newline
     @ ''Time: '' @ timestamp @ newline
     @ (if \<not> hr_HealthyHost r then ''Host: unhealthy'' @ newline else '''')
     @ (if hr_BrokenInstances r \<noteq> '''' then ''Broken Instances: '' @ hr_BrokenInstances r @ newline else '''')
     @ (if hr_FailDetails r \<noteq> '''' then ''Details: '' @ hr_FailDetails r @ newline else '''')
     @ (if Contains (hr_FailDetails r) instanceErrorPrefix then instanceErrorHint else '''')
     @ newline @ ''Please check the ODDK daemon for more details.''"

definition buildNotificationMessage :: "(int \<Rightarrow> string) \<Rightarrow> string \<Rightarrow> string \<Rightarrow> HealthRecord \<Rightarrow> string" where
  "buildNotificationMessage fmt_unix displayName notificationType r =
     (let timestamp = fmt_unix (hr_TsUnix r) in
      if notificationType = ''service_degraded'' then buildDegradedMessage displayName timestamp r
      else if notificationType = ''service_restored'' then
        check_mark @ '' ODDK Service Restored ('' @ displayName @ '')'' @ newline @ newline
        @ ''Time: '' @ timestamp @ newline
        @ (if hr_HealthyInstances r \<noteq> '''' then ''Healthy Instances: '' @ hr_HealthyInstances r @ newline
           else ''All systems are now healthy.'' @ newline)
        @ newline @ ''Service has been restored to normal operation.''
      else ''ODDK Health Status Update ('' @ displayName @ ''): '' @ notificationType @ '' at '' @ timestamp)"

text \<open>
  Up to three attempts, with a wait between them that a cancelled context cuts short:
  \<open>retry k\<close> has \<open>k\<close> more attempts after this one, and \<open>cancelled k\<close> says how that wait ends.
\<close>

fun retry :: "sender \<Rightarrow> (nat \<Rightarrow> bool) \<Rightarrow> string \<Rightarrow> string \<Rightarrow> nat \<Rightarrow> world \<Rightarrow> goerror option \<times> world" where
  "retry sd cancelled name message k w =
     (case Send sd name ''ODDK Health Status'' message w of
        (None, w1) \<Rightarrow> (None, w1)
      | (Some e, w1) \<Rightarrow>
          (case k of
             0 \<Rightarrow> (Some (wrap ''failed after 3 attempts'' e), w1)
           | Suc j \<Rightarrow>
               if cancelled k then (Some (Errorf0 ''context canceled''), w1)
               else retry sd cancelled name message j w1))"

declare retry.simps [simp del]

definition sendWithRetries :: "sender \<Rightarrow> (nat \<Rightarrow> bool) \<Rightarrow> string \<Rightarrow> string \<Rightarrow> world \<Rightarrow> goerror option \<times> world" where
  "sendWithRetries sd cancelled name message w = retry sd cancelled name message 2 w"

fun send_channels ::
  "sender \<Rightarrow> (string \<Rightarrow> nat \<Rightarrow> bool) \<Rightarrow> string \<Rightarrow> Notification list \<Rightarrow> nat \<Rightarrow> goerror option \<Rightarrow> world
     \<Rightarrow> nat \<times> goerror option \<times> world" where
  "send_channels sd cancelled message [] successCount lastError w = (successCount, lastError, w)"
| "send_channels sd cancelled message (n # ns) successCount lastError w =
     (case sendWithRetries sd (cancelled (nt_Name n)) (nt_Name n) message w of
        (Some e, w1) \<Rightarrow> send_channels sd cancelled message ns successCount (Some e) w1
      | (None, w1) \<Rightarrow> send_channels sd cancelled message ns (successCount + 1) lastError w1)"

text \<open>What a run of the evaluator is given: the sender, the formats, the host name, the context.\<close>

record notifier =
  hn_sender :: sender
  hn_fmt_unix :: "int \<Rightarrow> string"
  hn_Hostname :: "string res"
  hn_cancelled :: "string \<Rightarrow> nat \<Rightarrow> bool"

definition sendHealthNotification ::
  "notifier \<Rightarrow> string \<Rightarrow> HealthRecord \<Rightarrow> KVStore \<Rightarrow> world \<Rightarrow> (goerror option \<times> KVStore \<times> world) option" where
  "sendHealthNotification nf notificationType latestRecord kv w =
     (case Notifications_List (sd_dec (hn_sender nf)) w of
        (Inl e, w1) \<Rightarrow> Some (Some (wrap ''list notifications'' e), kv, w1)
      | (Inr ns, w1) \<Rightarrow>
          if ns = [] then Some (None, kv, w1)
          else (case GetDisplayName (hn_Hostname nf) kv w1 of
             None \<Rightarrow> None
           | Some (displayName, kv1, w2) \<Rightarrow>
               (case send_channels (hn_sender nf) (hn_cancelled nf)
                       (buildNotificationMessage (hn_fmt_unix nf) displayName notificationType latestRecord) ns 0 None w2 of
                  (successCount, lastError, w3) \<Rightarrow>
                    Some (if successCount = 0 then map_option (wrap ''all notification channels failed'') lastError else None,
                          kv1, w3))))"

definition KeyHealthDegradedThreshold :: string where "KeyHealthDegradedThreshold = ''health.degraded_threshold.int''"
definition KeyHealthRestoredThreshold :: string where "KeyHealthRestoredThreshold = ''health.restored_threshold.int''"
definition KeyDiskSpaceThresholdBytes :: string where "KeyDiskSpaceThresholdBytes = ''health.disk_space_threshold_bytes.int''"
definition KeyCPULoadThresholdPercent :: string where "KeyCPULoadThresholdPercent = ''health.cpu_load_threshold_percent.int''"

text \<open>The evaluator's own state is \<open>lastNotifiedState\<close>, threaded through.\<close>

definition EvaluateAndNotify ::
  "notifier \<Rightarrow> NotificationState \<Rightarrow> KVStore \<Rightarrow> world
     \<Rightarrow> (goerror option \<times> NotificationState \<times> KVStore \<times> world) option" where
  "EvaluateAndNotify nf lastNotifiedState kv w =
     (case RequiredInt KeyHealthDegradedThreshold kv w of None \<Rightarrow> None | Some (degradedThreshold, kv1, w1) \<Rightarrow>
     (case RequiredInt KeyHealthRestoredThreshold kv1 w1 of None \<Rightarrow> None | Some (restoredThreshold, kv2, w2) \<Rightarrow>
     (case GetRecentHealthRecords (max degradedThreshold restoredThreshold) w2 of
        (Inl e, w3) \<Rightarrow> Some (Some (wrap ''get recent health records'' e), lastNotifiedState, kv2, w3)
      | (Inr records, w3) \<Rightarrow>
          if records = [] then Some (None, lastNotifiedState, kv2, w3)
          else let currentState = evaluateHealthState records degradedThreshold restoredThreshold in
            (case shouldSendNotification lastNotifiedState currentState of
               None \<Rightarrow> Some (None, lastNotifiedState, kv2, w3)
             | Some notificationType \<Rightarrow>
                 (case sendHealthNotification nf notificationType (hd records) kv2 w3 of
                    None \<Rightarrow> None
                  | Some (Some e, kv3, w4) \<Rightarrow> Some (Some (wrap ''send health notification'' e), lastNotifiedState, kv3, w4)
                  | Some (None, kv3, w4) \<Rightarrow> Some (None, currentState, kv3, w4))))))"

section \<open>Checks\<close>

text \<open>
  What the host answers during one run: \<open>Statfs\<close> as available blocks and block size, the
  mount points of the volumes, the load average, the logical cores, and whether the cached
  session of an instance is still alive.
\<close>

record host =
  ho_statfs :: "string \<Rightarrow> (int \<times> int) res"
  ho_mountpoints :: "string list"
  ho_load1 :: "rat res"
  ho_cores :: "int res"
  ho_alive :: "string \<Rightarrow> bool"
  ho_now :: gotime
  ho_end :: gotime

text \<open>\<open>HealthChecker\<close>: configuration, connection cache, ring of CPU samples, evaluator.\<close>

record HealthChecker =
  hc_dataDir :: string
  hc_backupDir :: string
  hc_dec :: "string \<Rightarrow> string res"
  hc_connections :: "string \<rightharpoonup> gotime"
  hc_cpuSamples :: "rat list"
  hc_cpuSampleIndex :: nat
  hc_cpuSampleCount :: nat
  hc_lastNotifiedState :: NotificationState

definition NewHealthChecker :: "string \<Rightarrow> string \<Rightarrow> (string \<Rightarrow> string res) \<Rightarrow> HealthChecker" where
  "NewHealthChecker dataDir backupDir dec =
     \<lparr>hc_dataDir = dataDir, hc_backupDir = backupDir, hc_dec = dec, hc_connections = Map.empty,
      hc_cpuSamples = replicate 5 0, hc_cpuSampleIndex = 0, hc_cpuSampleCount = 0,
      hc_lastNotifiedState = StateUnknown\<rparr>"

definition checkDocker :: "world \<Rightarrow> bool \<times> world" where
  "checkDocker w = (case docker_call (\<lambda>w. Inr (w, ())) w of (r, w1) \<Rightarrow> (\<not> isl r, w1))"

text \<open>The product is taken in \<open>uint64\<close> and read as \<open>int64\<close>.\<close>

definition getFreeSpaceForPath :: "host \<Rightarrow> string \<Rightarrow> int res" where
  "getFreeSpaceForPath ho path =
     (case ho_statfs ho path of Inl e \<Rightarrow> Inl e | Inr (bavail, bsize) \<Rightarrow> Inr (wrap64 (bavail * bsize)))"

definition low_space :: "host \<Rightarrow> int \<Rightarrow> string \<Rightarrow> bool" where
  "low_space ho thresholdBytes path =
     (case getFreeSpaceForPath ho path of Inl e \<Rightarrow> False | Inr free \<Rightarrow> free < thresholdBytes)"

definition getDockerVolumeMountpoints :: "host \<Rightarrow> world \<Rightarrow> string list res \<times> world" where
  "getDockerVolumeMountpoints ho w =
     docker_call (\<lambda>w. Inr (w, filter (\<lambda>m. m \<noteq> '''') (ho_mountpoints ho))) w"

definition checkDiskSpace :: "host \<Rightarrow> HealthChecker \<Rightarrow> KVStore \<Rightarrow> world \<Rightarrow> (string \<times> KVStore \<times> world) option" where
  "checkDiskSpace ho hc kv w =
     (case RequiredInt KeyDiskSpaceThresholdBytes kv w of None \<Rightarrow> None | Some (thresholdBytes, kv1, w1) \<Rightarrow>
     (case getDockerVolumeMountpoints ho w1 of (r, w2) \<Rightarrow>
        let lowSpaceAreas =
              (if low_space ho thresholdBytes (hc_backupDir hc) then [''backup''] else [])
              @ (if low_space ho thresholdBytes (hc_dataDir hc) then [''dbdir''] else [])
              @ (case r of Inl e \<Rightarrow> []
                 | Inr mounts \<Rightarrow> if list_ex (low_space ho thresholdBytes) mounts then [''volumes''] else []) in
        Some (if lowSpaceAreas = [] then '''' else ''low_space:'' @ JoinWith '','' lowSpaceAreas, kv1, w2)))"

definition getCurrentCPUUsage :: "host \<Rightarrow> rat" where
  "getCurrentCPUUsage ho =
     (case ho_load1 ho of
        Inl e \<Rightarrow> 0
      | Inr load1 \<Rightarrow>
          let numCPU = (case ho_cores ho of Inl e \<Rightarrow> 1 | Inr n \<Rightarrow> if n \<le> 0 then 1 else n) in
          (load1 / of_int numCPU) * 100)"

definition addCPUSample :: "rat \<Rightarrow> HealthChecker \<Rightarrow> HealthChecker" where
  "addCPUSample sample hc =
     hc\<lparr>hc_cpuSamples := (hc_cpuSamples hc)[hc_cpuSampleIndex hc := sample],
        hc_cpuSampleIndex := (hc_cpuSampleIndex hc + 1) mod length (hc_cpuSamples hc),
        hc_cpuSampleCount := (if hc_cpuSampleCount hc < length (hc_cpuSamples hc)
                              then hc_cpuSampleCount hc + 1 else hc_cpuSampleCount hc)\<rparr>"

definition getAverageCPU :: "HealthChecker \<Rightarrow> rat" where
  "getAverageCPU hc =
     (if hc_cpuSampleCount hc = 0 then 0
      else sum_list (take (hc_cpuSampleCount hc) (hc_cpuSamples hc)) / of_nat (hc_cpuSampleCount hc))"

definition checkCPULoad :: "host \<Rightarrow> HealthChecker \<Rightarrow> KVStore \<Rightarrow> world \<Rightarrow> (bool \<times> HealthChecker \<times> KVStore \<times> world) option" where
  "checkCPULoad ho hc kv w =
     (let hc1 = addCPUSample (getCurrentCPUUsage ho) hc in
      if hc_cpuSampleCount hc1 < 5 then Some (True, hc1, kv, w)
      else (case RequiredInt KeyCPULoadThresholdPercent kv w of
              None \<Rightarrow> None
            | Some (thresholdPercent, kv1, w1) \<Rightarrow> Some (getAverageCPU hc1 < of_int thresholdPercent, hc1, kv1, w1)))"

record HostCheckResult =
  hk_DockerOK :: bool
  hk_DiskSpaceOK :: bool
  hk_CPUOK :: bool
  hk_FailMsg :: string

definition isHealthy :: "HostCheckResult \<Rightarrow> bool" where
  "isHealthy hr \<longleftrightarrow> hk_DockerOK hr \<and> hk_DiskSpaceOK hr \<and> hk_CPUOK hr"

definition performHostChecks ::
  "host \<Rightarrow> HealthChecker \<Rightarrow> KVStore \<Rightarrow> world \<Rightarrow> (HostCheckResult \<times> HealthChecker \<times> KVStore \<times> world) option" where
  "performHostChecks ho hc kv w =
     (let result = \<lparr>hk_DockerOK = True, hk_DiskSpaceOK = True, hk_CPUOK = True, hk_FailMsg = ''''\<rparr> in
      case RequiredInt KeyHealthDebugFail kv w of None \<Rightarrow> None | Some (debugFail, kv1, w1) \<Rightarrow>
      if debugFail \<noteq> 0 then
        Some (\<lparr>hk_DockerOK = False, hk_DiskSpaceOK = False, hk_CPUOK = False, hk_FailMsg = ''debug_fail_enabled''\<rparr>, hc, kv1, w1)
      else (case checkDocker w1 of (dockerOK, w2) \<Rightarrow>
        if \<not> dockerOK then Some (result\<lparr>hk_DockerOK := False, hk_FailMsg := ''docker_unreachable''\<rparr>, hc, kv1, w2)
        else (case checkDiskSpace ho hc kv1 w2 of None \<Rightarrow> None | Some (failMsg, kv2, w3) \<Rightarrow>
          if failMsg \<noteq> '''' then Some (result\<lparr>hk_DiskSpaceOK := False, hk_FailMsg := failMsg\<rparr>, hc, kv2, w3)
          else (case checkCPULoad ho hc kv2 w3 of None \<Rightarrow> None | Some (cpuOK, hc1, kv3, w4) \<Rightarrow>
            if \<not> cpuOK then Some (result\<lparr>hk_CPUOK := False, hk_FailMsg := ''cpu_sustained_high''\<rparr>, hc1, kv3, w4)
            else Some (result, hc1, kv3, w4)))))"

section \<open>Instances\<close>

definition shortenError :: "string \<Rightarrow> string" where
  "shortenError err = (if length err > 20 then take 20 err else err)"

text \<open>\<open>entry.conn.Ping\<close> over the cached session, then a new session when it is dead.\<close>

definition conn_Ping :: "host \<Rightarrow> string \<Rightarrow> world \<Rightarrow> bool \<times> world" where
  "conn_Ping ho instanceName w = (case next_io w of (oc, w1) \<Rightarrow> (oc = Done \<and> ho_alive ho instanceName, w1))"

definition getOrCreateConnection ::
  "host \<Rightarrow> string \<Rightarrow> int \<Rightarrow> string \<Rightarrow> HealthChecker \<Rightarrow> world \<Rightarrow> goerror option \<times> HealthChecker \<times> world" where
  "getOrCreateConnection ho instanceName port password hc w =
     (let dial = (\<lambda>hc w. case pg_connect port password w of
                   (Some e, w1) \<Rightarrow> (Some e, hc, w1)
                 | (None, w1) \<Rightarrow> (None, hc\<lparr>hc_connections := (hc_connections hc)(instanceName \<mapsto> ho_now ho)\<rparr>, w1)) in
      if hc_connections hc instanceName = None then dial hc w
      else (case conn_Ping ho instanceName w of
              (True, w1) \<Rightarrow> (None, hc\<lparr>hc_connections := (hc_connections hc)(instanceName \<mapsto> ho_now ho)\<rparr>, w1)
            | (False, w1) \<Rightarrow> dial (hc\<lparr>hc_connections := (hc_connections hc)(instanceName := None)\<rparr>) w1))"

definition cleanupStaleConnections :: "gotime \<Rightarrow> int \<Rightarrow> HealthChecker \<Rightarrow> HealthChecker" where
  "cleanupStaleConnections now maxAge hc =
     hc\<lparr>hc_connections := (\<lambda>name. case hc_connections hc name of
          None \<Rightarrow> None | Some lastUsed \<Rightarrow> if lastUsed < now - maxAge then None else Some lastUsed)\<rparr>"

definition CloseInstanceConnections :: "string \<Rightarrow> HealthChecker \<Rightarrow> HealthChecker" where
  "CloseInstanceConnections instanceName hc =
     hc\<lparr>hc_connections := (hc_connections hc)(instanceName := None)\<rparr>"

definition checkInstanceHealth :: "host \<Rightarrow> RDBMSInstance \<Rightarrow> HealthChecker \<Rightarrow> world \<Rightarrow> bool \<times> HealthChecker \<times> world" where
  "checkInstanceHealth ho instance' hc w =
     (case Instances_GetDecryptedPassword (hc_dec hc) (inst_Name instance') w of
        (Inl e, w1) \<Rightarrow> (False, hc, w1)
      | (Inr password, w1) \<Rightarrow>
          (case getOrCreateConnection ho (inst_Name instance') (inst_Port instance') password hc w1 of
             (e, hc1, w2) \<Rightarrow> (e = None, hc1, w2)))"

record InstanceHealthResult =
  ih_HealthyInstances :: "string list"
  ih_BrokenInstances :: "string list"
  ih_FailMsg :: string

fun check_instances ::
  "host \<Rightarrow> RDBMSInstance list \<Rightarrow> string list \<Rightarrow> string list \<Rightarrow> string list \<Rightarrow> HealthChecker \<Rightarrow> world
     \<Rightarrow> (string list \<times> string list \<times> string list) \<times> HealthChecker \<times> world" where
  "check_instances ho [] healthy broken msgs hc w = ((healthy, broken, msgs), hc, w)"
| "check_instances ho (i # listed) healthy broken msgs hc w =
     (case Instances_Get (inst_Name i) w of
        (Inl e, w1) \<Rightarrow> check_instances ho listed healthy broken msgs hc w1
      | (Inr fresh, w1) \<Rightarrow>
          if inst_Status fresh = StatusError then
            check_instances ho listed healthy (broken @ [inst_Name fresh])
              (msgs @ [instanceErrorPrefix @ inst_Name fresh]) hc w1
          else if inst_Status fresh \<noteq> StatusRunning then
            check_instances ho listed healthy broken msgs hc w1
          else (case checkInstanceHealth ho fresh hc w1 of (ok, hc1, w2) \<Rightarrow>
            if ok then check_instances ho listed (healthy @ [inst_Name fresh]) broken msgs hc1 w2
            else check_instances ho listed healthy (broken @ [inst_Name fresh])
                   (msgs @ [''pg_ping_failed:'' @ inst_Name fresh]) hc1 w2))"

definition performInstanceChecks ::
  "host \<Rightarrow> HealthChecker \<Rightarrow> world \<Rightarrow> InstanceHealthResult \<times> HealthChecker \<times> world" where
  "performInstanceChecks ho hc w =
     (case Instances_List w of
        (Inl e, w1) \<Rightarrow>
          (\<lparr>ih_HealthyInstances = [], ih_BrokenInstances = [],
            ih_FailMsg = ''runtime_error:list_'' @ shortenError (Error e)\<rparr>, hc, w1)
      | (Inr listed, w1) \<Rightarrow>
          (case check_instances ho listed [] [] [] hc w1 of ((healthy, broken, msgs), hc1, w2) \<Rightarrow>
             (\<lparr>ih_HealthyInstances = healthy, ih_BrokenInstances = broken,
               ih_FailMsg = JoinWith '','' msgs\<rparr>, hc1, w2)))"

section \<open>A run\<close>

definition RunHealthCheck ::
  "host \<Rightarrow> notifier \<Rightarrow> HealthChecker \<Rightarrow> KVStore \<Rightarrow> world
     \<Rightarrow> (goerror option \<times> HealthChecker \<times> KVStore \<times> world) option" where
  "RunHealthCheck ho nf hc kv w =
     (case StartHealthCheck (ho_now ho) w of
        (Inl e, w1) \<Rightarrow> Some (Some (wrap ''start health check'' e), hc, kv, w1)
      | (Inr record, w1) \<Rightarrow>
     (case performHostChecks ho hc kv w1 of None \<Rightarrow> None | Some (hostResult, hc1, kv1, w2) \<Rightarrow>
     (case performInstanceChecks ho hc1 w2 of (instanceResult, hc2, w3) \<Rightarrow>
        let failMsg = JoinWith '',''
              ((if hk_FailMsg hostResult \<noteq> '''' then [hk_FailMsg hostResult] else [])
               @ (if ih_FailMsg instanceResult \<noteq> '''' then [ih_FailMsg instanceResult] else [])) in
        (case UpdateHealthCheck (hr_ID record) (isHealthy hostResult) (ih_HealthyInstances instanceResult)
                (ih_BrokenInstances instanceResult) failMsg w3 of
           (Some e, w4) \<Rightarrow> Some (Some (wrap ''update health check'' e), hc2, kv1, w4)
         | (None, w4) \<Rightarrow>
             (case EvaluateAndNotify nf (hc_lastNotifiedState hc2) kv1 w4 of None \<Rightarrow> None | Some (_, st, kv2, w5) \<Rightarrow>
                Some (None, cleanupStaleConnections (ho_end ho) (10 * ns_minute) (hc2\<lparr>hc_lastNotifiedState := st\<rparr>), kv2,
                  snd (CleanupOldRecords (ho_end ho) (3 * 24 * ns_hour) w5)))))))"

section \<open>The scheduler of checks\<close>

record HealthScheduler =
  hs_intervalSec :: int
  hs_locked :: bool
  hs_running :: bool
  hs_paused :: bool

definition NewHealthScheduler :: "int \<Rightarrow> HealthScheduler" where
  "NewHealthScheduler intervalSec = \<lparr>hs_intervalSec = intervalSec, hs_locked = False, hs_running = False, hs_paused = False\<rparr>"

text \<open>
  \<open>runHealthCheck\<close> up to the check itself and from its return; a held mutex or a pause skips
  the tick. \<open>Pause\<close> and \<open>Unpause\<close> wait for the mutex.
\<close>

definition check_begins :: "HealthScheduler \<Rightarrow> HealthScheduler option" where
  "check_begins hs =
     (if hs_locked hs then None
      else if hs_paused hs then None
      else Some (hs\<lparr>hs_locked := True, hs_running := True\<rparr>))"

definition check_ends :: "HealthScheduler \<Rightarrow> HealthScheduler" where
  "check_ends hs = hs\<lparr>hs_running := False, hs_locked := False\<rparr>"

inductive hs_step :: "HealthScheduler \<Rightarrow> HealthScheduler \<Rightarrow> bool" where
  tick_runs: "0 < hs_intervalSec hs \<Longrightarrow> check_begins hs = Some hs' \<Longrightarrow> hs_step hs hs'"
| tick_skips: "check_begins hs = None \<Longrightarrow> hs_step hs hs"
| check_done: "hs_running hs \<Longrightarrow> hs_step hs (check_ends hs)"
| Pause: "\<not> hs_locked hs \<Longrightarrow> hs_step hs (hs\<lparr>hs_paused := True\<rparr>)"
| Unpause: "\<not> hs_locked hs \<Longrightarrow> hs_step hs (hs\<lparr>hs_paused := False\<rparr>)"

text \<open>\<open>WaitForCompletion\<close> reads the flag under the mutex, so it never sees a running check.\<close>

definition WaitForCompletion_sees :: "HealthScheduler \<Rightarrow> bool option" where
  "WaitForCompletion_sees hs = (if hs_locked hs then None else Some (\<not> hs_running hs))"

section \<open>What the checks leave alone\<close>

lemma KV_Get_same: "KV_Get k kv w = Some (r, kv', w') \<Longrightarrow> same_but_io w w'"
  by (auto simp: KV_Get_def dbGet_def split: if_splits option.splits prod.splits sum.splits intro: sql_query_same)

lemma GetDisplayName_same: "GetDisplayName h kv w = Some (n, kv', w') \<Longrightarrow> same_but_io w w'"
  by (auto simp: GetDisplayName_def KV_GetWithDefault_def split: option.splits prod.splits sum.splits intro: KV_Get_same)

lemma Notifications_List_same: "Notifications_List dec w = (r, w') \<Longrightarrow> same_but_io w w'"
  by (auto simp: Notifications_List_def split: prod.splits sum.splits intro: sql_query_same)

lemma GetRecentHealthRecords_same:
  "GetRecentHealthRecords k w = (r, w') \<Longrightarrow> same_but_io w w' \<and> (\<forall>rs. r = Inr rs \<longrightarrow> rs = sql_limit k (completed w))"
proof -
  assume a: "GetRecentHealthRecords k w = (r, w')"
  obtain q w1 where q: "sql_query (\<lambda>w. sql_limit k (completed w)) w = (q, w1)" by fastforce
  then have "same_but_io w w1" by (rule sql_query_same)
  moreover from this have "completed w1 = completed w" by (simp add: completed_def same_but_io_fields)
  ultimately show "same_but_io w w' \<and> (\<forall>rs. r = Inr rs \<longrightarrow> rs = sql_limit k (completed w))"
    using a q by (auto simp: GetRecentHealthRecords_def sql_query_def split: sum.splits prod.splits if_splits)
qed

section \<open>Sending with retries\<close>

lemma retry_notices:
  "retry sd cancelled name message k w = (r, w') \<Longrightarrow>
     only_notices w w' \<and> (r = None \<longrightarrow> length (outbox w) < length (outbox w'))"
proof (induction k arbitrary: w)
  case 0
  obtain q w1 where s: "Send sd name ''ODDK Health Status'' message w = (q, w1)" by fastforce
  then show ?case using 0 Send_notices[OF s] by (auto simp: retry.simps split: option.splits)
next
  case (Suc k)
  obtain q w1 where s: "Send sd name ''ODDK Health Status'' message w = (q, w1)" by fastforce
  note f = Send_notices[OF s]
  show ?case
  proof (cases "q = None \<or> cancelled (Suc k)")
    case True
    then show ?thesis using Suc.prems s f by (auto simp: retry.simps split: option.splits)
  next
    case False
    then have "retry sd cancelled name message k w1 = (r, w')"
      using Suc.prems s by (auto simp: retry.simps split: option.splits)
    note g = Suc.IH[OF this]
    have "prefix (outbox w) (outbox w1)" using f(1) by (simp add: only_notices_def)
    then show ?thesis using f(1) g only_notices_trans prefix_length_le by fastforce
  qed
qed

lemma send_channels_notices:
  "send_channels sd cancelled message ns s last' w = (s', l, w') \<Longrightarrow>
     only_notices w w' \<and> s \<le> s' \<and> length (outbox w) + (s' - s) \<le> length (outbox w')
     \<and> (s' = s \<and> (ns \<noteq> [] \<or> last' \<noteq> None) \<longrightarrow> l \<noteq> None)"
proof (induction ns arbitrary: s last' w)
  case (Cons n ns)
  obtain r w1 where r: "sendWithRetries sd (cancelled (nt_Name n)) (nt_Name n) message w = (r, w1)" by fastforce
  note f = retry_notices[OF r[unfolded sendWithRetries_def]]
  have p: "prefix (outbox w) (outbox w1)" using f by (simp add: only_notices_def)
  show ?case
  proof (cases r)
    case None
    then have "send_channels sd cancelled message ns (s + 1) last' w1 = (s', l, w')" using Cons.prems r by simp
    note g = Cons.IH[OF this]
    have "length (outbox w) < length (outbox w1)" using f None by simp
    moreover have "only_notices w w'" using f g only_notices_trans by blast
    ultimately show ?thesis using g by auto
  next
    case (Some e)
    then have "send_channels sd cancelled message ns s (Some e) w1 = (s', l, w')" using Cons.prems r by simp
    note g = Cons.IH[OF this]
    have "length (outbox w) \<le> length (outbox w1)" using p by (rule prefix_length_le)
    moreover have "only_notices w w'" using f g only_notices_trans by blast
    ultimately show ?thesis using g by auto
  qed
qed simp

lemma sendHealthNotification_notices:
  assumes "sendHealthNotification nf t r kv w = Some (e, kv', w')"
  shows "only_notices w w'" "e = None \<Longrightarrow> notifications w = [] \<or> length (outbox w) < length (outbox w')"
proof -
  obtain q w1 where l: "Notifications_List (sd_dec (hn_sender nf)) w = (q, w1)" by fastforce
  note io = Notifications_List_same[OF l]
  have empty: "q = Inr [] \<Longrightarrow> notifications w = []"
  proof -
    assume q: "q = Inr []"
    have d: "decrypt_rows dec ns = Inr [] \<Longrightarrow> ns = []" for dec ns by (cases ns) (auto split: sum.splits)
    have "order_by nt_Name (notifications w1) = []"
      using l q by (auto simp: Notifications_List_def sql_query_def next_io_def dest!: d split: prod.splits sum.splits if_splits list.splits)
    then have "notifications w1 = []" by (metis set_empty set_order_by)
    then show ?thesis using same_but_io_fields[OF io] by simp
  qed
  have "only_notices w w' \<and> (e = None \<longrightarrow> notifications w = [] \<or> length (outbox w) < length (outbox w'))"
  proof (cases "\<exists>ns. q = Inr ns \<and> ns \<noteq> []")
    case False
    then show ?thesis using assms l empty only_notices_io[OF io]
      by (cases q) (auto simp: sendHealthNotification_def)
  next
    case True
    then obtain ns where ns: "q = Inr ns" "ns \<noteq> []" by blast
    obtain dn kv1 w2 where d: "GetDisplayName (hn_Hostname nf) kv w1 = Some (dn, kv1, w2)"
      using assms l ns by (auto simp: sendHealthNotification_def split: option.splits)
    obtain s le where s: "send_channels (hn_sender nf) (hn_cancelled nf) (buildNotificationMessage (hn_fmt_unix nf) dn t r) ns 0 None w2
        = (s, le, w')" "e = (if s = 0 then map_option (wrap ''all notification channels failed'') le else None)"
      using assms l ns d by (auto simp: sendHealthNotification_def split: prod.splits)
    note io2 = same_but_io_trans[OF io GetDisplayName_same[OF d]]
    note c = send_channels_notices[OF s(1)]
    show ?thesis
      using c s(2) ns only_notices_trans[OF only_notices_io[OF io2]] same_but_io_fields[OF io2] by auto
  qed
  then show "only_notices w w'" "e = None \<Longrightarrow> notifications w = [] \<or> length (outbox w) < length (outbox w')" by blast+
qed

section \<open>The evaluator as a state machine\<close>

text \<open>
  The specification: which state has been announced after a run, given the completed records
  newest first. A degradation needs \<open>d\<close> failed records in a row, a recovery follows an
  announced degradation after \<open>r\<close> good ones, and everything else changes nothing.
\<close>

definition newest_all :: "(HealthRecord \<Rightarrow> bool) \<Rightarrow> int \<Rightarrow> HealthRecord list \<Rightarrow> bool" where
  "newest_all p n rs \<longleftrightarrow> n \<le> int (length rs) \<and> list_all p (take (nat n) rs)"

definition announced :: "int \<Rightarrow> int \<Rightarrow> NotificationState \<Rightarrow> HealthRecord list \<Rightarrow> NotificationState" where
  "announced d r s rs =
     (if newest_all (\<lambda>x. \<not> hr_HealthyAll x) d rs then StateDegraded
      else if s = StateDegraded \<and> newest_all hr_HealthyAll r rs then StateHealthy
      else s)"

lemma newest_all_limit: "n \<le> m \<Longrightarrow> 0 < m \<Longrightarrow> newest_all p n (sql_limit m rs) = newest_all p n rs"
  by (auto simp: newest_all_def sql_limit_def min_def nat_le_iff)

lemma evaluateHealthState_newest:
  "evaluateHealthState rs d r =
     (if rs = [] then StateUnknown
      else if newest_all (\<lambda>x. \<not> hr_HealthyAll x) d rs then StateDegraded
      else if newest_all hr_HealthyAll r rs then StateHealthy else StateUnknown)"
  by (simp add: evaluateHealthState_def newest_all_def)

text \<open>The announcement to make, if any, is the step of the specification.\<close>

lemma shouldSend_announced:
  assumes "0 < d" "0 < r" "rs \<noteq> []"
  shows "case shouldSendNotification s (evaluateHealthState rs d r) of
      None \<Rightarrow> announced d r s rs = s
    | Some t \<Rightarrow> announced d r s rs = evaluateHealthState rs d r \<and> announced d r s rs \<noteq> s"
  using assms(3)
  by (auto simp: shouldSendNotification_def evaluateHealthState_newest announced_def
      split: NotificationState.splits if_splits)

lemma announced_none: "0 < d \<Longrightarrow> 0 < r \<Longrightarrow> announced d r s [] = s"
  by (simp add: announced_def newest_all_def)

text \<open>
  C40. The health evaluator announces a degradation when, and only when, the newest
  \<open>degraded_threshold\<close> completed records all failed, and a recovery only after an announced
  degradation when the newest \<open>restored_threshold\<close> ones are all good; in-progress records do
  not count. It remembers an announcement only when a channel took it (or none is configured),
  so that a failed delivery is tried again at the next run; while nothing changes it sends
  nothing; and it changes nothing but the outbox and the delivery log.
\<close>

theorem EvaluateAndNotify_announces:
  assumes "RequiredInt KeyHealthDegradedThreshold kv w = Some (d, kv1, w1)"
    and "RequiredInt KeyHealthRestoredThreshold kv1 w1 = Some (r, kv2, w2)" and "0 < d" "0 < r"
    and "EvaluateAndNotify nf s kv w = Some (e, s', kv', w')"
  shows "s' = (if e = None then announced d r s (completed w) else s)
    \<and> (s' \<noteq> s \<longrightarrow> notifications w = [] \<or> length (outbox w) < length (outbox w'))
    \<and> (announced d r s (completed w) = s \<longrightarrow> outbox w' = outbox w)
    \<and> only_notices w w'"
proof -
  obtain q w3 where g: "GetRecentHealthRecords (max d r) w2 = (q, w3)" by fastforce
  note io = same_but_io_trans[OF same_but_io_trans[OF RequiredInt_same(1)[OF assms(1)] RequiredInt_same(1)[OF assms(2)]]
      conjunct1[OF GetRecentHealthRecords_same[OF g]]]
  have c: "completed w2 = completed w"
    using same_but_io_trans[OF RequiredInt_same(1)[OF assms(1)] RequiredInt_same(1)[OF assms(2)]]
    by (simp add: completed_def same_but_io_fields)
  note fr = only_notices_io[OF io] same_but_io_fields[OF io]
  show ?thesis
  proof (cases q)
    case (Inl x)
    then have "e = Some (wrap ''get recent health records'' x)" "s' = s" "w' = w3"
      using assms(1,2,5) g by (simp_all add: EvaluateAndNotify_def)
    then show ?thesis using only_notices_io[OF io] same_but_io_fields(30)[OF io] by simp
  next
    case (Inr rs)
    have rs: "rs = sql_limit (max d r) (completed w)"
      using conjunct2[OF GetRecentHealthRecords_same[OF g], rule_format, OF Inr] unfolding c .
    have lim: "newest_all p n rs = newest_all p n (completed w)" if "n = d \<or> n = r" for p n
      unfolding rs by (rule newest_all_limit) (use that assms(3) in linarith)+
    have an: "announced d r s rs = announced d r s (completed w)" by (simp add: announced_def lim)
    show ?thesis
    proof (cases "rs = []")
      case True
      then show ?thesis
        using assms(1,2,5) g fr Inr an announced_none[OF assms(3,4)] by (simp add: EvaluateAndNotify_def)
    next
      case False
      note sh = shouldSend_announced[OF assms(3,4) False, of s]
      show ?thesis
      proof (cases "shouldSendNotification s (evaluateHealthState rs d r)")
        case None
        then show ?thesis using assms(1,2,5) g fr Inr False sh an by (simp add: EvaluateAndNotify_def)
      next
        case (Some t)
        obtain x where x: "sendHealthNotification nf t (hd rs) kv2 w3 = Some (x, kv', w')"
          "e = map_option (wrap ''send health notification'') x" "s' = (if x = None then evaluateHealthState rs d r else s)"
          using assms(1,2,5) g Inr False Some
          by (auto simp: EvaluateAndNotify_def Let_def split: option.splits)
        note n = sendHealthNotification_notices[OF x(1)]
        have "only_notices w w'" using fr(1) n(1) by (rule only_notices_trans)
        then show ?thesis using n(2) x(2,3) sh Some an fr by auto
      qed
    qed
  qed
qed

section \<open>The ring of CPU samples\<close>

text \<open>After any number of samples the average is that of the last five (or of all, when fewer).\<close>

definition sampled :: "rat list \<Rightarrow> HealthChecker \<Rightarrow> HealthChecker" where
  "sampled xs hc = foldl (\<lambda>h x. addCPUSample x h) hc xs"

lemma mod5_inj:
  assumes "i mod 5 = j mod 5" "i \<le> j" "j < i + 5"
  shows "i = (j :: nat)"
proof -
  have "5 dvd j - i" using assms(1,2) mod_eq_dvd_iff_nat[of i j 5] by metis
  moreover have "j - i < 5" using assms(3) by simp
  ultimately have "j - i = 0" using nat_dvd_not_less by blast
  then show ?thesis using assms(2) by simp
qed

lemma sampled_ring:
  fixes dataDir backupDir dec
  defines "h xs \<equiv> sampled xs (NewHealthChecker dataDir backupDir dec)"
  shows "length (hc_cpuSamples (h xs)) = 5 \<and> hc_cpuSampleIndex (h xs) = length xs mod 5
    \<and> hc_cpuSampleCount (h xs) = min 5 (length xs)
    \<and> (\<forall>i. length xs - 5 \<le> i \<and> i < length xs \<longrightarrow> hc_cpuSamples (h xs) ! (i mod 5) = xs ! i)"
proof (induction xs rule: rev_induct)
  case Nil
  then show ?case by (simp add: h_def sampled_def NewHealthChecker_def)
next
  case (snoc x xs)
  have s: "h (xs @ [x]) = addCPUSample x (h xs)" by (simp add: h_def sampled_def)
  have slot: "hc_cpuSamples (addCPUSample x (h xs)) ! (i mod 5) = (xs @ [x]) ! i"
    if i: "length (xs @ [x]) - 5 \<le> i" "i < length (xs @ [x])" for i
  proof (cases "i = length xs")
    case True
    then show ?thesis using snoc by (simp add: addCPUSample_def)
  next
    case False
    moreover have "i \<le> length xs" "length xs < i + 5" using i by auto
    ultimately have "i mod 5 \<noteq> length xs mod 5" using mod5_inj[of i "length xs"] by blast
    then show ?thesis using snoc i False by (auto simp: addCPUSample_def nth_append)
  qed
  show ?case
    unfolding s using slot conjunct1[OF snoc] conjunct1[OF conjunct2[OF snoc]] conjunct1[OF conjunct2[OF conjunct2[OF snoc]]]
    by (auto simp: addCPUSample_def mod_Suc_eq)
qed

theorem getAverageCPU_last_five:
  assumes "xs \<noteq> []"
  shows "getAverageCPU (sampled xs (NewHealthChecker dataDir backupDir dec))
    = sum_list (drop (length xs - 5) xs) / of_nat (min 5 (length xs))"
proof -
  define b where "b = hc_cpuSamples (sampled xs (NewHealthChecker dataDir backupDir dec))"
  note r = sampled_ring[of xs dataDir backupDir dec, folded b_def]
  let ?n = "length xs" let ?m = "min 5 (length xs)"
  have bij: "bij_betw (\<lambda>i. i mod 5) {?n - 5..<?n} {..<?m}"
  proof (rule bij_betw_imageI)
    show inj: "inj_on (\<lambda>i. i mod 5) {?n - 5..<?n}"
    proof (rule linorder_inj_onI)
      fix i j :: nat
      assume "i < j" "i \<in> {?n - 5..<?n}" "j \<in> {?n - 5..<?n}"
      then show "i mod 5 \<noteq> j mod 5" using mod5_inj[of i j] by fastforce
    qed auto
    show "(\<lambda>i. i mod 5) ` {?n - 5..<?n} = {..<?m}"
    proof (rule card_seteq)
      show "(\<lambda>i. i mod 5) ` {?n - 5..<?n} \<subseteq> {..<?m}" by (auto intro: le_less_trans[OF mod_less_eq_dividend])
      show "card {..<?m} \<le> card ((\<lambda>i. i mod 5) ` {?n - 5..<?n})" using card_image[OF inj] by auto
    qed simp
  qed
  have "sum_list (take ?m b) = (\<Sum>j<?m. b ! j)"
    using r by (subst sum_list_sum_nth) (auto simp: atLeast0LessThan intro!: sum.cong)
  also have "\<dots> = (\<Sum>i\<in>{?n - 5..<?n}. b ! (i mod 5))" by (rule sum.reindex_bij_betw[OF bij, symmetric])
  also have "\<dots> = (\<Sum>i\<in>{?n - 5..<?n}. xs ! i)" by (rule sum.cong) (use r in auto)
  also have "\<dots> = (\<Sum>i<?m. drop (?n - 5) xs ! i)"
    by (rule sum.reindex_bij_witness[where i = "\<lambda>i. i + (?n - 5)" and j = "\<lambda>i. i - (?n - 5)"]) auto
  also have "\<dots> = sum_list (drop (?n - 5) xs)"
    by (subst sum_list_sum_nth) (auto simp: atLeast0LessThan min_def intro!: sum.cong)
  finally show ?thesis using r assms by (auto simp: getAverageCPU_def b_def)
qed

section \<open>The scheduler of checks\<close>

lemma hs_step_invariant:
  assumes "hs_step\<^sup>*\<^sup>* (NewHealthScheduler n) hs"
  shows "(hs_running hs \<longleftrightarrow> hs_locked hs) \<and> \<not> (hs_running hs \<and> hs_paused hs) \<and> (n \<le> 0 \<longrightarrow> \<not> hs_running hs) \<and> hs_intervalSec hs = n"
  using assms
  by (induction rule: rtranclp_induct)
    (auto simp: NewHealthScheduler_def check_begins_def check_ends_def elim!: hs_step.cases split: if_splits)

text \<open>
  Once \<open>Pause\<close> has returned no check is running, and \<open>WaitForCompletion\<close> never sees one: it
  takes the mutex first, which a running check holds to its end. Its timeout therefore does
  not bound the wait.
\<close>

theorem WaitForCompletion_never_sees_running:
  assumes "hs_step\<^sup>*\<^sup>* (NewHealthScheduler n) hs"
  shows "WaitForCompletion_sees hs \<noteq> Some False \<and> (hs_running hs \<longrightarrow> WaitForCompletion_sees hs = None)"
  using hs_step_invariant[OF assms] by (auto simp: WaitForCompletion_sees_def)

section \<open>What a completed record says\<close>

text \<open>An instance answers when its cached session does or when a container of it accepts its password.\<close>

definition answers :: "host \<Rightarrow> (string \<Rightarrow> string res) \<Rightarrow> world \<Rightarrow> RDBMSInstance \<Rightarrow> bool" where
  "answers ho dec w i \<longleftrightarrow> ho_alive ho (inst_Name i)
     \<or> (\<exists>password. dec (inst_Password i) = Inr password \<and> (\<exists>c \<in> set (containers w). pg_answers (inst_Port i) password w c))"

lemma Instances_Get_calm:
  assumes "io_schedule w = []" "distinct (map inst_Name (rdbms_instances w))" "i \<in> set (rdbms_instances w)"
  shows "Instances_Get (inst_Name i) w = (Inr i, w)"
proof -
  have "find (\<lambda>j. inst_Name j = inst_Name i) (rdbms_instances w) = Some i"
    by (rule find_unique) (use assms(2,3) distinct_row[of inst_Name] in auto)
  then show ?thesis using assms(1) by (simp add: Instances_Get_def calm_primitives)
qed

lemma checkInstanceHealth_calm:
  assumes "io_schedule w = []" "distinct (map inst_Name (rdbms_instances w))" "i \<in> set (rdbms_instances w)"
    and "checkInstanceHealth ho i hc w = (ok, hc', w')"
  shows "w' = w" "hc_dec hc' = hc_dec hc" "ok \<Longrightarrow> answers ho (hc_dec hc) w i"
  using assms(1,4) Instances_Get_calm[OF assms(1-3)]
  by (auto simp: checkInstanceHealth_def Instances_GetDecryptedPassword_def getOrCreateConnection_def Let_def
      conn_Ping_def pg_connect_def next_io_calm answers_def list_ex_iff split: sum.splits if_splits bool.splits prod.splits option.splits)

lemma check_instances_calm:
  assumes "io_schedule w = []" "distinct (map inst_Name (rdbms_instances w))"
  shows "check_instances ho l healthy broken msgs hc w = ((healthy', broken', msgs'), hc', w') \<Longrightarrow>
    set l \<subseteq> set (rdbms_instances w) \<Longrightarrow>
    w' = w \<and> set healthy \<subseteq> set healthy' \<and> set broken \<subseteq> set broken'
    \<and> (\<forall>i \<in> set l. (inst_Status i = StatusError \<longrightarrow> inst_Name i \<in> set broken')
        \<and> (inst_Status i = StatusRunning \<longrightarrow> inst_Name i \<in> set broken' \<or> answers ho (hc_dec hc) w i))"
proof (induction l arbitrary: healthy broken msgs hc)
  case (Cons i l)
  have mem: "i \<in> set (rdbms_instances w)" "set l \<subseteq> set (rdbms_instances w)" using Cons.prems(2) by auto
  have apart: "StatusError \<noteq> StatusRunning" by simp
  obtain ok hc1 w1 where c: "checkInstanceHealth ho i hc w = (ok, hc1, w1)" by (cases "checkInstanceHealth ho i hc w") auto
  note cc = checkInstanceHealth_calm[OF assms mem(1) c]
  show ?case
  proof (cases "inst_Status i = StatusRunning")
    case True
    define h b m where "h = (if ok then healthy @ [inst_Name i] else healthy)"
      and "b = (if ok then broken else broken @ [inst_Name i])"
      and "m = (if ok then msgs else msgs @ [''pg_ping_failed:'' @ inst_Name i])"
    have r: "check_instances ho l h b m hc1 w = ((healthy', broken', msgs'), hc', w')"
      "set healthy \<subseteq> set h" "set broken \<subseteq> set b" "ok \<or> inst_Name i \<in> set b"
      using True Cons.prems(1) Instances_Get_calm[OF assms mem(1)] c cc(1) apart
      by (auto simp: h_def b_def m_def split: if_splits)
    show ?thesis using Cons.IH[OF r(1) mem(2)] r cc(2,3) True apart by auto
  next
    case False
    define b m where "b = (if inst_Status i = StatusError then broken @ [inst_Name i] else broken)"
      and "m = (if inst_Status i = StatusError then msgs @ [instanceErrorPrefix @ inst_Name i] else msgs)"
    have r: "check_instances ho l healthy b m hc w = ((healthy', broken', msgs'), hc', w')"
      "set broken \<subseteq> set b" "inst_Status i = StatusError \<longrightarrow> inst_Name i \<in> set b"
      using False Cons.prems(1) Instances_Get_calm[OF assms mem(1)] by (auto simp: b_def m_def split: if_splits)
    show ?thesis using Cons.IH[OF r(1) mem(2)] r False by auto
  qed
qed simp

lemma performInstanceChecks_calm:
  assumes "io_schedule w = []" "distinct (map inst_Name (rdbms_instances w))"
    and "performInstanceChecks ho hc w = (res, hc', w')"
  shows "w' = w" "ih_BrokenInstances res = [] \<Longrightarrow> i \<in> set (rdbms_instances w) \<Longrightarrow>
    inst_Status i \<noteq> StatusError \<and> (inst_Status i = StatusRunning \<longrightarrow> answers ho (hc_dec hc) w i)"
proof -
  obtain h b m hc1 w1 where c: "check_instances ho (rdbms_instances w) [] [] [] hc w = ((h, b, m), hc1, w1)"
    by (metis prod.exhaust)
  have r: "ih_BrokenInstances res = b" "w' = w1"
    using assms(1,3) c by (auto simp: performInstanceChecks_def Instances_List_def calm_primitives)
  note k = check_instances_calm[OF assms(1,2) c subset_refl]
  show "w' = w" using r k by simp
  show "inst_Status i \<noteq> StatusError \<and> (inst_Status i = StatusRunning \<longrightarrow> answers ho (hc_dec hc) w i)"
    if "ih_BrokenInstances res = []" "i \<in> set (rdbms_instances w)"
    using k that r(1) by auto
qed

lemma performHostChecks_calm:
  assumes "io_schedule w = []" "performHostChecks ho hc kv w = Some (res, hc', kv', w')"
  shows "w' = w" "hc_dec hc' = hc_dec hc"
proof -
  have d: "docker_call (\<lambda>w. Inr (w, x)) w = (Inr x, w)" for x using assms(1) by (simp add: docker_call_def next_io_calm)
  have "w' = w \<and> hc_dec hc' = hc_dec hc"
    using assms(2)
    by (auto simp: performHostChecks_def checkDocker_def checkDiskSpace_def checkCPULoad_def Let_def d
        getDockerVolumeMountpoints_def addCPUSample_def dest!: RequiredInt_same(2)[OF _ assms(1)]
        split: option.splits if_splits prod.splits)
  then show "w' = w" "hc_dec hc' = hc_dec hc" by blast+
qed

lemma EvaluateAndNotify_health:
  assumes "EvaluateAndNotify nf s kv w = Some (e, s', kv', w')"
  shows "health w' = health w"
proof -
  obtain d kv1 w1 where d: "RequiredInt KeyHealthDegradedThreshold kv w = Some (d, kv1, w1)"
    using assms by (auto simp: EvaluateAndNotify_def split: option.splits)
  obtain r kv2 w2 where r: "RequiredInt KeyHealthRestoredThreshold kv1 w1 = Some (r, kv2, w2)"
    using assms d by (auto simp: EvaluateAndNotify_def split: option.splits)
  obtain q w3 where g: "GetRecentHealthRecords (max d r) w2 = (q, w3)" by fastforce
  have "same_but_io w w3"
    using RequiredInt_same(1)[OF d] RequiredInt_same(1)[OF r] conjunct1[OF GetRecentHealthRecords_same[OF g]]
    by (blast intro: same_but_io_trans)
  then have h: "health w3 = health w" by (rule same_but_io_fields)
  have "w' = w3 \<or> (\<exists>t l x. sendHealthNotification nf t l kv2 w3 = Some (x, kv', w'))"
    using assms d r g by (auto simp: EvaluateAndNotify_def Let_def split: sum.splits option.splits if_splits)
  then show ?thesis using h sendHealthNotification_notices(1) only_notices_fields(1) by metis
qed

lemma CleanupOldRecords_keeps:
  "r \<in> set (health w) \<Longrightarrow> Unix (now + wrap64 (- d)) \<le> hr_TsUnix r \<Longrightarrow> r \<in> set (health (snd (CleanupOldRecords now d w)))"
  by (auto simp: CleanupOldRecords_def sql_exec_def next_io_def Let_def split: prod.splits sum.splits outcome.splits list.splits)

text \<open>
  With the store answering, a run that completes leaves a finished record, and a record that
  says all is healthy was taken on a healthy host with no instance in \<open>error\<close> and every
  running instance answering.
\<close>

theorem RunHealthCheck_green_is_healthy:
  assumes "RunHealthCheck ho nf hc kv w = Some (None, hc', kv', w')" "io_schedule w = []"
    and "\<forall>r \<in> set (health w). hr_ID r \<le> health_seq w" "distinct (map inst_Name (rdbms_instances w))"
    and "ho_end ho - 3 * 24 * ns_hour \<le> ho_now ho"
  shows "\<exists>r \<in> set (health w'). hr_ID r = health_seq w + 1 \<and> \<not> hr_InProgress r
    \<and> (hr_HealthyAll r \<longrightarrow> hr_HealthyHost r
        \<and> (\<forall>i \<in> set (rdbms_instances w). inst_Status i \<noteq> StatusError
             \<and> (inst_Status i = StatusRunning \<longrightarrow> answers ho (hc_dec hc) w i)))"
proof -
  let ?n = "health_seq w + 1"
  obtain r1 w1 where s: "StartHealthCheck (ho_now ho) w = (Inr r1, w1)"
    using assms(1) by (auto simp: RunHealthCheck_def split: sum.splits prod.splits)
  have w1: "hr_ID r1 = ?n" "io_schedule w1 = []" "rdbms_instances w1 = rdbms_instances w" "containers w1 = containers w"
    "volumes w1 = volumes w" "\<exists>q. health w1 = health w @ [q] \<and> hr_ID q = ?n \<and> hr_TsUnix q = Unix (ho_now ho)"
    using s assms(2) by (auto simp: StartHealthCheck_def Let_def calm_primitives)
  obtain host hc1 kv1 w2 where h: "performHostChecks ho hc kv w1 = Some (host, hc1, kv1, w2)"
    using assms(1) s by (auto simp: RunHealthCheck_def split: option.splits)
  obtain res hc2 w3 where p: "performInstanceChecks ho hc1 w2 = (res, hc2, w3)" by (metis prod.exhaust)
  note hh = performHostChecks_calm[OF w1(2) h]
  have w2: "io_schedule w2 = []" "distinct (map inst_Name (rdbms_instances w2))" using hh(1) w1 assms(4) by simp_all
  note pp = performInstanceChecks_calm[OF w2 p]
  obtain msg w4 where u: "UpdateHealthCheck ?n (isHealthy host) (ih_HealthyInstances res) (ih_BrokenInstances res) msg w3 = (None, w4)"
    and e: "\<exists>x st kv2 w5. EvaluateAndNotify nf (hc_lastNotifiedState hc2) kv1 w4 = Some (x, st, kv2, w5)
      \<and> w' = snd (CleanupOldRecords (ho_end ho) (3 * 24 * ns_hour) w5)"
    using assms(1) s h p w1(1) by (auto simp: RunHealthCheck_def Let_def split: option.splits prod.splits)
  have a: "answers ho (hc_dec hc1) w2 = answers ho (hc_dec hc) w"
    using hh w1(4,5) by (auto simp: answers_def pg_answers_def fun_eq_iff)
  let ?r = "\<lambda>q. q\<lparr>hr_InProgress := False, hr_HealthyAll := isHealthy host \<and> ih_BrokenInstances res = [],
      hr_HealthyHost := isHealthy host, hr_HealthyInstances := JoinWith '','' (ih_HealthyInstances res),
      hr_BrokenInstances := JoinWith '','' (ih_BrokenInstances res), hr_FailDetails := msg\<rparr>"
  obtain q where q: "q \<in> set (health w1)" "hr_ID q = ?n" "hr_TsUnix q = Unix (ho_now ho)" using w1(6) by force
  have "health w4 = upd_where (\<lambda>r. hr_ID r = ?n) ?r (health w1)"
    using u pp(1) hh(1) w1(2) by (auto simp: UpdateHealthCheck_def Let_def update_health_def calm_primitives)
  then have r4: "?r q \<in> set (health w4)" using q by (auto simp: in_upd_where)
  obtain x st kv2 w5 where e5: "EvaluateAndNotify nf (hc_lastNotifiedState hc2) kv1 w4 = Some (x, st, kv2, w5)"
    "w' = snd (CleanupOldRecords (ho_end ho) (3 * 24 * ns_hour) w5)" using e by blast
  have "?r q \<in> set (health w5)" using r4 EvaluateAndNotify_health[OF e5(1)] by simp
  moreover have "Unix (ho_end ho + wrap64 (- (3 * 24 * ns_hour))) \<le> Unix (ho_now ho)"
    using assms(5) by (simp add: Unix_def ns_hour_def ns_second_def wrap64_def zdiv_mono1)
  ultimately have "?r q \<in> set (health w')" using q(3) e5(2) CleanupOldRecords_keeps by simp
  moreover have "inst_Status i \<noteq> StatusError \<and> (inst_Status i = StatusRunning \<longrightarrow> answers ho (hc_dec hc) w i)"
    if "ih_BrokenInstances res = []" "i \<in> set (rdbms_instances w)" for i
    using pp(2)[of i] that hh(1) w1(3) a by simp
  ultimately show ?thesis by (intro bexI[of _ "?r q"]) (use q(2) in auto)
qed

text \<open>
  A failed read of the catalogue leaves no broken instance to report, so that on a healthy
  host the run is recorded as healthy although no instance was looked at.
\<close>

lemma unread_catalogue_is_green:
  assumes "Instances_List w = (Inl e, w1)" "performInstanceChecks ho hc w = (res, hc', w')"
  shows "ih_BrokenInstances res = [] \<and> ih_FailMsg res \<noteq> ''''"
  using assms by (auto simp: performInstanceChecks_def)

section \<open>A witness\<close>

definition demo_failed :: "int \<Rightarrow> HealthRecord" where
  "demo_failed n = \<lparr>hr_ID = n, hr_TsUnix = 60 * n, hr_InProgress = False, hr_HealthyAll = False, hr_HealthyHost = True,
     hr_HealthyInstances = '''', hr_BrokenInstances = ''main'', hr_FailDetails = ''pg_ping_failed:main''\<rparr>"

definition demo_health_world :: world where
  "demo_health_world = empty_world\<lparr>health := [demo_failed 1, demo_failed 2, demo_failed 3], health_seq := 3,
     notifications := [\<lparr>nt_Name = ''ops'', nt_Type = ''webhook'', nt_Config = ''{}'', nt_CreatedAt = 1, nt_UpdatedAt = 1\<rparr>]\<rparr>"

definition demo_codec :: codec where
  "demo_codec = \<lparr>un_email = (\<lambda>_. Inl (DriverError ''json'')), un_slack = (\<lambda>_. Inl (DriverError ''json'')),
     un_telegram = (\<lambda>_. Inl (DriverError ''json'')), un_webhook = (\<lambda>_. Inr (''http://hook'', ''plain'', '''')),
     marshal_object = (\<lambda>k v. Inr v), query_escape = (\<lambda>s. s), form_encode = (\<lambda>k v. v), new_telegram = (\<lambda>_. None)\<rparr>"

definition demo_notifier :: notifier where
  "demo_notifier = \<lparr>hn_sender = \<lparr>sd_codec = demo_codec, sd_dec = Inr, sd_now = 7\<rparr>, hn_fmt_unix = Itoa,
     hn_Hostname = Inr ''db1'', hn_cancelled = (\<lambda>_ _. False)\<rparr>"

theorem EvaluateAndNotify_announces_witness:
  "\<exists>e s' kv' w'. EvaluateAndNotify demo_notifier StateUnknown demo_kv demo_health_world = Some (e, s', kv', w')
     \<and> s' = StateDegraded \<and> outbox w' \<noteq> [] \<and> health w' = [demo_failed 1, demo_failed 2, demo_failed 3]"
proof -
  define res where "res = EvaluateAndNotify demo_notifier StateUnknown demo_kv demo_health_world"
  have "map_option fst res = Some None" unfolding res_def by code_simp
  then obtain s' kv' w' where r: "res = Some (None, s', kv', w')" using map_fst_Some by fastforce
  have t: "RequiredInt KeyHealthDegradedThreshold demo_kv demo_health_world = Some (3, demo_kv, demo_health_world)"
    "RequiredInt KeyHealthRestoredThreshold demo_kv demo_health_world = Some (2, demo_kv, demo_health_world)"
    by (simp_all add: RequiredInt_def KV_GetInt_def demo_kv_def dbGet_def calm_primitives demo_health_world_def
        empty_world_def systemIntDefaults_def KeyHealthDegradedThreshold_def KeyHealthRestoredThreshold_def kv_row_def)
  have a: "announced 3 2 StateUnknown (completed demo_health_world) = StateDegraded" by code_simp
  note p = EvaluateAndNotify_announces[OF t _ _ r[unfolded res_def], simplified a, simplified]
  have f: "health w' = health demo_health_world" using p by (simp add: only_notices_fields)
  have n: "notifications demo_health_world \<noteq> []" "outbox demo_health_world = []"
    "health demo_health_world = [demo_failed 1, demo_failed 2, demo_failed 3]"
    by (simp_all add: demo_health_world_def empty_world_def)
  show ?thesis
    by (intro exI[of _ None] exI[of _ s'] exI[of _ kv'] exI[of _ w']) (use p f n r in \<open>auto simp: res_def\<close>)
qed

end
