(* ===== verification/Reconcile.thy ===== *)
theory Reconcile
  imports InstanceStore
begin

text \<open>
  Start-up reconciliation of instance statuses, \<open>internal/daemon/reconcile.go\<close>, over the two
  Docker client methods it calls (\<open>internal/docker/client.go\<close>). The Docker engine API is a
  parameter: \<open>ContainerInspect\<close> answers from the engine's state, \<open>NetworkConnect\<close> may
  change it. A log line is the constructor of its format string.
\<close>

section \<open>The Docker client\<close>

record container_state =
  st_Paused :: bool
  st_Restarting :: bool
  st_Running :: bool

record container_info =
  ci_State :: "container_state option"
  ci_Networks :: "string list option"

datatype inspect_result = InspectNotFound | InspectFailed string | Inspected container_info

record 'd docker_cli =
  ContainerInspect :: "string \<Rightarrow> 'd \<Rightarrow> inspect_result"
  NetworkConnect :: "string \<Rightarrow> string \<Rightarrow> 'd \<Rightarrow> goerror option \<times> 'd"

abbreviation OddkNetworkName :: string where "OddkNetworkName \<equiv> ''oddk-bridge''"

definition GetContainerStatus :: "'d docker_cli \<Rightarrow> string \<Rightarrow> 'd \<Rightarrow> string res" where
  "GetContainerStatus cli cid d =
     (case ContainerInspect cli cid d of
        InspectNotFound \<Rightarrow> Inr ''not found''
      | InspectFailed m \<Rightarrow> Inl (wrap ''inspect container'' (DriverError m))
      | Inspected info \<Rightarrow>
          (case ci_State info of
             None \<Rightarrow> Inl (Errorf0 (''inspect container: no state reported for '' @ cid))
           | Some st \<Rightarrow>
               if st_Paused st then Inr ''paused''
               else if st_Restarting st then Inr ''restarting''
               else if st_Running st then Inr ''running''
               else Inr ''stopped''))"

definition EnsureContainerOnNetwork :: "'d docker_cli \<Rightarrow> string \<Rightarrow> 'd \<Rightarrow> bool res \<times> 'd" where
  "EnsureContainerOnNetwork cli cid d =
     (case ContainerInspect cli cid d of
        InspectNotFound \<Rightarrow> (Inl (wrap ''inspect container'' (DriverError ''not found'')), d)
      | InspectFailed m \<Rightarrow> (Inl (wrap ''inspect container'' (DriverError m)), d)
      | Inspected info \<Rightarrow>
          if (case ci_Networks info of None \<Rightarrow> False | Some ns \<Rightarrow> OddkNetworkName \<in> set ns)
          then (Inr False, d)
          else (case NetworkConnect cli OddkNetworkName cid d of
                  (Some e, d1) \<Rightarrow> (Inl (wrap ''connect container to oddk-bridge'' e), d1)
                | (None, d1) \<Rightarrow> (Inr True, d1)))"

section \<open>The status matrix\<close>

datatype reconcile_message =
    NoMessage
  | StuckIn string string
  | UnrecognisedStatus string
  | NoContainerID string
  | ContainerGone string
  | ContainerIs string string
  | ContainerRunning string
  | ContainerStopped string
  | UnexpectedState string string

definition decideReconcile :: "string \<Rightarrow> string \<Rightarrow> string \<Rightarrow> string \<times> reconcile_message" where
  "decideReconcile storedStatus containerID containerState =
     (case IsInterrupted storedStatus of
        Some remedy \<Rightarrow> (StatusError, StuckIn storedStatus remedy)
      | None \<Rightarrow>
          if \<not> Valid storedStatus then (StatusError, UnrecognisedStatus storedStatus)
          else if containerID = '''' then
            (if storedStatus \<noteq> StatusError then (StatusError, NoContainerID storedStatus)
             else ('''', NoMessage))
          else if containerState = ''not found'' then
            (if storedStatus \<noteq> StatusError then (StatusError, ContainerGone storedStatus)
             else ('''', NoMessage))
          else if containerState = ''paused'' \<or> containerState = ''restarting'' then
            ('''', ContainerIs containerState storedStatus)
          else if storedStatus = StatusError then ('''', NoMessage)
          else if containerState = ''running'' \<and> storedStatus \<noteq> StatusRunning then
            (StatusRunning, ContainerRunning storedStatus)
          else if containerState = ''stopped'' \<and> storedStatus \<noteq> StatusStopped then
            (StatusStopped, ContainerStopped storedStatus)
          else if containerState = ''running'' \<or> containerState = ''stopped'' then ('''', NoMessage)
          else ('''', UnexpectedState containerState storedStatus))"

text \<open>The error of the update is logged and otherwise ignored.\<close>

definition reconcileSetStatus :: "gotime \<Rightarrow> string \<Rightarrow> string \<Rightarrow> world \<Rightarrow> world" where
  "reconcileSetStatus now name status w = snd (Instances_UpdateStatus now name status w)"

text \<open>
  One turn of the loop over the listed instances; \<open>now name\<close> is the clock when that
  instance's row is written. The state carries the engine beside the world.
\<close>

definition reconcile_one ::
  "'d docker_cli \<Rightarrow> (string \<Rightarrow> gotime) \<Rightarrow> RDBMSInstance \<Rightarrow> world \<times> 'd \<Rightarrow> world \<times> 'd" where
  "reconcile_one cli now inst s =
     (case s of (w, d) \<Rightarrow>
        let settle = (\<lambda>containerState d1.
              case decideReconcile (inst_Status inst) (inst_ContainerID inst) containerState of
                (newStatus, message) \<Rightarrow>
                  if newStatus \<noteq> '''' \<and> newStatus \<noteq> inst_Status inst
                  then (reconcileSetStatus (now (inst_Name inst)) (inst_Name inst) newStatus w, d1)
                  else (w, d1))
        in if inst_ContainerID inst \<noteq> '''' then
             (case GetContainerStatus cli (inst_ContainerID inst) d of
                Inl e \<Rightarrow> (w, d)
              | Inr containerState \<Rightarrow>
                  if containerState \<noteq> ''not found''
                  then settle containerState
                         (snd (EnsureContainerOnNetwork cli (inst_ContainerID inst) d))
                  else settle containerState d)
           else settle '''' d)"

definition reconcileInstances ::
  "'d docker_cli \<Rightarrow> (string \<Rightarrow> gotime) \<Rightarrow> world \<times> 'd \<Rightarrow> world \<times> 'd" where
  "reconcileInstances cli now s =
     (case s of (w, d) \<Rightarrow>
        (case Instances_List w of
           (Inl e, w1) \<Rightarrow> (w1, d)
         | (Inr l, w1) \<Rightarrow> fold (reconcile_one cli now) l (w1, d)))"

section \<open>The matrix against its intent\<close>

text \<open>
  What the pass is meant to do to a status: an operation that died or a value nobody
  classified becomes \<open>error\<close>; \<open>error\<close> stays; otherwise the container decides, a missing
  container being an error and a paused, restarting or unknown one leaving the row alone.
\<close>

definition reconciled_status :: "string \<Rightarrow> string \<Rightarrow> string \<Rightarrow> string" where
  "reconciled_status s cid st =
     (if IsInterrupted s \<noteq> None \<or> \<not> IsDerived s \<or> cid = '''' \<or> st = ''not found'' then StatusError
      else if st \<in> {''running'', ''stopped''} then st
      else s)"

lemma Valid_cases: "IsInterrupted s = None \<Longrightarrow> Valid s \<longleftrightarrow> s = StatusError \<or> IsDerived s"
  by (auto simp: Valid_def)

lemma error_not_derived [simp]: "\<not> IsDerived StatusError" "IsInterrupted StatusError = None"
  "\<not> IsDerived ''''" "IsInterrupted '''' = None"
  by (simp_all add: IsDerived_def derivedStatuses_def IsInterrupted_def interruptedRemedies_def)

lemma decideReconcile_spec:
  "(let n = fst (decideReconcile s cid st) in if n = '''' then s else n)
     = reconciled_status s cid st"
proof (cases "IsInterrupted s")
  case None
  then show ?thesis
    by (auto simp: decideReconcile_def reconciled_status_def Let_def Valid_cases)
next
  case (Some r)
  then show ?thesis by (simp add: decideReconcile_def reconciled_status_def)
qed

text \<open>
  C6. The start-up status matrix does what its comments promise for every stored status
  and every container state: an interrupted or unclassified status becomes \<open>error\<close>,
  \<open>error\<close> is never cleared, a derived status follows the container, and the decision is
  stable (deciding again on the outcome changes nothing).
\<close>

theorem decideReconcile_matrix:
  "let decided = (\<lambda>s. let n = fst (decideReconcile s cid st) in if n = '''' then s else n)
   in decided s = reconciled_status s cid st
      \<and> decided (decided s) = decided s
      \<and> decided StatusError = StatusError
      \<and> Valid (decided s) \<and> IsInterrupted (decided s) = None"
  unfolding Let_def decideReconcile_spec[unfolded Let_def]
  by (auto simp: reconciled_status_def Valid_def IsDerived_def derivedStatuses_def
      IsInterrupted_def interruptedRemedies_def)

section \<open>The whole pass\<close>

text \<open>What a row becomes, given the engine state at the start of the pass.\<close>

definition reconciled_row ::
  "'d docker_cli \<Rightarrow> 'd \<Rightarrow> (string \<Rightarrow> gotime) \<Rightarrow> RDBMSInstance \<Rightarrow> RDBMSInstance" where
  "reconciled_row cli d now i =
     (let st = (if inst_ContainerID i = '''' then Inr ''''
                else GetContainerStatus cli (inst_ContainerID i) d)
      in case st of
           Inl e \<Rightarrow> i
         | Inr s \<Rightarrow>
             let n = reconciled_status (inst_Status i) (inst_ContainerID i) s in
             if n = inst_Status i then i
             else i\<lparr>inst_Status := n, inst_UpdatedAt := now (inst_Name i)\<rparr>)"

text \<open>Documented behaviour of the engine: attaching a network starts or stops no container.\<close>

definition connect_keeps_state :: "'d docker_cli \<Rightarrow> bool" where
  "connect_keeps_state cli \<longleftrightarrow>
     (\<forall>net c c' d. GetContainerStatus cli c' (snd (NetworkConnect cli net c d))
                    = GetContainerStatus cli c' d)"

lemma Ensure_keeps_state:
  "connect_keeps_state cli \<Longrightarrow>
   GetContainerStatus cli c' (snd (EnsureContainerOnNetwork cli c d)) = GetContainerStatus cli c' d"
  unfolding connect_keeps_state_def EnsureContainerOnNetwork_def
  by (auto split: inspect_result.splits prod.splits option.splits)
     (metis snd_conv)+

text \<open>One turn settles its own row and no other.\<close>

lemma UpdateStatus_calm:
  assumes "io_schedule w = []" "rdbms_instances w = pre @ i # post"
    and "distinct (map inst_Name (pre @ i # post))" "n \<in> set AllStatuses"
  shows "snd (Instances_UpdateStatus t (inst_Name i) n w) =
     w\<lparr>rdbms_instances := pre @ i\<lparr>inst_Status := n, inst_UpdatedAt := t\<rparr> # post\<rparr>"
  using assms upd_where_one[OF assms(3)]
  by (simp add: Instances_UpdateStatus_def update_instance_def calm_primitives update_stmt_def)

lemma decide_new_status:
  "(fst (decideReconcile s cid st) \<noteq> '''' \<and> fst (decideReconcile s cid st) \<noteq> s)
     = (reconciled_status s cid st \<noteq> s)"
  "reconciled_status s cid st \<noteq> s \<Longrightarrow> fst (decideReconcile s cid st) = reconciled_status s cid st"
  using decideReconcile_spec[of s cid st] by (auto simp: Let_def split: if_splits)

lemma reconciled_status_listed: "reconciled_status s cid st \<noteq> s \<Longrightarrow> reconciled_status s cid st \<in> set AllStatuses"
  by (auto simp: reconciled_status_def AllStatuses_def split: if_splits)

lemma reconcile_one_calm:
  assumes w: "io_schedule w = []" "rdbms_instances w = pre @ i # post"
    "distinct (map inst_Name (pre @ i # post))" and cli: "connect_keeps_state cli"
  obtains d1 where "reconcile_one cli now i (w, d) =
       (w\<lparr>rdbms_instances := pre @ reconciled_row cli d now i # post\<rparr>, d1)"
    and "\<And>c. GetContainerStatus cli c d1 = GetContainerStatus cli c d"
proof -
  have same: "w\<lparr>rdbms_instances := pre @ i # post\<rparr> = w" using w(2) by simp
  have settle: "(case decideReconcile (inst_Status i) (inst_ContainerID i) cs of
          (newStatus, message) \<Rightarrow>
            if newStatus \<noteq> '''' \<and> newStatus \<noteq> inst_Status i
            then (reconcileSetStatus (now (inst_Name i)) (inst_Name i) newStatus w, dd)
            else (w, dd))
      = (w\<lparr>rdbms_instances := pre @
            (let n = reconciled_status (inst_Status i) (inst_ContainerID i) cs in
             if n = inst_Status i then i
             else i\<lparr>inst_Status := n, inst_UpdatedAt := now (inst_Name i)\<rparr>) # post\<rparr>, dd)" for cs dd
    using decide_new_status[of "inst_Status i" "inst_ContainerID i" cs] same
      UpdateStatus_calm[OF w reconciled_status_listed,
        of "inst_Status i" "inst_ContainerID i" cs "now (inst_Name i)"]
    by (auto simp: Let_def reconcileSetStatus_def split: prod.splits)
  show thesis
  proof (cases "inst_ContainerID i = ''''")
    case True
    then show ?thesis
      using settle[of d "''''"] that[of d]
      by (simp add: reconcile_one_def reconciled_row_def)
  next
    case False
    show ?thesis
    proof (cases "GetContainerStatus cli (inst_ContainerID i) d")
      case (Inl e)
      then show ?thesis using False that[of d] same
        by (simp add: reconcile_one_def reconciled_row_def)
    next
      case (Inr st)
      show ?thesis
      proof (cases "st = ''not found''")
        case True
        then show ?thesis using False Inr settle[of d st] that[of d]
          by (simp add: reconcile_one_def reconciled_row_def)
      next
        case there: False
        let ?d1 = "snd (EnsureContainerOnNetwork cli (inst_ContainerID i) d)"
        show ?thesis
          using False there Inr settle[of ?d1 st] that[of ?d1] Ensure_keeps_state[OF cli]
          by (simp add: reconcile_one_def reconciled_row_def)
      qed
    qed
  qed
qed

lemma reconciled_row_cong:
  "(\<And>c. GetContainerStatus cli c d1 = GetContainerStatus cli c d) \<Longrightarrow>
   reconciled_row cli d1 now = reconciled_row cli d now"
  by (rule ext) (simp add: reconciled_row_def)

lemma reconciled_row_Name [simp]: "inst_Name (reconciled_row cli d now i) = inst_Name i"
  by (simp add: reconciled_row_def Let_def split: sum.splits)

lemma reconcile_fold_calm:
  assumes "io_schedule w = []" "rdbms_instances w = pre @ l"
    "distinct (map inst_Name (pre @ l))" "connect_keeps_state cli"
  shows "fst (fold (reconcile_one cli now) l (w, d)) =
     w\<lparr>rdbms_instances := pre @ map (reconciled_row cli d now) l\<rparr>"
  using assms
proof (induction l arbitrary: w pre d)
  case Nil
  then show ?case by simp
next
  case (Cons i l)
  obtain d1 where one: "reconcile_one cli now i (w, d) =
       (w\<lparr>rdbms_instances := pre @ reconciled_row cli d now i # l\<rparr>, d1)"
    and d1: "\<And>c. GetContainerStatus cli c d1 = GetContainerStatus cli c d"
    using reconcile_one_calm[of w pre i l cli now d] Cons.prems by metis
  show ?case
    using Cons.IH[of "w\<lparr>rdbms_instances := pre @ reconciled_row cli d now i # l\<rparr>"
        "pre @ [reconciled_row cli d now i]" d1] Cons.prems
    by (simp add: one reconciled_row_cong[OF d1])
qed

text \<open>
  C7. With the database answering, one start-up pass rewrites the instance table row by row
  to the intended statuses and touches nothing else: no row is left mid-operation, \<open>error\<close>
  rows stay as they are, and a row whose container cannot be inspected is not judged.
\<close>

theorem reconcileInstances_settles:
  assumes "io_schedule w = []" "instances_ok w" "connect_keeps_state cli"
  shows "fst (reconcileInstances cli now (w, d)) =
     w\<lparr>rdbms_instances := map (reconciled_row cli d now) (rdbms_instances w)\<rparr>"
  using assms reconcile_fold_calm[of w "[]" "rdbms_instances w" cli now d]
  by (simp add: reconcileInstances_def Instances_List_def calm_primitives instances_ok_def)

text \<open>An engine with one running container per listed id, all attached.\<close>

definition demo_cli :: "string list docker_cli" where
  "demo_cli =
     \<lparr>ContainerInspect = (\<lambda>c d. if c \<in> set d
        then Inspected \<lparr>ci_State = Some \<lparr>st_Paused = False, st_Restarting = False, st_Running = True\<rparr>,
                        ci_Networks = Some [OddkNetworkName]\<rparr>
        else InspectNotFound),
      NetworkConnect = (\<lambda>net c d. (None, d))\<rparr>"

definition demo_instance :: "string \<Rightarrow> string \<Rightarrow> string \<Rightarrow> RDBMSInstance" where
  "demo_instance name status cid =
     \<lparr>inst_ID = 1, inst_Name = name, inst_Port = 5432, inst_Version = ''17'', inst_Status = status,
      inst_ContainerID = cid, inst_Password = '''', inst_CPUCores = 1, inst_RAMMB = 1024,
      inst_ParameterGroup = ''g'', inst_Image = '''', inst_CreatedAt = 1, inst_UpdatedAt = 1\<rparr>"

theorem reconcileInstances_settles_witness:
  "map inst_Status (rdbms_instances (fst (reconcileInstances demo_cli (\<lambda>_. 9)
     (empty_world\<lparr>rdbms_instances := [demo_instance ''a'' ''upgrading'' ''c1''],
                  instances_seq := 1\<rparr>, [''c1''])))) = [''error'']"
proof -
  let ?w = "empty_world\<lparr>rdbms_instances := [demo_instance ''a'' ''upgrading'' ''c1''],
                  instances_seq := 1\<rparr>"
  have "io_schedule ?w = []" by (simp add: empty_world_def)
  moreover have "instances_ok ?w"
    by (simp add: instances_ok_def demo_instance_def Valid_def IsInterrupted_def interruptedRemedies_def)
  moreover have "connect_keeps_state demo_cli"
    by (simp add: connect_keeps_state_def demo_cli_def)
  ultimately show ?thesis
    by (subst reconcileInstances_settles)
       (simp_all add: reconciled_row_def demo_instance_def demo_cli_def GetContainerStatus_def
          reconciled_status_def IsDerived_def derivedStatuses_def)
qed

end
