(* ===== verification/Executor.thy ===== *)
theory Executor
  imports GoPrelude
begin

text \<open>
  The operation executor, \<open>internal/operations/executor.go\<close>, and the shutdown that relies on
  it, \<open>Shutdown\<close> of \<open>internal/daemon/server.go\<close>. Concurrency is interleaving: each atomic
  action of a goroutine (a load of the closing flag, taking or releasing the mutex, starting
  or ending an operation) is one step. Operations are numbered; their bodies are arbitrary.
\<close>

section \<open>State\<close>

datatype OpType = OpTypeRead | OpTypeWrite

text \<open>Where a call of \<open>Execute\<close> or \<open>ExecuteRead\<close> is.\<close>

datatype phase =
    Absent      \<comment> \<open>not called\<close>
  | Arrived     \<comment> \<open>in \<open>Execute\<close>, before the first look at the flag\<close>
  | Waiting     \<comment> \<open>blocked on the mutex\<close>
  | Holding     \<comment> \<open>has the mutex, before the second look at the flag\<close>
  | Running     \<comment> \<open>inside \<open>op.Execute\<close> with the mutex\<close>
  | Reading     \<comment> \<open>inside \<open>op.Execute\<close> of a read, without the mutex\<close>
  | Returned
  | Refused

datatype holder = Call nat | Drainer

text \<open>The goroutine that \<open>Drain\<close> starts, and the program counter of \<open>Shutdown\<close>.\<close>

datatype drain = DrainIdle | DrainWaiting | DrainHolding | DrainDone
datatype shutdown = Serving | Closed | Draining | Drained | Abandoned | Cancelled bool

record Executor =
  mu :: "holder option"
  closing :: bool
  calls :: "nat \<Rightarrow> phase"
  ops :: "nat \<Rightarrow> OpType"
  drainer :: drain
  pc :: shutdown

definition NewExecutor :: "(nat \<Rightarrow> OpType) \<Rightarrow> Executor" where
  "NewExecutor types = \<lparr>mu = None, closing = False, calls = (\<lambda>_. Absent), ops = types, drainer = DrainIdle, pc = Serving\<rparr>"

definition goto :: "nat \<Rightarrow> phase \<Rightarrow> Executor \<Rightarrow> Executor" where
  "goto c p s = s\<lparr>calls := (calls s)(c := p)\<rparr>"

section \<open>Steps\<close>

inductive execute_step :: "Executor \<Rightarrow> Executor \<Rightarrow> bool" where
  arrive: "calls s c = Absent \<Longrightarrow> execute_step s (goto c Arrived s)"
| gate_closed: "calls s c = Arrived \<Longrightarrow> closing s \<Longrightarrow> execute_step s (goto c Refused s)"
| gate_open: "calls s c = Arrived \<Longrightarrow> \<not> closing s \<Longrightarrow> execute_step s (goto c Waiting s)"
| lock: "calls s c = Waiting \<Longrightarrow> mu s = None \<Longrightarrow> execute_step s (goto c Holding s\<lparr>mu := Some (Call c)\<rparr>)"
| recheck_closed: "calls s c = Holding \<Longrightarrow> closing s \<Longrightarrow> execute_step s (goto c Refused s\<lparr>mu := None\<rparr>)"
| start: "calls s c = Holding \<Longrightarrow> \<not> closing s \<Longrightarrow> execute_step s (goto c Running s)"
| finish: "calls s c = Running \<Longrightarrow> execute_step s (goto c Returned s\<lparr>mu := None\<rparr>)"

text \<open>\<open>ExecuteRead\<close> refuses an operation that is not declared a read and takes no lock.\<close>

inductive read_step :: "Executor \<Rightarrow> Executor \<Rightarrow> bool" where
  read_refused: "calls s c = Absent \<Longrightarrow> ops s c \<noteq> OpTypeRead \<Longrightarrow> read_step s (goto c Returned s)"
| read_start: "calls s c = Absent \<Longrightarrow> ops s c = OpTypeRead \<Longrightarrow> read_step s (goto c Reading s)"
| read_done: "calls s c = Reading \<Longrightarrow> read_step s (goto c Returned s)"

text \<open>The goroutine of \<open>Drain\<close>: it takes the mutex and gives it back.\<close>

inductive drain_step :: "Executor \<Rightarrow> Executor \<Rightarrow> bool" where
  drain_lock: "drainer s = DrainWaiting \<Longrightarrow> mu s = None \<Longrightarrow> drain_step s (s\<lparr>mu := Some Drainer, drainer := DrainHolding\<rparr>)"
| drain_unlock: "drainer s = DrainHolding \<Longrightarrow> drain_step s (s\<lparr>mu := None, drainer := DrainDone\<rparr>)"

text \<open>
  \<open>Shutdown\<close>: close the executor, stop the HTTP server, drain or give up when the context
  ends, and only then cancel the background context. \<open>Cancelled b\<close> remembers whether the
  drain succeeded.
\<close>

inductive shutdown_step :: "Executor \<Rightarrow> Executor \<Rightarrow> bool" where
  close: "pc s = Serving \<Longrightarrow> shutdown_step s (s\<lparr>closing := True, pc := Closed\<rparr>)"
| http_down: "pc s = Closed \<Longrightarrow> shutdown_step s (s\<lparr>drainer := DrainWaiting, pc := Draining\<rparr>)"
| idle: "pc s = Draining \<Longrightarrow> drainer s = DrainDone \<Longrightarrow> shutdown_step s (s\<lparr>pc := Drained\<rparr>)"
| expired: "pc s = Draining \<Longrightarrow> shutdown_step s (s\<lparr>pc := Abandoned\<rparr>)"
| cancel: "pc s = Drained \<Longrightarrow> shutdown_step s (s\<lparr>pc := Cancelled True\<rparr>)"
| cancel_anyway: "pc s = Abandoned \<Longrightarrow> shutdown_step s (s\<lparr>pc := Cancelled False\<rparr>)"

definition step :: "Executor \<Rightarrow> Executor \<Rightarrow> bool" where
  "step s s' \<longleftrightarrow> execute_step s s' \<or> read_step s s' \<or> drain_step s s' \<or> shutdown_step s s'"

section \<open>The invariant\<close>

text \<open>
  The mutex is held exactly by the call that is in its critical section, or by the drainer;
  the drainer exists only after the executor was closed; nothing is refused before; and once
  the drainer had the mutex no operation runs.
\<close>

definition exec_inv :: "Executor \<Rightarrow> bool" where
  "exec_inv s \<longleftrightarrow>
     (\<forall>c. calls s c = Holding \<or> calls s c = Running \<longleftrightarrow> mu s = Some (Call c))
   \<and> (mu s = Some Drainer \<longleftrightarrow> drainer s = DrainHolding)
   \<and> (drainer s \<noteq> DrainIdle \<longrightarrow> pc s \<notin> {Serving, Closed})
   \<and> (closing s \<longleftrightarrow> pc s \<noteq> Serving)
   \<and> (\<forall>c. calls s c = Refused \<longrightarrow> closing s)
   \<and> (drainer s = DrainHolding \<or> drainer s = DrainDone \<longrightarrow> (\<forall>c. calls s c \<noteq> Running))
   \<and> (pc s = Drained \<or> pc s = Cancelled True \<longrightarrow> drainer s = DrainDone)
   \<and> (\<forall>c. calls s c = Reading \<longrightarrow> ops s c = OpTypeRead)"

lemma exec_inv_initial: "exec_inv (NewExecutor types)"
  by (simp add: exec_inv_def NewExecutor_def)

lemma exec_inv_execute: "execute_step s s' \<Longrightarrow> exec_inv s \<Longrightarrow> exec_inv s'"
  by (erule execute_step.cases; simp add: exec_inv_def goto_def)
     (metis drain.distinct phase.distinct holder.distinct holder.inject option.distinct option.inject)+

lemma exec_inv_read: "read_step s s' \<Longrightarrow> exec_inv s \<Longrightarrow> exec_inv s'"
  by (erule read_step.cases; simp add: exec_inv_def goto_def) (metis phase.distinct)+

lemma exec_inv_drain: "drain_step s s' \<Longrightarrow> exec_inv s \<Longrightarrow> exec_inv s'"
  by (erule drain_step.cases) (auto simp: exec_inv_def)

lemma exec_inv_shutdown: "shutdown_step s s' \<Longrightarrow> exec_inv s \<Longrightarrow> exec_inv s'"
  by (erule shutdown_step.cases) (auto simp: exec_inv_def)

lemma exec_inv_reachable: "step\<^sup>*\<^sup>* (NewExecutor types) s \<Longrightarrow> exec_inv s"
  by (induction rule: rtranclp_induct)
     (auto simp: step_def intro: exec_inv_initial exec_inv_execute exec_inv_read exec_inv_drain exec_inv_shutdown)

text \<open>Once closed, no write operation starts.\<close>

lemma closed_starts_nothing:
  assumes "step s s'" "closing s" "calls s' c = Running"
  shows "calls s c = Running"
proof -
  from assms(1) consider "execute_step s s'" | "read_step s s'" | "drain_step s s'" | "shutdown_step s s'"
    by (auto simp: step_def)
  then show ?thesis
  proof cases
    case 1
    then show ?thesis using assms(2,3) by cases (auto simp: goto_def split: if_splits)
  next
    case 2
    then show ?thesis using assms(3) by cases (auto simp: goto_def split: if_splits)
  next
    case 3
    then show ?thesis using assms(3) by cases auto
  next
    case 4
    then show ?thesis using assms(3) by cases auto
  qed
qed

text \<open>
  C38. The executor under every interleaving. At most one operation runs under the executor's
  mutex at a time; nobody is refused while the daemon serves; a refused or merely waiting call
  has not started; once the executor is closed no operation starts any more; and when
  \<open>Shutdown\<close> cancels the background context after a successful drain, no operation is running
  or about to run, so the cancellation aborts none. Reads run without the mutex, and only
  operations declared reads do.
\<close>

theorem executor_safe:
  assumes "step\<^sup>*\<^sup>* (NewExecutor types) s"
  shows "(\<forall>c d. calls s c = Running \<and> calls s d = Running \<longrightarrow> c = d)
    \<and> (\<forall>c. calls s c = Refused \<longrightarrow> pc s \<noteq> Serving)
    \<and> (\<forall>s' c. closing s \<and> step s s' \<and> calls s' c = Running \<longrightarrow> calls s c = Running)
    \<and> (pc s = Cancelled True \<longrightarrow> (\<forall>c. calls s c \<noteq> Running)
         \<and> (\<forall>s' c. step s s' \<longrightarrow> calls s' c \<noteq> Running))
    \<and> (\<forall>c. calls s c = Reading \<longrightarrow> ops s c = OpTypeRead)"
proof -
  have inv: "exec_inv s" using exec_inv_reachable[OF assms] .
  then have one: "\<forall>c d. calls s c = Running \<and> calls s d = Running \<longrightarrow> c = d"
    unfolding exec_inv_def by (metis holder.inject option.inject)
  have closed: "\<forall>s' c. closing s \<and> step s s' \<and> calls s' c = Running \<longrightarrow> calls s c = Running"
    using closed_starts_nothing by blast
  have down: "closing s \<and> (\<forall>c. calls s c \<noteq> Running)" if "pc s = Cancelled True"
    using inv that by (simp add: exec_inv_def)
  show ?thesis using inv one closed down by (auto simp: exec_inv_def)
qed

lemma execute_reach: "step\<^sup>*\<^sup>* a s \<Longrightarrow> execute_step s s' \<Longrightarrow> step\<^sup>*\<^sup>* a s'"
  by (rule rtranclp.rtrancl_into_rtrancl) (auto simp: step_def)

text \<open>One operation runs while a second one waits for the mutex.\<close>

theorem executor_safe_witness:
  "\<exists>s. step\<^sup>*\<^sup>* (NewExecutor (\<lambda>_. OpTypeWrite)) s \<and> calls s 0 = Running \<and> calls s 1 = Waiting
     \<and> (\<forall>d. calls s d = Running \<longrightarrow> d = 0)"
proof -
  define s0 where "s0 = NewExecutor (\<lambda>_. OpTypeWrite)"
  define s1 where "s1 = goto 0 Waiting (goto 0 Arrived s0)"
  define s2 where "s2 = goto 0 Running (goto 0 Holding s1\<lparr>mu := Some (Call 0)\<rparr>)"
  define s3 where "s3 = goto 1 Waiting (goto 1 Arrived s2)"
  have r1: "step\<^sup>*\<^sup>* s0 s1" unfolding s1_def
    by (rule execute_reach[OF execute_reach[OF rtranclp.rtrancl_refl arrive] gate_open])
       (simp_all add: s0_def NewExecutor_def goto_def)
  have r2: "step\<^sup>*\<^sup>* s0 s2" unfolding s2_def
    by (rule execute_reach[OF execute_reach[OF r1 lock] start]) (simp_all add: s1_def s0_def NewExecutor_def goto_def)
  have r3: "step\<^sup>*\<^sup>* s0 s3" unfolding s3_def
    by (rule execute_reach[OF execute_reach[OF r2 arrive] gate_open])
       (simp_all add: s2_def s1_def s0_def NewExecutor_def goto_def)
  have "calls s3 0 = Running" "calls s3 1 = Waiting" by (simp_all add: s3_def s2_def goto_def)
  with executor_safe[OF r3[unfolded s0_def]] r3 show ?thesis unfolding s0_def by blast
qed

end
