(* ===== verification/PgText.thy ===== *)
theory PgText
  imports Paths
begin

text \<open>
  The texts ODDK hands to PostgreSQL, its tools and the file system, and the ones it reads
  back: literals and connection strings (\<open>internal/operations/postgres_helpers.go\<close>,
  \<open>rdbms_backup.go\<close>), \<open>CREATE DATABASE\<close> and grants (\<open>database_metadata.go\<close>,
  \<open>rdbms_restore.go\<close>), role names in \<open>globals.sql\<close> and versions (\<open>snapshot_apply.go\<close>), host
  and instance names (\<open>snapshot_make.go\<close>, \<open>internal/util\<close>). \<open>pgx.Identifier.Sanitize\<close> is an
  argument. The readers on the other side are stated as the grammars that PostgreSQL documents.
\<close>

section \<open>Quoting\<close>

definition ReplaceChar :: "char \<Rightarrow> string \<Rightarrow> string \<Rightarrow> string" where
  "ReplaceChar c r s = concat (map (\<lambda>x. if x = c then r else [x]) s)"

abbreviation quote_char :: char where "quote_char \<equiv> CHR 0x27"
abbreviation backslash :: char where "backslash \<equiv> CHR 0x5C"

definition quotePostgresLiteral :: "string \<Rightarrow> string" where
  "quotePostgresLiteral s = [quote_char] @ ReplaceChar quote_char [quote_char, quote_char] s @ [quote_char]"

definition escapePgPassField :: "string \<Rightarrow> string" where
  "escapePgPassField s = ReplaceChar (CHR '':'') [backslash, CHR '':''] (ReplaceChar backslash [backslash, backslash] s)"

text \<open>The one line of the \<open>.pgpass\<close> file of \<open>newPgPassMount\<close>.\<close>

definition pgpass_line :: "string \<Rightarrow> string" where
  "pgpass_line password = ''*:*:*:*:'' @ escapePgPassField password @ [CHR 0x0A]"

definition pgConninfoDBName :: "string \<Rightarrow> string" where
  "pgConninfoDBName name =
     ''dbname='' @ [quote_char]
     @ concat (map (\<lambda>c. if c = backslash then [backslash, backslash]
                        else if c = quote_char then [backslash, quote_char] else [c]) name)
     @ [quote_char]"

text \<open>
  A string literal under \<open>standard_conforming_strings\<close>: a quote ends it unless another one
  follows. The result is the value and the text behind the literal.
\<close>

fun literal_body :: "string \<Rightarrow> (string \<times> string) option" where
  "literal_body [] = None"
| "literal_body (c # s) =
     (if c \<noteq> quote_char then map_option (\<lambda>(v, r). (c # v, r)) (literal_body s)
      else case s of
        [] \<Rightarrow> Some ([], [])
      | d # t \<Rightarrow> if d = quote_char then map_option (\<lambda>(v, r). (quote_char # v, r)) (literal_body t)
                 else Some ([], s))"

text \<open>A backslash-escaped text up to an end character, as libpq reads a password field or a quoted conninfo value.\<close>

fun escaped_until :: "char \<Rightarrow> string \<Rightarrow> (string \<times> string) option" where
  "escaped_until e [] = None"
| "escaped_until e (c # s) =
     (if c = e then Some ([], s)
      else if c = backslash then
        (case s of [] \<Rightarrow> None | d # t \<Rightarrow> map_option (\<lambda>(v, r). (d # v, r)) (escaped_until e t))
      else map_option (\<lambda>(v, r). (c # v, r)) (escaped_until e s))"

lemma ReplaceChar_simps [simp]:
  "ReplaceChar c r [] = []" "ReplaceChar c r (x # s) = (if x = c then r else [x]) @ ReplaceChar c r s"
  "ReplaceChar c r (s @ t) = ReplaceChar c r s @ ReplaceChar c r t"
  by (simp_all add: ReplaceChar_def)

lemma literal_body_quoted:
  "(\<nexists>t. rest = quote_char # t) \<Longrightarrow> literal_body (ReplaceChar quote_char [quote_char, quote_char] s @ quote_char # rest) = Some (s, rest)"
  by (induction s) (auto split: list.splits)

lemma escaped_until_field:
  "escaped_until (CHR 0x0A) (escapePgPassField s @ CHR 0x0A # rest) = Some (s, rest)" if "CHR 0x0A \<notin> set s"
  using that by (induction s) (auto simp: escapePgPassField_def)

lemma escaped_until_conninfo:
  "escaped_until quote_char (concat (map (\<lambda>c. if c = backslash then [backslash, backslash]
      else if c = quote_char then [backslash, quote_char] else [c]) s) @ quote_char # rest) = Some (s, rest)"
  by (induction s) auto

text \<open>
  What ODDK quotes is read back as exactly that text, whatever it contains: no password or
  database name can end its literal, its password field or its connection parameter early. A
  password with a line break is the one exception, in the password file.
\<close>

lemma quoted_texts_read_back:
  "(\<nexists>t. rest = quote_char # t) \<Longrightarrow> literal_body (tl (quotePostgresLiteral s @ rest)) = Some (s, rest)"
  "CHR 0x0A \<notin> set p \<Longrightarrow> escaped_until (CHR 0x0A) (drop 8 (pgpass_line p)) = Some (p, '''')"
  "escaped_until quote_char (drop 8 (pgConninfoDBName n)) = Some (n, '''')"
  using literal_body_quoted[of rest s] escaped_until_field[of p "''''"] escaped_until_conninfo[of n "''''"]
  by (simp_all add: quotePostgresLiteral_def pgpass_line_def pgConninfoDBName_def)

section \<open>Names\<close>

text \<open>
  \<open>for _, r := range s\<close>: how many bytes the first rune of a text takes. A byte that starts no
  valid sequence is one rune of its own (\<open>unicode/utf8\<close>).
\<close>

definition cont :: "nat \<Rightarrow> bool" where "cont b \<longleftrightarrow> 0x80 \<le> b \<and> b \<le> 0xBF"

definition rune_len :: "string \<Rightarrow> nat" where
  "rune_len s =
     (case map of_char s :: nat list of
        b0 # b1 # rest \<Rightarrow>
          if 0xC2 \<le> b0 \<and> b0 \<le> 0xDF \<and> cont b1 then 2
          else if 0xE0 \<le> b0 \<and> b0 \<le> 0xEF then
            if (if b0 = 0xE0 then 0xA0 \<le> b1 \<and> b1 \<le> 0xBF else if b0 = 0xED then 0x80 \<le> b1 \<and> b1 \<le> 0x9F else cont b1)
               \<and> rest \<noteq> [] \<and> cont (hd rest)
            then 3 else 1
          else if 0xF0 \<le> b0 \<and> b0 \<le> 0xF4 then
            if (if b0 = 0xF0 then 0x90 \<le> b1 \<and> b1 \<le> 0xBF else if b0 = 0xF4 then 0x80 \<le> b1 \<and> b1 \<le> 0x8F else cont b1)
               \<and> 2 \<le> length rest \<and> cont (rest ! 0) \<and> cont (rest ! 1)
            then 4 else 1
          else 1
      | _ \<Rightarrow> 1)"

lemma rune_len_pos: "0 < rune_len s"
  by (auto simp: rune_len_def split: list.splits)

text \<open>A text rune by rune, with a function for the runes outside ASCII and one for those inside.\<close>

function map_runes :: "string \<Rightarrow> (char \<Rightarrow> string) \<Rightarrow> string \<Rightarrow> string" where
  "map_runes other f [] = []"
| "map_runes other f (c # s) =
     (if of_char c < (0x80 :: nat) then f c @ map_runes other f s
      else other @ map_runes other f (drop (rune_len (c # s)) (c # s)))"
  by pat_completeness auto
termination
  by (relation "measure (\<lambda>(other, f, s). length s)") (use rune_len_pos in auto)

definition is_letter :: "char \<Rightarrow> bool" where
  "is_letter c \<longleftrightarrow> (let b = of_char c :: nat in (97 \<le> b \<and> b \<le> 122) \<or> (65 \<le> b \<and> b \<le> 90))"

definition name_char :: "char \<Rightarrow> bool" where
  "name_char c \<longleftrightarrow> is_letter c \<or> is_digit c \<or> c \<in> {CHR ''_'', CHR ''.'', CHR ''-''}"

definition containerNameSafe :: "string \<Rightarrow> string" where
  "containerNameSafe name = map_runes ''_'' (\<lambda>c. if name_char c then [c] else ''_'') name"

definition TrimChars :: "char set \<Rightarrow> string \<Rightarrow> string" where
  "TrimChars cs s = rev (dropWhile (\<lambda>c. c \<in> cs) (rev (dropWhile (\<lambda>c. c \<in> cs) s)))"

definition sanitizeHostForFilename :: "string \<Rightarrow> string" where
  "sanitizeHostForFilename host =
     (let cleaned = TrimChars {CHR ''.'', CHR ''-''} (map_runes ''-'' (\<lambda>c. if name_char c then [c] else ''-'') host) in
      if cleaned = '''' then ''unknown'' else take 64 cleaned)"

lemma map_runes_chars:
  "c \<in> set (map_runes other f s) \<Longrightarrow> (\<And>d. d \<in> set other \<Longrightarrow> P d) \<Longrightarrow> (\<And>x d. d \<in> set (f x) \<Longrightarrow> P d) \<Longrightarrow> P c"
  by (induction other f s rule: map_runes.induct) (auto split: if_splits)

lemma TrimChars_subset: "set (TrimChars cs s) \<subseteq> set s"
  by (auto simp: TrimChars_def dest!: set_dropWhileD)

lemma containerNameSafe_chars: "c \<in> set (containerNameSafe n) \<Longrightarrow> name_char c"
  unfolding containerNameSafe_def by (erule map_runes_chars) (auto simp: name_char_def split: if_splits)

text \<open>
  The host part of a snapshot's file name is one to 64 characters that are safe in a file name,
  and does not start with a dot or a dash.
\<close>

lemma sanitizeHostForFilename_safe:
  "sanitizeHostForFilename h \<noteq> ''''" "length (sanitizeHostForFilename h) \<le> 64"
  "c \<in> set (sanitizeHostForFilename h) \<Longrightarrow> name_char c"
  "hd (sanitizeHostForFilename h) \<notin> {CHR ''.'', CHR ''-''}"
proof -
  let ?m = "map_runes ''-'' (\<lambda>c. if name_char c then [c] else ''-'') h"
  let ?t = "TrimChars {CHR ''.'', CHR ''-''} ?m"
  have ch: "name_char d" if "d \<in> set ?m" for d
    using that by (rule map_runes_chars) (auto simp: name_char_def split: if_splits)
  have un: "\<forall>d \<in> set ''unknown''. name_char d" by (simp add: name_char_def is_letter_def)
  have hd: "hd ?t \<notin> {CHR ''.'', CHR ''-''}" if ne: "?t \<noteq> ''''"
  proof -
    let ?d = "dropWhile (\<lambda>c. c \<in> {CHR ''.'', CHR ''-''}) ?m"
    have "?d = ?t @ rev (takeWhile (\<lambda>c. c \<in> {CHR ''.'', CHR ''-''}) (rev ?d))"
      unfolding TrimChars_def rev_append[symmetric] takeWhile_dropWhile_id by simp
    then obtain q where q: "?d = ?t @ q" by blast
    then have "hd ?t = hd ?d" "?d \<noteq> []" using ne by (simp_all del: dropWhile_eq_Nil_conv)
    then show ?thesis using hd_dropWhile[of "\<lambda>c. c \<in> {CHR ''.'', CHR ''-''}" ?m] by simp
  qed
  show "sanitizeHostForFilename h \<noteq> ''''" "length (sanitizeHostForFilename h) \<le> 64"
    by (auto simp: sanitizeHostForFilename_def Let_def)
  show "c \<in> set (sanitizeHostForFilename h) \<Longrightarrow> name_char c"
    using ch TrimChars_subset[of "{CHR ''.'', CHR ''-''}" ?m] un
    by (auto simp: sanitizeHostForFilename_def Let_def split: if_splits dest!: in_set_takeD)
  show "hd (sanitizeHostForFilename h) \<notin> {CHR ''.'', CHR ''-''}"
    using hd by (auto simp: sanitizeHostForFilename_def Let_def hd_take)
qed

definition maxInstanceNameLength :: nat where "maxInstanceNameLength = 63"

text \<open>\<open>^[a-zA-Z0-9][a-zA-Z0-9_-]*$\<close>\<close>

definition instanceNameRe :: "string \<Rightarrow> bool" where
  "instanceNameRe n \<longleftrightarrow> n \<noteq> '''' \<and> (is_letter (hd n) \<or> is_digit (hd n))
     \<and> list_all (\<lambda>c. is_letter c \<or> is_digit c \<or> c \<in> {CHR ''_'', CHR ''-''}) n"

definition ValidateInstanceName :: "string \<Rightarrow> goerror option" where
  "ValidateInstanceName name =
     (if name = '''' then Some (Errorf0 ''instance name is required'')
      else if maxInstanceNameLength < length name
      then Some (Errorf0 (''instance name is too long ('' @ Itoa (int (length name)) @ '' chars, max '' @ Itoa (int maxInstanceNameLength) @ '')''))
      else if \<not> instanceNameRe name
      then Some (Errorf0 (''invalid instance name '' @ [CHR 0x22] @ name @ [CHR 0x22]
             @ '': must start with a letter or digit and contain only letters, digits, '-' and '_'' @ [quote_char]))
      else None)"

definition validatePortableDBName :: "string \<Rightarrow> goerror option" where
  "validatePortableDBName name =
     (if name = '''' then Some (Errorf0 ''empty database name is not supported by ODDK backups'')
      else if CHR ''/'' \<in> set name \<or> backslash \<in> set name
      then Some (Errorf0 (''database name '' @ [CHR 0x22] @ name @ [CHR 0x22] @ '' is not supported by ODDK backups (contains a path separator)''))
      else if name = ''.'' \<or> name = ''..'' \<or> Clean name \<noteq> name
      then Some (Errorf0 (''database name '' @ [CHR 0x22] @ name @ [CHR 0x22] @ '' is not supported by ODDK backups''))
      else None)"

text \<open>An accepted name is one path element, so the dump of a database stays in its own directory.\<close>

lemma validated_names_are_plain:
  "validatePortableDBName n = None \<longleftrightarrow> plain_name n \<and> backslash \<notin> set n"
  "ValidateInstanceName n = None \<Longrightarrow> plain_name n"
proof -
  have "Clean n = n" if "plain_name n"
  proof -
    have "SplitChar (CHR ''/'') n = [n]" using that by (simp add: plain_name_def SplitChar_no_sep)
    moreover have "\<not> IsAbs n" using that by (cases n) (auto simp: plain_name_def IsAbs_def HasPrefix_def)
    ultimately show ?thesis using that by (simp add: Clean_def Let_def plain_name_def clean_step_def)
  qed
  then show "validatePortableDBName n = None \<longleftrightarrow> plain_name n \<and> backslash \<notin> set n"
    by (auto simp: validatePortableDBName_def plain_name_def)
  assume "ValidateInstanceName n = None"
  then have r: "instanceNameRe n" by (auto simp: ValidateInstanceName_def split: if_splits)
  have "\<not> is_letter (CHR ''/'')" "\<not> is_digit (CHR ''/'')" "\<not> is_letter (CHR ''.'')" "\<not> is_digit (CHR ''.'')"
    by (simp_all add: is_letter_def is_digit_def)
  then show "plain_name n" using r by (auto simp: instanceNameRe_def plain_name_def list_all_iff)
qed

section \<open>Statements\<close>

text \<open>\<open>databases.json\<close>: one database of a backup.\<close>

record DatabaseMeta =
  dm_Name :: string
  dm_Owner :: string
  dm_Encoding :: string
  dm_Collate :: string
  dm_Ctype :: string
  dm_LocProvider :: string
  dm_CreateGrantees :: "string list"

definition buildCreateDatabaseSQL :: "(string \<Rightarrow> string) \<Rightarrow> string \<Rightarrow> DatabaseMeta \<Rightarrow> bool \<Rightarrow> string" where
  "buildCreateDatabaseSQL Sanitize targetName m withOwner =
     ''CREATE DATABASE '' @ Sanitize targetName
     @ (if withOwner then '' OWNER = '' @ Sanitize (dm_Owner m) else '''')
     @ '' TEMPLATE template0 ENCODING '' @ quotePostgresLiteral (dm_Encoding m)
     @ '' LC_COLLATE '' @ quotePostgresLiteral (dm_Collate m)
     @ '' LC_CTYPE '' @ quotePostgresLiteral (dm_Ctype m)"

fun grant_loop ::
  "(string \<Rightarrow> string) \<Rightarrow> string \<Rightarrow> string list \<Rightarrow> string list \<Rightarrow> string list \<Rightarrow> string list \<times> string list \<Rightarrow> string list \<times> string list" where
  "grant_loop Sanitize db existing seen [] acc = acc"
| "grant_loop Sanitize db existing seen (role # rs) (statements, missing) =
     (if role \<in> set seen then grant_loop Sanitize db existing seen rs (statements, missing)
      else grant_loop Sanitize db existing (role # seen) rs
        (if role \<in> set existing
         then (statements @ [''GRANT CREATE ON DATABASE '' @ Sanitize db @ '' TO '' @ Sanitize role], missing)
         else (statements, missing @ [role])))"

definition buildDatabaseCreateGrantSQL ::
  "(string \<Rightarrow> string) \<Rightarrow> string \<Rightarrow> string list \<Rightarrow> string list \<Rightarrow> string list \<times> string list" where
  "buildDatabaseCreateGrantSQL Sanitize databaseName grantees existingRoles =
     grant_loop Sanitize databaseName existingRoles [] grantees ([], [])"

text \<open>Every grantee is granted once or reported missing once, in the order of its first occurrence.\<close>

fun first_occurrences :: "'a list \<Rightarrow> 'a list \<Rightarrow> 'a list" where
  "first_occurrences seen [] = []"
| "first_occurrences seen (x # xs) =
     (if x \<in> set seen then first_occurrences seen xs else x # first_occurrences (x # seen) xs)"

lemma grant_loop_eq:
  "grant_loop Sanitize db existing seen rs (st, ms) =
     (st @ map (\<lambda>r. ''GRANT CREATE ON DATABASE '' @ Sanitize db @ '' TO '' @ Sanitize r)
             (filter (\<lambda>r. r \<in> set existing) (first_occurrences seen rs)),
      ms @ filter (\<lambda>r. r \<notin> set existing) (first_occurrences seen rs))"
  by (induction rs arbitrary: seen st ms) auto

lemma first_occurrences_spec:
  "distinct (first_occurrences seen xs)" "set (first_occurrences seen xs) = set xs - set seen"
  by (induction xs arbitrary: seen) auto

definition pgRestoreEnv :: "int \<Rightarrow> string list" where
  "pgRestoreEnv major = (if major \<ge> 17 then [''PGOPTIONS=-c event_triggers=off''] else [])"

record sqlStep =
  st_what :: string
  st_sql :: string

definition grantStatements :: "(string \<Rightarrow> string) \<Rightarrow> string \<Rightarrow> string \<Rightarrow> bool \<Rightarrow> string \<Rightarrow> sqlStep list" where
  "grantStatements Sanitize databaseName username readOnly dbOwner =
     (let db = Sanitize databaseName; user = Sanitize username;
          forRoles = [''''] @ (if dbOwner \<noteq> '''' \<and> dbOwner \<noteq> ''postgres'' \<and> dbOwner \<noteq> username
                               then ['' FOR ROLE '' @ Sanitize dbOwner] else []);
          step = (\<lambda>what sql. \<lparr>st_what = what, st_sql = sql\<rparr>);
          defaults = (\<lambda>forRole priv kind. ''ALTER DEFAULT PRIVILEGES'' @ forRole @ '' IN SCHEMA public GRANT '' @ priv @ '' ON '' @ kind @ '' TO '' @ user);
          connect = [step ''grant connect permission'' (''GRANT CONNECT ON DATABASE '' @ db @ '' TO '' @ user)] in
      if readOnly then
        connect
        @ [step ''grant usage on schema'' (''GRANT USAGE ON SCHEMA public TO '' @ user),
           step ''grant select on tables'' (''GRANT SELECT ON ALL TABLES IN SCHEMA public TO '' @ user),
           step ''grant select on sequences'' (''GRANT SELECT ON ALL SEQUENCES IN SCHEMA public TO '' @ user)]
        @ map (\<lambda>forRole. step ''set default privileges'' (defaults forRole ''SELECT'' ''TABLES'')) forRoles
      else
        connect
        @ [step ''grant create permission'' (''GRANT CREATE ON DATABASE '' @ db @ '' TO '' @ user),
           step ''grant all on schema'' (''GRANT ALL ON SCHEMA public TO '' @ user),
           step ''grant all on tables'' (''GRANT ALL PRIVILEGES ON ALL TABLES IN SCHEMA public TO '' @ user),
           step ''grant all on sequences'' (''GRANT ALL PRIVILEGES ON ALL SEQUENCES IN SCHEMA public TO '' @ user)]
        @ concat (map (\<lambda>forRole. [step ''set default privileges on tables'' (defaults forRole ''ALL'' ''TABLES''),
                                   step ''set default privileges on sequences'' (defaults forRole ''ALL'' ''SEQUENCES''),
                                   step ''set default privileges on functions'' (defaults forRole ''ALL'' ''FUNCTIONS'')]) forRoles))"

section \<open>Reading\<close>

fun quoted_name :: "string \<Rightarrow> string \<Rightarrow> string \<times> bool" where
  "quoted_name b [] = ('''', False)"
| "quoted_name b (c # rest) =
     (if c \<noteq> CHR 0x22 then quoted_name (b @ [c]) rest
      else case rest of
        [] \<Rightarrow> (b, b \<noteq> '''')
      | d # rest' \<Rightarrow> if d = CHR 0x22 then quoted_name (b @ [CHR 0x22]) rest' else (b, b \<noteq> ''''))"

definition parseCreateRoleName :: "string \<Rightarrow> string option" where
  "parseCreateRoleName line =
     (case CutPrefix line ''CREATE ROLE '' of
        None \<Rightarrow> None
      | Some r0 \<Rightarrow>
          let rest = TrimSpace (TrimSuffix (TrimSpace r0) '';'') in
          if rest = '''' then None
          else if hd rest = CHR 0x22
          then (case quoted_name '''' (tl rest) of (n, ok) \<Rightarrow> if ok then Some n else None)
          else let n = takeWhile (\<lambda>c. c \<noteq> CHR '' '' \<and> c \<noteq> CHR 0x09) rest in if n = '''' then None else Some n)"

fun role_loop :: "string list \<Rightarrow> string list \<Rightarrow> string list" where
  "role_loop seen [] = []"
| "role_loop seen (line # ls) =
     (case parseCreateRoleName (TrimSpace line) of
        None \<Rightarrow> role_loop seen ls
      | Some name \<Rightarrow>
          if name = ''postgres'' \<or> HasPrefix name ''pg_'' then role_loop seen ls
          else if name \<in> set seen then role_loop seen ls
          else name # role_loop (name # seen) ls)"

definition roleNamesFromGlobals :: "string \<Rightarrow> string list" where
  "roleNamesFromGlobals data = role_loop [] (SplitChar (CHR 0x0A) data)"

text \<open>The quoted form of a name: double quotes around it and every one inside doubled.\<close>

definition quote_ident :: "string \<Rightarrow> string" where
  "quote_ident n = CHR 0x22 # ReplaceChar (CHR 0x22) [CHR 0x22, CHR 0x22] n @ [CHR 0x22]"

lemma quoted_name_doubled:
  "quoted_name b (ReplaceChar (CHR 0x22) [CHR 0x22, CHR 0x22] n @ [CHR 0x22]) = (b @ n, b @ n \<noteq> '''')"
  by (induction n arbitrary: b) auto

text \<open>Any role name in the quoted form is read as itself, quotes and semicolons included.\<close>

lemma parseCreateRoleName_quoted:
  assumes "n \<noteq> ''''"
  shows "parseCreateRoleName (''CREATE ROLE '' @ quote_ident n @ '';'') = Some n"
proof -
  have sp: "\<not> is_space (CHR 0x22)" "\<not> is_space (CHR '';'')" by (simp_all add: is_space_def)
  have 1: "TrimSpace (quote_ident n @ '';'') = quote_ident n @ '';''" using sp by (simp add: TrimSpace_def quote_ident_def)
  have 2: "TrimSpace (quote_ident n) = quote_ident n" using sp by (simp add: TrimSpace_def quote_ident_def)
  show ?thesis
    using assms CutPrefix_append[of "''CREATE ROLE ''" "quote_ident n @ '';''"] quoted_name_doubled[of "''''" n]
    unfolding parseCreateRoleName_def by (simp add: 1 2) (simp add: quote_ident_def)
qed

section \<open>Versions\<close>

fun SplitN :: "nat \<Rightarrow> char \<Rightarrow> string \<Rightarrow> string list" where
  "SplitN 0 c s = []"
| "SplitN (Suc 0) c s = [s]"
| "SplitN (Suc (Suc n)) c s = (case CutChar c s of None \<Rightarrow> [s] | Some (a, b) \<Rightarrow> a # SplitN (Suc n) c b)"

definition semver_part :: "string \<Rightarrow> int option" where
  "semver_part p = Atoi (takeWhile (\<lambda>c. c \<noteq> CHR ''-'' \<and> c \<noteq> CHR ''+'') p)"

definition parseSemver :: "string \<Rightarrow> (int \<times> int \<times> int) option" where
  "parseSemver v =
     (let t = TrimSpace v; parts = SplitN 3 (CHR ''.'') (case CutPrefix t ''v'' of None \<Rightarrow> t | Some r \<Rightarrow> r) in
      case parts of
        [a, b, c] \<Rightarrow>
          (case (semver_part a, semver_part b, semver_part c) of
             (Some x, Some y, Some z) \<Rightarrow> Some (x, y, z) | _ \<Rightarrow> None)
      | _ \<Rightarrow> None)"

text \<open>\<open>None\<close> when either version cannot be parsed.\<close>

definition isVersionNewer :: "string \<Rightarrow> string \<Rightarrow> bool option" where
  "isVersionNewer a b =
     (case (parseSemver a, parseSemver b) of
        (Some (x1, x2, x3), Some (y1, y2, y3)) \<Rightarrow>
          Some (if x1 \<noteq> y1 then x1 > y1 else if x2 \<noteq> y2 then x2 > y2 else x3 > y3)
      | _ \<Rightarrow> None)"

text \<open>Newer is a strict order on the versions that parse: a binary never refuses its own archives, and of two versions at most one is newer.\<close>

lemma isVersionNewer_order:
  "isVersionNewer a a \<noteq> Some True"
  "isVersionNewer a b = Some True \<Longrightarrow> isVersionNewer b a = Some False"
  "isVersionNewer a b = Some True \<Longrightarrow> isVersionNewer b c = Some True \<Longrightarrow> isVersionNewer a c = Some True"
  by (auto simp: isVersionNewer_def split: option.splits prod.splits if_splits)

definition pgMajorFromPGVersion :: "string \<Rightarrow> int option" where
  "pgMajorFromPGVersion content =
     (let trimmed = TrimSpace content in
      if trimmed = '''' then None
      else case Atoi (hd (SplitChar (CHR ''.'') trimmed)) of
        None \<Rightarrow> None | Some major \<Rightarrow> if major \<le> 0 then None else Some major)"

section \<open>Sizes\<close>

definition ParseRAMString :: "string \<Rightarrow> int res" where
  "ParseRAMString s0 =
     (if s0 = '''' then Inl (Errorf0 ''RAM value cannot be empty'')
      else let ramStr = TrimSpace s0; upperStr = ToUpper ramStr;
               inMB = (\<lambda>suf. case Atoi (TrimSuffix (TrimSuffix upperStr suf) '' '') of
                        None \<Rightarrow> Inl (Errorf0 (''invalid RAM value: '' @ ramStr)) | Some n \<Rightarrow> Inr n) in
      if HasSuffix upperStr ''MIB'' then inMB ''MIB''
      else if HasSuffix upperStr ''MB'' then inMB ''MB''
      else if HasSuffix upperStr ''M'' then inMB ''M''
      else case Atoi ramStr of
        None \<Rightarrow> Inl (Errorf0 (''invalid RAM value: '' @ ramStr))
      | Some ramGB \<Rightarrow> Inr (wrap64 (ramGB * 1024)))"

text \<open>A number of gigabytes beyond 64 bits of megabytes wraps around into an ordinary size.\<close>

lemma ParseRAMString_wraps: "ParseRAMString ''18014398509481985'' = Inr 1024"
proof -
  have t: "TrimSpace ''18014398509481985'' = ''18014398509481985''" by (simp add: TrimSpace_def is_space_def)
  have u: "ToUpper ''18014398509481985'' = ''18014398509481985''" by (simp add: ToUpper_def upper_char_def)
  have a: "Atoi ''18014398509481985'' = Some 18014398509481985"
    by (simp add: Atoi_def parse_int_def magnitude_def is_digit_def digit_val_def min_int64_def max_int64_def)
  show ?thesis by (simp add: ParseRAMString_def Let_def t u a HasSuffix_def wrap64_def)
qed

section \<open>Counters\<close>

text \<open>
  \<open>Counter\<close>: the next number for a timestamp; past a hundred entries, the ones that the
  clock and \<open>time.Parse\<close> call older than five minutes (\<open>old\<close>) are forgotten first.
\<close>

definition GetNext :: "(string \<Rightarrow> bool) \<Rightarrow> string \<Rightarrow> (string \<times> nat) list \<Rightarrow> nat \<times> (string \<times> nat) list" where
  "GetNext old ts cs =
     (let kept = (if 100 < length cs then filter (\<lambda>(t, n). \<not> (14 \<le> length t \<and> old t)) cs else cs);
          n = (case map_of kept ts of None \<Rightarrow> 0 | Some k \<Rightarrow> k) + 1 in
      (n, (ts, n) # filter (\<lambda>(t, k). t \<noteq> ts) kept))"

text \<open>Two backups in the same second never get the same number, as long as the second is not forgotten in between.\<close>

lemma GetNext_increases:
  assumes "GetNext old ts cs = (n, cs')" "\<not> old ts"
  shows "fst (GetNext old ts cs') = Suc n" "map_of cs ts = Some k \<Longrightarrow> k < n"
proof -
  have keep: "map_of (filter (\<lambda>(t, k). \<not> (14 \<le> length t \<and> old t)) xs) ts = map_of xs ts" for xs :: "(string \<times> nat) list"
    using assms(2) by (induction xs) auto
  show "fst (GetNext old ts cs') = Suc n"
    using assms keep[of cs'] by (auto simp: GetNext_def Let_def)
  show "map_of cs ts = Some k \<Longrightarrow> k < n"
    using assms keep[of cs] by (auto simp: GetNext_def Let_def split: if_splits)
qed

end
