(* ===== verification/TarStream.thy ===== *)
theory TarStream
  imports PgText Operr
begin

text \<open>
  The tar streams of a physical snapshot (\<open>internal/operations/snapshot_physical.go\<close>): the
  cold copy of a stopped cluster, and the rewriting of an archived stream into a container. A
  stream is the list of its members and how it ends: at its end or with a read error. Writing
  the result and (de)compressing it are not part of these functions.
\<close>

section \<open>Members\<close>

datatype typeflag = TypeReg | TypeDir | TypeSymlink | TypeLink | TypeXGlobalHeader | TypeOther

record tar_entry =
  te_Name :: string
  te_Type :: typeflag
  te_Data :: string

record tar_stream =
  ts_members :: "tar_entry list"
  ts_error :: "goerror option"

definition safeTarMemberName :: "string \<Rightarrow> string res" where
  "safeTarMemberName name =
     (let trimmed = (case CutPrefix name ''./'' of None \<Rightarrow> name | Some r \<Rightarrow> r); clean = Clean trimmed in
      if clean = ''.'' then Inr ''''
      else if IsAbs clean \<or> clean = ''..'' \<or> HasPrefix clean ''../''
      then Inl (Errorf0 (''unsafe tar member name '' @ [CHR 0x22] @ name @ [CHR 0x22]))
      else Inr clean)"

text \<open>\<open>None\<close> for the root directory entry itself.\<close>

definition stripFirstPathComponent :: "string \<Rightarrow> string option res" where
  "stripFirstPathComponent name =
     (case safeTarMemberName name of
        Inl e \<Rightarrow> Inl e
      | Inr clean \<Rightarrow>
          if clean = '''' then Inr None
          else case CutChar (CHR ''/'') clean of
            None \<Rightarrow> Inr None
          | Some (_, rest) \<Rightarrow> if rest = '''' then Inr None else Inr (Some rest))"

definition ephemeral_files :: "string list" where
  "ephemeral_files = [''postmaster.pid'', ''postmaster.opts'', ''backup_label.old'', ''tablespace_map.old'', ''current_logfiles.tmp'']"

definition runtime_dirs :: "string list" where
  "runtime_dirs = [''pg_dynshmem'', ''pg_notify'', ''pg_replslot'', ''pg_serial'', ''pg_snapshots'', ''pg_stat_tmp'', ''pg_subtrans'']"

definition coldCopyExcluded :: "string \<Rightarrow> bool \<Rightarrow> bool" where
  "coldCopyExcluded name isDir \<longleftrightarrow>
     name \<in> set ephemeral_files
     \<or> \<not> isDir \<and> Base name = ''pg_internal.init''
     \<or> list_ex (\<lambda>d. HasPrefix name (d @ ''/'')) runtime_dirs"

section \<open>Cold copy\<close>

text \<open>A dash as the messages have it.\<close>

definition dash_text :: string where
  "dash_text = [CHR 0x20, CHR 0xE2, CHR 0x80, CHR 0x94, CHR 0x20]"

text \<open>The member that the loop writes for one it reads: \<open>Inr None\<close> is \<open>continue\<close>.\<close>

definition cold_member :: "tar_entry \<Rightarrow> tar_entry option res" where
  "cold_member hdr =
     (case stripFirstPathComponent (te_Name hdr) of
        Inl e \<Rightarrow> Inl e
      | Inr None \<Rightarrow> Inr None
      | Inr (Some name) \<Rightarrow>
          if te_Type hdr = TypeXGlobalHeader then Inr None
          else if te_Type hdr = TypeSymlink \<or> te_Type hdr = TypeLink
          then Inl (Invalidf (Errorf0 (''data directory contains a link ('' @ te_Name hdr
                 @ ''); tablespaces and hand-placed symlinks are not supported by physical snapshots''
                 @ dash_text @ ''use --logical'')))
          else if te_Type hdr \<noteq> TypeReg \<and> te_Type hdr \<noteq> TypeDir
          then Inl (Errorf0 (''unsupported entry '' @ te_Name hdr @ '' in data directory stream''))
          else if coldCopyExcluded name (te_Type hdr = TypeDir) then Inr None
          else Inr (Some (hdr\<lparr>te_Name := if te_Type hdr = TypeDir \<and> \<not> HasSuffix name ''/'' then name @ ''/'' else name,
                              te_Data := if te_Type hdr = TypeReg then te_Data hdr else ''''\<rparr>)))"

fun copy_members :: "(tar_entry \<Rightarrow> tar_entry option res) \<Rightarrow> tar_entry list \<Rightarrow> tar_entry list res" where
  "copy_members f [] = Inr []"
| "copy_members f (h # hs) =
     (case f h of
        Inl e \<Rightarrow> Inl e
      | Inr None \<Rightarrow> copy_members f hs
      | Inr (Some m) \<Rightarrow> (case copy_members f hs of Inl e \<Rightarrow> Inl e | Inr ms \<Rightarrow> Inr (m # ms)))"

definition writeColdCopy :: "tar_stream \<Rightarrow> tar_entry list res" where
  "writeColdCopy src =
     (case copy_members cold_member (ts_members src) of
        Inl e \<Rightarrow> Inl e
      | Inr ms \<Rightarrow> (case ts_error src of None \<Rightarrow> Inr ms | Some e \<Rightarrow> Inl (wrap ''read data directory stream'' e)))"

section \<open>Rewriting into a container\<close>

definition pgDataPrefix :: "string \<Rightarrow> string \<Rightarrow> string res" where
  "pgDataPrefix mountTarget pgdata =
     (let target = Clean mountTarget; data = Clean pgdata;
          outside = Inl (Errorf0 (''container PGDATA '' @ [CHR 0x22] @ pgdata @ [CHR 0x22] @ '' is outside the data volume mount ''
                     @ [CHR 0x22] @ mountTarget @ [CHR 0x22] @ ''; this image's layout is not supported by physical restore'')) in
      if data = target then Inr ''''
      else case CutPrefix data (target @ ''/'') of
        None \<Rightarrow> outside
      | Some rest \<Rightarrow> if rest \<noteq> '''' \<and> \<not> Contains rest ''..'' then Inr rest else outside)"

fun prefix_dirs :: "string \<Rightarrow> string list \<Rightarrow> tar_entry list" where
  "prefix_dirs accumulated [] = []"
| "prefix_dirs accumulated (part # parts) =
     (let acc = Join2 accumulated part in \<lparr>te_Name = acc @ ''/'', te_Type = TypeDir, te_Data = ''''\<rparr> # prefix_dirs acc parts)"

definition rewrite_member :: "string \<Rightarrow> tar_entry \<Rightarrow> tar_entry option res" where
  "rewrite_member prefix hdr =
     (if te_Type hdr = TypeXGlobalHeader then Inr None
      else case safeTarMemberName (te_Name hdr) of
        Inl e \<Rightarrow> Inl e
      | Inr name \<Rightarrow>
          if name = '''' then Inr None
          else if te_Type hdr = TypeSymlink \<or> te_Type hdr = TypeLink
          then Inl (Invalidf (Errorf0 (''archive contains a link ('' @ te_Name hdr @ ''); tablespaces are not supported by physical restore'')))
          else if te_Type hdr \<noteq> TypeReg \<and> te_Type hdr \<noteq> TypeDir
          then Inl (Errorf0 (''unsupported archive entry '' @ te_Name hdr))
          else Inr (Some (hdr\<lparr>te_Name := Join2 prefix name @ (if te_Type hdr = TypeDir then ''/'' else ''''),
                              te_Data := if te_Type hdr = TypeReg then te_Data hdr else ''''\<rparr>)))"

text \<open>The content of the root-level \<open>PG_VERSION\<close> members, as it flows past.\<close>

definition captured_version :: "tar_entry list \<Rightarrow> string" where
  "captured_version hs =
     concat (map te_Data (filter (\<lambda>h. te_Type h = TypeReg \<and> safeTarMemberName (te_Name h) = Inr ''PG_VERSION''
                                   \<and> length (te_Data h) \<le> 64) hs))"

text \<open>
  The members that were streamed when the loop ended, and why it ended: what precedes a refused
  member is in the container by then.
\<close>

fun stream_members :: "(tar_entry \<Rightarrow> tar_entry option res) \<Rightarrow> tar_entry list \<Rightarrow> tar_entry list \<times> goerror option" where
  "stream_members f [] = ([], None)"
| "stream_members f (h # hs) =
     (case f h of
        Inl e \<Rightarrow> ([], Some e)
      | Inr None \<Rightarrow> stream_members f hs
      | Inr (Some m) \<Rightarrow> (case stream_members f hs of (ms, err) \<Rightarrow> (m # ms, err)))"

definition rewriteTarStream :: "string \<Rightarrow> bool \<Rightarrow> tar_stream \<Rightarrow> tar_entry list \<times> string \<times> goerror option" where
  "rewriteTarStream prefix emitPrefixDirs src =
     (case stream_members (rewrite_member prefix) (ts_members src) of (ms, err) \<Rightarrow>
        ((if emitPrefixDirs \<and> prefix \<noteq> '''' then prefix_dirs '''' (SplitChar (CHR ''/'') prefix) else []) @ ms,
         captured_version (takeWhile (\<lambda>h. \<not> isl (rewrite_member prefix h)) (ts_members src)),
         case err of Some e \<Rightarrow> Some e | None \<Rightarrow> map_option (wrap ''read archive'') (ts_error src)))"

section \<open>Clean relative paths\<close>

text \<open>A path below the directory it is read from: no empty, \<open>.\<close> or \<open>..\<close> element.\<close>

definition below :: "string \<Rightarrow> bool" where
  "below p \<longleftrightarrow> (\<forall>e \<in> set (SplitChar (CHR ''/'') p). e \<noteq> '''' \<and> e \<noteq> ''.'' \<and> e \<noteq> ''..'')"

definition elems :: "bool \<Rightarrow> string \<Rightarrow> string list" where
  "elems rooted p = rev (fold (clean_step rooted) (SplitChar (CHR ''/'') p) [])"

lemma JoinWith_SplitChar [simp]: "JoinWith [c] (SplitChar c s) = s"
proof (induction c s rule: SplitChar.induct)
  case (2 c x xs)
  obtain p ps where sp: "SplitChar c xs = p # ps" by (cases "SplitChar c xs") auto
  show ?case
  proof (cases "x = c")
    case True
    then show ?thesis using 2(1)[OF True] sp by simp
  next
    case False
    have ih: "JoinWith [c] (p # ps) = xs" using 2(2)[OF False] unfolding sp .
    have j: "JoinWith [c] ((x # p) # ps) = x # JoinWith [c] (p # ps)" by (cases ps) simp_all
    have "SplitChar c (x # xs) = (x # p) # ps" using False sp by simp
    then show ?thesis unfolding j ih by (simp only: j ih)
  qed
qed simp

lemma SplitChar_pieces: "e \<in> set (SplitChar c s) \<Longrightarrow> c \<notin> set e"
  by (induction c s arbitrary: e rule: SplitChar.induct) (auto split: if_splits list.splits)

lemma fold_clean_plain:
  "\<forall>e \<in> set xs. e \<noteq> '''' \<and> e \<noteq> ''.'' \<and> e \<noteq> ''..'' \<Longrightarrow> fold (clean_step r) xs acc = rev xs @ acc"
  by (induction xs arbitrary: acc) (auto simp: clean_step_def)

lemma below_not_abs: "below p \<Longrightarrow> p \<noteq> '''' \<and> \<not> IsAbs p"
proof -
  assume b: "below p"
  have ne: "'''' \<notin> set (SplitChar (CHR ''/'') p)" using b unfolding below_def by blast
  then have "p \<noteq> ''''" by (intro notI) simp
  moreover have "\<not> IsAbs p"
  proof
    assume "IsAbs p"
    then obtain q where "p = CHR ''/'' # q" by (cases p) (simp_all add: IsAbs_def HasPrefix_def)
    then show False using ne by simp
  qed
  ultimately show ?thesis by simp
qed

lemma Clean_below: "below p \<Longrightarrow> Clean p = p"
proof -
  assume b: "below p"
  have "fold (clean_step False) (SplitChar (CHR ''/'') p) [] = rev (SplitChar (CHR ''/'') p)"
    using fold_clean_plain[of "SplitChar (CHR ''/'') p" False "[]"] b by (simp add: below_def)
  then show ?thesis using below_not_abs[OF b] by (simp add: Clean_def Let_def)
qed

lemma below_join: "below a \<Longrightarrow> below b \<Longrightarrow> below (a @ ''/'' @ b)"
  using SplitChar_at[of "CHR ''/''" a b] by (auto simp: below_def)

lemma Join2_below: "below a \<Longrightarrow> below b \<Longrightarrow> Join2 a b = a @ ''/'' @ b"
  using Clean_below[OF below_join] below_not_abs by (simp add: Join2_def)

lemma Join2_below_root: "below b \<Longrightarrow> Join2 '''' b = b"
  using Clean_below[of b] below_not_abs[of b] by (simp add: Join2_def)

text \<open>The elements of a cleaned relative path are proper names behind its leading \<open>..\<close>.\<close>

definition dots_last :: "string list \<Rightarrow> bool" where
  "dots_last acc \<longleftrightarrow> (\<exists>k xs. acc = xs @ replicate k ''..'' \<and> (\<forall>e \<in> set xs. e \<noteq> '''' \<and> e \<noteq> ''.'' \<and> e \<noteq> ''..'' \<and> CHR ''/'' \<notin> set e))"

lemma clean_step_dots:
  assumes "dots_last acc" "CHR ''/'' \<notin> set e"
  shows "dots_last (clean_step False e acc)"
proof -
  obtain k xs where acc: "acc = xs @ replicate k ''..''"
    and xs: "\<forall>e \<in> set xs. e \<noteq> '''' \<and> e \<noteq> ''.'' \<and> e \<noteq> ''..'' \<and> CHR ''/'' \<notin> set e"
    using assms(1) unfolding dots_last_def by blast
  consider (skip) "e = '''' \<or> e = ''.''" | (up) "e = ''..''" | (name) "e \<noteq> ''''" "e \<noteq> ''.''" "e \<noteq> ''..''" by blast
  then show ?thesis
  proof cases
    case skip then show ?thesis using assms(1) by (auto simp: clean_step_def)
  next
    case up
    show ?thesis
    proof (cases xs)
      case Nil
      have "clean_step False e acc = replicate (Suc k) ''..''"
        using up acc Nil by (cases k) (auto simp: clean_step_def)
      then show ?thesis unfolding dots_last_def by (intro exI[of _ "Suc k"] exI[of _ "[]"]) simp
    next
      case (Cons y ys)
      then have "clean_step False e acc = ys @ replicate k ''..''" using up acc xs by (auto simp: clean_step_def)
      then show ?thesis using xs Cons unfolding dots_last_def by (intro exI[of _ k] exI[of _ ys]) simp
    qed
  next
    case name
    then have "clean_step False e acc = (e # xs) @ replicate k ''..''" using acc by (simp add: clean_step_def)
    then show ?thesis using xs name assms(2) unfolding dots_last_def by (intro exI[of _ k] exI[of _ "e # xs"]) simp
  qed
qed

lemma fold_clean_dots:
  "dots_last acc \<Longrightarrow> \<forall>e \<in> set es. CHR ''/'' \<notin> set e \<Longrightarrow> dots_last (fold (clean_step False) es acc)"
  by (induction es arbitrary: acc) (simp_all add: clean_step_dots)

text \<open>A member name that is accepted is the root itself or below it.\<close>

lemma safeTarMemberName_below:
  assumes "safeTarMemberName n = Inr m"
  shows "m = '''' \<or> below m"
proof (rule ccontr)
  assume no: "\<not> (m = '''' \<or> below m)"
  define t where "t = (case CutPrefix n ''./'' of None \<Rightarrow> n | Some r \<Rightarrow> r)"
  have m: "m = Clean t" "m \<noteq> ''.''" "\<not> IsAbs m" "m \<noteq> ''..''" "\<not> HasPrefix m ''../''"
    using assms no by (auto simp: safeTarMemberName_def t_def[symmetric] Let_def split: if_splits)
  have ne: "t \<noteq> ''''" using m by (auto simp: Clean_def)
  have rel: "\<not> IsAbs t"
  proof
    assume "IsAbs t"
    then have "IsAbs m" using m(1) ne by (simp add: Clean_def Let_def IsAbs_def HasPrefix_def)
    then show False using m(3) by simp
  qed
  have "dots_last (fold (clean_step False) (SplitChar (CHR ''/'') t) [])"
    using SplitChar_pieces[of _ "CHR ''/''" t] by (intro fold_clean_dots) (auto simp: dots_last_def)
  then obtain k xs where f: "fold (clean_step False) (SplitChar (CHR ''/'') t) [] = xs @ replicate k ''..''"
    and xs: "\<forall>e \<in> set xs. e \<noteq> '''' \<and> e \<noteq> ''.'' \<and> e \<noteq> ''..'' \<and> CHR ''/'' \<notin> set e"
    unfolding dots_last_def by blast
  let ?es = "replicate k ''..'' @ rev xs"
  have mm: "m = (if JoinWith ''/'' ?es = '''' then ''.'' else JoinWith ''/'' ?es)"
    using m(1) ne rel f by (simp add: Clean_def Let_def)
  then have mj: "m = JoinWith ''/'' ?es" using m(2) by (simp split: if_splits)
  have ne': "?es \<noteq> []" using mm m(2) by (auto split: if_splits)
  have k0: "k = 0"
  proof (cases k)
    case (Suc j)
    then have "m = ''..'' \<or> HasPrefix m ''../''"
      unfolding mj by (cases "replicate j ''..'' @ rev xs") (auto simp: HasPrefix_def)
    then show ?thesis using m(4,5) by blast
  qed
  have "SplitChar (CHR ''/'') m = rev xs"
    unfolding mj using k0 ne' xs by (subst SplitChar_JoinWith) auto
  then have "below m" using xs by (simp add: below_def)
  then show False using no by simp
qed

section \<open>What a rewritten stream can reach\<close>

lemma stream_members_all:
  "stream_members f hs = (ms, err) \<Longrightarrow> m \<in> set ms \<Longrightarrow> \<exists>h \<in> set hs. f h = Inr (Some m)"
  by (induction hs arbitrary: ms) (auto split: sum.splits option.splits prod.splits)

lemma stream_members_done:
  "stream_members f hs = (ms, None) \<Longrightarrow> h \<in> set hs \<Longrightarrow> \<exists>x. f h = Inr x"
  by (induction hs arbitrary: ms) (auto split: sum.splits option.splits prod.splits)

lemma copy_members_map:
  "(\<And>h. h \<in> set hs \<Longrightarrow> f h = Inr (if P h then Some (g h) else None)) \<Longrightarrow> copy_members f hs = Inr (map g (filter P hs))"
  by (induction hs) auto

definition prefix_ok :: "string \<Rightarrow> bool" where
  "prefix_ok p \<longleftrightarrow> p = '''' \<or> below p"

lemma Join2_ok: "prefix_ok p \<Longrightarrow> below m \<Longrightarrow> below (Join2 p m) \<and> Join2 p m = (if p = '''' then m else p @ ''/'' @ m)"
  using Join2_below[of p m] Join2_below_root[of m] below_join[of p m] below_not_abs by (auto simp: prefix_ok_def)

lemma below_pieces: "below p \<Longrightarrow> x \<in> set (SplitChar (CHR ''/'') p) \<Longrightarrow> below x"
  using SplitChar_pieces[of x "CHR ''/''" p] SplitChar_no_sep[of "CHR ''/''" x] by (auto simp: below_def)

lemma prefix_dirs_ok:
  "prefix_ok acc \<Longrightarrow> \<forall>x \<in> set parts. below x \<Longrightarrow> e \<in> set (prefix_dirs acc parts) \<Longrightarrow>
     te_Type e = TypeDir \<and> (\<exists>m r. below m \<and> te_Name e = m @ ''/''
        \<and> (if acc = '''' then '''' else acc @ ''/'') @ JoinWith ''/'' parts @ ''/'' = te_Name e @ r)"
proof (induction parts arbitrary: acc)
  case (Cons x parts)
  have x: "below x" using Cons.prems(2) by simp
  note j = Join2_ok[OF Cons.prems(1) x]
  have ne: "Join2 acc x \<noteq> ''''" "prefix_ok (Join2 acc x)" using j below_not_abs[of "Join2 acc x"] by (auto simp: prefix_ok_def)
  have path: "(if acc = '''' then '''' else acc @ ''/'') @ JoinWith ''/'' (x # parts) @ ''/''
      = (if parts = [] then Join2 acc x @ ''/'' else (Join2 acc x @ ''/'') @ JoinWith ''/'' parts @ ''/'')"
    using j by (cases parts) simp_all
  consider "e = \<lparr>te_Name = Join2 acc x @ ''/'', te_Type = TypeDir, te_Data = ''''\<rparr>" | "e \<in> set (prefix_dirs (Join2 acc x) parts)"
    using Cons.prems(3) by (auto simp: Let_def)
  then show ?case
  proof cases
    case 1
    then show ?thesis using j unfolding path by (auto intro!: exI[of _ "Join2 acc x"] split: if_splits)
  next
    case 2
    have rest: "\<forall>x \<in> set parts. below x" "parts \<noteq> []" using Cons.prems(2) 2 by auto
    show ?thesis using Cons.IH[OF ne(2) rest(1) 2] ne(1) rest(2) unfolding path by simp
  qed
qed simp

lemma Contains_mid: "Contains (a @ e @ b) e"
proof (induction a)
  case Nil
  show ?case
  proof (cases "e @ b")
    case (Cons x xs)
    have "HasPrefix (e @ b) e" by simp
    then show ?thesis unfolding append_Nil Cons by simp
  qed simp
qed simp

lemma Contains_piece: "e \<in> set (SplitChar c s) \<Longrightarrow> Contains s e"
proof -
  assume "e \<in> set (SplitChar c s)"
  then obtain xs ys where xs: "SplitChar c s = xs @ e # ys" by (meson split_list)
  have "\<exists>a b. JoinWith [c] (xs @ e # ys) = a @ e @ b" for xs ys
  proof (induction xs)
    case Nil
    show ?case by (cases ys) (auto intro: exI[of _ "''''"])
  next
    case (Cons x xs)
    then obtain a b where ab: "JoinWith [c] (xs @ e # ys) = a @ e @ b" by blast
    have "JoinWith [c] ((x # xs) @ e # ys) = (x @ c # a) @ e @ b" using ab by (cases xs) simp_all
    then show ?case by blast
  qed
  then obtain a b where "JoinWith [c] (SplitChar c s) = a @ e @ b" unfolding xs by blast
  then show ?thesis using Contains_mid[of a e b] by simp
qed

section \<open>A cold copy comes back\<close>

lemma not_dot_slash: "below m \<Longrightarrow> CutPrefix m ''./'' = None"
proof (rule ccontr)
  assume b: "below m" and "CutPrefix m ''./'' \<noteq> None"
  then obtain r where "m = ''.'' @ CHR ''/'' # r" using CutPrefix_Some[of m "''./''"] by fastforce
  then have "''.'' \<in> set (SplitChar (CHR ''/'') m)" using SplitChar_append[of "CHR ''/''" "''.''" r] by simp
  then show False using b unfolding below_def by blast
qed

lemma Clean_slash: "below m \<Longrightarrow> Clean (m @ ''/'') = m"
proof -
  assume b: "below m"
  have sp: "SplitChar (CHR ''/'') (m @ ''/'') = SplitChar (CHR ''/'') m @ ['''']"
    using SplitChar_at[of "CHR ''/''" m "''''"] by simp
  have "fold (clean_step False) (SplitChar (CHR ''/'') m) [] = rev (SplitChar (CHR ''/'') m)"
    using fold_clean_plain[of "SplitChar (CHR ''/'') m" False "[]"] b by (simp add: below_def)
  moreover have "\<not> IsAbs (m @ ''/'')" using below_not_abs[OF b] by (cases m) (auto simp: IsAbs_def HasPrefix_def)
  ultimately show ?thesis using below_not_abs[OF b] by (simp add: Clean_def Let_def sp clean_step_def)
qed

lemma safeTarMemberName_ok:
  assumes "below m"
  shows "safeTarMemberName (m @ (if d then ''/'' else '''')) = Inr m"
proof -
  have c: "Clean (m @ (if d then ''/'' else '''')) = m" using Clean_below[OF assms] Clean_slash[OF assms] by simp

  have pc: "''.'' \<notin> set (SplitChar (CHR ''/'') m)" "''..'' \<notin> set (SplitChar (CHR ''/'') m)"
    using assms unfolding below_def by blast+
  have nd: "m \<noteq> ''.''" using pc(1) by (intro notI) simp
  have nd2: "m \<noteq> ''..''" using pc(2) by (intro notI) simp
  have np: "\<not> HasPrefix m ''../''"
  proof
    assume "HasPrefix m ''../''"
    then obtain r where "m = ''..'' @ CHR ''/'' # r"
      using CutPrefix_Some[of m "''../''"] by (auto simp: CutPrefix_def)
    then show False using pc(2) SplitChar_append[of "CHR ''/''" "''..''" r] by simp
  qed
  have "CutPrefix (m @ (if d then ''/'' else '''')) ''./'' = None"
  proof (cases m)
    case (Cons x t)
    then show ?thesis using nd not_dot_slash[OF assms] by (cases t) (auto simp: CutPrefix_def HasPrefix_def split: if_splits)
  qed (use below_not_abs[OF assms] in simp)
  then show ?thesis using c nd nd2 np below_not_abs[OF assms] by (simp add: safeTarMemberName_def Let_def)
qed

lemma clean_step_names:
  "\<forall>x \<in> set acc. x \<noteq> '''' \<and> x \<noteq> ''.'' \<and> CHR ''/'' \<notin> set x \<Longrightarrow> CHR ''/'' \<notin> set e \<Longrightarrow>
     \<forall>x \<in> set (clean_step r e acc). x \<noteq> '''' \<and> x \<noteq> ''.'' \<and> CHR ''/'' \<notin> set x"
  by (cases acc) (simp_all add: clean_step_def)

lemma fold_clean_names:
  "\<forall>x \<in> set acc. x \<noteq> '''' \<and> x \<noteq> ''.'' \<and> CHR ''/'' \<notin> set x \<Longrightarrow> \<forall>e \<in> set es. CHR ''/'' \<notin> set e \<Longrightarrow>
     \<forall>x \<in> set (fold (clean_step r) es acc). x \<noteq> '''' \<and> x \<noteq> ''.'' \<and> CHR ''/'' \<notin> set x"
proof (induction es arbitrary: acc)
  case (Cons e es)
  have st: "\<forall>x \<in> set (clean_step r e acc). x \<noteq> '''' \<and> x \<noteq> ''.'' \<and> CHR ''/'' \<notin> set x"
    by (rule clean_step_names[OF Cons.prems(1)]) (use Cons.prems(2) in simp)
  have "\<forall>e \<in> set es. CHR ''/'' \<notin> set e" using Cons.prems(2) by simp
  from Cons.IH[OF st this] show ?case by (simp only: fold_simps)
qed simp

lemma Clean_tail_pieces:
  assumes "e \<in> set (tl (SplitChar (CHR ''/'') (Clean p)))" "Clean p \<noteq> ''/''"
  shows "e \<noteq> '''' \<and> e \<noteq> ''.''"
proof (cases "p = ''''")
  case False
  define es where "es = rev (fold (clean_step (IsAbs p)) (SplitChar (CHR ''/'') p) [])"
  have names: "\<forall>x \<in> set es. x \<noteq> '''' \<and> x \<noteq> ''.'' \<and> CHR ''/'' \<notin> set x"
    using fold_clean_names[of "[]" "SplitChar (CHR ''/'') p" "IsAbs p"] SplitChar_pieces[of _ "CHR ''/''" p]
    unfolding es_def set_rev by simp
  have cl: "Clean p = (if IsAbs p then CHR ''/'' # JoinWith ''/'' es else if JoinWith ''/'' es = '''' then ''.'' else JoinWith ''/'' es)"
    using False unfolding es_def by (cases "IsAbs p") (simp_all add: Clean_def Let_def)
  show ?thesis
  proof (cases "es = []")
    case True
    then show ?thesis using assms cl by (simp split: if_splits)
  next
    case ne: False
    have sp: "SplitChar (CHR ''/'') (JoinWith ''/'' es) = es" using SplitChar_JoinWith[OF ne] names by blast
    have "set (tl (SplitChar (CHR ''/'') (Clean p))) \<subseteq> set es"
      using cl sp by (auto split: if_splits dest: list.set_sel(2)[rotated])
    then show ?thesis using assms(1) names by blast
  qed
qed (use assms in \<open>simp add: Clean_def\<close>)

text \<open>Wherever the image keeps its data directory, the prefix it gives is below the volume's mount point.\<close>

lemma pgDataPrefix_ok: "pgDataPrefix mountTarget pgdata = Inr p \<Longrightarrow> prefix_ok p"
proof (cases "p = ''''")
  case False
  assume "pgDataPrefix mountTarget pgdata = Inr p"
  then have c: "CutPrefix (Clean pgdata) (Clean mountTarget @ ''/'') = Some p" and nd: "\<not> Contains p ''..''"
    using False by (auto simp: pgDataPrefix_def Let_def split: if_splits option.splits)
  have d: "Clean pgdata = Clean mountTarget @ CHR ''/'' # p" using CutPrefix_Some[OF c] by simp
  obtain a as where a: "SplitChar (CHR ''/'') (Clean mountTarget) = a # as" by (cases "SplitChar (CHR ''/'') (Clean mountTarget)") auto
  have t: "tl (SplitChar (CHR ''/'') (Clean pgdata)) = as @ SplitChar (CHR ''/'') p"
    unfolding d SplitChar_at a by simp
  have "Clean pgdata \<noteq> ''/''" using d False by (cases "Clean mountTarget") auto
  then have "e \<noteq> '''' \<and> e \<noteq> ''.''" if "e \<in> set (SplitChar (CHR ''/'') p)" for e
    using Clean_tail_pieces[of e pgdata] that unfolding t by simp
  moreover have "''..'' \<notin> set (SplitChar (CHR ''/'') p)" using Contains_piece[of "''..''" "CHR ''/''" p] nd by blast
  ultimately show ?thesis unfolding prefix_ok_def below_def by blast
qed (simp add: prefix_ok_def)

lemma pgDataPrefix_path:
  "pgDataPrefix mountTarget pgdata = Inr p \<Longrightarrow> Clean pgdata = Clean mountTarget @ (if p = '''' then '''' else ''/'' @ p)"
  by (auto simp: pgDataPrefix_def Let_def split: if_splits option.splits dest!: CutPrefix_Some)

lemma rewrite_member_name:
  assumes "rewrite_member p h = Inr (Some e)" "prefix_ok p"
  shows "te_Type e \<in> {TypeReg, TypeDir} \<and> (\<exists>m. below m
     \<and> te_Name e = (if p = '''' then '''' else p @ ''/'') @ m @ (if te_Type e = TypeDir then ''/'' else ''''))"
proof -
  obtain n where n: "safeTarMemberName (te_Name h) = Inr n" "n \<noteq> ''''"
    using assms(1) by (auto simp: rewrite_member_def split: sum.splits if_splits)
  then have b: "below n" using safeTarMemberName_below by blast
  have "te_Type e \<in> {TypeReg, TypeDir} \<and> te_Name e = Join2 p n @ (if te_Type e = TypeDir then ''/'' else '''')"
    using assms(1) n by (auto simp: rewrite_member_def split: if_splits)
  then show ?thesis using b Join2_ok[OF assms(2) b] by auto
qed

text \<open>
  C9. What a restore streams into a container stays inside the data directory, whatever the archive
  contains and wherever the stream breaks off: every member written so far is a regular file or a
  directory, and its path under the mount point is the container's data directory followed by a
  path without an absolute, empty, \<open>.\<close> or \<open>..\<close> element; the one exception are the directories that
  lead from the mount point to the data directory, which are announced first when the caller asks for
  it. A stream that is rewritten without an error held nothing but plain files and directories with
  accepted names, apart from global headers and its root.
\<close>

theorem rewriteTarStream_confined:
  assumes "pgDataPrefix mountTarget pgdata = Inr prefix" "rewriteTarStream prefix dirs src = (out, v, err)"
  shows "(\<forall>e \<in> set out. te_Type e \<in> {TypeReg, TypeDir} \<and>
            ((\<exists>m. below m \<and> Clean mountTarget @ ''/'' @ te_Name e = Clean pgdata @ ''/'' @ m @ (if te_Type e = TypeDir then ''/'' else ''''))
             \<or> dirs \<and> te_Type e = TypeDir \<and> (\<exists>m r. below m \<and> te_Name e = m @ ''/''
                  \<and> Clean pgdata @ ''/'' = Clean mountTarget @ ''/'' @ te_Name e @ r)))
       \<and> (err = None \<longrightarrow> (\<forall>h \<in> set (ts_members src). te_Type h = TypeXGlobalHeader
              \<or> (\<exists>n. safeTarMemberName (te_Name h) = Inr n \<and> (n = '''' \<or> te_Type h \<in> {TypeReg, TypeDir}))))"
proof (intro conjI ballI impI)
  have p: "prefix_ok prefix" using assms(1) by (rule pgDataPrefix_ok)
  note path = pgDataPrefix_path[OF assms(1)]
  obtain ms err0 where ms: "stream_members (rewrite_member prefix) (ts_members src) = (ms, err0)" by fastforce
  have out: "out = (if dirs \<and> prefix \<noteq> '''' then prefix_dirs '''' (SplitChar (CHR ''/'') prefix) else []) @ ms"
    and err: "err = None \<longrightarrow> err0 = None"
    using assms(2) ms by (auto simp: rewriteTarStream_def split: option.splits)
  {
    fix h assume "err = None" "h \<in> set (ts_members src)"
    then obtain x where "rewrite_member prefix h = Inr x" using stream_members_done ms err by blast
    then show "te_Type h = TypeXGlobalHeader \<or> (\<exists>n. safeTarMemberName (te_Name h) = Inr n \<and> (n = '''' \<or> te_Type h \<in> {TypeReg, TypeDir}))"
      by (auto simp: rewrite_member_def split: if_splits sum.splits)
  }
  fix e assume "e \<in> set out"
  then consider "e \<in> set ms" | "e \<in> set (prefix_dirs '''' (SplitChar (CHR ''/'') prefix))" "prefix \<noteq> ''''" dirs
    using out by (auto split: if_splits)
  note cases = this
  show "te_Type e \<in> {TypeReg, TypeDir}" and "(\<exists>m. below m \<and> Clean mountTarget @ ''/'' @ te_Name e = Clean pgdata @ ''/'' @ m @ (if te_Type e = TypeDir then ''/'' else ''''))
             \<or> dirs \<and> te_Type e = TypeDir \<and> (\<exists>m r. below m \<and> te_Name e = m @ ''/'' \<and> Clean pgdata @ ''/'' = Clean mountTarget @ ''/'' @ te_Name e @ r)"
  proof -
    have "te_Type e \<in> {TypeReg, TypeDir} \<and> ((\<exists>m. below m \<and> Clean mountTarget @ ''/'' @ te_Name e = Clean pgdata @ ''/'' @ m @ (if te_Type e = TypeDir then ''/'' else ''''))
             \<or> dirs \<and> te_Type e = TypeDir \<and> (\<exists>m r. below m \<and> te_Name e = m @ ''/'' \<and> Clean pgdata @ ''/'' = Clean mountTarget @ ''/'' @ te_Name e @ r))"
      using cases
    proof cases
      case 1
      obtain h where "rewrite_member prefix h = Inr (Some e)" using stream_members_all[OF ms 1] by blast
      from rewrite_member_name[OF this p] show ?thesis unfolding path by (auto split: if_splits)
    next
      case 2
      then have "\<forall>x \<in> set (SplitChar (CHR ''/'') prefix). below x" using p below_pieces by (auto simp: prefix_ok_def)
      from prefix_dirs_ok[of "''''", OF _ this 2(1)] show ?thesis using 2(2,3) unfolding path by (auto simp: prefix_ok_def)
    qed
    then show "te_Type e \<in> {TypeReg, TypeDir}" and "(\<exists>m. below m \<and> Clean mountTarget @ ''/'' @ te_Name e = Clean pgdata @ ''/'' @ m @ (if te_Type e = TypeDir then ''/'' else ''''))
             \<or> dirs \<and> te_Type e = TypeDir \<and> (\<exists>m r. below m \<and> te_Name e = m @ ''/'' \<and> Clean pgdata @ ''/'' = Clean mountTarget @ ''/'' @ te_Name e @ r)"
      by blast+
  qed
qed

text \<open>A member of a data directory, and the stream in which the engine hands out the directory \<open>root\<close>.\<close>

definition cluster_member :: "tar_entry \<Rightarrow> bool" where
  "cluster_member e \<longleftrightarrow> below (te_Name e) \<and> te_Type e \<in> {TypeReg, TypeDir} \<and> (te_Type e = TypeDir \<longrightarrow> te_Data e = '''')"

definition placed :: "string \<Rightarrow> tar_entry \<Rightarrow> tar_entry" where
  "placed root e = e\<lparr>te_Name := root @ te_Name e @ (if te_Type e = TypeDir then ''/'' else '''')\<rparr>"

definition copied_out :: "string \<Rightarrow> tar_entry list \<Rightarrow> tar_stream" where
  "copied_out root es =
     \<lparr>ts_members = \<lparr>te_Name = root @ ''/'', te_Type = TypeDir, te_Data = ''''\<rparr> # map (placed (root @ ''/'')) es, ts_error = None\<rparr>"

text \<open>
  Run-time state, read off the elements of the path: the five files at the root that only a
  running server needs, a relation cache at any depth, and what lies below the seven
  directories that a server fills while it runs. The directories themselves are kept.
\<close>

definition kept :: "tar_entry \<Rightarrow> bool" where
  "kept e \<longleftrightarrow> (case SplitChar (CHR ''/'') (te_Name e) of
       [] \<Rightarrow> True
     | [name] \<Rightarrow> name \<notin> {''postmaster.pid'', ''postmaster.opts'', ''backup_label.old'', ''tablespace_map.old'', ''current_logfiles.tmp''}
         \<and> (te_Type e = TypeDir \<or> name \<noteq> ''pg_internal.init'')
     | dir # x # rest \<Rightarrow> dir \<notin> {''pg_dynshmem'', ''pg_notify'', ''pg_replslot'', ''pg_serial'', ''pg_snapshots'', ''pg_stat_tmp'', ''pg_subtrans''}
         \<and> (te_Type e = TypeDir \<or> last (x # rest) \<noteq> ''pg_internal.init''))"

lemma SplitChar_singleton: "SplitChar c s = [x] \<Longrightarrow> s = x"
  using JoinWith_SplitChar[of c s] by simp

lemma SplitChar_first: "SplitChar c s = d # x # xs \<Longrightarrow> \<exists>r. s = d @ c # r \<and> SplitChar c r = x # xs"
  by (induction s arbitrary: d) (auto split: if_splits list.splits)

lemma Base_below: "below m \<Longrightarrow> Base m = last (SplitChar (CHR ''/'') m)"
proof -
  assume b: "below m"
  let ?t = "last (SplitChar (CHR ''/'') m)"
  have "?t \<in> set (SplitChar (CHR ''/'') m)" by simp
  then have t: "plain_name ?t" using b SplitChar_pieces[of ?t "CHR ''/''" m] unfolding below_def plain_name_def by auto
  show ?thesis
  proof (cases "CHR ''/'' \<in> set m")
    case True
    then obtain q n where m: "m = q @ CHR ''/'' # n" "CHR ''/'' \<notin> set n" by (metis split_list_last)
    then have "?t = n" using SplitChar_at[of "CHR ''/''" q n] SplitChar_no_sep[OF m(2)] by simp
    then show ?thesis using Base_plain[OF t, of q] m(1) by simp
  next
    case False
    then have "?t = m" by (simp add: SplitChar_no_sep)
    then show ?thesis using Base_plain_alone[OF t] by simp
  qed
qed

lemma below_root_element: "CHR ''/'' \<notin> set d \<Longrightarrow> HasPrefix m (d @ ''/'') \<longleftrightarrow> (\<exists>x xs. SplitChar (CHR ''/'') m = d # x # xs)"
proof -
  assume d: "CHR ''/'' \<notin> set d"
  have "\<exists>x xs. SplitChar (CHR ''/'') (d @ CHR ''/'' # r) = d # x # xs" for r
    using SplitChar_append[OF d, of r] by (cases "SplitChar (CHR ''/'') r") auto
  moreover have "HasPrefix m (d @ ''/'') \<longleftrightarrow> (\<exists>r. m = d @ CHR ''/'' # r)"
  proof
    assume "HasPrefix m (d @ ''/'')"
    then have "m = (d @ ''/'') @ drop (length (d @ ''/'')) m" unfolding HasPrefix_def by (metis append_take_drop_id)
    then have "m = d @ CHR ''/'' # drop (length (d @ ''/'')) m" by simp
    then show "\<exists>r. m = d @ CHR ''/'' # r" by (rule exI)
  qed (auto simp: HasPrefix_def)
  ultimately show ?thesis using SplitChar_first[of "CHR ''/''" m d] by metis
qed

lemma kept_iff:
  assumes "below (te_Name e)"
  shows "kept e \<longleftrightarrow> \<not> coldCopyExcluded (te_Name e) (te_Type e = TypeDir)"
proof -
  let ?m = "te_Name e"
  have run: "list_ex (\<lambda>d. HasPrefix ?m (d @ ''/'')) runtime_dirs \<longleftrightarrow> (\<exists>d x xs. SplitChar (CHR ''/'') ?m = d # x # xs \<and> d \<in> set runtime_dirs)"
  proof -
    have "HasPrefix ?m (d @ ''/'') \<longleftrightarrow> (\<exists>x xs. SplitChar (CHR ''/'') ?m = d # x # xs)" if "d \<in> set runtime_dirs" for d
      using that by (intro below_root_element) (auto simp: runtime_dirs_def)
    then show ?thesis unfolding list_ex_iff by blast
  qed
  have spelled: "{''postmaster.pid'', ''postmaster.opts'', ''backup_label.old'', ''tablespace_map.old'', ''current_logfiles.tmp''} = set ephemeral_files"
    "{''pg_dynshmem'', ''pg_notify'', ''pg_replslot'', ''pg_serial'', ''pg_snapshots'', ''pg_stat_tmp'', ''pg_subtrans''} = set runtime_dirs"
    unfolding ephemeral_files_def runtime_dirs_def list.set by (rule refl)+
  have root: "?m \<in> set ephemeral_files \<longleftrightarrow> (\<exists>n. SplitChar (CHR ''/'') ?m = [n] \<and> n \<in> set ephemeral_files)"
    using SplitChar_singleton[of "CHR ''/''" ?m] by (auto simp: ephemeral_files_def)
  show ?thesis
    unfolding coldCopyExcluded_def Base_below[OF assms] run root kept_def spelled
    by (cases "SplitChar (CHR ''/'') ?m" rule: remdups_adj.cases) auto
qed

lemma safe_placed:
  assumes "below r" "cluster_member e"
  shows "safeTarMemberName (te_Name (placed (r @ ''/'') e)) = Inr (r @ ''/'' @ te_Name e)"
    "safeTarMemberName (te_Name (placed '''' e)) = Inr (te_Name e)"
  using safeTarMemberName_ok[OF below_join[OF assms(1)], of "te_Name e" "te_Type e = TypeDir"]
    safeTarMemberName_ok[of "te_Name e" "te_Type e = TypeDir"] assms(2)
  by (simp_all add: placed_def cluster_member_def)

lemma below_no_trailing: "below m \<Longrightarrow> \<not> HasSuffix m ''/''"
proof
  assume b: "below m" and "HasSuffix m ''/''"
  then obtain q where "m = q @ CHR ''/'' # ''''" by (auto simp: HasSuffix_iff)
  then have "'''' \<in> set (SplitChar (CHR ''/'') m)" using SplitChar_at[of "CHR ''/''" q "''''"] by simp
  then show False using b unfolding below_def by blast
qed

lemma cold_member_placed:
  assumes "below r" "CHR ''/'' \<notin> set r" "cluster_member e"
  shows "cold_member (placed (r @ ''/'') e) = Inr (if kept e then Some (placed '''' e) else None)"
proof -
  have b: "below (te_Name e)" "te_Type e = TypeReg \<or> te_Type e = TypeDir" using assms(3) by (auto simp: cluster_member_def)
  have s: "stripFirstPathComponent (te_Name (placed (r @ ''/'') e)) = Inr (Some (te_Name e))"
    using safe_placed(1)[OF assms(1,3)] assms(2) below_not_abs[OF assms(1)] below_not_abs[OF b(1)]
    by (simp add: stripFirstPathComponent_def)
  have d: "te_Type e = TypeDir \<Longrightarrow> te_Data e = ''''" using assms(3) by (simp add: cluster_member_def)
  have t: "te_Type (placed (r @ ''/'') e) = te_Type e" "te_Data (placed (r @ ''/'') e) = te_Data e" by (simp_all add: placed_def)
  show ?thesis
    using b(2) below_no_trailing[OF b(1)] d unfolding cold_member_def s t kept_iff[OF b(1)]
    by (elim disjE) (simp_all add: placed_def)
qed

lemma rewrite_member_placed:
  assumes "prefix_ok p" "cluster_member e"
  shows "rewrite_member p (placed '''' e) = Inr (Some (placed (if p = '''' then '''' else p @ ''/'') e))"
proof -
  have b: "below (te_Name e)" "te_Type e = TypeReg \<or> te_Type e = TypeDir" using assms(2) by (auto simp: cluster_member_def)
  have s: "safeTarMemberName (te_Name (placed '''' e)) = Inr (te_Name e)"
    using safeTarMemberName_ok[OF b(1), of "te_Type e = TypeDir"] by (simp add: placed_def)
  have d: "te_Type e = TypeDir \<Longrightarrow> te_Data e = ''''" using assms(2) by (simp add: cluster_member_def)
  have t: "te_Type (placed '''' e) = te_Type e" "te_Data (placed '''' e) = te_Data e" by (simp_all add: placed_def)
  show ?thesis
    using b(2) d Join2_ok[OF assms(1) b(1)] below_not_abs[OF b(1)] unfolding rewrite_member_def s t
    by (elim disjE) (simp_all add: placed_def)
qed

lemma cold_root: "below r \<Longrightarrow> CHR ''/'' \<notin> set r \<Longrightarrow> cold_member \<lparr>te_Name = r @ ''/'', te_Type = TypeDir, te_Data = d\<rparr> = Inr None"
  using safeTarMemberName_ok[of r True] below_not_abs[of r]
  by (auto simp: cold_member_def stripFirstPathComponent_def CutChar_None[THEN iffD2])

lemma writeColdCopy_copied_out:
  assumes "below r" "CHR ''/'' \<notin> set r" "\<forall>e \<in> set es. cluster_member e"
  shows "writeColdCopy (copied_out r es) = Inr (map (placed '''') (filter kept es))"
proof -
  have "copy_members cold_member (map (placed (r @ ''/'')) es) = Inr (map (placed '''') (filter kept es))"
    using assms(3) cold_member_placed[OF assms(1,2)] by (induction es) auto
  then show ?thesis using cold_root[OF assms(1,2)] by (simp add: writeColdCopy_def copied_out_def)
qed

text \<open>
  C27. A stopped cluster comes back: copied out of its container and streamed into a new one, every
  file and directory of the data directory that is not runtime state is there again under the
  new container's data directory, with its content and in the same order, and nothing else is
  but the directories above it; and the version that is checked is the cluster's own.
\<close>

theorem cold_copy_restores:
  assumes "below root" "CHR ''/'' \<notin> set root" "\<forall>e \<in> set es. cluster_member e" "prefix_ok p"
  shows "\<exists>base. writeColdCopy (copied_out root es) = Inr base
    \<and> rewriteTarStream p True \<lparr>ts_members = base, ts_error = None\<rparr> =
        ((if p = '''' then [] else prefix_dirs '''' (SplitChar (CHR ''/'') p))
               @ map (placed (if p = '''' then '''' else p @ ''/'')) (filter kept es),
         concat (map te_Data (filter (\<lambda>e. te_Type e = TypeReg \<and> te_Name e = ''PG_VERSION'' \<and> length (te_Data e) \<le> 64) es)), None)"
proof -
  let ?ks = "filter kept es"
  have cm: "\<forall>e \<in> set ?ks. cluster_member e" using assms(3) by simp
  have cp: "stream_members (rewrite_member p) (map (placed '''') xs) = (map (placed (if p = '''' then '''' else p @ ''/'')) xs, None)
      \<and> takeWhile (\<lambda>h. \<not> isl (rewrite_member p h)) (map (placed '''') xs) = map (placed '''') xs"
    if "\<forall>e \<in> set xs. cluster_member e" for xs
    using that rewrite_member_placed[OF assms(4)] by (induction xs) auto
  have pv: "kept e" if "te_Name e = ''PG_VERSION''" "te_Type e = TypeReg" for e
    unfolding kept_def using that by simp
  have v: "captured_version (map (placed '''') xs)
      = concat (map te_Data (filter (\<lambda>e. te_Type e = TypeReg \<and> te_Name e = ''PG_VERSION'' \<and> length (te_Data e) \<le> 64) xs))"
    if "\<forall>e \<in> set xs. cluster_member e" for xs
    using that safe_placed(2)[OF assms(1)] by (induction xs) (auto simp: captured_version_def placed_def)
  have f: "filter (\<lambda>e. te_Type e = TypeReg \<and> te_Name e = ''PG_VERSION'' \<and> length (te_Data e) \<le> 64) ?ks
      = filter (\<lambda>e. te_Type e = TypeReg \<and> te_Name e = ''PG_VERSION'' \<and> length (te_Data e) \<le> 64) es"
    using pv unfolding filter_filter by (intro filter_cong) auto
  show ?thesis
    unfolding rewriteTarStream_def
    using writeColdCopy_copied_out[OF assms(1-3)] cp[OF cm, THEN conjunct1] v[OF cm] f
    by (simp add: cp[OF cm, THEN conjunct2] split del: if_split) simp
qed

definition demo_members :: "tar_entry list" where
  "demo_members =
     [\<lparr>te_Name = ''PG_VERSION'', te_Type = TypeReg, te_Data = ''18''\<rparr>, \<lparr>te_Name = ''base'', te_Type = TypeDir, te_Data = ''''\<rparr>,
      \<lparr>te_Name = ''base/1'', te_Type = TypeReg, te_Data = ''rows''\<rparr>, \<lparr>te_Name = ''postmaster.pid'', te_Type = TypeReg, te_Data = ''7''\<rparr>]"

lemma demo_members_ok: "\<forall>e \<in> set demo_members. cluster_member e"
  by (simp add: demo_members_def cluster_member_def below_def)

theorem cold_copy_restores_witness:
  "\<exists>base. writeColdCopy (copied_out ''docker'' demo_members) = Inr base
    \<and> (\<exists>out. rewriteTarStream ''18/docker'' True \<lparr>ts_members = base, ts_error = None\<rparr> = (out, ''18'', None)
          \<and> map te_Name out = [''18/'', ''18/docker/'', ''18/docker/PG_VERSION'', ''18/docker/base/'', ''18/docker/base/1''])"
proof -
  have p: "below ''docker''" "CHR ''/'' \<notin> set ''docker''" "prefix_ok ''18/docker''"
    by (simp_all add: below_def prefix_ok_def)
  obtain base where b: "writeColdCopy (copied_out ''docker'' demo_members) = Inr base"
    "rewriteTarStream ''18/docker'' True \<lparr>ts_members = base, ts_error = None\<rparr> =
        (prefix_dirs '''' (SplitChar (CHR ''/'') ''18/docker'') @ map (placed (''18/docker/'')) (filter kept demo_members),
         concat (map te_Data (filter (\<lambda>e. te_Type e = TypeReg \<and> te_Name e = ''PG_VERSION'' \<and> length (te_Data e) \<le> 64) demo_members)), None)"
    using cold_copy_restores[OF p(1,2) demo_members_ok p(3)] by auto
  have k: "filter kept demo_members = take 3 demo_members"
    by (simp add: demo_members_def kept_def)
  have v: "concat (map te_Data (filter (\<lambda>e. te_Type e = TypeReg \<and> te_Name e = ''PG_VERSION'' \<and> length (te_Data e) \<le> 64) demo_members)) = ''18''"
    by (simp add: demo_members_def)
  have n: "map te_Name (prefix_dirs '''' (SplitChar (CHR ''/'') ''18/docker'') @ map (placed (''18/docker/'')) (filter kept demo_members))
      = [''18/'', ''18/docker/'', ''18/docker/PG_VERSION'', ''18/docker/base/'', ''18/docker/base/1'']"
    unfolding k by (simp add: demo_members_def placed_def Join2_below Join2_below_root below_def)
  show ?thesis using b v n by auto
qed

definition demo_hostile :: tar_stream where
  "demo_hostile = \<lparr>ts_members = [\<lparr>te_Name = ''./base/1'', te_Type = TypeReg, te_Data = ''x''\<rparr>,
       \<lparr>te_Name = ''../../etc/passwd'', te_Type = TypeReg, te_Data = ''y''\<rparr>], ts_error = None\<rparr>"

text \<open>An archive whose second member climbs out: the first one has been written, the stream ends with an error.\<close>

theorem rewriteTarStream_confined_witness:
  "\<exists>out v e. rewriteTarStream ''18/docker'' True demo_hostile = (out, v, Some e)
     \<and> map te_Name out = [''18/'', ''18/docker/'', ''18/docker/base/1''] \<and> (\<forall>e \<in> set out. te_Type e \<in> {TypeReg, TypeDir})"
proof -
  have p: "pgDataPrefix ''/var/lib/postgresql'' ''/var/lib/postgresql/18/docker'' = Inr ''18/docker''" by code_simp
  have n: "map te_Name (fst (rewriteTarStream ''18/docker'' True demo_hostile)) = [''18/'', ''18/docker/'', ''18/docker/base/1'']
      \<and> snd (snd (rewriteTarStream ''18/docker'' True demo_hostile)) \<noteq> None" by code_simp
  obtain out v err where r: "rewriteTarStream ''18/docker'' True demo_hostile = (out, v, err)" by (metis prod.collapse)
  show ?thesis using rewriteTarStream_confined[OF p r] n r by auto
qed

end
