(* ===== verification/BackupAdmin.thy ===== *)
theory BackupAdmin
  imports BackupCron "HOL-Library.Multiset"
begin

text \<open>
  Operations on stored backups outside the schedule: dropping all of them
  (\<open>internal/operations/backup_drop_all.go\<close>), removing one copy
  (\<open>backup_remove_local.go\<close>), shifting a timestamp (\<open>backup_time_shift.go\<close>), downloading
  a remote copy (\<open>rdbms_download_backup.go\<close>) and the schedules of per-instance backups
  (\<open>cron_backup_create.go\<close>, \<open>cron_backup_delete.go\<close>).
\<close>

section \<open>Drop all\<close>

definition Backup_AllRecordsRaw :: "world \<Rightarrow> BackupRecord list res \<times> world" where
  "Backup_AllRecordsRaw w =
     (case sql_query (\<lambda>w. order_by bk_InstanceName (backup_history w)) w of
        (Inl e, w1) \<Rightarrow> (Inl (wrap ''list all backup records'' e), w1)
      | (Inr bs, w1) \<Rightarrow> (Inr bs, w1))"

record DropAllBackupsResult =
  da_RecordsTotal :: nat
  da_RecordsDropped :: nat
  da_RecordsKept :: nat
  da_LocalFilesDeleted :: nat
  da_LocalFilesMissing :: nat
  da_LocalBytesFreed :: int
  da_RemoteObjectsDeleted :: nat
  da_RemoteRefsDroppedNoOffsite :: nat
  da_Errors :: "string list"

definition drop_start :: "nat \<Rightarrow> DropAllBackupsResult" where
  "drop_start n =
     \<lparr>da_RecordsTotal = n, da_RecordsDropped = 0, da_RecordsKept = 0, da_LocalFilesDeleted = 0,
      da_LocalFilesMissing = 0, da_LocalBytesFreed = 0, da_RemoteObjectsDeleted = 0,
      da_RemoteRefsDroppedNoOffsite = 0, da_Errors = []\<rparr>"

definition drop_fail :: "BackupRecord \<Rightarrow> string \<Rightarrow> goerror \<Rightarrow> DropAllBackupsResult \<Rightarrow> DropAllBackupsResult" where
  "drop_fail b op err r =
     r\<lparr>da_RecordsKept := da_RecordsKept r + 1,
       da_Errors := da_Errors r @ [''backup '' @ Itoa (bk_ID b) @ '' ('' @ bk_InstanceName b @ ''): '' @ op @ '': '' @ Error err]\<rparr>"

text \<open>The local copy: \<open>Inl e\<close> is an unlink failure that keeps the record.\<close>

definition drop_local ::
  "string \<Rightarrow> BackupRecord \<Rightarrow> DropAllBackupsResult \<Rightarrow> world \<Rightarrow> (goerror + DropAllBackupsResult) \<times> world" where
  "drop_local dataDir b r w =
     (case bk_LocalLocation b of
        None \<Rightarrow> (Inr r, w)
      | Some l \<Rightarrow>
          let path = AbsoluteLocalPath dataDir l in
          (case os_Stat path w of (st, w1) \<Rightarrow>
          let sz = (case st of StatOK n \<Rightarrow> n | _ \<Rightarrow> 0) in
          (case os_Remove path w1 of
             (None, w2) \<Rightarrow>
               (Inr (r\<lparr>da_LocalFilesDeleted := da_LocalFilesDeleted r + 1,
                       da_LocalBytesFreed := wrap64 (da_LocalBytesFreed r + sz)\<rparr>), w2)
           | (Some e, w2) \<Rightarrow>
               if errors_Is e ErrNotExist then (Inr (r\<lparr>da_LocalFilesMissing := da_LocalFilesMissing r + 1\<rparr>), w2)
               else (Inl e, w2))))"

text \<open>
  The remote copy, reached only when the local one is gone; \<open>Inl (op, e)\<close> keeps the record.
  \<open>cl\<close> is there whenever a record with a remote copy meets configured settings.
\<close>

definition drop_remote ::
  "OffsiteSettings option \<Rightarrow> Client option \<Rightarrow> BackupRecord \<Rightarrow> DropAllBackupsResult \<Rightarrow> world
     \<Rightarrow> ((string \<times> goerror) + DropAllBackupsResult) \<times> world" where
  "drop_remote settings cl b r w =
     (case bk_RemoteLocation b of
        None \<Rightarrow> (Inr r, w)
      | Some l \<Rightarrow>
          (case settings of
             None \<Rightarrow> (Inr (r\<lparr>da_RemoteRefsDroppedNoOffsite := da_RemoteRefsDroppedNoOffsite r + 1\<rparr>), w)
           | Some s \<Rightarrow>
               (case parseRemoteS3Location l (off_Bucket s) of
                  Inl e \<Rightarrow> (Inl (''parse remote location'', e), w)
                | Inr key \<Rightarrow>
                    (case DeleteFile (the cl) (RelativeKey (the cl) key) w of
                       (Some e, w1) \<Rightarrow> (Inl (''delete S3 object'', e), w1)
                     | (None, w1) \<Rightarrow> (Inr (r\<lparr>da_RemoteObjectsDeleted := da_RemoteObjectsDeleted r + 1\<rparr>), w1)))))"

definition drop_step ::
  "string \<Rightarrow> OffsiteSettings option \<Rightarrow> Client option \<Rightarrow> BackupRecord \<Rightarrow> DropAllBackupsResult \<times> world
     \<Rightarrow> DropAllBackupsResult \<times> world" where
  "drop_step dataDir settings cl b s =
     (case s of (r, w) \<Rightarrow>
        (case drop_local dataDir b r w of
           (Inl e, w1) \<Rightarrow> (drop_fail b ''delete local file'' e r, w1)
         | (Inr r1, w1) \<Rightarrow>
        (case drop_remote settings cl b r1 w1 of
           (Inl (op, e), w2) \<Rightarrow>
             (drop_fail b op e r1,
              if bk_LocalLocation b \<noteq> None then snd (Backup_ClearLocalLocation (bk_ID b) w2) else w2)
         | (Inr r2, w2) \<Rightarrow>
             (case Backup_DeleteRecord (bk_ID b) w2 of
                (Some e, w3) \<Rightarrow> (drop_fail b ''delete record'' e r2, w3)
              | (None, w3) \<Rightarrow> (r2\<lparr>da_RecordsDropped := da_RecordsDropped r2 + 1\<rparr>, w3)))))"

definition drop_client :: "OffsiteSettings option \<Rightarrow> BackupRecord list \<Rightarrow> world \<Rightarrow> Client option res \<times> world" where
  "drop_client settings bs w =
     (case settings of
        None \<Rightarrow> (Inr None, w)
      | Some s \<Rightarrow>
          if list_ex (\<lambda>b. bk_RemoteLocation b \<noteq> None) bs
          then (case NewClient s w of
                  (Inl e, w1) \<Rightarrow>
                    (Inl (wrap ''create S3 client (offsite is configured and some backups have remote copies)'' e), w1)
                | (Inr cl, w1) \<Rightarrow> (Inr (Some cl), w1))
          else (Inr None, w))"

definition DropAllBackups :: "cipher \<Rightarrow> string \<Rightarrow> world \<Rightarrow> DropAllBackupsResult res \<times> world" where
  "DropAllBackups c dataDir w =
     (case Backup_AllRecordsRaw w of
        (Inl e, w1) \<Rightarrow> (Inl (wrap ''list backup records'' e), w1)
      | (Inr bs, w1) \<Rightarrow>
          if bs = [] then (Inr (drop_start 0), w1)
          else (case GetActiveOffsiteSettingsDecrypted c w1 of
             (Inl e, w2) \<Rightarrow> (Inl (wrap ''get offsite settings'' e), w2)
           | (Inr settings, w2) \<Rightarrow>
          (case drop_client settings bs w2 of
             (Inl e, w3) \<Rightarrow> (Inl e, w3)
           | (Inr cl, w3) \<Rightarrow>
               (case fold (drop_step dataDir settings cl) bs (drop_start (length bs), w3) of
                  (r, w4) \<Rightarrow> (Inr r, w4)))))"

section \<open>One copy, one timestamp\<close>

definition RemoveLocalBackup :: "string \<Rightarrow> string \<Rightarrow> int \<Rightarrow> world \<Rightarrow> goerror option \<times> world" where
  "RemoveLocalBackup dataDir instanceName backupID w =
     (case Instances_Get instanceName w of
        (Inl e, w1) \<Rightarrow> (Some (wrap ''get instance'' e), w1)
      | (Inr _, w1) \<Rightarrow>
          (case Backup_RemoveLocalCopy dataDir backupID instanceName w1 of
             (Some e, w2) \<Rightarrow> (Some (wrap ''remove local backup'' e), w2)
           | (None, w2) \<Rightarrow> (None, w2)))"

definition RemoveRemoteBackup :: "cipher \<Rightarrow> string \<Rightarrow> string \<Rightarrow> int \<Rightarrow> world \<Rightarrow> goerror option \<times> world" where
  "RemoveRemoteBackup c dataDir instanceName backupID w =
     (case Instances_Get instanceName w of
        (Inl e, w1) \<Rightarrow> (Some (wrap ''get instance'' e), w1)
      | (Inr _, w1) \<Rightarrow>
     (case Backup_GetBackupByID dataDir backupID w1 of
        (Inl e, w2) \<Rightarrow> (Some (wrap ''get backup'' e), w2)
      | (Inr b, w2) \<Rightarrow>
     (case bk_RemoteLocation b of
        None \<Rightarrow> (Some (Errorf0 (''backup '' @ Itoa backupID @ '' has no remote copy'')), w2)
      | Some l \<Rightarrow>
     (case GetActiveOffsiteSettingsDecrypted c w2 of
        (Inl e, w3) \<Rightarrow> (Some (wrap ''get offsite settings'' e), w3)
      | (Inr None, w3) \<Rightarrow>
          (case Backup_RemoveRemoteCopy dataDir backupID instanceName w3 of
             (Some e, w4) \<Rightarrow> (Some (wrap ''remove remote backup reference'' e), w4)
           | (None, w4) \<Rightarrow> (None, w4))
      | (Inr (Some s), w3) \<Rightarrow>
     (case parseRemoteS3Location l (off_Bucket s) of
        Inl e \<Rightarrow> (Some e, w3)
      | Inr key \<Rightarrow>
     (case NewClient s w3 of
        (Inl e, w4) \<Rightarrow> (Some (wrap ''create S3 client'' e), w4)
      | (Inr cl, w4) \<Rightarrow>
          let w5 = snd (DeleteFile cl (RelativeKey cl key) w4) in
          (case Backup_RemoveRemoteCopy dataDir backupID instanceName w5 of
             (Some e, w6) \<Rightarrow> (Some (wrap ''remove remote backup reference'' e), w6)
           | (None, w6) \<Rightarrow> (None, w6))))))))"

text \<open>\<open>AddDate(0, 0, -days)\<close> in UTC, a whole number of days earlier.\<close>

definition BackupTimeShift :: "string \<Rightarrow> int \<Rightarrow> int \<Rightarrow> world \<Rightarrow> goerror option \<times> world" where
  "BackupTimeShift dataDir backupID daysBack w =
     (case Backup_GetBackupByID dataDir backupID w of
        (Inl e, w1) \<Rightarrow> (Some (wrap ''get backup'' e), w1)
      | (Inr b, w1) \<Rightarrow>
          bk_exec ''update backup timestamp''
            (bk_update_stmt backupID (\<lambda>r. r\<lparr>bk_Timestamp := bk_Timestamp b - daysBack * 24 * ns_hour\<rparr>)) w1)"

section \<open>What dropping all may touch\<close>

text \<open>The client for an active configuration; it does not depend on the secret.\<close>

definition client_for :: "OffsiteSettings \<Rightarrow> Client" where
  "client_for s =
     NewClientFromConfig
       \<lparr>tg_Bucket = off_Bucket s, tg_BucketPath = (case off_BucketPath s of None \<Rightarrow> '''' | Some p \<Rightarrow> p),
        tg_Endpoint = (case off_Endpoint s of None \<Rightarrow> '''' | Some e \<Rightarrow> e),
        tg_Region = (if present_text (off_Region s) then the (off_Region s) else ''us-east-1'')\<rparr>"

definition local_path :: "string \<Rightarrow> BackupRecord \<Rightarrow> string option" where
  "local_path dataDir b = map_option (AbsoluteLocalPath dataDir) (bk_LocalLocation b)"

definition remote_object :: "OffsiteSettings option \<Rightarrow> BackupRecord \<Rightarrow> (string \<times> string) option" where
  "remote_object settings b =
     (case (settings, bk_RemoteLocation b) of
        (Some s, Some l) \<Rightarrow> map_option (Pair (client_bucket (client_for s))) (remote_key (client_for s) (off_Bucket s) l)
      | _ \<Rightarrow> None)"

text \<open>No copy of the record is left: its file is gone, and its object when the offsite is configured.\<close>

definition copies_gone :: "string \<Rightarrow> OffsiteSettings option \<Rightarrow> BackupRecord \<Rightarrow> world \<Rightarrow> bool" where
  "copies_gone dataDir settings b w \<longleftrightarrow>
     (\<forall>p. local_path dataDir b = Some p \<longrightarrow> files w p = None)
     \<and> (settings \<noteq> None \<and> bk_RemoteLocation b \<noteq> None \<longrightarrow>
          (\<exists>ob. remote_object settings b = Some ob \<and> objects w ob = None))"

text \<open>Files and objects only disappear.\<close>

definition shrinks :: "world \<Rightarrow> world \<Rightarrow> bool" where
  "shrinks w w' \<longleftrightarrow> (\<forall>p. files w' p = files w p \<or> files w' p = None)
     \<and> (\<forall>ob. objects w' ob = objects w ob \<or> objects w' ob = None)"

lemma shrinks_refl [simp]: "shrinks w w"
  by (simp add: shrinks_def)

lemma shrinks_trans: "shrinks a b \<Longrightarrow> shrinks b c \<Longrightarrow> shrinks a c"
  unfolding shrinks_def by metis

lemma copies_gone_mono: "copies_gone d s b w \<Longrightarrow> shrinks w w' \<Longrightarrow> copies_gone d s b w'"
  unfolding copies_gone_def shrinks_def by metis

text \<open>
  What one turn may change: the record's own file and object, and its row, which is dropped or
  says that its file is gone. Everything else is as before.
\<close>

definition drop_frame :: "string \<Rightarrow> OffsiteSettings option \<Rightarrow> BackupRecord \<Rightarrow> world \<Rightarrow> world \<Rightarrow> bool" where
  "drop_frame dataDir settings b w w' \<longleftrightarrow>
     shrinks w w'
     \<and> (\<forall>p. files w' p \<noteq> files w p \<longrightarrow> local_path dataDir b = Some p)
     \<and> (\<forall>ob. objects w' ob \<noteq> objects w ob \<longrightarrow> remote_object settings b = Some ob)
     \<and> snapshot_history w' = snapshot_history w \<and> rdbms_instances w' = rdbms_instances w
     \<and> offsite_settings w' = offsite_settings w"

lemma drop_frame_io: "same_but_io w w' \<Longrightarrow> drop_frame d s b w w'"
  by (simp add: drop_frame_def shrinks_def same_but_io_fields)

lemma drop_frame_trans: "drop_frame d s b u v \<Longrightarrow> drop_frame d s b v w \<Longrightarrow> drop_frame d s b u w"
  unfolding drop_frame_def using shrinks_trans by metis

lemma os_Remove_gone:
  "os_Remove p w = (r, w') \<Longrightarrow> r = None \<or> errors_Is (the r) ErrNotExist \<Longrightarrow> files w' p = None"
  by (auto simp: os_Remove_def split: prod.splits outcome.splits option.splits)

lemma drop_local_spec:
  assumes "drop_local d b r w = (q, w')"
  shows "drop_frame d s b w w'" "backup_history w' = backup_history w"
    "\<not> isl q \<Longrightarrow> local_path d b = Some p \<Longrightarrow> files w' p = None"
    "q = Inr r' \<Longrightarrow> da_RecordsTotal r' = da_RecordsTotal r \<and> da_RecordsDropped r' = da_RecordsDropped r
       \<and> da_RecordsKept r' = da_RecordsKept r \<and> da_Errors r' = da_Errors r"
proof -
  have "drop_frame d s b w w' \<and> backup_history w' = backup_history w
      \<and> (\<not> isl q \<and> local_path d b = Some p \<longrightarrow> files w' p = None)"
  proof (cases "bk_LocalLocation b")
    case None
    then show ?thesis using assms by (auto simp: drop_local_def local_path_def drop_frame_io)
  next
    case (Some l)
    let ?p = "AbsoluteLocalPath d l"
    obtain st w1 where st: "os_Stat ?p w = (st, w1)" by fastforce
    obtain e w2 where rm: "os_Remove ?p w1 = (e, w2)" by fastforce
    have q: "w' = w2" "\<not> isl q \<longleftrightarrow> e = None \<or> errors_Is (the e) ErrNotExist"
      using assms Some st rm by (auto simp: drop_local_def Let_def split: option.splits if_splits)
    note io = os_Stat_same[OF st] and eff = os_Remove_effect[OF rm]
    have t: "same_tables w w2" using same_tables_trans[OF same_tables_io[OF io]] eff by blast
    have "drop_frame d s b w1 w2"
      using eff Some same_tables_fields[OF conjunct1[OF eff]]
      unfolding drop_frame_def shrinks_def local_path_def by (metis option.simps(9))
    then have "drop_frame d s b w w2" using drop_frame_io[OF io] drop_frame_trans by blast
    then show ?thesis
      using q os_Remove_gone[OF rm] same_tables_fields[OF t] Some by (auto simp: local_path_def)
  qed
  then show "drop_frame d s b w w'" "backup_history w' = backup_history w"
    "\<not> isl q \<Longrightarrow> local_path d b = Some p \<Longrightarrow> files w' p = None" by blast+
  show "q = Inr r' \<Longrightarrow> da_RecordsTotal r' = da_RecordsTotal r \<and> da_RecordsDropped r' = da_RecordsDropped r
       \<and> da_RecordsKept r' = da_RecordsKept r \<and> da_Errors r' = da_Errors r"
    using assms by (auto simp: drop_local_def Let_def split: option.splits prod.splits if_splits)
qed

lemma DeleteFile_gone:
  "DeleteFile cl key w = (None, w') \<Longrightarrow> objects w' (client_bucket cl, client_bucketPath cl @ key) = None"
  by (auto simp: DeleteFile_def s3_delete_def split: prod.splits outcome.splits option.splits)

lemma drop_remote_spec:
  assumes "drop_remote s cl b r w = (q, w')" "s \<noteq> None \<and> bk_RemoteLocation b \<noteq> None \<longrightarrow> cl = Some (client_for (the s))"
  shows "drop_frame d s b w w'" "backup_history w' = backup_history w"
    "\<not> isl q \<Longrightarrow> s \<noteq> None \<and> bk_RemoteLocation b \<noteq> None \<Longrightarrow> \<exists>ob. remote_object s b = Some ob \<and> objects w' ob = None"
    "isl q \<Longrightarrow> bk_RemoteLocation b \<noteq> None"
    "q = Inr r' \<Longrightarrow> da_RecordsTotal r' = da_RecordsTotal r \<and> da_RecordsDropped r' = da_RecordsDropped r
       \<and> da_RecordsKept r' = da_RecordsKept r \<and> da_Errors r' = da_Errors r"
proof -
  have "drop_frame d s b w w' \<and> backup_history w' = backup_history w
    \<and> (\<not> isl q \<and> s \<noteq> None \<and> bk_RemoteLocation b \<noteq> None \<longrightarrow> (\<exists>ob. remote_object s b = Some ob \<and> objects w' ob = None))"
  proof (cases "\<exists>t l. s = Some t \<and> bk_RemoteLocation b = Some l")
    case False
    then show ?thesis using assms(1) by (auto simp: drop_remote_def drop_frame_io split: option.splits)
  next
    case True
    then obtain t l where t: "s = Some t" "bk_RemoteLocation b = Some l" by blast
    let ?cl = "client_for t"
    have cl: "cl = Some ?cl" using assms(2) t by simp
    show ?thesis
    proof (cases "parseRemoteS3Location l (off_Bucket t)")
      case (Inl e)
      then show ?thesis using assms(1) t by (auto simp: drop_remote_def drop_frame_io)
    next
      case (Inr key)
      obtain x w1 where df: "DeleteFile ?cl (RelativeKey ?cl key) w = (x, w1)" by fastforce
      have w1: "w' = w1" "\<not> isl q \<longleftrightarrow> x = None"
        using assms(1) t cl Inr df by (auto simp: drop_remote_def split: option.splits)
      have ob: "remote_object s b = Some (client_bucket ?cl, client_bucketPath ?cl @ RelativeKey ?cl key)"
        using Inr t by (auto simp: remote_object_def remote_key_def parseRemoteS3Location_def split: sum.splits prod.splits if_splits)
      note eff = DeleteFile_effect[OF df]
      have "drop_frame d s b w w1"
        using eff ob same_tables_fields[OF conjunct1[OF eff]] unfolding drop_frame_def shrinks_def by metis
      then show ?thesis
        using w1 ob DeleteFile_gone[of ?cl "RelativeKey ?cl key" w w1] df same_tables_fields[OF conjunct1[OF eff]] by auto
    qed
  qed
  then show "drop_frame d s b w w'" "backup_history w' = backup_history w"
    "\<not> isl q \<Longrightarrow> s \<noteq> None \<and> bk_RemoteLocation b \<noteq> None \<Longrightarrow> \<exists>ob. remote_object s b = Some ob \<and> objects w' ob = None"
    by blast+
  show "isl q \<Longrightarrow> bk_RemoteLocation b \<noteq> None" using assms(1) by (auto simp: drop_remote_def split: option.splits)
  show "q = Inr r' \<Longrightarrow> da_RecordsTotal r' = da_RecordsTotal r \<and> da_RecordsDropped r' = da_RecordsDropped r
       \<and> da_RecordsKept r' = da_RecordsKept r \<and> da_Errors r' = da_Errors r"
    using assms(1) by (auto simp: drop_remote_def split: option.splits prod.splits sum.splits)
qed

lemma bk_delete_row:
  assumes "Backup_DeleteRecord n w = (e, w')"
  shows "drop_frame d s b w w'" "m \<noteq> n \<Longrightarrow> bk_row w' m = bk_row w m" "e = None \<Longrightarrow> bk_row w' n = None"
    "bk_row w' n = bk_row w n \<or> bk_row w' n = None"
  using assms unfolding Backup_DeleteRecord_def bk_exec_def
  by (auto elim!: sql_exec_cases simp: bk_delete_stmt_def drop_frame_def shrinks_def same_but_io_fields
      find_del_key split: prod.splits sum.splits)

lemma bk_clear_row:
  assumes "Backup_ClearLocalLocation n w = (e, w')"
  shows "drop_frame d s b w w'" "m \<noteq> n \<Longrightarrow> bk_row w' m = bk_row w m"
    "bk_row w' n = bk_row w n \<or> bk_row w' n = map_option (\<lambda>r. r\<lparr>bk_LocalLocation := None\<rparr>) (bk_row w n)"
  using assms unfolding Backup_ClearLocalLocation_def bk_exec_def
  by (auto elim!: sql_exec_cases simp: bk_update_stmt_def drop_frame_def shrinks_def same_but_io_fields
      find_upd_key split: prod.splits sum.splits if_splits)

text \<open>A row after its turn: dropped with its copies gone, untouched, or no longer claiming a file that is gone.\<close>

definition row_after :: "string \<Rightarrow> OffsiteSettings option \<Rightarrow> BackupRecord \<Rightarrow> BackupRecord option \<Rightarrow> world \<Rightarrow> bool" where
  "row_after dataDir settings b old w' \<longleftrightarrow>
     (case bk_row w' (bk_ID b) of
        None \<Rightarrow> old = None \<or> copies_gone dataDir settings b w'
      | Some x \<Rightarrow> old = Some x
          \<or> (\<exists>y. old = Some y \<and> x = y\<lparr>bk_LocalLocation := None\<rparr> \<and> bk_RemoteLocation b \<noteq> None
               \<and> (\<forall>p. local_path dataDir b = Some p \<longrightarrow> files w' p = None)))"

lemma drop_step_spec:
  assumes st: "drop_step d s cl b (r, w) = (r', w')"
    and cl: "s \<noteq> None \<and> bk_RemoteLocation b \<noteq> None \<longrightarrow> cl = Some (client_for (the s))"
  shows "drop_frame d s b w w'" "m \<noteq> bk_ID b \<Longrightarrow> bk_row w' m = bk_row w m"
    "row_after d s b (bk_row w (bk_ID b)) w'"
    "da_RecordsTotal r' = da_RecordsTotal r" "da_RecordsDropped r' + da_RecordsKept r' = Suc (da_RecordsDropped r + da_RecordsKept r)"
    "length (da_Errors r') + da_RecordsKept r = length (da_Errors r) + da_RecordsKept r'"
    "da_RecordsKept r \<le> da_RecordsKept r'" "da_RecordsKept r' = da_RecordsKept r \<Longrightarrow> bk_row w' (bk_ID b) = None"
proof -
  let ?n = "bk_ID b" let ?old = "bk_row w (bk_ID b)"
  obtain q1 w1 where l: "drop_local d b r w = (q1, w1)" by fastforce
  note L = drop_local_spec[OF l]
  have old1: "bk_row w1 m = bk_row w m" for m using L(2) by simp
  have "drop_frame d s b w w' \<and> (\<forall>m. m \<noteq> ?n \<longrightarrow> bk_row w' m = bk_row w m) \<and> row_after d s b ?old w'
    \<and> da_RecordsTotal r' = da_RecordsTotal r \<and> da_RecordsDropped r' + da_RecordsKept r' = Suc (da_RecordsDropped r + da_RecordsKept r)
    \<and> length (da_Errors r') + da_RecordsKept r = length (da_Errors r) + da_RecordsKept r'
    \<and> da_RecordsKept r \<le> da_RecordsKept r' \<and> (da_RecordsKept r' = da_RecordsKept r \<longrightarrow> bk_row w' ?n = None)"
  proof (cases q1)
    case (Inl e)
    then have "w' = w1" "r' = drop_fail b ''delete local file'' e r" using st l by (simp_all add: drop_step_def)
    then show ?thesis using L(1,2) by (simp add: drop_fail_def row_after_def split: option.splits)
  next
    case (Inr r1)
    note c1 = L(4)[OF Inr]
    have gone: "files w1 p = None" if "local_path d b = Some p" for p using L(3) Inr that by simp
    obtain q2 w2 where m: "drop_remote s cl b r1 w1 = (q2, w2)" by fastforce
    note M = drop_remote_spec[OF m cl]
    have f2: "drop_frame d s b w w2" using L(1) M(1) drop_frame_trans by blast
    have gone2: "files w2 p = None" if "local_path d b = Some p" for p
      using gone[OF that] M(1) unfolding drop_frame_def shrinks_def by metis
    have old2: "bk_row w2 m = bk_row w m" for m using old1 M(2) by simp
    show ?thesis
    proof (cases q2)
      case (Inl x)
      obtain op e where x: "x = (op, e)" by fastforce
      obtain e3 w3 where c: "Backup_ClearLocalLocation ?n w2 = (e3, w3)" by fastforce
      note C = bk_clear_row[OF c]
      have r': "r' = drop_fail b op e r1" "w' = (if bk_LocalLocation b \<noteq> None then w3 else w2)"
        using st l Inr m Inl x c by (auto simp: drop_step_def)
      have rem: "bk_RemoteLocation b \<noteq> None" using M(4) Inl by simp
      have f3: "drop_frame d s b w w3" using f2 C(1) drop_frame_trans by blast
      have gone3: "files w3 p = None" if "local_path d b = Some p" for p
        using gone2[OF that] C(1)[of d s b] unfolding drop_frame_def shrinks_def by metis
      have "row_after d s b ?old w3"
        using C(3) old2[of ?n] rem gone3 by (cases ?old) (auto simp: row_after_def split: option.splits)
      moreover have "row_after d s b ?old w2" using old2[of ?n] by (auto simp: row_after_def split: option.splits)
      moreover have "bk_row w3 m = bk_row w m" if "m \<noteq> ?n" for m using C(2)[OF that] old2 by simp
      ultimately show ?thesis using r' f2 f3 old2 c1 by (auto simp: drop_fail_def)
    next
      case (Inr r2)
      note c2 = M(5)[OF Inr]
      obtain e3 w3 where c: "Backup_DeleteRecord ?n w2 = (e3, w3)" by fastforce
      note C = bk_delete_row[OF c]
      have r': "w' = w3" "r' = (case e3 of None \<Rightarrow> r2\<lparr>da_RecordsDropped := da_RecordsDropped r2 + 1\<rparr>
          | Some e \<Rightarrow> drop_fail b ''delete record'' e r2)"
        using st l \<open>q1 = Inr r1\<close> m Inr c by (auto simp: drop_step_def split: option.splits)
      have sh: "shrinks w2 w3" using C(1)[of d s b] by (simp add: drop_frame_def)
      have "copies_gone d s b w2"
        using gone2 M(3) Inr by (auto simp: copies_gone_def)
      then have "copies_gone d s b w3" using sh by (rule copies_gone_mono)
      then have "row_after d s b ?old w3" using C(4) old2[of ?n] by (auto simp: row_after_def split: option.splits)
      moreover have "drop_frame d s b w w3" using f2 C(1) drop_frame_trans by blast
      moreover have "bk_row w3 m = bk_row w m" if "m \<noteq> ?n" for m using C(2)[OF that] old2 by simp
      ultimately show ?thesis
        using r' c1 c2 C(3) by (cases e3) (auto simp: drop_fail_def)
    qed
  qed
  then show "drop_frame d s b w w'" "m \<noteq> bk_ID b \<Longrightarrow> bk_row w' m = bk_row w m"
    "row_after d s b (bk_row w (bk_ID b)) w'"
    "da_RecordsTotal r' = da_RecordsTotal r" "da_RecordsDropped r' + da_RecordsKept r' = Suc (da_RecordsDropped r + da_RecordsKept r)"
    "length (da_Errors r') + da_RecordsKept r = length (da_Errors r) + da_RecordsKept r'"
    "da_RecordsKept r \<le> da_RecordsKept r'" "da_RecordsKept r' = da_RecordsKept r \<Longrightarrow> bk_row w' (bk_ID b) = None"
    by blast+
qed

lemma row_after_mono:
  "row_after d s b old w \<Longrightarrow> shrinks w w' \<Longrightarrow> bk_row w' (bk_ID b) = bk_row w (bk_ID b) \<Longrightarrow> row_after d s b old w'"
proof (cases "bk_row w (bk_ID b)")
  case (Some x)
  assume a: "row_after d s b old w" "shrinks w w'" "bk_row w' (bk_ID b) = bk_row w (bk_ID b)"
  have "files w p = None \<Longrightarrow> files w' p = None" for p using a(2) unfolding shrinks_def by metis
  then show ?thesis using a(1,3) Some unfolding row_after_def by auto
qed (auto simp: row_after_def copies_gone_mono)

lemma drop_walk:
  assumes "distinct (map bk_ID bs)" "\<forall>b \<in> set bs. s \<noteq> None \<and> bk_RemoteLocation b \<noteq> None \<longrightarrow> cl = Some (client_for (the s))"
  shows "fold (drop_step d s cl) bs (r, w) = (r', w') \<Longrightarrow>
    shrinks w w' \<and> (\<forall>p. files w' p \<noteq> files w p \<longrightarrow> (\<exists>b \<in> set bs. local_path d b = Some p))
    \<and> (\<forall>ob. objects w' ob \<noteq> objects w ob \<longrightarrow> (\<exists>b \<in> set bs. remote_object s b = Some ob))
    \<and> snapshot_history w' = snapshot_history w \<and> rdbms_instances w' = rdbms_instances w
    \<and> (\<forall>m. m \<notin> bk_ID ` set bs \<longrightarrow> bk_row w' m = bk_row w m)
    \<and> (\<forall>b \<in> set bs. row_after d s b (bk_row w (bk_ID b)) w')
    \<and> da_RecordsTotal r' = da_RecordsTotal r
    \<and> da_RecordsDropped r' + da_RecordsKept r' = length bs + da_RecordsDropped r + da_RecordsKept r
    \<and> length (da_Errors r') + da_RecordsKept r = length (da_Errors r) + da_RecordsKept r'
    \<and> da_RecordsKept r \<le> da_RecordsKept r'
    \<and> (da_RecordsKept r' = da_RecordsKept r \<longrightarrow> (\<forall>b \<in> set bs. bk_row w' (bk_ID b) = None))"
  using assms
proof (induction bs arbitrary: r w)
  case (Cons b bs)
  obtain r1 w1 where st: "drop_step d s cl b (r, w) = (r1, w1)" by fastforce
  have cl: "s \<noteq> None \<and> bk_RemoteLocation b \<noteq> None \<longrightarrow> cl = Some (client_for (the s))" using Cons.prems(3) by simp
  note S = drop_step_spec[OF st cl]
  note F = S(1)[unfolded drop_frame_def]
  have rest: "fold (drop_step d s cl) bs (r1, w1) = (r', w')" using Cons.prems(1) st by simp
  have d: "distinct (map bk_ID bs)" "bk_ID b \<notin> bk_ID ` set bs" using Cons.prems(2) by auto
  have "\<forall>b \<in> set bs. s \<noteq> None \<and> bk_RemoteLocation b \<noteq> None \<longrightarrow> cl = Some (client_for (the s))" using Cons.prems(3) by simp
  note I = Cons.IH[OF rest d(1) this]
  have sh: "shrinks w w1" "shrinks w1 w'" using F I by simp_all
  have rowb: "bk_row w' (bk_ID b) = bk_row w1 (bk_ID b)" using I d(2) by blast
  have rb: "row_after d s b (bk_row w (bk_ID b)) w'" by (rule row_after_mono[OF S(3) sh(2) rowb])
  have rc: "row_after d s c (bk_row w (bk_ID c)) w'" if "c \<in> set bs" for c
  proof -
    have "bk_ID c \<noteq> bk_ID b" using that d(2) by (metis image_eqI)
    then have "bk_row w1 (bk_ID c) = bk_row w (bk_ID c)" by (rule S(2))
    then show ?thesis using I that by metis
  qed
  have fl: "\<exists>c \<in> set (b # bs). local_path d c = Some p" if "files w' p \<noteq> files w p" for p
    using that F I by (cases "files w1 p = files w p") auto
  have ob: "\<exists>c \<in> set (b # bs). remote_object s c = Some p" if "objects w' p \<noteq> objects w p" for p
  proof (cases "objects w1 p = objects w p")
    case True
    then have "objects w' p \<noteq> objects w1 p" using that by simp
    then show ?thesis using I[THEN conjunct2, THEN conjunct2, THEN conjunct1] by fastforce
  next
    case False
    then show ?thesis using F[THEN conjunct2, THEN conjunct2, THEN conjunct1] by fastforce
  qed
  have rows: "bk_row w' m = bk_row w m" if "m \<notin> bk_ID ` set (b # bs)" for m using that I S(2) by auto
  have kept: "da_RecordsKept r \<le> da_RecordsKept r'" "da_RecordsKept r' = da_RecordsKept r \<Longrightarrow> da_RecordsKept r1 = da_RecordsKept r"
    using I S(7) by auto
  have none: "\<forall>c \<in> set (b # bs). bk_row w' (bk_ID c) = None" if "da_RecordsKept r' = da_RecordsKept r"
    using that kept(2)[OF that] I S(8) rowb by auto
  have tabs: "snapshot_history w' = snapshot_history w" "rdbms_instances w' = rdbms_instances w"
    "da_RecordsTotal r' = da_RecordsTotal r"
    "da_RecordsDropped r' + da_RecordsKept r' = length (b # bs) + da_RecordsDropped r + da_RecordsKept r"
    "length (da_Errors r') + da_RecordsKept r = length (da_Errors r) + da_RecordsKept r'"
    using F I S(4,5,6) by simp_all
  have ra: "\<forall>c \<in> set (b # bs). row_after d s c (bk_row w (bk_ID c)) w'" using rb rc by simp
  show ?case
    by (intro conjI allI impI) (fact shrinks_trans[OF sh] fl ob rows ra kept(1) none tabs)+
qed simp

section \<open>Dropping all, as a whole\<close>

text \<open>The settings in use.\<close>

definition active_offsite :: "world \<Rightarrow> OffsiteSettings option" where
  "active_offsite w = find off_Active (sort_desc off_ID (offsite_settings w))"

lemma GetActiveDecrypted_client:
  assumes "GetActiveOffsiteSettingsDecrypted c w = (Inr s, w')"
  shows "(s = None \<longleftrightarrow> find off_Active (sort_desc off_ID (offsite_settings w)) = None)
    \<and> (\<forall>b. remote_object s b = remote_object (find off_Active (sort_desc off_ID (offsite_settings w))) b)"
proof -
  obtain q w1 where g: "Offsite_GetActive w = (Inr q, w1)"
    using assms by (auto simp: GetActiveOffsiteSettingsDecrypted_def split: prod.splits sum.splits)
  have q: "q = find off_Active (sort_desc off_ID (offsite_settings w))"
    using g sql_query_Inr by (fastforce simp: Offsite_GetActive_def same_but_io_fields split: prod.splits sum.splits)
  have "s = q \<or> (\<exists>t k. q = Some t \<and> s = Some (t\<lparr>off_SecretAccessKey := k\<rparr>))"
    using assms g by (auto simp: GetActiveOffsiteSettingsDecrypted_def split: option.splits sum.splits if_splits)
  then show ?thesis unfolding q[symmetric] by (auto simp: remote_object_def client_for_def split: option.splits)
qed

lemma NewClient_client_for: "NewClient s w = (Inr c, w') \<Longrightarrow> c = client_for s"
  by (auto simp: NewClient_def client_for_def split: if_splits prod.splits sum.splits)

lemma drop_client_spec:
  assumes "drop_client s bs w = (Inr cl, w')"
  shows "same_but_io w w'" "\<forall>b \<in> set bs. s \<noteq> None \<and> bk_RemoteLocation b \<noteq> None \<longrightarrow> cl = Some (client_for (the s))"
  using assms NewClient_client_for NewClient_same
  by (auto simp: drop_client_def list_ex_iff split: option.splits if_splits prod.splits sum.splits)

lemma order_by_same: "mset (order_by k xs) = mset xs"
proof -
  have "mset (insert_by k x ys) = add_mset x (mset ys)" for x ys by (induction ys) auto
  then show ?thesis by (induction xs) (auto simp: order_by_def)
qed

text \<open>
  C17. Dropping all backups, under every pattern of failures: every record is counted as
  dropped or kept, with one error per kept record; a run that keeps nothing leaves an empty
  catalogue; a record that is gone has left no local file behind, and no object either while an
  offsite configuration is active (without one the code drops the record and its objects
  survive in the bucket); a record that is still there is unchanged or no longer claims a file
  that was removed; and no file, object, instance or snapshot that belongs to no backup is touched.
\<close>

theorem DropAllBackups_outcome:
  assumes "DropAllBackups c dataDir w = (Inr r, w')" "backups_ok w"
  shows "da_RecordsTotal r = length (backup_history w)
    \<and> da_RecordsDropped r + da_RecordsKept r = length (backup_history w) \<and> length (da_Errors r) = da_RecordsKept r
    \<and> (da_RecordsKept r = 0 \<longrightarrow> (\<forall>b \<in> set (backup_history w). bk_row w' (bk_ID b) = None))
    \<and> (\<forall>b \<in> set (backup_history w). row_after dataDir (active_offsite w) b (Some b) w')
    \<and> (\<forall>p. files w' p \<noteq> files w p \<longrightarrow> files w' p = None \<and> (\<exists>b \<in> set (backup_history w). local_path dataDir b = Some p))
    \<and> (\<forall>ob. objects w' ob \<noteq> objects w ob \<longrightarrow>
         objects w' ob = None \<and> (\<exists>b \<in> set (backup_history w). remote_object (active_offsite w) b = Some ob))
    \<and> snapshot_history w' = snapshot_history w \<and> rdbms_instances w' = rdbms_instances w"
proof -
  obtain bs w1 where a: "Backup_AllRecordsRaw w = (Inr bs, w1)"
    using assms(1) by (auto simp: DropAllBackups_def split: prod.splits sum.splits)
  have io1: "same_but_io w w1" and bs: "bs = order_by bk_InstanceName (backup_history w)"
    using a sql_query_same[of _ w] sql_query_Inr[of _ w]
    by (fastforce simp: Backup_AllRecordsRaw_def same_but_io_fields split: prod.splits sum.splits)+
  have ms: "mset bs = mset (backup_history w)" unfolding bs by (rule order_by_same)
  then have set: "set bs = set (backup_history w)" and len: "length bs = length (backup_history w)"
    by (metis mset_eq_setD, metis size_mset)
  have "mset (map bk_ID bs) = mset (map bk_ID (backup_history w))" using ms by simp
  then have dist: "distinct (map bk_ID bs)" using assms(2) by (metis backups_ok_def mset_eq_imp_distinct_iff)
  have row: "bk_row w (bk_ID b) = Some b" if "b \<in> set bs" for b
    by (rule find_unique) (use that set assms(2) distinct_row[of bk_ID] in \<open>auto simp: backups_ok_def\<close>)
  show ?thesis
  proof (cases "bs = []")
    case True
    then have "r = drop_start 0" "w' = w1" using assms(1) a by (simp_all add: DropAllBackups_def)
    then show ?thesis using True len same_but_io_fields[OF io1] by (simp add: drop_start_def)
  next
    case False
    obtain s w2 where g: "GetActiveOffsiteSettingsDecrypted c w1 = (Inr s, w2)"
      using assms(1) a False by (auto simp: DropAllBackups_def split: prod.splits sum.splits)
    obtain cl w3 where d: "drop_client s bs w2 = (Inr cl, w3)"
      using assms(1) a False g by (auto simp: DropAllBackups_def split: prod.splits sum.splits)
    have f: "fold (drop_step dataDir s cl) bs (drop_start (length bs), w3) = (r, w')"
      using assms(1) a False g d by (auto simp: DropAllBackups_def split: prod.splits)
    have io: "same_but_io w w3"
      using io1 GetActiveDecrypted_same[OF g] drop_client_spec(1)[OF d] by (blast intro: same_but_io_trans)
    note F = same_but_io_fields[OF io]
    note D = drop_walk[OF dist drop_client_spec(2)[OF d] f]
    have off: "remote_object s b = remote_object (active_offsite w) b" "s = None \<longleftrightarrow> (active_offsite w) = None" for b
      using GetActiveDecrypted_client[OF g] same_but_io_fields[OF io1] by (simp_all add: active_offsite_def)
    have ra: "row_after dataDir (active_offsite w) b (Some b) w'" if "b \<in> set bs" for b
    proof -
      have "bk_row w3 (bk_ID b) = Some b" using row[OF that] F by simp
      then have "row_after dataDir s b (Some b) w'" using D that by metis
      moreover have "copies_gone dataDir s b v = copies_gone dataDir (active_offsite w) b v" for v
        unfolding copies_gone_def off(1) off(2) ..
      ultimately show ?thesis by (cases "bk_row w' (bk_ID b)") (simp_all add: row_after_def)
    qed
    have fl: "files w' p = None \<and> (\<exists>b \<in> set bs. local_path dataDir b = Some p)" if "files w' p \<noteq> files w p" for p
      using that D F(24) unfolding shrinks_def by metis
    have ob: "objects w' p = None \<and> (\<exists>b \<in> set bs. remote_object (active_offsite w) b = Some p)" if "objects w' p \<noteq> objects w p" for p
      using that D F(25) off(1) unfolding shrinks_def by metis
    have t: "da_RecordsTotal r = length bs" "da_RecordsDropped r + da_RecordsKept r = length bs"
      "length (da_Errors r) = da_RecordsKept r" "snapshot_history w' = snapshot_history w" "rdbms_instances w' = rdbms_instances w"
      using D F by (simp_all add: drop_start_def)
    have n: "\<forall>b \<in> set bs. bk_row w' (bk_ID b) = None" if "da_RecordsKept r = 0" using that D by (simp add: drop_start_def)
    show ?thesis unfolding set[symmetric] len[symmetric] using t n ra fl ob by blast
  qed
qed

theorem DropAllBackups_outcome_witness:
  "let w' = snd (DropAllBackups demo_cipher ''/d'' demo_backup_host)
   in \<not> isl (fst (DropAllBackups demo_cipher ''/d'' demo_backup_host))
      \<and> (\<forall>p. files w' p \<noteq> files demo_backup_host p \<longrightarrow> files w' p = None)
      \<and> snapshot_history w' = snapshot_history demo_backup_host"
proof -
  obtain r w' where d: "DropAllBackups demo_cipher ''/d'' demo_backup_host = (r, w')" by fastforce
  have ok: "\<not> isl (fst (DropAllBackups demo_cipher ''/d'' demo_backup_host))" by code_simp
  then obtain q where q: "r = Inr q" using d by (cases r) simp_all
  show ?thesis
    using DropAllBackups_outcome[OF d[unfolded q] demo_backup_host_ok] ok d by (simp add: Let_def)
qed

text \<open>
  Removing the remote copy of a backup does not check which instance the backup belongs to
  before it deletes the object: under the name of another instance the object is deleted and
  the operation then fails, and the record goes on claiming a remote copy.
\<close>

lemma RemoveRemoteBackup_wrong_instance:
  assumes "io_schedule w = []" "Instances_Get other w = (Inr i, w)" "bk_row w n = Some b" "bk_InstanceName b \<noteq> other"
    and "bk_LocalLocation b = None" "bk_RemoteLocation b = Some l"
    and "GetActiveOffsiteSettingsDecrypted c w = (Inr (Some s), w)" "off_Type s = TypeS3"
    and "parseRemoteS3Location l (off_Bucket s) = Inr key"
  shows "\<exists>e w'. RemoveRemoteBackup c dataDir other n w = (Some e, w')
    \<and> objects w' (client_bucket (client_for s), client_bucketPath (client_for s) @ RelativeKey (client_for s) key) = None
    \<and> bk_row w' n = Some b"
proof -
  have nc: "NewClient s w = (Inr (client_for s), w)"
    using assms(1,8) by (simp add: NewClient_def client_for_def sys_call_def next_io_calm)
  have g: "Backup_GetBackupByID dataDir n v = (Inr b, v)" if "io_schedule v = []" "backup_history v = backup_history w" for v
    using that assms(3,5) by (simp add: Backup_GetBackupByID_def calm_primitives)
  show ?thesis
    using assms g nc
    by (auto simp: RemoveRemoteBackup_def Backup_RemoveRemoteCopy_def DeleteFile_def calm_primitives Let_def)
qed

end
