(* ===== verification/Download.thy ===== *)
theory Download
  imports BackupAdmin Scheduler
begin

text \<open>
  Bringing archives back from the offsite: one object streamed under a temporary name,
  verified and only then renamed (\<open>internal/operations/rdbms_download_backup.go\<close>,
  \<open>snapshot_retrieve.go\<close>), the area of fetched archives and the choice of credentials
  (\<open>snapshot_fetch.go\<close>). The check of the archive's frames and digest, the text of the
  provenance file and the client's credentials are arguments.
\<close>

section \<open>File system\<close>

definition Dir :: "string \<Rightarrow> string" where
  "Dir p = Clean (rev (dropWhile (\<lambda>c. c \<noteq> CHR ''/'') (rev p)))"

definition fs_write :: "string \<Rightarrow> (world \<Rightarrow> world) \<Rightarrow> world \<Rightarrow> goerror option \<times> world" where
  "fs_write what eff w =
     (case next_io w of (oc, w1) \<Rightarrow>
        (case oc of Done \<Rightarrow> (None, eff w1)
         | Refused \<Rightarrow> (Some (DriverError what), w1)
         | Lost \<Rightarrow> (Some (DriverError what), eff w1)))"

definition set_file :: "string \<Rightarrow> int option \<Rightarrow> world \<Rightarrow> world" where
  "set_file p n w = w\<lparr>files := (files w)(p := n)\<rparr>"

definition os_OpenTrunc :: "string \<Rightarrow> world \<Rightarrow> goerror option \<times> world" where
  "os_OpenTrunc p = fs_write ''open'' (set_file p (Some 0))"

text \<open>\<open>rename(2)\<close>: the old name is gone, the new name is the whole file.\<close>

definition os_Rename :: "string \<Rightarrow> string \<Rightarrow> world \<Rightarrow> goerror option \<times> world" where
  "os_Rename a b w =
     (if files w a = None then (Some (Sentinel ErrNotExist), snd (next_io w))
      else fs_write ''rename'' (\<lambda>v. set_file b (files v a) (set_file a None v)) w)"

section \<open>The client\<close>

text \<open>
  \<open>DownloadFileTo\<close> into the open file at \<open>p\<close>: one request and the copy of its body; a copy
  that breaks off leaves a part, whose size nobody reads.
\<close>

definition DownloadFileTo :: "Client \<Rightarrow> string \<Rightarrow> string \<Rightarrow> world \<Rightarrow> int res \<times> world" where
  "DownloadFileTo c key p w =
     (case next_io w of (oc, w1) \<Rightarrow>
        if oc \<noteq> Done then (Inl (wrap ''download from S3'' (DriverError ''s3'')), w1)
        else case objects w1 (client_bucket c, client_bucketPath c @ key) of
          None \<Rightarrow> (Inl (wrap ''download from S3'' (DriverError ''NoSuchKey'')), w1)
        | Some n \<Rightarrow>
            (case fs_write ''read'' (set_file p (Some n)) w1 of
               (Some e, w2) \<Rightarrow> (Inl (wrap ''read S3 object body'' e), w2)
             | (None, w2) \<Rightarrow> (Inr n, w2)))"

text \<open>\<open>StatFile\<close>: the size, and the ETag as the argument \<open>etag\<close>.\<close>

definition StatFile :: "Client \<Rightarrow> string \<Rightarrow> world \<Rightarrow> int option res \<times> world" where
  "StatFile c key w =
     (case next_io w of (oc, w1) \<Rightarrow>
        if oc \<noteq> Done then (Inl (wrap ''check S3 object'' (DriverError ''s3'')), w1)
        else (Inr (objects w1 (client_bucket c, client_bucketPath c @ key)), w1))"

section \<open>Streaming to a file\<close>

text \<open>
  The body of both download loops once the file is open: copy, \<open>fsync\<close>, \<open>Close\<close>; the first
  failure removes the file and is reported, a failed \<open>Close\<close> through \<open>close_err\<close>.
\<close>

definition stream_body :: "(goerror \<Rightarrow> goerror) \<Rightarrow> Client \<Rightarrow> string \<Rightarrow> string \<Rightarrow> world \<Rightarrow> int res \<times> world" where
  "stream_body close_err c key p w =
     (case DownloadFileTo c key p w of (r, w1) \<Rightarrow>
     (case (if isl r then (Inr (), w1) else sys_call ''fsync'' w1) of (sy, w2) \<Rightarrow>
     (case sys_call ''close'' w2 of (cls, w3) \<Rightarrow>
        (case r of
           Inl e \<Rightarrow> (Inl e, snd (os_Remove p w3))
         | Inr n \<Rightarrow>
             (case sy of
                Inl e \<Rightarrow> (Inl e, snd (os_Remove p w3))
              | Inr _ \<Rightarrow>
                  (case cls of
                     Inl e \<Rightarrow> (Inl (close_err e), snd (os_Remove p w3))
                   | Inr _ \<Rightarrow> (Inr n, w3)))))))"

definition streamToLocalFile :: "Client \<Rightarrow> string \<Rightarrow> string \<Rightarrow> world \<Rightarrow> int res \<times> world" where
  "streamToLocalFile c key localPath w =
     (case os_OpenTrunc localPath w of
        (Some e, w1) \<Rightarrow> (Inl (wrap ''create local file'' e), w1)
      | (None, w1) \<Rightarrow> stream_body (\<lambda>e. e) c key localPath w1)"

type_synonym verifier = "string \<Rightarrow> world \<Rightarrow> string res"

definition verifyDownloadedArchive :: "verifier \<Rightarrow> string \<Rightarrow> string \<Rightarrow> world \<Rightarrow> string res" where
  "verifyDownloadedArchive verify path wantSHA256 w =
     (case verify path w of
        Inl e \<Rightarrow> Inl (Errorf1 ''the downloaded archive failed verification and was discarded ('' e
                   ''); re-run the download, and if it fails again the copy in the bucket is damaged'')
      | Inr sha \<Rightarrow>
          if wantSHA256 \<noteq> '''' \<and> sha \<noteq> wantSHA256
          then Inl (Errorf0 (''the downloaded archive is intact but is NOT the archive this host wrote, and was discarded: its SHA-256 is ''
                 @ sha @ '', the catalogue recorded '' @ wantSHA256 @ '' when the archive was created. ''
                 @ ''The object in the bucket has been replaced since it was uploaded; do not restore from it without finding out why''))
          else Inr sha)"

definition tmp_download :: "string \<Rightarrow> string" where
  "tmp_download localPath = Join2 (Dir localPath) (''.tmp-s3-download-'' @ Base localPath)"

definition syncDir :: "world \<Rightarrow> world" where
  "syncDir w = (case sys_call ''open'' w of (Inl e, w1) \<Rightarrow> w1 | (Inr _, w1) \<Rightarrow> snd (sys_call ''fsync'' w1))"

definition streamToLocalFileAtomic ::
  "verifier \<Rightarrow> Client \<Rightarrow> string \<Rightarrow> string \<Rightarrow> string \<Rightarrow> world \<Rightarrow> (int \<times> string) res \<times> world" where
  "streamToLocalFileAtomic verify c key localPath wantSHA256 w =
     (let tmpPath = tmp_download localPath in
      case streamToLocalFile c key tmpPath w of
        (Inl e, w1) \<Rightarrow> (Inl e, w1)
      | (Inr written, w1) \<Rightarrow>
     (case verifyDownloadedArchive verify tmpPath wantSHA256 w1 of
        Inl e \<Rightarrow> (Inl e, snd (os_Remove tmpPath w1))
      | Inr digest \<Rightarrow>
     (case os_Rename tmpPath localPath w1 of
        (Some e, w2) \<Rightarrow> (Inl (wrap ''finalize downloaded archive'' e), snd (os_Remove tmpPath w2))
      | (None, w2) \<Rightarrow> (Inr (written, digest), syncDir w2))))"

section \<open>A backup\<close>

definition opt_text :: "string option \<Rightarrow> string" where
  "opt_text t = (case t of None \<Rightarrow> '''' | Some s \<Rightarrow> s)"

definition validateDownloadableBackup ::
  "string \<Rightarrow> string \<Rightarrow> string \<Rightarrow> int \<Rightarrow> world \<Rightarrow> BackupRecord res \<times> world" where
  "validateDownloadableBackup dataDir backupDir instanceName backupID w =
     (case Backup_GetBackupByID dataDir backupID w of
        (Inl e, w1) \<Rightarrow> (Inl (wrap ''get backup'' e), w1)
      | (Inr b, w1) \<Rightarrow>
          if bk_InstanceName b \<noteq> instanceName
          then (Inl (Errorf0 (''backup '' @ Itoa backupID @ '' does not belong to instance '' @ instanceName)), w1)
          else if opt_text (bk_RemoteLocation b) = ''''
          then (Inl (Errorf0 (''backup '' @ Itoa backupID @ '' has no remote copy to download'')), w1)
          else if opt_text (bk_LocalLocation b) \<noteq> '''' then
            let l = opt_text (bk_LocalLocation b); localPath = (if IsAbs l then l else Join2 backupDir l) in
            (case os_Stat localPath w1 of
               (StatOK n, w2) \<Rightarrow>
                 (Inl (Errorf0 (''backup '' @ Itoa backupID @ '' already has a local copy at '' @ localPath)), w2)
             | (_, w2) \<Rightarrow> (Inr b, w2))
          else (Inr b, w1))"

record DownloadResult =
  dr_Location :: string
  dr_Size :: int

definition DownloadBackup ::
  "verifier \<Rightarrow> cipher \<Rightarrow> string \<Rightarrow> string \<Rightarrow> string \<Rightarrow> int \<Rightarrow> world \<Rightarrow> DownloadResult res \<times> world" where
  "DownloadBackup verify c dataDir backupDir instanceName backupID w =
     (case validateDownloadableBackup dataDir backupDir instanceName backupID w of
        (Inl e, w1) \<Rightarrow> (Inl e, w1)
      | (Inr b, w1) \<Rightarrow>
     (case GetActiveOffsiteSettingsDecrypted c w1 of
        (Inl e, w2) \<Rightarrow> (Inl (wrap ''get offsite settings'' e), w2)
      | (Inr None, w2) \<Rightarrow> (Inl (Errorf0 ''offsite backup not configured''), w2)
      | (Inr (Some s), w2) \<Rightarrow>
     (case parseRemoteS3Location (opt_text (bk_RemoteLocation b)) (off_Bucket s) of
        Inl e \<Rightarrow> (Inl e, w2)
      | Inr key \<Rightarrow>
     (case NewClient s w2 of
        (Inl e, w3) \<Rightarrow> (Inl (wrap ''create S3 client'' e), w3)
      | (Inr cl, w3) \<Rightarrow>
          let localPath = Join2 backupDir (last (SplitChar (CHR ''/'') key)) in
     (case streamToLocalFileAtomic verify cl (RelativeKey cl key) localPath (opt_text (bk_SHA256 b)) w3 of
        (Inl e, w4) \<Rightarrow> (Inl e, w4)
      | (Inr (written, digest), w4) \<Rightarrow>
     (case Backup_UpdateLocalLocation backupID localPath w4 of
        (Some e, w5) \<Rightarrow> (Inl (wrap ''update backup local location'' e), snd (os_Remove localPath w5))
      | (None, w5) \<Rightarrow>
          (Inr \<lparr>dr_Location = localPath, dr_Size = written\<rparr>,
           if bk_SHA256 b = None then snd (Backup_SetSHA256IfUnknown backupID digest w5) else w5)))))))"

section \<open>A snapshot\<close>

definition DownloadSnapshot ::
  "verifier \<Rightarrow> cipher \<Rightarrow> gotime \<Rightarrow> int \<Rightarrow> string \<Rightarrow> world \<Rightarrow> DownloadResult res \<times> world" where
  "DownloadSnapshot verify c now n backupDir w =
     (case GetActiveOffsiteSettingsDecrypted c w of
        (Inl e, w1) \<Rightarrow> (Inl (wrap ''get offsite settings'' e), w1)
      | (Inr None, w1) \<Rightarrow> (Inl (Invalidf (Errorf0 ''offsite backup not configured'')), w1)
      | (Inr (Some s), w1) \<Rightarrow>
     (case Snapshot_Get n w1 of
        (Inl e, w2) \<Rightarrow> (Inl e, w2)
      | (Inr None, w2) \<Rightarrow> (Inl (NotFoundf (Errorf0 (''snapshot '' @ Itoa n @ '' not found''))), w2)
      | (Inr (Some r), w2) \<Rightarrow>
          if RemotePath r = ''''
          then (Inl (Invalidf (Errorf0 (''snapshot '' @ Itoa n @ '' has no offsite copy to download''))), w2)
          else let localPath = Join2 backupDir (snap_Filename r) in
     (case (if LocalPath r \<noteq> '''' then os_Stat (LocalPath r) w2 else (StatNotExist, w2)) of
        (StatOK _, w3) \<Rightarrow>
          (Inl (Conflictf (Errorf0 (''snapshot '' @ Itoa n @ '' already has a local copy at '' @ LocalPath r))), w3)
      | (_, w3) \<Rightarrow>
     (case os_Stat localPath w3 of
        (StatOK _, w4) \<Rightarrow>
          (Inl (Conflictf (Errorf0 (''a file already exists at '' @ localPath @ ''; move it aside first''))), w4)
      | (_, w4) \<Rightarrow>
     (case NewClient s w4 of
        (Inl e, w5) \<Rightarrow> (Inl (wrap ''create S3 client'' e), w5)
      | (Inr cl, w5) \<Rightarrow>
     (case parseRemoteS3Location (RemotePath r) (off_Bucket s) of
        Inl e \<Rightarrow> (Inl (Invalidf (Errorf0 (''snapshot '' @ Itoa n @ '' has an unusable remote location: '' @ Error e))), w5)
      | Inr key \<Rightarrow>
     (case streamToLocalFileAtomic verify cl (RelativeKey cl key) localPath (opt_text (snap_SHA256 r)) w5 of
        (Inl e, w6) \<Rightarrow>
          (Inl (wrap ''download snapshot'' e), logOffsiteFailure now s ''snapshot_download'' (snap_Filename r) e w6)
      | (Inr (sz, digest), w6) \<Rightarrow>
     (case Snapshot_SetLocalLocation n localPath w6 of
        (Some e, w7) \<Rightarrow> (Inl e, w7)
      | (None, w7) \<Rightarrow>
          let w8 = (if snap_SHA256 r = None then snd (Snapshot_SetSHA256IfUnknown n digest w7) else w7) in
          (Inr \<lparr>dr_Location = localPath, dr_Size = sz\<rparr>,
           snd (Offsite_AddLog now \<lparr>ol_ID = 0, ol_Event = ''snapshot_download'', ol_OffsiteSettingsID = off_ID s,
              ol_Object = RemotePath r @ '' -> '' @ localPath, ol_Success = True,
              ol_ErrorDetails = None, ol_CreatedAt = now\<rparr> w8))))))))))"

definition RemoveSnapshotLocal :: "int \<Rightarrow> world \<Rightarrow> goerror option \<times> world" where
  "RemoveSnapshotLocal n w =
     (case Snapshot_Get n w of
        (Inl e, w1) \<Rightarrow> (Some e, w1)
      | (Inr None, w1) \<Rightarrow> (Some (NotFoundf (Errorf0 (''snapshot '' @ Itoa n @ '' not found''))), w1)
      | (Inr (Some r), w1) \<Rightarrow>
          if LocalPath r = '''' then (Some (Invalidf (Errorf0 (''snapshot '' @ Itoa n @ '' has no local copy''))), w1)
          else (case os_Remove (LocalPath r) w1 of (err, w2) \<Rightarrow>
            if err \<noteq> None \<and> \<not> errors_Is (the err) ErrNotExist then (Some (wrap (''delete '' @ LocalPath r) (the err)), w2)
            else if RemotePath r = '''' then Snapshot_Delete n w2
            else Snapshot_ClearLocalLocation n w2))"

definition RemoveSnapshotRemote :: "cipher \<Rightarrow> int \<Rightarrow> world \<Rightarrow> goerror option \<times> world" where
  "RemoveSnapshotRemote c n w =
     (case GetActiveOffsiteSettingsDecrypted c w of
        (Inl e, w1) \<Rightarrow> (Some (wrap ''get offsite settings'' e), w1)
      | (Inr None, w1) \<Rightarrow> (Some (Invalidf (Errorf0 ''offsite backup not configured'')), w1)
      | (Inr (Some s), w1) \<Rightarrow>
     (case Snapshot_Get n w1 of
        (Inl e, w2) \<Rightarrow> (Some e, w2)
      | (Inr None, w2) \<Rightarrow> (Some (NotFoundf (Errorf0 (''snapshot '' @ Itoa n @ '' not found''))), w2)
      | (Inr (Some r), w2) \<Rightarrow>
          if RemotePath r = '''' then (Some (Invalidf (Errorf0 (''snapshot '' @ Itoa n @ '' has no remote copy''))), w2)
          else
     (case parseS3Location (RemotePath r) of
        Inl e \<Rightarrow> (Some (Invalidf (Errorf0 (''snapshot '' @ Itoa n @ '' has an unusable remote location: '' @ Error e))), w2)
      | Inr (bucket, key) \<Rightarrow>
          if bucket \<noteq> off_Bucket s
          then (Some (Invalidf (Errorf0 (''snapshot '' @ Itoa n @ '' lives in bucket '' @ bucket @ '' but offsite is configured for ''
                 @ off_Bucket s @ ''; refusing to delete from a bucket ODDK no longer manages''))), w2)
          else
     (case NewClient s w2 of
        (Inl e, w3) \<Rightarrow> (Some (wrap ''create S3 client'' e), w3)
      | (Inr cl, w3) \<Rightarrow>
     (case DeleteFile cl (RelativeKey cl key) w3 of
        (Some e, w4) \<Rightarrow> (Some (wrap ''delete remote snapshot'' e), w4)
      | (None, w4) \<Rightarrow>
          if LocalPath r = '''' then Snapshot_Delete n w4 else Snapshot_ClearRemoteLocation n w4)))))"

section \<open>The area of fetched archives\<close>

datatype credSource = credSourceOffsite | credSourceRequest | credSourceInstanceRole

definition pickSnapshotCredsSource :: "OffsiteSettings option \<Rightarrow> string \<Rightarrow> string \<Rightarrow> bool \<Rightarrow> credSource" where
  "pickSnapshotCredsSource settings bucket reqEndpoint haveRequestCreds =
     (case settings of
        Some s \<Rightarrow>
          if off_Bucket s = bucket \<and> (reqEndpoint = '''' \<or> reqEndpoint = opt_text (off_Endpoint s)) then credSourceOffsite
          else if haveRequestCreds then credSourceRequest else credSourceInstanceRole
      | None \<Rightarrow> if haveRequestCreds then credSourceRequest else credSourceInstanceRole)"

text \<open>
  \<open>RemoteSnapshotSpec\<close>; whether the request carried credentials is all the choice depends on.
\<close>

record RemoteSnapshotSpec =
  rs_URI :: string
  rs_Region :: string
  rs_Endpoint :: string
  rs_HaveCredentials :: bool

text \<open>
  The three ways to a client for given credentials: the configuration is loaded, and for the
  instance role and the ambient chain the credentials are fetched once before the client is handed out.
\<close>

definition NewClientStatic :: "Target \<Rightarrow> world \<Rightarrow> Client res \<times> world" where
  "NewClientStatic t w =
     (case sys_call ''aws config'' w of
        (Inl e, w1) \<Rightarrow> (Inl (wrap ''load AWS config'' e), w1)
      | (Inr _, w1) \<Rightarrow> (Inr (NewClientFromConfig t), w1))"

definition probed_client :: "string \<Rightarrow> Target \<Rightarrow> world \<Rightarrow> Client res \<times> world" where
  "probed_client none t w =
     (case sys_call ''aws config'' w of
        (Inl e, w1) \<Rightarrow> (Inl (wrap ''load AWS config'' e), w1)
      | (Inr _, w1) \<Rightarrow>
     (case sys_call ''credentials'' w1 of
        (Inl e, w2) \<Rightarrow> (Inl (wrap none e), w2)
      | (Inr _, w2) \<Rightarrow> (Inr (NewClientFromConfig t), w2)))"

definition NewClientEC2Role :: "Target \<Rightarrow> world \<Rightarrow> Client res \<times> world" where
  "NewClientEC2Role = probed_client ''no EC2 instance role available''"

definition NewClientAmbient :: "Target \<Rightarrow> world \<Rightarrow> Client res \<times> world" where
  "NewClientAmbient = probed_client ''no AWS credentials found in this environment''"

text \<open>\<open>%q\<close> of a text with nothing to escape.\<close>

definition quoted :: "string \<Rightarrow> string" where
  "quoted s = CHR 0x22 # s @ [CHR 0x22]"

definition newSnapshotFetchClient ::
  "cipher \<Rightarrow> RemoteSnapshotSpec \<Rightarrow> world \<Rightarrow> (Client \<times> string \<times> credSource) res \<times> world" where
  "newSnapshotFetchClient c spec w =
     (case ParseS3URI (rs_URI spec) of
        Inl e \<Rightarrow> (Inl (Invalidf (Errorf0 (''invalid s3 URI: '' @ Error e))), w)
      | Inr (bucket, key) \<Rightarrow>
     (case GetActiveOffsiteSettingsDecrypted c w of
        (Inl e, w1) \<Rightarrow> (Inl (wrap ''get offsite settings'' e), w1)
      | (Inr settings, w1) \<Rightarrow>
          let tg = \<lparr>tg_Bucket = bucket, tg_BucketPath = '''', tg_Endpoint = rs_Endpoint spec, tg_Region = rs_Region spec\<rparr> in
     (case pickSnapshotCredsSource settings bucket (rs_Endpoint spec) (rs_HaveCredentials spec) of
        credSourceOffsite \<Rightarrow>
          (case NewClient ((the settings)\<lparr>off_BucketPath := Some ''''\<rparr>) w1 of
             (Inl e, w2) \<Rightarrow> (Inl (wrap ''create S3 client from offsite settings'' e), w2)
           | (Inr cl, w2) \<Rightarrow> (Inr (cl, key, credSourceOffsite), w2))
      | credSourceRequest \<Rightarrow>
          (case NewClientStatic tg w1 of
             (Inl e, w2) \<Rightarrow> (Inl (wrap ''create S3 client from request credentials'' e), w2)
           | (Inr cl, w2) \<Rightarrow> (Inr (cl, key, credSourceRequest), w2))
      | credSourceInstanceRole \<Rightarrow>
          (case NewClientEC2Role tg w1 of
             (Inl e, w2) \<Rightarrow>
               (Inl (Invalidf (Errorf0 (''no credentials for s3://'' @ bucket @ '': ''
                  @ (case settings of None \<Rightarrow> ''offsite is not configured''
                     | Some s \<Rightarrow> ''offsite is configured for bucket '' @ quoted (off_Bucket s) @ '', not this one'')
                  @ '', the request carried none, and this host has no EC2 instance role. ''
                  @ ''Run the CLI where AWS credentials are available (AWS_ACCESS_KEY_ID/AWS_SECRET_ACCESS_KEY, ''
                  @ ''a ~/.aws profile via --aws-profile, or an EC2 instance role) so it can pass them to the daemon''))), w2)
           | (Inr cl, w2) \<Rightarrow> (Inr (cl, key, credSourceInstanceRole), w2)))))"

definition downloadSourceSuffix :: string where "downloadSourceSuffix = ''.src''"

definition source_text :: "string \<Rightarrow> string \<Rightarrow> string" where
  "source_text uri etag = uri @ [char_of (10 :: nat)] @ etag @ [char_of (10 :: nat)]"

definition downloadSourceMatches :: "string res \<Rightarrow> string \<Rightarrow> string \<Rightarrow> bool" where
  "downloadSourceMatches sidecar uri etag =
     (case sidecar of
        Inl e \<Rightarrow> False
      | Inr data \<Rightarrow>
          (case (case CutChar (char_of (10 :: nat)) (TrimSpace data) of Some p \<Rightarrow> p | None \<Rightarrow> (TrimSpace data, '''')) of
             (recordedURI, recordedETag) \<Rightarrow>
               if recordedURI \<noteq> uri then False
               else if etag = '''' then True
               else TrimSpace recordedETag = etag))"

record FetchResult =
  fr_Path :: string
  fr_Size :: int
  fr_Reused :: bool

text \<open>
  What a fetch is given: the archive check, the text of the provenance file (or that it cannot
  be read), the object's ETag and whether an error of the client is a region mismatch.
\<close>

definition em_dash :: string where
  "em_dash = [CHR 0x20, CHR 0xE2, CHR 0x80, CHR 0x94, CHR 0x20]"

record fetch_env =
  fe_verify :: verifier
  fe_sidecar :: "string \<Rightarrow> string res"
  fe_etag :: string
  fe_region_mismatch :: "goerror \<Rightarrow> bool"

definition region_hint :: string where
  "region_hint = CHR 0x0A # ''The bucket appears to live in a different region'' @ em_dash
     @ ''re-run with --region <region> (or set AWS_REGION)''"

definition FetchRemoteSnapshot ::
  "fetch_env \<Rightarrow> Client \<Rightarrow> string \<Rightarrow> string \<Rightarrow> string \<Rightarrow> world \<Rightarrow> FetchResult res \<times> world" where
  "FetchRemoteSnapshot fe cl uri key destDir w =
     (let name = Base key; finalPath = Join2 destDir name; sidecarPath = finalPath @ downloadSourceSuffix;
          tmpPath = Join2 destDir (''.tmp-'' @ name);
          bucket = (case ParseS3URI uri of Inl e \<Rightarrow> '''' | Inr (b, k) \<Rightarrow> b) in
      if \<not> HasSuffix name ''.tar.zst'' \<or> name = ''.tar.zst''
      then (Inl (Invalidf (Errorf0 (uri @ '' does not name a .tar.zst archive; find one with 'oddk snapshot list-remote s3://'' @ bucket @ [CHR 0x27]))), w)
      else
     (case StatFile cl key w of
        (Inl e, w1) \<Rightarrow>
          (Inl (if fe_region_mismatch fe e then Invalidf (Errorf0 (Error e @ region_hint)) else wrap (''check '' @ uri) e), w1)
      | (Inr None, w1) \<Rightarrow>
          (Inl (NotFoundf (Errorf0 (uri @ '' does not exist; list available snapshots with 'oddk snapshot list-remote s3://'' @ bucket @ [CHR 0x27]))), w1)
      | (Inr (Some sz), w1) \<Rightarrow>
     (case sys_call ''mkdir'' w1 of
        (Inl e, w2) \<Rightarrow> (Inl (wrap ''create downloads dir'' e), w2)
      | (Inr _, w2) \<Rightarrow>
     (case os_Stat finalPath w2 of (st, w3) \<Rightarrow>
        if st = StatOK sz \<and> downloadSourceMatches (fe_sidecar fe sidecarPath) uri (fe_etag fe)
        then (Inr \<lparr>fr_Path = finalPath, fr_Size = sz, fr_Reused = True\<rparr>, w3)
        else
     (case os_OpenTrunc tmpPath w3 of
        (Some e, w4) \<Rightarrow> (Inl (wrap ''create temp download file'' e), w4)
      | (None, w4) \<Rightarrow>
     (case stream_body (wrap ''finish temp download file'') cl key tmpPath w4 of
        (Inl e, w5) \<Rightarrow> (Inl (wrap (''download '' @ uri) e), w5)
      | (Inr written, w5) \<Rightarrow>
     (case verifyDownloadedArchive (fe_verify fe) tmpPath '''' w5 of
        Inl e \<Rightarrow> (Inl e, snd (os_Remove tmpPath w5))
      | Inr _ \<Rightarrow>
     (case os_Remove sidecarPath w5 of (_, w6) \<Rightarrow>
     (case os_Rename tmpPath finalPath w6 of
        (Some e, w7) \<Rightarrow> (Inl (wrap ''finalize downloaded archive'' e), snd (os_Remove tmpPath w7))
      | (None, w7) \<Rightarrow>
          (Inr \<lparr>fr_Path = finalPath, fr_Size = written, fr_Reused = False\<rparr>,
           snd (fs_write ''write'' (set_file sidecarPath (Some (int (length (source_text uri (fe_etag fe)))))) (syncDir w7))))))))))))"

section \<open>Where a restore's archive comes from\<close>

datatype archive_kind = OriginFile | OriginCatalogue | OriginCatalogueDownloaded | OriginS3Download | OriginS3Cached

record ArchiveOrigin =
  ao_Kind :: archive_kind
  ao_Path :: string
  ao_DownloadedBytes :: int
  ao_CredentialSource :: "credSource option"
  ao_ExpectedSHA256 :: string

record RestoreArchiveSource =
  ra_ArchivePath :: string
  ra_SnapshotID :: int
  ra_Remote :: "RemoteSnapshotSpec option"

definition resolveCatalogueArchive ::
  "verifier \<Rightarrow> cipher \<Rightarrow> gotime \<Rightarrow> int \<Rightarrow> string \<Rightarrow> world \<Rightarrow> (string \<times> bool \<times> ArchiveOrigin) res \<times> world" where
  "resolveCatalogueArchive verify c now n backupDir w =
     (case Snapshot_Get n w of
        (Inl e, w1) \<Rightarrow> (Inl e, w1)
      | (Inr None, w1) \<Rightarrow> (Inl (NotFoundf (Errorf0 (''snapshot '' @ Itoa n @ '' not found''))), w1)
      | (Inr (Some r), w1) \<Rightarrow>
     (case (if LocalPath r \<noteq> '''' then os_Stat (LocalPath r) w1 else (StatNotExist, w1)) of
        (StatOK _, w2) \<Rightarrow>
          (Inr (LocalPath r, False, \<lparr>ao_Kind = OriginCatalogue, ao_Path = LocalPath r, ao_DownloadedBytes = 0,
             ao_CredentialSource = None, ao_ExpectedSHA256 = opt_text (snap_SHA256 r)\<rparr>), w2)
      | (_, w2) \<Rightarrow>
     (case DownloadSnapshot verify c now n backupDir w2 of
        (Inl e, w3) \<Rightarrow> (Inl e, w3)
      | (Inr d, w3) \<Rightarrow>
          (Inr (dr_Location d, False, \<lparr>ao_Kind = OriginCatalogueDownloaded, ao_Path = dr_Location d,
             ao_DownloadedBytes = dr_Size d, ao_CredentialSource = Some credSourceOffsite,
             ao_ExpectedSHA256 = opt_text (snap_SHA256 r)\<rparr>), w3))))"

definition ResolveRestoreInstanceArchive ::
  "fetch_env \<Rightarrow> cipher \<Rightarrow> gotime \<Rightarrow> RestoreArchiveSource \<Rightarrow> string \<Rightarrow> world \<Rightarrow> (string \<times> bool \<times> ArchiveOrigin) res \<times> world" where
  "ResolveRestoreInstanceArchive fe c now src backupDir w =
     (let sources = (if ra_ArchivePath src \<noteq> '''' then 1 else 0) + (if ra_SnapshotID src \<noteq> 0 then 1 else 0)
            + (if ra_Remote src \<noteq> None then 1 else 0 :: nat) in
      if sources \<noteq> 1 then (Inl (Invalidf (Errorf0 ''exactly one of filePath, snapshotId or s3Uri is required'')), w)
      else if ra_ArchivePath src \<noteq> '''' then
        (Inr (ra_ArchivePath src, False, \<lparr>ao_Kind = OriginFile, ao_Path = ra_ArchivePath src, ao_DownloadedBytes = 0,
           ao_CredentialSource = None, ao_ExpectedSHA256 = ''''\<rparr>), w)
      else if ra_SnapshotID src \<noteq> 0 then resolveCatalogueArchive (fe_verify fe) c now (ra_SnapshotID src) backupDir w
      else let spec = the (ra_Remote src) in
     (case Snapshot_FindByRemoteLocation (rs_URI spec) w of
        (Inl e, w1) \<Rightarrow> (Inl e, w1)
      | (Inr (Some r), w1) \<Rightarrow> resolveCatalogueArchive (fe_verify fe) c now (snap_ID r) backupDir w1
      | (Inr None, w1) \<Rightarrow>
     (case newSnapshotFetchClient c spec w1 of
        (Inl e, w2) \<Rightarrow> (Inl e, w2)
      | (Inr (cl, key, source), w2) \<Rightarrow>
     (case FetchRemoteSnapshot fe cl (rs_URI spec) key (SnapshotDownloadsDir backupDir) w2 of
        (Inl e, w3) \<Rightarrow> (Inl e, w3)
      | (Inr f, w3) \<Rightarrow>
          (Inr (fr_Path f, True, \<lparr>ao_Kind = if fr_Reused f then OriginS3Cached else OriginS3Download, ao_Path = fr_Path f,
             ao_DownloadedBytes = if fr_Reused f then 0 else fr_Size f, ao_CredentialSource = Some source,
             ao_ExpectedSHA256 = ''''\<rparr>), w3)))))"

text \<open>
  \<open>FetchSnapshotForApply\<close> marks every failure with the promise that nothing was changed;
  \<open>no_changes\<close> stands for the marker type of \<open>appendNoChanges\<close>.
\<close>

definition FetchSnapshotForApply ::
  "(goerror \<Rightarrow> goerror) \<Rightarrow> fetch_env \<Rightarrow> RemoteSnapshotSpec \<Rightarrow> string \<Rightarrow> world \<Rightarrow> FetchResult res \<times> world" where
  "FetchSnapshotForApply no_changes fe spec backupDir w =
     (case ParseS3URI (rs_URI spec) of
        Inl e \<Rightarrow> (Inl (no_changes (wrap ''invalid s3 URI'' e)), w)
      | Inr (bucket, key) \<Rightarrow>
     (case NewClientAmbient \<lparr>tg_Bucket = bucket, tg_BucketPath = '''', tg_Endpoint = rs_Endpoint spec, tg_Region = rs_Region spec\<rparr> w of
        (Inl e, w1) \<Rightarrow>
          (Inl (no_changes (Errorf0 (''no AWS credentials found: set AWS_ACCESS_KEY_ID/AWS_SECRET_ACCESS_KEY, configure a profile ''
             @ ''(--aws-profile or AWS_PROFILE), or run on a host with an EC2 instance role. ''
             @ ''Note: sudo strips AWS_* variables'' @ em_dash
             @ ''use sudo --preserve-env=AWS_ACCESS_KEY_ID,AWS_SECRET_ACCESS_KEY,AWS_SESSION_TOKEN,AWS_REGION -u oddk ... ('' @ Error e @ '')''))), w1)
      | (Inr cl, w1) \<Rightarrow>
     (case FetchRemoteSnapshot fe cl (rs_URI spec) key (SnapshotDownloadsDir backupDir) w1 of
        (Inl e, w2) \<Rightarrow> (Inl (no_changes e), w2)
      | (Inr f, w2) \<Rightarrow> (Inr f, w2))))"

section \<open>Listing\<close>

record ObjectInfo =
  oi_Key :: string
  oi_Size :: int
  oi_LastModified :: gotime
  oi_ETag :: string

text \<open>
  \<open>ListObjects\<close> over the pages that the SDK's paginator hands out, each of them a page or an error:
  it stops at the first object past \<open>maxKeys\<close> and says so.
\<close>

fun take_page :: "nat \<Rightarrow> ObjectInfo list \<Rightarrow> ObjectInfo list \<Rightarrow> ObjectInfo list \<times> bool" where
  "take_page m objs [] = (objs, False)"
| "take_page m objs (x # xs) = (if m \<le> length objs then (objs, True) else take_page m (objs @ [x]) xs)"

fun list_pages :: "nat \<Rightarrow> ObjectInfo list \<Rightarrow> ObjectInfo list res list \<Rightarrow> (ObjectInfo list \<times> bool) res" where
  "list_pages m objs [] = Inr (objs, False)"
| "list_pages m objs (Inl e # ps) = Inl (wrap ''list S3 objects'' e)"
| "list_pages m objs (Inr page # ps) =
     (case take_page m objs page of
        (objs', True) \<Rightarrow> Inr (objs', True)
      | (objs', False) \<Rightarrow> list_pages m objs' ps)"

definition ListObjects :: "nat \<Rightarrow> ObjectInfo list res list \<Rightarrow> (ObjectInfo list \<times> bool) res" where
  "ListObjects maxKeys pages = list_pages maxKeys [] pages"

record RemoteSnapshotObject =
  ro_URI :: string
  ro_Key :: string
  ro_Size :: int
  ro_LastModified :: gotime

definition MaxRemoteSnapshotListing :: nat where "MaxRemoteSnapshotListing = 1000"

text \<open>
  The loop over mirrored pairs that is to put the newest object first, on the listing's
  modification times: \<open>(i, j)\<close> walk towards each other, each pair is swapped when the front one is older.
\<close>

fun mirror_swap :: "('a \<Rightarrow> gotime) \<Rightarrow> nat \<Rightarrow> nat \<Rightarrow> 'a list \<Rightarrow> 'a list" where
  "mirror_swap t i j xs =
     (if i < j
      then mirror_swap t (i + 1) (j - 1)
             (if t (xs ! i) < t (xs ! j) then xs[i := xs ! j, j := xs ! i] else xs)
      else xs)"

declare mirror_swap.simps [simp del]

definition newest_first :: "('a \<Rightarrow> gotime) \<Rightarrow> 'a list \<Rightarrow> 'a list" where
  "newest_first t xs = mirror_swap t 0 (length xs - 1) xs"

definition ListRemoteSnapshots ::
  "(goerror \<Rightarrow> bool) \<Rightarrow> ObjectInfo list res list \<Rightarrow> string \<Rightarrow> (RemoteSnapshotObject list \<times> bool) res" where
  "ListRemoteSnapshots region_mismatch pages bucket =
     (case ListObjects MaxRemoteSnapshotListing pages of
        Inl e \<Rightarrow> Inl (if region_mismatch e then Invalidf (Errorf0 (Error e @ region_hint)) else e)
      | Inr (objs, truncated) \<Rightarrow>
          Inr (newest_first ro_LastModified
                 (map (\<lambda>x. \<lparr>ro_URI = ''s3://'' @ bucket @ ''/'' @ oi_Key x, ro_Key = oi_Key x,
                            ro_Size = oi_Size x, ro_LastModified = oi_LastModified x\<rparr>) objs), truncated))"

text \<open>The listing is the first \<open>maxKeys\<close> objects of the pages, and says truncated exactly when there are more.\<close>

lemma take_page_eq: "length objs \<le> m \<Longrightarrow> take_page m objs xs = (take m (objs @ xs), m < length objs + length xs)"
  by (induction m objs xs rule: take_page.induct) auto

lemma list_pages_eq:
  "length objs \<le> m \<Longrightarrow> list_pages m objs (map Inr ps) = Inr (take m (objs @ concat ps), m < length objs + length (concat ps))"
proof (induction ps arbitrary: objs)
  case (Cons p ps)
  show ?case
  proof (cases "m < length objs + length p")
    case True
    then show ?thesis using Cons.prems by (simp add: take_page_eq)
  next
    case False
    then show ?thesis using Cons.prems Cons.IH[of "objs @ p"] by (simp add: take_page_eq add.assoc)
  qed
qed simp

lemma ListObjects_first: "ListObjects m (map Inr ps) = Inr (take m (concat ps), m < length (concat ps))"
  by (simp add: ListObjects_def list_pages_eq)

text \<open>With three objects the loop can leave a newer one behind an older one.\<close>

lemma newest_first_not_sorted: "newest_first (\<lambda>x. x) [2, 1, 3] = [3, 1, 2 :: int]"
  by (simp add: newest_first_def mirror_swap.simps)

section \<open>What a download may touch\<close>

definition only_files :: "string set \<Rightarrow> world \<Rightarrow> world \<Rightarrow> bool" where
  "only_files S w w' \<longleftrightarrow> same_tables w w' \<and> objects w' = objects w \<and> (\<forall>q. q \<notin> S \<longrightarrow> files w' q = files w q)"

lemma only_files_io: "same_but_io w w' \<Longrightarrow> only_files S w w'"
  by (simp add: only_files_def same_tables_io same_but_io_stores)

lemma only_files_trans: "only_files S u v \<Longrightarrow> only_files S v w \<Longrightarrow> only_files S u w"
  unfolding only_files_def using same_tables_trans by metis

lemma only_files_mono: "only_files S u v \<Longrightarrow> S \<subseteq> T \<Longrightarrow> only_files T u v"
  unfolding only_files_def by blast

lemma only_files_objects: "only_files S u v \<Longrightarrow> objects v = objects u"
  by (simp add: only_files_def)

lemma only_files_file: "only_files S u v \<Longrightarrow> p \<notin> S \<Longrightarrow> files v p = files u p"
  by (simp add: only_files_def)

lemma set_file_only: "p \<in> S \<Longrightarrow> only_files S w (set_file p n w)"
  by (auto simp: only_files_def set_file_def same_tables_def)

lemma set_file_files [simp]: "files (set_file p n w) p = n" "q \<noteq> p \<Longrightarrow> files (set_file p n w) q = files w q"
  by (simp_all add: set_file_def)

lemma os_Remove_only: "os_Remove p w = (r, w') \<Longrightarrow> only_files {p} w w' \<and> (files w' p = files w p \<or> files w' p = None)"
  using os_Remove_effect[of p w r w'] by (auto simp: only_files_def)

lemma fs_write_cases:
  assumes "fs_write what eff w = (e, w')"
  obtains w1 where "same_but_io w w1" "w' = eff w1" | "e \<noteq> None" "same_but_io w w'"
  using assms next_io_same[of w] by (auto simp: fs_write_def split: prod.splits outcome.splits)

lemma os_OpenTrunc_only:
  assumes "os_OpenTrunc p w = (e, w')"
  shows "only_files {p} w w'"
  using assms unfolding os_OpenTrunc_def
  by (elim fs_write_cases) (auto intro: only_files_io only_files_trans set_file_only)

lemma DownloadFileTo_effect:
  assumes "DownloadFileTo c key p w = (r, w')"
  shows "only_files {p} w w'"
    "r = Inr n \<Longrightarrow> files w' p = Some n \<and> objects w (client_bucket c, client_bucketPath c @ key) = Some n"
proof -
  let ?ob = "(client_bucket c, client_bucketPath c @ key)"
  obtain oc w1 where io: "next_io w = (oc, w1)" by fastforce
  note same = next_io_same[OF io]
  have "only_files {p} w w' \<and> (\<forall>n. r = Inr n \<longrightarrow> files w' p = Some n \<and> objects w ?ob = Some n)"
  proof (cases "oc = Done \<and> objects w1 ?ob \<noteq> None")
    case False
    then show ?thesis using assms io only_files_io[OF same] by (auto simp: DownloadFileTo_def split: option.splits if_splits)
  next
    case True
    then obtain m where m: "oc = Done" "objects w1 ?ob = Some m" by blast
    obtain e w2 where f: "fs_write ''read'' (set_file p (Some m)) w1 = (e, w2)" by fastforce
    have w2: "w' = w2" "\<forall>n. r = Inr n \<longrightarrow> n = m \<and> e = None"
      using assms io m f by (auto simp: DownloadFileTo_def split: option.splits)
    have "only_files {p} w1 w2 \<and> (e = None \<longrightarrow> files w2 p = Some m)"
      using f by (elim fs_write_cases) (auto intro: only_files_io only_files_trans set_file_only)
    then show ?thesis
      using w2 m only_files_trans[OF only_files_io[OF same]] same_but_io_stores[OF same] by auto
  qed
  then show "only_files {p} w w'"
    "r = Inr n \<Longrightarrow> files w' p = Some n \<and> objects w (client_bucket c, client_bucketPath c @ key) = Some n" by blast+
qed

lemma stream_body_effect:
  assumes "stream_body ce c key p w = (r, w')"
  shows "only_files {p} w w'"
    "r = Inr n \<Longrightarrow> files w' p = Some n \<and> objects w (client_bucket c, client_bucketPath c @ key) = Some n"
proof -
  obtain x w1 where d: "DownloadFileTo c key p w = (x, w1)" by fastforce
  obtain sy w2 where s: "(if isl x then (Inr (), w1) else sys_call ''fsync'' w1) = (sy, w2)" by fastforce
  obtain cls w3 where cl: "sys_call ''close'' w2 = (cls, w3)" by fastforce
  obtain e w4 where rm: "os_Remove p w3 = (e, w4)" by fastforce
  have io: "same_but_io w1 w3"
    using s sys_call_same[of "''fsync''" w1] sys_call_same[OF cl] by (auto split: if_splits intro: same_but_io_trans)
  have o3: "only_files {p} w w3" using only_files_trans[OF DownloadFileTo_effect(1)[OF d] only_files_io[OF io]] .
  have o4: "only_files {p} w w4" using only_files_trans[OF o3] os_Remove_only[OF rm] by blast
  have w': "w' = w4 \<and> isl r \<or> w' = w3 \<and> r = x"
    using assms d s cl rm by (auto simp: stream_body_def split: sum.splits)
  then show "only_files {p} w w'" using o3 o4 by blast
  show "r = Inr n \<Longrightarrow> files w' p = Some n \<and> objects w (client_bucket c, client_bucketPath c @ key) = Some n"
    using w' DownloadFileTo_effect(2)[OF d, of n] same_but_io_stores[OF io] by auto
qed

lemma os_Rename_effect:
  assumes "os_Rename a b w = (e, w')" "a \<noteq> b"
  shows "only_files {a, b} w w'"
    "files w' b = files w b \<and> e \<noteq> None \<or> files w' b = files w a \<and> files w' a = None"
proof -
  have io: "same_but_io w (snd (next_io w))" using next_io_same[of w "fst (next_io w)"] by simp
  have "only_files {a, b} w w' \<and> (files w' b = files w b \<and> e \<noteq> None \<or> files w' b = files w a \<and> files w' a = None)"
  proof (cases "files w a = None")
    case True
    then show ?thesis using assms io only_files_io[OF io] same_but_io_stores[OF io] by (auto simp: os_Rename_def)
  next
    case False
    then have "fs_write ''rename'' (\<lambda>v. set_file b (files v a) (set_file a None v)) w = (e, w')"
      using assms(1) by (auto simp: os_Rename_def)
    then show ?thesis
    proof (rule fs_write_cases)
      fix w1 assume w1: "same_but_io w w1" "w' = set_file b (files w1 a) (set_file a None w1)"
      have "only_files {a, b} w1 w'"
        unfolding w1(2) by (rule only_files_trans[OF set_file_only set_file_only]) auto
      then show ?thesis
        using only_files_trans[OF only_files_io[OF w1(1)]] same_but_io_stores[OF w1(1)] w1(2) assms(2)
        by auto
    next
      assume "e \<noteq> None" "same_but_io w w'"
      then show ?thesis by (simp add: only_files_io same_but_io_stores)
    qed
  qed
  then show "only_files {a, b} w w'"
    "files w' b = files w b \<and> e \<noteq> None \<or> files w' b = files w a \<and> files w' a = None" by blast+
qed

lemma syncDir_same: "same_but_io w (syncDir w)"
  using sys_call_same[of _ w] sys_call_same same_but_io_trans
  by (auto simp: syncDir_def split: prod.splits sum.splits) (metis prod.collapse same_but_io_trans sys_call_same)

text \<open>
  The archive under its final name is the old one, or a whole copy of the object that the
  check accepted while it still had its temporary name, with the recorded digest when one is
  recorded. A success leaves no temporary file.
\<close>

definition verified_copy :: "verifier \<Rightarrow> Client \<Rightarrow> string \<Rightarrow> string \<Rightarrow> string \<Rightarrow> world \<Rightarrow> string \<Rightarrow> int \<Rightarrow> bool" where
  "verified_copy verify c key p want w d n \<longleftrightarrow>
     objects w (client_bucket c, client_bucketPath c @ key) = Some n
     \<and> (\<exists>v. only_files {tmp_download p} w v \<and> files v (tmp_download p) = Some n
          \<and> verify (tmp_download p) v = Inr d \<and> (want \<noteq> '''' \<longrightarrow> d = want))"

lemma streamToLocalFile_effect:
  assumes "streamToLocalFile c key p w = (r, w')"
  shows "only_files {p} w w'"
    "r = Inr n \<Longrightarrow> files w' p = Some n \<and> objects w (client_bucket c, client_bucketPath c @ key) = Some n"
proof -
  obtain e w1 where o1: "os_OpenTrunc p w = (e, w1)" by fastforce
  note O = os_OpenTrunc_only[OF o1]
  show "only_files {p} w w'"
    using assms o1 O stream_body_effect(1)[of _ c key p w1 r w'] only_files_trans
    by (auto simp: streamToLocalFile_def split: option.splits)
  show "r = Inr n \<Longrightarrow> files w' p = Some n \<and> objects w (client_bucket c, client_bucketPath c @ key) = Some n"
    using assms o1 stream_body_effect(2)[of _ c key p w1 r w' n] only_files_objects[OF O]
    by (auto simp: streamToLocalFile_def split: option.splits)
qed

lemma streamToLocalFileAtomic_effect:
  assumes st: "streamToLocalFileAtomic verify c key p want w = (r, w')" and t: "tmp_download p \<noteq> p"
  shows "only_files {tmp_download p, p} w w'"
    "files w' p = files w p \<or> (\<exists>d n. files w' p = Some n \<and> verified_copy verify c key p want w d n)"
    "r = Inr (n, d) \<Longrightarrow> files w' p = Some n \<and> files w' (tmp_download p) = None \<and> verified_copy verify c key p want w d n"
proof -
  let ?t = "tmp_download p"
  obtain s w1 where s: "streamToLocalFile c key ?t w = (s, w1)" by fastforce
  note S = streamToLocalFile_effect[OF s]
  have S1: "only_files {?t, p} w w1" by (rule only_files_mono[OF S(1)]) simp
  have p1: "files w1 p = files w p" using only_files_file[OF S(1)] t by simp
  have rm: "only_files {?t, p} v (snd (os_Remove ?t v))" "files (snd (os_Remove ?t v)) p = files v p" for v
    using os_Remove_only[of ?t v "fst (os_Remove ?t v)" "snd (os_Remove ?t v)"] only_files_mono[of "{?t}" v _ "{?t, p}"]
      only_files_file[of "{?t}" v _ p] t by simp_all
  have "only_files {?t, p} w w' \<and> (files w' p = files w p \<or> (\<exists>d n. files w' p = Some n \<and> verified_copy verify c key p want w d n))
     \<and> (\<forall>n d. r = Inr (n, d) \<longrightarrow> files w' p = Some n \<and> files w' ?t = None \<and> verified_copy verify c key p want w d n)"
  proof (cases s)
    case (Inl e)
    then show ?thesis using st s S1 p1 by (auto simp: streamToLocalFileAtomic_def Let_def)
  next
    case (Inr n)
    show ?thesis
    proof (cases "verifyDownloadedArchive verify ?t want w1")
      case (Inl e)
      then have "r = Inl e" "w' = snd (os_Remove ?t w1)" using st s Inr by (simp_all add: streamToLocalFileAtomic_def Let_def)
      then show ?thesis using only_files_trans[OF S1] rm[of w1] p1 by simp
    next
      case v: (Inr d)
      then have "verify ?t w1 = Inr d" "want \<noteq> '''' \<longrightarrow> d = want"
        by (auto simp: verifyDownloadedArchive_def split: sum.splits if_splits)
      then have copy: "verified_copy verify c key p want w d n" using S(1) S(2)[OF Inr] unfolding verified_copy_def by blast
      obtain e w2 where rn: "os_Rename ?t p w1 = (e, w2)" by fastforce
      note R = os_Rename_effect[OF rn t]
      have f2: "files w1 ?t = Some n" using S(2)[OF Inr] by simp
      have o2: "only_files {?t, p} w w2" using only_files_trans[OF S1 R(1)] .
      show ?thesis
      proof (cases e)
        case None
        then have "r = Inr (n, d)" "w' = syncDir w2" using st s Inr v rn by (simp_all add: streamToLocalFileAtomic_def Let_def)
        then show ?thesis
          using only_files_trans[OF o2 only_files_io[OF syncDir_same]] R(2) None f2 copy same_but_io_stores[OF syncDir_same, of w2]
          by auto
      next
        case (Some x)
        then have "isl r" "w' = snd (os_Remove ?t w2)" using st s Inr v rn by (auto simp: streamToLocalFileAtomic_def Let_def)
        then show ?thesis using only_files_trans[OF o2] rm[of w2] R(2) p1 f2 copy by auto
      qed
    qed
  qed
  then show "only_files {?t, p} w w'"
    "files w' p = files w p \<or> (\<exists>d n. files w' p = Some n \<and> verified_copy verify c key p want w d n)"
    "r = Inr (n, d) \<Longrightarrow> files w' p = Some n \<and> files w' ?t = None \<and> verified_copy verify c key p want w d n" by blast+
qed

text \<open>A plain name and its temporary name differ.\<close>

lemma tmp_download_differs: "plain_name n \<Longrightarrow> tmp_download (Join2 d n) \<noteq> Join2 d n"
proof
  assume n: "plain_name n" and eq: "tmp_download (Join2 d n) = Join2 d n"
  then have t: "tmp_download (Join2 d n) = Join2 (Dir (Join2 d n)) (''.tmp-s3-download-'' @ n)"
    by (simp add: tmp_download_def Base_Join2)
  have "plain_name (''.tmp-s3-download-'' @ n)" using n by (simp add: plain_name_def)
  then have "Base (tmp_download (Join2 d n)) = ''.tmp-s3-download-'' @ n" unfolding t by (rule Base_Join2)
  then show False using eq Base_Join2[OF n] by (metis append_self_conv2 list.distinct(1))
qed

section \<open>Downloading a snapshot\<close>

lemma verified_copy_io: "same_but_io w v \<Longrightarrow> verified_copy verify c key p want v d n \<Longrightarrow> verified_copy verify c key p want w d n"
proof -
  assume io: "same_but_io w v" and vc: "verified_copy verify c key p want v d n"
  let ?t = "tmp_download p"
  obtain u where u: "only_files {?t} v u" "files u ?t = Some n" "verify ?t u = Inr d" "want \<noteq> '''' \<longrightarrow> d = want"
    using vc unfolding verified_copy_def by blast
  have "only_files {?t} w u" using only_files_trans[OF only_files_io[OF io] u(1)] .
  then show ?thesis using u(2-4) vc same_but_io_stores(2)[OF io] unfolding verified_copy_def by auto
qed

text \<open>The copy at \<open>p\<close> is the object that the row's remote location names, with the row's digest if it has one.\<close>

definition restored_from :: "verifier \<Rightarrow> world \<Rightarrow> Record \<Rightarrow> string \<Rightarrow> string \<Rightarrow> int \<Rightarrow> bool" where
  "restored_from verify w x p d m \<longleftrightarrow>
     (\<exists>cl key. parseRemoteS3Location (RemotePath x) (client_bucket cl) = Inr key
        \<and> verified_copy verify cl (RelativeKey cl key) p (opt_text (snap_SHA256 x)) w d m)"

lemma DownloadSnapshot_phases:
  assumes "DownloadSnapshot verify c now n dir w = (r, w')"
  obtains (early) "isl r" "same_but_io w w'"
  | (stream) s x cl key v a v1 where "x \<in> set (snapshot_history w)" "snap_ID x = n" "same_but_io w v"
      "client_bucket cl = off_Bucket s" "parseRemoteS3Location (RemotePath x) (off_Bucket s) = Inr key"
      "streamToLocalFileAtomic verify cl (RelativeKey cl key) (Join2 dir (snap_Filename x)) (opt_text (snap_SHA256 x)) v = (a, v1)"
      "(\<exists>e. a = Inl e \<and> isl r \<and> w' = logOffsiteFailure now s ''snapshot_download'' (snap_Filename x) e v1)
       \<or> (\<exists>sz d e v2. a = Inr (sz, d) \<and> Snapshot_SetLocalLocation n (Join2 dir (snap_Filename x)) v1 = (e, v2)
            \<and> (e \<noteq> None \<and> isl r \<and> w' = v2
               \<or> e = None \<and> r = Inr \<lparr>dr_Location = Join2 dir (snap_Filename x), dr_Size = sz\<rparr>
                 \<and> (\<exists>l. w' = snd (Offsite_AddLog now l
                       (if snap_SHA256 x = None then snd (Snapshot_SetSHA256IfUnknown n d v2) else v2)))))"
proof -
  obtain r1 w1 where a1: "GetActiveOffsiteSettingsDecrypted c w = (r1, w1)" by fastforce
  obtain r2 w2 where a2: "Snapshot_Get n w1 = (r2, w2)" by fastforce
  note io1 = GetActiveDecrypted_same[OF a1] and io2 = Snapshot_Get_same[OF a2]
  have w2: "same_but_io w w2" using same_but_io_trans[OF io1 io2] .
  show thesis
  proof (cases "\<exists>s x. r1 = Inr (Some s) \<and> r2 = Inr (Some x) \<and> RemotePath x \<noteq> ''''")
    case False
    then have "isl r" "w' = w1 \<or> w' = w2" using assms a1 a2 by (auto simp: DownloadSnapshot_def split: sum.splits option.splits)
    then show thesis using early io1 w2 by blast
  next
    case True
    then obtain s x where sx: "r1 = Inr (Some s)" "r2 = Inr (Some x)" "RemotePath x \<noteq> ''''" by blast
    have f: "find (\<lambda>r. snap_ID r = n) (snapshot_history w) = Some x"
      using a2 sx(2) same_but_io_fields(4)[OF io1]
      by (auto simp: Snapshot_Get_def sql_query_def same_but_io_fields dest!: next_io_same split: prod.splits sum.splits if_splits)
    have x: "x \<in> set (snapshot_history w)" "snap_ID x = n" using find_Some_in[OF f] by simp_all
    obtain st w3 where a3: "(if LocalPath x \<noteq> '''' then os_Stat (LocalPath x) w2 else (StatNotExist, w2)) = (st, w3)" by fastforce
    obtain st' w4 where a4: "os_Stat (Join2 dir (snap_Filename x)) w3 = (st', w4)" by fastforce
    obtain r5 w5 where a5: "NewClient s w4 = (r5, w5)" by fastforce
    have w3: "same_but_io w w3" using a3 w2 os_Stat_same[of "LocalPath x" w2] same_but_io_trans by (auto split: if_splits)
    have w4: "same_but_io w w4" using same_but_io_trans[OF w3 os_Stat_same[OF a4]] .
    have w5: "same_but_io w w5" using same_but_io_trans[OF w4 NewClient_same[OF a5]] .
    show thesis
    proof (cases "(\<nexists>n. st = StatOK n) \<and> (\<nexists>n. st' = StatOK n) \<and> \<not> isl r5 \<and> \<not> isl (parseRemoteS3Location (RemotePath x) (off_Bucket s))")
      case False
      then have "isl r" "w' = w3 \<or> w' = w4 \<or> w' = w5"
        using assms a1 a2 sx a3 a4 a5
        by (auto simp: DownloadSnapshot_def Let_def split: sum.splits stat_result.splits)
      then show thesis using early w3 w4 w5 by blast
    next
      case True
      then obtain cl key where ck: "r5 = Inr cl" "parseRemoteS3Location (RemotePath x) (off_Bucket s) = Inr key"
        by (metis sum.collapse(2))
      obtain a v1 where at: "streamToLocalFileAtomic verify cl (RelativeKey cl key) (Join2 dir (snap_Filename x)) (opt_text (snap_SHA256 x)) w5 = (a, v1)"
        by fastforce
      obtain e v2 where up: "Snapshot_SetLocalLocation n (Join2 dir (snap_Filename x)) v1 = (e, v2)" by fastforce
      have b: "client_bucket cl = off_Bucket s" using NewClient_ok a5 ck(1) by blast
      note go = stream[OF x w5 b ck(2) at] and facts = assms a1 a2 sx a3 a4 a5 ck True at up
      show thesis
      proof (cases a)
        case (Inl f)
        then show thesis using facts
          by (intro go disjI1) (auto simp: DownloadSnapshot_def Let_def split: stat_result.splits)
      next
        case (Inr q)
        obtain sz d where q: "q = (sz, d)" by fastforce
        show thesis
          by (intro go disjI2 exI[of _ sz] exI[of _ d] exI[of _ e] exI[of _ v2])
            (use facts Inr q in \<open>auto simp: DownloadSnapshot_def Let_def split: stat_result.splits option.splits\<close>)
      qed
    qed
  qed
qed

lemma snap_update_rows:
  assumes "snap_exec m (snap_update_stmt p f) w = (e, w')"
  shows "files w' = files w" "objects w' = objects w" "backup_history w' = backup_history w"
    "snapshot_history w' = snapshot_history w \<and> e \<noteq> None \<or> snapshot_history w' = upd_where p f (snapshot_history w)"
  using assms
  by (auto simp: snap_exec_def snap_update_stmt_def same_but_io_fields elim!: sql_exec_cases split: prod.splits sum.splits if_splits)

lemma SetLocalLocation_rows:
  assumes "Snapshot_SetLocalLocation n l w = (None, w')" "y \<in> set (snapshot_history w')" "snap_ID y = n"
  shows "snap_LocalLocation y = Some l"
proof -
  have "y \<in> set (upd_where (\<lambda>r. snap_ID r = n) (\<lambda>r. r\<lparr>snap_LocalLocation := Some l\<rparr>) (snapshot_history w))"
    using snap_update_rows(4)[OF assms(1)[unfolded Snapshot_SetLocalLocation_def]] assms(2) by simp
  then show ?thesis by (cases rule: upd_whereE) (use assms(3) in simp_all)
qed

lemma SetSHA256_rows:
  assumes "Snapshot_SetSHA256IfUnknown n d w = (e, w')" "y \<in> set (snapshot_history w')"
  shows "\<exists>x \<in> set (snapshot_history w). snap_ID x = snap_ID y \<and> snap_LocalLocation x = snap_LocalLocation y"
proof (cases "y \<in> set (snapshot_history w)")
  case False
  then have "y \<in> set (upd_where (\<lambda>r. snap_ID r = n \<and> snap_SHA256 r = None) (\<lambda>r. r\<lparr>snap_SHA256 := Some d\<rparr>) (snapshot_history w))"
    using snap_update_rows(4)[OF assms(1)[unfolded Snapshot_SetSHA256IfUnknown_def]] assms(2) by auto
  then show ?thesis by (cases rule: upd_whereE) auto
qed auto

text \<open>
  C5. A download of a snapshot cannot damage anything: whatever fails on the way, no object of the
  bucket, no backup record and no file but the archive's own name and its temporary name
  changes, and the archive's name changes only to a whole copy of the object the catalogue
  names, accepted by the archive check, with the recorded digest if there is one. A
  download that reports success left that file, no temporary file, and the row pointing to it.
\<close>

theorem DownloadSnapshot_safe:
  assumes "DownloadSnapshot verify c now n dir w = (r, w')"
    and "\<forall>x \<in> set (snapshot_history w). plain_name (snap_Filename x)"
  shows "objects w' = objects w \<and> backup_history w' = backup_history w
    \<and> (\<forall>p. files w' p \<noteq> files w p \<longrightarrow> (\<exists>x \<in> set (snapshot_history w). snap_ID x = n
          \<and> (p = tmp_download (Join2 dir (snap_Filename x))
             \<or> p = Join2 dir (snap_Filename x) \<and> (\<exists>d m. files w' p = Some m \<and> restored_from verify w x p d m))))
    \<and> (\<forall>res. r = Inr res \<longrightarrow> files w' (dr_Location res) = Some (dr_Size res)
          \<and> files w' (tmp_download (dr_Location res)) = None
          \<and> (\<forall>y \<in> set (snapshot_history w'). snap_ID y = n \<longrightarrow> snap_LocalLocation y = Some (dr_Location res)))"
  using assms(1)
proof (cases rule: DownloadSnapshot_phases)
  case early
  then show ?thesis by (auto simp: same_but_io_fields isl_def)
next
  case (stream s x cl key v a v1)
  let ?p = "Join2 dir (snap_Filename x)"
  have t: "tmp_download ?p \<noteq> ?p" using tmp_download_differs assms(2) stream(1) by blast
  note A = streamToLocalFileAtomic_effect[OF stream(6) t]
  note io = same_but_io_stores[OF stream(3)]
  have h: "backup_history v1 = backup_history w"
    using same_tables_fields(4)[OF A(1)[unfolded only_files_def, THEN conjunct1]] same_but_io_fields(6)[OF stream(3)] by simp
  have rest: "files w' = files v1 \<and> objects w' = objects v1 \<and> backup_history w' = backup_history v1
    \<and> (\<forall>res. r = Inr res \<longrightarrow> (\<exists>d. a = Inr (dr_Size res, d)) \<and> dr_Location res = ?p
          \<and> (\<forall>y \<in> set (snapshot_history w'). snap_ID y = n \<longrightarrow> snap_LocalLocation y = Some ?p))"
    using stream(7)
  proof (elim disjE exE conjE)
    fix e assume "isl r" "w' = logOffsiteFailure now s ''snapshot_download'' (snap_Filename x) e v1"
    then show ?thesis using AddLog_frame[OF prod.collapse[symmetric]] by (auto simp: logOffsiteFailure_def isl_def)
  next
    fix e v2 assume "Snapshot_SetLocalLocation n ?p v1 = (e, v2)" "isl r" "w' = v2"
    then show ?thesis using snap_update_rows(1-3)[of _ _ _ v1 e v2] by (auto simp: Snapshot_SetLocalLocation_def isl_def)
  next
    fix sz d e v2 l
    let ?v3 = "if snap_SHA256 x = None then snd (Snapshot_SetSHA256IfUnknown n d v2) else v2"
    assume a: "a = Inr (sz, d)" and u: "Snapshot_SetLocalLocation n ?p v1 = (e, v2)" and e: "e = None"
      and r: "r = Inr \<lparr>dr_Location = ?p, dr_Size = sz\<rparr>" and w': "w' = snd (Offsite_AddLog now l ?v3)"
    obtain e3 v3 where q: "Snapshot_SetSHA256IfUnknown n d v2 = (e3, v3)" by fastforce
    note L = AddLog_frame[OF prod.collapse[symmetric], of now l ?v3]
    note U = snap_update_rows[OF u[unfolded Snapshot_SetLocalLocation_def]]
    note Q = snap_update_rows[OF q[unfolded Snapshot_SetSHA256IfUnknown_def]]
    have "files w' = files v1" "objects w' = objects v1" "backup_history w' = backup_history v1"
      unfolding w' using L(1,2,4) U(1-3) Q(1-3) q by simp_all
    moreover have "snap_LocalLocation y = Some ?p" if y: "y \<in> set (snapshot_history w')" "snap_ID y = n" for y
    proof -
      have "y \<in> set (snapshot_history v2) \<or> y \<in> set (snapshot_history v3)" using y(1) L(3) q unfolding w' by (auto split: if_splits)
      then obtain x where "x \<in> set (snapshot_history v2)" "snap_ID x = n" "snap_LocalLocation x = snap_LocalLocation y"
        using SetSHA256_rows[OF q] y(2) by blast
      then show ?thesis using SetLocalLocation_rows[OF u[unfolded e]] by simp
    qed
    ultimately show ?thesis using a r by auto
  qed
  have new: "\<exists>d m. files w' ?p = Some m \<and> restored_from verify w x ?p d m" if ch: "files w' ?p \<noteq> files w ?p"
  proof -
    obtain d m where m: "files v1 ?p = Some m" and vc: "verified_copy verify cl (RelativeKey cl key) ?p (opt_text (snap_SHA256 x)) v d m"
      using ch A(2) rest io by auto
    have "restored_from verify w x ?p d m"
      unfolding restored_from_def using verified_copy_io[OF stream(3) vc] stream(5)[folded stream(4)] by blast
    then show ?thesis using m rest by auto
  qed
  have fl: "\<exists>x \<in> set (snapshot_history w). snap_ID x = n
      \<and> (p = tmp_download (Join2 dir (snap_Filename x))
         \<or> p = Join2 dir (snap_Filename x) \<and> (\<exists>d m. files w' p = Some m \<and> restored_from verify w x p d m))"
    if ch: "files w' p \<noteq> files w p" for p
  proof -
    have "p = tmp_download ?p \<or> p = ?p" using ch only_files_file[OF A(1), of p] rest io by auto
    then show ?thesis using ch new stream(1,2) by blast
  qed
  have ok: "files w' (dr_Location res) = Some (dr_Size res) \<and> files w' (tmp_download (dr_Location res)) = None
      \<and> (\<forall>y \<in> set (snapshot_history w'). snap_ID y = n \<longrightarrow> snap_LocalLocation y = Some (dr_Location res))" if ri: "r = Inr res" for res
  proof -
    obtain d where d: "a = Inr (dr_Size res, d)" "dr_Location res = ?p" using rest ri by blast
    then show ?thesis using A(3)[OF d(1)] rest ri by simp
  qed
  have "objects w' = objects w \<and> backup_history w' = backup_history w" using rest h only_files_objects[OF A(1)] io by simp
  then show ?thesis using fl ok by simp
qed

definition demo_verifier :: verifier where
  "demo_verifier p w = (case files w p of None \<Rightarrow> Inl (Sentinel ErrNotExist) | Some n \<Rightarrow> Inr ''d1'')"

definition demo_remote :: world where
  "demo_remote = empty_world\<lparr>snapshot_history := [demo_record 1 5 None (Some ''s3://bkt/oddk/s.tar.zst'')], snapshot_seq := 1,
     offsite_settings := [demo_settings], objects := (\<lambda>_. None)((''bkt'', ''oddk/s.tar.zst'') := Some 10)\<rparr>"

lemma demo_download:
  "fst (DownloadSnapshot demo_verifier demo_cipher 9 1 ''/b'' demo_remote) = Inr \<lparr>dr_Location = ''/b/s.tar.zst'', dr_Size = 10\<rparr>"
  by code_simp

theorem DownloadSnapshot_safe_witness:
  "let w' = snd (DownloadSnapshot demo_verifier demo_cipher 9 1 ''/b'' demo_remote)
   in files w' ''/b/s.tar.zst'' = Some 10 \<and> objects w' = objects demo_remote
      \<and> (\<forall>y \<in> set (snapshot_history w'). snap_ID y = 1 \<longrightarrow> snap_LocalLocation y = Some ''/b/s.tar.zst'')"
proof -
  have p: "\<forall>x \<in> set (snapshot_history demo_remote). plain_name (snap_Filename x)"
    by (simp add: demo_remote_def demo_record_def plain_name_def)
  show ?thesis
    using DownloadSnapshot_safe[OF prod.collapse[symmetric] p, where n = 1 and dir = "''/b''" and verify = demo_verifier
        and c = demo_cipher and now = 9] demo_download by (simp add: Let_def)
qed

section \<open>The provenance file\<close>

lemma dropWhile_space_none: "\<forall>c \<in> set s. \<not> is_space c \<Longrightarrow> dropWhile is_space s = s"
  by (cases s) auto

lemma TrimSpace_plain: "\<forall>c \<in> set s. \<not> is_space c \<Longrightarrow> TrimSpace s = s"
  by (simp add: TrimSpace_def dropWhile_space_none)

text \<open>
  What a download writes next to its archive lets a later fetch reuse the file for the same URI
  and, when S3 reports an ETag, the same ETag, and for no other object.
\<close>

lemma downloadSourceMatches_written:
  assumes "uri \<noteq> ''''" "\<forall>c \<in> set uri. \<not> is_space c" "\<forall>c \<in> set etag. \<not> is_space c"
  shows "downloadSourceMatches (Inr (source_text uri etag)) uri' etag' \<longleftrightarrow> uri' = uri \<and> (etag' = '''' \<or> etag' = etag)"
proof -
  let ?nl = "char_of (10 :: nat)"
  have nl: "is_space ?nl" by (simp add: is_space_def)
  have nn: "?nl \<notin> set uri" using assms(2) nl by auto
  obtain u us where u: "uri = u # us" using assms(1) by (cases uri) auto
  have d: "dropWhile is_space (source_text uri etag) = source_text uri etag"
    using assms(2) by (simp add: u source_text_def)
  have t: "TrimSpace (source_text uri etag) = (if etag = '''' then uri else uri @ ?nl # etag)"
  proof (cases "etag = ''''")
    case True
    have "dropWhile is_space (rev uri) = rev uri" using assms(2) by (intro dropWhile_space_none) simp
    then show ?thesis using True nl d by (simp add: TrimSpace_def source_text_def del: rev.simps) (simp add: nl)
  next
    case False
    have e: "dropWhile is_space (rev etag @ ?nl # rev uri) = rev etag @ ?nl # rev uri"
      using assms(3) False by (cases "rev etag") auto
    then show ?thesis using False nl d by (simp add: TrimSpace_def source_text_def)
  qed
  have c: "CutChar ?nl (TrimSpace (source_text uri etag)) = (if etag = '''' then None else Some (uri, etag))"
    using t nn by (simp add: CutChar_None)
  have r: "(case CutChar ?nl (TrimSpace (source_text uri etag)) of Some p \<Rightarrow> p | None \<Rightarrow> (TrimSpace (source_text uri etag), '''')) = (uri, etag)"
    unfolding t using nn by (simp add: CutChar_None[THEN iffD2])
  show ?thesis
    unfolding downloadSourceMatches_def sum.case r using TrimSpace_plain[OF assms(3)] by auto
qed

end
