(* ===== verification/SnapshotMake.thy ===== *)
theory SnapshotMake
  imports TarStream Lifecycle Download
begin

text \<open>
  Capturing the deployment (\<open>internal/operations/snapshot_make.go\<close>, the capturing half of
  \<open>snapshot_physical.go\<close>, the staging half of \<open>rdbms_backup.go\<close>, \<open>instance_metadata.go\<close>) and
  publishing an archive (\<open>writeVerifiedArchive\<close> of \<open>internal/compression\<close>).

  The staging directory is fresh, belongs to one run and is removed at its end; it is the list
  of its files with their sizes. What PostgreSQL's tools leave there, what the engine copies
  out, the sizes of encoded files and the read-back of an archive come from outside and are
  fields of \<open>capture_env\<close>.
\<close>

section \<open>Data\<close>

definition snapshotManifestFile :: string where "snapshotManifestFile = ''manifest.json''"
definition snapshotStoreFile :: string where "snapshotStoreFile = ''oddk.db''"
definition snapshotInstancesDir :: string where "snapshotInstancesDir = ''instances''"
definition snapshotBasebackupDir :: string where "snapshotBasebackupDir = ''basebackup''"
definition instanceMetadataFile :: string where "instanceMetadataFile = ''instance.json''"
definition databaseMetadataFile :: string where "databaseMetadataFile = ''databases.json''"
definition physicalBaseTarZst :: string where "physicalBaseTarZst = ''base.tar.zst''"
definition physicalBaseTar :: string where "physicalBaseTar = ''base.tar''"
definition physicalWalTar :: string where "physicalWalTar = ''pg_wal.tar''"
definition SnapshotFormatPhysical :: string where "SnapshotFormatPhysical = ''physical''"
definition SnapshotFormatLogical :: string where "SnapshotFormatLogical = ''logical''"
definition captureModeBasebackup :: string where "captureModeBasebackup = ''basebackup''"
definition captureModeCold :: string where "captureModeCold = ''cold''"

definition NormalizeSnapshotFormat :: "string \<Rightarrow> string res" where
  "NormalizeSnapshotFormat s =
     (if s = '''' \<or> s = SnapshotFormatPhysical then Inr SnapshotFormatPhysical
      else if s = SnapshotFormatLogical then Inr SnapshotFormatLogical
      else Inl (Invalidf (Errorf0 (''unknown snapshot format '' @ quoted s @ '' (expected '' @ quoted SnapshotFormatPhysical
             @ '' or '' @ quoted SnapshotFormatLogical @ '')''))))"

record SnapshotInstanceEntry =
  en_Name :: string
  en_Version :: string
  en_Image :: string
  en_HasData :: bool
  en_Format :: string
  en_CaptureMode :: string
  en_SkipReason :: string

definition entryFormat :: "SnapshotInstanceEntry \<Rightarrow> string" where
  "entryFormat entry = (if en_Format entry = SnapshotFormatPhysical then SnapshotFormatPhysical else SnapshotFormatLogical)"

record SnapshotManifest =
  mf_FormatVersion :: int
  mf_OddkVersion :: string
  mf_CreatedAt :: gotime
  mf_SourceHost :: string
  mf_SourceArch :: string
  mf_Migrations :: "string list"
  mf_Instances :: "SnapshotInstanceEntry list"

record SnapshotCaptureFailure =
  cf_Instance :: string
  cf_Stage :: string
  cf_Error :: string

record SnapshotResult =
  sr_ID :: int
  sr_Path :: string
  sr_Size :: int
  sr_Timestamp :: gotime
  sr_Format :: string
  sr_Instances :: "SnapshotInstanceEntry list"
  sr_InstancesWithData :: nat
  sr_ConfigOnly :: nat
  sr_SHA256 :: string
  sr_CaptureFailures :: "SnapshotCaptureFailure list"

definition CaptureFailureError :: "SnapshotResult \<Rightarrow> goerror option" where
  "CaptureFailureError r =
     (if sr_CaptureFailures r = [] then None
      else Some (Errorf0 (''the archive was written but '' @ Itoa (int (length (sr_CaptureFailures r))) @ '' of ''
             @ Itoa (int (length (sr_Instances r)))
             @ '' instance(s) could not be captured and hold NO database contents in it: ''
             @ JoinWith ''; '' (map (\<lambda>f. cf_Instance f @ '' ('' @ cf_Stage f @ '': '' @ cf_Error f @ '')'') (sr_CaptureFailures r)))))"

record InstanceMeta =
  im_Name :: string
  im_Version :: string
  im_Image :: string
  im_Port :: int
  im_CPUCores :: int
  im_RAMMB :: int
  im_ParameterGroup :: string
  im_ParameterGroupDefinition :: "Parameter list option"

record Member =
  mb_Name :: string
  mb_Size :: int
  mb_IsDir :: bool

type_synonym staged = "(string \<times> int) list"

text \<open>
  One run of a helper container: its exit status (none when the wait ends on the error channel
  without an error, which the code takes as success), what it left in its mount, the size of its
  standard output and its two streams.
\<close>

record helperContainerSpec =
  hs_Image :: string
  hs_Cmd :: "string list"
  hs_Password :: string
  hs_Env :: "string list"
  hs_JoinNetNSContainer :: string
  hs_Tool :: string
  hs_CaptureStdout :: bool

record helper_run =
  run_status :: "int option"
  run_files :: staged
  run_size :: int
  run_stdout :: string
  run_stderr :: string

record capture_env =
  ce_run :: "helperContainerSpec \<Rightarrow> string list \<Rightarrow> string \<Rightarrow> world \<Rightarrow> helper_run"
  ce_copy_out :: "string \<Rightarrow> string \<Rightarrow> world \<Rightarrow> tar_stream res"
  ce_image_env :: "container \<Rightarrow> string list"
  ce_tar_size :: "tar_entry list \<Rightarrow> int"
  ce_pg_code :: "goerror \<Rightarrow> string"
  ce_databases :: "RDBMSInstance \<Rightarrow> world \<Rightarrow> string list res"
  ce_metadata :: "int \<Rightarrow> RDBMSInstance \<Rightarrow> world \<Rightarrow> DatabaseMeta list res"
  ce_meta_size :: "InstanceMeta \<Rightarrow> int"
  ce_metas_size :: "DatabaseMeta list \<Rightarrow> int"
  ce_manifest_size :: "SnapshotManifest \<Rightarrow> int"
  ce_store_size :: "world \<Rightarrow> int"
  ce_archive_size :: "staged \<Rightarrow> int"
  ce_readback :: "staged \<Rightarrow> string \<Rightarrow> world \<Rightarrow> (Member list \<times> string) res"
  ce_migrations :: "string list"
  ce_version :: string
  ce_arch :: string
  ce_hostname :: "string option"
  ce_timestamp :: string
  ce_backup_dir_missing :: bool
  ce_tmp_suffix :: string

section \<open>The staging directory\<close>

definition stage_put :: "string \<Rightarrow> int \<Rightarrow> staged \<Rightarrow> staged" where
  "stage_put name n st = filter (\<lambda>(f, _). f \<noteq> name) st @ [(name, n)]"

definition stage_all :: "string \<Rightarrow> staged \<Rightarrow> staged \<Rightarrow> staged" where
  "stage_all dir fs st = fold (\<lambda>(f, n). stage_put (dir @ ''/'' @ f) n) fs st"

definition under :: "string \<Rightarrow> string \<Rightarrow> bool" where
  "under dir f \<longleftrightarrow> f = dir \<or> HasPrefix f (dir @ ''/'')"

definition captureInstanceMetadata :: "RDBMSInstance \<Rightarrow> world \<Rightarrow> InstanceMeta \<times> world" where
  "captureInstanceMetadata i w =
     (let meta = \<lparr>im_Name = inst_Name i, im_Version = inst_Version i, im_Image = inst_Image i, im_Port = inst_Port i,
                  im_CPUCores = inst_CPUCores i, im_RAMMB = inst_RAMMB i, im_ParameterGroup = inst_ParameterGroup i,
                  im_ParameterGroupDefinition = None\<rparr> in
      case GetGroup (inst_ParameterGroup i) w of
        (Inl e, w1) \<Rightarrow> (meta, w1)
      | (Inr ps, w1) \<Rightarrow> (meta\<lparr>im_ParameterGroupDefinition := Some ps\<rparr>, w1))"

definition writeInstanceMetadata ::
  "capture_env \<Rightarrow> string \<Rightarrow> InstanceMeta \<Rightarrow> staged \<Rightarrow> world \<Rightarrow> (goerror option \<times> staged) \<times> world" where
  "writeInstanceMetadata ce dir meta st w =
     (case sys_call ''write'' w of
        (Inl e, w1) \<Rightarrow> ((Some (wrap (''write '' @ instanceMetadataFile) e), st), w1)
      | (Inr _, w1) \<Rightarrow> ((None, stage_put (dir @ ''/'' @ instanceMetadataFile) (ce_meta_size ce meta) st), w1))"

definition writeMeta ::
  "capture_env \<Rightarrow> string \<Rightarrow> RDBMSInstance \<Rightarrow> staged \<Rightarrow> world \<Rightarrow> (goerror option \<times> staged) \<times> world" where
  "writeMeta ce dir i st w =
     (case captureInstanceMetadata i w of (meta, w1) \<Rightarrow> writeInstanceMetadata ce dir meta st w1)"

fun remove_leftovers :: "string \<Rightarrow> string list \<Rightarrow> staged \<Rightarrow> world \<Rightarrow> staged \<times> world" where
  "remove_leftovers dir [] st w = (st, w)"
| "remove_leftovers dir (l # ls) st w =
     (case sys_call ''remove'' w of
        (Inl e, w1) \<Rightarrow> remove_leftovers dir ls st w1
      | (Inr _, w1) \<Rightarrow> remove_leftovers dir ls (filter (\<lambda>(f, _). \<not> under (dir @ ''/'' @ l) f) st) w1)"

definition resetToConfigOnly :: "capture_env \<Rightarrow> string \<Rightarrow> RDBMSInstance \<Rightarrow> staged \<Rightarrow> world \<Rightarrow> staged \<times> world" where
  "resetToConfigOnly ce dir i st w =
     (case remove_leftovers dir [snapshotBasebackupDir, ''databases'', ''globals.sql'', databaseMetadataFile] st w of
        (st1, w1) \<Rightarrow> (case writeMeta ce dir i st1 w1 of ((_, st2), w2) \<Rightarrow> (st2, w2)))"

section \<open>Connections\<close>

definition isAuthFailure :: "(goerror \<Rightarrow> string) \<Rightarrow> goerror \<Rightarrow> bool" where
  "isAuthFailure pgErrorCode e \<longleftrightarrow> pgErrorCode e \<in> {''28P01'', ''28000''}"

definition TestPostgreSQLConnectivityWithPassword ::
  "(goerror \<Rightarrow> string) \<Rightarrow> int \<Rightarrow> string \<Rightarrow> world \<Rightarrow> goerror option \<times> world" where
  "TestPostgreSQLConnectivityWithPassword pgErrorCode port password w =
     (case pg_connect port password w of
        (Some e, w1) \<Rightarrow>
          if isAuthFailure pgErrorCode e then (Some (Errorf0 ''authentication failed with provided password''), w1)
          else (case sys_call ''dial'' w1 of
                  (Inl ne, w2) \<Rightarrow> (Some (Errorf0 (''PostgreSQL port '' @ Itoa port @ '' is not accessible'')), w2)
                | (Inr _, w2) \<Rightarrow> (Some (wrap ''failed to connect to PostgreSQL'' e), w2))
      | (None, w1) \<Rightarrow>
          (case sys_call ''ping'' w1 of
             (Inl e, w2) \<Rightarrow> (Some (wrap ''failed to ping PostgreSQL'' e), w2)
           | (Inr _, w2) \<Rightarrow> (None, w2)))"

definition ConnectToRunningInstance :: "'x Dependencies_scheme \<Rightarrow> string \<Rightarrow> world \<Rightarrow> RDBMSInstance res \<times> world" where
  "ConnectToRunningInstance deps name w =
     (case Instances_Get name w of
        (Inl e, w1) \<Rightarrow> (Inl (wrap ''failed to get instance'' e), w1)
      | (Inr i, w1) \<Rightarrow>
          if inst_Status i \<noteq> StatusRunning
          then (Inl (Invalidf (Errorf0 (''instance '' @ name @ '' is not running (status: '' @ inst_Status i @ '')''))), w1)
          else (case Instances_GetDecryptedPassword (dp_dec deps) name w1 of
                  (Inl e, w2) \<Rightarrow> (Inl (wrap ''failed to decrypt password'' e), w2)
                | (Inr password, w2) \<Rightarrow>
                    (case pg_connect (inst_Port i) password w2 of
                       (Some e, w3) \<Rightarrow> (Inl (wrap ''failed to connect to PostgreSQL'' e), w3)
                     | (None, w3) \<Rightarrow> (Inr i, w3))))"

definition ListDatabases :: "capture_env \<Rightarrow> 'x Dependencies_scheme \<Rightarrow> string \<Rightarrow> world \<Rightarrow> string list res \<times> world" where
  "ListDatabases ce deps name w =
     (if name = '''' then (Inl (Errorf0 ''instance name is required''), w)
      else case ConnectToRunningInstance deps name w of
        (Inl e, w1) \<Rightarrow> (Inl e, w1)
      | (Inr i, w1) \<Rightarrow>
          (case ce_databases ce i w1 of
             Inl e \<Rightarrow> (Inl (wrap ''failed to query databases'' e), w1)
           | Inr dbs \<Rightarrow> (Inr dbs, w1)))"

section \<open>Helper containers\<close>

definition pgPassEnv :: string where "pgPassEnv = ''PGPASSFILE=/oddk-cred/.pgpass''"

definition newPgPassMount :: "string \<Rightarrow> world \<Rightarrow> string res \<times> world" where
  "newPgPassMount password w =
     (case sys_call ''mkdir'' w of
        (Inl e, w1) \<Rightarrow> (Inl (wrap ''create pgpass dir'' e), w1)
      | (Inr _, w1) \<Rightarrow>
          (case sys_call ''write'' w1 of
             (Inl e, w2) \<Rightarrow> (Inl (wrap ''write pgpass file'' e), snd (sys_call ''remove'' w2))
           | (Inr _, w2) \<Rightarrow> (Inr (pgpass_line password), w2)))"

definition noHelperOutputHint :: string where
  "noHelperOutputHint = ''the helper produced no output at all. If the filesystem holding ''
     @ ''the backup directory is full, Docker cannot record container logs'' @ dash_text @ ''check free space there first''"

definition helperOutput_String :: "string \<Rightarrow> string \<Rightarrow> string" where
  "helperOutput_String stdout stderr =
     (if TrimSpace stdout = '''' \<and> TrimSpace stderr = '''' then ''''
      else ''stdout: '' @ stdout @ [CHR 0x0A] @ ''stderr: '' @ stderr)"

definition getContainerLogs :: "helper_run \<Rightarrow> world \<Rightarrow> string res \<times> world" where
  "getContainerLogs r w =
     (case sys_call ''docker'' w of
        (Inl e, w1) \<Rightarrow> (Inl e, w1)
      | (Inr _, w1) \<Rightarrow>
          (case sys_call ''read'' w1 of
             (Inl e, w2) \<Rightarrow> (Inl e, w2)
           | (Inr _, w2) \<Rightarrow> (Inr (helperOutput_String (run_stdout r) (run_stderr r)), w2)))"

text \<open>
  \<open>runHelperContainer\<close>: the error, what the helper left in its mount and how much it wrote to
  standard output. The helper is not an instance's container and is gone when the call
  returns, so the requests that create, start, await and remove it leave the modelled engine
  as it was. The wait ends with an error, with an exit status, or with neither.
\<close>

definition helper_wait ::
  "capture_env \<Rightarrow> helperContainerSpec \<Rightarrow> (string \<Rightarrow> string) \<Rightarrow> string \<Rightarrow> string \<Rightarrow> world
     \<Rightarrow> (goerror option \<times> staged \<times> int) \<times> world" where
  "helper_wait ce spec hint tool pgpass w =
     (case sys_call ''docker'' w of
        (Inl e, w1) \<Rightarrow> ((Some (wrap (''start '' @ tool @ '' container'') e), [], 0), w1)
      | (Inr _, w1) \<Rightarrow>
     (let r = ce_run ce spec (pgPassEnv # hs_Env spec) pgpass w1 in
      case sys_call ''docker'' w1 of
        (Inl e, w2) \<Rightarrow> ((Some (wrap (''wait for '' @ tool @ '' container'') e), run_files r, 0), w2)
      | (Inr _, w2) \<Rightarrow>
          if run_status r \<noteq> None \<and> run_status r \<noteq> Some 0 then
            (case getContainerLogs r w2 of (out, w3) \<Rightarrow>
               let logs = (case out of
                             Inl e \<Rightarrow> ''<logs unavailable: '' @ Error e @ ''>''
                           | Inr t \<Rightarrow> if t = '''' then noHelperOutputHint else t) in
               ((Some (Errorf0 (tool @ '' failed with status '' @ Itoa (the (run_status r)) @ '': '' @ logs @ hint logs)),
                 run_files r, 0), w3))
          else if hs_CaptureStdout spec then
            (case sys_call ''docker'' w2 of
               (Inl e, w3) \<Rightarrow> ((Some (wrap ''get container logs'' e), run_files r, 0), w3)
             | (Inr _, w3) \<Rightarrow>
                 (case sys_call ''read'' w3 of
                    (Inl e, w4) \<Rightarrow> ((Some (wrap ''read container output'' e), run_files r, 0), w4)
                  | (Inr _, w4) \<Rightarrow> ((None, run_files r, run_size r), w4)))
          else ((None, run_files r, 0), w2)))"

definition runHelperContainer ::
  "capture_env \<Rightarrow> helperContainerSpec \<Rightarrow> (string \<Rightarrow> string) \<Rightarrow> world \<Rightarrow> (goerror option \<times> staged \<times> int) \<times> world" where
  "runHelperContainer ce spec hint w =
     (let tool = (if hs_Tool spec = '''' then ''helper'' else hs_Tool spec) in
      case newPgPassMount (hs_Password spec) w of
        (Inl e, w1) \<Rightarrow> ((Some e, [], 0), w1)
      | (Inr pgpass, w1) \<Rightarrow>
          (case sys_call ''docker'' w1 of
             (Inl e, w2) \<Rightarrow> ((Some (wrap (''create '' @ tool @ '' container'') e), [], 0), snd (sys_call ''remove'' w2))
           | (Inr _, w2) \<Rightarrow>
               (case helper_wait ce spec hint tool pgpass w2 of
                  (out, w3) \<Rightarrow> (out, snd (sys_call ''remove'' (snd (sys_call ''docker'' w3)))))))"

definition helper_image :: "RDBMSInstance \<Rightarrow> string" where
  "helper_image i = (if inst_Image i = '''' then ''postgres:'' @ inst_Version i else inst_Image i)"

section \<open>Logical dump\<close>

definition GatewayIP :: string where "GatewayIP = ''10.88.0.1''"

definition backupGlobals ::
  "capture_env \<Rightarrow> RDBMSInstance \<Rightarrow> string \<Rightarrow> string \<Rightarrow> staged \<Rightarrow> world \<Rightarrow> (goerror option \<times> staged) \<times> world" where
  "backupGlobals ce i password outputPath st w =
     (case runHelperContainer ce
             \<lparr>hs_Image = helper_image i,
              hs_Cmd = [''pg_dumpall'', ''-g'', ''-h'', GatewayIP, ''-p'', Itoa (inst_Port i), ''-U'', ''postgres''],
              hs_Password = password, hs_Env = [], hs_JoinNetNSContainer = '''', hs_Tool = ''pg_dumpall'', hs_CaptureStdout = True\<rparr>
             (\<lambda>_. '''') w of
        ((Some e, _, _), w0) \<Rightarrow> ((Some e, st), w0)
      | ((None, _, n), w0) \<Rightarrow>
          (case sys_call ''create'' w0 of
             (Inl e, w1) \<Rightarrow> ((Some (wrap ''create globals file'' e), st), w1)
           | (Inr _, w1) \<Rightarrow>
               (case sys_call ''write'' w1 of (wr, w2) \<Rightarrow>
               (case sys_call ''close'' w2 of (cls, w3) \<Rightarrow>
                  (case (case wr of Inl e \<Rightarrow> Some e | Inr _ \<Rightarrow> (case cls of Inl e \<Rightarrow> Some e | Inr _ \<Rightarrow> None)) of
                     Some e \<Rightarrow> ((Some (wrap ''write globals file'' e), stage_put outputPath 0 st), w3)
                   | None \<Rightarrow> ((None, stage_put outputPath n st), w3))))))"

text \<open>The output directory was made by the caller just before.\<close>

definition backupDatabase ::
  "capture_env \<Rightarrow> RDBMSInstance \<Rightarrow> string \<Rightarrow> string \<Rightarrow> string \<Rightarrow> staged \<Rightarrow> world \<Rightarrow> (goerror option \<times> staged) \<times> world" where
  "backupDatabase ce i password dbName outputDir st w =
     (case runHelperContainer ce
             \<lparr>hs_Image = helper_image i,
              hs_Cmd = [''pg_dump'', ''-Fd'', ''-j'', ''4'', ''-Z0'', ''-h'', GatewayIP, ''-p'', Itoa (inst_Port i), ''-U'', ''postgres'',
                        ''--file'', ''/backup'', ''--dbname='' @ pgConninfoDBName dbName],
              hs_Password = password, hs_Env = [], hs_JoinNetNSContainer = '''', hs_Tool = ''pg_dump'', hs_CaptureStdout = False\<rparr>
             (\<lambda>_. '''') w of
        ((e, fs, _), w1) \<Rightarrow> ((e, stage_all outputDir fs st), w1))"

fun dump_databases ::
  "capture_env \<Rightarrow> RDBMSInstance \<Rightarrow> string \<Rightarrow> string \<Rightarrow> string list \<Rightarrow> staged \<Rightarrow> world \<Rightarrow> (goerror option \<times> staged) \<times> world" where
  "dump_databases ce i password dir [] st w = ((None, st), w)"
| "dump_databases ce i password dir (db # dbs) st w =
     (if db = ''template0'' \<or> db = ''template1'' then dump_databases ce i password dir dbs st w
      else case validatePortableDBName db of
        Some e \<Rightarrow> ((Some e, st), w)
      | None \<Rightarrow>
          (case sys_call ''mkdir'' w of
             (Inl e, w1) \<Rightarrow> ((Some (wrap (''create db dir for '' @ db) e), st), w1)
           | (Inr _, w1) \<Rightarrow>
               (case backupDatabase ce i password db (dir @ ''/databases/'' @ db) st w1 of
                  ((Some e, st1), w2) \<Rightarrow> ((Some (wrap (''backup database '' @ db) e), st1), w2)
                | ((None, st1), w2) \<Rightarrow> dump_databases ce i password dir dbs st1 w2)))"

definition dumpAllDatabases ::
  "capture_env \<Rightarrow> 'x Dependencies_scheme \<Rightarrow> RDBMSInstance \<Rightarrow> string \<Rightarrow> string \<Rightarrow> staged \<Rightarrow> world
     \<Rightarrow> (goerror option \<times> staged) \<times> world" where
  "dumpAllDatabases ce deps i password dir st w =
     (case ListDatabases ce deps (inst_Name i) w of
        (Inl e, w1) \<Rightarrow> ((Some (wrap ''list databases'' e), st), w1)
      | (Inr dbs, w1) \<Rightarrow> dump_databases ce i password dir dbs st w1)"

definition captureDatabaseMetadata ::
  "capture_env \<Rightarrow> 'x Dependencies_scheme \<Rightarrow> string \<Rightarrow> int \<Rightarrow> world \<Rightarrow> DatabaseMeta list res \<times> world" where
  "captureDatabaseMetadata ce deps name major w =
     (case ConnectToRunningInstance deps name w of
        (Inl e, w1) \<Rightarrow> (Inl e, w1)
      | (Inr i, w1) \<Rightarrow>
          (case ce_metadata ce major i w1 of
             Inl e \<Rightarrow> (Inl (wrap ''query pg_database'' e), w1) | Inr ms \<Rightarrow> (Inr ms, w1)))"

definition stageInstanceDump ::
  "capture_env \<Rightarrow> 'x Dependencies_scheme \<Rightarrow> RDBMSInstance \<Rightarrow> string \<Rightarrow> string \<Rightarrow> staged \<Rightarrow> world
     \<Rightarrow> (goerror option \<times> staged) \<times> world" where
  "stageInstanceDump ce deps i password dir st w =
     (case backupGlobals ce i password (dir @ ''/globals.sql'') st w of
        ((Some e, st1), w1) \<Rightarrow> ((Some (wrap ''backup globals'' e), st1), w1)
      | ((None, st1), w1) \<Rightarrow>
     (case dumpAllDatabases ce deps i password dir st1 w1 of
        ((Some e, st2), w2) \<Rightarrow> ((Some e, st2), w2)
      | ((None, st2), w2) \<Rightarrow>
     (case parseMajorVersion (inst_Version i) of
        None \<Rightarrow> ((Some (Errorf0 (''cannot parse instance version '' @ quoted (inst_Version i))), st2), w2)
      | Some major \<Rightarrow>
     (case captureDatabaseMetadata ce deps (inst_Name i) major w2 of
        (Inl e, w3) \<Rightarrow> ((Some (wrap ''capture database metadata'' e), st2), w3)
      | (Inr metas, w3) \<Rightarrow>
     (case sys_call ''write'' w3 of
        (Inl e, w4) \<Rightarrow> ((Some (wrap ''write database metadata'' (wrap (''write '' @ databaseMetadataFile) e)), st2), w4)
      | (Inr _, w4) \<Rightarrow>
     (case writeMeta ce dir i (stage_put (dir @ ''/'' @ databaseMetadataFile) (ce_metas_size ce metas) st2) w4 of
        ((Some e, st3), w5) \<Rightarrow> ((Some (wrap ''write instance metadata'' e), st3), w5)
      | ((None, st3), w5) \<Rightarrow> ((None, st3), w5)))))))"

section \<open>Physical capture\<close>

definition physicalBasePath :: "string \<Rightarrow> staged \<Rightarrow> string option" where
  "physicalBasePath bbDir st =
     (if map_of st (bbDir @ ''/'' @ physicalBaseTarZst) \<noteq> None then Some (bbDir @ ''/'' @ physicalBaseTarZst)
      else if map_of st (bbDir @ ''/'' @ physicalBaseTar) \<noteq> None then Some (bbDir @ ''/'' @ physicalBaseTar)
      else None)"

text \<open>The names in the directory, as \<open>ReadDir\<close> lists them.\<close>

definition entries_of :: "string \<Rightarrow> staged \<Rightarrow> string list" where
  "entries_of dir st =
     remdups (map (\<lambda>f. hd (SplitChar (CHR ''/'') f)) (List.map_filter (\<lambda>(f, _). CutPrefix f (dir @ ''/'')) st))"

definition refuseUnexpectedBasebackupFiles :: "string \<Rightarrow> staged \<Rightarrow> goerror option" where
  "refuseUnexpectedBasebackupFiles bbDir st =
     (let unexpected = filter (\<lambda>f. f \<notin> {physicalBaseTarZst, physicalBaseTar, physicalWalTar, ''backup_manifest''}) (entries_of bbDir st) in
      if unexpected = [] then None
      else Some (Invalidf (Errorf0 (''pg_basebackup produced unexpected files ('' @ JoinWith '', '' unexpected @ '')'' @ dash_text
             @ ''the instance appears to use tablespaces, which physical snapshots do not support; use --logical''))))"

definition basebackup_cmd :: "RDBMSInstance \<Rightarrow> bool \<Rightarrow> string list" where
  "basebackup_cmd i spreadCheckpoint =
     [''pg_basebackup'', ''-h'', ''127.0.0.1'', ''-p'', ''5432'', ''-U'', ''postgres'', ''-D'', ''/oddk-basebackup'', ''-Ft'', ''-X'', ''stream'', ''-w'']
     @ (case parseMajorVersion (inst_Version i) of Some major \<Rightarrow> if major \<ge> 15 then [''--compress=client-zstd''] else [] | None \<Rightarrow> [])
     @ (if spreadCheckpoint then [''--checkpoint=spread''] else [''--checkpoint=fast''])"

definition basebackupFailureHint :: "string \<Rightarrow> string" where
  "basebackupFailureHint logs =
     (let lowered = ToLower logs in
      if list_ex (Contains lowered) [''replication'', ''wal_level'', ''wal sender'', ''max_wal_senders'', ''pg_hba'']
      then [CHR 0x0A] @ ''Hint: the instance refuses replication connections from 127.0.0.1 (hardened pg_hba.conf, wal_level below ''
        @ [quote_char] @ ''replica'' @ [quote_char] @ '', or no free wal sender slots). Fix the instance'' @ [quote_char]
        @ ''s configuration, or take a portable snapshot instead: oddk snapshot make --logical''
      else '''')"

definition stagePhysicalBasebackup ::
  "capture_env \<Rightarrow> RDBMSInstance \<Rightarrow> string \<Rightarrow> string \<Rightarrow> bool \<Rightarrow> staged \<Rightarrow> world \<Rightarrow> (goerror option \<times> staged) \<times> world" where
  "stagePhysicalBasebackup ce i password dir spreadCheckpoint st w =
     (let bbDir = dir @ ''/'' @ snapshotBasebackupDir in
      if inst_ContainerID i = ''''
      then ((Some (Errorf0 (''instance '' @ inst_Name i @ '' is running but has no recorded container'')), st), w)
      else
     (case TestPostgreSQLConnectivityWithPassword (ce_pg_code ce) (inst_Port i) password w of
        (Some e, w1) \<Rightarrow>
          ((Some (Invalidf (Errorf0 (''the stored postgres password for instance '' @ inst_Name i
              @ '' no longer authenticates (changed outside ODDK?): '' @ Error e
              @ ''. A physical snapshot would embed a credential that cannot be used after restore. ''
              @ ''Fix it with 'oddk instance set-postgres-password '' @ inst_Name i @ '' and retry''))), st), w1)
      | (None, w1) \<Rightarrow>
     (case sys_call ''mkdir'' w1 of
        (Inl e, w2) \<Rightarrow> ((Some (wrap ''create basebackup staging dir'' e), st), w2)
      | (Inr _, w2) \<Rightarrow>
     (case runHelperContainer ce
             \<lparr>hs_Image = helper_image i, hs_Cmd = basebackup_cmd i spreadCheckpoint, hs_Password = password, hs_Env = [],
              hs_JoinNetNSContainer = inst_ContainerID i, hs_Tool = ''pg_basebackup'', hs_CaptureStdout = False\<rparr>
             basebackupFailureHint w2 of ((herr, fs, _), w3) \<Rightarrow>
        let st1 = stage_all bbDir fs st in
        (case herr of
           Some e \<Rightarrow> ((Some e, st1), w3)
         | None \<Rightarrow>
             if physicalBasePath bbDir st1 = None
             then ((Some (Errorf0 (''pg_basebackup reported success but produced no '' @ physicalBaseTarZst @ ''/'' @ physicalBaseTar
                     @ '' in '' @ bbDir)), st1), w3)
             else (case sys_call ''readdir'' w3 of
                     (Inl e, w4) \<Rightarrow> ((Some (wrap ''inspect basebackup staging dir'' e), st1), w4)
                   | (Inr _, w4) \<Rightarrow> ((refuseUnexpectedBasebackupFiles bbDir st1, st1), w4)))))))"

definition ContainerPGData :: "(container \<Rightarrow> string list) \<Rightarrow> string \<Rightarrow> string \<Rightarrow> world \<Rightarrow> string res \<times> world" where
  "ContainerPGData image_env containerID version w =
     (case container_inspect containerID w of
        (Inl e, w1) \<Rightarrow> (Inl (wrap ''inspect container'' e), w1)
      | (Inr c, w1) \<Rightarrow>
          (Inr (case List.map_filter (\<lambda>e. case CutPrefix e ''PGDATA='' of Some v \<Rightarrow> if v = '''' then None else Some v | None \<Rightarrow> None)
                       (sp_Env (ct_Spec c) @ image_env c) of
                  v # _ \<Rightarrow> v
                | [] \<Rightarrow>
                    (case Atoi (hd (SplitChar (CHR ''.'') version)) of
                       Some major \<Rightarrow> if major \<ge> 18 then pgDataMountTarget version @ ''/'' @ Itoa major @ ''/docker'' else pgDataMountTarget version
                     | None \<Rightarrow> pgDataMountTarget version)), w1))"

definition stagePhysicalCold ::
  "capture_env \<Rightarrow> RDBMSInstance \<Rightarrow> string \<Rightarrow> staged \<Rightarrow> world \<Rightarrow> (goerror option \<times> staged) \<times> world" where
  "stagePhysicalCold ce i dir st w =
     (let outPath = dir @ ''/'' @ snapshotBasebackupDir @ ''/'' @ physicalBaseTarZst in
      case Docker_GetContainerStatus (inst_ContainerID i) w of
        (Inl e, w1) \<Rightarrow> ((Some (wrap ''determine container state before cold copy'' e), st), w1)
      | (Inr actual, w1) \<Rightarrow>
          if actual \<noteq> ''stopped''
          then ((Some (Errorf0 (''container of instance '' @ inst_Name i @ '' is '' @ quoted actual
                  @ '', not stopped; a cold copy of a non-stopped cluster would be torn'')), st), w1)
          else
     (case ContainerPGData (ce_image_env ce) (inst_ContainerID i) (inst_Version i) w1 of
        (Inl e, w2) \<Rightarrow> ((Some e, st), w2)
      | (Inr pgdata, w2) \<Rightarrow>
     (case sys_call ''mkdir'' w2 of
        (Inl e, w3) \<Rightarrow> ((Some (wrap ''create basebackup staging dir'' e), st), w3)
      | (Inr _, w3) \<Rightarrow>
     (case ce_copy_out ce (inst_ContainerID i) pgdata w3 of
        Inl e \<Rightarrow> ((Some (wrap (''read data directory '' @ pgdata @ '' from container'') e), st), w3)
      | Inr reader \<Rightarrow>
     (case sys_call ''create'' w3 of
        (Inl e, w4) \<Rightarrow> ((Some (wrap (''create '' @ outPath) e), st), w4)
      | (Inr _, w4) \<Rightarrow>
     (case sys_call ''write'' w4 of (wr, w5) \<Rightarrow>
     (case sys_call ''close'' w5 of (cls, w6) \<Rightarrow>
        (case (case writeColdCopy reader of
                 Inl e \<Rightarrow> Inl e
               | Inr ms \<Rightarrow> (case wr of Inl e \<Rightarrow> Inl e | Inr _ \<Rightarrow> (case cls of Inl e \<Rightarrow> Inl e | Inr _ \<Rightarrow> Inr ms))) of
           Inl e \<Rightarrow> ((Some (wrap (''cold copy of '' @ pgdata) e), st), snd (sys_call ''remove'' w6))
         | Inr ms \<Rightarrow> ((None, stage_put outPath (ce_tar_size ce ms) st), w6)))))))))"

section \<open>What to capture\<close>

datatype captureAction = captureConfigOnly | captureBasebackup | captureCold | captureLogicalDump

definition decideCapture ::
  "string \<Rightarrow> string \<Rightarrow> string \<Rightarrow> string \<Rightarrow> goerror option \<Rightarrow> captureAction \<times> string \<times> bool" where
  "decideCapture format storedStatus containerID actualState stateErr =
     (if containerID = ''''
      then (captureConfigOnly, ''instance is recorded '' @ quoted storedStatus @ '' and has no container; databases not captured'', False)
      else if stateErr \<noteq> None
      then (captureConfigOnly, ''container state could not be determined ('' @ Error (the stateErr) @ ''); databases not captured'', True)
      else if actualState = ''not found''
      then (captureConfigOnly, ''instance is recorded '' @ quoted storedStatus @ '' and its container no longer exists; databases not captured'', True)
      else if format = SnapshotFormatPhysical then
        if actualState = ''running'' then (captureBasebackup, '''', False)
        else if actualState = ''stopped'' then (captureCold, '''', False)
        else (captureConfigOnly, ''container is '' @ quoted actualState
                @ '', which is neither serving nor cleanly stopped; databases not captured'', True)
      else if actualState \<noteq> ''running''
      then (captureConfigOnly, ''container is '' @ quoted actualState @ '' and logical dumps need a live server; databases not captured'', False)
      else (captureLogicalDump, '''', False))"

text \<open>One turn of \<open>stageAllInstances\<close>: the entry, the failure if one is to be reported, and the staging directory.\<close>

definition instance_dir :: "RDBMSInstance \<Rightarrow> string" where
  "instance_dir i = snapshotInstancesDir @ ''/'' @ inst_Name i"

definition start_entry :: "string \<Rightarrow> RDBMSInstance \<Rightarrow> SnapshotInstanceEntry" where
  "start_entry format i =
     \<lparr>en_Name = inst_Name i, en_Version = inst_Version i, en_Image = inst_Image i, en_HasData = False,
      en_Format = format, en_CaptureMode = '''', en_SkipReason = ''''\<rparr>"

definition degrade ::
  "capture_env \<Rightarrow> RDBMSInstance \<Rightarrow> SnapshotInstanceEntry \<Rightarrow> string \<Rightarrow> goerror \<Rightarrow> staged \<Rightarrow> world
     \<Rightarrow> ((SnapshotInstanceEntry \<times> SnapshotCaptureFailure option) res \<times> staged) \<times> world" where
  "degrade ce i entry what cause st w =
     (case resetToConfigOnly ce (instance_dir i) i st w of (st1, w1) \<Rightarrow>
        ((Inr (entry\<lparr>en_SkipReason := what @ '' FAILED ('' @ Error cause @ ''); databases not captured'' @ dash_text
                 @ ''this instance would restore EMPTY''\<rparr>,
               Some \<lparr>cf_Instance = inst_Name i, cf_Stage = what, cf_Error = Error cause\<rparr>), st1), w1))"

definition capture_data ::
  "capture_env \<Rightarrow> 'x Dependencies_scheme \<Rightarrow> bool \<Rightarrow> RDBMSInstance \<Rightarrow> SnapshotInstanceEntry \<Rightarrow> captureAction \<Rightarrow> staged \<Rightarrow> world
     \<Rightarrow> ((SnapshotInstanceEntry \<times> SnapshotCaptureFailure option) res \<times> staged) \<times> world" where
  "capture_data ce deps spread i entry action st w =
     (let dir = instance_dir i in
      case action of
        captureBasebackup \<Rightarrow>
          (case dp_dec deps (inst_Password i) of
             Inl e \<Rightarrow> degrade ce i entry ''decrypt password'' e st w
           | Inr password \<Rightarrow>
               (case stagePhysicalBasebackup ce i password dir spread st w of
                  ((Some e, st1), w1) \<Rightarrow> degrade ce i entry ''base backup'' e st1 w1
                | ((None, st1), w1) \<Rightarrow>
                    ((Inr (entry\<lparr>en_HasData := True, en_CaptureMode := captureModeBasebackup\<rparr>, None), st1), w1)))
      | captureCold \<Rightarrow>
          (case stagePhysicalCold ce i dir st w of
             ((Some e, st1), w1) \<Rightarrow> degrade ce i entry ''cold copy'' e st1 w1
           | ((None, st1), w1) \<Rightarrow>
               ((Inr (entry\<lparr>en_HasData := True, en_CaptureMode := captureModeCold\<rparr>, None), st1), w1))
      | captureLogicalDump \<Rightarrow>
          (case dp_dec deps (inst_Password i) of
             Inl e \<Rightarrow> degrade ce i entry ''decrypt password'' e st w
           | Inr password \<Rightarrow>
               (case stageInstanceDump ce deps i password dir st w of
                  ((Some e, st1), w1) \<Rightarrow> degrade ce i entry ''dump'' e st1 w1
                | ((None, st1), w1) \<Rightarrow> ((Inr (entry\<lparr>en_HasData := True\<rparr>, None), st1), w1)))
      | captureConfigOnly \<Rightarrow> ((Inr (entry, None), st), w))"

definition stage_instance ::
  "capture_env \<Rightarrow> 'x Dependencies_scheme \<Rightarrow> string \<Rightarrow> bool \<Rightarrow> RDBMSInstance \<Rightarrow> staged \<Rightarrow> world
     \<Rightarrow> ((SnapshotInstanceEntry \<times> SnapshotCaptureFailure option) res \<times> staged) \<times> world" where
  "stage_instance ce deps format spread i st w =
     (let entry = start_entry format i; dir = instance_dir i in
      case sys_call ''mkdir'' w of
        (Inl e, w1) \<Rightarrow> ((Inl (wrap (''create staging dir for '' @ inst_Name i) e), st), w1)
      | (Inr _, w1) \<Rightarrow>
     (case (if inst_ContainerID i \<noteq> '''' then Docker_GetContainerStatus (inst_ContainerID i) w1 else (Inr '''', w1)) of
        (state, w2) \<Rightarrow>
     (case decideCapture format (inst_Status i) (inst_ContainerID i) (case state of Inr s \<Rightarrow> s | Inl _ \<Rightarrow> '''')
             (case state of Inl e \<Rightarrow> Some e | Inr _ \<Rightarrow> None) of (action, reason, anomalous) \<Rightarrow>
     (case (if action \<noteq> captureLogicalDump then writeMeta ce dir i st w2 else ((None, st), w2)) of
        ((Some e, st1), w3) \<Rightarrow> ((Inl (wrap (''stage '' @ inst_Name i) e), st1), w3)
      | ((None, st1), w3) \<Rightarrow>
          if action = captureConfigOnly
          then ((Inr (entry\<lparr>en_SkipReason := reason\<rparr>,
                      if anomalous then Some \<lparr>cf_Instance = inst_Name i, cf_Stage = ''capture'', cf_Error = reason\<rparr> else None), st1), w3)
          else capture_data ce deps spread i entry action st1 w3))))"

fun stage_list ::
  "capture_env \<Rightarrow> 'x Dependencies_scheme \<Rightarrow> string \<Rightarrow> bool \<Rightarrow> RDBMSInstance list \<Rightarrow> staged \<Rightarrow> world
     \<Rightarrow> ((SnapshotInstanceEntry list \<times> SnapshotCaptureFailure list) res \<times> staged) \<times> world" where
  "stage_list ce deps format spread [] st w = ((Inr ([], []), st), w)"
| "stage_list ce deps format spread (i # is) st w =
     (case stage_instance ce deps format spread i st w of
        ((Inl e, st1), w1) \<Rightarrow> ((Inl e, st1), w1)
      | ((Inr (entry, failure), st1), w1) \<Rightarrow>
          (case stage_list ce deps format spread is st1 w1 of
             ((Inl e, st2), w2) \<Rightarrow> ((Inl e, st2), w2)
           | ((Inr (entries, failures), st2), w2) \<Rightarrow>
               ((Inr (entry # entries, (case failure of None \<Rightarrow> [] | Some f \<Rightarrow> [f]) @ failures), st2), w2)))"

definition stageAllInstances ::
  "capture_env \<Rightarrow> 'x Dependencies_scheme \<Rightarrow> string \<Rightarrow> bool \<Rightarrow> staged \<Rightarrow> world
     \<Rightarrow> ((SnapshotInstanceEntry list \<times> SnapshotCaptureFailure list) res \<times> staged) \<times> world" where
  "stageAllInstances ce deps format spread st w =
     (case Instances_List w of
        (Inl e, w1) \<Rightarrow> ((Inl (wrap ''list instances'' e), st), w1)
      | (Inr l, w1) \<Rightarrow> stage_list ce deps format spread l st w1)"


section \<open>Publishing an archive\<close>

record Written =
  wr_Size :: int
  wr_SHA256 :: string

definition archive_tmp :: "capture_env \<Rightarrow> string \<Rightarrow> string" where
  "archive_tmp ce archivePath = Join2 (Dir archivePath) (''.tmp-'' @ Base archivePath @ ''-'' @ ce_tmp_suffix ce)"

definition discard_tmp :: "string \<Rightarrow> world \<Rightarrow> world" where
  "discard_tmp tmpPath w = snd (os_Remove tmpPath w)"

text \<open>
  The library's writer drops the errors of its last writes, so its success says nothing about
  the bytes: what reached the file is \<open>ce_archive_size\<close>, and what the check reads back is
  \<open>ce_readback\<close>. \<open>os.CreateTemp\<close> picks a name that is not taken.
\<close>

definition write_archive_tmp :: "capture_env \<Rightarrow> string \<Rightarrow> staged \<Rightarrow> world \<Rightarrow> goerror option \<times> world" where
  "write_archive_tmp ce tmpPath fs w =
     (let cleanup = (\<lambda>w. discard_tmp tmpPath (snd (sys_call ''close'' w))) in
      case os_OpenTrunc tmpPath w of
        (Some e, w1) \<Rightarrow> (Some (wrap ''failed to create archive file'' e), w1)
      | (None, w1) \<Rightarrow>
     (case sys_call ''chmod'' w1 of
        (Inl e, w2) \<Rightarrow> (Some (wrap ''chmod archive'' e), cleanup w2)
      | (Inr _, w2) \<Rightarrow>
     (case fs_write ''write'' (set_file tmpPath (Some (ce_archive_size ce fs))) w2 of
        (Some e, w3) \<Rightarrow> (Some (wrap ''failed to create archive'' e), cleanup w3)
      | (None, w3) \<Rightarrow>
     (case sys_call ''fsync'' w3 of
        (Inl e, w4) \<Rightarrow> (Some (wrap ''fsync archive'' e), cleanup w4)
      | (Inr _, w4) \<Rightarrow>
     (case sys_call ''close'' w4 of
        (Inl e, w5) \<Rightarrow> (Some (wrap ''close archive'' e), discard_tmp tmpPath w5)
      | (Inr _, w5) \<Rightarrow> (None, w5))))))"

definition writeVerifiedArchive ::
  "capture_env \<Rightarrow> string \<Rightarrow> staged \<Rightarrow> (Member list \<Rightarrow> goerror option) \<Rightarrow> world \<Rightarrow> Written res \<times> world" where
  "writeVerifiedArchive ce archivePath fs verify w =
     (let tmpPath = archive_tmp ce archivePath; discarded = ''archive failed verification and was discarded'' in
      case write_archive_tmp ce tmpPath fs w of
        (Some e, w5) \<Rightarrow> (Inl e, w5)
      | (None, w5) \<Rightarrow>
     (case ce_readback ce fs tmpPath w5 of
        Inl e \<Rightarrow> (Inl (wrap discarded e), discard_tmp tmpPath w5)
      | Inr (members, sha) \<Rightarrow>
     (case verify members of
        Some e \<Rightarrow> (Inl (wrap discarded e), discard_tmp tmpPath w5)
      | None \<Rightarrow>
     (case os_Stat tmpPath w5 of
        (StatNotExist, w6) \<Rightarrow> (Inl (wrap ''failed to get archive size'' (Sentinel ErrNotExist)), discard_tmp tmpPath w6)
      | (StatError, w6) \<Rightarrow> (Inl (wrap ''failed to get archive size'' (DriverError ''stat'')), discard_tmp tmpPath w6)
      | (StatOK n, w6) \<Rightarrow>
     (case os_Rename tmpPath archivePath w6 of
        (Some e, w7) \<Rightarrow> (Inl (wrap ''failed to publish archive'' e), discard_tmp tmpPath w7)
      | (None, w7) \<Rightarrow> (Inr \<lparr>wr_Size = n, wr_SHA256 = sha\<rparr>, syncDir w7))))))"

section \<open>What an archive must hold\<close>

definition member_map :: "Member list \<Rightarrow> string \<Rightarrow> Member option" where
  "member_map members = map_of (rev (map (\<lambda>m. (mb_Name m, m)) members))"

definition member_nonEmpty :: "Member list \<Rightarrow> string \<Rightarrow> goerror option" where
  "member_nonEmpty members name =
     (case member_map members name of
        None \<Rightarrow> Some (Errorf0 (''archive is missing '' @ name))
      | Some m \<Rightarrow> if mb_Size m = 0 then Some (Errorf0 (''archive member '' @ name @ '' is empty'')) else None)"

definition first_file :: "Member list \<Rightarrow> string" where
  "first_file members = (case find (\<lambda>m. mb_Name m \<noteq> '''' \<and> \<not> mb_IsDir m) members of None \<Rightarrow> '''' | Some m \<Rightarrow> mb_Name m)"

definition has_database_payload :: "Member list \<Rightarrow> string \<Rightarrow> bool" where
  "has_database_payload members base =
     list_ex (\<lambda>n. case member_map members n of
                    None \<Rightarrow> False
                  | Some m \<Rightarrow> \<not> mb_IsDir m \<and> mb_Size m > 0 \<and> HasPrefix n (base @ ''/databases/'')) (map mb_Name members)"

definition assert_entry :: "Member list \<Rightarrow> SnapshotInstanceEntry \<Rightarrow> goerror option" where
  "assert_entry members e =
     (let base = snapshotInstancesDir @ ''/'' @ en_Name e; nonEmpty = member_nonEmpty members in
      case nonEmpty (base @ ''/'' @ instanceMetadataFile) of
        Some err \<Rightarrow> Some (wrap (''instance '' @ en_Name e) err)
      | None \<Rightarrow>
          if \<not> en_HasData e then None
          else if entryFormat e = SnapshotFormatPhysical then
            if nonEmpty (base @ ''/'' @ snapshotBasebackupDir @ ''/'' @ physicalBaseTarZst) \<noteq> None
               \<and> nonEmpty (base @ ''/'' @ snapshotBasebackupDir @ ''/'' @ physicalBaseTar) \<noteq> None
            then Some (Errorf0 (''instance '' @ en_Name e @ '' claims physical data: archive has neither '' @ physicalBaseTarZst
                   @ '' nor '' @ physicalBaseTar))
            else None
          else (case nonEmpty (base @ ''/globals.sql'') of
                  Some err \<Rightarrow> Some (wrap (''instance '' @ en_Name e @ '' claims logical data'') err)
                | None \<Rightarrow>
                    if has_database_payload members base then None
                    else Some (Errorf0 (''instance '' @ en_Name e @ '' claims logical data but no non-empty file exists under ''
                           @ base @ ''/databases/''))))"

fun assert_entries :: "Member list \<Rightarrow> SnapshotInstanceEntry list \<Rightarrow> goerror option" where
  "assert_entries members [] = None"
| "assert_entries members (e # es) =
     (case assert_entry members e of Some err \<Rightarrow> Some err | None \<Rightarrow> assert_entries members es)"

definition assertSnapshotMembers :: "SnapshotInstanceEntry list \<Rightarrow> Member list \<Rightarrow> goerror option" where
  "assertSnapshotMembers entries members =
     (if members = [] then Some (Errorf0 ''archive contains no members'')
      else if first_file members \<noteq> snapshotManifestFile
      then Some (Errorf0 (''first archive member is '' @ quoted (first_file members) @ '', expected '' @ quoted snapshotManifestFile))
      else case member_nonEmpty members snapshotStoreFile of
        Some e \<Rightarrow> Some e
      | None \<Rightarrow> assert_entries members entries)"

definition assertBackupMembers :: "Member list \<Rightarrow> goerror option" where
  "assertBackupMembers members =
     (if members = [] then Some (Errorf0 ''archive contains no members'')
      else case member_nonEmpty members ''globals.sql'' of
        Some e \<Rightarrow> Some e
      | None \<Rightarrow>
     (case member_nonEmpty members instanceMetadataFile of
        Some e \<Rightarrow> Some e
      | None \<Rightarrow>
     (case member_map members databaseMetadataFile of
        Some m \<Rightarrow> if mb_Size m = 0 then Some (Errorf0 (''archive member '' @ databaseMetadataFile @ '' is empty'')) else None
      | None \<Rightarrow> None)))"


section \<open>The snapshot\<close>

record MakeSnapshotParams =
  mp_BackupDir :: string
  mp_Comment :: string
  mp_Format :: string
  mp_SpreadCheckpoint :: bool

definition SnapshotFilePrefix :: string where "SnapshotFilePrefix = ''snapshot-''"

definition VacuumInto :: "capture_env \<Rightarrow> string \<Rightarrow> staged \<Rightarrow> world \<Rightarrow> (goerror option \<times> staged) \<times> world" where
  "VacuumInto ce path st w =
     (case sys_call ''stat'' w of (s, w1) \<Rightarrow>
        if \<not> isl s \<and> map_of st path \<noteq> None
        then ((Some (Errorf0 (''destination already exists: '' @ path)), st), w1)
        else (case sql_query (ce_store_size ce) w1 of
                (Inl e, w2) \<Rightarrow> ((Some (wrap (''vacuum into '' @ path) e), st), w2)
              | (Inr n, w2) \<Rightarrow> ((None, stage_put path n st), w2)))"

definition AppliedMigrations :: "capture_env \<Rightarrow> world \<Rightarrow> string list res \<times> world" where
  "AppliedMigrations ce w =
     (case sql_query (\<lambda>_. ce_migrations ce) w of
        (Inl e, w1) \<Rightarrow> (Inl (wrap ''read applied migrations'' e), w1)
      | (Inr ms, w1) \<Rightarrow> (Inr ms, w1))"

definition writeSnapshotManifest ::
  "capture_env \<Rightarrow> SnapshotManifest \<Rightarrow> staged \<Rightarrow> world \<Rightarrow> (goerror option \<times> staged) \<times> world" where
  "writeSnapshotManifest ce m st w =
     (case sys_call ''write'' w of
        (Inl e, w1) \<Rightarrow> ((Some (wrap (''write '' @ snapshotManifestFile) e), st), w1)
      | (Inr _, w1) \<Rightarrow> ((None, stage_put snapshotManifestFile (ce_manifest_size ce m) st), w1))"

text \<open>\<open>CreateTarZstdOrdered\<close>: the files of each entry in turn; the names in the archive are the staging directory's.\<close>

fun files_from_disk :: "string list \<Rightarrow> staged \<Rightarrow> world \<Rightarrow> staged res \<times> world" where
  "files_from_disk [] st w = (Inr [], w)"
| "files_from_disk (p # ps) st w =
     (case sys_call ''readdir'' w of
        (Inl e, w1) \<Rightarrow> (Inl (wrap (''read '' @ p @ '' from disk'') e), w1)
      | (Inr _, w1) \<Rightarrow>
          (case files_from_disk ps st w1 of
             (Inl e, w2) \<Rightarrow> (Inl e, w2)
           | (Inr fs, w2) \<Rightarrow> (Inr (filter (\<lambda>(f, _). under p f) st @ fs), w2)))"

definition CreateTarZstdOrdered ::
  "capture_env \<Rightarrow> string list \<Rightarrow> string \<Rightarrow> (Member list \<Rightarrow> goerror option) \<Rightarrow> staged \<Rightarrow> world \<Rightarrow> Written res \<times> world" where
  "CreateTarZstdOrdered ce entries archivePath verify st w =
     (if entries = [] then (Inl (Errorf0 ''no entries to archive''), w)
      else case files_from_disk entries st w of
        (Inl e, w1) \<Rightarrow> (Inl e, w1)
      | (Inr fs, w1) \<Rightarrow> writeVerifiedArchive ce archivePath fs verify w1)"

definition CreateTarZstd ::
  "capture_env \<Rightarrow> string \<Rightarrow> string \<Rightarrow> (Member list \<Rightarrow> goerror option) \<Rightarrow> staged \<Rightarrow> world \<Rightarrow> Written res \<times> world" where
  "CreateTarZstd ce sourceDir archivePath verify st w =
     (case sys_call ''readdir'' w of
        (Inl e, w1) \<Rightarrow> (Inl (wrap ''failed to read source directory'' e), w1)
      | (Inr _, w1) \<Rightarrow>
     (case sys_call ''readdir'' w1 of
        (Inl e, w2) \<Rightarrow> (Inl (wrap ''failed to read files from disk'' e), w2)
      | (Inr _, w2) \<Rightarrow> 
          writeVerifiedArchive ce archivePath
            (List.map_filter (\<lambda>(f, n). map_option (\<lambda>r. (r, n)) (CutPrefix f (sourceDir @ ''/''))) st) verify w2))"

text \<open>The catalogue row, before \<open>RecordSnapshot\<close> flattens its companions into it.\<close>

definition snapshot_row :: "gotime \<Rightarrow> string \<Rightarrow> string \<Rightarrow> int \<Rightarrow> SnapshotInstanceEntry list \<Rightarrow> Record" where
  "snapshot_row now format archivePath n entries =
     (let withData = int (length (filter en_HasData entries)) in
      \<lparr>snap_ID = 0, snap_Filename = Base archivePath, snap_CreatedAt = now, snap_Size = n, snap_Status = ''completed'',
       snap_InstancesWithData = withData, snap_ConfigOnly = int (length entries) - withData, snap_Format = format,
       snap_InstancesJSON = JNull, snap_LocalLocation = None, snap_RemoteLocation = None, snap_Comment = None, snap_SHA256 = None\<rparr>)"

definition snapshot_host :: "capture_env \<Rightarrow> string" where
  "snapshot_host ce = sanitizeHostForFilename (case ce_hostname ce of None \<Rightarrow> ''unknown'' | Some h \<Rightarrow> if h = '''' then ''unknown'' else h)"

definition snapshot_path :: "capture_env \<Rightarrow> MakeSnapshotParams \<Rightarrow> string" where
  "snapshot_path ce ps =
     Join2 (mp_BackupDir ps) (SnapshotFilePrefix @ snapshot_host ce @ ''-'' @ ce_timestamp ce @ ''.tar.zst'')"

text \<open>The control plane's own copy and the manifest, into the staging directory.\<close>

definition stage_control ::
  "capture_env \<Rightarrow> gotime \<Rightarrow> string \<Rightarrow> SnapshotInstanceEntry list \<Rightarrow> staged \<Rightarrow> world \<Rightarrow> (goerror option \<times> staged) \<times> world" where
  "stage_control ce now format entries st w =
     (case VacuumInto ce snapshotStoreFile st w of
        ((Some e, st1), w1) \<Rightarrow> ((Some (wrap ''copy oddk.db'' e), st1), w1)
      | ((None, st1), w1) \<Rightarrow>
     (case AppliedMigrations ce w1 of
        (Inl e, w2) \<Rightarrow> ((Some e, st1), w2)
      | (Inr migrations, w2) \<Rightarrow>
          writeSnapshotManifest ce
            \<lparr>mf_FormatVersion = (if format = SnapshotFormatPhysical then 2 else 1), mf_OddkVersion = ce_version ce,
             mf_CreatedAt = now, mf_SourceHost = snapshot_host ce, mf_SourceArch = ce_arch ce, mf_Migrations = migrations,
             mf_Instances = entries\<rparr> st1 w2))"

text \<open>A row that cannot be written is only logged: the archive is there and usable.\<close>

definition catalogue_snapshot ::
  "gotime \<Rightarrow> string \<Rightarrow> string \<Rightarrow> string \<Rightarrow> SnapshotInstanceEntry list \<Rightarrow> SnapshotCaptureFailure list \<Rightarrow> Written \<Rightarrow> world
     \<Rightarrow> SnapshotResult \<times> world" where
  "catalogue_snapshot now comment format archivePath entries failures written w =
     (case Snapshot_RecordSnapshot (snapshot_row now format archivePath (wr_Size written) entries) archivePath comment
             (Some (map (\<lambda>e. \<lparr>ri_Name = en_Name e, ri_HasData = en_HasData e\<rparr>) entries)) (wr_SHA256 written) w of
        (recorded, w1) \<Rightarrow>
          (\<lparr>sr_ID = (case recorded of Inl _ \<Rightarrow> 0 | Inr r \<Rightarrow> snap_ID r), sr_Path = archivePath, sr_Size = wr_Size written,
            sr_Timestamp = now, sr_Format = format, sr_Instances = entries,
            sr_InstancesWithData = length (filter en_HasData entries),
            sr_ConfigOnly = length entries - length (filter en_HasData entries),
            sr_SHA256 = wr_SHA256 written, sr_CaptureFailures = failures\<rparr>, w1))"

text \<open>
  From the staged instances to the catalogued archive. Every path removes the staging
  directory when it returns.
\<close>

definition publish_snapshot ::
  "capture_env \<Rightarrow> gotime \<Rightarrow> MakeSnapshotParams \<Rightarrow> string \<Rightarrow> SnapshotInstanceEntry list \<Rightarrow> SnapshotCaptureFailure list
     \<Rightarrow> staged \<Rightarrow> world \<Rightarrow> SnapshotResult res \<times> world" where
  "publish_snapshot ce now ps format entries failures st w =
     (case stage_control ce now format entries st w of
        ((Some e, st1), w1) \<Rightarrow> (Inl e, w1)
      | ((None, st1), w1) \<Rightarrow>
     (case sys_call ''stat'' w1 of (s, w2) \<Rightarrow>
     (case CreateTarZstdOrdered ce
             ([snapshotManifestFile, snapshotStoreFile] @ (if \<not> isl s \<and> entries \<noteq> [] then [snapshotInstancesDir] else []))
             (snapshot_path ce ps) (assertSnapshotMembers entries) st1 w2 of
        (Inl e, w3) \<Rightarrow> (Inl (wrap ''create snapshot archive'' e), w3)
      | (Inr written, w3) \<Rightarrow>
     (case catalogue_snapshot now (mp_Comment ps) format (snapshot_path ce ps) entries failures written w3 of
        (res, w4) \<Rightarrow> (Inr res, w4)))))"

definition MakeSnapshot ::
  "capture_env \<Rightarrow> 'x Dependencies_scheme \<Rightarrow> MakeSnapshotParams \<Rightarrow> world \<Rightarrow> SnapshotResult res \<times> world" where
  "MakeSnapshot ce deps ps w =
     (case sys_call ''stat'' w of (_, w0) \<Rightarrow>
      if ce_backup_dir_missing ce
      then (Inl (Errorf0 (''backup directory does not exist: '' @ mp_BackupDir ps)), w0)
      else case NormalizeSnapshotFormat (mp_Format ps) of
        Inl e \<Rightarrow> (Inl e, w0)
      | Inr format \<Rightarrow>
     (case os_Stat (snapshot_path ce ps) w0 of
        (StatOK _, w1) \<Rightarrow> (Inl (Errorf0 (''snapshot already exists: '' @ snapshot_path ce ps)), w1)
      | (_, w1) \<Rightarrow>
     (case sys_call ''mkdir'' w1 of
        (Inl e, w2) \<Rightarrow> (Inl (wrap ''create staging dir'' e), w2)
      | (Inr _, w2) \<Rightarrow>
     (case (case stageAllInstances ce deps format (mp_SpreadCheckpoint ps) [] w2 of
              ((Inl e, _), w3) \<Rightarrow> (Inl e, w3)
            | ((Inr (entries, failures), st), w3) \<Rightarrow> publish_snapshot ce (dp_now deps) ps format entries failures st w3) of
        (r, w4) \<Rightarrow> (r, snd (sys_call ''remove'' w4))))))"

section \<open>The backup of one instance\<close>

definition recordBackup ::
  "gotime \<Rightarrow> string \<Rightarrow> string \<Rightarrow> string \<Rightarrow> Written \<Rightarrow> world \<Rightarrow> int \<times> world" where
  "recordBackup now name comment archivePath written w =
     (let rec = \<lparr>bk_ID = 0, bk_InstanceName = name, bk_Timestamp = now, bk_Size = wr_Size written, bk_LocalLocation = None,
                 bk_RemoteLocation = None, bk_Status = ''completed'', bk_Comment = (if comment = '''' then None else Some comment),
                 bk_CreatedAt = 0, bk_SHA256 = None, bk_FileExists = False, bk_ActualSize = 0\<rparr> in
      case Backup_RecordBackup now rec archivePath (wr_SHA256 written) w of
        (Inl e, w1) \<Rightarrow> (0, w1)
      | (Inr r, w1) \<Rightarrow> (bk_ID r, w1))"

record BackupRDBMSResult =
  br_BackupID :: int
  br_BackupPath :: string
  br_Size :: int
  br_Timestamp :: gotime

definition backup_path :: "capture_env \<Rightarrow> string \<Rightarrow> string \<Rightarrow> nat \<Rightarrow> string" where
  "backup_path ce backupDir name counter =
     Join2 backupDir (''backup-'' @ name @ ''-'' @ ce_timestamp ce @ ''-'' @ Itoa (int counter)) @ ''.tar.zst''"

definition backup_temp :: "capture_env \<Rightarrow> string \<Rightarrow> nat \<Rightarrow> string" where
  "backup_temp ce name counter = ''.tmp-backup-'' @ name @ ''-'' @ ce_timestamp ce @ ''-'' @ Itoa (int counter)"

definition BackupRDBMS ::
  "capture_env \<Rightarrow> 'x Dependencies_scheme \<Rightarrow> nat \<Rightarrow> string \<Rightarrow> string \<Rightarrow> string \<Rightarrow> world \<Rightarrow> BackupRDBMSResult res \<times> world" where
  "BackupRDBMS ce deps counter name backupDir comment w =
     (case Instances_Get name w of
        (Inl e, w1) \<Rightarrow> (Inl (wrap ''get instance'' e), w1)
      | (Inr i, w1) \<Rightarrow>
     (case dp_dec deps (inst_Password i) of
        Inl e \<Rightarrow> (Inl (wrap ''decrypt password'' e), w1)
      | Inr password \<Rightarrow>
     (case sys_call ''stat'' w1 of (_, w2) \<Rightarrow>
        if ce_backup_dir_missing ce
        then (Inl (Errorf0 (''backup directory does not exist: '' @ backupDir)), w2)
        else
     (case sys_call ''mkdir'' w2 of
        (Inl e, w3) \<Rightarrow> (Inl (wrap ''create temp dir'' e), w3)
      | (Inr _, w3) \<Rightarrow>
     (case (case stageInstanceDump ce deps i password (backup_temp ce name counter) [] w3 of
              ((Some e, _), w4) \<Rightarrow> (Inl e, w4)
            | ((None, st), w4) \<Rightarrow>
                (case CreateTarZstd ce (backup_temp ce name counter) (backup_path ce backupDir name counter) assertBackupMembers st w4 of
                   (Inl e, w5) \<Rightarrow> (Inl (wrap ''create archive'' e), w5)
                 | (Inr written, w5) \<Rightarrow>
                     (case recordBackup (dp_now deps) name comment (backup_path ce backupDir name counter) written w5 of
                        (n, w6) \<Rightarrow>
                          (Inr \<lparr>br_BackupID = n, br_BackupPath = backup_path ce backupDir name counter,
                                br_Size = wr_Size written, br_Timestamp = dp_now deps\<rparr>, w6)))) of
        (r, w7) \<Rightarrow> (r, snd (sys_call ''remove'' w7)))))))"

end
