(* ===== verification/SnapshotFacts.thy ===== *)
theory SnapshotFacts
  imports SnapshotMake
begin

text \<open>
  What a capture may and may not do: staging changes nothing but the schedule of outcomes,
  publishing an archive touches its own two names, and the archive, the manifest and the
  catalogue agree on which instances have their data.
\<close>

section \<open>Staging is quiet\<close>

named_theorems quiet \<open>operations that leave the world as it was\<close>

lemma quietI: "(\<And>r w'. f = (r, w') \<Longrightarrow> same_but_io w w') \<Longrightarrow> same_but_io u w \<Longrightarrow> same_but_io u (snd f)"
  using same_but_io_trans by (cases f) fastforce

text \<open>How a property of the world goes through the sequencing the operations are written in.\<close>

locale keeps =
  fixes R :: "world \<Rightarrow> bool"
begin

lemma bind: "R (snd p) \<Longrightarrow> (\<And>a b. R b \<Longrightarrow> R (snd (f a b))) \<Longrightarrow> R (snd (case p of (a, b) \<Rightarrow> f a b))"
  by (cases p) simp

lemma branch:
  "(\<And>a b. R (snd (g a b))) \<Longrightarrow> R (snd (case q of (a, b) \<Rightarrow> g a b))"
  "(\<And>e. R (snd (f1 e))) \<Longrightarrow> (\<And>x. R (snd (f2 x))) \<Longrightarrow> R (snd (case s of Inl e \<Rightarrow> f1 e | Inr x \<Rightarrow> f2 x))"
  "R (snd h1) \<Longrightarrow> (\<And>x. R (snd (h2 x))) \<Longrightarrow> R (snd (case t of None \<Rightarrow> h1 | Some x \<Rightarrow> h2 x))"
  "R (snd k1) \<Longrightarrow> R (snd k2) \<Longrightarrow> R (snd (if c then k1 else k2))"
  "R w \<Longrightarrow> R (snd (r, w))"
  by (simp_all split: prod.splits sum.splits option.splits)

end

interpretation qt: keeps "same_but_io u" for u .

interpretation tc: keeps "only_files S u" for S u .

lemma quiet_calls [quiet]:
  "same_but_io u w \<Longrightarrow> same_but_io u (snd (sys_call m w))"
  "same_but_io u w \<Longrightarrow> same_but_io u (snd (sql_query q w))"
  "same_but_io u w \<Longrightarrow> same_but_io u (snd (os_Stat p w))"
  "same_but_io u w \<Longrightarrow> same_but_io u (snd (pg_connect port pw w))"
  "same_but_io u w \<Longrightarrow> same_but_io u (snd (GetGroup g w))"
  "same_but_io u w \<Longrightarrow> same_but_io u (snd (Instances_Get n w))"
  "same_but_io u w \<Longrightarrow> same_but_io u (snd (Instances_List w))"
  "same_but_io u w \<Longrightarrow> same_but_io u (snd (container_inspect ref w))"
  "same_but_io u w \<Longrightarrow> same_but_io u (snd (Docker_GetContainerStatus ref w))"
  by (erule quietI[rotated]; simp add: sys_call_same sql_query_same os_Stat_same pg_connect_spec(1) catalogue_reads_io Instances_List_same
      inspect_same client_reads_same; fail)+

lemma quiet_helper [quiet]:
  "same_but_io u w \<Longrightarrow> same_but_io u (snd (newPgPassMount pw w))"
  "same_but_io u w \<Longrightarrow> same_but_io u (snd (getContainerLogs run w))"
  unfolding newPgPassMount_def getContainerLogs_def
  by (assumption | rule quiet | rule qt.bind | rule qt.branch)+

lemma quiet_wait [quiet]: "same_but_io u w \<Longrightarrow> same_but_io u (snd (helper_wait ce spec hint tool pgpass w))"
  unfolding helper_wait_def Let_def
  by (assumption | rule quiet | rule qt.bind | rule qt.branch)+

lemma quiet_run [quiet]: "same_but_io u w \<Longrightarrow> same_but_io u (snd (runHelperContainer ce spec hint w))"
  unfolding runHelperContainer_def Let_def
  by (assumption | rule quiet | rule qt.bind | rule qt.branch)+

lemma quiet_meta [quiet]:
  "same_but_io u w \<Longrightarrow> same_but_io u (snd (captureInstanceMetadata i w))"
  "same_but_io u w \<Longrightarrow> same_but_io u (snd (writeInstanceMetadata ce dir meta st w))"
  unfolding captureInstanceMetadata_def writeInstanceMetadata_def Let_def
  by (assumption | rule quiet | rule qt.bind | rule qt.branch)+

lemma quiet_writeMeta [quiet]: "same_but_io u w \<Longrightarrow> same_but_io u (snd (writeMeta ce dir i st w))"
  unfolding writeMeta_def by (assumption | rule quiet | rule qt.bind | rule qt.branch)+

lemma quiet_leftovers [quiet]: "same_but_io u w \<Longrightarrow> same_but_io u (snd (remove_leftovers dir ls st w))"
proof (induction ls arbitrary: st w)
  case (Cons l ls)
  show ?case unfolding remove_leftovers.simps
    by (assumption | rule Cons quiet | rule qt.bind | rule qt.branch)+
qed simp

lemma quiet_reset [quiet]: "same_but_io u w \<Longrightarrow> same_but_io u (snd (resetToConfigOnly ce dir i st w))"
  unfolding resetToConfigOnly_def by (assumption | rule quiet | rule qt.bind | rule qt.branch)+

lemma quiet_password [quiet]: "same_but_io u w \<Longrightarrow> same_but_io u (snd (Instances_GetDecryptedPassword dec n w))"
  unfolding Instances_GetDecryptedPassword_def by (assumption | rule quiet | rule qt.bind | rule qt.branch)+

lemma quiet_connect [quiet]:
  "same_but_io u w \<Longrightarrow> same_but_io u (snd (TestPostgreSQLConnectivityWithPassword code port pw w))"
  "same_but_io u w \<Longrightarrow> same_but_io u (snd (ConnectToRunningInstance deps n w))"
  unfolding TestPostgreSQLConnectivityWithPassword_def ConnectToRunningInstance_def
  by (assumption | rule quiet | rule qt.bind | rule qt.branch)+

lemma quiet_lists [quiet]:
  "same_but_io u w \<Longrightarrow> same_but_io u (snd (ListDatabases ce deps n w))"
  "same_but_io u w \<Longrightarrow> same_but_io u (snd (captureDatabaseMetadata ce deps n major w))"
  unfolding ListDatabases_def captureDatabaseMetadata_def
  by (assumption | rule quiet | rule qt.bind | rule qt.branch)+

lemma quiet_dumps [quiet]:
  "same_but_io u w \<Longrightarrow> same_but_io u (snd (backupGlobals ce i pw out st w))"
  "same_but_io u w \<Longrightarrow> same_but_io u (snd (backupDatabase ce i pw db out st w))"
  unfolding backupGlobals_def backupDatabase_def
  by (assumption | rule quiet | rule qt.bind | rule qt.branch)+

lemma quiet_dump_databases [quiet]: "same_but_io u w \<Longrightarrow> same_but_io u (snd (dump_databases ce i pw dir dbs st w))"
proof (induction dbs arbitrary: st w)
  case (Cons db dbs)
  show ?case unfolding dump_databases.simps
    by (assumption | rule Cons quiet | rule qt.bind | rule qt.branch)+
qed simp

lemma quiet_dumpAll [quiet]: "same_but_io u w \<Longrightarrow> same_but_io u (snd (dumpAllDatabases ce deps i pw dir st w))"
  unfolding dumpAllDatabases_def by (assumption | rule quiet | rule qt.bind | rule qt.branch)+

lemma quiet_stage_dump [quiet]: "same_but_io u w \<Longrightarrow> same_but_io u (snd (stageInstanceDump ce deps i pw dir st w))"
  unfolding stageInstanceDump_def by (assumption | rule quiet | rule qt.bind | rule qt.branch)+

lemma quiet_pgdata [quiet]: "same_but_io u w \<Longrightarrow> same_but_io u (snd (ContainerPGData env cid v w))"
  unfolding ContainerPGData_def by (assumption | rule quiet | rule qt.bind | rule qt.branch)+

lemma quiet_physical [quiet]:
  "same_but_io u w \<Longrightarrow> same_but_io u (snd (stagePhysicalBasebackup ce i pw dir spread st w))"
  "same_but_io u w \<Longrightarrow> same_but_io u (snd (stagePhysicalCold ce i dir st w))"
  unfolding stagePhysicalBasebackup_def stagePhysicalCold_def Let_def
  by (assumption | rule quiet | rule qt.bind | rule qt.branch)+

lemma quiet_degrade [quiet]: "same_but_io u w \<Longrightarrow> same_but_io u (snd (degrade ce i entry what cause st w))"
  unfolding degrade_def by (assumption | rule quiet | rule qt.bind | rule qt.branch)+

lemma quiet_capture [quiet]: "same_but_io u w \<Longrightarrow> same_but_io u (snd (capture_data ce deps spread i entry action st w))"
  by (cases action; simp only: capture_data_def Let_def captureAction.case;
      (assumption | rule quiet | rule qt.bind | rule qt.branch)+)

lemma quiet_stage_instance [quiet]: "same_but_io u w \<Longrightarrow> same_but_io u (snd (stage_instance ce deps format spread i st w))"
  unfolding stage_instance_def Let_def by (assumption | rule quiet | rule qt.bind | rule qt.branch)+

lemma quiet_stage_list [quiet]: "same_but_io u w \<Longrightarrow> same_but_io u (snd (stage_list ce deps format spread is st w))"
proof (induction "is" arbitrary: st w)
  case (Cons i "is")
  show ?case unfolding stage_list.simps
    by (assumption | rule Cons quiet | rule qt.bind | rule qt.branch)+
qed simp

lemma quiet_stage_all [quiet]: "same_but_io u w \<Longrightarrow> same_but_io u (snd (stageAllInstances ce deps format spread st w))"
  unfolding stageAllInstances_def by (assumption | rule quiet | rule qt.bind | rule qt.branch)+

lemma quiet_store [quiet]:
  "same_but_io u w \<Longrightarrow> same_but_io u (snd (VacuumInto ce p st w))"
  "same_but_io u w \<Longrightarrow> same_but_io u (snd (AppliedMigrations ce w))"
  "same_but_io u w \<Longrightarrow> same_but_io u (snd (writeSnapshotManifest ce m st w))"
  unfolding VacuumInto_def AppliedMigrations_def writeSnapshotManifest_def
  by (assumption | rule quiet | rule qt.bind | rule qt.branch)+

lemma quiet_files [quiet]: "same_but_io u w \<Longrightarrow> same_but_io u (snd (files_from_disk ps st w))"
proof (induction ps arbitrary: w)
  case (Cons p ps)
  show ?case unfolding files_from_disk.simps
    by (assumption | rule Cons quiet | rule qt.bind | rule qt.branch)+
qed simp


section \<open>Publishing an archive\<close>

lemma touch_calls:
  "only_files S u w \<Longrightarrow> only_files S u (snd (sys_call m w))"
  "only_files S u w \<Longrightarrow> only_files S u (snd (os_Stat p w))"
  using quiet_calls(1,3)[OF same_but_io_refl] only_files_trans only_files_io by metis+

lemma touch_files:
  "p \<in> S \<Longrightarrow> only_files S u w \<Longrightarrow> only_files S u (snd (os_OpenTrunc p w))"
  "p \<in> S \<Longrightarrow> only_files S u w \<Longrightarrow> only_files S u (snd (os_Remove p w))"
  "p \<in> S \<Longrightarrow> only_files S u w \<Longrightarrow> only_files S u (snd (fs_write what (set_file p n) w))"
proof -
  assume p: "p \<in> S" and u: "only_files S u w"
  show "only_files S u (snd (os_OpenTrunc p w))"
    using only_files_trans[OF u only_files_mono[OF os_OpenTrunc_only]] p by (metis empty_subsetI insert_subset prod.collapse)
  show "only_files S u (snd (os_Remove p w))"
    using only_files_trans[OF u only_files_mono[OF conjunct1[OF os_Remove_only]]] p by (metis empty_subsetI insert_subset prod.collapse)
  obtain e w' where f: "fs_write what (set_file p n) w = (e, w')" by fastforce
  then have "only_files S w w'"
    by (elim fs_write_cases) (auto intro: only_files_io only_files_trans set_file_only[OF p])
  then show "only_files S u (snd (fs_write what (set_file p n) w))" using only_files_trans[OF u] f by simp
qed

lemma touch_discard: "p \<in> S \<Longrightarrow> only_files S u w \<Longrightarrow> only_files S u (discard_tmp p w)"
  unfolding discard_tmp_def by (rule touch_files(2))

lemma write_archive_tmp_touches: "p \<in> S \<Longrightarrow> only_files S u w \<Longrightarrow> only_files S u (snd (write_archive_tmp ce p fs w))"
  unfolding write_archive_tmp_def Let_def
  by (assumption | rule touch_calls | rule touch_files | rule tc.bind | rule tc.branch | rule touch_discard)+

lemma write_archive_tmp_writes:
  assumes "write_archive_tmp ce p fs w = (None, w')"
  shows "files w' p = Some (ce_archive_size ce fs)"
proof -
  obtain w2 w3 where s: "fs_write ''write'' (set_file p (Some (ce_archive_size ce fs))) w2 = (None, w3)" "same_but_io w3 w'"
    using assms sys_call_same same_but_io_trans
    by (auto simp: write_archive_tmp_def Let_def split: prod.splits sum.splits option.splits) blast
  have "files w3 p = Some (ce_archive_size ce fs)" using s(1) by (elim fs_write_cases) auto
  then show ?thesis using same_but_io_fields(24)[OF s(2)] by simp
qed

text \<open>
  What stands at the archive's name afterwards is what stood there, or a file whose read-back
  was accepted. Nothing else on the host changes but the temporary name, which a success
  leaves empty.
\<close>

definition accepted :: "capture_env \<Rightarrow> string \<Rightarrow> staged \<Rightarrow> (Member list \<Rightarrow> goerror option) \<Rightarrow> string \<Rightarrow> bool" where
  "accepted ce p fs verify sha \<longleftrightarrow> (\<exists>v members. ce_readback ce fs (archive_tmp ce p) v = Inr (members, sha) \<and> verify members = None)"

lemma writeVerifiedArchive_effect:
  assumes "writeVerifiedArchive ce p fs verify w = (r, w')" "archive_tmp ce p \<noteq> p"
  shows "only_files {archive_tmp ce p, p} w w'"
    "files w' p = files w p \<and> isl r \<or> (files w' p = Some (ce_archive_size ce fs) \<and> (\<exists>sha. accepted ce p fs verify sha))"
    "r = Inr wr \<Longrightarrow> accepted ce p fs verify (wr_SHA256 wr) \<and> wr_Size wr = ce_archive_size ce fs
       \<and> files w' p = Some (wr_Size wr) \<and> files w' (archive_tmp ce p) = None"
proof -
  let ?t = "archive_tmp ce p" and ?n = "ce_archive_size ce fs"
  obtain x w5 where 5: "write_archive_tmp ce ?t fs w = (x, w5)" by fastforce
  obtain st w6 where 6: "os_Stat ?t w5 = (st, w6)" by fastforce
  obtain y w7 where 7: "os_Rename ?t p w6 = (y, w7)" by fastforce
  have o5: "only_files {?t} w w5"
    using write_archive_tmp_touches[of ?t "{?t}" w w ce fs] only_files_io[OF same_but_io_refl] 5 by simp
  have o6: "only_files {?t} w w6" using touch_calls(2)[OF o5, of ?t] 6 by simp
  have keep: "files v p = files w p" if "only_files {?t} w v" for v using only_files_file[OF that] assms(2) by simp
  have o7: "only_files {?t, p} w w7"
    using only_files_trans[OF only_files_mono[OF o6] os_Rename_effect(1)[OF 7 assms(2)]] by blast
  have d5: "only_files {?t} w (discard_tmp ?t w5)" and d6: "only_files {?t} w (discard_tmp ?t w6)"
    using touch_discard[OF _ o5] touch_discard[OF _ o6] by blast+
  have d7: "only_files {?t, p} w (discard_tmp ?t w7)" using touch_discard[OF _ o7] by blast
  have dp: "files (discard_tmp ?t w7) p = files w7 p"
    using only_files_file[OF touch_discard[OF _ only_files_io[OF same_but_io_refl], of ?t "{?t}" w7], of p] assms(2) by simp
  have s7: "only_files {?t, p} w (syncDir w7)" "files (syncDir w7) = files w7"
    using only_files_trans[OF o7 only_files_io[OF syncDir_same]] same_but_io_fields(24)[OF syncDir_same[of w7]] by simp_all
  note ren = os_Rename_effect(2)[OF 7 assms(2)]
  have "(isl r \<and> only_files {?t} w w')
      \<or> (x = None \<and> (\<exists>members sha. ce_readback ce fs ?t w5 = Inr (members, sha) \<and> verify members = None \<and> (\<exists>n. st = StatOK n
           \<and> ((y \<noteq> None \<and> isl r \<and> w' = discard_tmp ?t w7) \<or> (y = None \<and> r = Inr \<lparr>wr_Size = n, wr_SHA256 = sha\<rparr> \<and> w' = syncDir w7)))))"
    using assms(1) 5 6 7 o5 d5 d6
    by (auto simp: writeVerifiedArchive_def Let_def split: option.splits sum.splits stat_result.splits)
  then have "only_files {?t, p} w w'
     \<and> (files w' p = files w p \<and> isl r \<or> (files w' p = Some ?n \<and> (\<exists>sha. accepted ce p fs verify sha)))
     \<and> (\<forall>wr. r = Inr wr \<longrightarrow> accepted ce p fs verify (wr_SHA256 wr) \<and> wr_Size wr = ?n
       \<and> files w' p = Some (wr_Size wr) \<and> files w' ?t = None)"
  proof (elim disjE conjE exE, goal_cases)
    case 1
    then show ?case using keep[of w'] only_files_mono[of "{?t}" w w'] by auto
  next
    case (2 members sha n)
    have f5: "files w5 ?t = Some ?n" using write_archive_tmp_writes 5 2 by blast
    have a: "accepted ce p fs verify sha" unfolding accepted_def using 2 by blast
    have f6: "files w6 ?t = Some ?n" using f5 same_but_io_fields(24)[OF os_Stat_same[OF 6]] by simp
    have "files w' p = files w p \<or> files w' p = Some ?n" using ren dp f6 keep[OF o6] 2 by auto
    then show ?case using d7 2 a by auto
  next
    case (3 members sha n)
    have f5: "files w5 ?t = Some ?n" using write_archive_tmp_writes 5 3 by blast
    have a: "accepted ce p fs verify sha" unfolding accepted_def using 3 by blast
    have f6: "files w6 ?t = Some ?n" using f5 same_but_io_fields(24)[OF os_Stat_same[OF 6]] by simp
    have n: "n = ?n" using 6 3 f6 by (auto simp: os_Stat_def split: prod.splits if_splits option.splits)
    show ?case using ren s7 3 a n f6 by auto
  qed
  then show "only_files {?t, p} w w'"
    "files w' p = files w p \<and> isl r \<or> (files w' p = Some ?n \<and> (\<exists>sha. accepted ce p fs verify sha))"
    "r = Inr wr \<Longrightarrow> accepted ce p fs verify (wr_SHA256 wr) \<and> wr_Size wr = ?n
       \<and> files w' p = Some (wr_Size wr) \<and> files w' ?t = None" by blast+
qed


section \<open>What is said about each instance\<close>

text \<open>
  As the README has it, an instance may stand in the archive without data and without a reported
  failure only when it has no container, or in a logical capture when its container was stopped
  (\<open>excused\<close>). The code has one more case (\<open>unsettled\<close>): a container that is paused or
  restarting during a logical capture.
\<close>

definition excused :: "string \<Rightarrow> world \<Rightarrow> RDBMSInstance \<Rightarrow> bool" where
  "excused format w i \<longleftrightarrow> inst_ContainerID i = ''''
     \<or> (format \<noteq> SnapshotFormatPhysical \<and> (\<exists>c. lookup_container (inst_ContainerID i) w = Some c
          \<and> \<not> ct_Paused c \<and> \<not> ct_Restarting c \<and> \<not> ct_Running c))"

definition unsettled :: "world \<Rightarrow> RDBMSInstance \<Rightarrow> bool" where
  "unsettled w i \<longleftrightarrow> (\<exists>c. lookup_container (inst_ContainerID i) w = Some c \<and> (ct_Paused c \<or> ct_Restarting c))"

definition told :: "string \<Rightarrow> string set \<Rightarrow> world \<Rightarrow> RDBMSInstance \<Rightarrow> SnapshotInstanceEntry \<Rightarrow> bool" where
  "told format failed w i e \<longleftrightarrow> en_Name e = inst_Name i \<and> en_Version e = inst_Version i \<and> en_Image e = inst_Image i \<and> en_Format e = format
     \<and> (en_HasData e \<longleftrightarrow> en_SkipReason e = '''') \<and> (en_HasData e \<or> inst_Name i \<in> failed \<or> excused format w i \<or> format \<noteq> SnapshotFormatPhysical \<and> unsettled w i)"

lemma excused_io:
  "same_but_io w w' \<Longrightarrow> excused format w' i = excused format w i"
  "same_but_io w w' \<Longrightarrow> unsettled w' i = unsettled w i"
  by (simp_all add: excused_def unsettled_def lookup_container_def same_but_io_fields)

lemma told_mono: "told format S w i e \<Longrightarrow> S \<subseteq> T \<Longrightarrow> told format T w i e"
  by (auto simp: told_def)

lemma container_inspect_found:
  "container_inspect ref w = (Inr c, w') \<Longrightarrow> lookup_container ref w = Some c"
  unfolding container_inspect_def
  by (erule docker_call_ok) (auto simp: lookup_container_def same_but_io_fields split: option.splits)

lemma status_reported:
  assumes "Docker_GetContainerStatus ref w = (Inr s, w')" "s \<noteq> ''not found''" "s \<noteq> ''running''"
  shows "\<exists>c. lookup_container ref w = Some c \<and> (ct_Paused c \<or> ct_Restarting c \<or> \<not> ct_Running c)"
  using assms container_inspect_found[of ref w]
  by (auto simp: Docker_GetContainerStatus_def split: prod.splits sum.splits if_splits)

lemma decideCapture_skips:
  assumes "decideCapture format stored cid actual stateErr = (captureConfigOnly, reason, anomalous)"
  shows "reason \<noteq> ''''"
    "\<not> anomalous \<Longrightarrow> cid = '''' \<or> stateErr = None \<and> actual \<noteq> ''not found'' \<and> actual \<noteq> ''running'' \<and> format \<noteq> SnapshotFormatPhysical"
  using assms by (auto simp: decideCapture_def split: if_splits)

lemma degrade_told:
  assumes "degrade ce i entry what cause st w = ((Inr (e, failure), st'), w')"
  shows "e = entry\<lparr>en_SkipReason := en_SkipReason e\<rparr>" "en_SkipReason e \<noteq> ''''" "\<exists>f. failure = Some f \<and> cf_Instance f = inst_Name i"
  using assms by (auto simp: degrade_def split: prod.splits)

lemma capture_data_told:
  assumes "capture_data ce deps spread i (start_entry format i) action st w = ((Inr (e, failure), st'), w')" "action \<noteq> captureConfigOnly"
  shows "told format (cf_Instance ` set_option failure) v i e"
proof -
  let ?s = "start_entry format i"
  have "(\<exists>m. e = ?s\<lparr>en_HasData := True, en_CaptureMode := m\<rparr>)
      \<or> (\<exists>what cause st1 w1. degrade ce i ?s what cause st1 w1 = ((Inr (e, failure), st'), w'))"
  proof (cases action)
    case captureConfigOnly
    then show ?thesis using assms(2) by simp
  next
    case captureBasebackup
    then show ?thesis
      using assms(1) by (auto simp: capture_data_def Let_def split: sum.splits prod.splits option.splits)
  next
    case captureCold
    then show ?thesis
      using assms(1) by (auto simp: capture_data_def Let_def split: sum.splits prod.splits option.splits)
  next
    case captureLogicalDump
    have "?s\<lparr>en_HasData := True\<rparr> = ?s\<lparr>en_HasData := True, en_CaptureMode := ''''\<rparr>" by (simp add: start_entry_def)
    then show ?thesis
      using assms(1) captureLogicalDump
      by (auto simp: capture_data_def Let_def split: sum.splits prod.splits option.splits)
  qed
  then show ?thesis
  proof (elim disjE exE)
    fix m assume "e = ?s\<lparr>en_HasData := True, en_CaptureMode := m\<rparr>"
    then show ?thesis by (simp add: told_def start_entry_def)
  next
    fix what cause st1 w1
    assume d: "degrade ce i ?s what cause st1 w1 = ((Inr (e, failure), st'), w')"
    have "en_HasData e = False \<and> en_Name e = inst_Name i \<and> en_Version e = inst_Version i \<and> en_Image e = inst_Image i \<and> en_Format e = format"
      by (subst (1 2 3 4 5) degrade_told(1)[OF d]) (simp add: start_entry_def)
    then show ?thesis using degrade_told(2,3)[OF d] by (auto simp: told_def)
  qed
qed

lemma stage_instance_told:
  assumes "stage_instance ce deps format spread i st w = ((Inr (e, failure), st'), w')"
  shows "told format (cf_Instance ` set_option failure) w i e"
proof -
  obtain w1 where 1: "sys_call ''mkdir'' w = (Inr (), w1)"
    using assms by (auto simp: stage_instance_def Let_def split: prod.splits sum.splits)
  let ?p = "if inst_ContainerID i \<noteq> '''' then Docker_GetContainerStatus (inst_ContainerID i) w1 else (Inr '''', w1)"
  obtain state w2 where 2: "?p = (state, w2)" by fastforce
  let ?actual = "case state of Inr s \<Rightarrow> s | Inl _ \<Rightarrow> ''''" and ?err = "case state of Inl e \<Rightarrow> Some e | Inr _ \<Rightarrow> None"
  obtain action reason anomalous where d: "decideCapture format (inst_Status i) (inst_ContainerID i) ?actual ?err = (action, reason, anomalous)"
    by (metis prod.collapse)
  obtain x st1 w3 where 3: "(if action \<noteq> captureLogicalDump then writeMeta ce (instance_dir i) i st w2 else ((None, st), w2)) = ((x, st1), w3)"
    by (metis prod.collapse)
  have body: "stage_instance ce deps format spread i st w
      = (case x of Some e \<Rightarrow> ((Inl (wrap (''stage '' @ inst_Name i) e), st1), w3)
         | None \<Rightarrow> if action = captureConfigOnly
             then ((Inr ((start_entry format i)\<lparr>en_SkipReason := reason\<rparr>,
                    if anomalous then Some \<lparr>cf_Instance = inst_Name i, cf_Stage = ''capture'', cf_Error = reason\<rparr> else None), st1), w3)
             else capture_data ce deps spread i (start_entry format i) action st1 w3)"
    unfolding stage_instance_def Let_def 1 prod.case sum.case 2 d 3 by (cases x) simp_all
  have x: "x = None" using assms body by (cases x) simp_all
  show ?thesis
  proof (cases "action = captureConfigOnly")
    case False
    then show ?thesis using capture_data_told[OF _ False] assms body x by simp
  next
    case True
    then have e: "e = (start_entry format i)\<lparr>en_SkipReason := reason\<rparr>"
      and f: "failure = (if anomalous then Some \<lparr>cf_Instance = inst_Name i, cf_Stage = ''capture'', cf_Error = reason\<rparr> else None)"
      using assms body x by simp_all
    note skips = decideCapture_skips[OF d[unfolded True]]
    have "excused format w i \<or> format \<noteq> SnapshotFormatPhysical \<and> unsettled w i" if a: "\<not> anomalous" and c: "inst_ContainerID i \<noteq> ''''"
    proof -
      from skips(2)[OF a] c obtain s where s: "state = Inr s" "s \<noteq> ''not found''" "s \<noteq> ''running''" "format \<noteq> SnapshotFormatPhysical"
        by (cases state) auto
      have "excused format w1 i \<or> format \<noteq> SnapshotFormatPhysical \<and> unsettled w1 i"
        using status_reported[of "inst_ContainerID i" w1 s w2] 2 c s unfolding excused_def unsettled_def by force
      then show ?thesis using excused_io[OF sys_call_same[OF 1]] by simp
    qed
    then have "anomalous \<or> excused format w i \<or> format \<noteq> SnapshotFormatPhysical \<and> unsettled w i" by (auto simp: excused_def)
    then show ?thesis using e f skips(1) by (auto simp: told_def start_entry_def)
  qed
qed

lemma stage_list_told:
  assumes "stage_list ce deps format spread is st w = ((Inr (es, fs), st'), w')"
  shows "list_all2 (told format (cf_Instance ` set fs) w) is es"
  using assms
proof (induction "is" arbitrary: st w es fs st' w')
  case (Cons i "is")
  obtain r st1 w1 where 1: "stage_instance ce deps format spread i st w = ((r, st1), w1)" by (metis prod.collapse)
  then obtain e failure where r: "r = Inr (e, failure)" using Cons.prems by (cases r) auto
  obtain q st2 w2 where 2: "stage_list ce deps format spread is st1 w1 = ((q, st2), w2)" by (metis prod.collapse)
  then obtain es' fs' where q: "q = Inr (es', fs')" using Cons.prems 1 r by (cases q) auto
  have es: "es = e # es'" "fs = (case failure of None \<Rightarrow> [] | Some f \<Rightarrow> [f]) @ fs'" using Cons.prems 1 2 r q by auto
  have io: "same_but_io w w1" using quiet_stage_instance[OF same_but_io_refl, of w ce deps format spread i st] 1 by simp
  have "list_all2 (told format (cf_Instance ` set fs') w1) is es'" using Cons.IH 2 q by blast
  moreover have "told format (cf_Instance ` set fs) w j x" if "told format (cf_Instance ` set fs') w1 j x" for j x
    using that excused_io[OF io] es(2) by (auto simp: told_def)
  ultimately have "list_all2 (told format (cf_Instance ` set fs) w) is es'" by (rule list_all2_mono)
  moreover have "told format (cf_Instance ` set fs) w i e"
    using stage_instance_told[OF 1[unfolded r]] es(2) by (cases failure) (auto elim: told_mono)
  ultimately show ?case using es(1) by simp
qed simp


lemma stageAllInstances_told:
  assumes "stageAllInstances ce deps format spread st w = ((Inr (es, fs), st'), w')"
  shows "list_all2 (told format (cf_Instance ` set fs) w) (rdbms_instances w) es"
proof -
  obtain l w1 where 1: "Instances_List w = (Inr l, w1)" "stage_list ce deps format spread l st w1 = ((Inr (es, fs), st'), w')"
    using assms by (auto simp: stageAllInstances_def split: prod.splits sum.splits)
  have io: "same_but_io w w1" by (rule Instances_List_same[OF 1(1)])
  have l: "l = rdbms_instances w"
    using 1(1) by (auto simp: Instances_List_def sql_query_def next_io_def split: prod.splits sum.splits if_splits list.splits)
  have "told format S w i e" if "told format S w1 i e" for S i e
    using that excused_io[OF io] by (auto simp: told_def)
  then show ?thesis using list_all2_mono[OF stage_list_told[OF 1(2)]] l by blast
qed

section \<open>What an accepted archive holds\<close>

definition filled :: "Member list \<Rightarrow> string \<Rightarrow> bool" where
  "filled members name \<longleftrightarrow> (\<exists>m \<in> set members. mb_Name m = name \<and> mb_Size m \<noteq> 0)"

definition entry_path :: "SnapshotInstanceEntry \<Rightarrow> string \<Rightarrow> string" where
  "entry_path e f = snapshotInstancesDir @ ''/'' @ en_Name e @ ''/'' @ f"

definition holds_data :: "Member list \<Rightarrow> SnapshotInstanceEntry \<Rightarrow> bool" where
  "holds_data members e \<longleftrightarrow>
     (if entryFormat e = SnapshotFormatPhysical
      then filled members (entry_path e ''basebackup/base.tar.zst'') \<or> filled members (entry_path e ''basebackup/base.tar'')
      else filled members (entry_path e ''globals.sql'')
           \<and> (\<exists>m \<in> set members. \<not> mb_IsDir m \<and> mb_Size m > 0 \<and> HasPrefix (mb_Name m) (entry_path e ''databases/'')))"

definition carries :: "Member list \<Rightarrow> SnapshotInstanceEntry list \<Rightarrow> bool" where
  "carries members es \<longleftrightarrow> first_file members = snapshotManifestFile \<and> filled members snapshotStoreFile
     \<and> (\<forall>e \<in> set es. filled members (entry_path e instanceMetadataFile) \<and> (en_HasData e \<longrightarrow> holds_data members e))"

lemma member_map_some: "member_map members n = Some m \<Longrightarrow> m \<in> set members \<and> mb_Name m = n"
  by (auto simp: member_map_def dest: map_of_SomeD)

lemma member_nonEmpty_filled: "member_nonEmpty members n = None \<Longrightarrow> filled members n"
  using member_map_some[of members n] by (auto simp: member_nonEmpty_def filled_def split: option.splits if_splits)

lemma has_payload: "has_database_payload members base
    \<Longrightarrow> \<exists>m \<in> set members. \<not> mb_IsDir m \<and> mb_Size m > 0 \<and> HasPrefix (mb_Name m) (base @ ''/databases/'')"
  using member_map_some by (fastforce simp: has_database_payload_def list_ex_iff split: option.splits)

lemmas member_names = entry_path_def snapshotBasebackupDir_def physicalBaseTarZst_def physicalBaseTar_def

lemma assert_entry_holds:
  assumes "assert_entry members e = None"
  shows "filled members (entry_path e instanceMetadataFile)" "en_HasData e \<Longrightarrow> holds_data members e"
  using assms member_nonEmpty_filled has_payload[of members "snapshotInstancesDir @ ''/'' @ en_Name e"]
  by (auto simp: assert_entry_def Let_def holds_data_def member_names split: option.splits if_splits)

lemma assert_entries_hold: "assert_entries members es = None \<Longrightarrow> e \<in> set es \<Longrightarrow> assert_entry members e = None"
  by (induction es) (auto split: option.splits)

lemma assertSnapshotMembers_carries: "assertSnapshotMembers es members = None \<Longrightarrow> carries members es"
  using member_nonEmpty_filled assert_entries_hold assert_entry_holds
  by (fastforce simp: assertSnapshotMembers_def carries_def split: if_splits option.splits)

section \<open>The whole capture\<close>

lemma archive_tmp_differs:
  assumes "plain_name n" "CHR ''/'' \<notin> set (ce_tmp_suffix ce)"
  shows "archive_tmp ce (Join2 d n) \<noteq> Join2 d n"
proof
  assume eq: "archive_tmp ce (Join2 d n) = Join2 d n"
  have t: "archive_tmp ce (Join2 d n) = Join2 (Dir (Join2 d n)) (''.tmp-'' @ n @ ''-'' @ ce_tmp_suffix ce)"
    using assms(1) by (simp add: archive_tmp_def Base_Join2)
  have "plain_name (''.tmp-'' @ n @ ''-'' @ ce_tmp_suffix ce)" using assms by (auto simp: plain_name_def)
  then have "Base (archive_tmp ce (Join2 d n)) = ''.tmp-'' @ n @ ''-'' @ ce_tmp_suffix ce" unfolding t by (rule Base_Join2)
  then have "n = ''.tmp-'' @ n @ ''-'' @ ce_tmp_suffix ce" using eq Base_Join2[OF assms(1)] by metis
  then have "length n = length (''.tmp-'' @ n @ ''-'' @ ce_tmp_suffix ce)" by (rule arg_cong)
  then show False by simp
qed

lemma snapshot_name_plain:
  assumes "CHR ''/'' \<notin> set (ce_timestamp ce)"
  shows "plain_name (SnapshotFilePrefix @ snapshot_host ce @ ''-'' @ ce_timestamp ce @ ''.tar.zst'')"
proof -
  have "\<not> name_char (CHR ''/'')" by (simp add: name_char_def PgText.is_letter_def is_digit_def)
  then have "CHR ''/'' \<notin> set (snapshot_host ce)" unfolding snapshot_host_def using sanitizeHostForFilename_safe(3)[of "CHR ''/''"] by blast
  then show ?thesis using assms by (auto simp: plain_name_def SnapshotFilePrefix_def)
qed

text \<open>The catalogue row of a result.\<close>

definition describes :: "Record \<Rightarrow> SnapshotResult \<Rightarrow> bool" where
  "describes row res \<longleftrightarrow> snap_LocalLocation row = Some (sr_Path res) \<and> snap_Size row = sr_Size res \<and> snap_Format row = sr_Format res
     \<and> snap_SHA256 row = (if sr_SHA256 res = '''' then None else Some (sr_SHA256 res))
     \<and> snap_InstancesJSON row = JList (map (\<lambda>e. \<lparr>ri_Name = en_Name e, ri_HasData = en_HasData e\<rparr>) (sr_Instances res))
     \<and> (sr_ID res = 0 \<or> snap_ID row = sr_ID res)"

lemma RecordSnapshot_effect:
  assumes "Snapshot_RecordSnapshot rec path comment ins sha w = (r, w')"
  shows "rdbms_instances w' = rdbms_instances w \<and> objects w' = objects w \<and> files w' = files w
     \<and> (snapshot_history w' = snapshot_history w \<and> isl r
        \<or> (\<exists>row n. snapshot_history w' = snapshot_history w @ [row] \<and> snap_ID row = n
             \<and> (isl r \<or> (\<exists>x. r = Inr x \<and> snap_ID x = n))
             \<and> snap_Size row = snap_Size rec \<and> snap_CreatedAt row = snap_CreatedAt rec
             \<and> (snap_Format rec \<noteq> '''' \<longrightarrow> snap_Format row = snap_Format rec)
             \<and> (snap_LocalLocation rec = None \<and> path \<noteq> '''' \<longrightarrow> snap_LocalLocation row = Some path)
             \<and> (snap_InstancesJSON rec = JNull \<longrightarrow> snap_InstancesJSON row = (case ins of None \<Rightarrow> JNull | Some l \<Rightarrow> JList l))
             \<and> (snap_SHA256 rec = None \<longrightarrow> snap_SHA256 row = (if sha = '''' then None else Some sha))))"
proof -
  obtain stored where s: "stored = rec\<lparr>snap_Format := (if snap_Format rec = '''' then ''logical'' else snap_Format rec),
      snap_InstancesJSON := (if snap_InstancesJSON rec = JNull then (case ins of None \<Rightarrow> JNull | Some l \<Rightarrow> JList l) else snap_InstancesJSON rec),
      snap_LocalLocation := (if snap_LocalLocation rec = None \<and> path \<noteq> '''' then Some path else snap_LocalLocation rec),
      snap_Comment := (if snap_Comment rec = None \<and> comment \<noteq> '''' then Some comment else snap_Comment rec),
      snap_SHA256 := (if snap_SHA256 rec = None \<and> sha \<noteq> '''' then Some sha else snap_SHA256 rec)\<rparr>" by blast
  obtain q where q: "sql_exec (snap_insert_stmt stored) w = (q, w')" "isl r \<longleftrightarrow> isl q" "\<forall>n. q = Inr n \<longrightarrow> (\<exists>x. r = Inr x \<and> snap_ID x = n)"
    using assms unfolding s by (auto simp: Snapshot_RecordSnapshot_def Let_def split: prod.splits sum.splits)
  show ?thesis using q(1)
  proof (cases rule: sql_exec_cases)
    case none
    then show ?thesis using q(2) by (auto simp: same_but_io_fields)
  next
    case (applied w1 n)
    have w': "w' = w1\<lparr>snapshot_history := snapshot_history w1 @ [stored\<lparr>snap_ID := n\<rparr>], snapshot_seq := n\<rparr>"
      using applied(2) by (auto simp: snap_insert_stmt_def Let_def split: if_splits)
    have "isl r \<or> (\<exists>x. r = Inr x \<and> snap_ID x = n)" using applied(3) q(2,3) by auto
    moreover have "snap_Size stored = snap_Size rec \<and> snap_CreatedAt stored = snap_CreatedAt rec
        \<and> (snap_Format rec \<noteq> '''' \<longrightarrow> snap_Format stored = snap_Format rec)
        \<and> (snap_LocalLocation rec = None \<and> path \<noteq> '''' \<longrightarrow> snap_LocalLocation stored = Some path)
        \<and> (snap_InstancesJSON rec = JNull \<longrightarrow> snap_InstancesJSON stored = (case ins of None \<Rightarrow> JNull | Some l \<Rightarrow> JList l))
        \<and> (snap_SHA256 rec = None \<longrightarrow> snap_SHA256 stored = (if sha = '''' then None else Some sha))" by (simp add: s)
    ultimately show ?thesis
      unfolding w' using applied(1)
      by (intro conjI disjI2; (rule exI[of _ "stored\<lparr>snap_ID := n\<rparr>"])?) (simp_all add: same_but_io_fields)
  qed
qed

lemma CreateTarZstdOrdered_effect:
  assumes "CreateTarZstdOrdered ce ps p verify st w = (r, w')" "archive_tmp ce p \<noteq> p"
  shows "only_files {archive_tmp ce p, p} w w'"
    "r = Inr wr \<Longrightarrow> (\<exists>fs. accepted ce p fs verify (wr_SHA256 wr)) \<and> files w' p = Some (wr_Size wr)"
proof -
  have "only_files {archive_tmp ce p, p} w w'
     \<and> (\<forall>wr. r = Inr wr \<longrightarrow> (\<exists>fs. accepted ce p fs verify (wr_SHA256 wr)) \<and> files w' p = Some (wr_Size wr))"
  proof (cases "ps = []")
    case True
    then show ?thesis using assms(1) by (auto simp: CreateTarZstdOrdered_def only_files_io)
  next
    case False
    obtain q w1 where 1: "files_from_disk ps st w = (q, w1)" by fastforce
    have io: "same_but_io w w1" using quiet_files[OF same_but_io_refl, of w ps st] 1 by simp
    show ?thesis
    proof (cases q)
      case (Inl e)
      then show ?thesis using assms(1) 1 False only_files_io[OF io] by (auto simp: CreateTarZstdOrdered_def)
    next
      case (Inr fs)
      then have "writeVerifiedArchive ce p fs verify w1 = (r, w')" using assms(1) 1 False by (simp add: CreateTarZstdOrdered_def)
      from writeVerifiedArchive_effect[OF this assms(2)] show ?thesis
        using only_files_trans[OF only_files_io[OF io]] by blast
    qed
  qed
  then show "only_files {archive_tmp ce p, p} w w'"
    "r = Inr wr \<Longrightarrow> (\<exists>fs. accepted ce p fs verify (wr_SHA256 wr)) \<and> files w' p = Some (wr_Size wr)" by blast+
qed

text \<open>What a run may leave behind, and what a result stands for.\<close>

definition capture_keeps :: "capture_env \<Rightarrow> string \<Rightarrow> world \<Rightarrow> world \<Rightarrow> bool" where
  "capture_keeps ce p w w' \<longleftrightarrow> rdbms_instances w' = rdbms_instances w \<and> objects w' = objects w
     \<and> (\<forall>q. q \<notin> {archive_tmp ce p, p} \<longrightarrow> files w' q = files w q)"

definition published :: "capture_env \<Rightarrow> SnapshotResult \<Rightarrow> world \<Rightarrow> world \<Rightarrow> bool" where
  "published ce res w w' \<longleftrightarrow>
     (\<exists>fs v members. ce_readback ce fs (archive_tmp ce (sr_Path res)) v = Inr (members, sr_SHA256 res) \<and> carries members (sr_Instances res))
     \<and> files w' (sr_Path res) = Some (sr_Size res)
     \<and> (snapshot_history w' = snapshot_history w \<and> sr_ID res = 0
        \<or> (\<exists>row. snapshot_history w' = snapshot_history w @ [row] \<and> describes row res))"

lemma only_files_keeps: "only_files {archive_tmp ce p, p} w w' \<Longrightarrow> capture_keeps ce p w w' \<and> snapshot_history w' = snapshot_history w"
  unfolding only_files_def capture_keeps_def same_tables_def by (cases w; cases w') auto

lemma quiet_control [quiet]: "same_but_io u w \<Longrightarrow> same_but_io u (snd (stage_control ce now format es st w))"
  unfolding stage_control_def by (assumption | rule quiet | rule qt.bind | rule qt.branch)+

lemma catalogue_snapshot_effect:
  assumes "catalogue_snapshot now comment format p es failures wr w = (res, w')" "p \<noteq> ''''" "format \<noteq> ''''"
  shows "rdbms_instances w' = rdbms_instances w" "objects w' = objects w" "files w' = files w"
    "sr_Path res = p" "sr_Size res = wr_Size wr" "sr_Format res = format" "sr_Instances res = es" "sr_SHA256 res = wr_SHA256 wr"
    "sr_CaptureFailures res = failures"
    "snapshot_history w' = snapshot_history w \<and> sr_ID res = 0
       \<or> (\<exists>row. snapshot_history w' = snapshot_history w @ [row] \<and> describes row res)"
proof -
  let ?row = "snapshot_row now format p (wr_Size wr) es"
  let ?ins = "map (\<lambda>e. \<lparr>ri_Name = en_Name e, ri_HasData = en_HasData e\<rparr>) es"
  obtain rd where 1: "Snapshot_RecordSnapshot ?row p comment (Some ?ins) (wr_SHA256 wr) w = (rd, w')"
    and res: "sr_ID res = (case rd of Inl _ \<Rightarrow> 0 | Inr r \<Rightarrow> snap_ID r)" "sr_Path res = p" "sr_Size res = wr_Size wr"
      "sr_Format res = format" "sr_Instances res = es" "sr_SHA256 res = wr_SHA256 wr" "sr_CaptureFailures res = failures"
    using assms(1) by (auto simp: catalogue_snapshot_def split: prod.splits)
  note rec = RecordSnapshot_effect[OF 1]
  have row: "snap_Size ?row = wr_Size wr" "snap_Format ?row = format" "snap_LocalLocation ?row = None"
    "snap_InstancesJSON ?row = JNull" "snap_SHA256 ?row = None" by (simp_all add: snapshot_row_def Let_def)
  show "rdbms_instances w' = rdbms_instances w" "objects w' = objects w" "files w' = files w" using rec by simp_all
  show "sr_Path res = p" "sr_Size res = wr_Size wr" "sr_Format res = format" "sr_Instances res = es" "sr_SHA256 res = wr_SHA256 wr"
    "sr_CaptureFailures res = failures" using res by simp_all
  show "snapshot_history w' = snapshot_history w \<and> sr_ID res = 0
       \<or> (\<exists>row. snapshot_history w' = snapshot_history w @ [row] \<and> describes row res)"
    using rec row assms(2,3) res unfolding describes_def by (cases rd) auto
qed

lemma publish_snapshot_effect:
  assumes "publish_snapshot ce now ps format es failures st w = (r, w')" "archive_tmp ce (snapshot_path ce ps) \<noteq> snapshot_path ce ps"
    "snapshot_path ce ps \<noteq> ''''" "format \<noteq> ''''"
  shows "capture_keeps ce (snapshot_path ce ps) w w' \<and>
     (case r of Inl _ \<Rightarrow> snapshot_history w' = snapshot_history w
      | Inr res \<Rightarrow> sr_Path res = snapshot_path ce ps \<and> sr_Format res = format \<and> sr_Instances res = es \<and> sr_CaptureFailures res = failures
          \<and> published ce res w w')"
proof -
  let ?p = "snapshot_path ce ps"
  obtain x st1 w1 where 1: "stage_control ce now format es st w = ((x, st1), w1)" by (metis prod.collapse)
  obtain s w2 where 2: "sys_call ''stat'' w1 = (s, w2)" by fastforce
  have io1: "same_but_io w w1" using quiet_control[OF same_but_io_refl, of w ce now format es st] 1 by simp
  have io2: "same_but_io w w2" using quiet_calls(1)[OF io1, of "''stat''"] 2 by simp
  let ?ents = "[snapshotManifestFile, snapshotStoreFile] @ (if \<not> isl s \<and> es \<noteq> [] then [snapshotInstancesDir] else [])"
  obtain c w3 where 3: "CreateTarZstdOrdered ce ?ents ?p (assertSnapshotMembers es) st1 w2 = (c, w3)" by fastforce
  note eff = CreateTarZstdOrdered_effect[OF 3 assms(2)]
  note k1 = only_files_keeps[OF only_files_io[OF io1]]
  note k3 = only_files_keeps[OF only_files_trans[OF only_files_io[OF io2] eff(1)]]
  consider e where "x = Some e" "isl r" "w' = w1" | e where "x = None" "c = Inl e" "isl r" "w' = w3"
    | wr res where "x = None" "c = Inr wr" "r = Inr res"
        "catalogue_snapshot now (mp_Comment ps) format ?p es failures wr w3 = (res, w')"
    using assms(1) 1 2 3 by (cases x; cases c) (auto simp: publish_snapshot_def split: prod.splits)
  then show ?thesis
  proof cases
    case 1
    then show ?thesis using k1 by (cases r) auto
  next
    case 2
    then show ?thesis using k3 by (cases r) auto
  next
    case (3 wr res)
    note cat = catalogue_snapshot_effect[OF 3(4) assms(3,4)]
    have a: "\<exists>fs. accepted ce ?p fs (assertSnapshotMembers es) (wr_SHA256 wr)" "files w3 ?p = Some (wr_Size wr)"
      using eff(2)[OF 3(2)] by blast+
    then obtain fs v members where rb: "ce_readback ce fs (archive_tmp ce ?p) v = Inr (members, wr_SHA256 wr)" "carries members es"
      using assertSnapshotMembers_carries unfolding accepted_def by blast
    have "published ce res w w'" unfolding published_def using rb a(2) cat k3 by auto
    then show ?thesis using 3(3) cat k3 unfolding capture_keeps_def by simp
  qed
qed

lemma MakeSnapshot_cases:
  assumes "MakeSnapshot ce deps ps w = (r, w')"
  obtains (refused) "same_but_io w w'" "isl r"
    | (staged) format w1 w2 es failures st w3 where "same_but_io w w1" "NormalizeSnapshotFormat (mp_Format ps) = Inr format"
        "stageAllInstances ce deps format (mp_SpreadCheckpoint ps) [] w1 = ((Inr (es, failures), st), w2)"
        "publish_snapshot ce (dp_now deps) ps format es failures st w2 = (r, w3)" "same_but_io w3 w'"
proof -
  obtain s w0 where 0: "sys_call ''stat'' w = (s, w0)" by fastforce
  obtain so w1 where 1: "os_Stat (snapshot_path ce ps) w0 = (so, w1)" by fastforce
  obtain m w2 where 2: "sys_call ''mkdir'' w1 = (m, w2)" by fastforce
  have io: "same_but_io w w0" "same_but_io w w1" "same_but_io w w2"
    using sys_call_same[OF 0] os_Stat_same[OF 1] sys_call_same[OF 2] same_but_io_trans by blast+
  have rm: "same_but_io v (snd (sys_call ''remove'' v))" for v using quiet_calls(1)[OF same_but_io_refl] .
  have early: thesis if "isl r" "w' \<in> {w0, w1, w2}" using refused that io by blast
  show thesis
  proof (cases "ce_backup_dir_missing ce \<or> isl (NormalizeSnapshotFormat (mp_Format ps)) \<or> (\<exists>n. so = StatOK n) \<or> isl m")
    case True
    then have "isl r \<and> w' \<in> {w0, w1, w2}" using assms 0 1 2
      by (auto simp: MakeSnapshot_def split: if_splits sum.splits stat_result.splits)
    then show thesis using early by blast
  next
    case False
    then obtain format where f: "NormalizeSnapshotFormat (mp_Format ps) = Inr format"
      by (cases "NormalizeSnapshotFormat (mp_Format ps)") auto
    obtain q st w3 where 3: "stageAllInstances ce deps format (mp_SpreadCheckpoint ps) [] w2 = ((q, st), w3)" by (metis prod.collapse)
    have io3: "same_but_io w w3" using quiet_stage_all[OF io(3), of ce deps format "mp_SpreadCheckpoint ps" "[]"] 3 by simp
    have body: "MakeSnapshot ce deps ps w = (case (case q of Inl e \<Rightarrow> (Inl e, w3)
        | Inr (es, failures) \<Rightarrow> publish_snapshot ce (dp_now deps) ps format es failures st w3) of (r, w4) \<Rightarrow> (r, snd (sys_call ''remove'' w4)))"
      using False 0 1 2 3 f by (cases m; cases so) (auto simp: MakeSnapshot_def split: sum.splits)
    show thesis
    proof (cases q)
      case (Inl e)
      then have "isl r" "w' = snd (sys_call ''remove'' w3)" using assms body by auto
      then show thesis using refused same_but_io_trans[OF io3 rm] by blast
    next
      case (Inr p)
      obtain es failures where p: "p = (es, failures)" by fastforce
      obtain x w4 where 4: "publish_snapshot ce (dp_now deps) ps format es failures st w3 = (x, w4)" by fastforce
      have "r = x" "w' = snd (sys_call ''remove'' w4)" using assms body Inr p 4 by simp_all
      then show thesis using staged[OF io(3) f 3[unfolded Inr p]] 4 rm by blast
    qed
  qed
qed

lemma NormalizeSnapshotFormat_range: "NormalizeSnapshotFormat s = Inr f \<Longrightarrow> f \<in> {SnapshotFormatPhysical, SnapshotFormatLogical}"
  by (auto simp: NormalizeSnapshotFormat_def split: if_splits)

text \<open>
  C10. A snapshot never leaves an instance out without saying so. Under every pattern of
  failures a run changes no instance, no bucket object and no file but the archive and its
  temporary name, and a run that fails adds nothing to the catalogue. A run that succeeds has
  one entry per instance, in order, and each entry either claims data or gives a reason; an
  instance without data is reported as a failure unless it has no container or, in a logical
  snapshot, its container is stopped, paused or restarting (the last two against the README,
  which \<open>paused_under_logical_is_not_reported\<close> shows). The archive under the final name is the
  one that was read back: it starts with the manifest, holds the store and each instance's
  configuration, and a non-empty payload for every entry that claims data. The catalogue
  gained nothing, or one row with the archive's path, size, digest and instances.
\<close>

theorem MakeSnapshot_no_silent_gap:
  assumes "MakeSnapshot ce deps ps w = (r, w')"
    and "CHR ''/'' \<notin> set (ce_timestamp ce)" "CHR ''/'' \<notin> set (ce_tmp_suffix ce)"
  shows "capture_keeps ce (snapshot_path ce ps) w w' \<and>
     (case r of
        Inl _ \<Rightarrow> snapshot_history w' = snapshot_history w
      | Inr res \<Rightarrow> sr_Path res = snapshot_path ce ps
          \<and> list_all2 (told (sr_Format res) (cf_Instance ` set (sr_CaptureFailures res)) w) (rdbms_instances w) (sr_Instances res)
          \<and> published ce res w w')"
  using assms(1)
proof (cases rule: MakeSnapshot_cases)
  case refused
  then show ?thesis using only_files_keeps[OF only_files_io[OF refused(1)]] by (cases r) auto
next
  case (staged format w1 w2 es failures st w3)
  let ?name = "SnapshotFilePrefix @ snapshot_host ce @ ''-'' @ ce_timestamp ce @ ''.tar.zst''"
  note plain = snapshot_name_plain[OF assms(2)]
  have p: "snapshot_path ce ps = Join2 (mp_BackupDir ps) ?name" by (simp add: snapshot_path_def)
  have "Base (snapshot_path ce ps) = ?name" unfolding p by (rule Base_Join2[OF plain])
  then have ne: "snapshot_path ce ps \<noteq> ''''" by (auto simp: Base_def SnapshotFilePrefix_def)
  have fmt: "format \<noteq> ''''"
    using NormalizeSnapshotFormat_range[OF staged(2)] by (auto simp: SnapshotFormatPhysical_def SnapshotFormatLogical_def)
  have "archive_tmp ce (snapshot_path ce ps) \<noteq> snapshot_path ce ps" unfolding p by (rule archive_tmp_differs[OF plain assms(3)])
  note eff = publish_snapshot_effect[OF staged(4) this ne fmt]
  have io2: "same_but_io w w2"
    using quiet_stage_all[OF staged(1), of ce deps format "mp_SpreadCheckpoint ps" "[]"] staged(3) by simp
  have told: "list_all2 (told format (cf_Instance ` set failures) w) (rdbms_instances w) es"
    using stageAllInstances_told[OF staged(3)] excused_io[OF staged(1)] same_but_io_fields[OF staged(1)]
    by (auto simp: told_def elim!: list_all2_mono)
  have same: "capture_keeps ce p w2 w3 = capture_keeps ce p w w'" "published ce x w2 w3 = published ce x w w'"
    "(snapshot_history w3 = snapshot_history w2) = (snapshot_history w' = snapshot_history w)" for p x
    by (simp_all add: capture_keeps_def published_def same_but_io_fields[OF io2] same_but_io_fields[OF staged(5)])
  show ?thesis using eff told unfolding same by (cases r) auto
qed

text \<open>
  The README and the comment at \<open>decideCapture\<close> promise that an instance which is paused or
  restarting fails the run. A logical snapshot of a paused instance does not.
\<close>

lemma paused_under_logical_is_not_reported:
  "\<exists>reason. decideCapture SnapshotFormatLogical stored ''c1'' ''paused'' None = (captureConfigOnly, reason, False)"
  "\<exists>reason. decideCapture SnapshotFormatPhysical stored ''c1'' ''paused'' None = (captureConfigOnly, reason, True)"
  by (simp_all add: decideCapture_def SnapshotFormatLogical_def SnapshotFormatPhysical_def)

text \<open>A host with a serving instance and one that never got a container.\<close>

definition demo_capture :: capture_env where
  "demo_capture = \<lparr>ce_run = (\<lambda>_ _ _ _. \<lparr>run_status = Some 0, run_files = [(''base.tar.zst'', 90), (''pg_wal.tar'', 5)], run_size = 0,
       run_stdout = '''', run_stderr = ''''\<rparr>),
     ce_copy_out = (\<lambda>_ _ _. Inl (DriverError ''docker'')), ce_image_env = (\<lambda>_. []), ce_tar_size = (\<lambda>_. 1), ce_pg_code = (\<lambda>_. ''''),
     ce_databases = (\<lambda>_ _. Inr []), ce_metadata = (\<lambda>_ _ _. Inr []), ce_meta_size = (\<lambda>_. 2), ce_metas_size = (\<lambda>_. 2),
     ce_manifest_size = (\<lambda>_. 3), ce_store_size = (\<lambda>_. 4), ce_archive_size = (\<lambda>fs. sum_list (map snd fs)),
     ce_readback = (\<lambda>fs _ _. Inr (map (\<lambda>(f, n). \<lparr>mb_Name = f, mb_Size = n, mb_IsDir = False\<rparr>) fs, ''d1'')),
     ce_migrations = [], ce_version = ''1.0.0'', ce_arch = ''amd64'', ce_hostname = Some ''db/1'', ce_timestamp = ''20250101000000'',
     ce_backup_dir_missing = False, ce_tmp_suffix = ''42''\<rparr>"

definition demo_deployment :: world where
  "demo_deployment = empty_world\<lparr>
     rdbms_instances := [demo_instance\<lparr>inst_ContainerID := ''c1'', inst_Port := 7\<rparr>, demo_instance\<lparr>inst_ID := 2, inst_Name := ''new'', inst_Port := 8\<rparr>],
     containers := [\<lparr>ct_ID = ''c1'', ct_Name = ''oddk-db'', ct_ImageID = ''sha17'',
       ct_Spec = \<lparr>sp_Image = ''postgres:17'', sp_Env = [], sp_Cmd = [], sp_Labels = [], sp_HostPort = ''7'', sp_MountSource = ''oddk-data-db'',
                  sp_MountTarget = ''/d'', sp_Memory = 1, sp_CPUShares = 1, sp_ShmSize = 1\<rparr>,
       ct_Running = True, ct_Paused = False, ct_Restarting = False\<rparr>],
     volumes := [''oddk-data-db'' \<mapsto> ''pw'']\<rparr>"

definition demo_params :: MakeSnapshotParams where
  "demo_params = \<lparr>mp_BackupDir = ''/b'', mp_Comment = '''', mp_Format = '''', mp_SpreadCheckpoint = False\<rparr>"

lemma demo_snapshot:
  "(case MakeSnapshot demo_capture demo_deps demo_params demo_deployment of
      (Inr res, w') \<Rightarrow> (map en_HasData (sr_Instances res), sr_Path res, sr_Size res, sr_ID res, sr_CaptureFailures res = [])
    | _ \<Rightarrow> ([], '''', 0, 0, False)) = ([True, False], ''/b/snapshot-db-1-20250101000000.tar.zst'', 106, 1, True)"
  by code_simp

theorem MakeSnapshot_no_silent_gap_witness:
  "\<exists>res w'. MakeSnapshot demo_capture demo_deps demo_params demo_deployment = (Inr res, w') \<and> map en_HasData (sr_Instances res) = [True, False]
     \<and> files w' ''/b/snapshot-db-1-20250101000000.tar.zst'' = Some 106
     \<and> (\<exists>row. snapshot_history w' = [row] \<and> describes row res)"
proof -
  obtain r w' where run: "MakeSnapshot demo_capture demo_deps demo_params demo_deployment = (r, w')" by fastforce
  then obtain res where res: "r = Inr res" "map en_HasData (sr_Instances res) = [True, False]"
      "sr_Path res = ''/b/snapshot-db-1-20250101000000.tar.zst''" "sr_Size res = 106" "sr_ID res = 1"
    using demo_snapshot by (cases r) auto
  have h: "snapshot_history demo_deployment = []" by (simp add: demo_deployment_def empty_world_def)
  have "published demo_capture res demo_deployment w'"
    using MakeSnapshot_no_silent_gap[OF run] res(1) by (simp add: demo_capture_def)
  then show ?thesis using run res h by (auto simp: published_def)
qed

end
