(* ===== verification/SnapshotApply.thy ===== *)
theory SnapshotApply
  imports SnapshotFacts NotificationStore CronStore KVStore KeyFile
begin

text \<open>
  Restoring a whole deployment from a snapshot (\<open>internal/operations/snapshot_apply.go\<close>, with
  the checks of \<open>snapshot_rebuild.go\<close> and \<open>snapshot_physical.go\<close> it calls): the preflight,
  which must not touch this host outside its own staging directory.

  The archive is the record \<open>archive\<close>: its manifest, what its verification says
  (\<open>ar_verify\<close>, and \<open>ar_tail\<close> for what is found after the last entry), its entries, the tables of
  its copy of the store in the schema the migrations leave, and what each file of the extracted
  tree says. The host outside ODDK (who listens on which port, its cores and memory, what the
  registry delivers, the major version an image serves, the suffix a temporary directory gets) is
  the record \<open>apply_host\<close>. Directories are not files of the model.
\<close>

section \<open>Data\<close>

record archive_entry =
  ae_Name :: string
  ae_IsDir :: bool
  ae_IsRegular :: bool
  ae_Size :: int

record archive =
  ar_manifest :: "SnapshotManifest res"
  ar_verify :: "goerror option"
  ar_entries :: "archive_entry list"
  ar_tail :: "goerror option"
  ar_store :: world
  ar_meta :: "string \<Rightarrow> InstanceMeta option res"
  ar_databases :: "string \<Rightarrow> DatabaseMeta list option res"
  ar_globals :: "string \<Rightarrow> string res"
  ar_basebackup :: "string \<Rightarrow> staged"
  ar_base :: "string \<Rightarrow> tar_stream"
  ar_wal :: "string \<Rightarrow> tar_stream option"

record apply_host =
  ah_now :: gotime
  ah_temp :: string
  ah_docker :: bool
  ah_version :: string
  ah_arch :: string
  ah_listening :: "int \<Rightarrow> bool"
  ah_port_answers :: "int \<Rightarrow> bool"
  ah_db_exists :: bool
  ah_db_unusable :: bool
  ah_key_exists :: bool
  ah_cores :: "int res"
  ah_memory :: "int res"
  ah_image_major :: "string \<Rightarrow> int option"
  ah_pull :: "string \<Rightarrow> string res"
  ah_key :: "string res"
  ah_dec :: "string \<Rightarrow> string \<Rightarrow> string res"

record SnapshotApplyParams =
  ap_ArchivePath :: string
  ap_DataDir :: string
  ap_BackupDir :: string
  ap_DaemonPort :: int
  ap_NoPauseSchedules :: bool

record PreflightCheck =
  pc_Label :: string
  pc_OK :: bool

record logicalRestoreInputs =
  lr_databases :: "DatabaseMeta list"
  lr_roleNames :: "string list"

record SnapshotApplyPlan =
  pl_Manifest :: SnapshotManifest
  pl_MasterKey :: string
  pl_Instances :: "InstanceMeta list"
  pl_LogicalInputs :: "(string \<times> logicalRestoreInputs) list"
  pl_ExistingKey :: bool
  pl_PulledImages :: "string list"
  pl_ExtractedDir :: string
  pl_Store :: world

section \<open>The checks\<close>

definition SnapshotFormatVersion :: int where "SnapshotFormatVersion = 2"

definition noChangesSuffix :: string where "noChangesSuffix = ''No ODDK state on this host was modified.''"

text \<open>\<open>noChangesError\<close> wraps the refusal, so its marker stays visible.\<close>

fun is_noChangesError :: "goerror \<Rightarrow> bool" where
  "is_noChangesError (Errorf1 a e b) \<longleftrightarrow> b = ''. '' @ noChangesSuffix \<or> is_noChangesError e"
| "is_noChangesError (MarkedError e s) \<longleftrightarrow> is_noChangesError e"
| "is_noChangesError e \<longleftrightarrow> False"

definition appendNoChanges :: "goerror \<Rightarrow> goerror" where
  "appendNoChanges e = (if is_noChangesError e then e else Errorf1 '''' e (''. '' @ noChangesSuffix))"

definition manifestHasPhysicalData :: "SnapshotManifest \<Rightarrow> bool" where
  "manifestHasPhysicalData m = list_ex (\<lambda>e. en_HasData e \<and> entryFormat e = SnapshotFormatPhysical) (mf_Instances m)"

definition checkSnapshotArch :: "string \<Rightarrow> SnapshotManifest \<Rightarrow> goerror option" where
  "checkSnapshotArch goarch m =
     (if \<not> manifestHasPhysicalData m then None
      else if mf_SourceArch m = '''' \<or> mf_SourceArch m = goarch then None
      else Some (Invalidf (Errorf0 (''snapshot holds physical data directories captured on '' @ mf_SourceArch m @ '', but this host is '' @ goarch
             @ ''; physical clusters are not portable across architectures. Restore on a '' @ mf_SourceArch m
             @ '' host, or take a --logical snapshot on the source''))))"

definition daemonIsListening :: "apply_host \<Rightarrow> int \<Rightarrow> bool" where
  "daemonIsListening h port \<longleftrightarrow> port \<noteq> 0 \<and> ah_listening h port"

text \<open>
  The names in the store of this host; a file without the table of instances (\<open>ah_db_unusable\<close>)
  counts as an empty deployment.
\<close>

definition existingInstanceNames :: "apply_host \<Rightarrow> world \<Rightarrow> string list res \<times> world" where
  "existingInstanceNames h w =
     (case sys_call ''stat'' w of (s, w1) \<Rightarrow>
        if \<not> isl s \<and> \<not> ah_db_exists h then (Inr [], w1)
        else (case sys_call ''open'' w1 of
                (Inl e, w2) \<Rightarrow> (Inl (wrap ''open existing store read-only'' e), w2)
              | (Inr _, w2) \<Rightarrow>
                  if \<not> ah_db_exists h
                  then (Inl (wrap ''list existing instances'' (DriverError ''sqlite'')), snd (next_io w2))
                  else if ah_db_unusable h then (Inr [], snd (next_io w2))
                  else (case sql_query (\<lambda>w. order_by (\<lambda>n. n) (map inst_Name (rdbms_instances w))) w2 of
                          (Inl e, w3) \<Rightarrow> (Inl (wrap ''list existing instances'' e), w3)
                        | (Inr ns, w3) \<Rightarrow> (Inr ns, w3))))"

text \<open>A failure answers with the images pulled before it.\<close>

fun pull_images ::
  "apply_host \<Rightarrow> string list \<Rightarrow> SnapshotInstanceEntry list \<Rightarrow> world \<Rightarrow> (string list \<times> goerror option) \<times> world" where
  "pull_images h seen [] w = (([], None), w)"
| "pull_images h seen (e # es) w =
     (if \<not> en_HasData e \<or> en_Image e = '''' \<or> en_Image e \<in> set seen then pull_images h seen es w
      else case CheckImageExists (en_Image e) w of
        (True, w1) \<Rightarrow> pull_images h (en_Image e # seen) es w1
      | (False, w1) \<Rightarrow>
          (case docker_call (\<lambda>w. case ah_pull h (en_Image e) of
                                   Inl err \<Rightarrow> Inl err
                                 | Inr n \<Rightarrow> Inr (w\<lparr>images := (images w)(en_Image e \<mapsto> n)\<rparr>, ())) w1 of
             (Inl err, w2) \<Rightarrow>
               (([], Some (wrap (''instance '' @ quoted (en_Name e) @ '' needs image '' @ en_Image e
                      @ '', which is not present locally and could not be pulled'') err)), w2)
           | (Inr _, w2) \<Rightarrow>
               (case pull_images h (en_Image e # seen) es w2 of
                  ((pulled, r), w3) \<Rightarrow> ((en_Image e # pulled, r), w3))))"

definition ensureImagesPresent ::
  "apply_host \<Rightarrow> SnapshotInstanceEntry list \<Rightarrow> world \<Rightarrow> (string list \<times> goerror option) \<times> world" where
  "ensureImagesPresent h entries w =
     (if \<not> ah_docker h then (([], Some (Errorf0 ''no Docker client available to verify instance images'')), w)
      else pull_images h [] entries w)"

definition checkPhysicalImageMajor :: "apply_host \<Rightarrow> SnapshotInstanceEntry \<Rightarrow> goerror option" where
  "checkPhysicalImageMajor h e =
     (if \<not> en_HasData e \<or> entryFormat e \<noteq> SnapshotFormatPhysical \<or> en_Image e = '''' then None
      else case parseMajorVersion (en_Version e) of
        None \<Rightarrow> None
      | Some recordedMajor \<Rightarrow>
          (case ah_image_major h (en_Image e) of
             None \<Rightarrow> None
           | Some imageMajor \<Rightarrow>
               if imageMajor \<noteq> recordedMajor
               then Some (Invalidf (Errorf0 (''image '' @ en_Image e @ '' now serves PostgreSQL '' @ Itoa imageMajor @ '' but instance ''
                      @ quoted (en_Name e) @ '' was captured on PostgreSQL '' @ en_Version e
                      @ ''; a physical data directory only starts on its own major. Pin the image to the captured major, or restore a --logical snapshot'')))
               else None))"

text \<open>
  \<open>NewStore\<close> opens the snapshot's own copy of the store and writes to it: the migrations (one
  call here, whose result is the schema of the model), the default parameter group and the
  system parameters. Its statements run on the tables of the copy, with the outcomes of this
  run; nothing of this host's store is involved.
\<close>

definition on_copy :: "(world \<Rightarrow> 'r \<times> world) \<Rightarrow> world \<Rightarrow> world \<Rightarrow> ('r \<times> world) \<times> world" where
  "on_copy f snap w =
     (case f (snap\<lparr>io_schedule := io_schedule w\<rparr>) of (r, s) \<Rightarrow> ((r, s), w\<lparr>io_schedule := io_schedule s\<rparr>))"

definition kv_start :: "gotime \<Rightarrow> world \<Rightarrow> goerror option \<times> world" where
  "kv_start now w =
     (case KV_Initialize now NewKVStore w of
        None \<Rightarrow> (Some (DriverError ''panic''), w)
      | Some (e, kv, w1) \<Rightarrow> (e, w1))"

definition NewStore :: "gotime \<Rightarrow> string \<Rightarrow> world \<Rightarrow> world \<Rightarrow> (goerror option \<times> world) \<times> world" where
  "NewStore now masterKey snap w =
     (if length masterKey \<noteq> KeyFileSize
      then ((Some (Errorf0 (''master key must be 32 bytes, got '' @ Itoa (int (length masterKey)))), snap), w)
      else case sys_call ''open'' w of
        (Inl e, w1) \<Rightarrow> ((Some (wrap ''sql.Open'' e), snap), w1)
      | (Inr _, w1) \<Rightarrow>
     (case sys_call ''sqlite'' w1 of
        (Inl e, w2) \<Rightarrow> ((Some (wrap ''set busy_timeout'' e), snap), w2)
      | (Inr _, w2) \<Rightarrow>
     (case sys_call ''migrate'' w2 of
        (Inl e, w3) \<Rightarrow> ((Some (wrap ''migrate'' e), snap), w3)
      | (Inr _, w3) \<Rightarrow>
     (case on_copy (EnsureDefaultParameterGroup now) snap w3 of
        ((Some e, s1), w4) \<Rightarrow> ((Some (wrap ''ensure default parameter group'' e), s1), w4)
      | ((None, s1), w4) \<Rightarrow>
     (case on_copy (kv_start now) s1 w4 of
        ((Some e, s2), w5) \<Rightarrow> ((Some (wrap ''initialize KV store'' e), s2), w5)
      | ((None, s2), w5) \<Rightarrow> ((None, s2), w5))))))"

text \<open>The answer, and the copy as the verification leaves it.\<close>

definition verifyMasterKeyAgainstSnapshot :: "apply_host \<Rightarrow> world \<Rightarrow> string \<Rightarrow> world \<Rightarrow> (goerror option \<times> world) \<times> world" where
  "verifyMasterKeyAgainstSnapshot h snap key w =
     (case NewStore (ah_now h) key snap w of
        ((Some e, s1), w1) \<Rightarrow> ((Some (wrap ''open snapshot store'' e), s1), w1)
      | ((None, s1), w1) \<Rightarrow>
     (case on_copy Instances_List s1 w1 of
        ((Inl e, s2), w2) \<Rightarrow> ((Some (wrap ''read snapshot instances'' e), s2), w2)
      | ((Inr l, s2), w2) \<Rightarrow>
          (case filter (\<lambda>i. inst_Password i \<noteq> '''') l of
             i # _ \<Rightarrow>
               (case ah_dec h key (inst_Password i) of
                  Inl _ \<Rightarrow> ((Some (Invalidf (Errorf0 (''master key mismatch: this key cannot decrypt the snapshot'' @ [quote_char]
                              @ ''s stored credentials. Applying it would create clusters whose postgres password ODDK cannot recover. Nothing was modified''))), s2), w2)
                | Inr _ \<Rightarrow> ((None, s2), w2))
           | [] \<Rightarrow>
               (case on_copy (Notifications_List (ah_dec h key)) s2 w2 of
                  ((Inl e, s3), w3) \<Rightarrow>
                    if errors_Is e ErrConfigUndecryptable
                    then ((Some (Invalidf (Errorf0 (''master key mismatch: this key cannot decrypt the snapshot'' @ [quote_char]
                            @ ''s stored notification credentials. Nothing was modified''))), s3), w3)
                    else ((Some (wrap ''read snapshot notifications'' e), s3), w3)
                | ((Inr _, s3), w3) \<Rightarrow> ((None, s3), w3)))))"

fun loadSnapshotInstances :: "archive \<Rightarrow> SnapshotInstanceEntry list \<Rightarrow> InstanceMeta list res" where
  "loadSnapshotInstances a [] = Inr []"
| "loadSnapshotInstances a (e # es) =
     (case ar_meta a (en_Name e) of
        Inl err \<Rightarrow> Inl (wrap (''instance '' @ en_Name e) err)
      | Inr None \<Rightarrow> Inl (Errorf0 (''snapshot lists instance '' @ en_Name e @ '' but the archive has no '' @ instanceMetadataFile @ '' for it''))
      | Inr (Some meta) \<Rightarrow>
          (case loadSnapshotInstances a es of Inl err \<Rightarrow> Inl err | Inr ms \<Rightarrow> Inr (meta # ms)))"


definition verifyPhysicalStaging :: "archive \<Rightarrow> string \<Rightarrow> goerror option" where
  "verifyPhysicalStaging a name =
     (if physicalBasePath snapshotBasebackupDir (ar_basebackup a name) = None
      then Some (Invalidf (Errorf0 (''snapshot lists instance '' @ name @ '' as a physical capture but the archive has no ''
             @ snapshotBasebackupDir @ ''/'' @ physicalBaseTarZst @ '' for it'')))
      else None)"

definition readLogicalRestoreInputs :: "archive \<Rightarrow> string \<Rightarrow> logicalRestoreInputs res" where
  "readLogicalRestoreInputs a name =
     (case ar_databases a name of
        Inl e \<Rightarrow> Inl e
      | Inr None \<Rightarrow> Inl (Invalidf (Errorf0 (''archive has no '' @ databaseMetadataFile @ '' for instance '' @ name)))
      | Inr (Some dbs) \<Rightarrow>
          (case ar_globals a name of
             Inl e \<Rightarrow> Inl (wrap ''read globals.sql'' e)
           | Inr t \<Rightarrow> Inr \<lparr>lr_databases = dbs, lr_roleNames = roleNamesFromGlobals t\<rparr>))"

fun payload_inputs :: "archive \<Rightarrow> SnapshotInstanceEntry list \<Rightarrow> (string \<times> logicalRestoreInputs) list res" where
  "payload_inputs a [] = Inr []"
| "payload_inputs a (e # es) =
     (if \<not> en_HasData e then payload_inputs a es
      else if entryFormat e = SnapshotFormatPhysical then
        (case verifyPhysicalStaging a (en_Name e) of Some err \<Rightarrow> Inl err | None \<Rightarrow> payload_inputs a es)
      else (case readLogicalRestoreInputs a (en_Name e) of
              Inl err \<Rightarrow> Inl err
            | Inr inputs \<Rightarrow>
                (case payload_inputs a es of Inl err \<Rightarrow> Inl err | Inr l \<Rightarrow> Inr ((en_Name e, inputs) # l))))"

fun checkHostResources :: "apply_host \<Rightarrow> InstanceMeta list \<Rightarrow> goerror option" where
  "checkHostResources h [] = None"
| "checkHostResources h (m # ms) =
     (case ValidateSystemResources (ah_cores h) (ah_memory h) (im_CPUCores m) (im_RAMMB m) of
        Some e \<Rightarrow> Some (Invalidf (Errorf0 (''instance '' @ quoted (im_Name m) @ '' was sized '' @ Itoa (im_CPUCores m) @ '' CPU / ''
             @ Itoa (im_RAMMB m) @ '' MB RAM on the source host, which this host cannot provide: '' @ Error e
             @ ''. Recreate it with smaller resources after restoring, or apply on a larger host'')))
      | None \<Rightarrow> checkHostResources h ms)"

definition entry_of :: "SnapshotManifest \<Rightarrow> string \<Rightarrow> SnapshotInstanceEntry" where
  "entry_of m name = (case map_of (rev (map (\<lambda>e. (en_Name e, e)) (mf_Instances m))) name of
       Some e \<Rightarrow> e
     | None \<Rightarrow> \<lparr>en_Name = '''', en_Version = '''', en_Image = '''', en_HasData = False, en_Format = '''', en_CaptureMode = '''', en_SkipReason = ''''\<rparr>)"

definition logicalInstanceMetas :: "SnapshotManifest \<Rightarrow> InstanceMeta list \<Rightarrow> InstanceMeta list" where
  "logicalInstanceMetas m metas = filter (\<lambda>i. entryFormat (entry_of m (im_Name i)) = SnapshotFormatLogical) metas"

fun checkLocaleProviders :: "archive \<Rightarrow> InstanceMeta list \<Rightarrow> goerror option" where
  "checkLocaleProviders a [] = None"
| "checkLocaleProviders a (m # ms) =
     (case ar_databases a (im_Name m) of
        Inl e \<Rightarrow> Some (wrap (''instance '' @ im_Name m) e)
      | Inr None \<Rightarrow> checkLocaleProviders a ms
      | Inr (Some dbs) \<Rightarrow>
          (case find (\<lambda>db. dm_Name db \<noteq> ''postgres'' \<and> dm_LocProvider db \<noteq> ''c'') dbs of
             Some db \<Rightarrow> Some (Invalidf (Errorf0 (''database '' @ quoted (dm_Name db) @ '' on instance '' @ quoted (im_Name m)
                 @ '' uses locale provider '' @ quoted (dm_LocProvider db)
                 @ ''; snapshot apply only reproduces libc locales, and restoring it would silently change collation. Restore that database manually'')))
           | None \<Rightarrow> checkLocaleProviders a ms))"

fun ports_loop :: "apply_host \<Rightarrow> (int \<times> string) list \<Rightarrow> InstanceMeta list \<Rightarrow> goerror option" where
  "ports_loop h seen [] = None"
| "ports_loop h seen (m # ms) =
     (case map_of seen (im_Port m) of
        Some other \<Rightarrow> Some (Invalidf (Errorf0 (''snapshot is inconsistent: instances '' @ other @ '' and '' @ im_Name m @ '' both use port ''
             @ Itoa (im_Port m) @ ''. Nothing was modified'')))
      | None \<Rightarrow>
          if ah_port_answers h (im_Port m)
          then Some (Conflictf (Errorf0 (''instance '' @ quoted (im_Name m) @ '' needs port '' @ Itoa (im_Port m)
                 @ '' but something already answers on '' @ GatewayIP @ '':'' @ Itoa (im_Port m)
                 @ ''; free it, or destroy whatever holds it. Nothing was modified'')))
          else ports_loop h ((im_Port m, im_Name m) # seen) ms)"

definition checkPortsAvailable :: "apply_host \<Rightarrow> InstanceMeta list \<Rightarrow> goerror option" where
  "checkPortsAvailable h ms = ports_loop h [] ms"

section \<open>Extraction\<close>

text \<open>
  \<open>filepath.Rel\<close> answers a path that leaves the destination, or an error, exactly when the cleaned
  target is neither the cleaned destination nor below it (for a destination that is not the
  root or the current directory).
\<close>

definition inside :: "string \<Rightarrow> string \<Rightarrow> bool" where
  "inside dir p \<longleftrightarrow> HasPrefix p (Clean dir @ ''/'')"

definition escapes :: "string \<Rightarrow> string \<Rightarrow> bool" where
  "escapes destDir filePath \<longleftrightarrow> filePath \<noteq> Clean destDir \<and> \<not> inside destDir filePath"

definition write_file :: "string \<Rightarrow> int \<Rightarrow> world \<Rightarrow> goerror option \<times> world" where
  "write_file p n w =
     (case next_io w of (oc, w1) \<Rightarrow>
        (case oc of
           Done \<Rightarrow> (None, set_file p (Some n) w1)
         | Refused \<Rightarrow> (Some (DriverError ''write''), w1)
         | Lost \<Rightarrow> (Some (DriverError ''write''), set_file p (Some n) w1)))"

definition handleFile :: "string \<Rightarrow> archive_entry \<Rightarrow> world \<Rightarrow> goerror option \<times> world" where
  "handleFile destDir f w =
     (if ae_Name f = '''' then (None, w)
      else if \<not> ae_IsDir f \<and> \<not> ae_IsRegular f
      then (Some (Errorf0 (''unsupported archive entry '' @ quoted (ae_Name f))), w)
      else
     (let filePath = Join2 destDir (ae_Name f) in
      if escapes destDir filePath then (Some (Errorf0 (''invalid archive entry path: '' @ ae_Name f)), w)
      else case sys_call ''mkdir'' w of
        (Inl e, w1) \<Rightarrow> (Some (if ae_IsDir f then e else wrap ''failed to create parent directory'' e), w1)
      | (Inr _, w1) \<Rightarrow>
          if ae_IsDir f then (None, w1)
          else if filePath = Clean destDir
          then (Some (wrap (''failed to create file '' @ filePath) (DriverError ''is a directory'')), w1)
          else
     (case write_file filePath 0 w1 of
        (Some e, w2) \<Rightarrow> (Some (wrap (''failed to create file '' @ filePath) e), w2)
      | (None, w2) \<Rightarrow>
     (case sys_call ''open'' w2 of
        (Inl e, w3) \<Rightarrow> (Some (wrap ''open file'' e), w3)
      | (Inr _, w3) \<Rightarrow>
     (case write_file filePath (ae_Size f) w3 of
        (Some e, w4) \<Rightarrow> (Some (wrap (''extract '' @ ae_Name f) e), w4)
      | (None, w4) \<Rightarrow> (None, w4))))))"

fun extract_entries :: "string \<Rightarrow> archive_entry list \<Rightarrow> world \<Rightarrow> goerror option \<times> world" where
  "extract_entries destDir [] w = (None, w)"
| "extract_entries destDir (f # fs) w =
     (case handleFile destDir f w of
        (Some e, w1) \<Rightarrow> (Some e, w1)
      | (None, w1) \<Rightarrow> extract_entries destDir fs w1)"

text \<open>\<open>ExtractTarZstd\<close>: verified first, then extracted from the same handle, and compared at the end.\<close>

definition ExtractTarZstd :: "archive \<Rightarrow> string \<Rightarrow> string \<Rightarrow> world \<Rightarrow> goerror option \<times> world" where
  "ExtractTarZstd a archivePath destDir w =
     (case sys_call ''open'' w of
        (Inl e, w1) \<Rightarrow> (Some (wrap ''open archive'' e), w1)
      | (Inr _, w1) \<Rightarrow>
     (case ar_verify a of
        Some e \<Rightarrow> (Some (wrap (''refusing to extract '' @ Base archivePath) e), w1)
      | None \<Rightarrow>
     (case sys_call ''mkdir'' w1 of
        (Inl e, w2) \<Rightarrow> (Some (wrap ''failed to create destination directory'' e), w2)
      | (Inr _, w2) \<Rightarrow>
     (case sys_call ''seek'' w2 of
        (Inl e, w3) \<Rightarrow> (Some (wrap ''rewind archive'' e), w3)
      | (Inr _, w3) \<Rightarrow>
     (case extract_entries destDir (ar_entries a) w3 of
        (Some e, w4) \<Rightarrow> (Some (wrap ''failed to extract archive'' e), w4)
      | (None, w4) \<Rightarrow> (ar_tail a, w4))))))"

text \<open>The temporary directory below the backup directory, and its removal (whose error is ignored).\<close>

definition staging_dir :: "apply_host \<Rightarrow> SnapshotApplyParams \<Rightarrow> string" where
  "staging_dir h ps = ap_BackupDir ps @ ''/.snapshot-apply-'' @ ah_temp h"

definition os_RemoveAll :: "string \<Rightarrow> world \<Rightarrow> goerror option \<times> world" where
  "os_RemoveAll dir w =
     (case next_io w of (oc, w1) \<Rightarrow>
        let gone = w1\<lparr>files := (\<lambda>p. if inside dir p then None else files w1 p)\<rparr> in
        (case oc of
           Done \<Rightarrow> (None, gone)
         | Refused \<Rightarrow> (Some (DriverError ''unlink''), w1)
         | Lost \<Rightarrow> (Some (DriverError ''unlink''), gone)))"

section \<open>Preflight\<close>

text \<open>
  The report of a refusal ends with the failed check; the plan of a success carries what the
  rebuild needs. The extracted tree is removed again on every refusal.
\<close>

type_synonym preflight_result = "(PreflightCheck list \<times> goerror) + (PreflightCheck list \<times> SnapshotApplyPlan)"

definition pf_fail :: "string \<Rightarrow> PreflightCheck list \<Rightarrow> goerror \<Rightarrow> preflight_result" where
  "pf_fail label checks e = Inl (checks @ [\<lparr>pc_Label = label, pc_OK = False\<rparr>], appendNoChanges e)"

definition pf_pass :: "string \<Rightarrow> PreflightCheck list \<Rightarrow> PreflightCheck list" where
  "pf_pass label checks = checks @ [\<lparr>pc_Label = label, pc_OK = True\<rparr>]"

text \<open>Steps 6 to 10: what the extracted tree must hold.\<close>

definition check_contents ::
  "apply_host \<Rightarrow> archive \<Rightarrow> string \<Rightarrow> SnapshotManifest \<Rightarrow> bool \<Rightarrow> string list \<Rightarrow> PreflightCheck list \<Rightarrow> world \<Rightarrow> preflight_result \<times> world" where
  "check_contents h a dir m hasKey pulled cs w =
     (case ah_key h of
        Inl e \<Rightarrow> (pf_fail ''Master key decrypts instance credentials'' cs e, w)
      | Inr key \<Rightarrow>
     (case verifyMasterKeyAgainstSnapshot h (ar_store a) key w of
        ((Some e, snap), w1) \<Rightarrow> (pf_fail ''Master key decrypts instance credentials'' cs e, w1)
      | ((None, snap), w1) \<Rightarrow>
          let cs1 = pf_pass ''Master key decrypts instance credentials'' cs; readable = ''Instance configuration is readable'' in
     (case loadSnapshotInstances a (mf_Instances m) of
        Inl e \<Rightarrow> (pf_fail readable cs1 e, w1)
      | Inr metas \<Rightarrow>
     (case payload_inputs a (mf_Instances m) of
        Inl e \<Rightarrow> (pf_fail readable cs1 e, w1)
      | Inr inputs \<Rightarrow>
     (case checkHostResources h metas of
        Some e \<Rightarrow> (pf_fail ''Host can run the recorded instance sizes'' cs1 e, w1)
      | None \<Rightarrow>
          let cs2 = pf_pass ''Host can run the recorded instance sizes'' cs1 in
     (case checkLocaleProviders a (logicalInstanceMetas m metas) of
        Some e \<Rightarrow> (pf_fail ''Database locales can be reproduced'' cs2 e, w1)
      | None \<Rightarrow>
          let cs3 = pf_pass ''Database locales can be reproduced'' cs2 in
     (case checkPortsAvailable h metas of
        Some e \<Rightarrow> (pf_fail ''Instance ports are available'' cs3 e, w1)
      | None \<Rightarrow>
          (Inr (pf_pass ''Instance ports are available'' cs3,
                \<lparr>pl_Manifest = m, pl_MasterKey = key, pl_Instances = metas, pl_LogicalInputs = inputs,
                 pl_ExistingKey = hasKey, pl_PulledImages = pulled, pl_ExtractedDir = dir, pl_Store = snap\<rparr>), w1))))))))"

definition check_image_majors :: "apply_host \<Rightarrow> SnapshotManifest \<Rightarrow> goerror option" where
  "check_image_majors h m =
     (if manifestHasPhysicalData m
      then (case List.map_filter (checkPhysicalImageMajor h) (mf_Instances m) of [] \<Rightarrow> None | e # _ \<Rightarrow> Some e)
      else None)"

definition extract_and_check ::
  "apply_host \<Rightarrow> archive \<Rightarrow> SnapshotApplyParams \<Rightarrow> SnapshotManifest \<Rightarrow> bool \<Rightarrow> string list \<Rightarrow> PreflightCheck list \<Rightarrow> world \<Rightarrow> preflight_result \<times> world" where
  "extract_and_check h a ps m hasKey pulled cs w =
     (let dir = staging_dir h ps in
      case sys_call ''mkdir'' w of
        (Inl e, w1) \<Rightarrow> (pf_fail ''Snapshot extracted'' cs (wrap ''create staging dir'' e), w1)
      | (Inr _, w1) \<Rightarrow>
     (case (case ExtractTarZstd a (ap_ArchivePath ps) dir w1 of
              (Some e, w2) \<Rightarrow> (pf_fail ''Snapshot extracted'' cs (wrap ''extract snapshot'' e), w2)
            | (None, w2) \<Rightarrow>
                (case os_Stat (Join2 dir snapshotStoreFile) w2 of
                   (StatOK n, w3) \<Rightarrow> check_contents h a dir m hasKey pulled (pf_pass ''Snapshot extracted'' cs) w3
                 | (StatNotExist, w3) \<Rightarrow>
                     (pf_fail ''Snapshot extracted'' cs (wrap (''snapshot archive has no '' @ snapshotStoreFile) (Sentinel ErrNotExist)), w3)
                 | (StatError, w3) \<Rightarrow>
                     (pf_fail ''Snapshot extracted'' cs (wrap (''snapshot archive has no '' @ snapshotStoreFile) (DriverError ''stat'')), w3))) of
        (Inl refusal, w4) \<Rightarrow> (Inl refusal, snd (os_RemoveAll dir w4))
      | (Inr plan, w4) \<Rightarrow> (Inr plan, w4)))"

definition PreflightSnapshotApply :: "apply_host \<Rightarrow> archive \<Rightarrow> SnapshotApplyParams \<Rightarrow> world \<Rightarrow> preflight_result \<times> world" where
  "PreflightSnapshotApply h a ps w =
     (case ar_manifest a of
        Inl e \<Rightarrow> (pf_fail ''Snapshot is readable'' [] (wrap ''cannot read snapshot manifest'' e), w)
      | Inr m \<Rightarrow>
          if mf_FormatVersion m > SnapshotFormatVersion
          then (pf_fail ''Snapshot format is supported'' [] (Invalidf (Errorf0 (''snapshot uses archive format v'' @ Itoa (mf_FormatVersion m)
                  @ '' but this ODDK understands only v'' @ Itoa SnapshotFormatVersion @ ''; upgrade ODDK''))), w)
          else if isVersionNewer (mf_OddkVersion m) (ah_version h) = Some True
          then (pf_fail ''Snapshot version is supported'' [] (Invalidf (Errorf0 (''snapshot was created by oddk '' @ mf_OddkVersion m
                  @ '' but this binary is '' @ ah_version h @ ''; upgrade ODDK to '' @ mf_OddkVersion m @ '' or later''))), w)
          else
     (let cs = pf_pass ''Snapshot version is supported'' []; arch = ''Snapshot architecture matches this host'' in
      case checkSnapshotArch (ah_arch h) m of
        Some e \<Rightarrow> (pf_fail arch cs e, w)
      | None \<Rightarrow>
          let cs1 = (if manifestHasPhysicalData m then pf_pass arch cs else cs) in
          if daemonIsListening h (ap_DaemonPort ps)
          then (pf_fail ''Daemon is not running'' cs1 (Conflictf (Errorf0 (''the ODDK daemon appears to be running on 127.0.0.1:''
                  @ Itoa (ap_DaemonPort ps) @ ''; stop it first (systemctl stop oddk)''))), w)
          else
     (let cs2 = pf_pass ''Daemon is not running'' cs1; empty = ''Target deployment is empty'' in
      case existingInstanceNames h w of
        (Inl e, w1) \<Rightarrow> (pf_fail empty cs2 e, w1)
      | (Inr (n # ns), w1) \<Rightarrow>
          (pf_fail empty cs2 (Conflictf (Errorf0 (''snapshot apply replaces oddk.db and master.key wholesale, which would leave the existing instances (''
             @ JoinWith '', '' (n # ns) @ '') with undecryptable stored passwords. Destroy them first (''
             @ [quote_char] @ ''oddk instance destroy <name> --force'' @ [quote_char]
             @ '' with the daemon running), or apply to a fresh host. If a previous apply failed part-way and these instances have no containers, remove ''
             @ Join2 (ap_DataDir ps) ''oddk.db'' @ '' and retry''))), w1)
      | (Inr [], w1) \<Rightarrow>
     (case sys_call ''stat'' w1 of (s, w2) \<Rightarrow>
        let cs3 = pf_pass empty cs2; hasKey = (\<not> isl s \<and> ah_key_exists h) in
     (case ensureImagesPresent h (mf_Instances m) w2 of
        ((_, Some e), w3) \<Rightarrow> (pf_fail ''Instance images are available'' cs3 e, w3)
      | ((pulled, None), w3) \<Rightarrow>
          let cs4 = pf_pass ''Instance images are available'' cs3; majors = ''Images match the recorded PostgreSQL majors'' in
     (case check_image_majors h m of
        Some e \<Rightarrow> (pf_fail majors cs4 e, w3)
      | None \<Rightarrow> extract_and_check h a ps m hasKey pulled (if manifestHasPhysicalData m then pf_pass majors cs4 else cs4) w3))))))"


section \<open>What preflight leaves alone\<close>

text \<open>
  Everything but the images the engine holds, for preflight may pull, and the files below its
  own staging directory.
\<close>

definition host_untouched :: "string \<Rightarrow> world \<Rightarrow> world \<Rightarrow> bool" where
  "host_untouched dir w w' \<longleftrightarrow> w'\<lparr>io_schedule := io_schedule w, images := images w, files := files w\<rparr> = w
     \<and> (\<forall>p. \<not> inside dir p \<longrightarrow> files w' p = files w p)"

lemma host_untouched_io: "same_but_io w w' \<Longrightarrow> host_untouched dir w w'"
  unfolding same_but_io_def host_untouched_def by (cases w; cases w') simp

lemma host_untouched_trans: "host_untouched dir u v \<Longrightarrow> host_untouched dir v w \<Longrightarrow> host_untouched dir u w"
  unfolding host_untouched_def by (cases u; cases v; cases w) simp

context keeps
begin

lemma branch_list: "R (snd n1) \<Longrightarrow> (\<And>x xs. R (snd (n2 x xs))) \<Longrightarrow> R (snd (case l of [] \<Rightarrow> n1 | x # xs \<Rightarrow> n2 x xs))"
  by (cases l) simp_all

lemma bind_copy:
  "R (snd p) \<Longrightarrow> (\<And>a s b. R b \<Longrightarrow> R (snd (f a s b))) \<Longrightarrow> R (snd (case p of ((a, s), b) \<Rightarrow> f a s b))"
  by (cases p) (simp add: case_prod_beta)

lemma branch_stat:
  "(\<And>n. R (snd (s1 n))) \<Longrightarrow> R (snd s2) \<Longrightarrow> R (snd s3) \<Longrightarrow> R (snd (case x of StatOK n \<Rightarrow> s1 n | StatNotExist \<Rightarrow> s2 | StatError \<Rightarrow> s3))"
  by (cases x) simp_all

end

interpretation hu: keeps "host_untouched dir u" for dir u .

lemma quiet_exists [quiet]: "same_but_io u w \<Longrightarrow> same_but_io u (snd (CheckImageExists n w))"
  by (erule quietI[rotated]) (rule client_reads_same(1))

lemma quiet_next [quiet]: "same_but_io u w \<Longrightarrow> same_but_io u (snd (next_io w))"
  by (erule quietI[rotated]) (rule next_io_same)

lemma quiet_on_copy [quiet]: "same_but_io u w \<Longrightarrow> same_but_io u (snd (on_copy f snap w))"
  by (auto simp: on_copy_def same_but_io_def split: prod.splits)

lemma quiet_NewStore [quiet]: "same_but_io u w \<Longrightarrow> same_but_io u (snd (NewStore now key snap w))"
  unfolding NewStore_def
  by (assumption | rule quiet | rule qt.bind_copy | rule qt.bind | rule qt.branch)+

lemma quiet_existing [quiet]: "same_but_io u w \<Longrightarrow> same_but_io u (snd (existingInstanceNames h w))"
  unfolding existingInstanceNames_def
  by (assumption | rule quiet | rule qt.bind | rule qt.branch)+

lemma quiet_verify_key [quiet]: "same_but_io u w \<Longrightarrow> same_but_io u (snd (verifyMasterKeyAgainstSnapshot h snap key w))"
  unfolding verifyMasterKeyAgainstSnapshot_def
  by (assumption | rule quiet | rule qt.bind_copy | rule qt.bind | rule qt.branch | rule qt.branch_list)+

lemma quiet_contents [quiet]: "same_but_io u w \<Longrightarrow> same_but_io u (snd (check_contents h a dir m k pulled cs w))"
  unfolding check_contents_def Let_def
  by (assumption | rule quiet | rule qt.bind_copy | rule qt.bind | rule qt.branch)+

lemma untouched_calls:
  "host_untouched dir u w \<Longrightarrow> host_untouched dir u (snd (sys_call m w))"
  "host_untouched dir u w \<Longrightarrow> host_untouched dir u (snd (os_Stat p w))"
  "host_untouched dir u w \<Longrightarrow> host_untouched dir u (snd (CheckImageExists n w))"
  "host_untouched dir u w \<Longrightarrow> host_untouched dir u (snd (existingInstanceNames h w))"
  "host_untouched dir u w \<Longrightarrow> host_untouched dir u (snd (check_contents h a d mf k pulled cs w))"
  by (erule host_untouched_trans, rule host_untouched_io, rule quiet, rule same_but_io_refl)+

lemma untouched_pull:
  assumes "host_untouched dir u w"
  shows "host_untouched dir u (snd (docker_call (\<lambda>w. case p of Inl err \<Rightarrow> Inl err | Inr n \<Rightarrow> Inr (w\<lparr>images := (images w)(i \<mapsto> n)\<rparr>, ())) w))"
    (is "host_untouched dir u (snd (docker_call ?req w))")
proof -
  obtain r w' where d: "docker_call ?req w = (r, w')" by fastforce
  have up: "host_untouched dir v (v\<lparr>images := m\<rparr>)" for v m unfolding host_untouched_def by (cases v) simp
  have "host_untouched dir w w'" using d
    by (rule docker_call_cases) (auto simp: host_untouched_io split: sum.splits intro: host_untouched_trans[OF host_untouched_io up])
  then show ?thesis using host_untouched_trans[OF assms] d by simp
qed

lemma untouched_pulls: "host_untouched dir u w \<Longrightarrow> host_untouched dir u (snd (pull_images h seen es w))"
proof (induction es arbitrary: seen w)
  case (Cons e es)
  obtain b w1 where 1: "CheckImageExists (en_Image e) w = (b, w1)" by fastforce
  have u1: "host_untouched dir u w1" using untouched_calls(3)[OF Cons.prems, of "en_Image e"] 1 by simp
  show ?case using Cons.IH[OF Cons.prems] Cons.IH[OF u1] untouched_pull[OF u1, where p = "ah_pull h (en_Image e)" and i = "en_Image e"] 1
    by (cases b) (auto split: prod.splits sum.splits dest: Cons.IH, metis Cons.IH snd_conv)
qed simp

lemma untouched_images: "host_untouched dir u w \<Longrightarrow> host_untouched dir u (snd (ensureImagesPresent h es w))"
  by (simp add: ensureImagesPresent_def untouched_pulls)

lemma untouched_file: "inside dir p \<Longrightarrow> host_untouched dir w (w\<lparr>files := (files w)(p := n)\<rparr>)"
  unfolding host_untouched_def by (cases w) auto

lemma untouched_write: "inside dir p \<Longrightarrow> host_untouched dir u w \<Longrightarrow> host_untouched dir u (snd (write_file p n w))"
  using host_untouched_trans host_untouched_io[OF next_io_same[of w]] untouched_file
  by (auto simp: write_file_def set_file_def split: prod.splits outcome.splits) blast+

lemma untouched_removed: "host_untouched dir u w \<Longrightarrow> host_untouched dir u (snd (os_RemoveAll dir w))"
proof -
  assume u: "host_untouched dir u w"
  obtain oc w1 where n: "next_io w = (oc, w1)" by fastforce
  have u1: "host_untouched dir u w1" using host_untouched_trans[OF u host_untouched_io[OF next_io_same[OF n]]] .
  have "host_untouched dir w1 (w1\<lparr>files := (\<lambda>p. if inside dir p then None else files w1 p)\<rparr>)"
    unfolding host_untouched_def by (cases w1) auto
  then show ?thesis using u1 host_untouched_trans[OF u1] n by (cases oc) (simp_all add: os_RemoveAll_def Let_def)
qed

text \<open>No entry of an archive leaves the destination directory.\<close>

lemma untouched_handleFile: "host_untouched dir u w \<Longrightarrow> host_untouched dir u (snd (handleFile dir f w))"
proof -
  assume u: "host_untouched dir u w"
  let ?p = "Join2 dir (ae_Name f)"
  show ?thesis
  proof (cases "inside dir ?p")
    case True
    show ?thesis
      unfolding handleFile_def Let_def
      by (rule u | assumption | rule True | rule untouched_calls | rule untouched_write[OF True] | rule hu.bind | rule hu.branch)+
  next
    case False
    then show ?thesis using u untouched_calls(1)[OF u, of "''mkdir''"]
      by (auto simp: handleFile_def Let_def escapes_def split: prod.splits sum.splits)
  qed
qed

lemma untouched_entries: "host_untouched dir u w \<Longrightarrow> host_untouched dir u (snd (extract_entries dir fs w))"
proof (induction fs arbitrary: w)
  case (Cons f fs)
  obtain e w1 where "handleFile dir f w = (e, w1)" by fastforce
  then show ?case using Cons.IH[of w1] untouched_handleFile[OF Cons.prems, of f] by (cases e) simp_all
qed simp

lemma untouched_extraction: "host_untouched dir u w \<Longrightarrow> host_untouched dir u (snd (ExtractTarZstd a path dir w))"
  unfolding ExtractTarZstd_def
  by (assumption | rule untouched_calls | rule untouched_entries | rule hu.bind | rule hu.branch)+

lemma untouched_extract:
  "host_untouched (staging_dir h ps) u w \<Longrightarrow> host_untouched (staging_dir h ps) u (snd (extract_and_check h a ps m k pulled cs w))"
  unfolding extract_and_check_def Let_def
  by (assumption | rule untouched_calls | rule untouched_extraction | rule untouched_removed | rule hu.bind | rule hu.branch | rule hu.branch_stat)+

lemma PreflightSnapshotApply_untouched:
  "host_untouched (staging_dir h ps) u w \<Longrightarrow> host_untouched (staging_dir h ps) u (snd (PreflightSnapshotApply h a ps w))"
  unfolding PreflightSnapshotApply_def Let_def
  by (assumption | rule untouched_calls | rule untouched_images | rule untouched_extract | rule hu.bind | rule hu.branch | rule hu.branch_list)+

text \<open>A refusal that comes after the directory was made ends with its removal.\<close>

lemma refused_removed:
  assumes "extract_and_check h a ps m k pulled cs w = (Inl x, w')"
  shows "files w' = files w \<or> (\<exists>v. w' = snd (os_RemoveAll (staging_dir h ps) v))"
proof -
  obtain r w1 where 1: "sys_call ''mkdir'' w = (r, w1)" by fastforce
  have "files w1 = files w" using sys_call_same[OF 1] by (simp add: same_but_io_fields)
  then show ?thesis using assms 1 by (auto simp: extract_and_check_def Let_def split: sum.splits prod.splits)
qed

section \<open>The copy of the store\<close>

text \<open>
  Opening the copy writes its parameters, never its instances or its notifications; and where
  nothing fails before, nothing is left to fail after.
\<close>

definition copy_step :: "world \<Rightarrow> world \<Rightarrow> bool" where
  "copy_step s s' \<longleftrightarrow> rdbms_instances s' = rdbms_instances s \<and> notifications s' = notifications s
     \<and> (io_schedule s = [] \<longrightarrow> io_schedule s' = [])"

lemma copy_step_refl: "copy_step s s"
  by (simp add: copy_step_def)

lemma copy_step_trans: "copy_step a b \<Longrightarrow> copy_step b c \<Longrightarrow> copy_step a c"
  by (simp add: copy_step_def)

lemma copy_next: "next_io s = (oc, s') \<Longrightarrow> copy_step s s'"
  using next_io_same[of s oc s'] by (auto simp: copy_step_def same_but_io_fields next_io_def split: list.splits)

lemma copy_query: "sql_query q s = (r, s') \<Longrightarrow> copy_step s s'"
  by (auto simp: sql_query_def dest: copy_next split: prod.splits if_splits)

lemma copy_exec:
  assumes "sql_exec st s = (r, s')" "\<And>v v' n. st v = Inr (v', n) \<Longrightarrow> copy_step v v'"
  shows "copy_step s s'"
proof -
  obtain oc s1 where n: "next_io s = (oc, s1)" by fastforce
  show ?thesis using assms(1) n copy_next[OF n] copy_step_trans[OF copy_next[OF n] assms(2)]
    by (cases oc; cases "st s1") (auto simp: sql_exec_def)
qed

lemma copy_tx: "tx_step s = (r, s') \<Longrightarrow> copy_step s s'"
  unfolding tx_step_def by (rule copy_query)

lemma copy_insert: "insert_params now g ps table s = (r, s') \<Longrightarrow> copy_step s s'"
proof (induction ps arbitrary: table s)
  case (Cons p ps)
  obtain x s1 where t: "tx_step s = (x, s1)" by fastforce
  show ?case using Cons t copy_tx[OF t] copy_step_trans[OF copy_tx[OF t]] by (cases x) (auto split: if_splits)
qed (simp add: copy_step_refl)

lemma copy_GroupExists: "GroupExists g s = (r, s') \<Longrightarrow> copy_step s s'"
  by (auto simp: GroupExists_def dest: copy_query split: prod.splits sum.splits)

lemma copy_commit: "sql_exec (\<lambda>w. Inr (w\<lparr>parameters := table\<rparr>, 0)) s = (r, s') \<Longrightarrow> copy_step s s'"
  by (rule copy_exec) (auto simp: copy_step_def)

lemma copy_CreateGroup: "CreateGroup now g ps s = (r, s') \<Longrightarrow> copy_step s s'"
proof -
  assume c: "CreateGroup now g ps s = (r, s')"
  obtain x1 s1 where 1: "GroupExists g s = (x1, s1)" by fastforce
  obtain x2 s2 where 2: "tx_step s1 = (x2, s2)" by fastforce
  obtain x3 s3 where 3: "insert_params now g ps (parameters s2) s2 = (x3, s3)" by fastforce
  note steps = copy_GroupExists[OF 1] copy_tx[OF 2] copy_insert[OF 3]
  have to: "copy_step s s1" "copy_step s s2" "copy_step s s3" using steps copy_step_trans by blast+
  have "s' \<in> {s, s1, s2, s3} \<or> (\<exists>table q. sql_exec (\<lambda>w. Inr (w\<lparr>parameters := table\<rparr>, 0)) s3 = (q, s'))"
    using c 1 2 3 by (auto simp: CreateGroup_def split: if_splits prod.splits sum.splits bool.splits)
  then show ?thesis using to copy_step_refl copy_step_trans[OF to(3) copy_commit] by blast
qed

lemma copy_defaults: "EnsureDefaultParameterGroup now s = (r, s') \<Longrightarrow> copy_step s s'"
  using copy_GroupExists copy_CreateGroup copy_step_trans
  by (auto simp: EnsureDefaultParameterGroup_def split: prod.splits sum.splits bool.splits) blast+

lemma copy_db:
  "dbGet k s = (r, s') \<Longrightarrow> copy_step s s'" "dbSet t k v s = (e, s') \<Longrightarrow> copy_step s s'" "KV_GetAll s = (rs, s') \<Longrightarrow> copy_step s s'"
proof -
  show "copy_step s s'" if "dbGet k s = (r, s')"
    using that by (auto simp: dbGet_def dest: copy_query split: prod.splits sum.splits option.splits)
  show "copy_step s s'" if d: "dbSet t k v s = (e, s')"
  proof -
    obtain q where "sql_exec (upsert_stmt t k v) s = (q, s')" using d by (auto simp: dbSet_def split: prod.splits sum.splits)
    then show ?thesis by (rule copy_exec) (auto simp: upsert_stmt_def copy_step_def)
  qed
  show "copy_step s s'" if "KV_GetAll s = (rs, s')"
    using that by (auto simp: KV_GetAll_def dest: copy_query split: prod.splits sum.splits)
qed

lemma copy_kv:
  "KV_ExistsRaw k kv s = (b, kv', s') \<Longrightarrow> copy_step s s'" "KV_SetInt t k n kv s = Some (e, kv', s') \<Longrightarrow> copy_step s s'"
  "KV_Set t k v kv s = Some (e, kv', s') \<Longrightarrow> copy_step s s'" "loadCache kv s = (e, kv', s') \<Longrightarrow> copy_step s s'"
  by (auto simp: KV_ExistsRaw_def KV_GetRaw_def KV_SetInt_def KV_Set_def loadCache_def copy_step_refl dest: copy_db
      split: prod.splits sum.splits option.splits if_splits)

lemma copy_ints: "ensure_ints t ds kv s = Some (e, kv', s') \<Longrightarrow> copy_step s s'"
proof (induction ds arbitrary: kv s)
  case (Cons x ds)
  obtain k d where x: "x = (k, d)" by fastforce
  obtain there kv1 s1 where 1: "KV_ExistsRaw k kv s = (there, kv1, s1)" by (metis surj_pair)
  show ?case
  proof (cases there)
    case True
    then show ?thesis using Cons x 1 copy_step_trans[OF copy_kv(1)[OF 1]] by auto
  next
    case False
    then obtain e2 kv2 s2 where 2: "KV_SetInt t k d kv1 s1 = Some (e2, kv2, s2)" using Cons.prems x 1 by (auto split: option.splits)
    have to: "copy_step s s2" using copy_step_trans[OF copy_kv(1)[OF 1] copy_kv(2)[OF 2]] .
    have "s' = s2 \<or> ensure_ints t ds kv2 s2 = Some (e, kv', s')" using Cons.prems x 1 2 False by (cases e2) auto
    then show ?thesis using to copy_step_trans[OF to Cons.IH] by blast
  qed
qed (simp add: copy_step_refl)

lemma copy_start: "kv_start t s = (e, s') \<Longrightarrow> copy_step s s'"
proof -
  assume i: "kv_start t s = (e, s')"
  obtain e1 kv1 s1 where 1: "loadCache NewKVStore s = (e1, kv1, s1)" by (metis surj_pair)
  obtain there kv2 s2 where 2: "KV_ExistsRaw KeySystemDisplayName (kv1\<lparr>initialized := True\<rparr>) s1 = (there, kv2, s2)" by (metis surj_pair)
  have c: "copy_step s s1" "copy_step s s2" using copy_kv(4)[OF 1] copy_kv(1)[OF 2] copy_step_trans by blast+
  have "copy_step s s3" if "ensure_ints t systemIntDefaults kv2 s2 = Some (e3, kv3, s3)" for e3 kv3 s3
    using copy_step_trans[OF c(2) copy_ints[OF that]] .
  moreover have "copy_step s s3" if "KV_Set t KeySystemDisplayName '''' kv2 s2 = Some (e3, kv3, s3)" for e3 kv3 s3
    using copy_step_trans[OF c(2) copy_kv(3)[OF that]] .
  moreover from this have "copy_step s s4" if "KV_Set t KeySystemDisplayName '''' kv2 s2 = Some (e3, kv3, s3)"
    "ensure_ints t systemIntDefaults kv3 s3 = Some (e4, kv4, s4)" for e3 kv3 s3 e4 kv4 s4
    using copy_step_trans copy_ints that by blast
  ultimately show ?thesis using i 1 2 c
    by (auto simp: kv_start_def KV_Initialize_def EnsureSystemDefaults_def copy_step_refl split: option.splits if_splits)
qed

lemma on_copy_step:
  assumes "on_copy f snap w = ((r, s), w')" "\<And>v r v'. f v = (r, v') \<Longrightarrow> copy_step v v'"
  shows "rdbms_instances s = rdbms_instances snap" "notifications s = notifications snap" "io_schedule w = [] \<Longrightarrow> io_schedule w' = []"
  using assms(1) assms(2)[of "snap\<lparr>io_schedule := io_schedule w\<rparr>"] by (auto simp: on_copy_def copy_step_def split: prod.splits)

lemma sys_call_step: "sys_call m w = (r, w') \<Longrightarrow> io_schedule w = [] \<Longrightarrow> r = Inr () \<and> w' = w"
  by (simp add: sys_call_calm)

lemma NewStore_copy:
  assumes "NewStore now key snap w = ((e, s), w')"
  shows "rdbms_instances s = rdbms_instances snap" "notifications s = notifications snap" "io_schedule w = [] \<Longrightarrow> io_schedule w' = []"
proof -
  obtain r1 w1 where 1: "sys_call ''open'' w = (r1, w1)" by fastforce
  obtain r2 w2 where 2: "sys_call ''sqlite'' w1 = (r2, w2)" by fastforce
  obtain r3 w3 where 3: "sys_call ''migrate'' w2 = (r3, w3)" by fastforce
  obtain e4 s4 w4 where 4: "on_copy (EnsureDefaultParameterGroup now) snap w3 = ((e4, s4), w4)" by (metis surj_pair)
  obtain e5 s5 w5 where 5: "on_copy (kv_start now) s4 w4 = ((e5, s5), w5)" by (metis surj_pair)
  note c4 = on_copy_step[OF 4 copy_defaults] and c5 = on_copy_step[OF 5 copy_start]
  have "s \<in> {snap, s4, s5} \<and> w' \<in> {w, w1, w2, w3, w4, w5}"
    using assms 1 2 3 4 5 by (auto simp: NewStore_def split: if_splits sum.splits option.splits)
  then show "rdbms_instances s = rdbms_instances snap" "notifications s = notifications snap"
    using c4(1,2) c5(1,2) by auto
  show "io_schedule w' = []" if io: "io_schedule w = []"
  proof -
    have "w1 = w" "w2 = w" "w3 = w" using sys_call_step 1 2 3 io by metis+
    then show ?thesis using \<open>s \<in> {snap, s4, s5} \<and> w' \<in> {w, w1, w2, w3, w4, w5}\<close> c4(3) c5(3) io by auto
  qed
qed

lemma Instances_List_copy:
  assumes "on_copy Instances_List snap w = ((r, s), w')"
  shows "notifications s = notifications snap" "r = Inr l \<Longrightarrow> l = rdbms_instances snap" "io_schedule w = [] \<Longrightarrow> r = Inr (rdbms_instances snap) \<and> io_schedule w' = []"
proof -
  have c: "Instances_List v = (x, v') \<Longrightarrow> copy_step v v'" for v x v'
    by (auto simp: Instances_List_def dest: copy_query split: prod.splits sum.splits)
  show "notifications s = notifications snap" using on_copy_step(2)[OF assms c] .
  show "l = rdbms_instances snap" if "r = Inr l"
    using assms that by (auto simp: on_copy_def Instances_List_def sql_query_def next_io_def split: prod.splits sum.splits if_splits list.splits)
  show "r = Inr (rdbms_instances snap) \<and> io_schedule w' = []" if "io_schedule w = []"
    using assms that by (auto simp: on_copy_def Instances_List_def calm_primitives)
qed

lemma Notifications_List_copy:
  assumes "on_copy (Notifications_List dec) snap w = ((r, s), w')"
  shows "r = Inr l \<Longrightarrow> decrypt_rows dec (order_by nt_Name (notifications snap)) = Inr l"
    "io_schedule w = [] \<Longrightarrow> r = decrypt_rows dec (order_by nt_Name (notifications snap))"
proof -
  show "decrypt_rows dec (order_by nt_Name (notifications snap)) = Inr l" if "r = Inr l"
    using assms that by (auto simp: on_copy_def Notifications_List_def sql_query_def next_io_def split: prod.splits sum.splits if_splits list.splits)
  show "r = decrypt_rows dec (order_by nt_Name (notifications snap))" if "io_schedule w = []"
    using assms that by (auto simp: on_copy_def Notifications_List_def calm_primitives)
qed

section \<open>What a passed preflight means\<close>

definition fits :: "apply_host \<Rightarrow> InstanceMeta \<Rightarrow> bool" where
  "fits h m \<longleftrightarrow> (\<exists>cores bytes. ah_cores h = Inr cores \<and> ah_memory h = Inr bytes \<and> 0 < im_CPUCores m \<and> im_CPUCores m \<le> cores
      \<and> 0 < im_RAMMB m \<and> im_RAMMB m \<le> bytes div (1024 * 1024) \<and> bytes div (1024 * 1024) \<le> max_int64)"

definition payload_present :: "archive \<Rightarrow> (string \<times> logicalRestoreInputs) list \<Rightarrow> SnapshotInstanceEntry \<Rightarrow> bool" where
  "payload_present a inputs e \<longleftrightarrow>
     (if entryFormat e = SnapshotFormatPhysical then physicalBasePath snapshotBasebackupDir (ar_basebackup a (en_Name e)) \<noteq> None
      else \<exists>dbs t. ar_databases a (en_Name e) = Inr (Some dbs) \<and> ar_globals a (en_Name e) = Inr t
             \<and> (en_Name e, \<lparr>lr_databases = dbs, lr_roleNames = roleNamesFromGlobals t\<rparr>) \<in> set inputs)"

definition key_fits :: "apply_host \<Rightarrow> world \<Rightarrow> string \<Rightarrow> bool" where
  "key_fits h snap key \<longleftrightarrow>
     (case filter (\<lambda>i. inst_Password i \<noteq> '''') (rdbms_instances snap) of
        i # _ \<Rightarrow> \<exists>p. ah_dec h key (inst_Password i) = Inr p
      | [] \<Rightarrow> \<exists>l. decrypt_rows (ah_dec h key) (order_by nt_Name (notifications snap)) = Inr l)"

definition libc_only :: "archive \<Rightarrow> InstanceMeta \<Rightarrow> bool" where
  "libc_only a m \<longleftrightarrow> (\<forall>dbs. ar_databases a (im_Name m) = Inr (Some dbs) \<longrightarrow> (\<forall>db \<in> set dbs. dm_Name db = ''postgres'' \<or> dm_LocProvider db = ''c''))"

definition contents_ready :: "apply_host \<Rightarrow> archive \<Rightarrow> SnapshotApplyPlan \<Rightarrow> bool" where
  "contents_ready h a plan \<longleftrightarrow> ah_key h = Inr (pl_MasterKey plan) \<and> key_fits h (ar_store a) (pl_MasterKey plan)
     \<and> rdbms_instances (pl_Store plan) = rdbms_instances (ar_store a) \<and> notifications (pl_Store plan) = notifications (ar_store a)
     \<and> list_all2 (\<lambda>e m. ar_meta a (en_Name e) = Inr (Some m)) (mf_Instances (pl_Manifest plan)) (pl_Instances plan)
     \<and> (\<forall>e \<in> set (mf_Instances (pl_Manifest plan)). en_HasData e \<longrightarrow> payload_present a (pl_LogicalInputs plan) e)
     \<and> (\<forall>m \<in> set (pl_Instances plan). fits h m)
     \<and> (\<forall>m \<in> set (logicalInstanceMetas (pl_Manifest plan) (pl_Instances plan)). libc_only a m)
     \<and> distinct (map im_Port (pl_Instances plan)) \<and> (\<forall>m \<in> set (pl_Instances plan). \<not> ah_port_answers h (im_Port m))"

lemma loadSnapshotInstances_all2: "loadSnapshotInstances a es = Inr ms \<Longrightarrow> list_all2 (\<lambda>e m. ar_meta a (en_Name e) = Inr (Some m)) es ms"
  by (induction es arbitrary: ms) (auto split: sum.splits option.splits)

lemma payload_mono: "payload_present a l e \<Longrightarrow> set l \<subseteq> set l' \<Longrightarrow> payload_present a l' e"
  by (auto simp: payload_present_def split: if_splits)

lemma payload_inputs_present: "payload_inputs a es = Inr l \<Longrightarrow> e \<in> set es \<Longrightarrow> en_HasData e \<Longrightarrow> payload_present a l e"
proof (induction es arbitrary: l)
  case (Cons x es)
  have new: "payload_present a l x" if "en_HasData x"
    using Cons.prems(1) that
    by (auto simp: payload_present_def verifyPhysicalStaging_def readLogicalRestoreInputs_def split: if_splits option.splits sum.splits)
  have old: "\<exists>l'. payload_inputs a es = Inr l' \<and> set l' \<subseteq> set l"
    using Cons.prems(1) by (auto split: if_splits option.splits sum.splits)
  then show ?case using new Cons.IH Cons.prems(2,3) payload_mono by (cases "e = x") fastforce+
qed simp

lemma ValidateSystemResources_fits: "ValidateSystemResources (ah_cores h) (ah_memory h) (im_CPUCores m) (im_RAMMB m) = None \<longleftrightarrow> fits h m"
  by (auto simp: ValidateSystemResources_def fits_def Let_def split: sum.splits if_splits)

lemma checkHostResources_fits: "checkHostResources h ms = None \<Longrightarrow> m \<in> set ms \<Longrightarrow> fits h m"
  by (induction ms) (auto simp: ValidateSystemResources_fits split: option.splits)

lemma checkLocaleProviders_libc: "checkLocaleProviders a ms = None \<Longrightarrow> m \<in> set ms \<Longrightarrow> libc_only a m"
  by (induction ms) (auto simp: libc_only_def find_None_iff split: sum.splits option.splits)

lemma ports_loop_free:
  "ports_loop h seen ms = None
     \<Longrightarrow> distinct (map im_Port ms) \<and> fst ` set seen \<inter> im_Port ` set ms = {} \<and> (\<forall>m \<in> set ms. \<not> ah_port_answers h (im_Port m))"
proof (induction ms arbitrary: seen)
  case (Cons m ms)
  have f: "im_Port m \<notin> fst ` set seen" "\<not> ah_port_answers h (im_Port m)" "ports_loop h ((im_Port m, im_Name m) # seen) ms = None"
    using Cons.prems by (auto simp: map_of_eq_None_iff split: option.splits if_splits)
  then show ?case using Cons.IH[OF f(3)] by auto
qed simp

lemma verifyMasterKey_fits:
  assumes "verifyMasterKeyAgainstSnapshot h snap key w = ((None, s), w')"
  shows "key_fits h snap key" "rdbms_instances s = rdbms_instances snap" "notifications s = notifications snap"
proof -
  obtain e1 s1 w1 where 1: "NewStore (ah_now h) key snap w = ((e1, s1), w1)" by (metis surj_pair)
  have e1: "e1 = None" using assms 1 by (cases e1) (auto simp: verifyMasterKeyAgainstSnapshot_def)
  obtain r2 s2 w2 where 2: "on_copy Instances_List s1 w1 = ((r2, s2), w2)" by (metis surj_pair)
  obtain l where l: "r2 = Inr l" using assms 1 e1 2 by (cases r2) (auto simp: verifyMasterKeyAgainstSnapshot_def)
  obtain r3 s3 w3 where 3: "on_copy (Notifications_List (ah_dec h key)) s2 w2 = ((r3, s3), w3)" by (metis surj_pair)
  note c1 = NewStore_copy[OF 1] and c2 = Instances_List_copy[OF 2] and c3 = Notifications_List_copy[OF 3]
  have list: "l = rdbms_instances snap" using c1(1) c2(2)[OF l] by simp
  show "key_fits h snap key"
    using assms 1 e1 2 l 3 list c1(2) c2(1) c3(1)
    by (auto simp: verifyMasterKeyAgainstSnapshot_def key_fits_def split: list.splits sum.splits if_splits)
  have "s = s2 \<or> s = s3"
    using assms 1 e1 2 l 3 by (auto simp: verifyMasterKeyAgainstSnapshot_def split: list.splits sum.splits if_splits)
  moreover have "rdbms_instances s2 = rdbms_instances s1" "rdbms_instances s3 = rdbms_instances s2" "notifications s3 = notifications s2"
    using 2 3 by (auto simp: on_copy_def Instances_List_def Notifications_List_def sql_query_def next_io_def
        split: prod.splits sum.splits if_splits list.splits)
  ultimately show "rdbms_instances s = rdbms_instances snap" "notifications s = notifications snap" using c1(1,2) c2(1) by auto
qed

lemma check_contents_ready:
  assumes "check_contents h a dir m k pulled cs w = (Inr (cs', plan), w')"
  shows "contents_ready h a plan" "pl_Manifest plan = m" "pl_ExistingKey plan = k" "pl_PulledImages plan = pulled" "pl_ExtractedDir plan = dir"
proof -
  obtain key snap w1 metas inputs where key: "ah_key h = Inr key"
    and v: "verifyMasterKeyAgainstSnapshot h (ar_store a) key w = ((None, snap), w1)"
    and l: "loadSnapshotInstances a (mf_Instances m) = Inr metas" and p: "payload_inputs a (mf_Instances m) = Inr inputs"
    and r: "checkHostResources h metas = None" and lo: "checkLocaleProviders a (logicalInstanceMetas m metas) = None"
    and po: "checkPortsAvailable h metas = None"
    and plan: "plan = \<lparr>pl_Manifest = m, pl_MasterKey = key, pl_Instances = metas, pl_LogicalInputs = inputs, pl_ExistingKey = k,
       pl_PulledImages = pulled, pl_ExtractedDir = dir, pl_Store = snap\<rparr>"
    using assms by (auto simp: check_contents_def Let_def pf_fail_def split: sum.splits prod.splits option.splits)
  show "contents_ready h a plan"
    unfolding contents_ready_def plan
    using key verifyMasterKey_fits[OF v] loadSnapshotInstances_all2[OF l] payload_inputs_present[OF p] checkHostResources_fits[OF r]
      checkLocaleProviders_libc[OF lo] ports_loop_free[OF po[unfolded checkPortsAvailable_def]] by simp
  show "pl_Manifest plan = m" "pl_ExistingKey plan = k" "pl_PulledImages plan = pulled" "pl_ExtractedDir plan = dir" using plan by simp_all
qed

text \<open>The major version is known to differ: recorded, and served by the image that the rebuild would start.\<close>

definition wrong_major :: "apply_host \<Rightarrow> SnapshotInstanceEntry \<Rightarrow> bool" where
  "wrong_major h e \<longleftrightarrow> en_HasData e \<and> entryFormat e = SnapshotFormatPhysical \<and> en_Image e \<noteq> ''''
     \<and> (\<exists>recorded served. parseMajorVersion (en_Version e) = Some recorded \<and> ah_image_major h (en_Image e) = Some served \<and> served \<noteq> recorded)"

lemma checkPhysicalImageMajor_iff: "checkPhysicalImageMajor h e \<noteq> None \<longleftrightarrow> wrong_major h e"
  by (auto simp: checkPhysicalImageMajor_def wrong_major_def split: option.splits)

lemma check_image_majors_iff: "check_image_majors h m \<noteq> None \<longleftrightarrow> (\<exists>e \<in> set (mf_Instances m). wrong_major h e)"
proof -
  have "List.map_filter (checkPhysicalImageMajor h) (mf_Instances m) \<noteq> [] \<longleftrightarrow> (\<exists>e \<in> set (mf_Instances m). wrong_major h e)"
    by (auto simp: List.map_filter_def filter_empty_conv checkPhysicalImageMajor_iff[symmetric])
  moreover have "wrong_major h e \<Longrightarrow> e \<in> set (mf_Instances m) \<Longrightarrow> manifestHasPhysicalData m" for e
    by (auto simp: wrong_major_def manifestHasPhysicalData_def list_ex_iff)
  ultimately show ?thesis by (auto simp: check_image_majors_def split: list.splits)
qed

text \<open>An entry that extraction writes as a file, and where.\<close>

definition file_entry :: "archive_entry \<Rightarrow> bool" where
  "file_entry f \<longleftrightarrow> ae_Name f \<noteq> '''' \<and> ae_IsRegular f \<and> \<not> ae_IsDir f"

definition apply_ready :: "apply_host \<Rightarrow> archive \<Rightarrow> SnapshotApplyParams \<Rightarrow> world \<Rightarrow> SnapshotApplyPlan \<Rightarrow> bool" where
  "apply_ready h a ps w plan \<longleftrightarrow> ar_manifest a = Inr (pl_Manifest plan) \<and> mf_FormatVersion (pl_Manifest plan) \<le> 2
     \<and> isVersionNewer (mf_OddkVersion (pl_Manifest plan)) (ah_version h) \<noteq> Some True
     \<and> (manifestHasPhysicalData (pl_Manifest plan) \<longrightarrow> mf_SourceArch (pl_Manifest plan) \<in> {'''', ah_arch h})
     \<and> \<not> daemonIsListening h (ap_DaemonPort ps)
     \<and> (ah_db_exists h \<and> \<not> ah_db_unusable h \<longrightarrow> rdbms_instances w = [])
     \<and> (\<forall>e \<in> set (mf_Instances (pl_Manifest plan)). \<not> wrong_major h e)
     \<and> pl_ExtractedDir plan = staging_dir h ps \<and> contents_ready h a plan"

lemma existingInstanceNames_none:
  assumes "existingInstanceNames h w = (Inr [], w')" "ah_db_exists h" "\<not> ah_db_unusable h"
  shows "rdbms_instances w = []"
proof -
  obtain s w1 where 1: "sys_call ''stat'' w = (s, w1)" by fastforce
  obtain o2 w2 where 2: "sys_call ''open'' w1 = (o2, w2)" by fastforce
  have io: "same_but_io w w2" using sys_call_same[OF 1] sys_call_same[OF 2] by (rule same_but_io_trans)
  obtain x w3 where 3: "sql_query (\<lambda>w. order_by (\<lambda>n. n) (map inst_Name (rdbms_instances w))) w2 = (x, w3)" by fastforce
  have "x = Inr []" using assms 1 2 3 by (cases o2; cases x) (auto simp: existingInstanceNames_def)
  with 3 io have q: "same_but_io w w2" "sql_query (\<lambda>w. order_by (\<lambda>n. n) (map inst_Name (rdbms_instances w))) w2 = (Inr [], w3)" by simp_all
  have "order_by (\<lambda>n. n) (map inst_Name (rdbms_instances w2)) = []"
    using q(2) same_but_io_fields(1)[OF next_io_same[of w2]] by (auto simp: sql_query_def split: prod.splits if_splits)
  then have "map inst_Name (rdbms_instances w2) = []" by (metis set_order_by set_empty)
  then show ?thesis using same_but_io_fields(1)[OF q(1)] by simp
qed

lemma pull_images_present:
  assumes "pull_images h seen es w = ((pulled, None), w')"
  shows "(\<forall>i. images w i \<noteq> None \<longrightarrow> images w' i \<noteq> None)
     \<and> (\<forall>e \<in> set es. en_HasData e \<and> en_Image e \<noteq> '''' \<and> en_Image e \<notin> set seen \<longrightarrow> images w' (en_Image e) \<noteq> None)"
  using assms
proof (induction es arbitrary: seen w pulled)
  case (Cons e es)
  let ?i = "en_Image e"
  show ?case
  proof (cases "\<not> en_HasData e \<or> ?i = '''' \<or> ?i \<in> set seen")
    case True
    then show ?thesis using Cons.IH[of seen w pulled] Cons.prems by auto
  next
    case False
    obtain b w1 where 1: "CheckImageExists ?i w = (b, w1)" by fastforce
    have io: "images w1 = images w" using same_but_io_fields(29)[OF client_reads_same(1)[OF 1]] .
    have step: ?thesis if go: "pull_images h (?i # seen) es v = ((q, None), w')"
        and sub: "\<forall>i. images w i \<noteq> None \<longrightarrow> images v i \<noteq> None" and here: "images v ?i \<noteq> None" for v q
      using Cons.IH[OF go] sub here by auto
    show ?thesis
    proof (cases b)
      case True
      then have "images w1 ?i \<noteq> None"
        using 1 io unfolding CheckImageExists_def image_inspect_def
        by (auto split: prod.splits sum.splits option.splits elim!: docker_call_ok simp: same_but_io_fields)
      then show ?thesis using step[of w1 pulled] Cons.prems False 1 True io by auto
    next
      case b: False
      obtain x w2 where 2: "docker_call (\<lambda>w. case ah_pull h ?i of Inl err \<Rightarrow> Inl err
          | Inr n \<Rightarrow> Inr (w\<lparr>images := (images w)(?i \<mapsto> n)\<rparr>, ())) w1 = (x, w2)" by fastforce
      then obtain u where x: "x = Inr u" using Cons.prems False 1 b by (cases x) auto
      obtain q r w3 where 3: "pull_images h (?i # seen) es w2 = ((q, r), w3)" by (metis prod.collapse)
      have r: "r = None" "w3 = w'" using Cons.prems False 1 b 2 x 3 by auto
      obtain v n where "same_but_io w1 v" "w2 = v\<lparr>images := (images v)(?i \<mapsto> n)\<rparr>"
        using 2 x by (auto elim!: docker_call_ok split: sum.splits)
      then have "\<forall>i. images w i \<noteq> None \<longrightarrow> images w2 i \<noteq> None" "images w2 ?i \<noteq> None"
        using io by (auto simp: same_but_io_fields)
      then show ?thesis using step[of w2 q] 3 r by simp
    qed
  qed
qed simp

lemma handleFile_keeps_files:
  assumes "handleFile dir f w = (e, w')"
  shows "files w p \<noteq> None \<Longrightarrow> files w' p \<noteq> None" "e = None \<Longrightarrow> file_entry f \<Longrightarrow> files w' (Join2 dir (ae_Name f)) = Some (ae_Size f)"
proof -
  let ?p = "Join2 dir (ae_Name f)"
  obtain r1 w1 where 1: "sys_call ''mkdir'' w = (r1, w1)" by fastforce
  obtain e2 w2 where 2: "write_file ?p 0 w1 = (e2, w2)" by fastforce
  obtain r3 w3 where 3: "sys_call ''open'' w2 = (r3, w3)" by fastforce
  obtain e4 w4 where 4: "write_file ?p (ae_Size f) w3 = (e4, w4)" by fastforce
  have wf: "files v' = files v \<or> files v' = (files v)(q := Some n)" "x = None \<Longrightarrow> files v' = (files v)(q := Some n)"
    if "write_file q n v = (x, v')" for q n v x v'
    using that next_io_same[of v] by (auto simp: write_file_def set_file_def same_but_io_fields split: prod.splits outcome.splits)
  have f: "files w1 = files w" "files w3 = files w2" using sys_call_same[OF 1] sys_call_same[OF 3] by (simp_all add: same_but_io_fields)
  have "w' \<in> {w, w1, w2, w3, w4}" and ok: "e = None \<Longrightarrow> file_entry f \<Longrightarrow> w' = w4 \<and> e4 = None"
    using assms 1 2 3 4 by (auto simp: handleFile_def Let_def file_entry_def split: if_splits sum.splits option.splits)
  then show "files w p \<noteq> None \<Longrightarrow> files w' p \<noteq> None" using f wf(1)[OF 2] wf(1)[OF 4] by auto
  show "files w' ?p = Some (ae_Size f)" if "e = None" "file_entry f" using ok[OF that] wf(2)[OF 4] by simp
qed

lemma extract_entries_files:
  assumes "extract_entries dir fs w = (e, w')"
  shows "(\<forall>p. files w p \<noteq> None \<longrightarrow> files w' p \<noteq> None)
     \<and> (e = None \<longrightarrow> (\<forall>f \<in> set fs. file_entry f \<longrightarrow> files w' (Join2 dir (ae_Name f)) \<noteq> None))"
  using assms
proof (induction fs arbitrary: w)
  case (Cons f fs)
  obtain x w1 where 1: "handleFile dir f w = (x, w1)" by fastforce
  note h = handleFile_keeps_files[OF 1]
  show ?case
  proof (cases x)
    case None
    then have "extract_entries dir fs w1 = (e, w')" using Cons.prems 1 by simp
    from Cons.IH[OF this] show ?thesis using h None by (auto simp: option.distinct)
  next
    case (Some y)
    then show ?thesis using Cons.prems 1 h by auto
  qed
qed simp

lemma ExtractTarZstd_files:
  assumes "ExtractTarZstd a path dir w = (None, w')"
  shows "\<forall>f \<in> set (ar_entries a). file_entry f \<longrightarrow> files w' (Join2 dir (ae_Name f)) \<noteq> None"
proof -
  obtain w3 where "extract_entries dir (ar_entries a) w3 = (None, w')"
    using assms by (auto simp: ExtractTarZstd_def split: prod.splits sum.splits option.splits)
  then show ?thesis using extract_entries_files by blast
qed

section \<open>What a refusal means\<close>

text \<open>
  The checks by their labels, and when each of them fails. A check that calls the system can also
  fail because a call did; then something was left on the schedule of failures. Whether the copy
  of the store can be opened at all is asked of a run in which no call fails.
\<close>

definition described :: "archive \<Rightarrow> SnapshotManifest \<Rightarrow> InstanceMeta list \<Rightarrow> bool" where
  "described a m metas \<longleftrightarrow> list_all2 (\<lambda>e x. ar_meta a (en_Name e) = Inr (Some x)) (mf_Instances m) metas"

definition entry_rejected :: "string \<Rightarrow> archive_entry \<Rightarrow> bool" where
  "entry_rejected dir f \<longleftrightarrow> ae_Name f \<noteq> ''''
     \<and> (\<not> ae_IsDir f \<and> \<not> ae_IsRegular f \<or> escapes dir (Join2 dir (ae_Name f)) \<or> \<not> ae_IsDir f \<and> Join2 dir (ae_Name f) = Clean dir)"

definition payload_missing :: "archive \<Rightarrow> SnapshotInstanceEntry \<Rightarrow> bool" where
  "payload_missing a e \<longleftrightarrow> en_HasData e
     \<and> (if entryFormat e = SnapshotFormatPhysical then physicalBasePath snapshotBasebackupDir (ar_basebackup a (en_Name e)) = None
        else (\<nexists>dbs t. ar_databases a (en_Name e) = Inr (Some dbs) \<and> ar_globals a (en_Name e) = Inr t))"

definition copy_refused :: "apply_host \<Rightarrow> archive \<Rightarrow> string \<Rightarrow> bool" where
  "copy_refused h a key \<longleftrightarrow> (\<exists>v. io_schedule v = [] \<and> fst (fst (NewStore (ah_now h) key (ar_store a) v)) \<noteq> None)"

definition contents_checks :: "bool \<Rightarrow> apply_host \<Rightarrow> archive \<Rightarrow> SnapshotManifest \<Rightarrow> (string \<times> bool) set" where
  "contents_checks failing h a m =
     {(''Master key decrypts instance credentials'',
         failing \<or> (\<forall>key. ah_key h = Inr key \<longrightarrow> copy_refused h a key \<or> \<not> key_fits h (ar_store a) key)),
      (''Instance configuration is readable'',
         \<exists>e \<in> set (mf_Instances m). (\<forall>x. ar_meta a (en_Name e) \<noteq> Inr (Some x)) \<or> payload_missing a e),
      (''Host can run the recorded instance sizes'', \<exists>metas. described a m metas \<and> (\<exists>x \<in> set metas. \<not> fits h x)),
      (''Database locales can be reproduced'',
         \<exists>metas. described a m metas \<and> (\<exists>x \<in> set (logicalInstanceMetas m metas). isl (ar_databases a (im_Name x)) \<or> \<not> libc_only a x)),
      (''Instance ports are available'',
         \<exists>metas. described a m metas \<and> (\<not> distinct (map im_Port metas) \<or> (\<exists>x \<in> set metas. ah_port_answers h (im_Port x))))}"

definition host_checks :: "apply_host \<Rightarrow> archive \<Rightarrow> SnapshotApplyParams \<Rightarrow> SnapshotManifest \<Rightarrow> world \<Rightarrow> (string \<times> bool) set" where
  "host_checks h a ps m w =
     {(''Snapshot format is supported'', 2 < mf_FormatVersion m),
      (''Snapshot version is supported'', isVersionNewer (mf_OddkVersion m) (ah_version h) = Some True),
      (''Snapshot architecture matches this host'', manifestHasPhysicalData m \<and> mf_SourceArch m \<notin> {'''', ah_arch h}),
      (''Daemon is not running'', daemonIsListening h (ap_DaemonPort ps)),
      (''Target deployment is empty'', io_schedule w \<noteq> [] \<or> ah_db_exists h \<and> \<not> ah_db_unusable h \<and> rdbms_instances w \<noteq> []),
      (''Instance images are available'', \<not> ah_docker h
         \<or> (\<exists>e \<in> set (mf_Instances m). en_HasData e \<and> en_Image e \<noteq> ''''
              \<and> (io_schedule w \<noteq> [] \<or> images w (en_Image e) = None \<and> isl (ah_pull h (en_Image e))))),
      (''Images match the recorded PostgreSQL majors'', \<exists>e \<in> set (mf_Instances m). wrong_major h e),
      (''Snapshot extracted'', io_schedule w \<noteq> [] \<or> ar_verify a \<noteq> None \<or> ar_tail a \<noteq> None
         \<or> (\<exists>f \<in> set (ar_entries a). entry_rejected (staging_dir h ps) f)
         \<or> (\<forall>f \<in> set (ar_entries a). file_entry f \<longrightarrow> Join2 (staging_dir h ps) (ae_Name f) \<noteq> Join2 (staging_dir h ps) snapshotStoreFile))}"

definition check_fails :: "apply_host \<Rightarrow> archive \<Rightarrow> SnapshotApplyParams \<Rightarrow> world \<Rightarrow> string \<Rightarrow> bool" where
  "check_fails h a ps w label \<longleftrightarrow>
     (case ar_manifest a of
        Inl e \<Rightarrow> label = ''Snapshot is readable''
      | Inr m \<Rightarrow> (label, True) \<in> host_checks h a ps m w \<union> contents_checks (io_schedule w \<noteq> []) h a m)"

lemma loadSnapshotInstances_fails:
  "loadSnapshotInstances a es = Inl err \<Longrightarrow> \<exists>e \<in> set es. \<forall>x. ar_meta a (en_Name e) \<noteq> Inr (Some x)"
  by (induction es arbitrary: err) (auto split: sum.splits option.splits)

lemma payload_inputs_fails: "payload_inputs a es = Inl err \<Longrightarrow> \<exists>e \<in> set es. payload_missing a e"
proof (induction es arbitrary: err)
  case (Cons e es)
  show ?case
  proof (cases "payload_missing a e")
    case False
    then have "\<exists>err. payload_inputs a es = Inl err"
      using Cons.prems by (auto simp: payload_missing_def verifyPhysicalStaging_def readLogicalRestoreInputs_def split: if_splits option.splits sum.splits)
    then show ?thesis using Cons.IH by auto
  qed simp
qed simp

lemma checkHostResources_fails: "checkHostResources h ms = Some err \<Longrightarrow> \<exists>x \<in> set ms. \<not> fits h x"
  by (induction ms) (auto simp: ValidateSystemResources_fits[symmetric] split: option.splits)

lemma checkLocaleProviders_fails:
  "checkLocaleProviders a ms = Some err \<Longrightarrow> \<exists>x \<in> set ms. isl (ar_databases a (im_Name x)) \<or> \<not> libc_only a x"
  by (induction ms) (auto simp: libc_only_def find_Some_iff split: sum.splits option.splits)

lemma ports_loop_fails:
  "ports_loop h seen ms = Some err
     \<Longrightarrow> fst ` set seen \<inter> im_Port ` set ms \<noteq> {} \<or> \<not> distinct (map im_Port ms) \<or> (\<exists>x \<in> set ms. ah_port_answers h (im_Port x))"
proof (induction ms arbitrary: seen)
  case (Cons m ms)
  show ?case
  proof (cases "im_Port m \<in> fst ` set seen \<or> ah_port_answers h (im_Port m)")
    case False
    then have "map_of seen (im_Port m) = None" by (simp add: map_of_eq_None_iff)
    then have "ports_loop h ((im_Port m, im_Name m) # seen) ms = Some err" using Cons.prems False by simp
    from Cons.IH[OF this] show ?thesis by auto
  qed auto
qed simp

lemma verify_fails:
  assumes "verifyMasterKeyAgainstSnapshot h (ar_store a) key w = ((Some e, s), w')" "io_schedule w = []"
  shows "copy_refused h a key \<or> \<not> key_fits h (ar_store a) key"
proof -
  obtain e1 s1 w1 where 1: "NewStore (ah_now h) key (ar_store a) w = ((e1, s1), w1)" by (metis surj_pair)
  show ?thesis
  proof (cases e1)
    case (Some x)
    then show ?thesis using 1 assms(2) unfolding copy_refused_def by (metis fst_conv option.distinct(1))
  next
    case None
    obtain r2 s2 w2 where 2: "on_copy Instances_List s1 w1 = ((r2, s2), w2)" by (metis surj_pair)
    obtain r3 s3 w3 where 3: "on_copy (Notifications_List (ah_dec h key)) s2 w2 = ((r3, s3), w3)" by (metis surj_pair)
    note c1 = NewStore_copy[OF 1] and c2 = Instances_List_copy[OF 2] and c3 = Notifications_List_copy[OF 3]
    have "r2 = Inr (rdbms_instances (ar_store a))" "r3 = decrypt_rows (ah_dec h key) (order_by nt_Name (notifications (ar_store a)))"
      using c1(1,2) c1(3)[OF assms(2)] c2(1) c2(3) c3(2) by auto
    then show ?thesis using assms(1) 1 None 2 3
      by (auto simp: verifyMasterKeyAgainstSnapshot_def key_fits_def split: list.splits sum.splits if_splits)
  qed
qed

lemma last_label: "pf_fail l cs e = Inl (cs', e') \<Longrightarrow> pc_Label (last cs') = l"
  by (auto simp: pf_fail_def)

lemma check_contents_refused:
  assumes "check_contents h a dir m k pulled cs w = (Inl (cs', e), w')"
  shows "(pc_Label (last cs'), True) \<in> contents_checks (io_schedule w \<noteq> []) h a m"
proof (cases "ah_key h")
  case (Inl x)
  then show ?thesis using assms by (auto simp: check_contents_def contents_checks_def dest: last_label)
next
  case (Inr key)
  obtain e1 snap w1 where 1: "verifyMasterKeyAgainstSnapshot h (ar_store a) key w = ((e1, snap), w1)" by (metis surj_pair)
  show ?thesis
  proof (cases e1)
    case (Some x)
    then have "pc_Label (last cs') = ''Master key decrypts instance credentials''"
      using assms Inr 1 by (auto simp: check_contents_def Let_def dest: last_label)
    then show ?thesis using verify_fails[OF 1[unfolded Some]] Inr by (auto simp: contents_checks_def)
  next
    case None
    show ?thesis
    proof (cases "loadSnapshotInstances a (mf_Instances m)")
      case (Inl x)
      then have "pc_Label (last cs') = ''Instance configuration is readable''"
        using assms \<open>ah_key h = Inr key\<close> 1 None by (auto simp: check_contents_def Let_def dest: last_label)
      then show ?thesis using loadSnapshotInstances_fails[OF Inl] by (auto simp: contents_checks_def)
    next
      case (Inr metas)
      have d: "described a m metas" using loadSnapshotInstances_all2[OF Inr] by (simp add: described_def)
      show ?thesis
      proof (cases "payload_inputs a (mf_Instances m)")
        case (Inl x)
        then have "pc_Label (last cs') = ''Instance configuration is readable''"
          using assms \<open>ah_key h = Inr key\<close> 1 None Inr by (auto simp: check_contents_def Let_def dest: last_label)
        then show ?thesis using payload_inputs_fails[OF Inl] by (auto simp: contents_checks_def)
      next
        case inputs: (Inr inputs)
        have "(\<exists>x. pc_Label (last cs') = ''Host can run the recorded instance sizes'' \<and> checkHostResources h metas = Some x)
          \<or> (\<exists>x. pc_Label (last cs') = ''Database locales can be reproduced'' \<and> checkLocaleProviders a (logicalInstanceMetas m metas) = Some x)
          \<or> (\<exists>x. pc_Label (last cs') = ''Instance ports are available'' \<and> ports_loop h [] metas = Some x)"
          using assms \<open>ah_key h = Inr key\<close> 1 None Inr inputs
          by (auto simp: check_contents_def Let_def checkPortsAvailable_def split: option.splits dest: last_label)
        then show ?thesis
          using d checkHostResources_fails checkLocaleProviders_fails ports_loop_fails[of h "[]" metas]
          by (fastforce simp: contents_checks_def)
      qed
    qed
  qed
qed

lemma existingInstanceNames_refuses:
  assumes "existingInstanceNames h w = (r, w')"
  shows "r = Inl e \<Longrightarrow> io_schedule w \<noteq> []" "r = Inr (n # ns) \<Longrightarrow> ah_db_exists h \<and> \<not> ah_db_unusable h \<and> rdbms_instances w \<noteq> []"
    "io_schedule w = [] \<Longrightarrow> w' = w"
proof -
  show "io_schedule w \<noteq> []" if "r = Inl e"
    using assms that by (auto simp: existingInstanceNames_def sys_call_calm calm_primitives next_io_calm split: if_splits)
  show "w' = w" if "io_schedule w = []"
    using assms that by (auto simp: existingInstanceNames_def sys_call_calm calm_primitives next_io_calm split: if_splits)
  show "ah_db_exists h \<and> \<not> ah_db_unusable h \<and> rdbms_instances w \<noteq> []" if r: "r = Inr (n # ns)"
  proof -
    obtain s w1 where 1: "sys_call ''stat'' w = (s, w1)" by fastforce
    obtain t w2 where 2: "sys_call ''open'' w1 = (t, w2)" by fastforce
    obtain x w3 where 3: "sql_query (\<lambda>w. order_by (\<lambda>n. n) (map inst_Name (rdbms_instances w))) w2 = (x, w3)" by fastforce
    have io: "rdbms_instances w2 = rdbms_instances w" using sys_call_same[OF 1] sys_call_same[OF 2] by (simp add: same_but_io_fields)
    have "ah_db_exists h" "\<not> ah_db_unusable h" "x = Inr (n # ns)"
      using assms r 1 2 3 by (auto simp: existingInstanceNames_def split: if_splits sum.splits)
    moreover have "x = Inr l \<Longrightarrow> l = order_by (\<lambda>n. n) (map inst_Name (rdbms_instances w2))" for l
      using 3 next_io_same[of w2] by (auto simp: sql_query_def same_but_io_fields split: prod.splits if_splits)
    ultimately have "order_by (\<lambda>n. n) (map inst_Name (rdbms_instances w)) \<noteq> []" using io by fastforce
    then show ?thesis using \<open>ah_db_exists h\<close> \<open>\<not> ah_db_unusable h\<close> by (auto simp: order_by_def)
  qed
qed

lemma CheckImageExists_calm: "io_schedule w = [] \<Longrightarrow> CheckImageExists i w = (images w i \<noteq> None, w)"
  by (auto simp: CheckImageExists_def image_inspect_def docker_call_calm split: option.splits)

lemma pull_images_effect:
  assumes "pull_images h seen es w = ((pulled, r), w')"
  shows "files w' = files w \<and> (io_schedule w = [] \<longrightarrow> io_schedule w' = [])
     \<and> (r \<noteq> None \<longrightarrow> (\<exists>e \<in> set es. en_HasData e \<and> en_Image e \<noteq> ''''
           \<and> (io_schedule w \<noteq> [] \<or> images w (en_Image e) = None \<and> isl (ah_pull h (en_Image e)))))"
  using assms
proof (induction es arbitrary: seen w pulled)
  case (Cons e es)
  let ?i = "en_Image e"
  show ?case
  proof (cases "\<not> en_HasData e \<or> ?i = '''' \<or> ?i \<in> set seen")
    case True
    then show ?thesis using Cons.IH[of seen w pulled] Cons.prems by auto
  next
    case False
    obtain b w1 where 1: "CheckImageExists ?i w = (b, w1)" by fastforce
    have f1: "files w1 = files w" "images w1 = images w" using client_reads_same(1)[OF 1] by (simp_all add: same_but_io_fields)
    have c1: "io_schedule w = [] \<Longrightarrow> w1 = w \<and> b = (images w ?i \<noteq> None)" using 1 CheckImageExists_calm[of w ?i] by (metis prod.inject)
    show ?thesis
    proof (cases b)
      case True
      then show ?thesis using Cons.IH[of "?i # seen" w1 pulled] Cons.prems False 1 f1 c1 by auto
    next
      case b: False
      obtain x w2 where 2: "docker_call (\<lambda>w. case ah_pull h ?i of Inl err \<Rightarrow> Inl err
          | Inr n \<Rightarrow> Inr (w\<lparr>images := (images w)(?i \<mapsto> n)\<rparr>, ())) w1 = (x, w2)" by fastforce
      have f2: "files w2 = files w" using 2 f1(1) by (auto elim!: docker_call_cases simp: same_but_io_fields split: sum.splits)
      have c2: "io_schedule w2 = [] \<and> (isl x \<longrightarrow> isl (ah_pull h ?i)) \<and> (\<forall>j. images w2 j = None \<longrightarrow> images w j = None)" if "io_schedule w = []"
        using 2 c1[OF that] that by (auto simp: docker_call_calm split: sum.splits if_splits)
      show ?thesis
      proof (cases x)
        case (Inl err)
        then show ?thesis using Cons.prems False 1 b 2 f2 c1 c2 by auto
      next
        case (Inr u)
        obtain q r' w3 where 3: "pull_images h (?i # seen) es w2 = ((q, r'), w3)" by (metis surj_pair)
        have "r' = r" "w3 = w'" using Cons.prems False 1 b 2 Inr 3 by auto
        then show ?thesis using Cons.IH[of "?i # seen" w2 q] 3 f2 c2 by auto
      qed
    qed
  qed
qed simp

lemma write_file_calm: "io_schedule w = [] \<Longrightarrow> write_file p n w = (None, set_file p (Some n) w)"
  by (simp add: write_file_def next_io_calm)

lemma set_file_io [simp]: "io_schedule (set_file p n w) = io_schedule w"
  by (simp add: set_file_def)

lemma handleFile_calm:
  assumes "handleFile dir f w = (e, w')" "io_schedule w = []"
  shows "io_schedule w' = []" "e \<noteq> None \<Longrightarrow> entry_rejected dir f"
  using assms by (auto simp: handleFile_def Let_def sys_call_calm write_file_calm entry_rejected_def split: if_splits)

lemma extract_entries_calm:
  "extract_entries dir fs w = (e, w') \<Longrightarrow> io_schedule w = [] \<Longrightarrow> io_schedule w' = [] \<and> (e \<noteq> None \<longrightarrow> (\<exists>f \<in> set fs. entry_rejected dir f))"
proof (induction fs arbitrary: w)
  case (Cons f fs)
  obtain x w1 where 1: "handleFile dir f w = (x, w1)" by fastforce
  show ?case using Cons.IH[of w1] Cons.prems 1 handleFile_calm[OF 1 Cons.prems(2)] by (cases x) auto
qed simp

lemma ExtractTarZstd_calm:
  assumes "ExtractTarZstd a path dir w = (e, w')" "io_schedule w = []"
  shows "io_schedule w' = []" "e \<noteq> None \<Longrightarrow> ar_verify a \<noteq> None \<or> ar_tail a \<noteq> None \<or> (\<exists>f \<in> set (ar_entries a). entry_rejected dir f)"
proof -
  obtain x v where 1: "extract_entries dir (ar_entries a) w = (x, v)" by fastforce
  note c = extract_entries_calm[OF 1 assms(2)]
  have "ar_verify a \<noteq> None \<and> w' = w \<or> w' = v \<and> (e \<noteq> None \<longrightarrow> x \<noteq> None \<or> ar_tail a \<noteq> None)"
    using assms 1 by (cases x; cases "ar_verify a") (auto simp: ExtractTarZstd_def sys_call_calm)
  then show "io_schedule w' = []" "e \<noteq> None \<Longrightarrow> ar_verify a \<noteq> None \<or> ar_tail a \<noteq> None \<or> (\<exists>f \<in> set (ar_entries a). entry_rejected dir f)"
    using c assms(2) by auto
qed

lemma contents_checks_mono: "(l, True) \<in> contents_checks f h a m \<Longrightarrow> (f \<longrightarrow> g) \<Longrightarrow> (l, True) \<in> contents_checks g h a m"
  by (auto simp: contents_checks_def)

lemma extract_and_check_refused:
  assumes "extract_and_check h a ps m k pulled cs w = (Inl (cs', e), w')" "io_schedule w0 = [] \<longrightarrow> io_schedule w = []"
  shows "(pc_Label (last cs'), True) \<in> host_checks h a ps m w0 \<union> contents_checks (io_schedule w0 \<noteq> []) h a m"
proof -
  let ?dir = "staging_dir h ps"
  obtain r1 w1 where 1: "sys_call ''mkdir'' w = (r1, w1)" by fastforce
  obtain e2 w2 where 2: "ExtractTarZstd a (ap_ArchivePath ps) ?dir w1 = (e2, w2)" by fastforce
  obtain st w3 where 3: "os_Stat (Join2 ?dir snapshotStoreFile) w2 = (st, w3)" by fastforce
  have calm: "r1 = Inr () \<and> w1 = w \<and> io_schedule w2 = [] \<and> io_schedule w3 = [] \<and> st \<noteq> StatError" if "io_schedule w0 = []"
    using assms(2) that sys_call_step[OF 1] ExtractTarZstd_calm(1)[OF 2] 3
    by (auto simp: calm_primitives(3) split: option.splits)
  consider (contents) n w4 where "st = StatOK n"
      "check_contents h a ?dir m k pulled (pf_pass ''Snapshot extracted'' cs) w3 = (Inl (cs', e), w4)"
    | (early) "pc_Label (last cs') = ''Snapshot extracted''" "isl r1 \<or> e2 \<noteq> None \<or> st = StatError \<or> e2 = None \<and> st = StatNotExist"
    using assms(1) 1 2 3
    by (auto simp: extract_and_check_def Let_def split: sum.splits option.splits prod.splits stat_result.splits dest!: last_label)
  then show ?thesis
  proof cases
    case contents
    then show ?thesis using contents_checks_mono[OF check_contents_refused[OF contents(2)]] calm by blast
  next
    case early
    have "ar_verify a \<noteq> None \<or> ar_tail a \<noteq> None \<or> (\<exists>f \<in> set (ar_entries a). entry_rejected ?dir f)
        \<or> (\<forall>f \<in> set (ar_entries a). file_entry f \<longrightarrow> Join2 ?dir (ae_Name f) \<noteq> Join2 ?dir snapshotStoreFile)" if io: "io_schedule w0 = []"
    proof (cases e2)
      case None
      then have "files w2 (Join2 ?dir snapshotStoreFile) = None"
        using early(2) calm[OF io] 3 by (auto simp: calm_primitives(3) split: option.splits)
      then show ?thesis using ExtractTarZstd_files[OF 2[unfolded None]] by auto
    next
      case (Some x)
      then show ?thesis using ExtractTarZstd_calm(2)[OF 2] assms(2) calm[OF io] io by auto
    qed
    then show ?thesis using early(1) by (auto simp: host_checks_def)
  qed
qed

definition refusal :: "PreflightCheck list \<times> goerror \<Rightarrow> bool" where
  "refusal r \<longleftrightarrow> (case r of (cs, e) \<Rightarrow> list_all pc_OK (butlast cs) \<and> \<not> pc_OK (last cs) \<and> is_noChangesError e)"

lemma pf_fail_refusal: "list_all pc_OK cs \<Longrightarrow> \<exists>x. pf_fail l cs e = Inl x \<and> refusal x"
  by (auto simp: pf_fail_def refusal_def appendNoChanges_def)

definition honest_report :: "preflight_result \<Rightarrow> bool" where
  "honest_report r \<longleftrightarrow> (case r of Inl x \<Rightarrow> refusal x | Inr (cs, plan) \<Rightarrow> list_all pc_OK cs)"

lemma honest_fail: "list_all pc_OK cs \<Longrightarrow> honest_report (pf_fail l cs e)"
  using pf_fail_refusal[of cs l e] by (auto simp: honest_report_def)

text \<open>How a property of the answer goes through the same sequencing.\<close>

locale answers =
  fixes P :: "'r \<Rightarrow> bool"
begin

lemma branch:
  "(\<And>a b. P (fst (g a b))) \<Longrightarrow> P (fst (case q of (a, b) \<Rightarrow> g a b))"
  "(\<And>e. P (fst (f1 e))) \<Longrightarrow> (\<And>x. P (fst (f2 x))) \<Longrightarrow> P (fst (case s of Inl e \<Rightarrow> f1 e | Inr x \<Rightarrow> f2 x))"
  "P (fst h1) \<Longrightarrow> (\<And>x. P (fst (h2 x))) \<Longrightarrow> P (fst (case t of None \<Rightarrow> h1 | Some x \<Rightarrow> h2 x))"
  "P (fst k1) \<Longrightarrow> P (fst k2) \<Longrightarrow> P (fst (if c then k1 else k2))"
  "P (fst n1) \<Longrightarrow> (\<And>x xs. P (fst (n2 x xs))) \<Longrightarrow> P (fst (case l of [] \<Rightarrow> n1 | x # xs \<Rightarrow> n2 x xs))"
  "(\<And>n. P (fst (s1 n))) \<Longrightarrow> P (fst s2) \<Longrightarrow> P (fst s3)
    \<Longrightarrow> P (fst (case st of StatOK n \<Rightarrow> s1 n | StatNotExist \<Rightarrow> s2 | StatError \<Rightarrow> s3))"
  "P r \<Longrightarrow> P (fst (r, w))"
  by (simp_all split: prod.splits sum.splits option.splits list.splits stat_result.splits)

end

interpretation rep: answers honest_report .

lemma passes: "list_all pc_OK []" "list_all pc_OK cs \<Longrightarrow> list_all pc_OK (pf_pass l cs)"
  "list_all pc_OK cs \<Longrightarrow> list_all pc_OK (if c then pf_pass l cs else cs)"
  by (simp_all add: pf_pass_def)

lemma honest_pass: "list_all pc_OK cs \<Longrightarrow> honest_report (Inr (cs, plan))"
  by (simp add: honest_report_def)

lemma check_contents_report: "list_all pc_OK cs \<Longrightarrow> honest_report (fst (check_contents h a dir m k pulled cs w))"
  unfolding check_contents_def Let_def
  by (assumption | rule honest_fail | rule honest_pass | rule passes | rule rep.branch)+

lemma extract_report:
  assumes "list_all pc_OK cs"
  shows "honest_report (fst (extract_and_check h a ps m k pulled cs w))"
proof -
  have drop: "honest_report (fst (case z of (Inl x, w2) \<Rightarrow> (Inl x, f w2) | (Inr plan, w2) \<Rightarrow> (Inr plan, w2)))"
    if "honest_report (fst z)" for z :: "preflight_result \<times> world" and f
    using that by (cases z; cases "fst z") auto
  show ?thesis
    unfolding extract_and_check_def Let_def
    by (rule assms | rule drop | rule honest_fail | rule passes | rule check_contents_report | rule rep.branch)+
qed

lemma PreflightSnapshotApply_report: "honest_report (fst (PreflightSnapshotApply h a ps w))"
  unfolding PreflightSnapshotApply_def Let_def
  by (assumption | rule honest_fail | rule extract_report | rule passes | rule rep.branch)+

text \<open>One walk through the checks before extraction.\<close>

lemma PreflightSnapshotApply_walk:
  assumes "PreflightSnapshotApply h a ps w = (r, w')"
  obtains (early) cs e where "r = Inl (cs, e)" "check_fails h a ps w (pc_Label (last cs))" "files w' = files w"
  | (late) m k pulled cs w3 where "ar_manifest a = Inr m" "mf_FormatVersion m \<le> 2"
      "isVersionNewer (mf_OddkVersion m) (ah_version h) \<noteq> Some True" "checkSnapshotArch (ah_arch h) m = None"
      "\<not> daemonIsListening h (ap_DaemonPort ps)" "ah_db_exists h \<and> \<not> ah_db_unusable h \<longrightarrow> rdbms_instances w = []"
      "\<forall>e \<in> set (mf_Instances m). \<not> wrong_major h e"
      "\<forall>e \<in> set (mf_Instances m). en_HasData e \<and> en_Image e \<noteq> '''' \<longrightarrow> images w3 (en_Image e) \<noteq> None"
      "files w3 = files w" "io_schedule w = [] \<longrightarrow> io_schedule w3 = []"
      "extract_and_check h a ps m k pulled cs w3 = (r, w')"
proof (cases "ar_manifest a")
  case (Inl x)
  then have "r = pf_fail ''Snapshot is readable'' [] (wrap ''cannot read snapshot manifest'' x)" "w' = w"
    using assms by (simp_all add: PreflightSnapshotApply_def)
  then show ?thesis using early Inl by (auto simp: pf_fail_def check_fails_def)
next
  case (Inr m)
  have refused: thesis if "r = pf_fail l cs x" "(l, True) \<in> host_checks h a ps m w" "files w' = files w" for l cs x
    using early that Inr by (auto simp: pf_fail_def check_fails_def)
  have at_once: thesis if "\<exists>cs x. r = Inl (cs, x) \<and> pc_Label (last cs) = l" "(l, True) \<in> host_checks h a ps m w" "w' = w" for l
    using early that Inr by (auto simp: check_fails_def)
  obtain x1 w1 where 1: "existingInstanceNames h w = (x1, w1)" by fastforce
  obtain s w2 where 2: "sys_call ''stat'' w1 = (s, w2)" by fastforce
  obtain pulled x3 w3 where 3: "ensureImagesPresent h (mf_Instances m) w2 = ((pulled, x3), w3)" by (metis surj_pair)
  note ex = existingInstanceNames_refuses[OF 1]
  have q: "same_but_io w w1" using quiet_existing[OF same_but_io_refl, of w h] 1 by simp
  then have io2: "same_but_io w w2" using sys_call_same[OF 2] same_but_io_trans by blast
  have same: "files w1 = files w" "files w2 = files w" "images w2 = images w" using q io2 by (simp_all add: same_but_io_fields)
  have calm2: "io_schedule w = [] \<longrightarrow> io_schedule w2 = []" using ex(3) sys_call_step[OF 2] by auto
  have pull: "files w3 = files w \<and> (io_schedule w = [] \<longrightarrow> io_schedule w3 = []) \<and> (x3 \<noteq> None \<longrightarrow> (''Instance images are available'', True) \<in> host_checks h a ps m w)"
  proof (cases "ah_docker h")
    case True
    then have "pull_images h [] (mf_Instances m) w2 = ((pulled, x3), w3)" using 3 by (simp add: ensureImagesPresent_def)
    from pull_images_effect[OF this] show ?thesis using same calm2 by (auto simp: host_checks_def)
  next
    case False
    then show ?thesis using 3 same calm2 by (auto simp: ensureImagesPresent_def host_checks_def)
  qed
  consider "mf_FormatVersion m > 2" | "\<not> mf_FormatVersion m > 2" "isVersionNewer (mf_OddkVersion m) (ah_version h) = Some True"
    | y where "\<not> mf_FormatVersion m > 2" "isVersionNewer (mf_OddkVersion m) (ah_version h) \<noteq> Some True" "checkSnapshotArch (ah_arch h) m = Some y"
    | "\<not> mf_FormatVersion m > 2" "isVersionNewer (mf_OddkVersion m) (ah_version h) \<noteq> Some True" "checkSnapshotArch (ah_arch h) m = None"
        "daemonIsListening h (ap_DaemonPort ps)"
    | (host) "\<not> mf_FormatVersion m > 2" "isVersionNewer (mf_OddkVersion m) (ah_version h) \<noteq> Some True" "checkSnapshotArch (ah_arch h) m = None"
        "\<not> daemonIsListening h (ap_DaemonPort ps)"
    by (cases "checkSnapshotArch (ah_arch h) m") auto
  then show ?thesis
  proof cases
    case host
    consider (unreadable) e where "x1 = Inl e" | (there) n ns where "x1 = Inr (n # ns)" | (none) "x1 = Inr []" "x3 \<noteq> None"
      | (major) "x1 = Inr []" "x3 = None" "check_image_majors h m \<noteq> None" | (fine) "x1 = Inr []" "x3 = None" "check_image_majors h m = None"
      by (metis list.exhaust sum.exhaust)
    then show ?thesis
    proof cases
      case unreadable
      then have w: "w' = w1" and "\<exists>cs e. r = pf_fail ''Target deployment is empty'' cs e"
        using assms Inr host 1 by (auto simp: PreflightSnapshotApply_def Let_def SnapshotFormatVersion_def)
      then obtain cs y where r: "r = pf_fail ''Target deployment is empty'' cs y" by blast
      show ?thesis by (rule refused[OF r]) (use ex(1)[OF unreadable] same w in \<open>simp_all add: host_checks_def\<close>)
    next
      case there
      then have w: "w' = w1" and "\<exists>cs e. r = pf_fail ''Target deployment is empty'' cs e"
        using assms Inr host 1 by (auto simp: PreflightSnapshotApply_def Let_def SnapshotFormatVersion_def)
      then obtain cs y where r: "r = pf_fail ''Target deployment is empty'' cs y" by blast
      show ?thesis by (rule refused[OF r]) (use ex(2)[OF there] same w in \<open>simp_all add: host_checks_def\<close>)
    next
      case none
      then have w: "w' = w3" and "\<exists>cs e. r = pf_fail ''Instance images are available'' cs e"
        using assms Inr host 1 2 3 by (auto simp: PreflightSnapshotApply_def Let_def SnapshotFormatVersion_def) blast+
      then obtain cs y where r: "r = pf_fail ''Instance images are available'' cs y" by blast
      show ?thesis by (rule refused[OF r]) (use pull none(2) w in simp_all)
    next
      case major
      then have w: "w' = w3" and "\<exists>cs e. r = pf_fail ''Images match the recorded PostgreSQL majors'' cs e"
        using assms Inr host 1 2 3 by (auto simp: PreflightSnapshotApply_def Let_def SnapshotFormatVersion_def) blast+
      then obtain cs y where r: "r = pf_fail ''Images match the recorded PostgreSQL majors'' cs y" by blast
      show ?thesis by (rule refused[OF r]) (use pull w major(3) check_image_majors_iff[of h m] in \<open>simp_all add: host_checks_def\<close>)
    next
      case fine
      then obtain k cs where x: "extract_and_check h a ps m k pulled cs w3 = (r, w')"
        using assms Inr host 1 2 3 by (auto simp: PreflightSnapshotApply_def Let_def SnapshotFormatVersion_def)
      have "pull_images h [] (mf_Instances m) w2 = ((pulled, None), w3)"
        using 3 fine(2) by (auto simp: ensureImagesPresent_def split: if_splits)
      from pull_images_present[OF this] show ?thesis
        using late[OF Inr _ host(2-4) _ _ _ _ _ x] host(1) fine(3) check_image_majors_iff[of h m] pull
          existingInstanceNames_none[OF 1[unfolded fine(1)]] by auto
    qed
  next
    case 1
    show ?thesis by (rule at_once[of "''Snapshot format is supported''"])
      (use assms Inr 1 in \<open>auto simp: PreflightSnapshotApply_def SnapshotFormatVersion_def pf_fail_def host_checks_def\<close>)
  next
    case 2
    show ?thesis by (rule at_once[of "''Snapshot version is supported''"])
      (use assms Inr 2 in \<open>auto simp: PreflightSnapshotApply_def SnapshotFormatVersion_def pf_fail_def host_checks_def\<close>)
  next
    case (3 y)
    have "manifestHasPhysicalData m \<and> mf_SourceArch m \<notin> {'''', ah_arch h}" using 3(3) by (auto simp: checkSnapshotArch_def split: if_splits)
    then show ?thesis by (intro at_once[of "''Snapshot architecture matches this host''"])
      (use assms Inr 3 in \<open>auto simp: PreflightSnapshotApply_def SnapshotFormatVersion_def Let_def pf_fail_def host_checks_def\<close>)
  next
    case 4
    show ?thesis by (rule at_once[of "''Daemon is not running''"])
      (use assms Inr 4 in \<open>auto simp: PreflightSnapshotApply_def SnapshotFormatVersion_def Let_def pf_fail_def host_checks_def\<close>)
  qed
qed

interpretation im: keeps "\<lambda>w. images w = I" for I .

lemma images_calls:
  "images w = I \<Longrightarrow> images (snd (sys_call m w)) = I" "images w = I \<Longrightarrow> images (snd (write_file p n w)) = I"
  using sys_call_same[of m w] next_io_same[of w]
  by (auto simp: write_file_def set_file_def same_but_io_fields split: prod.splits outcome.splits)
     (metis prod.collapse same_but_io_fields(29))

lemma images_handleFile: "images w = I \<Longrightarrow> images (snd (handleFile dir f w)) = I"
  unfolding handleFile_def Let_def
  by (assumption | rule images_calls | rule im.bind | rule im.branch)+

lemma images_entries: "images w = I \<Longrightarrow> images (snd (extract_entries dir fs w)) = I"
proof (induction fs arbitrary: w)
  case (Cons f fs)
  obtain e w1 where "handleFile dir f w = (e, w1)" by fastforce
  then show ?case using Cons.IH[of w1] images_handleFile[OF Cons.prems, of dir f] by (cases e) simp_all
qed simp

lemma images_extraction: "images w = I \<Longrightarrow> images (snd (ExtractTarZstd a path dir w)) = I"
  unfolding ExtractTarZstd_def
  by (assumption | rule images_calls | rule images_entries | rule im.bind | rule im.branch)+

lemma extract_and_check_passed:
  assumes "extract_and_check h a ps m k pulled cs w = (Inr (cs', plan), w')"
  shows "contents_ready h a plan" "pl_Manifest plan = m" "pl_ExtractedDir plan = staging_dir h ps" "images w' = images w"
    "\<forall>f \<in> set (ar_entries a). file_entry f \<longrightarrow> files w' (Join2 (staging_dir h ps) (ae_Name f)) \<noteq> None"
proof -
  let ?dir = "staging_dir h ps"
  obtain r1 w1 where 1: "sys_call ''mkdir'' w = (r1, w1)" by fastforce
  obtain e2 w2 where 2: "ExtractTarZstd a (ap_ArchivePath ps) ?dir w1 = (e2, w2)" by fastforce
  obtain st w3 where 3: "os_Stat (Join2 ?dir snapshotStoreFile) w2 = (st, w3)" by fastforce
  obtain cs0 where e2: "e2 = None" and c: "check_contents h a ?dir m k pulled cs0 w3 = (Inr (cs', plan), w')"
    using assms 1 2 3 by (auto simp: extract_and_check_def Let_def pf_fail_def split: sum.splits option.splits prod.splits stat_result.splits)
  note ready = check_contents_ready[OF c]
  then show "contents_ready h a plan" "pl_Manifest plan = m" "pl_ExtractedDir plan = ?dir" by simp_all
  have q: "same_but_io w2 w'" using quiet_contents[OF same_but_io_refl, of w3 h a ?dir m k pulled cs0] c
      quiet_calls(3)[OF same_but_io_refl, of w2 "Join2 ?dir snapshotStoreFile"] 3 same_but_io_trans by (metis snd_conv)
  then have f: "files w' = files w2" "images w' = images w2" by (simp_all add: same_but_io_fields)
  then show "\<forall>f \<in> set (ar_entries a). file_entry f \<longrightarrow> files w' (Join2 ?dir (ae_Name f)) \<noteq> None"
    using ExtractTarZstd_files[OF 2[unfolded e2]] by simp
  show "images w' = images w" using f(2) images_extraction[OF refl, of a "ap_ArchivePath ps" ?dir w1] 2 sys_call_same[OF 1] by (simp add: same_but_io_fields)
qed


definition demo_archive :: archive where
  "demo_archive = \<lparr>ar_manifest = Inr \<lparr>mf_FormatVersion = 2, mf_OddkVersion = ''0.1.61'', mf_CreatedAt = 1, mf_SourceHost = ''src'', mf_SourceArch = ''arm64'',
       mf_Migrations = [], mf_Instances = [\<lparr>en_Name = ''db'', en_Version = ''17'', en_Image = ''postgres:17'', en_HasData = True,
         en_Format = ''physical'', en_CaptureMode = ''cold'', en_SkipReason = ''''\<rparr>]\<rparr>,
     ar_verify = None, ar_entries = [\<lparr>ae_Name = ''oddk.db'', ae_IsDir = False, ae_IsRegular = True, ae_Size = 4\<rparr>], ar_tail = None,
     ar_store = empty_world\<lparr>rdbms_instances := [demo_instance], parameters := [(cli_param ''jit'' ''string'' ''off'')\<lparr>par_GroupName := DefaultParameterGroup\<rparr>]\<rparr>,
     ar_meta = (\<lambda>n. Inr (Some \<lparr>im_Name = n, im_Version = ''17'', im_Image = ''postgres:17'', im_Port = 7, im_CPUCores = 1, im_RAMMB = 2,
        im_ParameterGroup = ''g'', im_ParameterGroupDefinition = Some []\<rparr>)),
     ar_databases = (\<lambda>_. Inr None), ar_globals = (\<lambda>_. Inr ''''), ar_basebackup = (\<lambda>_. [(''basebackup/base.tar.zst'', 9)]),
     ar_base = (\<lambda>_. copied_out ''d'' []), ar_wal = (\<lambda>_. None)\<rparr>"

definition demo_target :: apply_host where
  "demo_target = \<lparr>ah_now = 7, ah_temp = ''1'', ah_docker = True, ah_version = ''0.1.80'', ah_arch = ''arm64'', ah_listening = (\<lambda>_. False), ah_port_answers = (\<lambda>_. False), ah_db_exists = True,
     ah_db_unusable = False, ah_key_exists = True, ah_cores = Inr 2, ah_memory = Inr 4194304, ah_image_major = (\<lambda>_. Some 17),
     ah_pull = (\<lambda>_. Inr ''sha''), ah_key = Inr (replicate 32 (CHR ''k'')), ah_dec = (\<lambda>_ s. Inr s)\<rparr>"

definition demo_apply :: SnapshotApplyParams where
  "demo_apply = \<lparr>ap_ArchivePath = ''/b/s.tar.zst'', ap_DataDir = ''/d'', ap_BackupDir = ''/b'', ap_DaemonPort = 7, ap_NoPauseSchedules = False\<rparr>"

text \<open>
  A copy with one row per key, readable integers and a default parameter group opens whenever no
  call fails.
\<close>

lemma NewStore_opens:
  assumes "length key = KeyFileSize" "io_schedule w = []" "DefaultParameterGroup \<in> par_GroupName ` set (parameters snap)"
    "kv_keys_ok snap" "\<forall>r \<in> set (kvstore snap). int_key (kv_Key r) \<longrightarrow> Atoi (kv_Value r) \<noteq> None"
  shows "fst (fst (NewStore now key snap w)) = None"
proof -
  let ?s = "snap\<lparr>io_schedule := []\<rparr>"
  have g: "EnsureDefaultParameterGroup now ?s = (None, ?s)"
    using assms(3) by (simp add: EnsureDefaultParameterGroup_def GroupExists_def calm_primitives)
  have "\<exists>e kv' v. KV_Initialize now NewKVStore ?s = Some (e, kv', v) \<and> e = None"
    using KV_Initialize_seeds[of ?s now NewKVStore] assms(4,5) by (fastforce simp: kv_keys_ok_def)
  then show ?thesis using assms(1,2) g by (auto simp: NewStore_def sys_call_calm on_copy_def kv_start_def)
qed

lemma demo_conditions:
  "isVersionNewer ''0.1.61'' ''0.1.80'' \<noteq> Some True" "parseMajorVersion ''17'' = Some 17"
  "\<not> entry_rejected (staging_dir demo_target demo_apply) \<lparr>ae_Name = ''oddk.db'', ae_IsDir = False, ae_IsRegular = True, ae_Size = 4\<rparr>"
  "physicalBasePath snapshotBasebackupDir [(''basebackup/base.tar.zst'', 9)] \<noteq> None"
  by code_simp+

lemma demo_key:
  "ah_key demo_target = Inr key \<Longrightarrow> \<not> copy_refused demo_target demo_archive key \<and> key_fits demo_target (ar_store demo_archive) key"
  using NewStore_opens[of key _ "ar_store demo_archive" "ah_now demo_target"]
  by (auto simp: demo_target_def demo_archive_def copy_refused_def key_fits_def demo_instance_def empty_world_def kv_keys_ok_def KeyFileSize_def)

lemma demo_host_checks: "ar_manifest demo_archive = Inr m \<Longrightarrow> (l, True) \<notin> host_checks demo_target demo_archive demo_apply m empty_world"
  using demo_conditions(1,2,3)
  by (auto simp: host_checks_def demo_archive_def demo_target_def demo_apply_def empty_world_def daemonIsListening_def wrong_major_def file_entry_def snapshotStoreFile_def)

lemma demo_contents_checks: "ar_manifest demo_archive = Inr m \<Longrightarrow> (l, True) \<notin> contents_checks False demo_target demo_archive m"
  using demo_conditions(4) demo_key
  by (auto simp: contents_checks_def demo_archive_def demo_target_def payload_missing_def described_def list_all2_Cons1
      fits_def max_int64_def libc_only_def logicalInstanceMetas_def entryFormat_def SnapshotFormatPhysical_def)

lemma demo_passes: "\<not> check_fails demo_target demo_archive demo_apply empty_world l"
  using demo_host_checks demo_contents_checks by (auto simp: check_fails_def empty_world_def demo_archive_def)


end
