(* ===== verification/Spec2Isabelle.thy ===== *)
theory Spec2Isabelle
  imports Auth Health Reconcile Executor SnapshotApply
begin

text \<open>
  A verification development for \<^bold>\<open>oddk\<close>, a daemon that runs PostgreSQL instances in Docker
  containers, keeps their backups and whole-deployment snapshots on local disk and in an S3
  bucket (the \<^emph>\<open>offsite\<close>), and ages them out on a schedule. All paths below are under
  \<open>src/\<close>.

  \<^bold>\<open>The program.\<close> The state is one SQLite file, \<open>oddk.db\<close>, read and written by the packages
  under \<open>internal/store\<close>. Operations (\<open>internal/operations\<close>) combine store calls with file
  system, S3 and Docker calls; an \<open>Executor\<close> lets one of them run at a time. The daemon
  (\<open>internal/daemon\<close>) repairs the catalogue at start-up, ticks a scheduler that submits the
  due tasks to a queue, sweeps old logs, and serves HTTP requests whose errors carry a
  marker (\<open>internal/operr\<close>) that decides the status code. Secrets are sealed under a master
  key (\<open>internal/crypto\<close>).

  \<^bold>\<open>How an effect is modelled.\<close> \<^const>\<open>World.empty_world\<close> starts a \<open>world\<close>: a record of the
  tables, the files (path to size), the bucket objects, the containers, volumes and images of
  the Docker engine, the notices handed to third-party senders, and a schedule with one
  outcome for each coming input or output call. \<open>Done\<close> answers as documented, \<open>Refused\<close> fails without an
  effect, \<open>Lost\<close> takes effect and reports a failure. An operation is a function from a world
  to its result and the new world; a Go error is a value of \<open>goerror\<close>, and every early
  return of the source is a branch. A statement proved for an arbitrary schedule holds under
  every pattern of failures; one about the undisturbed run assumes \<open>io_schedule w = []\<close>.
  Go's \<open>int\<close> and \<open>int64\<close> are unbounded \<open>int\<close> with \<open>wrap64\<close> written where the code may
  leave the range; instants are nanoseconds, zero being Go's zero time; a timestamp the code
  takes from \<open>time.Now\<close> is an argument. Randomness, ciphers, hashes, JSON, the expression
  evaluator and what the host reports (disk, load) are arguments as well, with what the code relies on as hypotheses of the
  theorems that need it.

  \<^bold>\<open>The theories\<close>, in the order of their dependence:

  \<^item> \<open>GoPrelude\<close>: integers, strings, errors and \<open>errors.Is\<close>, \<open>strconv\<close>, \<open>strings\<close>, with
    the shared lemmas. \<open>World\<close>: rows, tables, input and output, SQL updates, and the locale
    \<open>table_invariant\<close>: a predicate on worlds that no read disturbs is kept by each store
    call whose statements keep it. \<open>Paths\<close>: \<open>path/filepath\<close>.
  \<^item> \<open>Operr\<close>: \<open>internal/operr\<close>, \<open>writeOpError\<close> and \<open>withAuth\<close> of \<open>internal/daemon/utils.go\<close>.
    The status code is decided by the innermost marker through any wrapping.
  \<^item> \<open>InstanceStore\<close>: \<open>internal/store/instances\<close>, with the \<open>CHECK\<close> and \<open>UNIQUE\<close>
    constraints of \<open>migrations.go\<close>; the store refines a map from names to rows, call by call.
    \<open>Reconcile\<close>: \<open>internal/daemon/reconcile.go\<close> and the container probe.
  \<^item> \<open>Catalogue\<close>: the loop that re-points a catalogue after the data directory moved, proved
    once in the locale \<open>dual_catalogue\<close> and interpreted for snapshots and backups.
    \<open>SnapshotStore\<close>, \<open>BackupStore\<close>, \<open>CronStore\<close>, \<open>OffsiteStore\<close>: the packages of these
    names, the last with \<open>operations/offsite.go\<close>.
  \<^item> \<open>S3Client\<close>: \<open>services/s3/client.go\<close>, \<open>s3_location.go\<close> and the two upload operations; the
    location an upload records resolves to the object it wrote, and to no other bucket.
  \<^item> \<open>Retention\<close>: \<open>operations/retention.go\<close>, and the locales of a cleanup walk
    (\<open>fitted_walk\<close>, \<open>fitted_justified_walk\<close>, \<open>fitted_kept_walk\<close>, \<open>justified_walk\<close>,
    \<open>newest_kept_walk\<close>): if one turn of the loop only removes for a reason, or keeps what the
    floor protects, so does the loop. \<open>SnapshotCron\<close> and \<open>BackupCron\<close>, the whole scheduled
    tasks, interpret them for their four cleanup loops. \<open>CronNotify\<close>: when a run reports.
  \<^item> \<open>KVStore\<close>: \<open>store/kvstore\<close> with both caches (locale \<open>read_through\<close>, one interpretation
    per cache) and the set handler of \<open>handlers_customkv.go\<close>: what is read through the caches
    is what the table holds.
  \<^item> \<open>Base64\<close>, \<open>KeyFile\<close>: the master key file. \<open>NotificationStore\<close>: channels and their
    sealed configuration. \<open>Secrets\<close>: the start-up re-encryption sweeps, proved once in the
    locale \<open>sealed_column\<close> and interpreted for the three secret columns.
  \<^item> \<open>Scheduler\<close>: \<open>cron_scheduler.go\<close>, \<open>cron_tasks.go\<close>, \<open>log_retention.go\<close>: which plans
    fire, the task queue as a refinement of a first-come first-served queue, the worker that
    drains it while others submit, the log sweep.
    \<open>Executor\<close>: \<open>operations/executor.go\<close> and the shutdown of \<open>daemon/server.go\<close> as step
    relations of interleaved callers.
  \<^item> \<open>Parameters\<close>: \<open>store/parameters\<close>, the resolver and the shared-memory estimate in
    64-bit arithmetic, against a reading of the settings over unbounded integers.
  \<^item> \<open>Auth\<close>: \<open>store/auth\<close>: a token is admitted from its creation to its revocation and
    nothing else is, with the hash as an argument.
  \<^item> \<open>Docker\<close>: the instance containers of \<open>internal/docker\<close> over an engine with its
    documented requests, and the invariant of names and ids. \<open>Lifecycle\<close>: the operations that
    create, destroy, start, stop, switch, update and reconfigure an instance; a change that
    fails is rolled back to the container and image it found.
  \<^item> \<open>Sender\<close>: \<open>services/notification_sender.go\<close>, the channel operations and the daily
    reminder of a paused schedule. \<open>Health\<close>: the health records, the checks, the notices on a
    change of state as a refinement of a three-state specification, and the check scheduler
    as a step relation.
  \<^item> \<open>BackupAdmin\<close>: dropping all backups, removing one copy, shifting a timestamp.
    \<open>Download\<close>: bringing archives back from the offsite through a verified temporary file
    (\<open>rdbms_download_backup.go\<close>, \<open>snapshot_retrieve.go\<close>, \<open>snapshot_fetch.go\<close>), the choice of
    credentials, the reuse of fetched archives and the listing of a bucket.
  \<^item> \<open>PgText\<close>: the texts handed to PostgreSQL and to the file system: literals, \<open>.pgpass\<close>
    fields, connection strings, grants, role names read from \<open>globals.sql\<close>, instance and
    host names, versions, memory sizes; what is quoted reads back as what was meant.
    \<open>TarStream\<close>: the tar streams of \<open>snapshot_physical.go\<close>: a cold copy restores to the
    files it was taken from, and no archive writes outside the data directory.
  \<^item> \<open>SnapshotMake\<close>: \<open>snapshot_make.go\<close>, the capture of \<open>snapshot_physical.go\<close> and
    \<open>rdbms_backup.go\<close>, \<open>helper_container.go\<close>, and \<open>writeVerifiedArchive\<close> of
    \<open>internal/compression\<close>. \<open>SnapshotFacts\<close>: staging leaves the deployment alone (the rules of
    the locale \<open>keeps\<close>), an archive is published whole or not at all, and no instance is left
    out without a word.
  \<^item> \<open>SnapshotApply\<close>: the preflight of \<open>snapshot_apply.go\<close> with the checks it takes from
    \<open>snapshot_physical.go\<close>, \<open>snapshot_rebuild.go\<close>, \<open>snapshot_restore_instance.go\<close> and
    \<open>internal/util/resources.go\<close>, the extraction of \<open>internal/compression\<close> and the opening of the
    copied store by \<open>NewStore\<close>: it touches nothing but pulled images and its own staging
    directory, a refusal names a check that really fails, and a pass means the archive can be
    applied to this host (the rules of the locales \<open>keeps\<close> and \<open>answers\<close> carry the frame and the
    report through the checks).

  \<^bold>\<open>Bounds and fuel.\<close> No definition needs fuel: loops over rows are structural, the worker
  loop of the task queue terminates by the length of the queue and of the submissions still to
  come, of which there are finitely many; the wait for PostgreSQL takes
  the number of probes that fit into its 90 seconds as an argument, and a notice is attempted
  three times. Character and digit bounds are the ones of \<open>strconv\<close> at 64 bits.

  \<^bold>\<open>Not modelled.\<close> Requests and responses as JSON, the command line client, container log
  streams, what \<open>pg_dump\<close>, \<open>pg_restore\<close> and \<open>pg_basebackup\<close> do inside a helper container, the
  phase of a snapshot apply that replaces the store and rebuilds the instances, the bytes of zstd and tar streams, the wire protocols of the notification services, schema migration steps (the
  final schema's constraints are in the stores), and file permissions and modification times:
  apart from that phase these are calls of code outside the repository with no decision of
  their own to prove.
\<close>

end
